(* ===== verification/Prelude.thy ===== *)
theory Prelude
  imports Main "HOL-Library.AList" "HOL-Library.Word" "HOL-Library.Product_Lexorder"
begin

text \<open>
  Shared vocabulary of the development: the parts of the JavaScript language and its standard
  library that the modelled TypeScript modules use.

  \<^item> A \<open>Map\<close> iterates in insertion order, and some reducers depend on that order, so it is an
    association list: \<open>set\<close> on a present key keeps the key's place, on an absent one it appends.
    The laws the components rely on are the locale \<open>js_map\<close>, interpreted on these lists.
  \<^item> A \<open>Set\<close> is a list in insertion order, with the laws of the locale \<open>js_set\<close>.
  \<^item> \<open>undefined\<close> and \<open>null\<close> are \<open>None\<close>; a field that tells the two apart has two option levels.
    The operator \<open>??\<close> is \<open>nullish\<close> (a plain default) or \<open>alt\<close> (an optional default).
  \<^item> A string that the code looks into by code unit or code point is a \<open>jstring\<close>, a list of
    16-bit code units. A string that is only compared, lower-cased or trimmed is a HOL string,
    read as Latin-1 text; \<open>toLowerCase\<close> and \<open>trim\<close> are exact on that range.
  \<^item> Numbers (ids, counts, times) are integers; the code uses them within the safe range.
\<close>

subsection \<open>Optional values\<close>

definition nullish :: "'a option \<Rightarrow> 'a \<Rightarrow> 'a" where
  "nullish x d = (case x of None \<Rightarrow> d | Some v \<Rightarrow> v)"

definition alt :: "'a option \<Rightarrow> 'a option \<Rightarrow> 'a option" where
  "alt x d = (case x of None \<Rightarrow> d | Some v \<Rightarrow> Some v)"

lemma nullish_simps [simp]: "nullish None d = d" "nullish (Some v) d = v"
  by (simp_all add: nullish_def)

lemma alt_simps [simp]: "alt None d = d" "alt (Some v) d = Some v"
  by (simp_all add: alt_def)

subsection \<open>Maps in insertion order\<close>

type_synonym ('k, 'v) jmap = "('k \<times> 'v) list"

definition jm_get :: "('k, 'v) jmap \<Rightarrow> 'k \<Rightarrow> 'v option" where
  "jm_get m k = map_of m k"

definition jm_has :: "('k, 'v) jmap \<Rightarrow> 'k \<Rightarrow> bool" where
  "jm_has m k = (map_of m k \<noteq> None)"

definition jm_set :: "('k, 'v) jmap \<Rightarrow> 'k \<Rightarrow> 'v \<Rightarrow> ('k, 'v) jmap" where
  "jm_set m k v = AList.update k v m"

definition jm_delete :: "('k, 'v) jmap \<Rightarrow> 'k \<Rightarrow> ('k, 'v) jmap" where
  "jm_delete m k = AList.delete k m"

definition jm_keys :: "('k, 'v) jmap \<Rightarrow> 'k list" where
  "jm_keys m = map fst m"

definition jm_values :: "('k, 'v) jmap \<Rightarrow> 'v list" where
  "jm_values m = map snd m"

definition jm_wf :: "('k, 'v) jmap \<Rightarrow> bool" where
  "jm_wf m = distinct (map fst m)"

text \<open>What a client of a \<open>Map\<close> may use: lookups after \<open>set\<close> and \<open>delete\<close>, and how the two
  change the iteration order.\<close>

locale js_map =
  fixes get :: "'m \<Rightarrow> 'k \<Rightarrow> 'v option"
    and put :: "'m \<Rightarrow> 'k \<Rightarrow> 'v \<Rightarrow> 'm"
    and del :: "'m \<Rightarrow> 'k \<Rightarrow> 'm"
    and keys :: "'m \<Rightarrow> 'k list"
  assumes get_put: "get (put m k v) k' = (if k' = k then Some v else get m k')"
    and get_del: "get (del m k) k' = (if k' = k then None else get m k')"
    and keys_iff: "k \<in> set (keys m) \<longleftrightarrow> get m k \<noteq> None"
    and keys_put: "keys (put m k v) = (if k \<in> set (keys m) then keys m else keys m @ [k])"
    and keys_del: "keys (del m k) = filter (\<lambda>k'. k' \<noteq> k) (keys m)"
begin

lemma distinct_put: "distinct (keys m) \<Longrightarrow> distinct (keys (put m k v))"
  by (simp add: keys_put)

lemma distinct_del: "distinct (keys m) \<Longrightarrow> distinct (keys (del m k))"
  by (simp add: keys_del)

lemma get_put_put: "get (put (put m k v) k w) = get (put m k w)"
  by (rule ext) (simp add: get_put)

lemma get_put_commute: "k \<noteq> l \<Longrightarrow> get (put (put m k v) l w) = get (put (put m l w) k v)"
  by (rule ext) (simp add: get_put)

lemma get_fold_put_other:
  "k \<notin> fst ` set kvs \<Longrightarrow> get (fold (\<lambda>(a, b) m. put m a b) kvs m) k = get m k"
  by (induction kvs arbitrary: m) (auto simp: get_put)

lemma keys_get_None: "get m k = None \<Longrightarrow> keys (put m k v) = keys m @ [k]"
  by (simp add: keys_put keys_iff)

end

lemma map_fst_update:
  "map fst (AList.update k v m) = (if k \<in> set (map fst m) then map fst m else map fst m @ [k])"
  by (induction m) auto

interpretation jm: js_map jm_get jm_set jm_delete jm_keys
proof
  fix m :: "('a, 'b) jmap" and k k' v
  show "jm_get (jm_set m k v) k' = (if k' = k then Some v else jm_get m k')"
    by (simp add: jm_get_def jm_set_def update_conv)
  show "jm_get (jm_delete m k) k' = (if k' = k then None else jm_get m k')"
    by (simp add: jm_get_def jm_delete_def delete_conv)
  show "k \<in> set (jm_keys m) \<longleftrightarrow> jm_get m k \<noteq> None"
    by (auto simp: jm_keys_def jm_get_def map_of_eq_None_iff)
  show "jm_keys (jm_set m k v) = (if k \<in> set (jm_keys m) then jm_keys m else jm_keys m @ [k])"
    unfolding jm_keys_def jm_set_def by (rule map_fst_update)
  show "jm_keys (jm_delete m k) = filter (\<lambda>k'. k' \<noteq> k) (jm_keys m)"
    by (induction m) (auto simp: jm_keys_def jm_delete_def AList.delete_eq)
qed

lemmas jm_simps [simp] = jm.get_put jm.get_del

lemma jm_get_Nil [simp]: "jm_get [] k = None"
  by (simp add: jm_get_def)

lemma jm_get_Cons: "jm_get ((a, b) # m) k = (if k = a then Some b else jm_get m k)"
  by (simp add: jm_get_def)

lemma jm_has_iff [simp]: "jm_has m k \<longleftrightarrow> jm_get m k \<noteq> None"
  by (simp add: jm_has_def jm_get_def)

lemma jm_wf_Nil [simp]: "jm_wf []"
  by (simp add: jm_wf_def)

lemma jm_set_new: "k \<notin> set (jm_keys m) \<Longrightarrow> jm_set m k v = m @ [(k, v)]"
  by (induction m) (auto simp: jm_set_def jm_keys_def)

lemma jm_wf_keys: "jm_wf m \<longleftrightarrow> distinct (jm_keys m)"
  by (simp add: jm_wf_def jm_keys_def)

lemma jm_wf_set [simp, intro]: "jm_wf m \<Longrightarrow> jm_wf (jm_set m k v)"
  by (simp add: jm_wf_keys jm.distinct_put)

lemma jm_wf_delete [simp, intro]: "jm_wf m \<Longrightarrow> jm_wf (jm_delete m k)"
  by (simp add: jm_wf_keys jm.distinct_del)

lemma jm_get_mem: "jm_wf m \<Longrightarrow> (k, v) \<in> set m \<Longrightarrow> jm_get m k = Some v"
  by (simp add: jm_wf_def jm_get_def)

lemma jm_get_SomeD: "jm_get m k = Some v \<Longrightarrow> (k, v) \<in> set m"
  by (simp add: jm_get_def map_of_SomeD)

lemma jm_values_iff: "jm_wf m \<Longrightarrow> v \<in> set (jm_values m) \<longleftrightarrow> (\<exists>k. jm_get m k = Some v)"
  by (force simp: jm_values_def dest: jm_get_SomeD intro: jm_get_mem)

lemma jm_set_same: "jm_get m k = Some v \<Longrightarrow> jm_set m k v = m"
  by (induction m) (auto simp: jm_set_def jm_get_def split: if_splits)

lemma jm_set_set [simp]: "jm_set (jm_set m k v) k w = jm_set m k w"
  by (simp add: jm_set_def)

lemma jm_delete_absent: "jm_get m k = None \<Longrightarrow> jm_delete m k = m"
  by (induction m) (auto simp: jm_delete_def jm_get_def split: if_splits)

lemma jm_delete_delete [simp]: "jm_delete (jm_delete m k) k = jm_delete m k"
  by (rule jm_delete_absent) simp

lemma jm_get_map_values: "jm_get (map (\<lambda>(k, v). (k, g k v)) m) k = map_option (g k) (jm_get m k)"
  by (induction m) (auto simp: jm_get_def)

lemma jm_delete_set_fresh: "jm_get m k = None \<Longrightarrow> jm_delete (jm_set m k v) k = m"
  by (induction m) (auto simp: jm_delete_def jm_set_def jm_get_def split: if_splits)

lemma set_jm_set: "set (jm_set m k v) \<subseteq> insert (k, v) (set m)"
  by (induction m) (auto simp: jm_set_def)

lemma jm_same_entries:
  assumes "jm_wf a" and "jm_wf b" and "length a = length b" and "\<And>k v. (k, v) \<in> set a \<Longrightarrow> jm_get b k = Some v"
  shows "jm_get a = jm_get b"
proof -
  have "set a \<subseteq> set b" using assms(4) jm_get_SomeD by fastforce
  moreover have "card (set b) \<le> card (set a)"
    using assms(1-3) by (simp add: jm_wf_def distinct_card distinct_map)
  ultimately have "set a = set b" by (simp add: card_seteq)
  then show ?thesis using assms(1,2) map_of_inject_set [of a b] by (simp add: jm_get_def jm_wf_def fun_eq_iff)
qed

text \<open>\<open>new Map(entries)\<close>: a later entry of a key replaces the value of an earlier one.\<close>

definition jm_of_list :: "('k \<times> 'v) list \<Rightarrow> ('k, 'v) jmap" where
  "jm_of_list kvs = fold (\<lambda>(k, v) m. jm_set m k v) kvs []"

lemma jm_wf_fold: "jm_wf m \<Longrightarrow> jm_wf (fold (\<lambda>(k, v) m. jm_set m k v) kvs m)"
  by (induction kvs arbitrary: m) auto

lemma jm_wf_of_list [simp]: "jm_wf (jm_of_list kvs)"
  by (simp add: jm_of_list_def jm_wf_fold)

lemma jm_get_fold:
  "jm_get (fold (\<lambda>(k, v) m. jm_set m k v) kvs m) k = alt (map_of (rev kvs) k) (jm_get m k)"
  by (induction kvs arbitrary: m) (auto simp: alt_def map_add_def split: option.splits)

lemma jm_get_of_list: "jm_get (jm_of_list kvs) k = map_of (rev kvs) k"
  by (simp add: jm_of_list_def jm_get_fold alt_def split: option.split)

lemma jm_get_of_listD: "jm_get (jm_of_list kvs) k = Some v \<Longrightarrow> (k, v) \<in> set kvs"
  by (auto simp: jm_get_of_list dest: map_of_SomeD)

subsection \<open>Sets in insertion order\<close>

type_synonym 'a jset = "'a list"

definition js_has :: "'a jset \<Rightarrow> 'a \<Rightarrow> bool" where
  "js_has s x = List.member s x"

definition js_add :: "'a jset \<Rightarrow> 'a \<Rightarrow> 'a jset" where
  "js_add s x = (if List.member s x then s else s @ [x])"

definition js_delete :: "'a jset \<Rightarrow> 'a \<Rightarrow> 'a jset" where
  "js_delete s x = filter (\<lambda>y. y \<noteq> x) s"

text \<open>\<open>new Set(array)\<close>: the first occurrence of each element, in order.\<close>

definition js_of_list :: "'a list \<Rightarrow> 'a jset" where
  "js_of_list xs = fold (\<lambda>x s. js_add s x) xs []"

locale js_set =
  fixes has :: "'s \<Rightarrow> 'a \<Rightarrow> bool"
    and add :: "'s \<Rightarrow> 'a \<Rightarrow> 's"
    and del :: "'s \<Rightarrow> 'a \<Rightarrow> 's"
  assumes has_add: "has (add s x) y \<longleftrightarrow> y = x \<or> has s y"
    and has_del: "has (del s x) y \<longleftrightarrow> y \<noteq> x \<and> has s y"
begin

lemma has_fold_add: "has (fold (\<lambda>x s. add s x) xs s) y \<longleftrightarrow> y \<in> set xs \<or> has s y"
  by (induction xs arbitrary: s) (auto simp: has_add)

lemma add_del_other: "y \<noteq> x \<Longrightarrow> has (add (del s x) x) y \<longleftrightarrow> has s y"
  by (simp add: has_add has_del)

end

interpretation js: js_set js_has js_add js_delete
  by unfold_locales (auto simp: js_has_def js_add_def js_delete_def)

lemmas js_simps [simp] = js.has_add js.has_del

lemma js_has_Nil [simp]: "\<not> js_has [] x"
  by (simp add: js_has_def)

lemma js_has_set: "js_has s x \<longleftrightarrow> x \<in> set s"
  by (simp add: js_has_def)

lemma js_of_list_has [simp]: "js_has (js_of_list xs) x \<longleftrightarrow> x \<in> set xs"
  unfolding js_of_list_def by (simp add: js.has_fold_add)

subsection \<open>Arrays\<close>

text \<open>\<open>findIndex\<close>, with \<open>None\<close> for -1.\<close>

fun find_index :: "('a \<Rightarrow> bool) \<Rightarrow> 'a list \<Rightarrow> nat option" where
  "find_index P [] = None"
| "find_index P (x # xs) = (if P x then Some 0 else map_option Suc (find_index P xs))"

lemma find_index_None: "find_index P xs = None \<longleftrightarrow> (\<forall>x \<in> set xs. \<not> P x)"
  by (induction xs) auto

lemma find_index_SomeD:
  "find_index P xs = Some i \<Longrightarrow> i < length xs \<and> P (xs ! i) \<and> (\<forall>j < i. \<not> P (xs ! j))"
proof (induction xs arbitrary: i)
  case Nil
  then show ?case by simp
next
  case (Cons x xs)
  show ?case
  proof (cases "P x")
    case True
    with Cons.prems show ?thesis by simp
  next
    case False
    with Cons.prems obtain k where "find_index P xs = Some k" "i = Suc k" by auto
    with Cons.IH False show ?thesis by (auto simp: nth_Cons split: nat.split)
  qed
qed

text \<open>\<open>findIndex\<close> followed by a \<open>map\<close> that replaces that one element.\<close>

fun update_first :: "('a \<Rightarrow> bool) \<Rightarrow> ('a \<Rightarrow> 'a) \<Rightarrow> 'a list \<Rightarrow> 'a list" where
  "update_first P f [] = []"
| "update_first P f (x # xs) = (if P x then f x # xs else x # update_first P f xs)"

lemma update_first_find_index:
  "update_first P f xs = (case find_index P xs of None \<Rightarrow> xs | Some i \<Rightarrow> xs[i := f (xs ! i)])"
  by (induction xs) (auto split: option.splits)

lemma find_index_list_update:
  "find_index P xs = Some i \<Longrightarrow> xs[i := f (xs ! i)] = update_first P f xs"
  by (simp add: update_first_find_index)

lemma update_first_id: "\<forall>x \<in> set xs. \<not> P x \<Longrightarrow> update_first P f xs = xs"
  by (induction xs) auto

lemma length_update_first [simp]: "length (update_first P f xs) = length xs"
  by (induction xs) auto

lemma update_first_compose:
  "(\<And>x. P x \<Longrightarrow> P (f x)) \<Longrightarrow> update_first P g (update_first P f xs) = update_first P (g \<circ> f) xs"
  by (induction xs) auto

lemma update_first_split:
  "x \<in> set xs \<Longrightarrow> P x \<Longrightarrow> \<exists>ys y zs. xs = ys @ y # zs \<and> P y \<and> (\<forall>z \<in> set ys. \<not> P z) \<and>
     update_first P f xs = ys @ f y # zs"
proof (induction xs)
  case Nil
  then show ?case by simp
next
  case (Cons a xs)
  show ?case
  proof (cases "P a")
    case True
    then show ?thesis by (intro exI [of _ "[]"] exI [of _ a] exI [of _ xs]) simp
  next
    case False
    with Cons obtain ys y zs where "xs = ys @ y # zs" "P y" "\<forall>z \<in> set ys. \<not> P z"
      "update_first P f xs = ys @ f y # zs"
      by auto
    with False show ?thesis by (intro exI [of _ "a # ys"] exI [of _ y] exI [of _ zs]) simp
  qed
qed

text \<open>\<open>slice(-n)\<close> and \<open>slice(length - n)\<close> on a longer array: the last \<open>n\<close> elements.\<close>

definition last_n :: "nat \<Rightarrow> 'a list \<Rightarrow> 'a list" where
  "last_n n xs = drop (length xs - n) xs"

lemma length_last_n [simp]: "length (last_n n xs) = min n (length xs)"
  by (simp add: last_n_def)

lemma last_n_all: "length xs \<le> n \<Longrightarrow> last_n n xs = xs"
  by (simp add: last_n_def)

lemma set_last_n: "set (last_n n xs) \<subseteq> set xs"
  by (simp add: last_n_def set_drop_subset)

lemma last_n_append_short: "length ys \<le> n \<Longrightarrow> last_n n (xs @ ys) = last_n (n - length ys) xs @ ys"
  by (simp add: last_n_def)

text \<open>Distinctness of a key over the elements that carry one.\<close>

lemma distinct_map_filter_drop:
  "distinct (map f (filter P xs)) \<Longrightarrow> distinct (map f (filter P (drop n xs)))"
proof -
  assume "distinct (map f (filter P xs))"
  then have "distinct (map f (filter P (take n xs)) @ map f (filter P (drop n xs)))"
    by (metis append_take_drop_id filter_append map_append)
  then show ?thesis by simp
qed

lemma distinct_map_filter_take:
  "distinct (map f (filter P xs)) \<Longrightarrow> distinct (map f (filter P (take n xs)))"
proof -
  assume "distinct (map f (filter P xs))"
  then have "distinct (map f (filter P (take n xs)) @ map f (filter P (drop n xs)))"
    by (metis append_take_drop_id filter_append map_append)
  then show ?thesis by simp
qed

lemma distinct_map_filter2:
  "distinct (map f (filter P xs)) \<Longrightarrow> distinct (map f (filter P (filter Q xs)))"
  by (induction xs) auto

lemma sorted_wrt_filter_drop: "sorted_wrt R xs \<Longrightarrow> sorted_wrt R (last_n n xs)"
  by (simp add: last_n_def sorted_wrt_drop)

lemma distinct_map_sort_key: "distinct (map f (sort_key g xs)) = distinct (map f xs)"
  by (simp add: distinct_map)

text \<open>\<open>toSorted\<close> is stable: sorting an ordered list by another key orders it by both.\<close>

lemma sorted_insort_pair:
  fixes f :: "'a \<Rightarrow> 'b::linorder" and g :: "'a \<Rightarrow> 'c::linorder"
  shows "sorted (map (\<lambda>x. (f x, g x)) zs) \<Longrightarrow> \<forall>z \<in> set zs. g y \<le> g z \<Longrightarrow>
    sorted (map (\<lambda>x. (f x, g x)) (insort_key f y zs))"
proof (induction zs)
  case (Cons z zs)
  show ?case
  proof (cases "f y \<le> f z")
    case True
    have "(f z, g z) \<le> (f x, g x)" if "x \<in> set zs" for x using Cons.prems(1) that by simp
    then have "(f y, g y) \<le> (f x, g x)" if "x \<in> set (z # zs)" for x
      using True Cons.prems(2) that by (fastforce simp: less_eq_prod_def)
    moreover have "insort_key f y (z # zs) = y # z # zs" using True by simp
    ultimately have "\<forall>p \<in> set (map (\<lambda>x. (f x, g x)) (z # zs)). (f y, g y) \<le> p"
      unfolding list.set_map by blast
    then show ?thesis
      unfolding \<open>insort_key f y (z # zs) = y # z # zs\<close> using Cons.prems(1)
      by (subst list.map, subst sorted_simps) blast
  next
    case False
    then have "(f z, g z) \<le> (f x, g x)" if "x \<in> set (insort_key f y zs)" for x
      using Cons.prems(1) that by (auto simp: set_insort_key less_eq_prod_def)
    with False Cons show ?thesis by simp
  qed
qed simp

lemma sorted_sort_pair:
  fixes f :: "'a \<Rightarrow> 'b::linorder" and g :: "'a \<Rightarrow> 'c::linorder"
  shows "sorted (map g xs) \<Longrightarrow> sorted (map (\<lambda>x. (f x, g x)) (sort_key f xs))"
  by (induction xs) (auto intro: sorted_insort_pair)

subsection \<open>Runs and invariants\<close>

text \<open>A run of a component: a list of actions with the states between them. A component states its
  invariant once, as an interpretation of \<open>invariant_system\<close>, and gets it for every reachable state.\<close>

inductive runs :: "('s \<Rightarrow> 'a \<Rightarrow> 's \<Rightarrow> bool) \<Rightarrow> 's \<Rightarrow> 'a list \<Rightarrow> 's \<Rightarrow> bool"
  for step :: "'s \<Rightarrow> 'a \<Rightarrow> 's \<Rightarrow> bool" where
  runs_Nil: "runs step s [] s"
| runs_Cons: "step s a s' \<Longrightarrow> runs step s' as t \<Longrightarrow> runs step s (a # as) t"

inductive_cases runs_ConsE: "runs step s (a # as) t"
inductive_simps runs_Nil_iff [simp]: "runs step s [] t"

lemma runs_append: "runs step s as t \<Longrightarrow> runs step t bs u \<Longrightarrow> runs step s (as @ bs) u"
  by (induction rule: runs.induct) (auto intro: runs_Cons)

locale invariant_system =
  fixes step :: "'s \<Rightarrow> 'a \<Rightarrow> 's \<Rightarrow> bool"
    and init :: "'s"
    and inv :: "'s \<Rightarrow> bool"
  assumes init_inv: "inv init"
    and step_inv: "inv s \<Longrightarrow> step s a t \<Longrightarrow> inv t"
begin

lemma runs_inv: "runs step s as t \<Longrightarrow> inv s \<Longrightarrow> inv t"
  by (induction rule: runs.induct) (auto intro: step_inv)

lemma reachable_inv: "runs step init as t \<Longrightarrow> inv t"
  using runs_inv init_inv by blast

end

subsection \<open>Counting behind a watermark\<close>

text \<open>Several stores count the messages of a conversation behind the id of the newest one they have
  counted, so that a message delivered again is not counted again. \<open>fresh_ids\<close> is how many of the ids that
  arrive are above all before them.\<close>

definition above :: "int option \<Rightarrow> int \<Rightarrow> bool" where
  "above w i = (case w of None \<Rightarrow> True | Some l \<Rightarrow> l < i)"

fun fresh_ids :: "int option \<Rightarrow> int list \<Rightarrow> int" where
  "fresh_ids w [] = 0"
| "fresh_ids w (k # ks) = (if above w k then 1 + fresh_ids (Some k) ks else fresh_ids w ks)"

lemma above_simps [simp]: "above None i" "above (Some l) i \<longleftrightarrow> l < i"
  by (simp_all add: above_def)

lemma fresh_none: "\<forall>k \<in> set ks. \<not> above w k \<Longrightarrow> fresh_ids w ks = 0"
  by (induction ks arbitrary: w) auto

lemma fresh_append_below:
  "\<forall>k \<in> set ls. k \<in> set ks \<or> \<not> above w k \<Longrightarrow> fresh_ids w (ks @ ls) = fresh_ids w ks"
proof (induction ks arbitrary: w)
  case (Cons k ks)
  show ?case
  proof (cases "above w k")
    case True
    have "\<forall>j \<in> set ls. j \<in> set ks \<or> \<not> above (Some k) j"
      using Cons.prems True by (cases w) auto
    with Cons.IH True show ?thesis by simp
  next
    case False
    with Cons.prems have "\<forall>j \<in> set ls. j \<in> set ks \<or> \<not> above w j" by auto
    with Cons.IH False show ?thesis by simp
  qed
qed (simp add: fresh_none)

lemma fresh_twice: "fresh_ids w (ks @ ks) = fresh_ids w ks"
  by (rule fresh_append_below) simp

lemma fresh_sorted: "sorted ks \<Longrightarrow> fresh_ids w ks = int (card {k \<in> set ks. above w k})"
proof (induction ks arbitrary: w)
  case (Cons k ks)
  have le: "\<forall>j \<in> set ks. k \<le> j" using Cons.prems by simp
  show ?case
  proof (cases "above w k")
    case True
    have "{j \<in> set (k # ks). above w j} = insert k {j \<in> set ks. above (Some k) j}"
      using True le by (cases w) fastforce+
    with Cons True show ?thesis by simp
  next
    case False
    then have "{j \<in> set (k # ks). above w j} = {j \<in> set ks. above w j}" by auto
    with Cons False show ?thesis by simp
  qed
qed simp

locale watermark_counter =
  fixes tick :: "int \<Rightarrow> 's \<Rightarrow> 's"
    and valid :: "'s \<Rightarrow> bool"
    and unread :: "'s \<Rightarrow> int"
    and mark :: "'s \<Rightarrow> int option"
  assumes keeps_valid: "valid s \<Longrightarrow> valid (tick k s)"
    and counts_new: "valid s \<Longrightarrow> above (mark s) k \<Longrightarrow> unread (tick k s) = unread s + 1 \<and> mark (tick k s) = Some k"
    and skips_old: "valid s \<Longrightarrow> \<not> above (mark s) k \<Longrightarrow> unread (tick k s) = unread s \<and> mark (tick k s) = mark s"
begin

lemma counts: "valid s \<Longrightarrow> valid (fold tick ks s) \<and> unread (fold tick ks s) = unread s + fresh_ids (mark s) ks"
proof (induction ks arbitrary: s)
  case (Cons k ks)
  with keeps_valid counts_new [of s k] skips_old [of s k] show ?case by auto
qed simp

lemma counts_twice: "valid s \<Longrightarrow> unread (fold tick (ks @ ks) s) = unread s + fresh_ids (mark s) ks"
  using counts [of s "ks @ ks"] by (simp add: fresh_twice)

lemma counts_sorted:
  "valid s \<Longrightarrow> sorted ks \<Longrightarrow> unread (fold tick ks s) = unread s + int (card {k \<in> set ks. above (mark s) k})"
  using counts [of s ks] by (simp add: fresh_sorted)

end

subsection \<open>Answers that something overtook\<close>

text \<open>A store whose content comes with a request counts what overtakes the request in a revision. The
  caller keeps the revision of the moment it asked, and an answer that no longer fits it is dropped.\<close>

locale revision_guard =
  fixes act :: "'a \<Rightarrow> 's \<Rightarrow> 's"
    and revision :: "'s \<Rightarrow> int"
    and overtakes :: "'s \<Rightarrow> 'a \<Rightarrow> bool"
  assumes revision_step: "revision (act a s) = revision s + (if overtakes s a then 1 else 0)"
begin

lemma revision_grows: "revision s \<le> revision (fold act as s)"
proof (induction as arbitrary: s)
  case (Cons a as)
  have "revision s \<le> revision (act a s)" by (simp add: revision_step)
  with Cons [of "act a s"] show ?case by simp
qed simp

lemma revision_kept: "revision (fold act as s) = revision s \<longleftrightarrow> (\<forall>k < length as. \<not> overtakes (fold act (take k as) s) (as ! k))"
proof (induction as arbitrary: s)
  case (Cons a as)
  have split: "(\<forall>k < length (a # as). \<not> overtakes (fold act (take k (a # as)) s) ((a # as) ! k)) \<longleftrightarrow>
      \<not> overtakes s a \<and> (\<forall>k < length as. \<not> overtakes (fold act (take k as) (act a s)) (as ! k))"
    by (simp only: length_Cons All_less_Suc2) simp
  show ?case
  proof (cases "overtakes s a")
    case True
    then have "revision s + 1 \<le> revision (fold act as (act a s))"
      using revision_grows [of "act a s" as] by (simp add: revision_step)
    with True split show ?thesis by simp
  next
    case False
    then have "revision (act a s) = revision s" by (simp add: revision_step)
    with Cons.IH [of "act a s"] False split show ?thesis by simp
  qed
qed simp

end

subsection \<open>Strings\<close>

text \<open>Latin-1 text: \<open>toLowerCase\<close> moves A to Z and the accented capitals by 32, \<open>trim\<close> removes
  the white space of that range.\<close>

definition lower_char :: "char \<Rightarrow> char" where
  "lower_char c = (let n = of_char c :: nat in
     if (65 \<le> n \<and> n \<le> 90) \<or> (192 \<le> n \<and> n \<le> 222 \<and> n \<noteq> 215) then char_of (n + 32) else c)"

definition toLowerCase :: "string \<Rightarrow> string" where
  "toLowerCase s = map lower_char s"

definition is_space :: "char \<Rightarrow> bool" where
  "is_space c = (let n = of_char c :: nat in (9 \<le> n \<and> n \<le> 13) \<or> n = 32 \<or> n = 160)"

definition trim :: "string \<Rightarrow> string" where
  "trim s = rev (dropWhile is_space (rev (dropWhile is_space s)))"

text \<open>Decimal numerals.\<close>

function show_nat :: "nat \<Rightarrow> string" where
  "show_nat n = (if n < 10 then [char_of (48 + n)] else show_nat (n div 10) @ [char_of (48 + n mod 10)])"
  by pat_completeness auto
termination by (relation "measure id") auto

declare show_nat.simps [simp del]

definition show_int :: "int \<Rightarrow> string" where
  "show_int i = (if i < 0 then ''-'' @ show_nat (nat (- i)) else show_nat (nat i))"

lemma show_nat_digits: "c \<in> set (show_nat n) \<Longrightarrow> 48 \<le> (of_char c :: nat) \<and> (of_char c :: nat) \<le> 57"
proof (induction n rule: show_nat.induct)
  case (1 n)
  have small: "of_char (char_of (48 + d) :: char) = 48 + d" if "d < 10" for d :: nat
    using that by simp
  have "show_nat n = (if n < 10 then [char_of (48 + n)] else show_nat (n div 10) @ [char_of (48 + n mod 10)])"
    by (rule show_nat.simps)
  with 1 small [of n] small [of "n mod 10"] show ?case by (auto split: if_splits)
qed

lemma show_nat_inj: "show_nat m = show_nat n \<Longrightarrow> m = n"
proof -
  define val where "val s = foldl (\<lambda>a c. 10 * a + ((of_char c :: nat) - 48)) 0 s" for s
  have "val (show_nat n) = n" for n
  proof (induction n rule: show_nat.induct)
    case (1 n)
    have "show_nat n = (if n < 10 then [char_of (48 + n)] else show_nat (n div 10) @ [char_of (48 + n mod 10)])"
      by (rule show_nat.simps)
    with 1 show ?case by (simp add: val_def)
  qed
  then show "show_nat m = show_nat n \<Longrightarrow> m = n" by metis
qed

lemma show_int_chars: "c \<in> set (show_int i) \<Longrightarrow> c = CHR ''-'' \<or> 48 \<le> (of_char c :: nat) \<and> (of_char c :: nat) \<le> 57"
  by (auto simp: show_int_def split: if_splits dest: show_nat_digits)

lemma show_int_inj: "show_int i = show_int j \<Longrightarrow> i = j"
proof -
  have minus: "show_nat n \<noteq> CHR ''-'' # s" for n s
    using show_nat_digits [of "CHR ''-''" n] by auto
  assume "show_int i = show_int j"
  with minus show "i = j"
    by (auto simp: show_int_def split: if_splits dest!: show_nat_inj) (metis minus)+
qed

text \<open>UTF-16 text.\<close>

type_synonym jstring = "16 word list"

definition js_lit :: "string \<Rightarrow> jstring" where
  "js_lit s = map (\<lambda>c. of_nat (of_char c)) s"

end
