(* ===== verification/Channels_Store.thy ===== *)
theory Channels_Store
  imports Prelude
begin

text \<open>
  \<open>stores/channels.store.ts\<close>: the channel list, the active channel, roles and categories, with the
  two snapshot maps the module keeps beside the store (\<open>unreadOnOpen\<close>, \<open>pointerOnOpen\<close>), and the
  grouping of channels into the sidebar.

  \<open>connectText\<close> belongs to the translation catalog and is a parameter. A store update is applied
  directly; the store's own batching is modelled in its theory.

  The lemmas show that consent to a labelled channel never outlives the label, that a message
  delivered again is counted once, that re-adding a channel keeps the viewer's own fields, that
  direct messages survive a reconnect, and that the sidebar shows every channel exactly once, in
  order.
\<close>

subsection \<open>Data\<close>

datatype channel_type = TextChannel | VoiceChannel | AnnouncementChannel | DmChannel | ForumChannel

definition isTextLikeChannel :: "channel_type \<Rightarrow> bool" where
  "isTextLikeChannel t = (t = TextChannel \<or> t = AnnouncementChannel)"

record forum_tag =
  ft_id :: int
  ft_name :: string
  ft_emoji :: "string option"
  ft_position :: int

record forum_settings =
  fs_tags :: "forum_tag list"
  fs_require_tag :: bool
  fs_default_auto_archive_minutes :: int

record ready_channel =
  rc_id :: int
  rc_name :: string
  rc_type :: channel_type
  rc_category :: "string option"
  rc_category_id :: "int option"
  rc_category_position :: "int option"
  rc_topic :: "string option"
  rc_forum :: "forum_settings option"
  rc_position :: int
  rc_unread_count :: "int option"
  rc_last_message_id :: "int option"
  rc_can_send :: "bool option"
  rc_can_moderate_voice :: "bool option"
  rc_can_move_voice :: "bool option"
  rc_can_delete_others :: "bool option"
  rc_can_pin :: "bool option"
  rc_can_react :: "bool option"
  rc_slow_mode :: "int option"
  rc_mention_count :: "int option"
  rc_last_read_message_id :: "int option"
  rc_nsfw :: "bool option"
  rc_afk :: "bool option"
  rc_private :: "bool option"
  rc_nsfw_acknowledged :: "bool option"
  rc_voice_max_users :: "int option"
  rc_voice_max_video :: "int option"
  rc_password_protected :: "bool option"

record channel_create =
  cc_id :: int
  cc_name :: string
  cc_type :: channel_type
  cc_category :: "string option"
  cc_category_id :: "int option"
  cc_category_position :: "int option"
  cc_topic :: "string option"
  cc_forum :: "forum_settings option"
  cc_position :: int
  cc_slow_mode :: "int option"
  cc_nsfw :: "bool option"
  cc_private :: "bool option"
  cc_voice_max_users :: "int option"
  cc_voice_max_video :: "int option"
  cc_password_protected :: "bool option"
  cc_afk :: "bool option"
  cc_can_send :: "bool option"
  cc_can_moderate_voice :: "bool option"
  cc_can_move_voice :: "bool option"
  cc_can_delete_others :: "bool option"
  cc_can_pin :: "bool option"
  cc_can_react :: "bool option"

text \<open>In an update a category may be absent (outer \<open>None\<close>) or null (inner \<open>None\<close>).\<close>

record channel_update =
  cu_id :: int
  cu_name :: "string option"
  cu_topic :: "string option"
  cu_forum :: "forum_settings option"
  cu_category :: "string option option"
  cu_category_id :: "int option"
  cu_category_position :: "int option"
  cu_position :: "int option"
  cu_slow_mode :: "int option"
  cu_nsfw :: "bool option"
  cu_private :: "bool option"
  cu_voice_max_users :: "int option"
  cu_voice_max_video :: "int option"
  cu_password_protected :: "bool option"
  cu_afk :: "bool option"

record ready_role =
  rr_id :: int
  rr_name :: string
  rr_color :: "string option"
  rr_permissions :: int
  rr_position :: "int option"
  rr_is_default :: "bool option"
  rr_hoist :: "bool option"
  rr_mentionable :: "bool option"

record channel_category =
  ct_id :: int
  ct_name :: string
  ct_position :: int

record channel =
  ch_id :: int
  ch_name :: string
  ch_type :: channel_type
  ch_category :: "string option"
  ch_categoryId :: "int option"
  ch_categoryPosition :: "int option"
  ch_topic :: string
  ch_position :: int
  ch_unreadCount :: int
  ch_mentionCount :: int
  ch_lastMessageId :: "int option"
  ch_lastReadMessageId :: "int option"
  ch_canSend :: bool
  ch_canModerateVoice :: "bool option"
  ch_canMoveVoice :: "bool option"
  ch_canDeleteOthers :: "bool option"
  ch_canPin :: "bool option"
  ch_canReact :: "bool option"
  ch_slowMode :: int
  ch_nsfw :: bool
  ch_isPrivate :: bool
  ch_nsfwAcknowledged :: "bool option"
  ch_voiceMaxUsers :: int
  ch_voiceMaxVideo :: int
  ch_passwordProtected :: "bool option"
  ch_afk :: "bool option"
  ch_forum :: "forum_settings option"

record channels_state =
  cs_channels :: "(int, channel) jmap"
  activeChannelId :: "int option"
  cs_roles :: "ready_role list"
  cs_categories :: "channel_category list"

text \<open>The module: the store's state and the snapshots taken when a channel was opened.\<close>

record channels_module =
  cs_state :: channels_state
  unreadOnOpen :: "(int, int) jmap"
  pointerOnOpen :: "(int, int option) jmap"

definition CHANNELS_INITIAL_STATE :: channels_state where
  "CHANNELS_INITIAL_STATE = \<lparr>cs_channels = [], activeChannelId = None, cs_roles = [], cs_categories = []\<rparr>"

definition channels_init :: channels_module where
  "channels_init = \<lparr>cs_state = CHANNELS_INITIAL_STATE, unreadOnOpen = [], pointerOnOpen = []\<rparr>"

subsection \<open>Loading and editing channels\<close>

definition getPointerOnOpen :: "channels_module \<Rightarrow> int \<Rightarrow> int option" where
  "getPointerOnOpen md channelId = nullish (jm_get (pointerOnOpen md) channelId) None"

definition getUnreadOnOpen :: "channels_module \<Rightarrow> int \<Rightarrow> int" where
  "getUnreadOnOpen md channelId = nullish (jm_get (unreadOnOpen md) channelId) 0"

definition readyChannel :: "ready_channel \<Rightarrow> channel" where
  "readyChannel ch = \<lparr>
     ch_id = rc_id ch, ch_name = rc_name ch, ch_type = rc_type ch, ch_category = rc_category ch,
     ch_categoryId = Some (nullish (rc_category_id ch) 0),
     ch_categoryPosition = Some (nullish (rc_category_position ch) 0),
     ch_topic = nullish (rc_topic ch) [], ch_position = rc_position ch,
     ch_unreadCount = nullish (rc_unread_count ch) 0,
     ch_mentionCount = nullish (rc_mention_count ch) 0,
     ch_lastMessageId = rc_last_message_id ch, ch_lastReadMessageId = rc_last_read_message_id ch,
     ch_canSend = nullish (rc_can_send ch) True,
     ch_canModerateVoice = rc_can_moderate_voice ch, ch_canMoveVoice = rc_can_move_voice ch,
     ch_canDeleteOthers = rc_can_delete_others ch, ch_canPin = rc_can_pin ch,
     ch_canReact = rc_can_react ch, ch_slowMode = nullish (rc_slow_mode ch) 0,
     ch_nsfw = nullish (rc_nsfw ch) False, ch_isPrivate = nullish (rc_private ch) False,
     ch_nsfwAcknowledged = Some (nullish (rc_nsfw ch) False \<and> rc_nsfw_acknowledged ch = Some True),
     ch_voiceMaxUsers = nullish (rc_voice_max_users ch) 0,
     ch_voiceMaxVideo = nullish (rc_voice_max_video ch) 0,
     ch_passwordProtected = rc_password_protected ch, ch_afk = Some (nullish (rc_afk ch) False),
     ch_forum = rc_forum ch\<rparr>"

definition readyChannelMap :: "ready_channel list \<Rightarrow> (int, channel) jmap" where
  "readyChannelMap channels = jm_of_list (map (\<lambda>ch. (rc_id ch, readyChannel ch)) channels)"

definition setChannels :: "channels_module \<Rightarrow> ready_channel list \<Rightarrow> channels_module" where
  "setChannels md channels = (
     let carry = fold (\<lambda>(i, ch) m. if ch_type ch = DmChannel \<and> \<not> jm_has m i then jm_set m i ch else m)
           (cs_channels (cs_state md)) (readyChannelMap channels)
     in md\<lparr>cs_state := (cs_state md)\<lparr>cs_channels := carry\<rparr>, unreadOnOpen := [], pointerOnOpen := []\<rparr>)"

definition setCategories :: "channels_state \<Rightarrow> channel_category list \<Rightarrow> channels_state" where
  "setCategories prev categories =
     prev\<lparr>cs_categories := sort_key (\<lambda>c. (ct_position c, ct_id c)) categories\<rparr>"

definition setRoles :: "channels_state \<Rightarrow> ready_role list \<Rightarrow> channels_state" where
  "setRoles prev roles = prev\<lparr>cs_roles := roles\<rparr>"

definition resetChannelsStore :: "channels_module \<Rightarrow> channels_module" where
  "resetChannelsStore md = md\<lparr>cs_state := CHANNELS_INITIAL_STATE, unreadOnOpen := [], pointerOnOpen := []\<rparr>"

definition getRoleIdByName :: "channels_state \<Rightarrow> string \<Rightarrow> int option" where
  "getRoleIdByName s name =
     map_option rr_id (List.find (\<lambda>r. toLowerCase (rr_name r) = toLowerCase name) (cs_roles s))"

definition createdChannel :: "channel option \<Rightarrow> channel_create \<Rightarrow> channel" where
  "createdChannel existing c = (
     let old = (\<lambda>f. case existing of None \<Rightarrow> None | Some e \<Rightarrow> f e)
     in \<lparr>
     ch_id = cc_id c, ch_name = cc_name c, ch_type = cc_type c, ch_category = cc_category c,
     ch_categoryId = Some (nullish (alt (cc_category_id c) (case existing of None \<Rightarrow> None | Some e \<Rightarrow> ch_categoryId e)) 0),
     ch_categoryPosition = Some (nullish (alt (cc_category_position c) (case existing of None \<Rightarrow> None | Some e \<Rightarrow> ch_categoryPosition e)) 0),
     ch_topic = nullish (cc_topic c) [], ch_position = cc_position c,
     ch_unreadCount = nullish (map_option ch_unreadCount existing) 0,
     ch_mentionCount = nullish (map_option ch_mentionCount existing) 0,
     ch_lastMessageId = (case existing of None \<Rightarrow> None | Some e \<Rightarrow> ch_lastMessageId e),
     ch_lastReadMessageId = (case existing of None \<Rightarrow> None | Some e \<Rightarrow> ch_lastReadMessageId e),
     ch_canSend = nullish (alt (cc_can_send c) (map_option ch_canSend existing)) True,
     ch_canModerateVoice = alt (cc_can_moderate_voice c) (old ch_canModerateVoice),
     ch_canMoveVoice = alt (cc_can_move_voice c) (old ch_canMoveVoice),
     ch_canDeleteOthers = alt (cc_can_delete_others c) (old ch_canDeleteOthers),
     ch_canPin = alt (cc_can_pin c) (old ch_canPin),
     ch_canReact = alt (cc_can_react c) (old ch_canReact),
     ch_slowMode = nullish (cc_slow_mode c) 0, ch_nsfw = nullish (cc_nsfw c) False,
     ch_isPrivate = nullish (alt (cc_private c) (map_option ch_isPrivate existing)) False,
     ch_nsfwAcknowledged = Some (nullish (cc_nsfw c) False \<and> old ch_nsfwAcknowledged = Some True),
     ch_voiceMaxUsers = nullish (cc_voice_max_users c) 0,
     ch_voiceMaxVideo = nullish (cc_voice_max_video c) 0,
     ch_passwordProtected = alt (cc_password_protected c) (old ch_passwordProtected),
     ch_afk = Some (nullish (alt (cc_afk c) (old ch_afk)) False),
     ch_forum = alt (cc_forum c) (case existing of None \<Rightarrow> None | Some e \<Rightarrow> ch_forum e)\<rparr>)"

definition addChannel :: "channels_state \<Rightarrow> channel_create \<Rightarrow> channels_state" where
  "addChannel prev c = prev\<lparr>cs_channels := jm_set (cs_channels prev) (cc_id c)
     (createdChannel (jm_get (cs_channels prev) (cc_id c)) c)\<rparr>"

definition updatedChannel :: "channel \<Rightarrow> channel_update \<Rightarrow> channel" where
  "updatedChannel existing u = existing\<lparr>
     ch_name := nullish (cu_name u) (ch_name existing),
     ch_topic := nullish (cu_topic u) (ch_topic existing),
     ch_category := nullish (cu_category u) (ch_category existing),
     ch_categoryId := alt (cu_category_id u) (ch_categoryId existing),
     ch_categoryPosition := alt (cu_category_position u) (ch_categoryPosition existing),
     ch_position := nullish (cu_position u) (ch_position existing),
     ch_slowMode := nullish (cu_slow_mode u) (ch_slowMode existing),
     ch_nsfw := nullish (cu_nsfw u) (ch_nsfw existing),
     ch_nsfwAcknowledged := (case cu_nsfw u of None \<Rightarrow> ch_nsfwAcknowledged existing
       | Some b \<Rightarrow> Some (b \<and> ch_nsfwAcknowledged existing = Some True)),
     ch_isPrivate := nullish (cu_private u) (ch_isPrivate existing),
     ch_voiceMaxUsers := nullish (cu_voice_max_users u) (ch_voiceMaxUsers existing),
     ch_voiceMaxVideo := nullish (cu_voice_max_video u) (ch_voiceMaxVideo existing),
     ch_passwordProtected := alt (cu_password_protected u) (ch_passwordProtected existing),
     ch_afk := alt (cu_afk u) (ch_afk existing),
     ch_forum := alt (cu_forum u) (ch_forum existing)\<rparr>"

text \<open>The updaters that change one known channel and leave an unknown one alone.\<close>

definition with_channel :: "channels_state \<Rightarrow> int \<Rightarrow> (channel \<Rightarrow> channel) \<Rightarrow> channels_state" where
  "with_channel prev i f = (case jm_get (cs_channels prev) i of
     None \<Rightarrow> prev | Some existing \<Rightarrow> prev\<lparr>cs_channels := jm_set (cs_channels prev) i (f existing)\<rparr>)"

definition updateChannel :: "channels_state \<Rightarrow> channel_update \<Rightarrow> channels_state" where
  "updateChannel prev u = with_channel prev (cu_id u) (\<lambda>existing. updatedChannel existing u)"

definition setNsfwAcknowledged :: "channels_state \<Rightarrow> int \<Rightarrow> bool \<Rightarrow> channels_state" where
  "setNsfwAcknowledged prev i acknowledged = (case jm_get (cs_channels prev) i of
     None \<Rightarrow> prev
   | Some existing \<Rightarrow>
       if \<not> ch_nsfw existing then prev
       else if (ch_nsfwAcknowledged existing = Some True) = acknowledged then prev
       else prev\<lparr>cs_channels := jm_set (cs_channels prev) i (existing\<lparr>ch_nsfwAcknowledged := Some acknowledged\<rparr>)\<rparr>)"

definition updateChannelPosition :: "channels_state \<Rightarrow> int \<Rightarrow> int \<Rightarrow> channels_state" where
  "updateChannelPosition prev i position = (case jm_get (cs_channels prev) i of
     None \<Rightarrow> prev
   | Some existing \<Rightarrow> if ch_position existing = position then prev
       else prev\<lparr>cs_channels := jm_set (cs_channels prev) i (existing\<lparr>ch_position := position\<rparr>)\<rparr>)"

definition removeChannel :: "channels_state \<Rightarrow> int \<Rightarrow> channels_state" where
  "removeChannel prev i = prev\<lparr>cs_channels := jm_delete (cs_channels prev) i,
     activeChannelId := (if activeChannelId prev = Some i then None else activeChannelId prev)\<rparr>"

definition setActiveChannel :: "channels_module \<Rightarrow> int option \<Rightarrow> bool \<Rightarrow> channels_module" where
  "setActiveChannel md target clear = (
     let prev = cs_state md
     in case target of
          None \<Rightarrow> md\<lparr>cs_state := prev\<lparr>activeChannelId := None\<rparr>\<rparr>
        | Some i \<Rightarrow>
            (let existing = jm_get (cs_channels prev) i;
                 next = (case existing of
                   None \<Rightarrow> prev\<lparr>activeChannelId := Some i\<rparr>
                 | Some e \<Rightarrow>
                     if \<not> clear \<or> (ch_unreadCount e = 0 \<and> ch_mentionCount e = 0)
                     then prev\<lparr>activeChannelId := Some i\<rparr>
                     else prev\<lparr>activeChannelId := Some i, cs_channels := jm_set (cs_channels prev) i
                            (e\<lparr>ch_unreadCount := 0, ch_mentionCount := 0\<rparr>)\<rparr>)
             in md\<lparr>cs_state := next,
                   unreadOnOpen := jm_set (unreadOnOpen md) i (nullish (map_option ch_unreadCount existing) 0),
                   pointerOnOpen := jm_set (pointerOnOpen md) i
                     (case existing of None \<Rightarrow> None | Some e \<Rightarrow> ch_lastReadMessageId e)\<rparr>))"

definition getActiveChannel :: "channels_state \<Rightarrow> channel option" where
  "getActiveChannel s = (case activeChannelId s of None \<Rightarrow> None | Some i \<Rightarrow> jm_get (cs_channels s) i)"

subsection \<open>Counters and read pointers\<close>

definition incrementUnread :: "channels_state \<Rightarrow> int \<Rightarrow> bool \<Rightarrow> channels_state" where
  "incrementUnread prev channelId evenIfActive = (
     if activeChannelId prev = Some channelId \<and> \<not> evenIfActive then prev
     else with_channel prev channelId (\<lambda>e. e\<lparr>ch_unreadCount := ch_unreadCount e + 1\<rparr>))"

definition incrementMention :: "channels_state \<Rightarrow> int \<Rightarrow> bool \<Rightarrow> channels_state" where
  "incrementMention prev channelId evenIfActive = (
     if activeChannelId prev = Some channelId \<and> \<not> evenIfActive then prev
     else with_channel prev channelId (\<lambda>e. e\<lparr>ch_mentionCount := ch_mentionCount e + 1\<rparr>))"

definition noteChannelMessage :: "channels_state \<Rightarrow> int \<Rightarrow> int \<Rightarrow> bool \<Rightarrow> bool \<Rightarrow> channels_state" where
  "noteChannelMessage prev channelId messageId isMention evenIfActive = (
     if activeChannelId prev = Some channelId \<and> \<not> evenIfActive then prev
     else case jm_get (cs_channels prev) channelId of
       None \<Rightarrow> prev
     | Some existing \<Rightarrow>
         (let isReplay = (case ch_lastMessageId existing of None \<Rightarrow> False | Some l \<Rightarrow> messageId \<le> l)
          in if isReplay then prev
             else prev\<lparr>cs_channels := jm_set (cs_channels prev) channelId (existing\<lparr>
               ch_unreadCount := ch_unreadCount existing + 1,
               ch_mentionCount := (if isMention then ch_mentionCount existing + 1 else ch_mentionCount existing),
               ch_lastMessageId := Some messageId\<rparr>)\<rparr>))"

definition setMentionCount :: "channels_state \<Rightarrow> int \<Rightarrow> int \<Rightarrow> channels_state" where
  "setMentionCount prev channelId newCount = (case jm_get (cs_channels prev) channelId of
     None \<Rightarrow> prev
   | Some existing \<Rightarrow> if ch_mentionCount existing = newCount then prev
       else prev\<lparr>cs_channels := jm_set (cs_channels prev) channelId (existing\<lparr>ch_mentionCount := newCount\<rparr>)\<rparr>)"

definition clearUnread :: "channels_state \<Rightarrow> int \<Rightarrow> channels_state" where
  "clearUnread prev channelId =
     with_channel prev channelId (\<lambda>e. e\<lparr>ch_unreadCount := 0, ch_mentionCount := 0\<rparr>)"

definition setReadPointer :: "channels_state \<Rightarrow> int \<Rightarrow> int option \<Rightarrow> (int \<times> int) option \<Rightarrow> channels_state" where
  "setReadPointer prev channelId pointer counts = with_channel prev channelId (\<lambda>e.
     let moved = e\<lparr>ch_lastReadMessageId := pointer\<rparr>
     in case counts of None \<Rightarrow> moved
        | Some (unread, mention) \<Rightarrow> moved\<lparr>ch_unreadCount := unread, ch_mentionCount := mention\<rparr>)"

definition isAfkChannel :: "channels_state \<Rightarrow> int option \<Rightarrow> bool" where
  "isAfkChannel s channelId = (case channelId of None \<Rightarrow> False
     | Some i \<Rightarrow> (case jm_get (cs_channels s) i of None \<Rightarrow> False | Some e \<Rightarrow> ch_afk e = Some True))"

subsection \<open>Sidebar groups\<close>

definition UNCATEGORIZED_VOICE_CATEGORY :: string where
  "UNCATEGORIZED_VOICE_CATEGORY = ''Voice''"

definition categoryKey :: "int \<Rightarrow> string" where
  "categoryKey categoryId = ''cat:'' @ show_int categoryId"

record category_group =
  cg_key :: "string option"
  cg_name :: "string option"
  cg_categoryId :: int
  cg_channels :: "channel list"

definition groupLabel :: "(string \<Rightarrow> string) \<Rightarrow> string option \<Rightarrow> string option \<Rightarrow> string" where
  "groupLabel connectText key name = (
     if key = Some UNCATEGORIZED_VOICE_CATEGORY \<and> name = Some UNCATEGORIZED_VOICE_CATEGORY
     then connectText ''channel.voiceCategory'' else nullish name [])"

definition voiceFallback :: "channel_type \<Rightarrow> string option" where
  "voiceFallback t = (if t = VoiceChannel then Some UNCATEGORIZED_VOICE_CATEGORY else None)"

definition keyOfChannel :: "channel \<Rightarrow> string option" where
  "keyOfChannel c = (
     if nullish (ch_categoryId c) 0 > 0 then Some (categoryKey (nullish (ch_categoryId c) 0))
     else if ch_category c \<noteq> None \<and> ch_category c \<noteq> Some [] then ch_category c
     else if ch_type c = VoiceChannel then Some UNCATEGORIZED_VOICE_CATEGORY else None)"

text \<open>One round of the loop that tracks the highest position of the group and of the list.\<close>

definition positionStep :: "string option \<Rightarrow> channel \<Rightarrow> int \<times> int \<Rightarrow> int \<times> int" where
  "positionStep target c = (\<lambda>(groupMax, allMax).
     if ch_type c = DmChannel then (groupMax, allMax)
     else (if keyOfChannel c = target \<and> ch_position c > groupMax then ch_position c else groupMax,
           if ch_position c > allMax then ch_position c else allMax))"

definition nextPositionInGroup :: "channels_state \<Rightarrow> string option \<Rightarrow> int" where
  "nextPositionInGroup s target = (
     let (groupMax, allMax) = fold (positionStep target) (jm_values (cs_channels s)) (- 1, - 1)
     in (if groupMax \<ge> 0 then groupMax else allMax) + 1)"

definition nextPositionInCategory :: "channels_state \<Rightarrow> int \<Rightarrow> channel_type \<Rightarrow> int" where
  "nextPositionInCategory s categoryId t =
     nextPositionInGroup s (if categoryId > 0 then Some (categoryKey categoryId) else voiceFallback t)"

definition nextPositionInCategoryNamed :: "channels_state \<Rightarrow> string \<Rightarrow> channel_type \<Rightarrow> int" where
  "nextPositionInCategoryNamed s category t =
     nextPositionInGroup s (if category = [] then voiceFallback t else Some category)"

record draft =
  dr_key :: "string option"
  dr_name :: "string option"
  dr_categoryId :: int
  dr_rank :: int
  dr_sortPosition :: int
  dr_order :: nat
  dr_channels :: "channel list"

type_synonym drafts = "(string option, draft) jmap"

text \<open>\<open>draftFor\<close>: the draft of a key, made and entered when it is missing.\<close>

definition draftFor :: "drafts \<Rightarrow> string option \<Rightarrow> draft \<Rightarrow> draft" where
  "draftFor drafts key fresh = (case jm_get drafts key of
     Some found \<Rightarrow> found | None \<Rightarrow> fresh\<lparr>dr_order := length drafts, dr_channels := []\<rparr>)"

definition newDraft :: "channel \<Rightarrow> draft" where
  "newDraft c = (
     let key = keyOfChannel c; i = nullish (ch_categoryId c) 0
     in if key = None then
          \<lparr>dr_key = key, dr_name = None, dr_categoryId = 0, dr_rank = 0, dr_sortPosition = 0, dr_order = 0, dr_channels = []\<rparr>
        else if key = Some UNCATEGORIZED_VOICE_CATEGORY \<and> i \<le> 0 \<and> nullish (ch_category c) [] = [] then
          \<lparr>dr_key = key, dr_name = key, dr_categoryId = 0, dr_rank = 1, dr_sortPosition = 0, dr_order = 0, dr_channels = []\<rparr>
        else if i > 0 then
          \<lparr>dr_key = key, dr_name = Some (nullish (ch_category c) []), dr_categoryId = i, dr_rank = 2,
           dr_sortPosition = nullish (ch_categoryPosition c) 0, dr_order = 0, dr_channels = []\<rparr>
        else
          \<lparr>dr_key = key, dr_name = key, dr_categoryId = 0, dr_rank = 3, dr_sortPosition = 0, dr_order = 0, dr_channels = []\<rparr>)"

definition addToDraft :: "drafts \<Rightarrow> channel \<Rightarrow> drafts" where
  "addToDraft drafts c = (
     let d = draftFor drafts (keyOfChannel c) (newDraft c)
     in jm_set drafts (keyOfChannel c) (d\<lparr>dr_channels := dr_channels d @ [c]\<rparr>))"

definition addCategory :: "drafts \<Rightarrow> channel_category \<Rightarrow> drafts" where
  "addCategory drafts cat = (
     let key = Some (categoryKey (ct_id cat));
         d = draftFor drafts key \<lparr>dr_key = key, dr_name = Some (ct_name cat), dr_categoryId = ct_id cat,
               dr_rank = 2, dr_sortPosition = ct_position cat, dr_order = 0, dr_channels = []\<rparr>
     in jm_set drafts key (d\<lparr>dr_name := Some (ct_name cat), dr_sortPosition := ct_position cat\<rparr>))"

definition is_voice :: "channel \<Rightarrow> nat" where
  "is_voice c = (if ch_type c = VoiceChannel then 1 else 0)"

definition draftGroup :: "draft \<Rightarrow> category_group" where
  "draftGroup d = \<lparr>cg_key = dr_key d, cg_name = dr_name d, cg_categoryId = dr_categoryId d,
     cg_channels = sort_key is_voice (dr_channels d)\<rparr>"

definition draftOrder :: "draft \<Rightarrow> int \<times> int \<times> int \<times> nat" where
  "draftOrder d = (dr_rank d, (if dr_rank d = 2 then dr_sortPosition d else 0),
     (if dr_rank d = 2 then dr_categoryId d else 0), dr_order d)"

definition guildChannels :: "(int, channel) jmap \<Rightarrow> channel list" where
  "guildChannels channels = sort_key (\<lambda>c. (ch_position c, ch_id c))
     (filter (\<lambda>c. ch_type c \<noteq> DmChannel) (jm_values channels))"

definition categoryGroups :: "(int, channel) jmap \<Rightarrow> channel_category list \<Rightarrow> category_group list" where
  "categoryGroups channels categories = (
     let sorted = guildChannels channels;
         drafts = foldl addCategory (foldl addToDraft [] sorted) categories
     in map draftGroup (sort_key draftOrder (jm_values drafts)))"

definition getKnownCategories :: "channels_state \<Rightarrow> channel_category list \<Rightarrow> (int \<times> string) list" where
  "getKnownCategories s categories =
     map (\<lambda>g. (cg_categoryId g, nullish (cg_name g) []))
       (filter (\<lambda>g. cg_name g \<noteq> None \<and> cg_key g \<noteq> Some UNCATEGORIZED_VOICE_CATEGORY)
          (categoryGroups (cs_channels s) categories))"

fun firstTextInGroups :: "category_group list \<Rightarrow> channel option" where
  "firstTextInGroups [] = None"
| "firstTextInGroups (g # gs) = (case List.find (\<lambda>c. isTextLikeChannel (ch_type c)) (cg_channels g) of
     Some first \<Rightarrow> Some first | None \<Rightarrow> firstTextInGroups gs)"

definition firstTextInSidebarOrder :: "(int, channel) jmap \<Rightarrow> channel option" where
  "firstTextInSidebarOrder channels = firstTextInGroups (categoryGroups channels [])"

definition groupChannelsByCategory ::
  "(int, channel) jmap \<Rightarrow> channel_category list \<Rightarrow> (string option, channel list) jmap" where
  "groupChannelsByCategory channels categories =
     jm_of_list (map (\<lambda>g. (cg_key g, cg_channels g)) (categoryGroups channels categories))"

subsection \<open>The invariant of the channel map\<close>

text \<open>Every row sits under its own id, and an acknowledgement implies the label.\<close>

definition channel_ok :: "int \<Rightarrow> channel \<Rightarrow> bool" where
  "channel_ok i c \<longleftrightarrow> ch_id c = i \<and> (ch_nsfwAcknowledged c = Some True \<longrightarrow> ch_nsfw c)"

definition chans_ok :: "(int, channel) jmap \<Rightarrow> bool" where
  "chans_ok m \<longleftrightarrow> jm_wf m \<and> list_all (\<lambda>(i, c). channel_ok i c) m"

definition channels_ok :: "channels_module \<Rightarrow> bool" where
  "channels_ok md \<longleftrightarrow> chans_ok (cs_channels (cs_state md))"

lemma chans_ok_get: "chans_ok m \<Longrightarrow> jm_get m i = Some c \<Longrightarrow> channel_ok i c"
  by (auto simp: chans_ok_def list_all_iff dest!: jm_get_SomeD)

lemma list_all_jm_set:
  "list_all (\<lambda>(i, c). P i c) m \<Longrightarrow> P k v \<Longrightarrow> list_all (\<lambda>(i, c). P i c) (jm_set m k v)"
  using set_jm_set [of m k v] by (auto simp: list_all_iff)

lemma list_all_jm_delete: "list_all P m \<Longrightarrow> list_all P (jm_delete m k)"
  by (auto simp: list_all_iff jm_delete_def AList.delete_eq)

lemma list_all_fold_set:
  "list_all (\<lambda>(i, c). P i c) m \<Longrightarrow> list_all (\<lambda>(i, c). P i c) kvs \<Longrightarrow>
     list_all (\<lambda>(i, c). P i c) (fold (\<lambda>(k, v) m. jm_set m k v) kvs m)"
  by (induction kvs arbitrary: m) (auto intro: list_all_jm_set)

text \<open>The actions of the module.\<close>

datatype channels_action =
    SetChannels "ready_channel list" | SetCategories "channel_category list" | SetRoles "ready_role list"
  | ResetChannels | AddChannel channel_create | UpdateChannel channel_update
  | SetNsfwAcknowledged int bool | UpdateChannelPosition int int | RemoveChannel int
  | SetActiveChannel "int option" bool | IncrementUnread int bool | IncrementMention int bool
  | NoteChannelMessage int int bool bool | SetMentionCount int int | ClearUnread int
  | SetReadPointer int "int option" "(int \<times> int) option"

fun channels_apply :: "channels_module \<Rightarrow> channels_action \<Rightarrow> channels_module" where
  "channels_apply md (SetChannels cs) = setChannels md cs"
| "channels_apply md (SetCategories cs) = md\<lparr>cs_state := setCategories (cs_state md) cs\<rparr>"
| "channels_apply md (SetRoles rs) = md\<lparr>cs_state := setRoles (cs_state md) rs\<rparr>"
| "channels_apply md ResetChannels = resetChannelsStore md"
| "channels_apply md (AddChannel c) = md\<lparr>cs_state := addChannel (cs_state md) c\<rparr>"
| "channels_apply md (UpdateChannel u) = md\<lparr>cs_state := updateChannel (cs_state md) u\<rparr>"
| "channels_apply md (SetNsfwAcknowledged i b) = md\<lparr>cs_state := setNsfwAcknowledged (cs_state md) i b\<rparr>"
| "channels_apply md (UpdateChannelPosition i p) = md\<lparr>cs_state := updateChannelPosition (cs_state md) i p\<rparr>"
| "channels_apply md (RemoveChannel i) = md\<lparr>cs_state := removeChannel (cs_state md) i\<rparr>"
| "channels_apply md (SetActiveChannel i b) = setActiveChannel md i b"
| "channels_apply md (IncrementUnread i b) = md\<lparr>cs_state := incrementUnread (cs_state md) i b\<rparr>"
| "channels_apply md (IncrementMention i b) = md\<lparr>cs_state := incrementMention (cs_state md) i b\<rparr>"
| "channels_apply md (NoteChannelMessage c i m b) = md\<lparr>cs_state := noteChannelMessage (cs_state md) c i m b\<rparr>"
| "channels_apply md (SetMentionCount c n) = md\<lparr>cs_state := setMentionCount (cs_state md) c n\<rparr>"
| "channels_apply md (ClearUnread c) = md\<lparr>cs_state := clearUnread (cs_state md) c\<rparr>"
| "channels_apply md (SetReadPointer c p n) = md\<lparr>cs_state := setReadPointer (cs_state md) c p n\<rparr>"

text \<open>An update of one row keeps the invariant when the new row satisfies it.\<close>

lemma chans_ok_set: "chans_ok m \<Longrightarrow> channel_ok i c \<Longrightarrow> chans_ok (jm_set m i c)"
  by (auto simp: chans_ok_def intro: list_all_jm_set [where P = channel_ok])

lemma chans_ok_delete: "chans_ok m \<Longrightarrow> chans_ok (jm_delete m i)"
  by (simp add: chans_ok_def list_all_jm_delete)

lemma with_channel_ok:
  "chans_ok (cs_channels st) \<Longrightarrow> (\<And>c. channel_ok i c \<Longrightarrow> channel_ok i (f c)) \<Longrightarrow>
     chans_ok (cs_channels (with_channel st i f))"
  by (auto simp: with_channel_def split: option.split intro!: chans_ok_set dest: chans_ok_get)

lemma readyChannelMap_ok: "list_all (\<lambda>(i, c). channel_ok i c) (readyChannelMap cs)"
  unfolding readyChannelMap_def jm_of_list_def
  by (rule list_all_fold_set) (auto simp: list_all_iff channel_ok_def readyChannel_def)

lemma carry_ok:
  "list_all (\<lambda>(i, c). channel_ok i c) old \<Longrightarrow> chans_ok m \<Longrightarrow>
   chans_ok (fold (\<lambda>(i, ch) m. if ch_type ch = DmChannel \<and> \<not> jm_has m i then jm_set m i ch else m) old m)"
proof (induction old arbitrary: m)
  case (Cons e old)
  obtain i ch where e: "e = (i, ch)" by (cases e)
  let ?m = "if ch_type ch = DmChannel \<and> \<not> jm_has m i then jm_set m i ch else m"
  have "chans_ok ?m" using Cons.prems e by (auto intro: chans_ok_set)
  with Cons.IH [of ?m] Cons.prems(1) e show ?case by simp
qed simp

lemma updatedChannel_ok: "channel_ok i c \<Longrightarrow> channel_ok i (updatedChannel c u)"
  by (auto simp: channel_ok_def updatedChannel_def split: option.splits)

lemma createdChannel_ok: "channel_ok (cc_id c) (createdChannel e c)"
  by (simp add: channel_ok_def createdChannel_def Let_def)

lemma counts_ok:
  "channel_ok i c \<Longrightarrow> channel_ok i (c\<lparr>ch_unreadCount := u\<rparr>)" "channel_ok i c \<Longrightarrow> channel_ok i (c\<lparr>ch_mentionCount := n\<rparr>)"
  "channel_ok i c \<Longrightarrow> channel_ok i (c\<lparr>ch_lastMessageId := l\<rparr>)" "channel_ok i c \<Longrightarrow> channel_ok i (c\<lparr>ch_lastReadMessageId := p\<rparr>)"
  "channel_ok i c \<Longrightarrow> channel_ok i (c\<lparr>ch_position := q\<rparr>)"
  "channel_ok i c \<Longrightarrow> ch_nsfw c \<Longrightarrow> channel_ok i (c\<lparr>ch_nsfwAcknowledged := a\<rparr>)"
  by (simp_all add: channel_ok_def)

lemma channels_apply_ok:
  assumes "channels_ok md"
  shows "channels_ok (channels_apply md a)"
proof -
  let ?st = "cs_state md"
  have ok: "chans_ok (cs_channels ?st)" using assms by (simp add: channels_ok_def)
  have get: "channel_ok i c" if "jm_get (cs_channels ?st) i = Some c" for i c by (rule chans_ok_get [OF ok that])
  have ready: "chans_ok (readyChannelMap cs)" for cs
    using readyChannelMap_ok by (simp add: chans_ok_def readyChannelMap_def)
  have "list_all (\<lambda>(i, c). channel_ok i c) (cs_channels ?st)" using ok by (simp add: chans_ok_def)
  from carry_ok [OF this ready] have "chans_ok (cs_channels (cs_state (setChannels md cs)))" for cs
    by (simp add: setChannels_def Let_def)
  moreover have "chans_ok (cs_channels (addChannel ?st c))" for c
    using chans_ok_set [OF ok createdChannel_ok] by (simp add: addChannel_def)
  moreover have "chans_ok (cs_channels (updateChannel ?st u))" for u
    unfolding updateChannel_def by (rule with_channel_ok [OF ok updatedChannel_ok])
  moreover have "chans_ok (cs_channels (setNsfwAcknowledged ?st i b))" for i b
    using ok get by (auto simp: setNsfwAcknowledged_def split: option.split intro!: chans_ok_set counts_ok)
  moreover have "chans_ok (cs_channels (updateChannelPosition ?st i p))" for i p
    using ok get by (auto simp: updateChannelPosition_def split: option.split intro!: chans_ok_set counts_ok)
  moreover have "chans_ok (cs_channels (setMentionCount ?st i p))" for i p
    using ok get by (auto simp: setMentionCount_def split: option.split intro!: chans_ok_set counts_ok)
  moreover have "chans_ok (cs_channels (noteChannelMessage ?st c i m b))" for c i m b
    using ok get by (auto simp: noteChannelMessage_def Let_def split: option.split intro!: chans_ok_set counts_ok)
  moreover have "chans_ok (cs_channels (cs_state (setActiveChannel md i b)))" for i b
    using ok get by (cases i) (auto simp: setActiveChannel_def Let_def split: option.split intro!: chans_ok_set counts_ok)
  moreover have "chans_ok (cs_channels (incrementUnread ?st i b))" "chans_ok (cs_channels (incrementMention ?st i b))"
    "chans_ok (cs_channels (clearUnread ?st i))" "chans_ok (cs_channels (setReadPointer ?st i p n))" for i b p n
    using ok by (auto simp: incrementUnread_def incrementMention_def clearUnread_def setReadPointer_def Let_def
        split: option.split intro!: with_channel_ok counts_ok)
  moreover have "chans_ok (cs_channels (removeChannel ?st i))" for i
    using ok by (simp add: removeChannel_def chans_ok_delete)
  ultimately show ?thesis
    using ok by (cases a) (simp_all add: channels_ok_def setCategories_def setRoles_def resetChannelsStore_def
        CHANNELS_INITIAL_STATE_def chans_ok_def)
qed

inductive channels_step :: "channels_module \<Rightarrow> channels_action \<Rightarrow> channels_module \<Rightarrow> bool" where
  channels_step_intro: "channels_step md a (channels_apply md a)"

inductive_cases channels_stepE: "channels_step md a md'"

lemma channels_init_ok: "channels_ok channels_init"
  by (simp add: channels_ok_def channels_init_def CHANNELS_INITIAL_STATE_def chans_ok_def)

interpretation chs: invariant_system channels_step channels_init channels_ok
  by unfold_locales (auto simp: channels_init_ok channels_apply_ok elim!: channels_stepE)

subsection \<open>How the drafts grow\<close>

definition drafts_ok :: "channel list \<Rightarrow> drafts \<Rightarrow> bool" where
  "drafts_ok cs ds \<longleftrightarrow> jm_wf ds \<and>
     (\<forall>k d. jm_get ds k = Some d \<longrightarrow> dr_key d = k \<and> dr_channels d = filter (\<lambda>c. keyOfChannel c = k) cs) \<and>
     (\<forall>k. jm_get ds k = None \<longrightarrow> filter (\<lambda>c. keyOfChannel c = k) cs = [])"

lemma newDraft_key [simp]: "dr_key (newDraft c) = keyOfChannel c"
  by (simp add: newDraft_def Let_def)

lemma draftFor_ok:
  assumes "drafts_ok cs ds" and "dr_key fresh = k"
  shows "dr_key (draftFor ds k fresh) = k" and "dr_channels (draftFor ds k fresh) = filter (\<lambda>c. keyOfChannel c = k) cs"
  using assms by (auto simp: draftFor_def drafts_ok_def split: option.split)

lemma drafts_ok_add: "drafts_ok cs ds \<Longrightarrow> drafts_ok (cs @ [c]) (addToDraft ds c)"
  using draftFor_ok [of cs ds "newDraft c" "keyOfChannel c"]
  by (auto simp: drafts_ok_def addToDraft_def Let_def)

lemma drafts_ok_category: "drafts_ok cs ds \<Longrightarrow> drafts_ok cs (addCategory ds cat)"
  using draftFor_ok [of cs ds "\<lparr>dr_key = Some (categoryKey (ct_id cat)), dr_name = Some (ct_name cat),
      dr_categoryId = ct_id cat, dr_rank = 2, dr_sortPosition = ct_position cat, dr_order = 0, dr_channels = []\<rparr>"
      "Some (categoryKey (ct_id cat))"]
  by (simp add: drafts_ok_def addCategory_def Let_def)

lemma drafts_ok_fold: "drafts_ok ds m \<Longrightarrow> drafts_ok (ds @ cs) (foldl addToDraft m cs)"
proof (induction cs arbitrary: ds m)
  case (Cons c cs)
  from Cons.IH [OF drafts_ok_add [OF Cons.prems]] show ?case by simp
qed simp

lemma drafts_ok_all: "drafts_ok cs (foldl addCategory (foldl addToDraft [] cs) cats)"
proof -
  have "drafts_ok cs (foldl addToDraft [] cs)"
    using drafts_ok_fold [of "[]" "[]" cs] by (simp add: drafts_ok_def)
  then show ?thesis by (induction cats rule: rev_induct) (auto intro: drafts_ok_category)
qed

lemma drafts_ok_mem:
  "drafts_ok cs ds \<Longrightarrow> (k, d) \<in> set ds \<Longrightarrow> dr_key d = k \<and> dr_channels d = filter (\<lambda>c. keyOfChannel c = k) cs"
  by (simp add: drafts_ok_def jm_get_mem)

lemma categoryGroups_keys:
  "distinct (map cg_key (categoryGroups channels categories))"
proof -
  let ?ds = "foldl addCategory (foldl addToDraft [] (guildChannels channels)) categories"
  have "map dr_key (jm_values ?ds) = jm_keys ?ds"
    using drafts_ok_mem [OF drafts_ok_all, of _ _ "guildChannels channels" categories]
    by (auto simp: jm_values_def jm_keys_def)
  moreover have "distinct (jm_keys ?ds)"
    using drafts_ok_all [of "guildChannels channels" categories] by (simp add: drafts_ok_def jm_wf_keys)
  ultimately have "distinct (map dr_key (sort_key draftOrder (jm_values ?ds)))"
    by (simp only: distinct_map_sort_key)
  then show ?thesis by (simp add: categoryGroups_def Let_def draftGroup_def o_def)
qed

lemma categoryGroups_channels:
  assumes "g \<in> set (categoryGroups channels categories)"
  shows "cg_channels g = sort_key is_voice (filter (\<lambda>c. keyOfChannel c = cg_key g) (guildChannels channels))"
proof -
  let ?ds = "foldl addCategory (foldl addToDraft [] (guildChannels channels)) categories"
  obtain d where "d \<in> set (jm_values ?ds)" "g = draftGroup d"
    using assms by (auto simp: categoryGroups_def Let_def)
  then obtain k where "(k, d) \<in> set ?ds" "g = draftGroup d" by (auto simp: jm_values_def)
  with drafts_ok_mem [OF drafts_ok_all] show ?thesis by (auto simp: draftGroup_def)
qed

lemma categoryGroups_complete:
  assumes "c \<in> set (guildChannels channels)"
  shows "keyOfChannel c \<in> cg_key ` set (categoryGroups channels categories)"
proof -
  let ?ds = "foldl addCategory (foldl addToDraft [] (guildChannels channels)) categories"
  have ok: "drafts_ok (guildChannels channels) ?ds" by (rule drafts_ok_all)
  obtain d where d: "jm_get ?ds (keyOfChannel c) = Some d"
    using ok assms by (cases "jm_get ?ds (keyOfChannel c)") (auto simp: drafts_ok_def filter_empty_conv)
  then have "dr_key d = keyOfChannel c" using ok by (auto simp: drafts_ok_def)
  moreover have "d \<in> set (jm_values ?ds)" using jm_get_SomeD [OF d] by (force simp: jm_values_def)
  ultimately show ?thesis
    by (force simp: categoryGroups_def Let_def draftGroup_def)
qed

lemma sorted_guild: "sorted (map (\<lambda>c. (ch_position c, ch_id c)) (guildChannels channels))"
  by (simp add: guildChannels_def)

lemma sorted_map_filter: "sorted (map f xs) \<Longrightarrow> sorted (map f (filter P xs))"
  by (induction xs) auto

subsection \<open>Sample data\<close>

definition sample_ready :: "int \<Rightarrow> channel_type \<Rightarrow> ready_channel" where
  "sample_ready i t = \<lparr>rc_id = i, rc_name = ''general'', rc_type = t, rc_category = None, rc_category_id = None,
     rc_category_position = None, rc_topic = None, rc_forum = None, rc_position = i, rc_unread_count = None,
     rc_last_message_id = None, rc_can_send = None, rc_can_moderate_voice = None, rc_can_move_voice = None,
     rc_can_delete_others = None, rc_can_pin = None, rc_can_react = None, rc_slow_mode = None,
     rc_mention_count = None, rc_last_read_message_id = None, rc_nsfw = Some True, rc_afk = None,
     rc_private = None, rc_nsfw_acknowledged = Some True, rc_voice_max_users = None,
     rc_voice_max_video = None, rc_password_protected = None\<rparr>"

definition sample_channel :: "int \<Rightarrow> channel_type \<Rightarrow> channel" where
  "sample_channel i t = readyChannel (sample_ready i t)"

lemma sample_channel_simps [simp]:
  "ch_id (sample_channel i t) = i" "ch_type (sample_channel i t) = t" "ch_position (sample_channel i t) = i"
  "ch_category (sample_channel i t) = None" "ch_categoryId (sample_channel i t) = Some 0"
  "ch_unreadCount (sample_channel i t) = 0" "ch_lastMessageId (sample_channel i t) = None"
  by (simp_all add: sample_channel_def readyChannel_def sample_ready_def)

definition sample_channels :: channels_state where
  "sample_channels = CHANNELS_INITIAL_STATE\<lparr>cs_channels := [(1, sample_channel 1 TextChannel), (2, sample_channel 2 VoiceChannel)]\<rparr>"

lemma sample_channels_get [simp]:
  "jm_get (cs_channels sample_channels) 1 = Some (sample_channel 1 TextChannel)"
  "cs_channels sample_channels = [(1, sample_channel 1 TextChannel), (2, sample_channel 2 VoiceChannel)]"
  by (simp_all add: sample_channels_def jm_get_def)

subsection \<open>Properties\<close>

text \<open>Consent to a labelled channel never outlives the label: in every state the module reaches, an
  acknowledged channel is labelled, and every row sits under its own id.\<close>

theorem channels_reachable_ok:
  assumes "runs channels_step channels_init acts md" and "jm_get (cs_channels (cs_state md)) i = Some c"
  shows "ch_id c = i \<and> (ch_nsfwAcknowledged c = Some True \<longrightarrow> ch_nsfw c)"
proof -
  have "chans_ok (cs_channels (cs_state md))"
    using chs.reachable_inv [OF assms(1)] by (simp add: channels_ok_def)
  from chans_ok_get [OF this assms(2)] show ?thesis by (simp add: channel_ok_def)
qed

text \<open>C28: The sidebar shows every guild channel exactly once: the groups have distinct keys, each
  channel's own key is one of them, and a group holds exactly the channels of its key.\<close>

theorem categoryGroups_partition:
  "distinct (map cg_key (categoryGroups channels categories)) \<and>
   (\<forall>c. c \<in> set (guildChannels channels) \<longleftrightarrow>
      (\<exists>g \<in> set (categoryGroups channels categories). c \<in> set (cg_channels g) \<and> cg_key g = keyOfChannel c)) \<and>
   (\<forall>g \<in> set (categoryGroups channels categories).
      cg_channels g = sort_key is_voice (filter (\<lambda>c. keyOfChannel c = cg_key g) (guildChannels channels)))"
proof -
  have "(\<exists>g \<in> set (categoryGroups channels categories). c \<in> set (cg_channels g) \<and> cg_key g = keyOfChannel c) \<longleftrightarrow>
      c \<in> set (guildChannels channels)" for c
    using categoryGroups_complete [of c channels categories] categoryGroups_channels [of _ channels categories] by fastforce
  with categoryGroups_keys [of channels categories] categoryGroups_channels [of _ channels categories]
  show ?thesis by blast
qed

theorem categoryGroups_partition_witness:
  "\<exists>g \<in> set (categoryGroups (cs_channels sample_channels) []).
     sample_channel 2 VoiceChannel \<in> set (cg_channels g) \<and> cg_key g = Some ''Voice''"
proof -
  have "sample_channel 2 VoiceChannel \<in> set (guildChannels (cs_channels sample_channels))"
    by (simp add: guildChannels_def jm_values_def)
  moreover have "keyOfChannel (sample_channel 2 VoiceChannel) = Some ''Voice''"
    by (simp add: keyOfChannel_def UNCATEGORIZED_VOICE_CATEGORY_def)
  ultimately show ?thesis
    using categoryGroups_partition [of "cs_channels sample_channels" "[]"] by metis
qed

theorem channels_reachable_ok_witness:
  "\<exists>md c. runs channels_step channels_init [SetChannels [sample_ready 1 TextChannel], SetNsfwAcknowledged 1 False,
       SetNsfwAcknowledged 1 True] md \<and> jm_get (cs_channels (cs_state md)) 1 = Some c \<and>
     ch_nsfwAcknowledged c = Some True \<and> ch_nsfw c"
proof -
  let ?m1 = "channels_apply channels_init (SetChannels [sample_ready 1 TextChannel])"
  let ?m2 = "channels_apply ?m1 (SetNsfwAcknowledged 1 False)"
  let ?md = "channels_apply ?m2 (SetNsfwAcknowledged 1 True)"
  have r: "runs channels_step channels_init [SetChannels [sample_ready 1 TextChannel], SetNsfwAcknowledged 1 False,
       SetNsfwAcknowledged 1 True] ?md"
    by (rule runs_Cons, rule channels_step_intro, rule runs_Cons, rule channels_step_intro, rule runs_Cons,
        rule channels_step_intro, rule runs_Nil)
  have "jm_get (cs_channels (cs_state ?m1)) 1 = Some (sample_channel 1 TextChannel)"
    by (simp add: setChannels_def readyChannelMap_def jm_of_list_def channels_init_def CHANNELS_INITIAL_STATE_def
        Let_def sample_channel_def sample_ready_def)
  then obtain c where c: "jm_get (cs_channels (cs_state ?md)) 1 = Some c" "ch_nsfwAcknowledged c = Some True"
    by (simp add: setNsfwAcknowledged_def sample_channel_def readyChannel_def sample_ready_def)
  with channels_reachable_ok [OF r c(1)] r show ?thesis by blast
qed

text \<open>Inside a group the text-like channels come before the voice channels, each kind in the
  server's order of position and id.\<close>

theorem categoryGroups_order:
  assumes "g \<in> set (categoryGroups channels categories)"
  shows "sorted (map (\<lambda>c. (is_voice c, ch_position c, ch_id c)) (cg_channels g))"
  unfolding categoryGroups_channels [OF assms]
  by (rule sorted_sort_pair [OF sorted_map_filter [OF sorted_guild]])

theorem categoryGroups_order_witness:
  "\<exists>g \<in> set (categoryGroups (cs_channels sample_channels) []).
     sorted (map (\<lambda>c. (is_voice c, ch_position c, ch_id c)) (cg_channels g))"
proof -
  have "keyOfChannel (sample_channel 1 TextChannel) \<in> cg_key ` set (categoryGroups (cs_channels sample_channels) [])"
    by (rule categoryGroups_complete) (simp add: guildChannels_def jm_values_def)
  then obtain g where "g \<in> set (categoryGroups (cs_channels sample_channels) [])" by blast
  with categoryGroups_order [OF this] show ?thesis by blast
qed

lemma positionStep_fold:
  "fold (positionStep target) cs (g, a) = (g', a') \<Longrightarrow>
     g \<le> g' \<and> a \<le> a' \<and> (\<forall>c \<in> set cs. ch_type c \<noteq> DmChannel \<longrightarrow> ch_position c \<le> a' \<and>
       (keyOfChannel c = target \<longrightarrow> ch_position c \<le> g'))"
proof (induction cs arbitrary: g a)
  case (Cons c cs)
  obtain g1 a1 where s1: "positionStep target c (g, a) = (g1, a1)" by (cases "positionStep target c (g, a)")
  with Cons.prems have "fold (positionStep target) cs (g1, a1) = (g', a')" by simp
  from Cons.IH [OF this] s1 show ?case
    by (force simp: positionStep_def split: if_splits)
qed simp

text \<open>A channel created at the computed next position sorts below every channel shown in its
  group.\<close>

theorem nextPosition_is_last:
  assumes "c \<in> set (jm_values (cs_channels s))" and "ch_type c \<noteq> DmChannel" and "keyOfChannel c = target"
  shows "ch_position c < nextPositionInGroup s target \<and> 0 \<le> nextPositionInGroup s target"
proof -
  obtain g a where ga: "fold (positionStep target) (jm_values (cs_channels s)) (- 1, - 1) = (g, a)"
    by (cases "fold (positionStep target) (jm_values (cs_channels s)) (- 1, - 1)")
  from positionStep_fold [OF ga] assms show ?thesis
    by (auto simp: nextPositionInGroup_def ga)
qed

theorem nextPosition_is_last_witness:
  "ch_position (sample_channel 2 VoiceChannel) < nextPositionInCategory sample_channels 0 VoiceChannel"
proof -
  have "ch_position (sample_channel 2 VoiceChannel) < nextPositionInGroup sample_channels (Some UNCATEGORIZED_VOICE_CATEGORY) \<and>
      0 \<le> nextPositionInGroup sample_channels (Some UNCATEGORIZED_VOICE_CATEGORY)"
    by (rule nextPosition_is_last) (simp_all add: jm_values_def keyOfChannel_def)
  then show ?thesis by (simp add: nextPositionInCategory_def voiceFallback_def)
qed

text \<open>The messages above a watermark.\<close>

definition unread_of :: "int \<Rightarrow> channels_state \<Rightarrow> int" where
  "unread_of c s = nullish (map_option ch_unreadCount (jm_get (cs_channels s) c)) 0"

interpretation chn: watermark_counter "\<lambda>i s. noteChannelMessage s c i mention ev"
  "\<lambda>s. jm_has (cs_channels s) c \<and> (activeChannelId s \<noteq> Some c \<or> ev)"
  "unread_of c" "\<lambda>s. Option.bind (jm_get (cs_channels s) c) ch_lastMessageId"
  for c mention ev
  by unfold_locales
    (auto simp: noteChannelMessage_def unread_of_def Let_def above_def split: option.split option.split_asm)

text \<open>A channel message is counted once however often it is delivered: over messages in id order,
  with repeats, the unread count of a channel in the background grows by the number of distinct ids
  above its watermark.\<close>

theorem noteChannelMessage_counts_once:
  assumes "jm_get (cs_channels s) c = Some e" and "activeChannelId s \<noteq> Some c" and "sorted ids"
  shows "\<exists>e'. jm_get (cs_channels (fold (\<lambda>i s. noteChannelMessage s c i mention False) ids s)) c = Some e' \<and>
    ch_unreadCount e' = ch_unreadCount e + int (card {i \<in> set ids. above (ch_lastMessageId e) i})"
  using chn.counts [where s = s and c = c and ev = False and ks = ids and mention = mention]
    chn.counts_sorted [where s = s and c = c and ev = False and ks = ids and mention = mention] assms
  by (auto simp: unread_of_def)

theorem noteChannelMessage_counts_once_witness:
  "\<exists>e'. jm_get (cs_channels (fold (\<lambda>i s. noteChannelMessage s 1 i False False) [7, 7, 8] sample_channels)) 1 = Some e' \<and>
     ch_unreadCount e' = 2"
proof -
  have "activeChannelId sample_channels \<noteq> Some 1"
    by (simp add: sample_channels_def CHANNELS_INITIAL_STATE_def)
  moreover have "{i \<in> set [7, 7, 8]. above (ch_lastMessageId (sample_channel 1 TextChannel)) i} = {7, 8::int}"
    by auto
  ultimately show ?thesis
    using noteChannelMessage_counts_once [OF sample_channels_get(1), of "[7, 7, 8]" False] by simp
qed

lemma alt_again: "alt x (alt x y) = alt x y"
  by (cases x) simp_all

lemma nullish_alt_again: "nullish (alt x (Some (nullish (alt x y) d))) e = nullish (alt x y) d"
  by (cases x) simp_all

lemma createdChannel_again: "createdChannel (Some (createdChannel e c)) c = createdChannel e c"
  by (simp add: createdChannel_def Let_def alt_again nullish_alt_again)

text \<open>A repeated \<open>channel_create\<close> changes nothing, and the first one keeps what the frame does not
  carry: the counts, the message watermark and the read pointer of a known channel.\<close>

theorem addChannel_idempotent:
  "addChannel (addChannel s c) c = addChannel s c \<and>
   (case jm_get (cs_channels s) (cc_id c) of None \<Rightarrow> True
    | Some e \<Rightarrow> (\<exists>e'. jm_get (cs_channels (addChannel s c)) (cc_id c) = Some e' \<and>
        ch_unreadCount e' = ch_unreadCount e \<and> ch_mentionCount e' = ch_mentionCount e \<and>
        ch_lastMessageId e' = ch_lastMessageId e \<and> ch_lastReadMessageId e' = ch_lastReadMessageId e))"
proof -
  have "addChannel (addChannel s c) c = addChannel s c"
    by (simp add: addChannel_def createdChannel_again)
  moreover have "ch_unreadCount (createdChannel (Some e) c) = ch_unreadCount e"
    "ch_mentionCount (createdChannel (Some e) c) = ch_mentionCount e"
    "ch_lastMessageId (createdChannel (Some e) c) = ch_lastMessageId e"
    "ch_lastReadMessageId (createdChannel (Some e) c) = ch_lastReadMessageId e" for e
    by (simp_all add: createdChannel_def Let_def)
  ultimately show ?thesis by (simp add: addChannel_def split: option.split)
qed

lemma carry_get:
  assumes "jm_wf old"
  shows "jm_get (fold (\<lambda>(i, ch) m. if ch_type ch = DmChannel \<and> \<not> jm_has m i then jm_set m i ch else m) old m) i =
    (case jm_get m i of Some c \<Rightarrow> Some c
     | None \<Rightarrow> (case jm_get old i of None \<Rightarrow> None | Some c \<Rightarrow> if ch_type c = DmChannel then Some c else None))"
  using assms
proof (induction old arbitrary: m)
  case Nil
  then show ?case by (simp split: option.split)
next
  case (Cons e old)
  obtain j ch where e: "e = (j, ch)" by (cases e)
  let ?m = "if ch_type ch = DmChannel \<and> \<not> jm_has m j then jm_set m j ch else m"
  have "jm_wf old" using Cons.prems by (simp add: jm_wf_def)
  moreover have "jm_get old j = None"
    using Cons.prems e by (auto simp: jm_wf_def jm_get_def map_of_eq_None_iff)
  ultimately show ?case
    using Cons.IH [of ?m] by (auto simp: e jm_get_Cons split: option.split)
qed

text \<open>A fresh ready payload replaces every guild channel and keeps the direct messages: afterwards
  a channel is the payload's row if it has one, else the old row if that was a direct message.\<close>

theorem setChannels_keeps_dms:
  assumes "jm_wf (cs_channels (cs_state md))" and "distinct (map rc_id rs)"
  shows "jm_get (cs_channels (cs_state (setChannels md rs))) i =
    (case List.find (\<lambda>r. rc_id r = i) rs of Some r \<Rightarrow> Some (readyChannel r)
     | None \<Rightarrow> (case jm_get (cs_channels (cs_state md)) i of
         None \<Rightarrow> None | Some c \<Rightarrow> if ch_type c = DmChannel then Some c else None))"
proof -
  let ?kvs = "map (\<lambda>r. (rc_id r, readyChannel r)) rs"
  have "map_of (rev ?kvs) = map_of ?kvs"
    using assms(2) by (subst map_of_inject_set) (simp_all add: o_def rev_map [symmetric])
  then have "jm_get (readyChannelMap rs) i = map_of ?kvs i"
    by (simp add: readyChannelMap_def jm_get_of_list)
  also have "\<dots> = map_option readyChannel (List.find (\<lambda>r. rc_id r = i) rs)"
    by (induction rs) auto
  finally have "jm_get (readyChannelMap rs) i = map_option readyChannel (List.find (\<lambda>r. rc_id r = i) rs)" .
  then show ?thesis
    using carry_get [OF assms(1), of "readyChannelMap rs" i]
    by (simp add: setChannels_def Let_def split: option.split)
qed

theorem setChannels_keeps_dms_witness:
  "let md = channels_init\<lparr>cs_state := CHANNELS_INITIAL_STATE\<lparr>cs_channels := [(5, sample_channel 5 DmChannel), (6, sample_channel 6 TextChannel)]\<rparr>\<rparr>;
       md' = setChannels md [sample_ready 1 TextChannel]
   in jm_get (cs_channels (cs_state md')) 5 = Some (sample_channel 5 DmChannel) \<and>
      jm_get (cs_channels (cs_state md')) 6 = None"
proof -
  let ?md = "channels_init\<lparr>cs_state := CHANNELS_INITIAL_STATE\<lparr>cs_channels := [(5, sample_channel 5 DmChannel), (6, sample_channel 6 TextChannel)]\<rparr>\<rparr>"
  have wf: "jm_wf (cs_channels (cs_state ?md))" by (simp add: jm_wf_def)
  have d: "distinct (map rc_id [sample_ready 1 TextChannel])" by simp
  show ?thesis
    using setChannels_keeps_dms [OF wf d, of 5] setChannels_keeps_dms [OF wf d, of 6]
    by (simp add: Let_def sample_ready_def jm_get_def)
qed

text \<open>On a server without category ids the picker offers the free-text category in use, except one
  that is named like the synthetic voice group: that category is left out.\<close>

theorem known_categories_of_legacy_name:
  assumes "name \<noteq> []" and "ch_type c \<noteq> DmChannel"
  shows "getKnownCategories (s\<lparr>cs_channels := [(i, c\<lparr>ch_category := Some name, ch_categoryId := None\<rparr>)]\<rparr>) [] =
    (if name = ''Voice'' then [] else [(0, name)])"
proof -
  let ?c = "c\<lparr>ch_category := Some name, ch_categoryId := None\<rparr>"
  have k: "keyOfChannel ?c = Some name" using assms(1) by (simp add: keyOfChannel_def)
  have "guildChannels [(i, ?c)] = [?c]" using assms(2) by (simp add: guildChannels_def jm_values_def)
  then show ?thesis
    using assms(1) k
    by (simp add: getKnownCategories_def categoryGroups_def Let_def addToDraft_def draftFor_def newDraft_def
        jm_set_def jm_values_def draftGroup_def UNCATEGORIZED_VOICE_CATEGORY_def)
qed

theorem known_categories_of_legacy_name_witness:
  "getKnownCategories (sample_channels\<lparr>cs_channels := [(1, (sample_channel 1 TextChannel)\<lparr>ch_category := Some ''Voice'', ch_categoryId := None\<rparr>)]\<rparr>) [] = []"
  using known_categories_of_legacy_name [of "''Voice''" "sample_channel 1 TextChannel"] by simp

end
