(* ===== verification/Permissions.thy ===== *)
theory Permissions
  imports Channels_Store "HOL-Library.Word"
begin

unbundle bit_operations_syntax

text \<open>
  \<open>lib/permissions.ts\<close> with the \<open>Permission\<close> enum of \<open>lib/types.ts\<close>: which affordances a member
  is shown, from the role list of the channels store and the signed-in user of the auth store.

  JavaScript's \<open>&\<close> and \<open>|\<close> take their operands modulo \<open>2 ^ 32\<close> and give a signed 32-bit number, so
  a mask is an integer here and the operators go through \<open>32 word\<close>.

  The lemmas show that a member holds exactly the bits that some held role grants or the
  administrator bit implies, whatever the order of the roles, and where the name fallback stands in.
\<close>

subsection \<open>Masks\<close>

datatype permission =
    SEND_MESSAGES | READ_MESSAGES | MANAGE_CONFIG | MANAGE_UPDATES | MANAGE_TOKENS | ATTACH_FILES
  | ADD_REACTIONS | ISSUE_RECOVERY | VIEW_DIAGNOSTICS | CONNECT_VOICE | SPEAK_VOICE | USE_VIDEO
  | SHARE_SCREEN | MOVE_MEMBERS | MANAGE_BACKUPS | RESTORE_BACKUPS | MANAGE_MESSAGES
  | MANAGE_CHANNELS | KICK_MEMBERS | BAN_MEMBERS | MUTE_MEMBERS | MENTION_EVERYONE
  | MODERATE_MEMBERS | MANAGE_NICKNAMES | MANAGE_ROLES | MANAGE_SERVER | MANAGE_INVITES
  | VIEW_AUDIT_LOG | ERASE_ACCOUNTS | ADMINISTRATOR

fun Permission :: "permission \<Rightarrow> int" where
  "Permission SEND_MESSAGES = 0x1"
| "Permission READ_MESSAGES = 0x2"
| "Permission MANAGE_CONFIG = 0x4"
| "Permission MANAGE_UPDATES = 0x8"
| "Permission MANAGE_TOKENS = 0x10"
| "Permission ATTACH_FILES = 0x20"
| "Permission ADD_REACTIONS = 0x40"
| "Permission ISSUE_RECOVERY = 0x80"
| "Permission VIEW_DIAGNOSTICS = 0x100"
| "Permission CONNECT_VOICE = 0x200"
| "Permission SPEAK_VOICE = 0x400"
| "Permission USE_VIDEO = 0x800"
| "Permission SHARE_SCREEN = 0x1000"
| "Permission MOVE_MEMBERS = 0x2000"
| "Permission MANAGE_BACKUPS = 0x4000"
| "Permission RESTORE_BACKUPS = 0x8000"
| "Permission MANAGE_MESSAGES = 0x10000"
| "Permission MANAGE_CHANNELS = 0x20000"
| "Permission KICK_MEMBERS = 0x40000"
| "Permission BAN_MEMBERS = 0x80000"
| "Permission MUTE_MEMBERS = 0x100000"
| "Permission MENTION_EVERYONE = 0x200000"
| "Permission MODERATE_MEMBERS = 0x400000"
| "Permission MANAGE_NICKNAMES = 0x800000"
| "Permission MANAGE_ROLES = 0x1000000"
| "Permission MANAGE_SERVER = 0x2000000"
| "Permission MANAGE_INVITES = 0x4000000"
| "Permission VIEW_AUDIT_LOG = 0x8000000"
| "Permission ERASE_ACCOUNTS = 0x10000000"
| "Permission ADMINISTRATOR = 0x40000000"

definition js_and :: "int \<Rightarrow> int \<Rightarrow> int" where
  "js_and a b = sint (word_of_int a AND word_of_int b :: 32 word)"

definition js_or :: "int \<Rightarrow> int \<Rightarrow> int" where
  "js_or a b = sint (word_of_int a OR word_of_int b :: 32 word)"

definition hasPermission :: "int \<Rightarrow> permission \<Rightarrow> bool" where
  "hasPermission userPerms perm = (
     if js_and userPerms (Permission ADMINISTRATOR) = Permission ADMINISTRATOR then True
     else js_and userPerms (Permission perm) = Permission perm)"

subsection \<open>Roles and members\<close>

definition permissionsForRoleIn :: "ready_role list \<Rightarrow> string \<Rightarrow> int option" where
  "permissionsForRoleIn roles roleName = (
     let name = toLowerCase roleName
     in map_option rr_permissions (List.find (\<lambda>r. toLowerCase (rr_name r) = name) roles))"

definition role_by_id :: "ready_role list \<Rightarrow> int \<Rightarrow> ready_role option" where
  "role_by_id roles i = List.find (\<lambda>r. rr_id r = i) roles"

text \<open>The loop over the held ids, with \<open>mask\<close> and \<open>found\<close>.\<close>

definition maskStep :: "ready_role list \<Rightarrow> int \<Rightarrow> int \<times> bool \<Rightarrow> int \<times> bool" where
  "maskStep roles i acc = (case role_by_id roles i of
     None \<Rightarrow> acc | Some role \<Rightarrow> (js_or (fst acc) (rr_permissions role), True))"

definition permissionsForMemberIn :: "ready_role list \<Rightarrow> int list option \<Rightarrow> string \<Rightarrow> int option" where
  "permissionsForMemberIn roles roleIds roleName = (case roleIds of
     None \<Rightarrow> permissionsForRoleIn roles roleName
   | Some ids \<Rightarrow>
       (let (msk, found) = fold (maskStep roles) ids (0, False)
        in if found then Some msk else permissionsForRoleIn roles roleName))"

text \<open>The best position so far starts at minus infinity, here \<open>None\<close>.\<close>

definition topStep :: "ready_role list \<Rightarrow> int \<Rightarrow> int option \<Rightarrow> int option" where
  "topStep roles i best = (case Option.bind (role_by_id roles i) rr_position of
     None \<Rightarrow> best
   | Some position \<Rightarrow> Some (case best of None \<Rightarrow> position | Some t \<Rightarrow> max t position))"

definition positionForRoleIn :: "ready_role list \<Rightarrow> string \<Rightarrow> int option" where
  "positionForRoleIn roles roleName = (
     let name = toLowerCase roleName
     in Option.bind (List.find (\<lambda>r. toLowerCase (rr_name r) = name) roles) rr_position)"

definition topPositionFor :: "ready_role list \<Rightarrow> int list option \<Rightarrow> string \<Rightarrow> int option" where
  "topPositionFor roles roleIds roleName = (case roleIds of
     None \<Rightarrow> positionForRoleIn roles roleName
   | Some ids \<Rightarrow> (case fold (topStep roles) ids None of
       Some best \<Rightarrow> Some best | None \<Rightarrow> positionForRoleIn roles roleName))"

definition isLegacyAdminRole :: "string \<Rightarrow> bool" where
  "isLegacyAdminRole roleName = (let name = toLowerCase roleName in name = ''owner'' \<or> name = ''admin'')"

definition roleHasPermissionIn :: "ready_role list \<Rightarrow> string \<Rightarrow> permission \<Rightarrow> bool" where
  "roleHasPermissionIn roles roleName perm = (case permissionsForRoleIn roles roleName of
     None \<Rightarrow> isLegacyAdminRole roleName | Some perms \<Rightarrow> hasPermission perms perm)"

definition memberHasPermissionIn :: "ready_role list \<Rightarrow> int list option \<Rightarrow> string \<Rightarrow> permission \<Rightarrow> bool" where
  "memberHasPermissionIn roles roleIds roleName perm = (case permissionsForMemberIn roles roleIds roleName of
     None \<Rightarrow> isLegacyAdminRole roleName | Some perms \<Rightarrow> hasPermission perms perm)"

subsection \<open>The signed-in user\<close>

text \<open>What the file reads of the auth store's user.\<close>

record auth_user =
  au_role :: "string option"
  au_role_ids :: "int list option"

definition currentUserRoleHasPermission :: "channels_state \<Rightarrow> auth_user option \<Rightarrow> permission \<Rightarrow> bool" where
  "currentUserRoleHasPermission s me perm = memberHasPermissionIn (cs_roles s)
     (Option.bind me au_role_ids) (nullish (Option.bind me au_role) []) perm"

definition currentUserPermissions :: "channels_state \<Rightarrow> auth_user option \<Rightarrow> int" where
  "currentUserPermissions s me = (case Option.bind me au_role of
     None \<Rightarrow> 0
   | Some roleName \<Rightarrow> nullish (permissionsForMemberIn (cs_roles s) (Option.bind me au_role_ids) roleName) 0)"

definition currentUserHasPermission :: "channels_state \<Rightarrow> auth_user option \<Rightarrow> permission \<Rightarrow> bool" where
  "currentUserHasPermission s me perm = hasPermission (currentUserPermissions s me) perm"

definition canManageMessages :: "channels_state \<Rightarrow> auth_user option \<Rightarrow> bool" where
  "canManageMessages s me = currentUserHasPermission s me MANAGE_MESSAGES"

definition channelBitOrRole :: "channels_state \<Rightarrow> auth_user option \<Rightarrow> bool option \<Rightarrow> bool" where
  "channelBitOrRole s me b = nullish b (canManageMessages s me)"

definition canManageChannels :: "channels_state \<Rightarrow> auth_user option \<Rightarrow> bool" where
  "canManageChannels s me = currentUserRoleHasPermission s me MANAGE_CHANNELS"

definition visibleCategories :: "channels_state \<Rightarrow> auth_user option \<Rightarrow> channel_category list" where
  "visibleCategories s me = (if canManageChannels s me then cs_categories s else [])"

definition canViewAuditLog :: "channels_state \<Rightarrow> auth_user option \<Rightarrow> bool" where
  "canViewAuditLog s me = currentUserRoleHasPermission s me VIEW_AUDIT_LOG"

definition canManageInvites :: "channels_state \<Rightarrow> auth_user option \<Rightarrow> bool" where
  "canManageInvites s me = currentUserRoleHasPermission s me MANAGE_INVITES"

definition canModerateMembers :: "channels_state \<Rightarrow> auth_user option \<Rightarrow> bool" where
  "canModerateMembers s me = currentUserRoleHasPermission s me MODERATE_MEMBERS"

subsection \<open>Bits\<close>

fun perm_bit :: "permission \<Rightarrow> nat" where
  "perm_bit SEND_MESSAGES = 0"
| "perm_bit READ_MESSAGES = 1"
| "perm_bit MANAGE_CONFIG = 2"
| "perm_bit MANAGE_UPDATES = 3"
| "perm_bit MANAGE_TOKENS = 4"
| "perm_bit ATTACH_FILES = 5"
| "perm_bit ADD_REACTIONS = 6"
| "perm_bit ISSUE_RECOVERY = 7"
| "perm_bit VIEW_DIAGNOSTICS = 8"
| "perm_bit CONNECT_VOICE = 9"
| "perm_bit SPEAK_VOICE = 10"
| "perm_bit USE_VIDEO = 11"
| "perm_bit SHARE_SCREEN = 12"
| "perm_bit MOVE_MEMBERS = 13"
| "perm_bit MANAGE_BACKUPS = 14"
| "perm_bit RESTORE_BACKUPS = 15"
| "perm_bit MANAGE_MESSAGES = 16"
| "perm_bit MANAGE_CHANNELS = 17"
| "perm_bit KICK_MEMBERS = 18"
| "perm_bit BAN_MEMBERS = 19"
| "perm_bit MUTE_MEMBERS = 20"
| "perm_bit MENTION_EVERYONE = 21"
| "perm_bit MODERATE_MEMBERS = 22"
| "perm_bit MANAGE_NICKNAMES = 23"
| "perm_bit MANAGE_ROLES = 24"
| "perm_bit MANAGE_SERVER = 25"
| "perm_bit MANAGE_INVITES = 26"
| "perm_bit VIEW_AUDIT_LOG = 27"
| "perm_bit ERASE_ACCOUNTS = 28"
| "perm_bit ADMINISTRATOR = 30"

lemma perm_bit_less: "perm_bit p < 31"
  by (cases p) simp_all

lemma Permission_perm_bit: "Permission p = 2 ^ perm_bit p"
  by (cases p) simp_all

lemma js_and_signed: "js_and a b = signed_take_bit 31 (a AND b)"
  unfolding js_and_def of_int_and_eq [symmetric] by (simp add: sint_sbintrunc')

lemma js_or_signed: "js_or a b = signed_take_bit 31 (a OR b)"
  unfolding js_or_def of_int_or_eq [symmetric] by (simp add: sint_sbintrunc')

lemma bit_js_or: "n < 32 \<Longrightarrow> bit (js_or a b) n \<longleftrightarrow> bit a n \<or> bit b n"
  by (simp add: js_or_signed bit_signed_take_bit_iff bit_or_iff min_absorb2)

lemma js_and_bit:
  assumes "n < 31"
  shows "js_and a (2 ^ n) = 2 ^ n \<longleftrightarrow> bit a n"
proof
  assume "js_and a (2 ^ n) = 2 ^ n"
  then have "bit (js_and a (2 ^ n)) n" by (simp add: bit_exp_iff)
  with assms show "bit a n" by (simp add: js_and_signed bit_signed_take_bit_iff bit_and_iff min_def)
next
  assume "bit a n"
  with assms show "js_and a (2 ^ n) = 2 ^ n"
    by (intro bit_eqI) (auto simp: js_and_signed bit_signed_take_bit_iff bit_and_iff bit_exp_iff min_def)
qed

lemma hasPermission_bit: "hasPermission m p \<longleftrightarrow> bit m 30 \<or> bit m (perm_bit p)"
  using js_and_bit [of 30 m] js_and_bit [OF perm_bit_less, of m p]
  by (simp add: hasPermission_def Permission_perm_bit)

lemma hasPermission_or: "hasPermission (js_or a b) p \<longleftrightarrow> hasPermission a p \<or> hasPermission b p"
  using perm_bit_less [of p] by (auto simp: hasPermission_bit bit_js_or)

lemma hasPermission_0 [simp]: "\<not> hasPermission 0 p"
  by (simp add: hasPermission_bit)

subsection \<open>Held roles\<close>

definition held_roles :: "ready_role list \<Rightarrow> int list \<Rightarrow> ready_role list" where
  "held_roles roles ids = List.map_filter (role_by_id roles) ids"

lemma held_roles_simps [simp]:
  "held_roles roles [] = []"
  "held_roles roles (i # ids) = (case role_by_id roles i of
     None \<Rightarrow> held_roles roles ids | Some r \<Rightarrow> r # held_roles roles ids)"
  by (simp_all add: held_roles_def map_filter_simps split: option.split)

lemma fold_maskStep:
  "fold (maskStep roles) ids (msk, found) =
     (fold (\<lambda>r acc. js_or acc (rr_permissions r)) (held_roles roles ids) msk,
      found \<or> held_roles roles ids \<noteq> [])"
  by (induction ids arbitrary: msk found) (auto simp: maskStep_def split: option.split)

lemma hasPermission_fold:
  "hasPermission (fold (\<lambda>r acc. js_or acc (rr_permissions r)) rs msk) p \<longleftrightarrow>
     hasPermission msk p \<or> list_ex (\<lambda>r. hasPermission (rr_permissions r) p) rs"
  by (induction rs arbitrary: msk) (auto simp: hasPermission_or)

lemma fold_topStep:
  "fold (topStep roles) ids best =
     fold (\<lambda>p best. Some (case best of None \<Rightarrow> p | Some t \<Rightarrow> max t p))
       (List.map_filter rr_position (held_roles roles ids)) best"
  by (induction ids arbitrary: best)
    (auto simp: topStep_def map_filter_simps split: option.split)

lemma fold_best_Some:
  "fold (\<lambda>p best. Some (case best of None \<Rightarrow> p | Some t \<Rightarrow> max t p)) ps (Some (t::int)) = Some (fold max ps t)"
  by (induction ps arbitrary: t) (auto simp: max.commute)

lemma topPositionFor_Max:
  "topPositionFor roles (Some ids) roleName = (
     let ps = List.map_filter rr_position (held_roles roles ids)
     in if ps = [] then positionForRoleIn roles roleName else Some (Max (set ps)))"
  unfolding topPositionFor_def fold_topStep Let_def
  by (cases "List.map_filter rr_position (held_roles roles ids)")
    (simp_all add: fold_best_Some Max.set_eq_fold [symmetric] del: list.set)

subsection \<open>Properties\<close>

text \<open>C33: A member has a permission exactly when some role they hold grants it, the administrator bit
  granting everything; roles the roster does not know are skipped, and with none left the role name
  decides as it does on a server that sends no ids. Their rank is the highest position among the
  roles they hold.\<close>

theorem memberHasPermission_exact:
  "memberHasPermissionIn roles (Some ids) roleName perm = (
     if held_roles roles ids = [] then roleHasPermissionIn roles roleName perm
     else list_ex (\<lambda>r. hasPermission (rr_permissions r) perm) (held_roles roles ids)) \<and>
   topPositionFor roles (Some ids) roleName = (
     let ps = List.map_filter rr_position (held_roles roles ids)
     in if ps = [] then positionForRoleIn roles roleName else Some (Max (set ps)))"
  using hasPermission_fold [of "held_roles roles ids" 0 perm] topPositionFor_Max
  by (auto simp: memberHasPermissionIn_def permissionsForMemberIn_def roleHasPermissionIn_def fold_maskStep)

end
