(* ===== verification/Sliding_Window.thy ===== *)
theory Sliding_Window
  imports Prelude
begin

text \<open>
  A sliding window of time stamps, shared by the rate limiter and by the pacing of read marks: each
  keeps the stamps of recent grants, forgets those that left the window, and grants while fewer than
  the budget are left.
\<close>

definition in_window :: "int \<Rightarrow> int \<Rightarrow> int list \<Rightarrow> int list" where
  "in_window w a ts = filter (\<lambda>t. a < t \<and> t \<le> a + w) ts"

text \<open>The stored stamps of a key are its granted instants since some cutoff that has left the window,
  in order; no window holds more than the budget.\<close>

definition key_ok :: "int \<Rightarrow> int \<Rightarrow> int \<Rightarrow> int list \<Rightarrow> int list \<Rightarrow> bool" where
  "key_ok w n now granted stored \<longleftrightarrow>
     sorted granted \<and> (\<forall>t \<in> set granted. t \<le> now) \<and>
     (\<exists>cut. cut \<le> now - w \<and> stored = filter (\<lambda>t. cut < t) granted) \<and>
     (\<forall>a. int (length (in_window w a granted)) \<le> n)"

lemma length_filter_mono: "(\<And>x. P x \<Longrightarrow> Q x) \<Longrightarrow> length (filter P xs) \<le> length (filter Q xs)"
  by (induction xs) (auto intro: le_SucI)

lemma key_ok_live_eq:
  assumes "key_ok w n now g st" and "now \<le> now'"
  shows "filter (\<lambda>t. now' - w < t) st = filter (\<lambda>t. now' - w < t) g"
proof -
  obtain cut where "cut \<le> now - w" "st = filter (\<lambda>t. cut < t) g" using assms(1) by (auto simp: key_ok_def)
  with assms(2) have "(\<lambda>t. cut < t \<and> now' - w < t) = (\<lambda>t. now' - w < t)" by auto
  with \<open>st = _\<close> show ?thesis by (simp add: conj_commute)
qed

lemma key_ok_advance:
  assumes "key_ok w n now g st" and "now \<le> now'"
  shows "key_ok w n now' g st" and "key_ok w n now' g (filter (\<lambda>t. now' - w < t) st)"
proof -
  obtain cut where "cut \<le> now - w" "st = filter (\<lambda>t. cut < t) g" using assms(1) by (auto simp: key_ok_def)
  with assms have "\<exists>cut. cut \<le> now' - w \<and> st = filter (\<lambda>t. cut < t) g" by (intro exI [of _ cut]) simp
  moreover have "\<forall>t \<in> set g. t \<le> now'" using assms by (auto simp: key_ok_def)
  ultimately show "key_ok w n now' g st" using assms(1) unfolding key_ok_def by blast
  then show "key_ok w n now' g (filter (\<lambda>t. now' - w < t) st)"
    unfolding key_ok_live_eq [OF assms] by (auto simp: key_ok_def)
qed

lemma key_ok_grant:
  assumes ok: "key_ok w n now g st" and "now \<le> now'" and "1 \<le> w"
    and room: "int (length (filter (\<lambda>t. now' - w < t) st)) < n"
  shows "key_ok w n now' (g @ [now']) (filter (\<lambda>t. now' - w < t) st @ [now'])"
proof -
  note ok' = key_ok_advance(1) [OF ok assms(2)]
  have "int (length (in_window w a (g @ [now']))) \<le> n" for a
  proof (cases "a < now' \<and> now' \<le> a + w")
    case True
    then have "length (in_window w a g) \<le> length (filter (\<lambda>t. now' - w < t) g)"
      unfolding in_window_def by (intro length_filter_mono) simp
    with True room show ?thesis by (simp add: in_window_def key_ok_live_eq [OF ok assms(2)])
  next
    case False
    with ok' show ?thesis by (auto simp: in_window_def key_ok_def)
  qed
  with ok' \<open>1 \<le> w\<close> show ?thesis
    unfolding key_ok_live_eq [OF ok assms(2)]
    by (auto simp: key_ok_def sorted_append intro!: exI [of _ "now' - w"])
qed

text \<open>Several grants at one instant.\<close>

lemma key_ok_grants:
  assumes "key_ok w n now g st" and "now \<le> now'" and "1 \<le> w"
    and "int (length (filter (\<lambda>t. now' - w < t) st) + k) \<le> n"
  shows "key_ok w n now' (g @ replicate k now') (filter (\<lambda>t. now' - w < t) st @ replicate k now')"
  using assms(4)
proof (induction k)
  case 0
  show ?case using key_ok_advance(2) [OF assms(1,2)] by simp
next
  case (Suc k)
  let ?st = "filter (\<lambda>t. now' - w < t) st @ replicate k now'"
  have "filter (\<lambda>t. now' - w < t) ?st = ?st" using assms(3) by simp
  with Suc key_ok_grant [OF Suc.IH order_refl assms(3)]
  show ?case by (simp add: replicate_append_same)
qed

end
