(* ===== verification/Rate_Limiter.thy ===== *)
theory Rate_Limiter
  imports Sliding_Window
begin

text \<open>
  \<open>lib/net/rateLimiter.ts\<close>: the sliding-window limiter that caps what the client sends (typing,
  presence, reactions, voice toggles), one list of time stamps per key. The clock, which the code
  reads with \<open>Date.now()\<close>, is an argument.

  The lemmas show, for every run of calls on a clock that does not go back, that no window of
  \<open>windowMs\<close> milliseconds holds more than \<open>maxTokens\<close> granted calls of a key, and that
  \<open>getRemainingMs\<close> names the first instant at which a call is granted.
\<close>

subsection \<open>The class\<close>

record limiter =
  maxTokens :: int
  windowMs :: int
  rl_state :: "(string, int list) jmap"

datatype limiter_error = BadMaxTokens | BadWindowMs

definition DEFAULT_KEY :: string where
  "DEFAULT_KEY = ''__default__''"

definition newRateLimiter :: "int \<Rightarrow> int \<Rightarrow> limiter_error + limiter" where
  "newRateLimiter tokens window = (
     if tokens < 1 then Inl BadMaxTokens
     else if window < 1 then Inl BadWindowMs
     else Inr \<lparr>maxTokens = tokens, windowMs = window, rl_state = []\<rparr>)"

definition prune :: "limiter \<Rightarrow> string \<Rightarrow> int \<Rightarrow> limiter \<times> int list" where
  "prune r key now = (
     let cutoff = now - windowMs r;
         filtered = filter (\<lambda>t. cutoff < t) (nullish (jm_get (rl_state r) key) [])
     in (if 0 < length filtered then r\<lparr>rl_state := jm_set (rl_state r) key filtered\<rparr>
         else r\<lparr>rl_state := jm_delete (rl_state r) key\<rparr>, filtered))"

definition tryConsume :: "limiter \<Rightarrow> string \<Rightarrow> int \<Rightarrow> limiter \<times> bool" where
  "tryConsume r key now = (
     let (r', timestamps) = prune r key now
     in if maxTokens r \<le> int (length timestamps) then (r', False)
        else (r'\<lparr>rl_state := jm_set (rl_state r') key (timestamps @ [now])\<rparr>, True))"

definition getRemainingMs :: "limiter \<Rightarrow> string \<Rightarrow> int \<Rightarrow> limiter \<times> int" where
  "getRemainingMs r key now = (
     let (r', timestamps) = prune r key now
     in (r', if int (length timestamps) < maxTokens r then 0
             else case timestamps of [] \<Rightarrow> 0 | oldest # _ \<Rightarrow> max 0 (oldest + windowMs r - now)))"

subsection \<open>The limiters of the protocol\<close>

definition createPresenceLimiter :: "limiter_error + limiter" where
  "createPresenceLimiter = newRateLimiter 1 10000"

record limiter_set =
  ls_typing :: limiter
  ls_presence :: limiter
  ls_reactions :: limiter
  ls_voice :: limiter
  ls_voiceVideo :: limiter

definition lim_bind :: "limiter_error + 'a \<Rightarrow> ('a \<Rightarrow> limiter_error + 'b) \<Rightarrow> limiter_error + 'b" where
  "lim_bind x f = (case x of Inl e \<Rightarrow> Inl e | Inr a \<Rightarrow> f a)"

definition createRateLimiterSet :: "limiter_error + limiter_set" where
  "createRateLimiterSet =
     lim_bind (newRateLimiter 1 3000) (\<lambda>typing.
     lim_bind createPresenceLimiter (\<lambda>presence.
     lim_bind (newRateLimiter 5 1000) (\<lambda>reactions.
     lim_bind (newRateLimiter 2 1000) (\<lambda>voice.
     lim_bind (newRateLimiter 2 1000) (\<lambda>voiceVideo.
       Inr \<lparr>ls_typing = typing, ls_presence = presence, ls_reactions = reactions,
            ls_voice = voice, ls_voiceVideo = voiceVideo\<rparr>)))))"

subsection \<open>Stamps of a key\<close>

definition stamps :: "limiter \<Rightarrow> string \<Rightarrow> int list" where
  "stamps r key = nullish (jm_get (rl_state r) key) []"

definition live :: "limiter \<Rightarrow> string \<Rightarrow> int \<Rightarrow> int list" where
  "live r key now = filter (\<lambda>t. now - windowMs r < t) (stamps r key)"

lemma prune_live [simp]: "snd (prune r key now) = live r key now"
  by (simp add: prune_def live_def stamps_def Let_def)

lemma prune_frame [simp]:
  "maxTokens (fst (prune r key now)) = maxTokens r" "windowMs (fst (prune r key now)) = windowMs r"
  by (simp_all add: prune_def Let_def)

lemma stamps_prune [simp]:
  "stamps (fst (prune r key now)) k = (if k = key then live r key now else stamps r k)"
  by (auto simp: prune_def live_def stamps_def Let_def nullish_def)

lemma tryConsume_frame [simp]:
  "maxTokens (fst (tryConsume r key now)) = maxTokens r" "windowMs (fst (tryConsume r key now)) = windowMs r"
  by (simp_all add: tryConsume_def case_prod_beta Let_def)

lemma tryConsume_allowed [simp]: "snd (tryConsume r key now) \<longleftrightarrow> int (length (live r key now)) < maxTokens r"
  by (simp add: tryConsume_def case_prod_beta Let_def)

lemma stamps_tryConsume [simp]:
  "stamps (fst (tryConsume r key now)) k =
     (if k = key then live r key now @ (if snd (tryConsume r key now) then [now] else []) else stamps r k)"
proof -
  have "stamps (r'\<lparr>rl_state := jm_set (rl_state r') key ts\<rparr>) k = (if k = key then ts else stamps r' k)" for r' ts
    by (simp add: stamps_def nullish_def)
  then show ?thesis by (auto simp: tryConsume_def case_prod_beta Let_def)
qed

lemma getRemainingMs_state [simp]: "fst (getRemainingMs r key now) = fst (prune r key now)"
  by (simp add: getRemainingMs_def case_prod_beta Let_def)

lemma getRemainingMs_value:
  "snd (getRemainingMs r key now) = (if int (length (live r key now)) < maxTokens r then 0
     else case live r key now of [] \<Rightarrow> 0 | oldest # _ \<Rightarrow> max 0 (oldest + windowMs r - now))"
  by (simp add: getRemainingMs_def case_prod_beta Let_def)

subsection \<open>Runs\<close>

datatype limiter_call = Consume string int | Remaining string int

text \<open>A limiter with the clock's last reading and, per key, the instants of the granted calls.\<close>

record limiter_run =
  lr_limiter :: limiter
  lr_clock :: int
  lr_granted :: "string \<Rightarrow> int list"

inductive limiter_step :: "limiter_run \<Rightarrow> limiter_call \<Rightarrow> limiter_run \<Rightarrow> bool" where
  consume_granted: "lr_clock s \<le> now \<Longrightarrow> tryConsume (lr_limiter s) key now = (r', True) \<Longrightarrow>
    limiter_step s (Consume key now) \<lparr>lr_limiter = r', lr_clock = now,
      lr_granted = (lr_granted s)(key := lr_granted s key @ [now])\<rparr>"
| consume_refused: "lr_clock s \<le> now \<Longrightarrow> tryConsume (lr_limiter s) key now = (r', False) \<Longrightarrow>
    limiter_step s (Consume key now) (s\<lparr>lr_limiter := r', lr_clock := now\<rparr>)"
| remaining: "lr_clock s \<le> now \<Longrightarrow> getRemainingMs (lr_limiter s) key now = (r', ms) \<Longrightarrow>
    limiter_step s (Remaining key now) (s\<lparr>lr_limiter := r', lr_clock := now\<rparr>)"

definition fresh_run :: "limiter \<Rightarrow> int \<Rightarrow> limiter_run" where
  "fresh_run r now = \<lparr>lr_limiter = r, lr_clock = now, lr_granted = (\<lambda>_. [])\<rparr>"

definition run_ok :: "int \<Rightarrow> int \<Rightarrow> limiter_run \<Rightarrow> bool" where
  "run_ok n w s \<longleftrightarrow> maxTokens (lr_limiter s) = n \<and> windowMs (lr_limiter s) = w \<and> 1 \<le> n \<and> 1 \<le> w \<and>
     (\<forall>k. key_ok w n (lr_clock s) (lr_granted s k) (stamps (lr_limiter s) k))"

lemma live_stamps: "live r key now = filter (\<lambda>t. now - windowMs r < t) (stamps r key)"
  by (simp add: live_def)

lemma limiter_step_ok:
  assumes "limiter_step s c s'" and "run_ok n w s"
  shows "run_ok n w s'"
  using assms
proof (induction rule: limiter_step.induct)
  case (consume_granted s now key r')
  have r': "r' = fst (tryConsume (lr_limiter s) key now)" "snd (tryConsume (lr_limiter s) key now)"
    using consume_granted(2) by simp_all
  with consume_granted show ?case
    unfolding run_ok_def by (auto simp: live_stamps intro: key_ok_grant key_ok_advance(1))
next
  case (consume_refused s now key r')
  have r': "r' = fst (tryConsume (lr_limiter s) key now)" "\<not> snd (tryConsume (lr_limiter s) key now)"
    using consume_refused(2) by simp_all
  with consume_refused show ?case
    unfolding run_ok_def by (auto simp: live_stamps intro: key_ok_advance)
next
  case (remaining s now key r' ms)
  have r': "r' = fst (prune (lr_limiter s) key now)"
    using remaining(2) getRemainingMs_state [of "lr_limiter s" key now] by simp
  with remaining show ?case
    unfolding run_ok_def by (auto simp: live_stamps intro: key_ok_advance)
qed

lemma fresh_run_ok:
  assumes "newRateLimiter n w = Inr r"
  shows "run_ok n w (fresh_run r now)"
  using assms by (auto simp: newRateLimiter_def run_ok_def fresh_run_def stamps_def key_ok_def in_window_def
      nullish_def split: if_splits)

lemma limiter_runs_ok:
  "newRateLimiter n w = Inr r \<Longrightarrow> runs limiter_step (fresh_run r start) calls s \<Longrightarrow> run_ok n w s"
proof -
  assume new: "newRateLimiter n w = Inr r" and run: "runs limiter_step (fresh_run r start) calls s"
  have "invariant_system limiter_step (fresh_run r start) (run_ok n w)"
    by unfold_locales (auto intro: fresh_run_ok [OF new] limiter_step_ok)
  from invariant_system.reachable_inv [OF this run] show ?thesis .
qed

text \<open>The live stamps of a reachable limiter: in order, at most the budget, the oldest first.\<close>

lemma run_live:
  assumes "run_ok n w s" and "lr_clock s \<le> now"
  shows "sorted (live (lr_limiter s) key now)" and "int (length (live (lr_limiter s) key now)) \<le> n"
    and "\<forall>t \<in> set (live (lr_limiter s) key now). now - w < t"
proof -
  let ?g = "lr_granted s key"
  have ok: "key_ok w n (lr_clock s) ?g (stamps (lr_limiter s) key)" and w: "windowMs (lr_limiter s) = w"
    using assms(1) by (auto simp: run_ok_def)
  then have live: "live (lr_limiter s) key now = filter (\<lambda>t. now - w < t) ?g"
    using key_ok_live_eq [OF ok assms(2)] by (simp add: live_def)
  from key_ok_advance(1) [OF ok assms(2)] have adv: "key_ok w n now ?g (stamps (lr_limiter s) key)" .
  then have "filter (\<lambda>t. now - w < t) ?g = in_window w (now - w) ?g"
    by (auto simp: in_window_def key_ok_def intro: filter_cong)
  with adv live show "int (length (live (lr_limiter s) key now)) \<le> n" by (simp add: key_ok_def)
  from adv live show "sorted (live (lr_limiter s) key now)" by (simp add: key_ok_def sorted_wrt_filter)
  show "\<forall>t \<in> set (live (lr_limiter s) key now). now - w < t" by (simp add: live)
qed

lemma live_later_full:
  assumes "sorted (oldest # ts)" and "t - w < oldest"
  shows "filter (\<lambda>x. t - w < x) (oldest # ts) = oldest # (ts :: int list)"
  using assms by (auto intro!: filter_True)

lemma remaining_exact:
  assumes ok: "run_ok n w s" and clock: "lr_clock s \<le> now" and later: "now \<le> t"
    and rem: "getRemainingMs (lr_limiter s) key now = (r', ms)"
  shows "0 \<le> ms" and "snd (tryConsume r' key t) \<longleftrightarrow> now + ms \<le> t"
proof -
  let ?r = "lr_limiter s" and ?L = "live (lr_limiter s) key now"
  note L = run_live [OF ok clock, of key]
  have n: "maxTokens ?r = n" and w: "windowMs ?r = w" and "1 \<le> n" using ok by (auto simp: run_ok_def)
  have r': "r' = fst (prune ?r key now)" and ms: "ms = snd (getRemainingMs ?r key now)"
    using rem getRemainingMs_state [of ?r key now] by simp_all
  have granted: "snd (tryConsume r' key t) \<longleftrightarrow> int (length (filter (\<lambda>x. t - w < x) ?L)) < n"
    by (simp add: r' live_def [of "fst (prune ?r key now)"] n w)
  have cases: "int (length ?L) < n \<and> ms = 0 \<or>
      (\<exists>oldest ts. ?L = oldest # ts \<and> int (length ?L) = n \<and> ms = oldest + w - now \<and> 0 < ms)"
    using L(2,3) \<open>1 \<le> n\<close> by (cases ?L) (auto simp: ms getRemainingMs_value n w)
  then show "0 \<le> ms" by auto
  from cases show "snd (tryConsume r' key t) \<longleftrightarrow> now + ms \<le> t"
  proof (elim disjE exE conjE)
    assume "int (length ?L) < n" "ms = 0"
    moreover have "length (filter (\<lambda>x. t - w < x) ?L) \<le> length ?L" by simp
    ultimately show ?thesis unfolding granted using later by linarith
  next
    fix oldest ts
    assume full: "?L = oldest # ts" "int (length ?L) = n" and ms: "ms = oldest + w - now"
    show ?thesis
    proof (cases "t - w < oldest")
      case True
      with L(1) full ms show ?thesis unfolding granted using live_later_full [of oldest ts t w] by simp
    next
      case False
      then have "filter (\<lambda>x. t - w < x) ?L = filter (\<lambda>x. t - w < x) ts" by (simp add: full)
      moreover have "length (filter (\<lambda>x. t - w < x) ts) < length ?L"
        using length_filter_le [of "\<lambda>x. t - w < x" ts] by (simp add: full less_Suc_eq_le)
      ultimately have "int (length (filter (\<lambda>x. t - w < x) ?L)) < n" using full(2) by (simp flip: full(2))
      with False ms show ?thesis unfolding granted by simp
    qed
  qed
qed

subsection \<open>Properties\<close>

text \<open>C27: The limiter keeps its budget: over any run of calls on a clock that does not go back, no
  window of \<open>windowMs\<close> milliseconds holds more than \<open>maxTokens\<close> granted calls of one key.\<close>

theorem tryConsume_within_budget:
  assumes "newRateLimiter tokens window = Inr r"
    and "runs limiter_step (fresh_run r start) calls s"
  shows "int (length (filter (\<lambda>t. a < t \<and> t \<le> a + window) (lr_granted s key))) \<le> tokens"
  using limiter_runs_ok [OF assms] by (simp add: run_ok_def key_ok_def in_window_def)

text \<open>\<open>getRemainingMs\<close> is exact: a call made later, at any instant on the same clock, is granted
  if and only if the announced number of milliseconds has passed.\<close>

theorem getRemainingMs_exact:
  assumes "newRateLimiter tokens window = Inr r"
    and "runs limiter_step (fresh_run r start) calls s"
    and "lr_clock s \<le> now" and "now \<le> t"
    and "getRemainingMs (lr_limiter s) key now = (r', ms)"
  shows "0 \<le> ms \<and> (snd (tryConsume r' key t) \<longleftrightarrow> now + ms \<le> t)"
  using remaining_exact [OF limiter_runs_ok [OF assms(1,2)] assms(3-5)] by blast

text \<open>Two calls on the presence limiter, the second inside the window of the first.\<close>

definition sample_limiter :: limiter where
  "sample_limiter = \<lparr>maxTokens = 1, windowMs = 10000, rl_state = []\<rparr>"

definition sample_after :: limiter where
  "sample_after = sample_limiter\<lparr>rl_state := [(DEFAULT_KEY, [5])]\<rparr>"

lemma sample_new: "newRateLimiter 1 10000 = Inr sample_limiter"
  by (simp add: newRateLimiter_def sample_limiter_def)

lemma sample_calls:
  "tryConsume sample_limiter DEFAULT_KEY 5 = (sample_after, True)"
  "tryConsume sample_after DEFAULT_KEY 8 = (sample_after, False)"
  "getRemainingMs sample_after DEFAULT_KEY 8 = (sample_after, 9997)"
  by code_simp+

lemma sample_run:
  "runs limiter_step (fresh_run sample_limiter 0) [Consume DEFAULT_KEY 5, Consume DEFAULT_KEY 8]
     \<lparr>lr_limiter = sample_after, lr_clock = 8, lr_granted = (\<lambda>_. [])(DEFAULT_KEY := [5])\<rparr>"
proof -
  let ?one = "\<lparr>lr_limiter = sample_after, lr_clock = 5, lr_granted = (\<lambda>_. [])(DEFAULT_KEY := [5])\<rparr>"
  have "limiter_step (fresh_run sample_limiter 0) (Consume DEFAULT_KEY 5) ?one"
    using consume_granted [of "fresh_run sample_limiter 0" 5 DEFAULT_KEY sample_after] sample_calls(1)
    by (simp add: fresh_run_def)
  moreover have "limiter_step ?one (Consume DEFAULT_KEY 8) (?one\<lparr>lr_clock := 8\<rparr>)"
    using consume_refused [of ?one 8 DEFAULT_KEY sample_after] sample_calls(2) by simp
  ultimately show ?thesis by (simp add: runs_Cons [OF _ runs_Cons [OF _ runs_Nil]])
qed

theorem tryConsume_within_budget_witness:
  "\<exists>s. runs limiter_step (fresh_run sample_limiter 0) [Consume DEFAULT_KEY 5, Consume DEFAULT_KEY 8] s \<and>
     lr_granted s DEFAULT_KEY = [5] \<and>
     int (length (filter (\<lambda>t. 4 < t \<and> t \<le> 4 + 10000) (lr_granted s DEFAULT_KEY))) \<le> 1"
  using sample_run tryConsume_within_budget [OF sample_new sample_run, of 4 DEFAULT_KEY] by fastforce

theorem getRemainingMs_exact_witness:
  "getRemainingMs sample_after DEFAULT_KEY 8 = (sample_after, 9997) \<and>
   snd (tryConsume sample_after DEFAULT_KEY 10005) \<and> \<not> snd (tryConsume sample_after DEFAULT_KEY 10004)"
  using getRemainingMs_exact [OF sample_new sample_run, of 8 10005 DEFAULT_KEY sample_after 9997]
    getRemainingMs_exact [OF sample_new sample_run, of 8 10004 DEFAULT_KEY sample_after 9997] sample_calls(3)
  by simp

end
