(* ===== verification/Store.thy ===== *)
theory Store
  imports Prelude
begin

text \<open>
  \<open>lib/store.ts\<close>: the reactive store under every other store of the client. \<open>createStore\<close> closes over
  its variables; here they are the fields of a record, together with the call stack (a running
  listener, a running notification, the drain loop of the microtask) and the microtasks the store has
  queued. What a listener or a caller does is an arbitrary list of calls into the store, so the
  lemmas hold for every listener. A listener that throws is one whose calls end there.

  An updater that throws is \<open>None\<close>. Two ghost fields record the state each listener was last called
  with (or subscribed at) and the updaters handed to \<open>setState\<close>, in call order.

  The lemmas show that no subscriber is left behind, that updates take effect in call order, also
  those made by listeners, what a throwing updater loses, and when \<open>shallowEqual\<close> decides equality.
\<close>

subsection \<open>Shallow equality\<close>

text \<open>References are values of \<open>'r\<close>; \<open>None\<close> is \<open>undefined\<close>. Each composite carries its identity.
  Strings, numbers other than NaN, and the other
  non-objects are atoms.\<close>

datatype 'r js_value =
    Atom "'r option"
  | MapOf 'r "('r option, 'r option) jmap"
  | SetOf 'r "'r option jset"
  | ArrayOf 'r "'r option list"
  | ObjectOf 'r "(string, 'r option) jmap"

fun identity :: "'r js_value \<Rightarrow> 'r option" where
  "identity (Atom r) = r"
| "identity (MapOf r _) = Some r"
| "identity (SetOf r _) = Some r"
| "identity (ArrayOf r _) = Some r"
| "identity (ObjectOf r _) = Some r"

fun is_atom :: "'r js_value \<Rightarrow> bool" where
  "is_atom (Atom r) = True"
| "is_atom _ = False"

text \<open>\<open>Object.keys\<close> and \<open>o[key]\<close>; a map and a set have no own keys, an array its indices.\<close>

fun own_props :: "'r js_value \<Rightarrow> (string, 'r option) jmap" where
  "own_props (ArrayOf _ xs) = zip (map show_nat [0..<length xs]) xs"
| "own_props (ObjectOf _ m) = m"
| "own_props _ = []"

definition getProp :: "'r js_value \<Rightarrow> string \<Rightarrow> 'r option" where
  "getProp v key = nullish (jm_get (own_props v) key) None"

definition sameProps :: "'r js_value \<Rightarrow> 'r js_value \<Rightarrow> bool" where
  "sameProps a b = (
     let keysA = jm_keys (own_props a); keysB = jm_keys (own_props b)
     in if length keysA \<noteq> length keysB then False
        else list_all (\<lambda>key. getProp a key = getProp b key) keysA)"

definition shallowEqual :: "'r js_value \<Rightarrow> 'r js_value \<Rightarrow> bool" where
  "shallowEqual a b = (
     if identity a = identity b then True
     else if is_atom a \<or> is_atom b then False
     else case (a, b) of
       (MapOf _ m, MapOf _ m') \<Rightarrow> length m = length m' \<and>
         list_all (\<lambda>(key, val). jm_get m' key = Some val) m
     | (SetOf _ s, SetOf _ s') \<Rightarrow> length s = length s' \<and> list_all (js_has s') s
     | (ArrayOf _ xs, ArrayOf _ ys) \<Rightarrow> length xs = length ys \<and> list_all (\<lambda>i. xs ! i = ys ! i) [0..<length xs]
     | _ \<Rightarrow> sameProps a b)"

subsection \<open>The store\<close>

type_synonym 's updater = "'s \<Rightarrow> 's option"

datatype ('s, 'l) call = SetState "'s updater" | Subscribe 'l | Unsubscribe 'l | Flush

datatype ('s, 'l) frame = Notify "'l list" | Run "('s, 'l) call list" | Drain

record ('s, 'l) store =
  st_state :: 's
  st_listeners :: "'l jset"
  notifyScheduled :: bool
  updating :: bool
  pendingUpdater :: "'s updater option"
  st_queued :: nat
  st_stack :: "('s, 'l) frame list"
  st_seen :: "'l \<Rightarrow> 's option"
  st_calls :: "'s updater list"

definition createStore :: "'s \<Rightarrow> ('s, 'l) store" where
  "createStore initialState = \<lparr>st_state = initialState, st_listeners = [], notifyScheduled = False,
     updating = False, pendingUpdater = None, st_queued = 0, st_stack = [], st_seen = (\<lambda>_. None),
     st_calls = []\<rparr>"

definition compose :: "'s updater option \<Rightarrow> 's updater \<Rightarrow> 's updater" where
  "compose existing u = (case existing of None \<Rightarrow> u | Some f \<Rightarrow> (\<lambda>prev. Option.bind (f prev) u))"

text \<open>\<open>setState\<close>; the second component tells whether the updater threw.\<close>

definition setState :: "('s, 'l) store \<Rightarrow> 's updater \<Rightarrow> ('s, 'l) store \<times> bool" where
  "setState s u = (
     if updating s then
       (s\<lparr>pendingUpdater := Some (compose (pendingUpdater s) u), st_calls := st_calls s @ [u]\<rparr>, False)
     else case u (st_state s) of
       None \<Rightarrow> (s, True)
     | Some x \<Rightarrow>
         (let s' = s\<lparr>st_state := x, st_calls := st_calls s @ [u]\<rparr>
          in if \<not> notifyScheduled s' then
               (s'\<lparr>notifyScheduled := True, st_queued := Suc (st_queued s')\<rparr>, False)
             else (s', False)))"

text \<open>The listener set is iterated live: a listener added meanwhile is visited, a removed one is not.\<close>

definition addTodo :: "'l \<Rightarrow> ('s, 'l) frame \<Rightarrow> ('s, 'l) frame" where
  "addTodo l fr = (case fr of Notify todo \<Rightarrow> Notify (todo @ [l]) | _ \<Rightarrow> fr)"

definition removeTodo :: "'l \<Rightarrow> ('s, 'l) frame \<Rightarrow> ('s, 'l) frame" where
  "removeTodo l fr = (case fr of Notify todo \<Rightarrow> Notify (filter (\<lambda>x. x \<noteq> l) todo) | _ \<Rightarrow> fr)"

definition subscribe :: "('s, 'l) store \<Rightarrow> 'l \<Rightarrow> ('s, 'l) store" where
  "subscribe s l = (
     if js_has (st_listeners s) l then s
     else s\<lparr>st_listeners := js_add (st_listeners s) l, st_stack := map (addTodo l) (st_stack s),
            st_seen := (st_seen s)(l := Some (st_state s))\<rparr>)"

definition unsubscribe :: "('s, 'l) store \<Rightarrow> 'l \<Rightarrow> ('s, 'l) store" where
  "unsubscribe s l = s\<lparr>st_listeners := js_delete (st_listeners s) l,
     st_stack := map (removeTodo l) (st_stack s)\<rparr>"

definition flush :: "('s, 'l) store \<Rightarrow> ('s, 'l) store" where
  "flush s = (if notifyScheduled s
     then s\<lparr>notifyScheduled := False, st_stack := Notify (st_listeners s) # st_stack s\<rparr> else s)"

text \<open>One call, made by the code whose remaining calls are \<open>es\<close>; a throw ends that code.\<close>

fun perform :: "('s, 'l) store \<Rightarrow> ('s, 'l) call \<Rightarrow> ('s, 'l) call list \<Rightarrow> ('s, 'l) frame list \<Rightarrow> ('s, 'l) store" where
  "perform s (SetState u) es rest = (case setState s u of
     (s', threw) \<Rightarrow> s'\<lparr>st_stack := (if threw then rest else Run es # rest)\<rparr>)"
| "perform s (Subscribe l) es rest = subscribe (s\<lparr>st_stack := Run es # rest\<rparr>) l"
| "perform s (Unsubscribe l) es rest = unsubscribe (s\<lparr>st_stack := Run es # rest\<rparr>) l"
| "perform s Flush es rest = flush (s\<lparr>st_stack := Run es # rest\<rparr>)"

text \<open>One turn of the microtask's \<open>while\<close> loop; a throwing updater leaves through \<open>finally\<close>.\<close>

definition drain :: "('s, 'l) store \<Rightarrow> ('s, 'l) frame list \<Rightarrow> ('s, 'l) store" where
  "drain s rest = (case pendingUpdater s of
     None \<Rightarrow> s\<lparr>updating := False, st_stack := rest\<rparr>
   | Some queued \<Rightarrow>
       (let s' = s\<lparr>pendingUpdater := None\<rparr>
        in case queued (st_state s') of
             None \<Rightarrow> s'\<lparr>updating := False, st_stack := rest\<rparr>
           | Some x \<Rightarrow> s'\<lparr>st_state := x, st_stack := Notify (st_listeners s') # Drain # rest\<rparr>))"

datatype ('s, 'l) store_event =
    Call "('s, 'l) call list"
  | Microtask
  | Visit "('s, 'l) call list"
  | Continue

inductive store_step :: "('s, 'l) store \<Rightarrow> ('s, 'l) store_event \<Rightarrow> ('s, 'l) store \<Rightarrow> bool" where
  call: "st_stack s = [] \<Longrightarrow> store_step s (Call es) (s\<lparr>st_stack := [Run es]\<rparr>)"
| microtask: "st_stack s = [] \<Longrightarrow> st_queued s = Suc n \<Longrightarrow>
    store_step s Microtask (s\<lparr>st_queued := n, notifyScheduled := False, updating := True,
      st_stack := [Notify (st_listeners s), Drain]\<rparr>)"
| visit: "st_stack s = Notify (l # todo) # rest \<Longrightarrow>
    store_step s (Visit es) (s\<lparr>st_stack := Run es # Notify todo # rest,
      st_seen := (st_seen s)(l := Some (st_state s))\<rparr>)"
| visited: "st_stack s = Notify [] # rest \<Longrightarrow> store_step s Continue (s\<lparr>st_stack := rest\<rparr>)"
| perform: "st_stack s = Run (e # es) # rest \<Longrightarrow> store_step s Continue (perform s e es rest)"
| return: "st_stack s = Run [] # rest \<Longrightarrow> store_step s Continue (s\<lparr>st_stack := rest\<rparr>)"
| drain: "st_stack s = Drain # rest \<Longrightarrow> store_step s Continue (drain s rest)"

subsection \<open>Selectors\<close>

text \<open>The listener that \<open>subscribeSelector\<close> wraps around the caller's: the slice it last passed on, and
  what it passes on now.\<close>

definition selectorListener ::
  "('s \<Rightarrow> 'v) \<Rightarrow> ('v \<Rightarrow> 'v \<Rightarrow> bool) \<Rightarrow> 'v \<Rightarrow> 's \<Rightarrow> 'v \<times> 'v option" where
  "selectorListener selector isEqual prev newState = (
     let next = selector newState
     in if \<not> isEqual prev next then (next, Some next) else (prev, None))"

definition select :: "('s, 'l) store \<Rightarrow> ('s \<Rightarrow> 'v) \<Rightarrow> 'v" where
  "select s selector = selector (st_state s)"

subsection \<open>Invariants of the store\<close>

inductive_cases store_stepE: "store_step s ev s'"

definition total :: "'s updater \<Rightarrow> bool" where
  "total u \<longleftrightarrow> (\<forall>x. u x \<noteq> None)"

definition run_calls :: "'s \<Rightarrow> 's updater list \<Rightarrow> 's option" where
  "run_calls x us = fold (\<lambda>u r. Option.bind r u) us (Some x)"

text \<open>The state with the coalesced re-entrant updates applied.\<close>

definition settled :: "('s, 'l) store \<Rightarrow> 's option" where
  "settled s = (case pendingUpdater s of None \<Rightarrow> Some (st_state s) | Some u \<Rightarrow> u (st_state s))"

definition to_visit :: "('s, 'l) frame list \<Rightarrow> 'l \<Rightarrow> bool" where
  "to_visit stk l \<longleftrightarrow> (\<exists>todo. Notify todo \<in> set stk \<and> l \<in> set todo)"

definition stack_ok :: "('s, 'l) store \<Rightarrow> bool" where
  "stack_ok s \<longleftrightarrow> (\<forall>fr \<in> set (butlast (st_stack s)). fr \<noteq> Drain) \<and>
     (updating s \<longleftrightarrow> st_stack s \<noteq> [] \<and> last (st_stack s) = Drain) \<and>
     (pendingUpdater s \<noteq> None \<longrightarrow> updating s) \<and> (notifyScheduled s \<longrightarrow> 0 < st_queued s)"

definition seen_ok :: "('s, 'l) store \<Rightarrow> bool" where
  "seen_ok s \<longleftrightarrow> (\<forall>l \<in> set (st_listeners s).
     st_seen s l = Some (st_state s) \<or> notifyScheduled s \<or> to_visit (st_stack s) l)"

definition calls_ok :: "'s \<Rightarrow> ('s, 'l) store \<Rightarrow> bool" where
  "calls_ok x s \<longleftrightarrow> (list_all total (st_calls s) \<longrightarrow> run_calls x (st_calls s) = settled s)"

lemma to_visit_simps [simp]:
  "\<not> to_visit [] l"
  "to_visit (Notify todo # stk) l \<longleftrightarrow> l \<in> set todo \<or> to_visit stk l"
  "to_visit (Run es # stk) l = to_visit stk l"
  "to_visit (Drain # stk) l = to_visit stk l"
  by (auto simp: to_visit_def)

lemma to_visit_addTodo: "to_visit stk l \<Longrightarrow> to_visit (map (addTodo k) stk) l"
  by (induction stk) (auto simp: addTodo_def split: frame.split)

lemma to_visit_removeTodo: "l \<noteq> k \<Longrightarrow> to_visit (map (removeTodo k) stk) l = to_visit stk l"
  by (induction stk) (auto simp: removeTodo_def split: frame.split)

lemma run_calls_total: "list_all total us \<Longrightarrow> \<exists>y. run_calls x us = Some y"
proof (induction us arbitrary: x)
  case (Cons u us)
  then obtain y where "u x = Some y" by (auto simp: total_def)
  with Cons show ?case by (simp add: run_calls_def)
qed (simp add: run_calls_def)

lemma run_calls_snoc [simp]: "run_calls x (us @ [u]) = Option.bind (run_calls x us) u"
  by (simp add: run_calls_def)

lemma addTodo_Drain [simp]: "addTodo l fr = Drain \<longleftrightarrow> fr = Drain"
  by (cases fr) (simp_all add: addTodo_def)

lemma removeTodo_Drain [simp]: "removeTodo l fr = Drain \<longleftrightarrow> fr = Drain"
  by (cases fr) (simp_all add: removeTodo_def)

lemma setState_cases:
  obtains (reentrant) "updating s" "setState s u =
      (s\<lparr>pendingUpdater := Some (compose (pendingUpdater s) u), st_calls := st_calls s @ [u]\<rparr>, False)"
  | (threw) "\<not> updating s" "u (st_state s) = None" "setState s u = (s, True)"
  | (applied) x where "\<not> updating s" "u (st_state s) = Some x" "notifyScheduled s"
      "setState s u = (s\<lparr>st_state := x, st_calls := st_calls s @ [u]\<rparr>, False)"
  | (scheduled) x where "\<not> updating s" "u (st_state s) = Some x" "\<not> notifyScheduled s"
      "setState s u = (s\<lparr>st_state := x, st_calls := st_calls s @ [u], notifyScheduled := True,
        st_queued := Suc (st_queued s)\<rparr>, False)"
  by (cases "updating s"; cases "u (st_state s)"; cases "notifyScheduled s")
    (simp_all add: setState_def)

lemma perform_stack_ok:
  assumes "stack_ok s" and "st_stack s = Run (e # es) # rest"
  shows "stack_ok (perform s e es rest)"
proof (cases e)
  case (SetState u)
  show ?thesis
    by (rule setState_cases [of s u]) (use assms SetState in \<open>auto simp: stack_ok_def split: if_splits\<close>)
qed (use assms in \<open>auto simp: stack_ok_def subscribe_def unsubscribe_def flush_def last_map map_butlast [symmetric] split: if_splits\<close>)

lemma perform_seen_ok:
  assumes "seen_ok s" and "st_stack s = Run (e # es) # rest"
  shows "seen_ok (perform s e es rest)"
proof (cases e)
  case (SetState u)
  show ?thesis
    by (rule setState_cases [of s u]) (use assms SetState in \<open>auto simp: seen_ok_def\<close>)
next
  case (Subscribe l)
  with assms show ?thesis
    by (auto simp: seen_ok_def subscribe_def js_add_def js_has_def addTodo_def to_visit_addTodo split: frame.split)
next
  case (Unsubscribe l)
  with assms show ?thesis
    by (auto simp: seen_ok_def unsubscribe_def js_delete_def removeTodo_def to_visit_removeTodo split: frame.split)
qed (use assms in \<open>auto simp: seen_ok_def flush_def\<close>)

lemma perform_calls_ok:
  assumes "stack_ok s" and "calls_ok x s"
  shows "calls_ok x (perform s e es rest)"
proof (cases e)
  case (SetState u)
  show ?thesis
    by (rule setState_cases [of s u])
      (use assms SetState in \<open>auto simp: stack_ok_def calls_ok_def settled_def compose_def split: option.splits\<close>)
qed (use assms in \<open>auto simp: calls_ok_def settled_def subscribe_def unsubscribe_def flush_def
      split: option.split\<close>)

lemma drain_ok:
  assumes "stack_ok s" and "st_stack s = Drain # rest"
  shows "stack_ok (drain s rest)" and "seen_ok s \<Longrightarrow> seen_ok (drain s rest)"
    and "calls_ok x s \<Longrightarrow> calls_ok x (drain s rest)"
proof -
  have [simp]: "rest = []" using assms by (cases rest) (auto simp: stack_ok_def)
  show "stack_ok (drain s rest)" "seen_ok s \<Longrightarrow> seen_ok (drain s rest)"
    using assms by (auto simp: stack_ok_def seen_ok_def drain_def Let_def split: option.split)
  assume ok: "calls_ok x s"
  then show "calls_ok x (drain s rest)"
    using run_calls_total [of "st_calls s" x]
    by (auto simp: calls_ok_def settled_def drain_def Let_def split: option.splits)
qed

lemma store_step_ok:
  assumes "store_step s ev s'" and "stack_ok s \<and> seen_ok s \<and> calls_ok x s"
  shows "stack_ok s' \<and> seen_ok s' \<and> calls_ok x s'"
  using assms
proof (induction rule: store_step.induct)
  case (perform s e es rest)
  then show ?case by (simp add: perform_stack_ok perform_seen_ok perform_calls_ok)
next
  case (drain s rest)
  then show ?case by (simp add: drain_ok)
qed (auto simp: stack_ok_def seen_ok_def calls_ok_def settled_def split: option.splits if_splits)

lemma createStore_ok: "stack_ok (createStore x) \<and> seen_ok (createStore x) \<and> calls_ok x (createStore x)"
  by (simp add: createStore_def stack_ok_def seen_ok_def calls_ok_def settled_def run_calls_def)

interpretation sto: invariant_system store_step "createStore x" "\<lambda>s. stack_ok s \<and> seen_ok s \<and> calls_ok x s"
  for x
  by unfold_locales (rule createStore_ok, rule store_step_ok)

subsection \<open>Equality of contents\<close>

fun same_kind :: "'r js_value \<Rightarrow> 'r js_value \<Rightarrow> bool" where
  "same_kind (Atom _) (Atom _) = True"
| "same_kind (MapOf _ _) (MapOf _ _) = True"
| "same_kind (SetOf _ _) (SetOf _ _) = True"
| "same_kind (ArrayOf _ _) (ArrayOf _ _) = True"
| "same_kind (ObjectOf _ _) (ObjectOf _ _) = True"
| "same_kind _ _ = False"

fun value_ok :: "'r js_value \<Rightarrow> bool" where
  "value_ok (MapOf _ m) = jm_wf m"
| "value_ok (SetOf _ s) = distinct s"
| "value_ok (ObjectOf _ m) = (jm_wf m \<and> list_all (\<lambda>v. v \<noteq> None) (jm_values m))"
| "value_ok _ = True"

fun same_content :: "'r js_value \<Rightarrow> 'r js_value \<Rightarrow> bool" where
  "same_content (Atom r) (Atom r') \<longleftrightarrow> r = r'"
| "same_content (MapOf _ m) (MapOf _ m') \<longleftrightarrow> jm_get m = jm_get m'"
| "same_content (SetOf _ s) (SetOf _ s') \<longleftrightarrow> set s = set s'"
| "same_content (ArrayOf _ xs) (ArrayOf _ ys) \<longleftrightarrow> xs = ys"
| "same_content (ObjectOf _ m) (ObjectOf _ m') \<longleftrightarrow> jm_get m = jm_get m'"
| "same_content _ _ \<longleftrightarrow> False"

lemma jm_wf_distinct: "jm_wf m \<Longrightarrow> distinct m"
  by (simp add: jm_wf_def distinct_map)

lemma jm_get_eq_iff_set:
  assumes "jm_wf m" and "jm_wf m'"
  shows "jm_get m = jm_get m' \<longleftrightarrow> set m = set m'"
proof
  assume eq: "jm_get m = jm_get m'"
  then show "set m = set m'"
    by (metis assms jm_get_SomeD jm_get_mem subrelI subset_antisym)
next
  assume "set m = set m'"
  then have "jm_get m k = Some v \<longleftrightarrow> jm_get m' k = Some v" for k v
    by (metis assms jm_get_SomeD jm_get_mem)
  then show "jm_get m = jm_get m'" by (intro ext option.expand) (metis not_None_eq option.sel)+
qed

lemma distinct_subset_eq:
  "distinct xs \<Longrightarrow> distinct ys \<Longrightarrow> length xs = length ys \<Longrightarrow> set xs \<subseteq> set ys \<Longrightarrow> set xs = set ys"
  by (metis List.finite_set card_subset_eq distinct_card)

lemma same_map_iff:
  assumes "jm_wf m" and "jm_wf m'"
  shows "length m = length m' \<and> list_all (\<lambda>(k, v). jm_get m' k = Some v) m \<longleftrightarrow> jm_get m = jm_get m'"
proof
  assume l: "length m = length m' \<and> list_all (\<lambda>(k, v). jm_get m' k = Some v) m"
  then have "set m \<subseteq> set m'" by (auto simp: list_all_iff dest: jm_get_SomeD)
  with l assms have "set m = set m'" by (intro distinct_subset_eq jm_wf_distinct) auto
  with assms show "jm_get m = jm_get m'" by (simp add: jm_get_eq_iff_set)
next
  assume eq: "jm_get m = jm_get m'"
  then have "set m = set m'" using assms by (simp add: jm_get_eq_iff_set)
  moreover from this have "length m = length m'" using assms by (metis distinct_card jm_wf_distinct)
  ultimately show "length m = length m' \<and> list_all (\<lambda>(k, v). jm_get m' k = Some v) m"
    using assms by (auto simp: list_all_iff intro: jm_get_mem)
qed

lemma sameProps_iff:
  assumes "jm_wf m" and "jm_wf m'" and "list_all (\<lambda>v. v \<noteq> None) (jm_values m)"
  shows "sameProps (ObjectOf r m) (ObjectOf r' m') \<longleftrightarrow> jm_get m = jm_get m'"
proof -
  have "(getProp (ObjectOf r m) k = getProp (ObjectOf r' m') k) = (jm_get m' k = Some v)"
    if "(k, v) \<in> set m" for k v
    using that assms jm_get_mem [OF assms(1) that]
    by (force simp: getProp_def list_all_iff jm_values_def nullish_def split: option.splits)
  then have "list_all (\<lambda>key. getProp (ObjectOf r m) key = getProp (ObjectOf r' m') key) (jm_keys m) =
      list_all (\<lambda>(k, v). jm_get m' k = Some v) m"
    by (force simp: list_all_iff jm_keys_def)
  then show ?thesis
    using same_map_iff [OF assms(1,2)] by (auto simp: sameProps_def Let_def jm_keys_def)
qed

lemma nth_equal_iff: "length xs = length ys \<and> list_all (\<lambda>i. xs ! i = ys ! i) [0..<length xs] \<longleftrightarrow> xs = ys"
  by (auto simp: list_all_iff intro: nth_equalityI)

lemma same_set_iff:
  assumes "distinct s" and "distinct s'"
  shows "length s = length s' \<and> list_all (js_has s') s \<longleftrightarrow> set s = set s'"
proof
  assume "length s = length s' \<and> list_all (js_has s') s"
  with assms show "set s = set s'" by (intro distinct_subset_eq) (auto simp: list_all_iff js_has_set)
next
  assume "set s = set s'"
  moreover from this assms have "length s = length s'" by (metis distinct_card)
  ultimately show "length s = length s' \<and> list_all (js_has s') s" by (auto simp: list_all_iff js_has_set)
qed

subsection \<open>A listener that makes one update during a notification\<close>

definition visit_update ::
  "('s, 'l) store \<Rightarrow> 'l list \<Rightarrow> ('s, 'l) frame list \<Rightarrow> 'l \<Rightarrow> 's updater \<Rightarrow> ('s, 'l) store" where
  "visit_update s todo rest l u = s\<lparr>st_stack := Notify todo # rest,
     st_seen := (st_seen s)(l := Some (st_state s)),
     pendingUpdater := Some (compose (pendingUpdater s) u), st_calls := st_calls s @ [u]\<rparr>"

lemma runs_visit_update:
  assumes "st_stack s = Notify (l # todo) # rest" and "updating s"
  shows "runs store_step s [Visit [SetState u], Continue, Continue] (visit_update s todo rest l u)"
proof -
  let ?a = "s\<lparr>st_stack := Run [SetState u] # Notify todo # rest, st_seen := (st_seen s)(l := Some (st_state s))\<rparr>"
  let ?b = "(visit_update s todo rest l u)\<lparr>st_stack := Run [] # Notify todo # rest\<rparr>"
  have "store_step s (Visit [SetState u]) ?a" by (rule visit) (rule assms(1))
  moreover have "store_step ?a Continue (perform ?a (SetState u) [] (Notify todo # rest))"
    by (rule store_step.perform) simp
  moreover have "perform ?a (SetState u) [] (Notify todo # rest) = ?b"
    using assms by (simp add: setState_def visit_update_def)
  moreover have "store_step ?b Continue (?b\<lparr>st_stack := Notify todo # rest\<rparr>)" by (rule return) simp
  moreover have "?b\<lparr>st_stack := Notify todo # rest\<rparr> = visit_update s todo rest l u" by (simp add: visit_update_def)
  ultimately show ?thesis by (metis runs_Cons runs_Nil)
qed

subsection \<open>Running the store\<close>

definition store_next :: "('s, 'l) store \<Rightarrow> ('s, 'l) store_event \<Rightarrow> ('s, 'l) store option" where
  "store_next s ev = (case ev of
     Call es \<Rightarrow> if st_stack s = [] then Some (s\<lparr>st_stack := [Run es]\<rparr>) else None
   | Microtask \<Rightarrow> (case st_stack s of
       [] \<Rightarrow> (case st_queued s of 0 \<Rightarrow> None
         | Suc n \<Rightarrow> Some (s\<lparr>st_queued := n, notifyScheduled := False, updating := True,
             st_stack := [Notify (st_listeners s), Drain]\<rparr>))
     | _ \<Rightarrow> None)
   | Visit es \<Rightarrow> (case st_stack s of
       Notify (l # todo) # rest \<Rightarrow> Some (s\<lparr>st_stack := Run es # Notify todo # rest,
         st_seen := (st_seen s)(l := Some (st_state s))\<rparr>)
     | _ \<Rightarrow> None)
   | Continue \<Rightarrow> (case st_stack s of
       Notify [] # rest \<Rightarrow> Some (s\<lparr>st_stack := rest\<rparr>)
     | Run (e # es) # rest \<Rightarrow> Some (perform s e es rest)
     | Run [] # rest \<Rightarrow> Some (s\<lparr>st_stack := rest\<rparr>)
     | Drain # rest \<Rightarrow> Some (drain s rest)
     | _ \<Rightarrow> None))"

lemma store_next_step: "store_next s ev = Some s' \<Longrightarrow> store_step s ev s'"
  by (auto simp: store_next_def split: store_event.splits list.splits frame.splits nat.splits if_splits
      intro: store_step.intros)

fun store_exec :: "('s, 'l) store \<Rightarrow> ('s, 'l) store_event list \<Rightarrow> ('s, 'l) store option" where
  "store_exec s [] = Some s"
| "store_exec s (ev # evs) = Option.bind (store_next s ev) (\<lambda>t. store_exec t evs)"

lemma store_exec_runs: "store_exec s evs = Some s' \<Longrightarrow> runs store_step s evs s'"
  by (induction evs arbitrary: s) (auto simp: bind_eq_Some_conv intro: runs_Cons runs_Nil store_next_step)

text \<open>A caller subscribes a listener and adds one; the listener doubles the state when it is notified.\<close>

definition sample_events :: "(nat, nat) store_event list" where
  "sample_events = [Call [Subscribe 7, SetState (\<lambda>n. Some (n + 1))], Continue, Continue, Continue, Microtask,
     Visit [SetState (\<lambda>n. Some (2 * n))], Continue, Continue, Continue, Continue, Visit [], Continue, Continue, Continue]"

definition sample_store :: "(nat, nat) store" where
  "sample_store = (case store_exec (createStore 4) sample_events of Some s \<Rightarrow> s)"

lemmas sample_eval = sample_events_def store_next_def createStore_def subscribe_def setState_def drain_def
  compose_def js_add_def js_has_def addTodo_def

lemma sample_exec: "store_exec (createStore 4) sample_events = Some sample_store"
  unfolding sample_store_def by (simp add: sample_eval)

lemma sample_facts:
  "st_stack sample_store = []" "\<not> notifyScheduled sample_store" "st_state sample_store = 10"
  "st_listeners sample_store = [7]" "st_calls sample_store = [\<lambda>n. Some (n + 1), \<lambda>n. Some (2 * n)]"
  unfolding sample_store_def by (simp_all add: sample_eval)

subsection \<open>Properties\<close>

text \<open>C5: No subscriber is left behind. Whatever listeners and callers do, whenever the store is at rest
  with no notification due, every listener was last called with the current state and no update
  waits; and a notification that is due has its microtask queued.\<close>

theorem store_no_stale_subscriber:
  assumes "runs store_step (createStore x) evs s"
  shows "(notifyScheduled s \<longrightarrow> 0 < st_queued s) \<and>
    (st_stack s = [] \<longrightarrow> \<not> updating s \<and> pendingUpdater s = None) \<and>
    (st_stack s = [] \<longrightarrow> \<not> notifyScheduled s \<longrightarrow>
       (\<forall>l \<in> set (st_listeners s). st_seen s l = Some (st_state s)))"
  using sto.reachable_inv [OF assms] by (auto simp: stack_ok_def seen_ok_def)

theorem store_no_stale_subscriber_witness:
  "runs store_step (createStore 4) sample_events sample_store \<and> st_state sample_store = 10 \<and>
   st_seen sample_store 7 = Some 10"
  using store_no_stale_subscriber [OF store_exec_runs [OF sample_exec]] store_exec_runs [OF sample_exec]
    sample_facts by simp

text \<open>Updates are serial: while no updater throws, the state of a store at rest is the initial state
  with every updater handed to \<open>setState\<close> applied in call order, those that listeners made during a
  notification included.\<close>

theorem setState_serial:
  assumes "runs store_step (createStore x) evs s"
    and "list_all total (st_calls s)" and "st_stack s = []"
  shows "run_calls x (st_calls s) = Some (st_state s)"
  using sto.reachable_inv [OF assms(1)] assms(2,3)
  by (auto simp: stack_ok_def calls_ok_def settled_def)

theorem setState_serial_witness:
  "st_calls sample_store = [\<lambda>n. Some (n + 1), \<lambda>n. Some (2 * n)] \<and>
   run_calls 4 (st_calls sample_store) = Some (st_state sample_store)"
  using setState_serial [OF store_exec_runs [OF sample_exec]] sample_facts by (simp add: total_def)

text \<open>One throwing updater drops a whole batch: when during a notification one listener makes an
  update and a later one makes an update that throws on its result, the microtask ends with the
  state as it was, the first listener's update gone with the second.\<close>

theorem throwing_updater_drops_batch:
  assumes "st_stack s = [Notify [k, l], Drain]" and "updating s" and "pendingUpdater s = None"
    and "good (st_state s) = Some y" and "bad y = None"
  shows "\<exists>s'. runs store_step s [Visit [SetState good], Continue, Continue, Visit [SetState bad], Continue,
      Continue, Continue, Continue] s' \<and> st_stack s' = [] \<and> pendingUpdater s' = None \<and> st_state s' = st_state s"
proof -
  let ?t = "visit_update s [l] [Drain] k good"
  let ?u = "visit_update ?t [] [Drain] l bad"
  have t: "runs store_step s [Visit [SetState good], Continue, Continue] ?t"
    by (rule runs_visit_update) (use assms in simp_all)
  have u: "runs store_step ?t [Visit [SetState bad], Continue, Continue] ?u"
    by (rule runs_visit_update) (use assms(2) in \<open>simp_all add: visit_update_def\<close>)
  have "store_step ?u Continue (?u\<lparr>st_stack := [Drain]\<rparr>)" by (rule visited) (simp add: visit_update_def)
  moreover have "store_step (?u\<lparr>st_stack := [Drain]\<rparr>) Continue (drain (?u\<lparr>st_stack := [Drain]\<rparr>) [])"
    by (rule store_step.drain) simp
  ultimately have "runs store_step ?u [Continue, Continue] (drain (?u\<lparr>st_stack := [Drain]\<rparr>) [])"
    by (metis runs_Cons runs_Nil)
  from runs_append [OF t runs_append [OF u this]] show ?thesis
    by (intro exI [of _ "drain (?u\<lparr>st_stack := [Drain]\<rparr>) []"])
      (use assms in \<open>simp add: drain_def visit_update_def compose_def\<close>)
qed

theorem throwing_updater_drops_batch_witness:
  "let s = (createStore (4::nat))\<lparr>st_listeners := [1, 2::nat], updating := True, st_stack := [Notify [1, 2], Drain]\<rparr>
   in \<exists>s'. runs store_step s [Visit [SetState (\<lambda>n. Some (n + 1))], Continue, Continue,
        Visit [SetState (\<lambda>n. if n = 5 then None else Some n)], Continue, Continue, Continue, Continue] s' \<and>
      st_stack s' = [] \<and> pendingUpdater s' = None \<and> st_state s' = st_state s"
  unfolding Let_def
  by (rule throwing_updater_drops_batch [where k = 1 and l = 2 and y = 5]) (simp_all add: createStore_def)

text \<open>Between values of one kind, \<open>shallowEqual\<close> decides equality of contents: same entries, same
  members, same elements or same properties, whatever their order, provided no object property is
  \<open>undefined\<close>.\<close>

theorem shallowEqual_exact:
  assumes "same_kind a b" and "value_ok a" and "value_ok b"
    and "identity a = identity b \<Longrightarrow> a = b"
  shows "shallowEqual a b \<longleftrightarrow> same_content a b"
proof (cases "identity a = identity b")
  case True
  with assms(4) have "a = b" by blast
  then show ?thesis by (cases b) (simp_all add: shallowEqual_def)
next
  case False
  with assms(1-3) show ?thesis
    by (cases a; cases b) (simp_all add: shallowEqual_def same_map_iff nth_equal_iff same_set_iff sameProps_iff
        del: not_None_eq)
qed

theorem shallowEqual_exact_witness:
  "shallowEqual (MapOf 1 [(Some 5, Some 6), (Some 7, None)]) (MapOf (2::nat) [(Some 7, None), (Some 5, Some 6)]) \<longleftrightarrow>
   same_content (MapOf 1 [(Some 5, Some 6), (Some 7, None)]) (MapOf (2::nat) [(Some 7, None), (Some 5, Some 6)])"
  by (rule shallowEqual_exact) (simp_all add: jm_wf_def)

text \<open>With an \<open>undefined\<close> property \<open>shallowEqual\<close> goes wrong: an object whose only property is
  \<open>undefined\<close> equals any other object with one property of a different name, so a selector that
  returns such slices does not report the change.\<close>

theorem shallowEqual_undefined_property:
  assumes "key \<noteq> key'"
  shows "shallowEqual (ObjectOf i [(key, None)]) (ObjectOf j [(key', Some v)]) \<and>
    selectorListener id shallowEqual (ObjectOf i [(key, None)]) (ObjectOf j [(key', Some v)]) =
      (ObjectOf i [(key, None)], None)"
  using assms by (simp add: shallowEqual_def selectorListener_def sameProps_def jm_keys_def getProp_def jm_get_def nullish_def)

theorem shallowEqual_undefined_property_witness:
  "shallowEqual (ObjectOf 1 [(''typing'', None)]) (ObjectOf (2::nat) [(''status'', Some 3)])"
  using shallowEqual_undefined_property [of "''typing''" "''status''" "1::nat" 2 3] by simp

end
