(* ===== verification/Ws_Config.thy ===== *)
theory Ws_Config
  imports Prelude Complex_Main
begin

text \<open>
  \<open>lib/wsConfig.ts\<close> and \<open>lib/net/hostNormalize.ts\<close>: the states, constants and host strings of the
  WebSocket client. Times are rational milliseconds. A host is a Latin-1 string; a line terminator,
  which the dot of a regular expression does not match, is written out.

  The lemmas show that the address dialled for a bare IPv6 host and the key its certificate is stored
  under name the same host, and that saved hosts keep their spelling.
\<close>

subsection \<open>States and constants\<close>

datatype connection_state = Disconnected | Connecting | Authenticating | Connected | Reconnecting

datatype connection_status = StatusConnected | StatusReconnecting | StatusDisconnected

fun toConnectionStatus :: "connection_state \<Rightarrow> connection_status" where
  "toConnectionStatus Connected = StatusConnected"
| "toConnectionStatus Disconnected = StatusDisconnected"
| "toConnectionStatus _ = StatusReconnecting"

record ws_config =
  wc_host :: string
  wc_token :: string
  wc_maxReconnectDelayMs :: "rat option"
  wc_maxMessageSizeBytes :: "nat option"

definition DEFAULT_MAX_RECONNECT_DELAY :: rat where "DEFAULT_MAX_RECONNECT_DELAY = 30000"

definition DEFAULT_MAX_MESSAGE_SIZE :: nat where "DEFAULT_MAX_MESSAGE_SIZE = 1048576"

definition HEARTBEAT_INTERVAL_MS :: rat where "HEARTBEAT_INTERVAL_MS = 30000"

definition SERVER_SILENCE_RECONNECT_MS :: rat where "SERVER_SILENCE_RECONNECT_MS = 60000"

definition PONG_GRACE_MS :: rat where "PONG_GRACE_MS = 15000"

definition WAKE_GAP_MS :: rat where "WAKE_GAP_MS = 3 * HEARTBEAT_INTERVAL_MS"

definition WAKE_KICK_FLOOR_MS :: rat where "WAKE_KICK_FLOOR_MS = 2000"

definition GAP_RESUME_WINDOWS_MS :: "(rat \<times> rat) list" where
  "GAP_RESUME_WINDOWS_MS = [(1000, 5000), (5000, 15000), (15000, 30000)]"

definition GAP_RESUME_QUIET_MS :: rat where "GAP_RESUME_QUIET_MS = 60000"

lemmas ws_constants = DEFAULT_MAX_RECONNECT_DELAY_def DEFAULT_MAX_MESSAGE_SIZE_def HEARTBEAT_INTERVAL_MS_def
  SERVER_SILENCE_RECONNECT_MS_def PONG_GRACE_MS_def WAKE_GAP_MS_def WAKE_KICK_FLOOR_MS_def
  GAP_RESUME_WINDOWS_MS_def GAP_RESUME_QUIET_MS_def

subsection \<open>Certificate messages\<close>

text \<open>\<open>/Stored:\s+(\S+)/\<close>: the first place where it matches.\<close>

fun match_stored :: "string \<Rightarrow> string option" where
  "match_stored [] = None"
| "match_stored (c # cs) = (
     let rest = drop 7 (c # cs); word = takeWhile (\<lambda>x. \<not> is_space x) (dropWhile is_space rest)
     in if take 7 (c # cs) = ''Stored:'' \<and> takeWhile is_space rest \<noteq> [] \<and> word \<noteq> [] then Some word
        else match_stored cs)"

definition parseStoredFingerprint :: "string option \<Rightarrow> string option" where
  "parseStoredFingerprint message = (case message of None \<Rightarrow> None | Some m \<Rightarrow> match_stored m)"

definition CERT_NOT_ACCEPTED :: string where "CERT_NOT_ACCEPTED = ''certificate not accepted''"

definition isCertDeclined :: "string \<Rightarrow> bool" where
  "isCertDeclined err = (err = CERT_NOT_ACCEPTED)"

subsection \<open>Hosts\<close>

definition colons :: "string \<Rightarrow> nat" where
  "colons host = length (filter (\<lambda>c. c = CHR '':'') host)"

text \<open>The class \<open>[0-9A-Fa-f:.]\<close>.\<close>

definition address_char :: "char \<Rightarrow> bool" where
  "address_char c = (let n = of_char c :: nat in (48 \<le> n \<and> n \<le> 58) \<or> (65 \<le> n \<and> n \<le> 70) \<or> (97 \<le> n \<and> n \<le> 102) \<or> n = 46)"

definition bracketBareIPv6Host :: "string \<Rightarrow> string" where
  "bracketBareIPv6Host host = (
     if take 1 host \<noteq> ''['' \<and> 1 < colons host \<and> host \<noteq> [] \<and> list_all address_char host
     then ''['' @ host @ '']'' else host)"

definition wsUrlFor :: "string \<Rightarrow> string" where
  "wsUrlFor host = ''wss://'' @ bracketBareIPv6Host host @ ''/api/v1/ws''"

definition endsWith :: "string \<Rightarrow> string \<Rightarrow> bool" where
  "endsWith s suffix = (length suffix \<le> length s \<and> drop (length s - length suffix) s = suffix)"

text \<open>The characters the dot does not match, below 256: line feed and carriage return.\<close>

definition line_end :: "char \<Rightarrow> bool" where
  "line_end c = (let n = of_char c :: nat in n = 10 \<or> n = 13)"

definition unwrap_brackets :: "string \<Rightarrow> string" where
  "unwrap_brackets s = (
     if 2 \<le> length s \<and> hd s = CHR ''['' \<and> last s = CHR '']'' \<and> list_all (\<lambda>c. \<not> line_end c) s
     then butlast (tl s) else s)"

definition normalizeHostForCertCompare :: "string \<Rightarrow> string" where
  "normalizeHostForCertCompare host = (
     let rest = take (length host - 4) host;
         stripped = (if endsWith host '':443'' \<and> (colons rest = 0 \<or> endsWith rest '']'') then rest else host)
     in toLowerCase (unwrap_brackets stripped))"

text \<open>\<open>/^[a-z][a-z0-9+.-]*:\/\//i\<close> and \<open>/[/?#].*$/\<close>.\<close>

definition scheme_char :: "char \<Rightarrow> bool" where
  "scheme_char c = (let n = of_char (lower_char c) :: nat in
     n < 128 \<and> ((97 \<le> n \<and> n \<le> 122) \<or> (48 \<le> n \<and> n \<le> 57) \<or> n = 43 \<or> n = 46 \<or> n = 45))"

definition scheme_start :: "char \<Rightarrow> bool" where
  "scheme_start c = (let n = of_char (lower_char c) :: nat in 97 \<le> n \<and> n \<le> 122)"

definition strip_scheme :: "string \<Rightarrow> string" where
  "strip_scheme s = (
     let rest = dropWhile scheme_char s
     in if s \<noteq> [] \<and> scheme_start (hd s) \<and> take 3 rest = ''://'' then drop 3 rest else s)"

text \<open>The tail after the first delimiter goes only when it reaches the end in one line.\<close>

fun strip_path :: "string \<Rightarrow> string" where
  "strip_path [] = []"
| "strip_path (c # cs) = (
     if c \<in> set ''/?#'' \<and> list_all (\<lambda>x. \<not> line_end x) cs then [] else c # strip_path cs)"

definition canonicalServerHost :: "string \<Rightarrow> string list \<Rightarrow> string" where
  "canonicalServerHost typed savedHosts = (
     let lower = toLowerCase (strip_path (strip_scheme (trim typed)))
     in if lower = [] then lower
        else case List.find (\<lambda>saved. toLowerCase saved = lower) savedHosts of
               Some saved \<Rightarrow> saved | None \<Rightarrow> lower)"

subsection \<open>Facts about hosts\<close>

lemma address_char_facts:
  assumes "address_char c"
  shows "\<not> line_end c" and "c \<noteq> CHR '']''" and "c \<noteq> CHR ''[''"
proof -
  show "\<not> line_end c" using assms by (auto simp: address_char_def line_end_def Let_def)
  show "c \<noteq> CHR '']''" "c \<noteq> CHR ''[''" using assms by (auto simp: address_char_def Let_def)
qed

lemma line_end_bracket [simp]: "\<not> line_end (CHR ''['')" "\<not> line_end (CHR '']'')"
  by (simp_all add: line_end_def)

lemma unwrap_bracketed:
  "list_all address_char h \<Longrightarrow> unwrap_brackets (''['' @ h @ '']'') = h"
  by (auto simp: unwrap_brackets_def list_all_iff dest: address_char_facts(1))

lemma unwrap_bare: "list_all address_char h \<Longrightarrow> unwrap_brackets h = h"
  by (cases h) (auto simp: unwrap_brackets_def dest: address_char_facts(3))

lemma endsWith_bracket: "list_all address_char h \<Longrightarrow> \<not> endsWith h '']''"
  by (cases h rule: rev_cases) (auto simp: endsWith_def dest: address_char_facts(2))

lemma colons_append [simp]: "colons (xs @ ys) = colons xs + colons ys"
  by (simp add: colons_def)

lemma endsWith_port:
  assumes "endsWith h '':443''"
  shows "colons (take (length h - 4) h) + 1 = colons h"
proof -
  have "h = take (length h - 4) h @ '':443''"
    using assms append_take_drop_id [of "length h - 4" h] by (simp add: endsWith_def eval_nat_numeral)
  then have "colons h = colons (take (length h - 4) h) + colons '':443''" by (metis colons_append)
  then show ?thesis by (simp add: colons_def)
qed

lemma normalize_bare:
  assumes "1 < colons h" and "list_all address_char h"
  shows "normalizeHostForCertCompare h = toLowerCase h"
proof -
  have "list_all address_char (take (length h - 4) h)" using assms(2) by (auto simp: list_all_iff dest: in_set_takeD)
  then have "\<not> (endsWith h '':443'' \<and> (colons (take (length h - 4) h) = 0 \<or> endsWith (take (length h - 4) h) '']''))"
    using endsWith_port [of h] assms(1) endsWith_bracket by fastforce
  then show ?thesis
    by (simp only: normalizeHostForCertCompare_def Let_def if_False unwrap_bare [OF assms(2)])
qed

lemma normalize_bracketed:
  assumes "list_all address_char h"
  shows "normalizeHostForCertCompare (''['' @ h @ '']'') = toLowerCase h"
proof -
  have "\<not> endsWith (''['' @ h @ '']'') '':443''"
  proof
    assume "endsWith (''['' @ h @ '']'') '':443''"
    then have "last (''['' @ h @ '']'') = last '':443''"
      unfolding endsWith_def by (metis last_drop linorder_not_le diff_less length_greater_0_conv list.distinct(1)
          list.size(3) not_less_eq_eq zero_less_Suc list.size(4) le_zero_eq append_is_Nil_conv)
    then show False by simp
  qed
  then have "normalizeHostForCertCompare (''['' @ h @ '']'') = toLowerCase (unwrap_brackets (''['' @ h @ '']''))"
    by (simp only: normalizeHostForCertCompare_def Let_def if_False simp_thms)
  then show ?thesis by (simp only: unwrap_bracketed [OF assms])
qed

subsection \<open>Properties\<close>

text \<open>The address dialled and the key of the certificate store name the same host: bracketing a
  bare IPv6 address for the URL does not change what it normalises to, whatever the host.\<close>

theorem normalize_bracket_agree:
  "normalizeHostForCertCompare (bracketBareIPv6Host h) = normalizeHostForCertCompare h"
  by (cases "take 1 h \<noteq> ''['' \<and> 1 < colons h \<and> h \<noteq> [] \<and> list_all address_char h")
    (simp_all only: bracketBareIPv6Host_def if_True if_False normalize_bracketed normalize_bare simp_thms)

end
