(* ===== verification/Ws_Client.thy ===== *)
theory Ws_Client
  imports Ws_Config
begin

text \<open>
  \<open>lib/ws.ts\<close>: the WebSocket client. \<open>createWsClient\<close> closes over its variables; here they are the
  fields of a record. A timer is the time at which it is due, or \<open>None\<close>. Everything that reaches the
  client from outside is an event: calls of its interface, reports of the native transport, inbound
  frames, timers, wake signals and settled promises. An event carries the clock's reading and the
  sample of \<open>random()\<close>. What the client does to the outside (dial, send, report a state) is appended
  to \<open>ws_out\<close>. Log lines and diagnostic events are left out. A listener's own calls back into the
  client are further events.

  The lemmas show that the client never waits without a timer or a dial under way, that a silent
  socket is dropped, that no dial follows a disconnect or a changed certificate on its own, the bounds
  of the backoff, and what is asked for on a resume.
\<close>

subsection \<open>Frames and effects\<close>

datatype frame_type =
    Pong
  | Ready
  | Auth_ok "string option"
  | Auth_error
  | Error_frame string "rat option"
  | Server_restart rat "rat option"
  | Other_frame string

text \<open>A parsed frame, a JSON object; \<open>in_type\<close> is \<open>None\<close> when the type is missing or empty, \<open>in_size\<close> is the length of
  the raw text.\<close>

record inbound =
  in_type :: "frame_type option"
  in_has_payload :: bool
  in_seq :: "int option"
  in_cseq :: "int option"
  in_size :: nat

record auth_frame =
  af_token :: string
  af_last_seq :: int
  af_epoch :: int
  af_active_channel_id :: "int option"
  af_wake :: bool
  af_features :: "string list"
  af_identity_public_key :: "string option"

datatype client_frame = Ping | Auth auth_frame | App string

datatype ws_effect =
    Dial string
  | Close_transport nat
  | Send_frame "string option" client_frame
  | Send_failed string string
  | State_change connection_state
  | Ask_identity string nat nat auth_frame
  | Dispatch frame_type
  | Pong_seen
  | Busy
  | Cert_mismatch_seen string

subsection \<open>The client's variables\<close>

record ws =
  ws_cfg :: "ws_config option"
  ws_conn :: connection_state
  ws_generation :: nat
  ws_attempt :: nat
  ws_reconnect :: "rat option"
  ws_heartbeat :: "rat option"
  ws_liveness :: "rat option"
  ws_livenessDueAt :: rat
  ws_wakeArmed :: bool
  ws_lastWakeKickAt :: "rat option"
  ws_lastActivityAt :: rat
  ws_unansweredPingAt :: "rat option"
  ws_intentionalClose :: bool
  ws_pendingWake :: bool
  ws_certBlock :: bool
  ws_failureCode :: "string option"
  ws_proxyOpen :: bool
  ws_lastSeq :: int
  ws_lastCseq :: int
  ws_socketId :: nat
  ws_gapTimer :: "(nat \<times> rat) option"
  ws_gapStreak :: nat
  ws_lastGapResumeAt :: "rat option"
  ws_restartRedialAt :: "rat option"
  ws_restartOffsetMs :: rat
  ws_busyRetryAfterMs :: "rat option"
  ws_busyHold :: bool
  ws_out :: "ws_effect list"

definition createWsClient :: "rat \<Rightarrow> ws" where
  "createWsClient now = \<lparr>ws_cfg = None, ws_conn = Disconnected, ws_generation = 0, ws_attempt = 0,
     ws_reconnect = None, ws_heartbeat = None, ws_liveness = None, ws_livenessDueAt = 0, ws_wakeArmed = False,
     ws_lastWakeKickAt = None, ws_lastActivityAt = now, ws_unansweredPingAt = None,
     ws_intentionalClose = False, ws_pendingWake = False, ws_certBlock = False, ws_failureCode = None,
     ws_proxyOpen = False, ws_lastSeq = 0, ws_lastCseq = 0, ws_socketId = 0, ws_gapTimer = None,
     ws_gapStreak = 0, ws_lastGapResumeAt = None, ws_restartRedialAt = None, ws_restartOffsetMs = 0,
     ws_busyRetryAfterMs = None, ws_busyHold = False, ws_out = []\<rparr>"

definition emit :: "ws_effect \<Rightarrow> ws \<Rightarrow> ws" where
  "emit e s = s\<lparr>ws_out := ws_out s @ [e]\<rparr>"

definition setConn :: "connection_state \<Rightarrow> ws \<Rightarrow> ws" where
  "setConn newState s = (
     if ws_conn s \<noteq> newState then emit (State_change newState) (s\<lparr>ws_conn := newState\<rparr>) else s)"

subsection \<open>Sending\<close>

text \<open>A frame sent while the proxy is closed fails its id, which a bare ping does not have.\<close>

definition sendRaw :: "client_frame \<Rightarrow> string option \<Rightarrow> ws \<Rightarrow> ws" where
  "sendRaw fr i s = (
     if \<not> ws_proxyOpen s then (case i of None \<Rightarrow> s | Some k \<Rightarrow> emit (Send_failed k ''OFFLINE'') s)
     else emit (Send_frame i fr) s)"

text \<open>A rejected send, by what the native message says.\<close>

datatype send_error = Channel_full | Channel_closed | Other_send_error

definition sendRejected :: "string option \<Rightarrow> send_error \<Rightarrow> ws \<Rightarrow> ws" where
  "sendRejected i err s = (case i of
     None \<Rightarrow> s
   | Some k \<Rightarrow> emit (Send_failed k (if err = Channel_closed then ''OFFLINE'' else ''NETWORK'')) s)"

subsection \<open>Timers\<close>

definition getReconnectDelay :: "ws \<Rightarrow> rat option \<Rightarrow> rat \<Rightarrow> rat" where
  "getReconnectDelay s retryAfterMs rnd = (
     let maxDelay = nullish (Option.bind (ws_cfg s) wc_maxReconnectDelayMs) DEFAULT_MAX_RECONNECT_DELAY;
         ceiling = min (1000 * 2 ^ ws_attempt s) maxDelay;
         serverDelay = (case retryAfterMs of None \<Rightarrow> 0 | Some r \<Rightarrow> if 0 \<le> r then min r maxDelay else 0);
         lower = max (ceiling / 2) serverDelay;
         upper = max ceiling serverDelay
     in lower + rnd * (upper - lower))"

definition stopHeartbeat :: "ws \<Rightarrow> ws" where
  "stopHeartbeat s = s\<lparr>ws_heartbeat := None\<rparr>"

definition startHeartbeat :: "rat \<Rightarrow> ws \<Rightarrow> ws" where
  "startHeartbeat now s = (stopHeartbeat s)\<lparr>ws_heartbeat := Some now\<rparr>"

definition setLivenessTimer :: "rat \<Rightarrow> rat \<Rightarrow> ws \<Rightarrow> ws" where
  "setLivenessTimer deadlineMs now s =
     s\<lparr>ws_livenessDueAt := now + deadlineMs, ws_liveness := Some (now + deadlineMs)\<rparr>"

definition armLiveness :: "rat \<Rightarrow> ws \<Rightarrow> ws" where
  "armLiveness now s = setLivenessTimer SERVER_SILENCE_RECONNECT_MS now (s\<lparr>ws_unansweredPingAt := None\<rparr>)"

definition stopLiveness :: "ws \<Rightarrow> ws" where
  "stopLiveness s = s\<lparr>ws_liveness := None\<rparr>"

definition notePing :: "rat \<Rightarrow> ws \<Rightarrow> ws" where
  "notePing now s = s\<lparr>ws_unansweredPingAt := alt (ws_unansweredPingAt s) (Some now)\<rparr>"

definition onWake :: "rat \<Rightarrow> ws \<Rightarrow> ws" where
  "onWake now s = (
     if ws_conn s \<noteq> Connected \<or> \<not> ws_proxyOpen s then s
     else setLivenessTimer (max 0 (min PONG_GRACE_MS (ws_livenessDueAt s - now))) now
            (notePing now (sendRaw Ping None s)))"

definition handleWakeSignal :: "rat \<Rightarrow> rat \<Rightarrow> ws \<Rightarrow> ws" where
  "handleWakeSignal gap now s = (
     let s' = s\<lparr>ws_lastActivityAt := now\<rparr>
     in if WAKE_GAP_MS < gap then onWake now (s'\<lparr>ws_pendingWake := True\<rparr>)
        else if ws_proxyOpen s' then notePing now (sendRaw Ping None s') else s')"

definition heartbeatTick :: "rat \<Rightarrow> ws \<Rightarrow> ws" where
  "heartbeatTick now s = (case ws_heartbeat s of
     None \<Rightarrow> s
   | Some lastBeatAt \<Rightarrow> handleWakeSignal (now - lastBeatAt) now (s\<lparr>ws_heartbeat := Some now\<rparr>))"

definition cancelReconnect :: "ws \<Rightarrow> ws" where
  "cancelReconnect s = s\<lparr>ws_reconnect := None\<rparr>"

definition cancelGapResume :: "ws \<Rightarrow> ws" where
  "cancelGapResume s = s\<lparr>ws_gapTimer := None\<rparr>"

definition armWakeListeners :: "ws \<Rightarrow> ws" where
  "armWakeListeners s = s\<lparr>ws_wakeArmed := True\<rparr>"

definition stopWakeListeners :: "ws \<Rightarrow> ws" where
  "stopWakeListeners s = s\<lparr>ws_wakeArmed := False\<rparr>"

text \<open>\<open>suspendGapExceeded\<close> at each of its callers: mark the next dial a wake when the clock jumped.\<close>

definition noteSuspendGap :: "rat \<Rightarrow> ws \<Rightarrow> ws" where
  "noteSuspendGap now s = (
     let gap = now - ws_lastActivityAt s; s' = s\<lparr>ws_lastActivityAt := now\<rparr>
     in if WAKE_GAP_MS < gap then s'\<lparr>ws_pendingWake := True\<rparr> else s')"

subsection \<open>Dialling\<close>

definition connect :: "ws_config \<Rightarrow> bool \<Rightarrow> rat \<Rightarrow> ws \<Rightarrow> ws" where
  "connect cfg takeover now s = (
     let s1 = s\<lparr>ws_generation := Suc (ws_generation s), ws_cfg := Some cfg, ws_intentionalClose := False,
                ws_pendingWake := (if takeover then False else ws_pendingWake s), ws_lastActivityAt := now,
                ws_certBlock := False, ws_failureCode := None, ws_restartRedialAt := None,
                ws_busyRetryAfterMs := None, ws_busyHold := False\<rparr>;
         s2 = stopLiveness (cancelGapResume (cancelReconnect s1))
     in emit (Dial (wsUrlFor (wc_host cfg))) (setConn Connecting s2))"

text \<open>The transport's \<open>connect\<close> rejected; the report belongs to the attempt of generation \<open>gen\<close>.\<close>

definition dialRejected :: "nat \<Rightarrow> ws \<Rightarrow> ws" where
  "dialRejected gen s = (
     if gen \<noteq> ws_generation s then s else setConn Disconnected (s\<lparr>ws_proxyOpen := False\<rparr>))"

definition redial :: "rat \<Rightarrow> ws \<Rightarrow> ws" where
  "redial now s = (
     let s1 = noteSuspendGap now (s\<lparr>ws_reconnect := None, ws_attempt := Suc (ws_attempt s)\<rparr>)
     in case ws_cfg s1 of None \<Rightarrow> setConn Disconnected s1 | Some nextConfig \<Rightarrow> connect nextConfig False now s1)"

definition scheduleReconnect :: "rat option \<Rightarrow> rat \<Rightarrow> rat \<Rightarrow> ws \<Rightarrow> ws" where
  "scheduleReconnect retryAfterMs now rnd s = (
     if ws_intentionalClose s \<or> ws_certBlock s \<or> ws_cfg s = None then s
     else let s1 = noteSuspendGap now s
       in if ws_reconnect s1 \<noteq> None then s1
          else let hint = alt retryAfterMs (ws_busyRetryAfterMs s1);
                   s2 = s1\<lparr>ws_busyHold := (ws_busyRetryAfterMs s1 \<noteq> None), ws_busyRetryAfterMs := None\<rparr>;
                   delay = (case ws_restartRedialAt s2 of
                     Some since \<Rightarrow> max (since - now) (ws_restartOffsetMs s2)
                   | None \<Rightarrow> getReconnectDelay s2 hint rnd)
               in (setConn Reconnecting s2)\<lparr>ws_reconnect := Some (now + delay)\<rparr>)"

definition onWakeSignal :: "rat \<Rightarrow> ws \<Rightarrow> ws" where
  "onWakeSignal now s = (
     if ws_conn s = Connected then onWake now s
     else if ws_conn s \<noteq> Reconnecting \<or> ws_reconnect s = None then s
     else if ws_intentionalClose s \<or> ws_certBlock s \<or> ws_cfg s = None then s
     else if ws_restartRedialAt s \<noteq> None \<or> ws_busyHold s then s
     else if (case ws_lastWakeKickAt s of None \<Rightarrow> False | Some since \<Rightarrow> now - since < WAKE_KICK_FLOOR_MS) then s
     else redial now (cancelReconnect (s\<lparr>ws_lastWakeKickAt := Some now\<rparr>)))"

definition onLivenessDeadline :: "rat \<Rightarrow> rat \<Rightarrow> ws \<Rightarrow> ws" where
  "onLivenessDeadline now rnd s = (
     let s1 = s\<lparr>ws_liveness := None\<rparr>
     in if ws_intentionalClose s1 \<or> \<not> ws_proxyOpen s1 \<or> ws_conn s1 \<noteq> Connected then s1
        else let pingAgeMs = (case ws_unansweredPingAt s1 of None \<Rightarrow> 0 | Some p \<Rightarrow> now - p)
          in if pingAgeMs < PONG_GRACE_MS then setLivenessTimer (PONG_GRACE_MS - pingAgeMs) now s1
             else scheduleReconnect None now rnd (stopHeartbeat (s1\<lparr>ws_proxyOpen := False\<rparr>)))"

definition resumeForGap :: "rat \<Rightarrow> ws \<Rightarrow> ws" where
  "resumeForGap now s = (
     if ws_intentionalClose s \<or> ws_certBlock s \<or> ws_cfg s = None then s
     else if ws_conn s \<noteq> Connected \<or> \<not> ws_proxyOpen s then s
     else let s1 = s\<lparr>ws_gapStreak := Suc (ws_gapStreak s), ws_lastGapResumeAt := Some now, ws_proxyOpen := False\<rparr>
       in redial now (setConn Reconnecting (cancelReconnect (stopLiveness (stopHeartbeat s1)))))"

definition gapTimerFires :: "rat \<Rightarrow> ws \<Rightarrow> ws" where
  "gapTimerFires now s = (case ws_gapTimer s of
     None \<Rightarrow> s
   | Some (owner, due) \<Rightarrow>
       (let s1 = s\<lparr>ws_gapTimer := None\<rparr> in if owner \<noteq> ws_socketId s1 then s1 else resumeForGap now s1))"

definition noteCseq :: "int \<Rightarrow> rat \<Rightarrow> rat \<Rightarrow> ws \<Rightarrow> ws" where
  "noteCseq cseq now rnd s = (
     let expected = ws_lastCseq s + 1; s1 = s\<lparr>ws_lastCseq := cseq\<rparr>
     in if cseq = expected \<or> ws_gapTimer s1 \<noteq> None then s1
        else let quiet = (case ws_lastGapResumeAt s1 of None \<Rightarrow> True | Some since \<Rightarrow> GAP_RESUME_QUIET_MS < now - since);
                 s2 = (if quiet then s1\<lparr>ws_gapStreak := 0\<rparr> else s1);
                 (lo, hi) = GAP_RESUME_WINDOWS_MS ! min (ws_gapStreak s2) (length GAP_RESUME_WINDOWS_MS - 1)
             in s2\<lparr>ws_gapTimer := Some (ws_socketId s2, now + (lo + rnd * (hi - lo)))\<rparr>)"

subsection \<open>Inbound frames\<close>

definition PROTOCOL_EPOCH :: int where "PROTOCOL_EPOCH = 1"

definition clientFeatures :: "bool \<Rightarrow> string list" where
  "clientFeatures android = (if android then [''forums'', ''mobile''] else [''forums''])"

text \<open>\<open>disconnectProxy\<close> asks the transport to close; when that settles, the proxy counts as closed unless
  another attempt has begun.\<close>

definition disconnectProxy :: "ws \<Rightarrow> ws" where
  "disconnectProxy s = emit (Close_transport (ws_generation s)) s"

definition proxyClosed :: "nat \<Rightarrow> ws \<Rightarrow> ws" where
  "proxyClosed gen s = (if gen = ws_generation s then s\<lparr>ws_proxyOpen := False\<rparr> else s)"

definition onAuthOk :: "string option \<Rightarrow> rat \<Rightarrow> ws \<Rightarrow> ws" where
  "onAuthOk replay_source now s = (
     let s1 = (if replay_source = Some ''none'' then s\<lparr>ws_lastSeq := 0\<rparr> else s);
         s2 = (setConn Connected s1)\<lparr>ws_attempt := 0, ws_pendingWake := False\<rparr>
     in armWakeListeners (armLiveness now (startHeartbeat now s2)))"

definition onServerRestart :: "rat \<Rightarrow> rat option \<Rightarrow> rat \<Rightarrow> rat \<Rightarrow> ws \<Rightarrow> ws" where
  "onServerRestart delay_seconds spread now rnd s = (
     let delayMs = delay_seconds * 1000; offset = rnd * max 0 (nullish spread 0)
     in s\<lparr>ws_restartOffsetMs := offset,
          ws_restartRedialAt := (if 0 < delayMs then Some (now + delayMs + offset) else None)\<rparr>)"

definition handleFrame :: "frame_type \<Rightarrow> rat \<Rightarrow> rat \<Rightarrow> ws \<Rightarrow> ws" where
  "handleFrame fr now rnd s = (case fr of
     Auth_error \<Rightarrow>
       setConn Disconnected (disconnectProxy (emit (Dispatch fr) (s\<lparr>ws_intentionalClose := True\<rparr>)))
   | Error_frame code retry \<Rightarrow>
       if code = ''SERVER_BUSY'' then emit Busy (s\<lparr>ws_busyRetryAfterMs := retry\<rparr>)
       else emit (Dispatch fr) s
   | Server_restart delay spread \<Rightarrow> emit (Dispatch fr) (onServerRestart delay spread now rnd s)
   | Auth_ok replay_source \<Rightarrow> emit (Dispatch fr) (onAuthOk replay_source now s)
   | _ \<Rightarrow> emit (Dispatch fr) s)"

definition exempt :: "frame_type option \<Rightarrow> bool" where
  "exempt t = (case t of Some Ready \<Rightarrow> True | Some (Auth_ok _) \<Rightarrow> True | _ \<Rightarrow> False)"

definition noteSeq :: "int option \<Rightarrow> ws \<Rightarrow> ws" where
  "noteSeq sq s = (let n = nullish sq 0 in if ws_lastSeq s < n then s\<lparr>ws_lastSeq := n\<rparr> else s)"

text \<open>\<open>None\<close> is a text that does not parse.\<close>

definition handleMessage :: "inbound option \<Rightarrow> rat \<Rightarrow> rat \<Rightarrow> ws \<Rightarrow> ws" where
  "handleMessage raw now rnd s = (case raw of
     None \<Rightarrow> s
   | Some parsed \<Rightarrow>
       (let maxSize = nullish (Option.bind (ws_cfg s) wc_maxMessageSizeBytes) DEFAULT_MAX_MESSAGE_SIZE;
            s1 = noteSuspendGap now (armLiveness now s);
            s2 = (case in_cseq parsed of None \<Rightarrow> s1 | Some c \<Rightarrow> noteCseq c now rnd s1)
        in if maxSize < in_size parsed \<and> \<not> exempt (in_type parsed) then s2
           else let s3 = noteSeq (in_seq parsed) s2
             in if in_type parsed = Some Pong then emit Pong_seen s3
                else case in_type parsed of
                  None \<Rightarrow> s3
                | Some fr \<Rightarrow> if \<not> in_has_payload parsed then s3 else handleFrame fr now rnd s3))"

subsection \<open>Reports of the transport\<close>

text \<open>The proxy opened: the channel on screen, whether a key provider is registered, whether this is the
  Android app, and the id of the frame are read from outside.\<close>

record open_env =
  oe_activeChannel :: "int option"
  oe_identity :: bool
  oe_android :: bool
  oe_frameId :: string

definition transportOpen :: "open_env \<Rightarrow> ws \<Rightarrow> ws" where
  "transportOpen env s = (
     let s1 = cancelGapResume (s\<lparr>ws_proxyOpen := True, ws_socketId := Suc (ws_socketId s), ws_lastCseq := 0\<rparr>);
         s2 = setConn Authenticating (s1\<lparr>ws_failureCode := None\<rparr>)
     in case ws_cfg s2 of
          None \<Rightarrow> s2
        | Some cfg \<Rightarrow>
            (let frame = \<lparr>af_token = wc_token cfg, af_last_seq = ws_lastSeq s2, af_epoch = PROTOCOL_EPOCH,
                   af_active_channel_id = (if 0 < ws_lastSeq s2 then oe_activeChannel env else None),
                   af_wake = ws_pendingWake s2, af_features = clientFeatures (oe_android env),
                   af_identity_public_key = None\<rparr>
             in if \<not> oe_identity env then sendRaw (Auth frame) (Some (oe_frameId env)) s2
                else emit (Ask_identity (wc_host cfg) (ws_socketId s2) (ws_generation s2) frame) s2))"

text \<open>The lookup of the identity key settled for the attempt it was started for.\<close>

definition identityResolved :: "nat \<Rightarrow> nat \<Rightarrow> auth_frame \<Rightarrow> string option \<Rightarrow> string \<Rightarrow> ws \<Rightarrow> ws" where
  "identityResolved attemptSocketId attemptGen frame key i s = (
     if ws_socketId s \<noteq> attemptSocketId \<or> ws_generation s \<noteq> attemptGen \<or> \<not> ws_proxyOpen s then s
     else sendRaw (Auth (frame\<lparr>af_identity_public_key := key\<rparr>)) (Some i) s)"

definition transportClosed :: "rat option \<Rightarrow> string option \<Rightarrow> rat \<Rightarrow> rat \<Rightarrow> ws \<Rightarrow> ws" where
  "transportClosed retryAfterMs errorCode now rnd s = (
     let s1 = (cancelGapResume (s\<lparr>ws_proxyOpen := False\<rparr>))\<lparr>ws_failureCode := errorCode\<rparr>;
         s2 = stopLiveness (stopHeartbeat s1);
         s3 = (if ws_intentionalClose s2 \<or> ws_certBlock s2 then stopWakeListeners s2 else s2)
     in if \<not> ws_intentionalClose s3 then scheduleReconnect retryAfterMs now rnd s3
        else setConn Disconnected s3)"

definition handleCertMismatch :: "string \<Rightarrow> ws \<Rightarrow> ws" where
  "handleCertMismatch host s = (
     let own = (case ws_cfg s of None \<Rightarrow> False | Some cfg \<Rightarrow> host = normalizeHostForCertCompare (wc_host cfg));
         s1 = (if own then setConn Disconnected (cancelReconnect (stopWakeListeners (s\<lparr>ws_certBlock := True\<rparr>))) else s)
     in emit (Cert_mismatch_seen host) s1)"

definition certAccepted :: "ws \<Rightarrow> ws" where
  "certAccepted s = s\<lparr>ws_certBlock := False\<rparr>"

definition disconnect :: "ws \<Rightarrow> ws" where
  "disconnect s = (
     let s1 = s\<lparr>ws_generation := Suc (ws_generation s), ws_intentionalClose := True, ws_certBlock := False,
                ws_pendingWake := False, ws_restartRedialAt := None, ws_busyRetryAfterMs := None,
                ws_busyHold := False\<rparr>;
         s2 = stopWakeListeners (stopLiveness (stopHeartbeat (cancelGapResume (cancelReconnect s1))));
         s3 = setConn Disconnected (disconnectProxy (s2\<lparr>ws_proxyOpen := False\<rparr>))
     in s3\<lparr>ws_cfg := None, ws_lastSeq := 0, ws_attempt := 0\<rparr>)"

subsection \<open>Events\<close>

datatype ws_event =
    Connect ws_config bool
  | Disconnect
  | Send string string
  | Send_rejected "string option" send_error
  | Dial_rejected nat
  | Proxy_closed nat
  | Transport_open open_env
  | Transport_closed "rat option" "string option"
  | Identity_resolved nat nat auth_frame "string option" string
  | Message "inbound option"
  | Heartbeat_tick
  | Liveness_fires
  | Reconnect_fires
  | Gap_fires
  | Wake_signal
  | Cert_mismatch string
  | Cert_accepted

fun ws_apply :: "ws \<Rightarrow> rat \<Rightarrow> rat \<Rightarrow> ws_event \<Rightarrow> ws" where
  "ws_apply s now rnd (Connect cfg takeover) = connect cfg takeover now s"
| "ws_apply s now rnd Disconnect = disconnect s"
| "ws_apply s now rnd (Send i msg) = sendRaw (App msg) (Some i) s"
| "ws_apply s now rnd (Send_rejected i err) = sendRejected i err s"
| "ws_apply s now rnd (Dial_rejected gen) = dialRejected gen s"
| "ws_apply s now rnd (Proxy_closed gen) = proxyClosed gen s"
| "ws_apply s now rnd (Transport_open env) = transportOpen env s"
| "ws_apply s now rnd (Transport_closed retry code) = transportClosed retry code now rnd s"
| "ws_apply s now rnd (Identity_resolved sid gen frame key i) = identityResolved sid gen frame key i s"
| "ws_apply s now rnd (Message raw) = handleMessage raw now rnd s"
| "ws_apply s now rnd Heartbeat_tick = heartbeatTick now s"
| "ws_apply s now rnd Liveness_fires = (if ws_liveness s = None then s else onLivenessDeadline now rnd s)"
| "ws_apply s now rnd Reconnect_fires = (if ws_reconnect s = None then s else redial now s)"
| "ws_apply s now rnd Gap_fires = gapTimerFires now s"
| "ws_apply s now rnd Wake_signal = (if ws_wakeArmed s then onWakeSignal now s else s)"
| "ws_apply s now rnd (Cert_mismatch host) = handleCertMismatch host s"
| "ws_apply s now rnd Cert_accepted = certAccepted s"

subsection \<open>What each operation leaves alone\<close>

definition closes :: "ws \<Rightarrow> nat set" where
  "closes s = {g. Close_transport g \<in> set (ws_out s)}"

definition dials :: "ws \<Rightarrow> string list" where
  "dials s = concat (map (\<lambda>e. case e of Dial url \<Rightarrow> [url] | _ \<Rightarrow> []) (ws_out s))"

lemma setConn_fields [simp]:
  "ws_cfg (setConn c s) = ws_cfg s"
  "ws_conn (setConn c s) = c"
  "ws_generation (setConn c s) = ws_generation s"
  "ws_reconnect (setConn c s) = ws_reconnect s"
  "ws_liveness (setConn c s) = ws_liveness s"
  "ws_intentionalClose (setConn c s) = ws_intentionalClose s"
  "ws_certBlock (setConn c s) = ws_certBlock s"
  "ws_proxyOpen (setConn c s) = ws_proxyOpen s"
  "closes (setConn c s) = closes s"
  "dials (setConn c s) = dials s"
  by (simp_all add: setConn_def emit_def closes_def dials_def)

lemma emit_fields [simp]:
  "ws_cfg (emit e s) = ws_cfg s"
  "ws_conn (emit e s) = ws_conn s"
  "ws_generation (emit e s) = ws_generation s"
  "ws_reconnect (emit e s) = ws_reconnect s"
  "ws_liveness (emit e s) = ws_liveness s"
  "ws_intentionalClose (emit e s) = ws_intentionalClose s"
  "ws_certBlock (emit e s) = ws_certBlock s"
  "ws_proxyOpen (emit e s) = ws_proxyOpen s"
  by (simp_all add: emit_def)

lemma closes_emit [simp]:
  "closes (emit e s) = (case e of Close_transport g \<Rightarrow> insert g (closes s) | _ \<Rightarrow> closes s)"
  by (cases e) (auto simp: emit_def closes_def)

lemma dials_emit [simp]:
  "dials (emit e s) = dials s @ (case e of Dial url \<Rightarrow> [url] | _ \<Rightarrow> [])"
  by (cases e) (simp_all add: emit_def dials_def)

lemma sendRaw_fields [simp]:
  "ws_cfg (sendRaw fr i s) = ws_cfg s"
  "ws_conn (sendRaw fr i s) = ws_conn s"
  "ws_generation (sendRaw fr i s) = ws_generation s"
  "ws_reconnect (sendRaw fr i s) = ws_reconnect s"
  "ws_liveness (sendRaw fr i s) = ws_liveness s"
  "ws_intentionalClose (sendRaw fr i s) = ws_intentionalClose s"
  "ws_certBlock (sendRaw fr i s) = ws_certBlock s"
  "ws_proxyOpen (sendRaw fr i s) = ws_proxyOpen s"
  "closes (sendRaw fr i s) = closes s"
  "dials (sendRaw fr i s) = dials s"
  by (simp_all add: sendRaw_def split: option.split)

lemma sendRejected_fields [simp]:
  "ws_cfg (sendRejected i err s) = ws_cfg s"
  "ws_conn (sendRejected i err s) = ws_conn s"
  "ws_generation (sendRejected i err s) = ws_generation s"
  "ws_reconnect (sendRejected i err s) = ws_reconnect s"
  "ws_liveness (sendRejected i err s) = ws_liveness s"
  "ws_intentionalClose (sendRejected i err s) = ws_intentionalClose s"
  "ws_certBlock (sendRejected i err s) = ws_certBlock s"
  "ws_proxyOpen (sendRejected i err s) = ws_proxyOpen s"
  "closes (sendRejected i err s) = closes s"
  "dials (sendRejected i err s) = dials s"
  by (simp_all add: sendRejected_def split: option.split)

lemma setLivenessTimer_fields [simp]:
  "ws_cfg (setLivenessTimer d now s) = ws_cfg s"
  "ws_conn (setLivenessTimer d now s) = ws_conn s"
  "ws_generation (setLivenessTimer d now s) = ws_generation s"
  "ws_reconnect (setLivenessTimer d now s) = ws_reconnect s"
  "ws_liveness (setLivenessTimer d now s) = Some (now + d)"
  "ws_intentionalClose (setLivenessTimer d now s) = ws_intentionalClose s"
  "ws_certBlock (setLivenessTimer d now s) = ws_certBlock s"
  "ws_proxyOpen (setLivenessTimer d now s) = ws_proxyOpen s"
  "closes (setLivenessTimer d now s) = closes s"
  "dials (setLivenessTimer d now s) = dials s"
  by (simp_all add: setLivenessTimer_def closes_def dials_def)

lemma armLiveness_fields [simp]:
  "ws_cfg (armLiveness now s) = ws_cfg s"
  "ws_conn (armLiveness now s) = ws_conn s"
  "ws_generation (armLiveness now s) = ws_generation s"
  "ws_reconnect (armLiveness now s) = ws_reconnect s"
  "ws_liveness (armLiveness now s) = Some (now + SERVER_SILENCE_RECONNECT_MS)"
  "ws_intentionalClose (armLiveness now s) = ws_intentionalClose s"
  "ws_certBlock (armLiveness now s) = ws_certBlock s"
  "ws_proxyOpen (armLiveness now s) = ws_proxyOpen s"
  "closes (armLiveness now s) = closes s"
  "dials (armLiveness now s) = dials s"
  by (simp_all add: armLiveness_def, simp_all add: closes_def dials_def)

lemma stopLiveness_fields [simp]:
  "ws_cfg (stopLiveness s) = ws_cfg s"
  "ws_conn (stopLiveness s) = ws_conn s"
  "ws_generation (stopLiveness s) = ws_generation s"
  "ws_reconnect (stopLiveness s) = ws_reconnect s"
  "ws_liveness (stopLiveness s) = None"
  "ws_intentionalClose (stopLiveness s) = ws_intentionalClose s"
  "ws_certBlock (stopLiveness s) = ws_certBlock s"
  "ws_proxyOpen (stopLiveness s) = ws_proxyOpen s"
  "closes (stopLiveness s) = closes s"
  "dials (stopLiveness s) = dials s"
  by (simp_all add: stopLiveness_def closes_def dials_def)

lemma stopHeartbeat_fields [simp]:
  "ws_cfg (stopHeartbeat s) = ws_cfg s"
  "ws_conn (stopHeartbeat s) = ws_conn s"
  "ws_generation (stopHeartbeat s) = ws_generation s"
  "ws_reconnect (stopHeartbeat s) = ws_reconnect s"
  "ws_liveness (stopHeartbeat s) = ws_liveness s"
  "ws_intentionalClose (stopHeartbeat s) = ws_intentionalClose s"
  "ws_certBlock (stopHeartbeat s) = ws_certBlock s"
  "ws_proxyOpen (stopHeartbeat s) = ws_proxyOpen s"
  "closes (stopHeartbeat s) = closes s"
  "dials (stopHeartbeat s) = dials s"
  by (simp_all add: stopHeartbeat_def closes_def dials_def)

lemma startHeartbeat_fields [simp]:
  "ws_cfg (startHeartbeat now s) = ws_cfg s"
  "ws_conn (startHeartbeat now s) = ws_conn s"
  "ws_generation (startHeartbeat now s) = ws_generation s"
  "ws_reconnect (startHeartbeat now s) = ws_reconnect s"
  "ws_liveness (startHeartbeat now s) = ws_liveness s"
  "ws_intentionalClose (startHeartbeat now s) = ws_intentionalClose s"
  "ws_certBlock (startHeartbeat now s) = ws_certBlock s"
  "ws_proxyOpen (startHeartbeat now s) = ws_proxyOpen s"
  "closes (startHeartbeat now s) = closes s"
  "dials (startHeartbeat now s) = dials s"
  by (simp_all add: startHeartbeat_def stopHeartbeat_def closes_def dials_def)

lemma notePing_fields [simp]:
  "ws_cfg (notePing now s) = ws_cfg s"
  "ws_conn (notePing now s) = ws_conn s"
  "ws_generation (notePing now s) = ws_generation s"
  "ws_reconnect (notePing now s) = ws_reconnect s"
  "ws_liveness (notePing now s) = ws_liveness s"
  "ws_intentionalClose (notePing now s) = ws_intentionalClose s"
  "ws_certBlock (notePing now s) = ws_certBlock s"
  "ws_proxyOpen (notePing now s) = ws_proxyOpen s"
  "closes (notePing now s) = closes s"
  "dials (notePing now s) = dials s"
  by (simp_all add: notePing_def closes_def dials_def)

lemma cancelGapResume_fields [simp]:
  "ws_cfg (cancelGapResume s) = ws_cfg s"
  "ws_conn (cancelGapResume s) = ws_conn s"
  "ws_generation (cancelGapResume s) = ws_generation s"
  "ws_reconnect (cancelGapResume s) = ws_reconnect s"
  "ws_liveness (cancelGapResume s) = ws_liveness s"
  "ws_intentionalClose (cancelGapResume s) = ws_intentionalClose s"
  "ws_certBlock (cancelGapResume s) = ws_certBlock s"
  "ws_proxyOpen (cancelGapResume s) = ws_proxyOpen s"
  "closes (cancelGapResume s) = closes s"
  "dials (cancelGapResume s) = dials s"
  by (simp_all add: cancelGapResume_def closes_def dials_def)

lemma armWakeListeners_fields [simp]:
  "ws_cfg (armWakeListeners s) = ws_cfg s"
  "ws_conn (armWakeListeners s) = ws_conn s"
  "ws_generation (armWakeListeners s) = ws_generation s"
  "ws_reconnect (armWakeListeners s) = ws_reconnect s"
  "ws_liveness (armWakeListeners s) = ws_liveness s"
  "ws_intentionalClose (armWakeListeners s) = ws_intentionalClose s"
  "ws_certBlock (armWakeListeners s) = ws_certBlock s"
  "ws_proxyOpen (armWakeListeners s) = ws_proxyOpen s"
  "closes (armWakeListeners s) = closes s"
  "dials (armWakeListeners s) = dials s"
  by (simp_all add: armWakeListeners_def closes_def dials_def)

lemma stopWakeListeners_fields [simp]:
  "ws_cfg (stopWakeListeners s) = ws_cfg s"
  "ws_conn (stopWakeListeners s) = ws_conn s"
  "ws_generation (stopWakeListeners s) = ws_generation s"
  "ws_reconnect (stopWakeListeners s) = ws_reconnect s"
  "ws_liveness (stopWakeListeners s) = ws_liveness s"
  "ws_intentionalClose (stopWakeListeners s) = ws_intentionalClose s"
  "ws_certBlock (stopWakeListeners s) = ws_certBlock s"
  "ws_proxyOpen (stopWakeListeners s) = ws_proxyOpen s"
  "closes (stopWakeListeners s) = closes s"
  "dials (stopWakeListeners s) = dials s"
  by (simp_all add: stopWakeListeners_def closes_def dials_def)

lemma noteSuspendGap_fields [simp]:
  "ws_cfg (noteSuspendGap now s) = ws_cfg s"
  "ws_conn (noteSuspendGap now s) = ws_conn s"
  "ws_generation (noteSuspendGap now s) = ws_generation s"
  "ws_reconnect (noteSuspendGap now s) = ws_reconnect s"
  "ws_liveness (noteSuspendGap now s) = ws_liveness s"
  "ws_intentionalClose (noteSuspendGap now s) = ws_intentionalClose s"
  "ws_certBlock (noteSuspendGap now s) = ws_certBlock s"
  "ws_proxyOpen (noteSuspendGap now s) = ws_proxyOpen s"
  "closes (noteSuspendGap now s) = closes s"
  "dials (noteSuspendGap now s) = dials s"
  by (simp_all add: noteSuspendGap_def Let_def closes_def dials_def)

lemma noteSeq_fields [simp]:
  "ws_cfg (noteSeq sq s) = ws_cfg s"
  "ws_conn (noteSeq sq s) = ws_conn s"
  "ws_generation (noteSeq sq s) = ws_generation s"
  "ws_reconnect (noteSeq sq s) = ws_reconnect s"
  "ws_liveness (noteSeq sq s) = ws_liveness s"
  "ws_intentionalClose (noteSeq sq s) = ws_intentionalClose s"
  "ws_certBlock (noteSeq sq s) = ws_certBlock s"
  "ws_proxyOpen (noteSeq sq s) = ws_proxyOpen s"
  "closes (noteSeq sq s) = closes s"
  "dials (noteSeq sq s) = dials s"
  by (simp_all add: noteSeq_def Let_def closes_def dials_def)

lemma noteCseq_fields [simp]:
  "ws_cfg (noteCseq c now rnd s) = ws_cfg s"
  "ws_conn (noteCseq c now rnd s) = ws_conn s"
  "ws_generation (noteCseq c now rnd s) = ws_generation s"
  "ws_reconnect (noteCseq c now rnd s) = ws_reconnect s"
  "ws_liveness (noteCseq c now rnd s) = ws_liveness s"
  "ws_intentionalClose (noteCseq c now rnd s) = ws_intentionalClose s"
  "ws_certBlock (noteCseq c now rnd s) = ws_certBlock s"
  "ws_proxyOpen (noteCseq c now rnd s) = ws_proxyOpen s"
  "closes (noteCseq c now rnd s) = closes s"
  "dials (noteCseq c now rnd s) = dials s"
  by (simp_all add: noteCseq_def Let_def closes_def dials_def split: prod.split)

lemma onServerRestart_fields [simp]:
  "ws_cfg (onServerRestart d sp now rnd s) = ws_cfg s"
  "ws_conn (onServerRestart d sp now rnd s) = ws_conn s"
  "ws_generation (onServerRestart d sp now rnd s) = ws_generation s"
  "ws_reconnect (onServerRestart d sp now rnd s) = ws_reconnect s"
  "ws_liveness (onServerRestart d sp now rnd s) = ws_liveness s"
  "ws_intentionalClose (onServerRestart d sp now rnd s) = ws_intentionalClose s"
  "ws_certBlock (onServerRestart d sp now rnd s) = ws_certBlock s"
  "ws_proxyOpen (onServerRestart d sp now rnd s) = ws_proxyOpen s"
  "closes (onServerRestart d sp now rnd s) = closes s"
  "dials (onServerRestart d sp now rnd s) = dials s"
  by (simp_all add: onServerRestart_def Let_def closes_def dials_def)

lemma cancelReconnect_fields [simp]:
  "ws_cfg (cancelReconnect s) = ws_cfg s"
  "ws_conn (cancelReconnect s) = ws_conn s"
  "ws_generation (cancelReconnect s) = ws_generation s"
  "ws_reconnect (cancelReconnect s) = None"
  "ws_liveness (cancelReconnect s) = ws_liveness s"
  "ws_intentionalClose (cancelReconnect s) = ws_intentionalClose s"
  "ws_certBlock (cancelReconnect s) = ws_certBlock s"
  "ws_proxyOpen (cancelReconnect s) = ws_proxyOpen s"
  "closes (cancelReconnect s) = closes s"
  "dials (cancelReconnect s) = dials s"
  by (simp_all add: cancelReconnect_def closes_def dials_def)

lemma connect_fields [simp]:
  "ws_cfg (connect cfg tk now s) = Some cfg"
  "ws_conn (connect cfg tk now s) = Connecting"
  "ws_generation (connect cfg tk now s) = Suc (ws_generation s)"
  "ws_reconnect (connect cfg tk now s) = None"
  "ws_liveness (connect cfg tk now s) = None"
  "ws_intentionalClose (connect cfg tk now s) = False"
  "ws_certBlock (connect cfg tk now s) = False"
  "ws_proxyOpen (connect cfg tk now s) = ws_proxyOpen s"
  "closes (connect cfg tk now s) = closes s"
  "dials (connect cfg tk now s) = dials s @ [wsUrlFor (wc_host cfg)]"
  by (simp_all add: connect_def Let_def, simp_all add: closes_def dials_def)

definition wants :: "ws \<Rightarrow> bool" where
  "wants s \<longleftrightarrow> ws_cfg s \<noteq> None \<and> \<not> ws_intentionalClose s \<and> \<not> ws_certBlock s"

lemma closes_update [simp]: "closes (s\<lparr>ws_cfg := a\<rparr>) = closes s" "closes (s\<lparr>ws_reconnect := b\<rparr>) = closes s"
  "closes (s\<lparr>ws_liveness := c\<rparr>) = closes s" "closes (s\<lparr>ws_proxyOpen := d\<rparr>) = closes s"
  "closes (s\<lparr>ws_intentionalClose := e\<rparr>) = closes s" "closes (s\<lparr>ws_certBlock := e\<rparr>) = closes s"
  "closes (s\<lparr>ws_heartbeat := f\<rparr>) = closes s" "closes (s\<lparr>ws_lastActivityAt := g\<rparr>) = closes s"
  "closes (s\<lparr>ws_pendingWake := e\<rparr>) = closes s" "closes (s\<lparr>ws_attempt := h\<rparr>) = closes s"
  "closes (s\<lparr>ws_lastSeq := i\<rparr>) = closes s" "closes (s\<lparr>ws_busyRetryAfterMs := f\<rparr>) = closes s"
  "closes (s\<lparr>ws_busyHold := e\<rparr>) = closes s" "closes (s\<lparr>ws_lastWakeKickAt := f\<rparr>) = closes s"
  "closes (s\<lparr>ws_gapTimer := j\<rparr>) = closes s" "closes (s\<lparr>ws_gapStreak := h\<rparr>) = closes s"
  "closes (s\<lparr>ws_lastGapResumeAt := f\<rparr>) = closes s" "closes (s\<lparr>ws_failureCode := k\<rparr>) = closes s"
  "closes (s\<lparr>ws_socketId := h\<rparr>) = closes s" "closes (s\<lparr>ws_lastCseq := i\<rparr>) = closes s"
  "closes (s\<lparr>ws_generation := h\<rparr>) = closes s" "closes (s\<lparr>ws_restartRedialAt := f\<rparr>) = closes s"
  by (simp_all add: closes_def)

lemma dials_update [simp]: "dials (s\<lparr>ws_cfg := a\<rparr>) = dials s" "dials (s\<lparr>ws_reconnect := b\<rparr>) = dials s"
  "dials (s\<lparr>ws_liveness := c\<rparr>) = dials s" "dials (s\<lparr>ws_proxyOpen := d\<rparr>) = dials s"
  "dials (s\<lparr>ws_intentionalClose := e\<rparr>) = dials s" "dials (s\<lparr>ws_certBlock := e\<rparr>) = dials s"
  "dials (s\<lparr>ws_heartbeat := f\<rparr>) = dials s" "dials (s\<lparr>ws_lastActivityAt := g\<rparr>) = dials s"
  "dials (s\<lparr>ws_pendingWake := e\<rparr>) = dials s" "dials (s\<lparr>ws_attempt := h\<rparr>) = dials s"
  "dials (s\<lparr>ws_lastSeq := i\<rparr>) = dials s" "dials (s\<lparr>ws_busyRetryAfterMs := f\<rparr>) = dials s"
  "dials (s\<lparr>ws_busyHold := e\<rparr>) = dials s" "dials (s\<lparr>ws_lastWakeKickAt := f\<rparr>) = dials s"
  "dials (s\<lparr>ws_gapTimer := j\<rparr>) = dials s" "dials (s\<lparr>ws_gapStreak := h\<rparr>) = dials s"
  "dials (s\<lparr>ws_lastGapResumeAt := f\<rparr>) = dials s" "dials (s\<lparr>ws_failureCode := k\<rparr>) = dials s"
  "dials (s\<lparr>ws_socketId := h\<rparr>) = dials s" "dials (s\<lparr>ws_lastCseq := i\<rparr>) = dials s"
  "dials (s\<lparr>ws_generation := h\<rparr>) = dials s" "dials (s\<lparr>ws_restartRedialAt := f\<rparr>) = dials s"
  by (simp_all add: dials_def)

lemma scheduleReconnect_idle: "\<not> wants s \<Longrightarrow> scheduleReconnect r now rnd s = s"
  by (auto simp: scheduleReconnect_def wants_def)

lemma scheduleReconnect_fields [simp]:
  "ws_cfg (scheduleReconnect r now rnd s) = ws_cfg s"
  "ws_generation (scheduleReconnect r now rnd s) = ws_generation s"
  "ws_liveness (scheduleReconnect r now rnd s) = ws_liveness s"
  "ws_intentionalClose (scheduleReconnect r now rnd s) = ws_intentionalClose s"
  "ws_certBlock (scheduleReconnect r now rnd s) = ws_certBlock s"
  "ws_proxyOpen (scheduleReconnect r now rnd s) = ws_proxyOpen s"
  "closes (scheduleReconnect r now rnd s) = closes s"
  "dials (scheduleReconnect r now rnd s) = dials s"
  "ws_conn (scheduleReconnect r now rnd s) =
     (if wants s \<and> ws_reconnect s = None then Reconnecting else ws_conn s)"
  "(ws_reconnect (scheduleReconnect r now rnd s) = None) = (\<not> wants s \<and> ws_reconnect s = None)"
  by (auto simp: scheduleReconnect_def wants_def Let_def)

lemma onWake_fields [simp]:
  "ws_cfg (onWake now s) = ws_cfg s" "ws_conn (onWake now s) = ws_conn s"
  "ws_generation (onWake now s) = ws_generation s" "ws_reconnect (onWake now s) = ws_reconnect s"
  "ws_intentionalClose (onWake now s) = ws_intentionalClose s" "ws_certBlock (onWake now s) = ws_certBlock s"
  "ws_proxyOpen (onWake now s) = ws_proxyOpen s" "closes (onWake now s) = closes s" "dials (onWake now s) = dials s"
  "(ws_liveness (onWake now s) = None) = (ws_liveness s = None \<and> \<not> (ws_conn s = Connected \<and> ws_proxyOpen s))"
  by (auto simp: onWake_def)

lemma heartbeatTick_fields [simp]:
  "ws_cfg (heartbeatTick now s) = ws_cfg s" "ws_conn (heartbeatTick now s) = ws_conn s"
  "ws_generation (heartbeatTick now s) = ws_generation s" "ws_reconnect (heartbeatTick now s) = ws_reconnect s"
  "ws_intentionalClose (heartbeatTick now s) = ws_intentionalClose s"
  "ws_certBlock (heartbeatTick now s) = ws_certBlock s" "ws_proxyOpen (heartbeatTick now s) = ws_proxyOpen s"
  "closes (heartbeatTick now s) = closes s" "dials (heartbeatTick now s) = dials s"
  by (simp_all add: heartbeatTick_def handleWakeSignal_def Let_def split: option.split)

lemma heartbeatTick_liveness: "ws_liveness (heartbeatTick now s) = None \<Longrightarrow> ws_liveness s = None"
  by (auto simp: heartbeatTick_def handleWakeSignal_def Let_def split: option.splits if_splits)

lemma redial_fields [simp]:
  "ws_cfg (redial now s) = ws_cfg s"
  "ws_conn (redial now s) = (if ws_cfg s = None then Disconnected else Connecting)"
  "ws_generation (redial now s) = (if ws_cfg s = None then ws_generation s else Suc (ws_generation s))"
  "ws_reconnect (redial now s) = None"
  "ws_intentionalClose (redial now s) = (ws_cfg s = None \<and> ws_intentionalClose s)"
  "ws_certBlock (redial now s) = (ws_cfg s = None \<and> ws_certBlock s)"
  "ws_proxyOpen (redial now s) = ws_proxyOpen s"
  "closes (redial now s) = closes s"
  "dials (redial now s) = dials s @ (case ws_cfg s of None \<Rightarrow> [] | Some cfg \<Rightarrow> [wsUrlFor (wc_host cfg)])"
  by (simp_all add: redial_def Let_def split: option.split)

subsection \<open>The invariant\<close>

text \<open>What the transport and the server promise: the socket opens for a dial under way, a dial is refused
  while it is under way, a settled close was asked for, a login is accepted in answer to the auth frame,
  and no refusal comes from a socket that was given up.\<close>

fun ws_event_ok :: "ws \<Rightarrow> ws_event \<Rightarrow> bool" where
  "ws_event_ok s (Transport_open env) = (ws_conn s = Connecting)"
| "ws_event_ok s (Dial_rejected gen) = (ws_conn s = Connecting)"
| "ws_event_ok s (Proxy_closed gen) = (gen \<in> closes s)"
| "ws_event_ok s (Message (Some p)) = (case in_type p of
     Some (Auth_ok r) \<Rightarrow> ws_conn s = Authenticating
   | Some Auth_error \<Rightarrow> ws_reconnect s = None
   | _ \<Rightarrow> True)"
| "ws_event_ok s _ = True"

definition ws_ok :: "ws \<Rightarrow> bool" where
  "ws_ok s \<longleftrightarrow> (ws_conn s \<noteq> Disconnected \<longrightarrow> wants s) \<and>
     (ws_reconnect s \<noteq> None \<longleftrightarrow> ws_conn s = Reconnecting) \<and>
     (ws_conn s \<in> {Authenticating, Connected} \<longrightarrow> ws_proxyOpen s) \<and>
     (ws_conn s = Connected \<longrightarrow> ws_liveness s \<noteq> None) \<and>
     (\<forall>g \<in> closes s. g < ws_generation s \<or> g = ws_generation s \<and> ws_intentionalClose s)"

lemma ws_ok_init: "ws_ok (createWsClient now)"
  by (simp add: ws_ok_def createWsClient_def closes_def)

lemma connect_ok: "ws_ok s \<Longrightarrow> ws_ok (connect cfg takeover now s)"
  by (fastforce simp: ws_ok_def wants_def)

lemma redial_ok:
  assumes "ws_cfg s \<noteq> None" and "\<forall>g \<in> closes s. g \<le> ws_generation s"
  shows "ws_ok (redial now s)"
  using assms by (auto simp: ws_ok_def wants_def less_Suc_eq_le)

lemma ws_ok_closes: "ws_ok s \<Longrightarrow> \<forall>g \<in> closes s. g \<le> ws_generation s"
  by (auto simp: ws_ok_def)

lemma disconnect_ok: "ws_ok s \<Longrightarrow> ws_ok (disconnect s)"
  by (fastforce simp: ws_ok_def wants_def disconnect_def disconnectProxy_def Let_def)

lemma onLivenessDeadline_ok: "ws_ok s \<Longrightarrow> ws_ok (onLivenessDeadline now rnd s)"
  by (auto simp: ws_ok_def wants_def onLivenessDeadline_def Let_def)

lemma transportClosed_fields [simp]:
  "ws_cfg (transportClosed r code now rnd s) = ws_cfg s"
  "ws_generation (transportClosed r code now rnd s) = ws_generation s"
  "ws_liveness (transportClosed r code now rnd s) = None"
  "ws_intentionalClose (transportClosed r code now rnd s) = ws_intentionalClose s"
  "ws_certBlock (transportClosed r code now rnd s) = ws_certBlock s"
  "\<not> ws_proxyOpen (transportClosed r code now rnd s)"
  "closes (transportClosed r code now rnd s) = closes s"
  "dials (transportClosed r code now rnd s) = dials s"
  "ws_conn (transportClosed r code now rnd s) = (if ws_intentionalClose s then Disconnected
     else if wants s \<and> ws_reconnect s = None then Reconnecting else ws_conn s)"
  "(ws_reconnect (transportClosed r code now rnd s) = None) = (\<not> wants s \<and> ws_reconnect s = None)"
  by (simp_all add: transportClosed_def Let_def wants_def)

lemma transportClosed_ok:
  assumes "ws_ok s"
  shows "ws_ok (transportClosed r code now rnd s)"
proof (cases "wants s")
  case True
  with assms show ?thesis by (cases "ws_reconnect s") (auto simp: ws_ok_def wants_def)
next
  case False
  with assms have "ws_conn s = Disconnected" "ws_reconnect s = None" by (auto simp: ws_ok_def)
  with assms False show ?thesis by (auto simp: ws_ok_def wants_def)
qed

lemma resumeForGap_ok:
  assumes "ws_ok s"
  shows "ws_ok (resumeForGap now s)"
  unfolding resumeForGap_def Let_def using assms ws_ok_closes [OF assms] by (simp add: redial_ok)

lemma gapTimerFires_ok: "ws_ok s \<Longrightarrow> ws_ok (gapTimerFires now s)"
proof -
  assume "ws_ok s"
  then have "ws_ok (s\<lparr>ws_gapTimer := None\<rparr>)" by (simp add: ws_ok_def wants_def)
  then show ?thesis by (auto simp: gapTimerFires_def Let_def resumeForGap_ok \<open>ws_ok s\<close> split: option.split)
qed

lemma onWake_ok: "ws_ok s \<Longrightarrow> ws_ok (onWake now s)"
  by (simp add: ws_ok_def wants_def)

lemma onWakeSignal_ok:
  assumes "ws_ok s"
  shows "ws_ok (onWakeSignal now s)"
  unfolding onWakeSignal_def using assms ws_ok_closes [OF assms] by (simp add: redial_ok onWake_ok)

lemma handleFrame_ok:
  assumes "ws_ok s" and "ws_liveness s \<noteq> None"
    and "\<And>r. fr = Auth_ok r \<Longrightarrow> ws_conn s = Authenticating" and "fr = Auth_error \<Longrightarrow> ws_reconnect s = None"
  shows "ws_ok (handleFrame fr now rnd s)"
  using assms
  by (cases fr) (auto simp: ws_ok_def wants_def handleFrame_def onAuthOk_def disconnectProxy_def Let_def)

lemma handleMessage_ok:
  assumes "ws_ok s" and "ws_event_ok s (Message raw)"
  shows "ws_ok (handleMessage raw now rnd s)"
proof (cases raw)
  case (Some p)
  let ?s1 = "noteSuspendGap now (armLiveness now s)"
  let ?s2 = "case in_cseq p of None \<Rightarrow> ?s1 | Some c \<Rightarrow> noteCseq c now rnd ?s1"
  have fields: "ws_conn ?s2 = ws_conn s" "ws_reconnect ?s2 = ws_reconnect s" "ws_liveness ?s2 \<noteq> None" "ws_ok ?s2"
    using assms(1) by (auto simp: ws_ok_def wants_def split: option.split)
  have s3: "ws_ok (noteSeq (in_seq p) ?s2)" "ws_liveness (noteSeq (in_seq p) ?s2) \<noteq> None"
    "ws_conn (noteSeq (in_seq p) ?s2) = ws_conn s" "ws_reconnect (noteSeq (in_seq p) ?s2) = ws_reconnect s"
    using fields by (auto simp: ws_ok_def wants_def)
  have emit: "ws_ok t \<Longrightarrow> ws_ok (emit Pong_seen t)" for t by (simp add: ws_ok_def wants_def)
  have "ws_ok (handleFrame fr now rnd (noteSeq (in_seq p) ?s2))" if "in_type p = Some fr" for fr
    by (rule handleFrame_ok [OF s3(1,2)]) (use assms(2) Some that s3(3,4) in \<open>auto split: frame_type.splits\<close>)
  with fields(4) s3(1) emit show ?thesis
    by (auto simp: handleMessage_def Some Let_def split: option.split)
qed (simp add: handleMessage_def assms(1))

lemma transportOpen_fields [simp]:
  "ws_cfg (transportOpen env s) = ws_cfg s" "ws_conn (transportOpen env s) = Authenticating"
  "ws_generation (transportOpen env s) = ws_generation s" "ws_reconnect (transportOpen env s) = ws_reconnect s"
  "ws_liveness (transportOpen env s) = ws_liveness s" "ws_proxyOpen (transportOpen env s)"
  "ws_intentionalClose (transportOpen env s) = ws_intentionalClose s"
  "ws_certBlock (transportOpen env s) = ws_certBlock s"
  "closes (transportOpen env s) = closes s" "dials (transportOpen env s) = dials s"
  by (simp_all add: transportOpen_def Let_def split: option.split)

lemma ws_apply_ok:
  assumes "ws_ok s" and "ws_event_ok s ev"
  shows "ws_ok (ws_apply s now rnd ev)"
proof (cases ev)
  case (Transport_open env)
  with assms show ?thesis by (auto simp: ws_ok_def wants_def)
next
  case (Dial_rejected gen)
  with assms show ?thesis by (auto simp: ws_ok_def wants_def dialRejected_def)
next
  case (Proxy_closed gen)
  with assms show ?thesis by (auto simp: ws_ok_def wants_def proxyClosed_def)
next
  case Heartbeat_tick
  with assms show ?thesis using heartbeatTick_liveness [of now s] by (auto simp: ws_ok_def wants_def)
next
  case Reconnect_fires
  with assms ws_ok_closes [OF assms(1)] show ?thesis
    by (auto simp: ws_ok_def [of s] wants_def intro: redial_ok)
next
  case (Cert_mismatch host)
  with assms show ?thesis
    by (auto simp: ws_ok_def wants_def handleCertMismatch_def Let_def split: option.split)
next
  case Cert_accepted
  with assms show ?thesis by (auto simp: ws_ok_def wants_def certAccepted_def)
next
  case (Identity_resolved sid gen frame key i)
  with assms show ?thesis by (auto simp: ws_ok_def wants_def identityResolved_def)
next
  case (Send i msg)
  with assms show ?thesis by (simp add: ws_ok_def wants_def)
next
  case (Send_rejected i err)
  with assms show ?thesis by (simp add: ws_ok_def wants_def)
qed (use assms in \<open>simp_all add: connect_ok disconnect_ok transportClosed_ok onLivenessDeadline_ok gapTimerFires_ok
      onWakeSignal_ok handleMessage_ok del: ws_event_ok.simps\<close>)

text \<open>Runs of the client: each event with the clock's reading and a random sample.\<close>

inductive ws_step :: "ws \<Rightarrow> rat \<times> rat \<times> ws_event \<Rightarrow> ws \<Rightarrow> bool" where
  ws_step_intro: "ws_event_ok s ev \<Longrightarrow> ws_step s (now, rnd, ev) (ws_apply s now rnd ev)"

inductive_cases ws_stepE: "ws_step s a s'"

interpretation wsc: invariant_system ws_step "createWsClient now" ws_ok
  for now
  by unfold_locales (auto simp: ws_ok_init elim!: ws_stepE intro: ws_apply_ok)

subsection \<open>Blocked and eager clients\<close>


fun user_dial :: "ws_event \<Rightarrow> bool" where
  "user_dial (Connect cfg takeover) = True"
| "user_dial Cert_accepted = True"
| "user_dial ev = False"

lemma handleFrame_fields [simp]:
  "ws_cfg (handleFrame fr now rnd s) = ws_cfg s" "ws_certBlock (handleFrame fr now rnd s) = ws_certBlock s"
  "ws_intentionalClose (handleFrame fr now rnd s) = (fr = Auth_error \<or> ws_intentionalClose s)"
  "dials (handleFrame fr now rnd s) = dials s"
  "ws_conn (handleFrame fr now rnd s) = (case fr of Auth_error \<Rightarrow> Disconnected | Auth_ok _ \<Rightarrow> Connected | _ \<Rightarrow> ws_conn s)"
  by (cases fr; simp add: handleFrame_def onAuthOk_def disconnectProxy_def Let_def)+

text \<open>The effect of a frame on the fields that decide whether the client may dial.\<close>

lemma handleMessage_view:
  "ws_cfg (handleMessage raw now rnd s) = ws_cfg s"
  "ws_certBlock (handleMessage raw now rnd s) = ws_certBlock s"
  "ws_intentionalClose s \<Longrightarrow> ws_intentionalClose (handleMessage raw now rnd s)"
  "dials (handleMessage raw now rnd s) = dials s"
  "ws_conn (handleMessage raw now rnd s) = Disconnected \<Longrightarrow>
     ws_conn s = Disconnected \<or> ws_intentionalClose (handleMessage raw now rnd s)"
  by (auto simp: handleMessage_def Let_def split: option.split frame_type.splits if_splits)

lemma blocked_apply:
  assumes "ws_ok s" and "\<not> wants s" and "\<not> user_dial ev"
  shows "\<not> wants (ws_apply s now rnd ev) \<and> dials (ws_apply s now rnd ev) = dials s"
proof -
  have off: "ws_conn s = Disconnected" "ws_reconnect s = None" using assms(1,2) by (auto simp: ws_ok_def)
  note blocked = assms(2) [unfolded wants_def]
  show ?thesis
  proof (cases ev)
    case (Message raw)
    then show ?thesis using blocked handleMessage_view(1-4) [where raw = raw and now = now and rnd = rnd and s = s] by (auto simp: wants_def)
  next
    case Gap_fires
    then show ?thesis using blocked
      by (auto simp: wants_def gapTimerFires_def resumeForGap_def Let_def split: option.split)
  next
    case (Cert_mismatch host)
    then show ?thesis using blocked
      by (auto simp: wants_def handleCertMismatch_def Let_def split: option.split)
  qed (use off blocked assms(3) in \<open>auto simp: wants_def disconnect_def disconnectProxy_def dialRejected_def
      proxyClosed_def identityResolved_def onLivenessDeadline_def onWakeSignal_def Let_def\<close>)
qed


lemma blocked_run:
  assumes "runs ws_step s evs s'" and "ws_ok s" and "\<not> wants s" and "list_all (\<lambda>(_, _, ev). \<not> user_dial ev) evs"
  shows "\<not> wants s' \<and> dials s' = dials s"
  using assms
proof (induction rule: runs.induct)
  case (runs_Cons s a t as u)
  from runs_Cons.hyps(1) obtain now rnd ev where a: "a = (now, rnd, ev)" "t = ws_apply s now rnd ev" "ws_event_ok s ev"
    by (cases rule: ws_stepE) auto
  with runs_Cons.prems have "\<not> user_dial ev" by simp
  from blocked_apply [OF runs_Cons.prems(1,2) this, of now rnd] a
  have t: "\<not> wants t" "dials t = dials s" by simp_all
  have "ws_ok t" using a runs_Cons.prems(1) by (simp add: ws_apply_ok)
  with runs_Cons t show ?case by simp
qed simp


subsection \<open>Properties\<close>

lemma runs_ws_one: "ws_event_ok s ev \<Longrightarrow> runs ws_step s [(now, rnd, ev)] (ws_apply s now rnd ev)"
  by (rule runs_Cons, rule ws_step_intro, assumption, rule runs_Nil)

definition sample_cfg :: ws_config where
  "sample_cfg = \<lparr>wc_host = ''chat.example'', wc_token = ''t'', wc_maxReconnectDelayMs = None, wc_maxMessageSizeBytes = None\<rparr>"

definition sample_dialling :: ws where
  "sample_dialling = ws_apply (createWsClient 0) 0 0 (Connect sample_cfg False)"

definition sample_waiting :: ws where
  "sample_waiting = ws_apply sample_dialling 100 0 (Transport_closed None None)"

lemma sample_waiting_runs:
  "runs ws_step (createWsClient 0) [(0, 0, Connect sample_cfg False), (100, 0, Transport_closed None None)] sample_waiting"
proof -
  have "ws_step (createWsClient 0) (0, 0, Connect sample_cfg False) sample_dialling"
    unfolding sample_dialling_def by (rule ws_step_intro) simp
  moreover have "ws_step sample_dialling (100, 0, Transport_closed None None) sample_waiting"
    unfolding sample_waiting_def by (rule ws_step_intro) simp
  ultimately show ?thesis by (intro runs_Cons [OF _ runs_Cons [OF _ runs_Nil]])
qed

lemma sample_waiting_facts: "wants sample_waiting" "ws_conn sample_waiting = Reconnecting"
  "ws_cfg sample_waiting = Some sample_cfg" "dials sample_waiting = [wsUrlFor ''chat.example'']"
  by (simp_all add: sample_waiting_def sample_dialling_def wants_def sample_cfg_def)
    (simp_all add: createWsClient_def dials_def)



text \<open>C26: A stopped client stays stopped: after a logout, a refused login or a changed certificate, no
  frame, timer, wake signal or transport report makes it dial again; only a new connect does, or the
  user's acceptance of the certificate followed by one.\<close>

theorem ws_stopped_never_dials:
  assumes "runs ws_step (createWsClient t0) evs s" and "\<not> wants s"
    and "runs ws_step s later s'" and "list_all (\<lambda>(_, _, ev). \<not> user_dial ev) later"
  shows "dials s' = dials s \<and> \<not> wants s'"
  using blocked_run [OF assms(3) wsc.reachable_inv [OF assms(1)] assms(2,4)] by blast

theorem ws_stopped_never_dials_witness:
  "\<exists>s s'. runs ws_step (createWsClient 0) [(0, 0, Connect sample_cfg False), (100, 0, Transport_closed None None),
        (200, 0, Cert_mismatch ''chat.example'')] s \<and>
     runs ws_step s [(3000, 0, Reconnect_fires), (4000, 0, Wake_signal)] s' \<and> dials s' = dials s"
proof -
  let ?s = "ws_apply sample_waiting 200 0 (Cert_mismatch ''chat.example'')"
  have s: "runs ws_step (createWsClient 0) [(0, 0, Connect sample_cfg False), (100, 0, Transport_closed None None),
      (200, 0, Cert_mismatch ''chat.example'')] ?s"
    using runs_append [OF sample_waiting_runs runs_ws_one, of "Cert_mismatch ''chat.example''" 200 0] by simp
  let ?t = "ws_apply ?s 3000 0 Reconnect_fires"
  have t: "runs ws_step ?s [(3000, 0, Reconnect_fires), (4000, 0, Wake_signal)] (ws_apply ?t 4000 0 Wake_signal)"
    using runs_append [OF runs_ws_one runs_ws_one, of ?s Reconnect_fires 3000 0 Wake_signal 4000 0] by simp
  have "normalizeHostForCertCompare ''chat.example'' = ''chat.example''" by code_simp
  then have "\<not> wants ?s"
    using sample_waiting_facts by (simp add: wants_def handleCertMismatch_def Let_def sample_cfg_def)
  from ws_stopped_never_dials [OF s this t] s t show ?thesis by auto
qed


definition sample_open_env :: open_env where
  "sample_open_env = \<lparr>oe_activeChannel = None, oe_identity = False, oe_android = False, oe_frameId = ''f''\<rparr>"

definition sample_frame :: "frame_type \<Rightarrow> int option \<Rightarrow> inbound" where
  "sample_frame t sq = \<lparr>in_type = Some t, in_has_payload = True, in_seq = sq, in_cseq = None, in_size = 10\<rparr>"

definition sample_open :: ws where
  "sample_open = ws_apply sample_dialling 10 0 (Transport_open sample_open_env)"

definition sample_live :: ws where
  "sample_live = ws_apply sample_open 20 0 (Message (Some (sample_frame (Auth_ok None) None)))"

definition sample_pinged :: ws where
  "sample_pinged = ws_apply sample_live 30020 0 Heartbeat_tick"


lemmas sample_defs = sample_pinged_def sample_live_def sample_open_def sample_dialling_def sample_cfg_def
  sample_open_env_def sample_frame_def createWsClient_def connect_def transportOpen_def sendRaw_def handleMessage_def
  handleFrame_def onAuthOk_def heartbeatTick_def handleWakeSignal_def notePing_def setConn_def emit_def
  noteSuspendGap_def armLiveness_def setLivenessTimer_def noteSeq_def startHeartbeat_def stopHeartbeat_def
  armWakeListeners_def stopLiveness_def cancelGapResume_def cancelReconnect_def exempt_def alt_def Let_def
  WAKE_GAP_MS_def HEARTBEAT_INTERVAL_MS_def DEFAULT_MAX_MESSAGE_SIZE_def



text \<open>The backoff is bounded from both sides: a redial waits at least half of the exponential step
  and at least the server's hint, at most the configured maximum, and without a hint at most the step.\<close>

theorem reconnect_delay_bounds:
  assumes "wants s" and "ws_reconnect s = None" and "ws_restartRedialAt s = None" and "ws_busyRetryAfterMs s = None"
    and "maxDelay = nullish (Option.bind (ws_cfg s) wc_maxReconnectDelayMs) DEFAULT_MAX_RECONNECT_DELAY"
    and "0 \<le> maxDelay" and "0 \<le> rnd" and "rnd \<le> 1" and "\<forall>h. hint = Some h \<longrightarrow> 0 \<le> h"
  shows "\<exists>d. ws_reconnect (scheduleReconnect hint now rnd s) = Some (now + d) \<and>
    min (1000 * 2 ^ ws_attempt s) maxDelay / 2 \<le> d \<and> d \<le> maxDelay \<and>
    (\<forall>h. hint = Some h \<longrightarrow> min h maxDelay \<le> d) \<and>
    (hint = None \<longrightarrow> d \<le> min (1000 * 2 ^ ws_attempt s) maxDelay)"
proof -
  define step where "step = min (1000 * 2 ^ ws_attempt s) maxDelay"
  define sd where "sd = (case hint of None \<Rightarrow> 0 | Some h \<Rightarrow> min h maxDelay)"
  define d where "d = max (step / 2) sd + rnd * (max step sd - max (step / 2) sd)"
  have step: "0 \<le> step" "step \<le> maxDelay" using assms(6) by (auto simp: step_def)
  have sd: "0 \<le> sd" "sd \<le> maxDelay" using assms(6,9) by (auto simp: sd_def split: option.split)
  have le: "max (step / 2) sd \<le> max step sd" using step by auto
  have lower: "max (step / 2) sd \<le> d" using le assms(7) by (simp add: d_def)
  have "rnd * (max step sd - max (step / 2) sd) \<le> 1 * (max step sd - max (step / 2) sd)"
    using le assms(8) by (intro mult_right_mono) auto
  then have upper: "d \<le> max step sd" by (simp add: d_def)
  have "ws_reconnect (scheduleReconnect hint now rnd s) = Some (now + d)"
    using assms(1-5,9) unfolding d_def step_def sd_def
    by (cases hint) (auto simp: scheduleReconnect_def getReconnectDelay_def wants_def Let_def alt_def
        noteSuspendGap_def)
  with lower upper step sd show ?thesis
    by (intro exI [of _ d]) (auto simp: step_def [symmetric] sd_def split: option.splits)
qed

theorem reconnect_delay_bounds_witness:
  "\<exists>d. ws_reconnect (scheduleReconnect (Some 2500) 20 (1 / 4) sample_live) = Some (20 + d) \<and> 500 \<le> d \<and> d \<le> 30000 \<and>
    2500 \<le> d"
proof -
  have facts: "wants sample_live" "ws_reconnect sample_live = None" "ws_restartRedialAt sample_live = None"
    "ws_busyRetryAfterMs sample_live = None" "ws_attempt sample_live = 0"
    "nullish (Option.bind (ws_cfg sample_live) wc_maxReconnectDelayMs) DEFAULT_MAX_RECONNECT_DELAY = 30000"
    by (simp_all add: sample_defs wants_def DEFAULT_MAX_RECONNECT_DELAY_def)
  from reconnect_delay_bounds [OF facts(1-4) facts(6) [symmetric], of "1 / 4" "Some 2500" 20] facts(5)
  show ?thesis by auto
qed

lemma lastSeq_kept [simp]:
  "ws_lastSeq (emit e s) = ws_lastSeq s"
  "ws_lastSeq (setConn c s) = ws_lastSeq s"
  "ws_lastSeq (armLiveness now s) = ws_lastSeq s"
  "ws_lastSeq (noteSuspendGap now s) = ws_lastSeq s"
  "ws_lastSeq (noteCseq c' now rnd s) = ws_lastSeq s"
  "ws_lastSeq (onServerRestart d sp now rnd s) = ws_lastSeq s"
  by (simp_all add: emit_def setConn_def armLiveness_def setLivenessTimer_def noteSuspendGap_def noteCseq_def
      onServerRestart_def Let_def split: prod.split)

lemma lastSeq_onAuthOk:
  "ws_lastSeq (onAuthOk r now s) = (if r = Some ''none'' then 0 else ws_lastSeq s)"
  by (simp add: onAuthOk_def Let_def armWakeListeners_def startHeartbeat_def stopHeartbeat_def)

lemma lastSeq_handleFrame:
  "ws_lastSeq (handleFrame fr now rnd s) = (if fr = Auth_ok (Some ''none'') then 0 else ws_lastSeq s)"
  by (cases fr) (simp_all add: handleFrame_def disconnectProxy_def lastSeq_onAuthOk)

lemma lastSeq_noteSeq: "0 \<le> ws_lastSeq s \<Longrightarrow> ws_lastSeq (noteSeq sq s) = max (nullish sq 0) (ws_lastSeq s)"
  by (simp add: noteSeq_def Let_def max_def)

definition size_ok :: "ws_config \<Rightarrow> inbound \<Rightarrow> bool" where
  "size_ok cfg p \<longleftrightarrow>
     in_size p \<le> nullish (wc_maxMessageSizeBytes cfg) DEFAULT_MAX_MESSAGE_SIZE \<or> exempt (in_type p)"

lemma lastSeq_handleMessage:
  assumes "ws_cfg s = Some cfg" and "in_type p \<noteq> Some (Auth_ok (Some ''none''))" and "0 \<le> ws_lastSeq s"
  shows "ws_lastSeq (handleMessage (Some p) now rnd s) =
    (if size_ok cfg p then max (nullish (in_seq p) 0) (ws_lastSeq s) else ws_lastSeq s)"
  using assms
  by (auto simp: handleMessage_def Let_def size_ok_def lastSeq_noteSeq lastSeq_handleFrame split: option.split)

text \<open>A resume asks for the newest event that was processed: over any frames but a full resync, the
  sequence number the next auth frame reports is the highest of the frames the size bound let through,
  or the one before them; a dropped frame is asked for again.\<close>

theorem ws_resume_point:
  assumes "list_all (\<lambda>(_, _, p). in_type p \<noteq> Some (Auth_ok (Some ''none''))) frames"
    and "ws_cfg s = Some cfg" and "0 \<le> ws_lastSeq s" and "\<not> oe_identity env"
    and "s' = fold (\<lambda>(now, rnd, p) t. handleMessage (Some p) now rnd t) frames s"
  shows "\<exists>fr. last (ws_out (transportOpen env s')) = Send_frame (Some (oe_frameId env)) (Auth fr) \<and>
    af_last_seq fr = fold max (map (\<lambda>(_, _, p). nullish (in_seq p) 0)
      (filter (\<lambda>(_, _, p). size_ok cfg p) frames)) (ws_lastSeq s)"
proof -
  have "ws_cfg s' = Some cfg \<and> ws_lastSeq s' = fold max (map (\<lambda>(_, _, p). nullish (in_seq p) 0)
      (filter (\<lambda>(_, _, p). size_ok cfg p) frames)) (ws_lastSeq s)"
    using assms(1-3) unfolding assms(5)
    by (induction frames arbitrary: s) (auto simp: lastSeq_handleMessage handleMessage_view)
  with assms(4) show ?thesis
    by (simp add: transportOpen_def sendRaw_def setConn_def emit_def cancelGapResume_def Let_def)
qed

theorem ws_resume_point_witness:
  "\<exists>fr. last (ws_out (transportOpen sample_open_env (handleMessage (Some (sample_frame Ready (Some 7))) 30 0
      (handleMessage (Some (sample_frame (Other_frame ''chat_message'') (Some 9))) 25 0 sample_live)))) =
      Send_frame (Some ''f'') (Auth fr) \<and> af_last_seq fr = 9"
proof -
  have cfg: "ws_cfg sample_live = Some sample_cfg" "ws_lastSeq sample_live = 0"
    by (simp_all add: sample_defs)
  have ok: "size_ok sample_cfg (sample_frame t q)" for t q
    by (simp add: size_ok_def sample_cfg_def sample_frame_def DEFAULT_MAX_MESSAGE_SIZE_def)
  from ws_resume_point [of "[(25, 0, sample_frame (Other_frame ''chat_message'') (Some 9)), (30, 0, sample_frame Ready (Some 7))]",
      OF _ cfg(1) _ _ refl, of sample_open_env] cfg(2) ok
  show ?thesis by (simp add: sample_open_env_def) (simp add: sample_frame_def)
qed

end
