(* ===== verification/Message_Model.thy ===== *)
theory Message_Model
  imports Prelude
begin

text \<open>
  The message model: the wire payloads of \<open>lib/wireCommon.ts\<close>, \<open>lib/wireServer.ts\<close> and
  \<open>lib/types.ts\<close> that the messages store reads, and the store's own types and converters of
  \<open>features/messaging/messageModel.ts\<close>.

  A field the code declares with \<open>?\<close> or \<open>| null\<close> is an option. Where the code never tells
  \<open>undefined\<close> from \<open>null\<close> (the reply snippet, an avatar, a display name) one option level stands
  for both.
\<close>

subsection \<open>Objects embedded in messages\<close>

record message_user =
  u_id :: int
  u_username :: string
  u_avatar :: "string option"
  u_display_name :: "string option"

record attachment =
  at_id :: string
  at_filename :: string
  at_size :: int
  at_mime :: string
  at_url :: string
  at_width :: "int option"
  at_height :: "int option"
  at_duration_ms :: "int option"
  at_waveform :: "string option"

record reaction_summary =
  rs_emoji :: string
  rs_count :: int
  rs_me :: bool

datatype reaction_action = AddReaction | RemoveReaction

record sticker_info =
  st_id :: "int option"
  st_name :: string
  st_url :: "string option"

record imported_author =
  ia_name :: string
  ia_color :: "string option"

record referenced_message =
  rf_id :: int
  rf_user :: "message_user option"
  rf_content :: jstring
  rf_deleted :: bool
  rf_has_attachments :: bool
  rf_imported_author :: "imported_author option"

record call_info =
  ci_started_at :: string
  ci_ended_at :: "string option"
  ci_participants :: "int list"

record group_event_info =
  ge_target_user_id :: "int option"
  ge_name :: "string option"
  ge_icon_removed :: "bool option"

record forward_info =
  fw_source_channel_id :: int
  fw_source_message_id :: "int option"
  fw_source_timestamp :: string

record poll_answer =
  pa_answer_id :: int
  pa_text :: string
  pa_emoji :: "string option"

record poll_count =
  pc_answer_id :: int
  pc_count :: int

record poll_results =
  pr_version :: int
  pr_total_voters :: int
  pr_counts :: "poll_count list"
  pr_me :: "int list"

record poll_info =
  po_question :: string
  po_answers :: "poll_answer list"
  po_allow_multiselect :: bool
  po_expires_at :: string
  po_ended :: bool
  po_ended_at :: "string option"
  po_results :: poll_results

record poll_view = poll_info +
  selfVersion :: int

record forum_first_message =
  ff_id :: int
  ff_author_id :: int
  ff_preview :: string
  ff_has_attachments :: bool
  ff_deleted :: bool

record forum_post_meta =
  fp_tag_ids :: "int list"
  fp_first_message :: "forum_first_message option"

record thread_info =
  th_id :: int
  th_parent_id :: int
  th_name :: string
  th_owner_id :: "int option"
  th_starter_message_id :: "int option"
  th_archived :: bool
  th_locked :: bool
  th_auto_archive_minutes :: int
  th_message_count :: int
  th_last_message_at :: "string option"
  th_created_at :: string
  th_post :: "forum_post_meta option"

subsection \<open>Payloads\<close>

record chat_message_payload =
  cm_client_message_id :: "string option"
  cm_id :: int
  cm_channel_id :: int
  cm_user :: message_user
  cm_content :: jstring
  cm_reply_to :: "int option"
  cm_referenced_message :: "referenced_message option"
  cm_attachments :: "attachment list"
  cm_timestamp :: string
  cm_mentions :: "int list option"
  cm_mention_roles :: "int list option"
  cm_mentions_everyone :: "bool option"
  cm_mentions_here :: "bool option"
  cm_kind :: "string option"
  cm_call :: "call_info option"
  cm_group_event :: "group_event_info option"
  cm_forward :: "forward_info option"
  cm_poll :: "poll_info option"
  cm_sticker :: "sticker_info option"
  cm_thread :: "thread_info option"

record message_response =
  mr_id :: int
  mr_channel_id :: int
  mr_user :: message_user
  mr_content :: jstring
  mr_reply_to :: "int option"
  mr_referenced_message :: "referenced_message option"
  mr_attachments :: "attachment list"
  mr_reactions :: "reaction_summary list"
  mr_pinned :: bool
  mr_edited_at :: "string option"
  mr_deleted :: bool
  mr_timestamp :: string
  mr_imported_author :: "imported_author option"
  mr_mentions :: "int list option"
  mr_mention_roles :: "int list option"
  mr_mentions_everyone :: "bool option"
  mr_kind :: "string option"
  mr_call :: "call_info option"
  mr_group_event :: "group_event_info option"
  mr_forward :: "forward_info option"
  mr_poll :: "poll_info option"
  mr_sticker :: "sticker_info option"
  mr_thread :: "thread_info option"

record chat_edited_payload =
  ce_message_id :: int
  ce_channel_id :: int
  ce_content :: jstring
  ce_edited_at :: "string option"
  ce_mentions :: "int list option"
  ce_mention_roles :: "int list option"
  ce_mentions_everyone :: "bool option"
  ce_mentions_here :: "bool option"
  ce_kind :: "string option"
  ce_call :: "call_info option"
  ce_attachments :: "attachment list option"

record chat_deleted_payload =
  cd_message_id :: int
  cd_channel_id :: int

record chat_bulk_deleted_payload =
  cb_channel_id :: int
  cb_ids :: "int list"

record reaction_update_payload =
  ru_message_id :: int
  ru_channel_id :: int
  ru_emoji :: string
  ru_user_id :: int
  ru_action :: reaction_action

record poll_update_payload =
  pu_channel_id :: int
  pu_message_id :: int
  pu_version :: int
  pu_total_voters :: int
  pu_counts :: "poll_count list"
  pu_ended :: bool
  pu_ended_at :: "string option"
  pu_user_id :: "int option"
  pu_answer_ids :: "int list option"

record poll_vote_ok_payload =
  pv_message_id :: int
  pv_version :: int
  pv_answer_ids :: "int list"

subsection \<open>Rows and state of the messages store\<close>

datatype message_status = Sent | Pending | Failed | Uploading

record message =
  msg_id :: int
  msg_channelId :: int
  msg_user :: message_user
  msg_content :: jstring
  msg_replyTo :: "int option"
  msg_referencedMessage :: "referenced_message option"
  msg_attachments :: "attachment list"
  msg_reactions :: "reaction_summary list"
  msg_pinned :: bool
  msg_editedAt :: "string option"
  msg_deleted :: bool
  msg_timestamp :: string
  msg_status :: message_status
  msg_correlationId :: "string option"
  msg_clientMessageId :: "string option"
  msg_errorCode :: "string option"
  msg_mentions :: "int list option"
  msg_mentionsEveryone :: "bool option"
  msg_mentionRoles :: "int list option"
  msg_kind :: "string option"
  msg_call :: "call_info option"
  msg_groupEvent :: "group_event_info option"
  msg_forward :: "forward_info option"
  msg_poll :: "poll_view option"
  msg_sticker :: "sticker_info option"
  msg_thread :: "thread_info option"
  msg_importedAuthor :: "imported_author option"

record pending_reaction =
  pe_channelId :: int
  pe_messageId :: int
  pe_emoji :: string
  pe_action :: reaction_action

datatype load_state = Loading | LoadError

record messages_state =
  messagesByChannel :: "(int, message list) jmap"
  pendingSends :: "(string, int) jmap"
  pendingReactions :: "(string, pending_reaction) jmap"
  loadedChannels :: "int jset"
  hasMore :: "(int, bool) jmap"
  historyLoadState :: "(int, load_state) jmap"
  olderLoadFailed :: "int jset"
  pinRevision :: "(int, int) jmap"
  messagePinRevision :: "(int, int) jmap"
  detachedChannels :: "int jset"
  loadWatermark :: "(int, int) jmap"

definition INITIAL_STATE :: messages_state where
  "INITIAL_STATE = \<lparr>
     messagesByChannel = [], pendingSends = [], pendingReactions = [], loadedChannels = [],
     hasMore = [], historyLoadState = [], olderLoadFailed = [], pinRevision = [],
     messagePinRevision = [], detachedChannels = [], loadWatermark = []\<rparr>"

definition MAX_MESSAGES_PER_CHANNEL :: nat where
  "MAX_MESSAGES_PER_CHANNEL = 500"

subsection \<open>Converters\<close>

definition toPollView :: "poll_info \<Rightarrow> poll_view" where
  "toPollView poll = \<lparr>
     po_question = po_question poll, po_answers = po_answers poll,
     po_allow_multiselect = po_allow_multiselect poll, po_expires_at = po_expires_at poll,
     po_ended = po_ended poll, po_ended_at = po_ended_at poll, po_results = po_results poll,
     selfVersion = pr_version (po_results poll)\<rparr>"

definition chatPayloadToMessage :: "chat_message_payload \<Rightarrow> message" where
  "chatPayloadToMessage p = \<lparr>
     msg_id = cm_id p,
     msg_channelId = cm_channel_id p,
     msg_user = cm_user p,
     msg_content = cm_content p,
     msg_replyTo = cm_reply_to p,
     msg_referencedMessage = cm_referenced_message p,
     msg_attachments = cm_attachments p,
     msg_reactions = [],
     msg_pinned = False,
     msg_editedAt = None,
     msg_deleted = False,
     msg_timestamp = cm_timestamp p,
     msg_status = Sent,
     msg_correlationId = None,
     msg_clientMessageId = cm_client_message_id p,
     msg_errorCode = None,
     msg_mentions = cm_mentions p,
     msg_mentionsEveryone = cm_mentions_everyone p,
     msg_mentionRoles = cm_mention_roles p,
     msg_kind = cm_kind p,
     msg_call = cm_call p,
     msg_groupEvent = cm_group_event p,
     msg_forward = cm_forward p,
     msg_poll = map_option toPollView (cm_poll p),
     msg_sticker = cm_sticker p,
     msg_thread = cm_thread p,
     msg_importedAuthor = None\<rparr>"

definition messageResponseToMessage :: "message_response \<Rightarrow> message" where
  "messageResponseToMessage r = \<lparr>
     msg_id = mr_id r,
     msg_channelId = mr_channel_id r,
     msg_user = mr_user r,
     msg_content = mr_content r,
     msg_replyTo = mr_reply_to r,
     msg_referencedMessage = mr_referenced_message r,
     msg_attachments = mr_attachments r,
     msg_reactions = mr_reactions r,
     msg_pinned = mr_pinned r,
     msg_editedAt = mr_edited_at r,
     msg_deleted = mr_deleted r,
     msg_timestamp = mr_timestamp r,
     msg_status = Sent,
     msg_correlationId = None,
     msg_clientMessageId = None,
     msg_errorCode = None,
     msg_mentions = mr_mentions r,
     msg_mentionsEveryone = mr_mentions_everyone r,
     msg_mentionRoles = mr_mention_roles r,
     msg_kind = mr_kind r,
     msg_call = mr_call r,
     msg_groupEvent = mr_group_event r,
     msg_forward = mr_forward r,
     msg_poll = map_option toPollView (mr_poll r),
     msg_sticker = mr_sticker r,
     msg_thread = mr_thread r,
     msg_importedAuthor = mr_imported_author r\<rparr>"

subsection \<open>Reading the state\<close>

text \<open>The rows the code reads with \<open>messagesByChannel.get(channelId) ?? []\<close>, and the write every
  reducer performs with a copied map.\<close>

definition rows :: "messages_state \<Rightarrow> int \<Rightarrow> message list" where
  "rows s c = nullish (jm_get (messagesByChannel s) c) []"

definition set_rows :: "messages_state \<Rightarrow> int \<Rightarrow> message list \<Rightarrow> messages_state" where
  "set_rows s c ms = s\<lparr>messagesByChannel := jm_set (messagesByChannel s) c ms\<rparr>"

abbreviation is_sent :: "message \<Rightarrow> bool" where
  "is_sent m \<equiv> msg_status m = Sent"

lemma rows_set_rows [simp]: "rows (set_rows s c ms) d = (if d = c then ms else rows s d)"
  by (simp add: rows_def set_rows_def)

lemma rows_simps [simp]:
  "rows (s\<lparr>messagesByChannel := jm_set m c ms\<rparr>) d =
     (if d = c then ms else nullish (jm_get m d) [])"
  "rows (s\<lparr>messagesByChannel := jm_delete m c\<rparr>) d =
     (if d = c then [] else nullish (jm_get m d) [])"
  "rows (s\<lparr>pendingSends := a1\<rparr>) d = rows s d"
  "rows (s\<lparr>pendingReactions := a2\<rparr>) d = rows s d"
  "rows (s\<lparr>loadedChannels := a3\<rparr>) d = rows s d"
  "rows (s\<lparr>hasMore := a4\<rparr>) d = rows s d"
  "rows (s\<lparr>historyLoadState := a5\<rparr>) d = rows s d"
  "rows (s\<lparr>olderLoadFailed := a6\<rparr>) d = rows s d"
  "rows (s\<lparr>pinRevision := a7\<rparr>) d = rows s d"
  "rows (s\<lparr>messagePinRevision := a8\<rparr>) d = rows s d"
  "rows (s\<lparr>detachedChannels := a9\<rparr>) d = rows s d"
  "rows (s\<lparr>loadWatermark := b1\<rparr>) d = rows s d"
  by (simp_all add: rows_def)

lemma rows_fold: "nullish (jm_get (messagesByChannel s) c) [] = rows s c"
  by (simp add: rows_def)

lemma rows_Some: "jm_get (messagesByChannel s) c = Some ms \<Longrightarrow> rows s c = ms"
  by (simp add: rows_def)

lemma rows_None: "jm_get (messagesByChannel s) c = None \<Longrightarrow> rows s c = []"
  by (simp add: rows_def)

lemma rows_INITIAL [simp]: "rows INITIAL_STATE c = []"
  by (simp add: rows_def INITIAL_STATE_def)

text \<open>The real ids a channel's rows carry: 0 marks a row without a server id.\<close>

definition real_ids :: "message list \<Rightarrow> int list" where
  "real_ids ms = filter (\<lambda>i. i \<noteq> 0) (map msg_id ms)"

lemma real_ids_simps [simp]:
  "real_ids [] = []"
  "real_ids (m # ms) = (if msg_id m = 0 then real_ids ms else msg_id m # real_ids ms)"
  "real_ids (xs @ ys) = real_ids xs @ real_ids ys"
  by (simp_all add: real_ids_def)

lemma set_real_ids: "i \<in> set (real_ids ms) \<longleftrightarrow> i \<noteq> 0 \<and> (\<exists>m \<in> set ms. msg_id m = i)"
  by (auto simp: real_ids_def)

lemma set_real_ids_filter: "set (real_ids (filter P ms)) \<subseteq> set (real_ids ms)"
  by (auto simp: set_real_ids)

lemma distinct_real_ids_filter: "distinct (real_ids ms) \<Longrightarrow> distinct (real_ids (filter P ms))"
  by (induction ms) (auto simp: set_real_ids)

lemma distinct_real_ids_sublist:
  assumes "distinct (real_ids ms)"
  shows "distinct (real_ids (take n ms))" and "distinct (real_ids (drop n ms))"
    and "distinct (real_ids (last_n n ms))"
proof -
  have "distinct (real_ids (take k ms) @ real_ids (drop k ms))" for k
    using assms by (metis append_take_drop_id real_ids_simps(3))
  then show "distinct (real_ids (take n ms))" "distinct (real_ids (drop n ms))"
    "distinct (real_ids (last_n n ms))"
    by (auto simp: last_n_def)
qed

lemma real_ids_map_same: "(\<And>m. m \<in> set ms \<Longrightarrow> msg_id (f m) = msg_id m) \<Longrightarrow>
    real_ids (map f ms) = real_ids ms"
  by (induction ms) auto

lemma real_ids_update_first:
  "(\<And>m. P m \<Longrightarrow> msg_id (f m) = msg_id m) \<Longrightarrow> real_ids (update_first P f ms) = real_ids ms"
  by (induction ms) auto

lemma real_ids_update: "i < length ms \<Longrightarrow> msg_id x = msg_id (ms ! i) \<Longrightarrow>
    real_ids (ms[i := x]) = real_ids ms"
  by (induction ms arbitrary: i) (auto split: nat.split simp: nth_Cons)

lemma converted_sent [simp]:
  "msg_status (messageResponseToMessage r) = Sent" "msg_id (messageResponseToMessage r) = mr_id r"
  "msg_correlationId (messageResponseToMessage r) = None"
  "msg_channelId (messageResponseToMessage r) = mr_channel_id r"
  "msg_status (chatPayloadToMessage p) = Sent" "msg_id (chatPayloadToMessage p) = cm_id p"
  "msg_channelId (chatPayloadToMessage p) = cm_channel_id p"
  by (simp_all add: messageResponseToMessage_def chatPayloadToMessage_def)

subsection \<open>Well-formed rows\<close>

text \<open>A channel's rows carry each server id once, and exactly the unsent rows carry none.\<close>

definition row_ok :: "message \<Rightarrow> bool" where
  "row_ok m \<longleftrightarrow> (msg_id m = 0 \<longleftrightarrow> \<not> is_sent m)"

definition rows_ok :: "message list \<Rightarrow> bool" where
  "rows_ok ms \<longleftrightarrow> distinct (real_ids ms) \<and> list_all row_ok ms"

definition store_ok :: "messages_state \<Rightarrow> bool" where
  "store_ok s \<longleftrightarrow> jm_wf (messagesByChannel s) \<and> list_all rows_ok (jm_values (messagesByChannel s))"

lemma rows_ok_simps [simp]:
  "rows_ok []"
  "rows_ok (m # ms) \<longleftrightarrow> row_ok m \<and> (msg_id m = 0 \<or> msg_id m \<notin> set (real_ids ms)) \<and> rows_ok ms"
  "rows_ok (xs @ ys) \<longleftrightarrow> rows_ok xs \<and> rows_ok ys \<and> set (real_ids xs) \<inter> set (real_ids ys) = {}"
  by (auto simp: rows_ok_def)

lemma rows_okD: "rows_ok ms \<Longrightarrow> m \<in> set ms \<Longrightarrow> row_ok m"
  by (auto simp: rows_ok_def list_all_iff)

lemma rows_ok_filter: "rows_ok ms \<Longrightarrow> rows_ok (filter P ms)"
  by (auto simp: rows_ok_def distinct_real_ids_filter list_all_iff)

lemma rows_ok_sublist:
  "rows_ok ms \<Longrightarrow> rows_ok (take n ms)" "rows_ok ms \<Longrightarrow> rows_ok (drop n ms)"
  "rows_ok ms \<Longrightarrow> rows_ok (last_n n ms)"
  by (auto simp: rows_ok_def distinct_real_ids_sublist list_all_iff last_n_def
      dest: in_set_takeD in_set_dropD)

lemma rows_ok_map:
  "(\<And>m. m \<in> set ms \<Longrightarrow> msg_id (f m) = msg_id m \<and> (is_sent (f m) \<longleftrightarrow> is_sent m)) \<Longrightarrow>
     rows_ok (map f ms) = rows_ok ms"
  by (auto simp: rows_ok_def real_ids_map_same list_all_iff row_ok_def)

lemma rows_ok_update_first:
  assumes "\<And>m. P m \<Longrightarrow> msg_id (f m) = msg_id m \<and> (is_sent (f m) \<longleftrightarrow> is_sent m)"
  shows "rows_ok (update_first P f ms) = rows_ok ms"
proof -
  have "list_all row_ok (update_first P f ms) = list_all row_ok ms"
    using assms by (induction ms) (auto simp: row_ok_def)
  with assms show ?thesis by (simp add: rows_ok_def real_ids_update_first)
qed

lemma store_ok_iff:
  "store_ok s \<longleftrightarrow> jm_wf (messagesByChannel s) \<and> (\<forall>c. rows_ok (rows s c))"
proof (cases "jm_wf (messagesByChannel s)")
  case True
  then have "(\<forall>c. rows_ok (rows s c)) = (\<forall>ms \<in> set (jm_values (messagesByChannel s)). rows_ok ms)"
    by (auto simp: jm_values_iff rows_def nullish_def split: option.splits)
  with True show ?thesis by (simp add: store_ok_def list_all_iff)
qed (simp add: store_ok_def)

lemma store_ok_rows: "store_ok s \<Longrightarrow> rows_ok (rows s c)"
  by (simp add: store_ok_iff)

lemma store_ok_INITIAL [simp]: "store_ok INITIAL_STATE"
  by (simp add: store_ok_def INITIAL_STATE_def jm_values_def)

text \<open>A reducer keeps the store well-formed when it writes well-formed rows to one channel, whatever
  else it changes.\<close>

lemma store_ok_write:
  assumes "store_ok s" and "rows_ok ms"
    and "messagesByChannel s' = jm_set (messagesByChannel s) c ms"
  shows "store_ok s'"
  using assms by (auto simp: store_ok_iff rows_def)

lemma store_ok_simps [simp]:
  "store_ok (s\<lparr>pendingSends := a0\<rparr>) = store_ok s"
  "store_ok (s\<lparr>pendingReactions := a1\<rparr>) = store_ok s"
  "store_ok (s\<lparr>loadedChannels := a2\<rparr>) = store_ok s"
  "store_ok (s\<lparr>hasMore := a3\<rparr>) = store_ok s"
  "store_ok (s\<lparr>historyLoadState := a4\<rparr>) = store_ok s"
  "store_ok (s\<lparr>olderLoadFailed := a5\<rparr>) = store_ok s"
  "store_ok (s\<lparr>pinRevision := a6\<rparr>) = store_ok s"
  "store_ok (s\<lparr>messagePinRevision := a7\<rparr>) = store_ok s"
  "store_ok (s\<lparr>detachedChannels := a8\<rparr>) = store_ok s"
  "store_ok (s\<lparr>loadWatermark := a9\<rparr>) = store_ok s"
  by (simp_all add: store_ok_def)

lemma store_ok_set [intro]:
  "store_ok s \<Longrightarrow> rows_ok ms \<Longrightarrow> store_ok (s\<lparr>messagesByChannel := jm_set (messagesByChannel s) c ms\<rparr>)"
  by (auto simp: store_ok_iff rows_def)

lemma store_ok_delete [intro]:
  "store_ok s \<Longrightarrow> store_ok (s\<lparr>messagesByChannel := jm_delete (messagesByChannel s) c\<rparr>)"
  by (auto simp: store_ok_iff rows_def)

lemma store_ok_SomeD: "store_ok s \<Longrightarrow> jm_get (messagesByChannel s) c = Some ms \<Longrightarrow> rows_ok ms"
  using store_ok_rows [of s c] by (simp add: rows_Some)

subsection \<open>Sample data\<close>

text \<open>A user, a live payload and a history row, used by the examples that instantiate the theorems.\<close>

definition sample_user :: message_user where
  "sample_user = \<lparr>u_id = 7, u_username = ''ana'', u_avatar = None, u_display_name = None\<rparr>"

definition sample_response :: "int \<Rightarrow> int \<Rightarrow> message_response" where
  "sample_response c i = \<lparr>mr_id = i, mr_channel_id = c, mr_user = sample_user,
     mr_content = js_lit ''hi'', mr_reply_to = None, mr_referenced_message = None,
     mr_attachments = [], mr_reactions = [], mr_pinned = False, mr_edited_at = None,
     mr_deleted = False, mr_timestamp = ''t'', mr_imported_author = None, mr_mentions = None,
     mr_mention_roles = None, mr_mentions_everyone = None, mr_kind = None, mr_call = None,
     mr_group_event = None, mr_forward = None, mr_poll = None, mr_sticker = None,
     mr_thread = None\<rparr>"

definition sample_row :: "int \<Rightarrow> int \<Rightarrow> message" where
  "sample_row c i = messageResponseToMessage (sample_response c i)"

lemma sample_response_id [simp]: "mr_id (sample_response c i) = i" "mr_channel_id (sample_response c i) = c"
  by (simp_all add: sample_response_def)

lemma sample_row_simps [simp]:
  "msg_id (sample_row c i) = i" "msg_channelId (sample_row c i) = c" "msg_status (sample_row c i) = Sent"
  "msg_user (sample_row c i) = sample_user" "msg_content (sample_row c i) = js_lit ''hi''"
  "msg_correlationId (sample_row c i) = None" "msg_clientMessageId (sample_row c i) = None"
  "msg_poll (sample_row c i) = None" "msg_errorCode (sample_row c i) = None"
  by (simp_all add: sample_row_def sample_response_def messageResponseToMessage_def)

end
