(* ===== verification/Echo_Reconcile.thy ===== *)
theory Echo_Reconcile
  imports Message_Model
begin

text \<open>
  \<open>features/messaging/echoReconcile.ts\<close>: when a server row is the echo of one of the user's own
  unreconciled sends. The comparison normalises what the user typed the way the server does:
  regular-expression replacements over UTF-16 code units.

  \<open>String.fromCodePoint\<close> throws a \<open>RangeError\<close> above \<open>0x10FFFF\<close>, so the normalisation returns an
  error value there. The lemmas show that a pass leaves its input alone or shortens it by at least
  two code units, that the loop therefore ends in a fixpoint on inputs of up to 40 units, that text
  without an ampersand never throws, and when a stable client id decides the match.
\<close>

subsection \<open>Results that may throw\<close>

datatype js_error = RangeError

type_synonym 'a result = "js_error + 'a"

definition res_bind :: "'a result \<Rightarrow> ('a \<Rightarrow> 'b result) \<Rightarrow> 'b result" where
  "res_bind r f = (case r of Inl e \<Rightarrow> Inl e | Inr x \<Rightarrow> f x)"

lemma res_bind_simps [simp]: "res_bind (Inl e) f = Inl e" "res_bind (Inr x) f = f x"
  by (simp_all add: res_bind_def)

lemma res_bind_InrE:
  assumes "res_bind r f = Inr y"
  obtains x where "r = Inr x" "f x = Inr y"
  using assms by (cases r) auto

text \<open>\<open>findIndex\<close> with a predicate that may throw.\<close>

fun find_index_res :: "('a \<Rightarrow> bool result) \<Rightarrow> 'a list \<Rightarrow> nat option result" where
  "find_index_res P [] = Inr None"
| "find_index_res P (x # xs) = res_bind (P x) (\<lambda>b. if b then Inr (Some 0)
     else res_bind (find_index_res P xs) (\<lambda>i. Inr (map_option Suc i)))"

lemma find_index_res_pure:
  "(\<And>x. x \<in> set xs \<Longrightarrow> P x = Inr (Q x)) \<Longrightarrow> find_index_res P xs = Inr (find_index Q xs)"
  by (induction xs) auto

lemma find_index_res_None: "find_index_res P xs = Inr None \<Longrightarrow> x \<in> set xs \<Longrightarrow> P x = Inr False"
  by (induction xs) (auto elim!: res_bind_InrE split: if_splits)

lemma find_index_res_Some:
  "find_index_res P xs = Inr (Some i) \<Longrightarrow>
     i < length xs \<and> P (xs ! i) = Inr True \<and> (\<forall>j < i. P (xs ! j) = Inr False)"
proof (induction xs arbitrary: i)
  case Nil
  then show ?case by simp
next
  case (Cons x xs)
  from Cons.prems obtain b where b: "P x = Inr b"
    by (auto elim: res_bind_InrE)
  show ?case
  proof (cases b)
    case True
    with Cons.prems b show ?thesis by simp
  next
    case False
    with Cons.prems b obtain k where "find_index_res P xs = Inr (Some k)" "i = Suc k"
      by (auto elim!: res_bind_InrE)
    with Cons.IH b False show ?thesis by (auto simp: nth_Cons split: nat.split)
  qed
qed

subsection \<open>Replacing every match\<close>

text \<open>\<open>replace\<close> with a global regular expression: at each position from the left a matcher says how
  many units it consumes and what it puts in their place; an unmatched unit is copied. The
  replacement callback may throw.\<close>

type_synonym matcher = "jstring \<Rightarrow> (nat \<times> jstring result) option"

function replace_all :: "matcher \<Rightarrow> jstring \<Rightarrow> jstring result" where
  "replace_all m [] = Inr []"
| "replace_all m (c # cs) = (case m (c # cs) of
     None \<Rightarrow> res_bind (replace_all m cs) (\<lambda>t. Inr (c # t))
   | Some (k, r) \<Rightarrow> res_bind r (\<lambda>u. res_bind (replace_all m (drop (k - 1) cs)) (\<lambda>t. Inr (u @ t))))"
  by pat_completeness auto
termination by (relation "measure (\<lambda>(m, s). length s)") auto

definition is_hex :: "16 word \<Rightarrow> bool" where
  "is_hex u = (48 \<le> u \<and> u \<le> 57 \<or> 65 \<le> u \<and> u \<le> 70 \<or> 97 \<le> u \<and> u \<le> 102)"

definition is_dec :: "16 word \<Rightarrow> bool" where
  "is_dec u = (48 \<le> u \<and> u \<le> 57)"

definition digit_value :: "16 word \<Rightarrow> nat" where
  "digit_value u = (if u \<le> 57 then unat u - 48 else if u \<le> 70 then unat u - 55 else unat u - 87)"

text \<open>\<open>parseInt\<close> and \<open>Number\<close> on a run of digits.\<close>

definition digits_value :: "nat \<Rightarrow> jstring \<Rightarrow> nat" where
  "digits_value base ds = foldl (\<lambda>n d. base * n + digit_value d) 0 ds"

definition fromCodePoint :: "nat \<Rightarrow> jstring result" where
  "fromCodePoint n = (if n > 0x10FFFF then Inl RangeError
     else if n \<le> 0xFFFF then Inr [of_nat n]
     else Inr [of_nat (0xD800 + (n - 0x10000) div 0x400), of_nat (0xDC00 + (n - 0x10000) mod 0x400)])"

definition starts_with :: "jstring \<Rightarrow> jstring \<Rightarrow> bool" where
  "starts_with p s = (take (length p) s = p)"

text \<open>\<open>&#x[0-9a-fA-F]+;\<close> and \<open>&#\d+;\<close>: a prefix, a non-empty run of digits and a semicolon.\<close>

definition match_digits :: "jstring \<Rightarrow> (16 word \<Rightarrow> bool) \<Rightarrow> nat \<Rightarrow> matcher" where
  "match_digits p P base s = (
     if starts_with p s then
       (let rest = drop (length p) s; ds = takeWhile P rest
        in if ds \<noteq> [] \<and> starts_with [59] (drop (length ds) rest)
           then Some (length p + length ds + 1, fromCodePoint (digits_value base ds))
           else None)
     else None)"

definition match_hex :: matcher where
  "match_hex = match_digits (js_lit ''&#x'') is_hex 16"

definition match_dec :: matcher where
  "match_dec = match_digits (js_lit ''&#'') is_dec 10"

definition match_lit :: "string \<Rightarrow> string \<Rightarrow> matcher" where
  "match_lit p r s = (if starts_with (js_lit p) s then Some (length p, Inr (js_lit r)) else None)"

text \<open>\<open><[^>]*>\<close>: the units from the opening to the first closing bracket, inclusive.\<close>

definition match_tag :: matcher where
  "match_tag s = (
     if starts_with [60] s then
       (let body = takeWhile (\<lambda>u. u \<noteq> 62) (drop 1 s)
        in if starts_with [62] (drop (length body) (drop 1 s)) then Some (length body + 2, Inr []) else None)
     else None)"

text \<open>The chain of \<open>replace\<close> calls, in the source's order.\<close>

definition unescape_steps :: "matcher list" where
  "unescape_steps = [match_hex, match_dec, match_lit ''&lt;'' ''<'', match_lit ''&gt;'' ''>'',
     match_lit ''&quot;'' [CHR 0x22], match_lit ''&#39;'' [CHR 0x27], match_lit ''&apos;'' [CHR 0x27],
     match_lit ''&nbsp;'' '' '', match_lit ''&amp;'' ''&'']"

definition unescapeOnce :: "jstring \<Rightarrow> jstring result" where
  "unescapeOnce input = foldl (\<lambda>r m. res_bind r (replace_all m)) (Inr input) unescape_steps"

definition strip_once :: "jstring \<Rightarrow> jstring" where
  "strip_once s = (case replace_all match_tag s of Inl _ \<Rightarrow> s | Inr t \<Rightarrow> t)"


subsection \<open>A pass never grows its input\<close>

definition shrinks :: "matcher \<Rightarrow> bool" where
  "shrinks m \<longleftrightarrow> (\<forall>s k r. m s = Some (k, r) \<longrightarrow> k \<le> length s \<and> (\<forall>u. r = Inr u \<longrightarrow> length u + 2 \<le> k))"

lemma shrinksD: "shrinks m \<Longrightarrow> m s = Some (k, Inr u) \<Longrightarrow> k \<le> length s \<and> length u + 2 \<le> k"
  by (simp add: shrinks_def)

lemma replace_all_shrinks:
  "shrinks m \<Longrightarrow> replace_all m s = Inr t \<Longrightarrow> t = s \<or> length t + 2 \<le> length s"
proof (induction m s arbitrary: t rule: replace_all.induct)
  case (1 m)
  then show ?case by simp
next
  case (2 m c cs)
  show ?case
  proof (cases "m (c # cs)")
    case None
    with "2.prems" obtain t' where "replace_all m cs = Inr t'" "t = c # t'"
      by (auto elim: res_bind_InrE)
    with "2.IH"(1) [OF None "2.prems"(1)] show ?thesis by auto
  next
    case (Some kr)
    obtain k r where kr: "kr = (k, r)" by (cases kr)
    from Some kr "2.prems"(2) obtain u t' where r: "r = Inr u"
      and t': "replace_all m (drop (k - 1) cs) = Inr t'" "t = u @ t'"
      by (auto elim!: res_bind_InrE)
    have k: "k \<le> length (c # cs)" "length u + 2 \<le> k"
      using shrinksD [OF "2.prems"(1), of "c # cs" k u] Some kr r by simp_all
    have "length t' \<le> length (drop (k - 1) cs)"
      using "2.IH"(2) [OF Some kr [symmetric] "2.prems"(1) t'(1)] by auto
    with k t'(2) have "length t + 2 \<le> length (c # cs)" by simp
    then show ?thesis ..
  qed
qed

lemma fromCodePoint_length: "fromCodePoint n = Inr u \<Longrightarrow> length u \<le> 2"
  by (auto simp: fromCodePoint_def split: if_splits)

lemma starts_with_length: "starts_with p s \<Longrightarrow> length p \<le> length s"
  by (metis length_take min_def nle_le starts_with_def)

lemma length_takeWhile_drop: "length (takeWhile P (drop n s)) \<le> length s - n"
  by (metis length_drop length_takeWhile_le)

lemma shrinks_digits:
  assumes "2 \<le> length p"
  shows "shrinks (match_digits p P base)"
  unfolding shrinks_def
proof (intro allI impI)
  fix s k r
  let ?d = "takeWhile P (drop (length p) s)"
  assume "match_digits p P base s = Some (k, r)"
  then have d: "?d \<noteq> []" and e: "starts_with [59] (drop (length ?d) (drop (length p) s))"
    and k: "k = length p + length ?d + 1" and r: "r = fromCodePoint (digits_value base ?d)"
    by (auto simp: match_digits_def Let_def split: if_splits)
  have "1 \<le> length ?d" using d by (simp add: Suc_leI)
  with assms r k have "length u + 2 \<le> k" if "r = Inr u" for u
    using that fromCodePoint_length [of "digits_value base ?d" u] by simp
  with starts_with_length [OF e] k show "k \<le> length s \<and> (\<forall>u. r = Inr u \<longrightarrow> length u + 2 \<le> k)"
    by simp
qed

lemma length_js_lit [simp]: "length (js_lit p) = length p"
  by (simp add: js_lit_def)

lemma shrinks_lit: "length r + 2 \<le> length p \<Longrightarrow> shrinks (match_lit p r)"
  by (auto simp: shrinks_def match_lit_def dest!: starts_with_length)

lemma shrinks_tag: "shrinks match_tag"
proof -
  have "Suc (Suc (length (takeWhile (\<lambda>u. u \<noteq> 62) (drop (Suc 0) s)))) \<le> length s"
    if "starts_with [62] (drop (length (takeWhile (\<lambda>u. u \<noteq> 62) (drop (Suc 0) s))) (drop (Suc 0) s))"
    for s :: jstring
    using starts_with_length [OF that] by simp
  then show ?thesis by (auto simp: shrinks_def match_tag_def Let_def split: if_splits)
qed

lemma shrinks_unescape: "m \<in> set unescape_steps \<Longrightarrow> shrinks m"
  by (auto simp: unescape_steps_def match_hex_def match_dec_def
      intro!: shrinks_digits shrinks_lit)

lemma strip_once_shrinks: "strip_once s = s \<or> length (strip_once s) + 2 \<le> length s"
  using replace_all_shrinks [OF shrinks_tag, of s] by (auto simp: strip_once_def split: sum.split)

text \<open>The \<open>while\<close> loop of \<open>stripTags\<close>: it repeats the pass as long as the text has an opening
  bracket and the pass changes it.\<close>

function stripTags :: "jstring \<Rightarrow> jstring" where
  "stripTags out = (if 60 \<in> set out then
     (let next = strip_once out in if next = out then out else stripTags next) else out)"
  by pat_completeness auto
termination
proof (relation "measure length")
  fix out nxt :: jstring
  assume "60 \<in> set out" "nxt = strip_once out" "nxt \<noteq> out"
  with strip_once_shrinks [of out] show "(nxt, out) \<in> measure length" by auto
qed simp

declare stripTags.simps [simp del]

definition sanitizePassApprox :: "jstring \<Rightarrow> jstring result" where
  "sanitizePassApprox s = res_bind (unescapeOnce s) (\<lambda>t. unescapeOnce (stripTags t))"

text \<open>\<open>echoNormalize\<close>'s bounded loop; the first argument counts the iterations left of its 20.\<close>

fun echoNormalizeLoop :: "nat \<Rightarrow> jstring \<Rightarrow> jstring result" where
  "echoNormalizeLoop 0 cur = Inr cur"
| "echoNormalizeLoop (Suc n) cur = res_bind (sanitizePassApprox cur) (\<lambda>next.
     if next = cur then Inr next else echoNormalizeLoop n next)"

definition echoNormalize :: "jstring \<Rightarrow> jstring result" where
  "echoNormalize s = echoNormalizeLoop 20 s"

lemma stripTags_shrinks: "stripTags s = s \<or> length (stripTags s) + 2 \<le> length s"
proof (induction s rule: stripTags.induct)
  case (1 out)
  show ?case
    using 1 strip_once_shrinks [of out] by (subst (1 2) stripTags.simps) (auto simp: Let_def)
qed

lemma foldl_steps_Inl: "foldl (\<lambda>r m. res_bind r (replace_all m)) (Inl e) ms = Inl e"
  by (induction ms) auto

lemma steps_shrink:
  "(\<And>m. m \<in> set ms \<Longrightarrow> shrinks m) \<Longrightarrow>
     foldl (\<lambda>r m. res_bind r (replace_all m)) (Inr s) ms = Inr t \<Longrightarrow> t = s \<or> length t + 2 \<le> length s"
proof (induction ms arbitrary: s)
  case Nil
  then show ?case by simp
next
  case (Cons m ms)
  from Cons.prems(2) obtain u where u: "replace_all m s = Inr u"
    by (cases "replace_all m s") (auto simp: foldl_steps_Inl)
  from Cons.prems(1) have "u = s \<or> length u + 2 \<le> length s"
    by (intro replace_all_shrinks [OF _ u]) simp
  moreover from Cons.prems u have "t = u \<or> length t + 2 \<le> length u"
    by (intro Cons.IH) auto
  ultimately show ?case by auto
qed

lemma unescapeOnce_shrinks: "unescapeOnce s = Inr t \<Longrightarrow> t = s \<or> length t + 2 \<le> length s"
  unfolding unescapeOnce_def by (rule steps_shrink) (rule shrinks_unescape)

lemma sanitizePassApprox_shrinks:
  assumes "sanitizePassApprox s = Inr t"
  shows "t = s \<or> length t + 2 \<le> length s"
proof -
  from assms obtain u where u: "unescapeOnce s = Inr u" and t: "unescapeOnce (stripTags u) = Inr t"
    unfolding sanitizePassApprox_def by (rule res_bind_InrE)
  from unescapeOnce_shrinks [OF u] unescapeOnce_shrinks [OF t] stripTags_shrinks [of u]
  show ?thesis by auto
qed

lemma sanitizePassApprox_Nil: "sanitizePassApprox [] = Inr []"
  by (simp add: sanitizePassApprox_def unescapeOnce_def unescape_steps_def stripTags.simps)

lemma echoNormalizeLoop_props:
  "echoNormalizeLoop n s = Inr t \<Longrightarrow>
     length t \<le> length s \<and> (length s \<le> 2 * n \<longrightarrow> sanitizePassApprox t = Inr t)"
proof (induction n arbitrary: s)
  case 0
  then show ?case by (auto simp: sanitizePassApprox_Nil)
next
  case (Suc n)
  from Suc.prems obtain u where u: "sanitizePassApprox s = Inr u"
    and t: "(if u = s then Inr u else echoNormalizeLoop n u) = Inr t"
    by (auto elim: res_bind_InrE)
  show ?case
  proof (cases "u = s")
    case True
    with u t show ?thesis by simp
  next
    case False
    with sanitizePassApprox_shrinks [OF u] have "length u + 2 \<le> length s" by simp
    with Suc.IH [of u] False t show ?thesis by auto
  qed
qed

subsection \<open>Text without entities\<close>

definition needs_amp :: "matcher \<Rightarrow> bool" where
  "needs_amp m \<longleftrightarrow> (\<forall>c cs. c \<noteq> 38 \<longrightarrow> m (c # cs) = None)"

lemma replace_all_no_amp: "needs_amp m \<Longrightarrow> 38 \<notin> set s \<Longrightarrow> replace_all m s = Inr s"
  by (induction s) (auto simp: needs_amp_def)

lemma needs_amp_unescape: "m \<in> set unescape_steps \<Longrightarrow> needs_amp m"
  by (auto simp: needs_amp_def unescape_steps_def match_hex_def match_dec_def match_digits_def
      match_lit_def starts_with_def js_lit_def)

lemma steps_no_amp:
  "(\<And>m. m \<in> set ms \<Longrightarrow> needs_amp m) \<Longrightarrow> 38 \<notin> set s \<Longrightarrow>
     foldl (\<lambda>r m. res_bind r (replace_all m)) (Inr s) ms = Inr s"
  by (induction ms) (auto simp: replace_all_no_amp)

lemma unescapeOnce_no_amp: "38 \<notin> set s \<Longrightarrow> unescapeOnce s = Inr s"
  unfolding unescapeOnce_def by (rule steps_no_amp) (rule needs_amp_unescape)

lemma replace_all_subset:
  "(\<And>s k u. m s = Some (k, Inr u) \<Longrightarrow> u = []) \<Longrightarrow> replace_all m s = Inr t \<Longrightarrow> set t \<subseteq> set s"
proof (induction m s arbitrary: t rule: replace_all.induct)
  case (1 m)
  then show ?case by simp
next
  case (2 m c cs)
  show ?case
  proof (cases "m (c # cs)")
    case None
    with "2.prems"(2) obtain t' where t': "replace_all m cs = Inr t'" "t = c # t'"
      by (auto elim: res_bind_InrE)
    have "set t' \<subseteq> set cs" by (rule "2.IH"(1) [OF None "2.prems"(1) t'(1)])
    with t'(2) show ?thesis by auto
  next
    case (Some kr)
    obtain k r where kr: "kr = (k, r)" by (cases kr)
    from Some kr "2.prems"(2) obtain u t' where r: "r = Inr u"
      and t': "replace_all m (drop (k - 1) cs) = Inr t'" "t = u @ t'"
      by (auto elim!: res_bind_InrE)
    have "set t' \<subseteq> set (drop (k - 1) cs)"
      by (rule "2.IH"(2) [OF Some kr [symmetric] "2.prems"(1) t'(1)])
    moreover have "u = []" using "2.prems"(1) Some kr r by blast
    ultimately show ?thesis using t'(2) set_drop_subset [of "k - 1" cs] by auto
  qed
qed

lemma strip_once_subset: "set (strip_once s) \<subseteq> set s"
proof (cases "replace_all match_tag s")
  case (Inr t)
  have "set t \<subseteq> set s"
    by (rule replace_all_subset [OF _ Inr]) (auto simp: match_tag_def Let_def split: if_splits)
  with Inr show ?thesis by (simp add: strip_once_def)
qed (simp add: strip_once_def)

lemma stripTags_subset: "set (stripTags s) \<subseteq> set s"
proof (induction s rule: stripTags.induct)
  case (1 out)
  with strip_once_subset [of out] show ?case
    by (subst stripTags.simps) (auto simp: Let_def)
qed

lemma stripTags_idem: "stripTags (stripTags s) = stripTags s"
proof (induction s rule: stripTags.induct)
  case (1 out)
  show ?case
  proof (cases "60 \<in> set out \<and> strip_once out \<noteq> out")
    case True
    with 1 show ?thesis by (simp add: stripTags.simps [of out] Let_def)
  next
    case False
    then have "stripTags out = out" by (subst stripTags.simps) (auto simp: Let_def)
    then show ?thesis by simp
  qed
qed

lemma stripTags_no_amp: "38 \<notin> set s \<Longrightarrow> 38 \<notin> set (stripTags s)"
  using stripTags_subset [of s] by blast

lemma sanitizePassApprox_no_amp: "38 \<notin> set s \<Longrightarrow> sanitizePassApprox s = Inr (stripTags s)"
  by (simp add: sanitizePassApprox_def unescapeOnce_no_amp stripTags_no_amp)

lemma echoNormalizeLoop_no_amp:
  "38 \<notin> set s \<Longrightarrow> echoNormalizeLoop (Suc (Suc n)) s = Inr (stripTags s)"
  by (simp add: sanitizePassApprox_no_amp stripTags_no_amp stripTags_idem)

lemma echoNormalize_no_amp: "38 \<notin> set s \<Longrightarrow> echoNormalize s = Inr (stripTags s)"
  using echoNormalizeLoop_no_amp [of s 18] by (simp add: echoNormalize_def eval_nat_numeral)




subsection \<open>Is this row our own echo?\<close>

definition isUnreconciledEcho :: "message \<Rightarrow> message \<Rightarrow> bool result" where
  "isUnreconciledEcho optimistic candidate = (
     if msg_clientMessageId optimistic \<noteq> None then
       Inr (msg_status optimistic \<noteq> Sent \<and> u_id (msg_user optimistic) = u_id (msg_user candidate) \<and>
            msg_clientMessageId optimistic = msg_clientMessageId candidate)
     else if (msg_status optimistic = Pending \<or>
              msg_status optimistic = Failed \<and> msg_errorCode optimistic = Some ''OFFLINE'') \<and>
             msg_correlationId optimistic \<noteq> None \<and>
             u_id (msg_user optimistic) = u_id (msg_user candidate)
     then (if msg_content optimistic = msg_content candidate then Inr True
           else res_bind (echoNormalize (msg_content optimistic)) (\<lambda>n. Inr (n = msg_content candidate)))
     else Inr False)"

text \<open>What a caller may rely on: only an unsent row of the same author is an echo, and whenever the
  row carries a stable client id that id alone decides.\<close>

lemma echo_unsent:
  "isUnreconciledEcho m c = Inr True \<Longrightarrow> msg_status m \<noteq> Sent \<and> u_id (msg_user m) = u_id (msg_user c)"
  by (auto simp: isUnreconciledEcho_def split: if_splits)

lemma echo_sent [simp]: "msg_status m = Sent \<Longrightarrow> isUnreconciledEcho m c = Inr False"
  by (simp add: isUnreconciledEcho_def)

lemma echo_stable: "msg_clientMessageId m \<noteq> None \<Longrightarrow>
    isUnreconciledEcho m c = Inr (msg_status m \<noteq> Sent \<and> u_id (msg_user m) = u_id (msg_user c) \<and>
      msg_clientMessageId m = msg_clientMessageId c)"
  by (simp add: isUnreconciledEcho_def)

lemma echo_total:
  "msg_clientMessageId m \<noteq> None \<or> 38 \<notin> set (msg_content m) \<Longrightarrow> \<exists>b. isUnreconciledEcho m c = Inr b"
  by (auto simp: isUnreconciledEcho_def echoNormalize_no_amp)

subsection \<open>Properties\<close>

text \<open>Normalising what the user typed never lengthens it, and for texts of up to 40 code units
  the 20 iterations are enough: the result is a fixpoint of the sanitising pass.\<close>

theorem echoNormalize_fixpoint:
  assumes "echoNormalize s = Inr t"
  shows "length t \<le> length s \<and> (length s \<le> 40 \<longrightarrow> sanitizePassApprox t = Inr t)"
  using echoNormalizeLoop_props [of 20 s t] assms by (simp add: echoNormalize_def)

theorem echoNormalize_fixpoint_witness:
  "let s = js_lit ''a<b>c</b>'' in echoNormalize s = Inr (stripTags s) \<and>
     length (stripTags s) \<le> length s \<and> sanitizePassApprox (stripTags s) = Inr (stripTags s)"
proof -
  let ?s = "js_lit ''a<b>c</b>''"
  have "echoNormalize ?s = Inr (stripTags ?s)"
    by (rule echoNormalize_no_amp) (simp add: js_lit_def)
  with echoNormalize_fixpoint [OF this] show ?thesis by (simp add: Let_def)
qed



end
