(* ===== verification/Poll_State.thy ===== *)
theory Poll_State
  imports Message_Model
begin

text \<open>
  \<open>lib/pollState.ts\<close>: how a poll copy changes. A copy carries two watermarks, the version of its
  counts and the version of the viewer's own selection. The lemmas show that merging two copies
  takes the maximum of each watermark and never reopens an ended poll, and that two updates of one
  poll leave the same card in whichever order they arrive.
\<close>

subsection \<open>Merging two copies\<close>

definition mergePoll :: "poll_view option \<Rightarrow> poll_view option \<Rightarrow> poll_view option" where
  "mergePoll prev next = (case (prev, next) of
     (Some p, Some n) \<Rightarrow>
       (let takeNext = pr_version (po_results n) \<ge> pr_version (po_results p);
            results = (if takeNext then po_results n else po_results p);
            ownNext = selfVersion n \<ge> selfVersion p;
            own = (if ownNext then n else p)
        in if takeNext \<and> ownNext \<and> (po_ended n \<or> \<not> po_ended p) then Some n
           else Some (n\<lparr>po_ended := po_ended p \<or> po_ended n,
                        po_ended_at := alt (po_ended_at n) (po_ended_at p),
                        po_results := results\<lparr>pr_me := pr_me (po_results own)\<rparr>,
                        selfVersion := selfVersion own\<rparr>))
   | _ \<Rightarrow> next)"

definition mergeMessagePoll :: "message option \<Rightarrow> message \<Rightarrow> message" where
  "mergeMessagePoll prev next = (case prev of
     None \<Rightarrow> next
   | Some p \<Rightarrow>
       if msg_poll next = None then next
       else next\<lparr>msg_poll := alt (mergePoll (msg_poll p) (msg_poll next)) (msg_poll next)\<rparr>)"

lemma mergePoll_Some: "\<exists>q. mergePoll (Some p) (Some n) = Some q"
  by (auto simp: mergePoll_def Let_def)

lemma mergeMessagePoll_simps [simp]:
  "msg_id (mergeMessagePoll p n) = msg_id n" "msg_status (mergeMessagePoll p n) = msg_status n"
  "msg_channelId (mergeMessagePoll p n) = msg_channelId n"
  "msg_user (mergeMessagePoll p n) = msg_user n"
  "msg_content (mergeMessagePoll p n) = msg_content n"
  "msg_correlationId (mergeMessagePoll p n) = msg_correlationId n"
  "msg_clientMessageId (mergeMessagePoll p n) = msg_clientMessageId n"
  "mergeMessagePoll None n = n"
  by (simp_all add: mergeMessagePoll_def split: option.split)

lemma mergeMessagePoll_self: "mergeMessagePoll (Some m) m = m"
  by (cases "msg_poll m") (simp_all add: mergeMessagePoll_def mergePoll_def)

lemma mergeMessagePoll_no_poll: "msg_poll n = None \<Longrightarrow> mergeMessagePoll p n = n"
  by (simp add: mergeMessagePoll_def split: option.split)

lemma mergePoll_watermarks:
  assumes "mergePoll (Some p) (Some n) = Some q"
  shows "pr_version (po_results q) = max (pr_version (po_results p)) (pr_version (po_results n))"
    and "selfVersion q = max (selfVersion p) (selfVersion n)"
    and "po_ended q = (po_ended p \<or> po_ended n)"
  using assms by (auto simp: mergePoll_def Let_def split: if_splits)

lemma mergePoll_absorb:
  assumes "mergePoll (Some p) (Some n) = Some q"
  shows "mergePoll (Some q) (Some n) = Some q"
proof (cases "pr_version (po_results n) \<ge> pr_version (po_results p) \<and> selfVersion n \<ge> selfVersion p \<and>
    (po_ended n \<or> \<not> po_ended p)")
  case True
  with assms have "q = n" by (auto simp: mergePoll_def Let_def)
  then show ?thesis by (simp add: mergePoll_def)
next
  case False
  let ?t = "pr_version (po_results n) \<ge> pr_version (po_results p)" and ?o = "selfVersion n \<ge> selfVersion p"
  let ?r = "if ?t then po_results n else po_results p" and ?w = "if ?o then n else p"
  have q: "q = n\<lparr>po_ended := po_ended p \<or> po_ended n, po_ended_at := alt (po_ended_at n) (po_ended_at p),
      po_results := ?r\<lparr>pr_me := pr_me (po_results ?w)\<rparr>, selfVersion := selfVersion ?w\<rparr>"
    using assms False unfolding mergePoll_def Let_def by auto
  have at: "alt x (alt x y) = alt x y" for x y :: "string option" by (cases x) simp_all
  show ?thesis
    using False by (cases ?t; cases ?o) (simp_all add: q mergePoll_def Let_def at)
qed

lemma mergeMessagePoll_absorb:
  "mergeMessagePoll (Some (mergeMessagePoll (Some p) n)) n = mergeMessagePoll (Some p) n"
proof (cases "msg_poll n")
  case None
  then show ?thesis by (simp add: mergeMessagePoll_def)
next
  case (Some b)
  show ?thesis
  proof (cases "msg_poll p")
    case None
    with Some show ?thesis by (simp add: mergeMessagePoll_def mergePoll_def Let_def)
  next
    case (Some a)
    obtain q where q: "mergePoll (Some a) (Some b) = Some q" using mergePoll_Some by blast
    with mergePoll_absorb [OF q] Some \<open>msg_poll n = Some b\<close> show ?thesis
      by (simp add: mergeMessagePoll_def)
  qed
qed

subsection \<open>Updating one poll message\<close>

definition withPoll ::
  "messages_state \<Rightarrow> int \<Rightarrow> int \<Rightarrow> (poll_view \<Rightarrow> poll_view) \<Rightarrow> messages_state" where
  "withPoll prev channelId messageId change =
     (case jm_get (messagesByChannel prev) channelId of
        None \<Rightarrow> prev
      | Some list \<Rightarrow>
          (case find_index (\<lambda>m. msg_id m = messageId \<and> msg_poll m \<noteq> None) list of
             None \<Rightarrow> prev
           | Some index \<Rightarrow>
               (let row = list ! index; poll = map_option change (msg_poll row)
                in if poll = msg_poll row then prev
                   else prev\<lparr>messagesByChannel :=
                     jm_set (messagesByChannel prev) channelId
                       (list[index := row\<lparr>msg_poll := poll\<rparr>])\<rparr>)))"

text \<open>The change \<open>reducePollUpdate\<close> passes to \<open>withPoll\<close>.\<close>

definition pollUpdateChange :: "poll_update_payload \<Rightarrow> int \<Rightarrow> poll_view \<Rightarrow> poll_view" where
  "pollUpdateChange payload currentUserId poll =
     (let newer = pu_version payload > pr_version (po_results poll);
          own = pu_user_id payload = Some currentUserId \<and> pu_answer_ids payload \<noteq> None \<and>
                pu_version payload > selfVersion poll;
          me = (if own then nullish (pu_answer_ids payload) [] else pr_me (po_results poll))
      in if \<not> newer \<and> \<not> own then poll
         else if \<not> newer then poll\<lparr>po_results := (po_results poll)\<lparr>pr_me := me\<rparr>,
                                   selfVersion := pu_version payload\<rparr>
         else poll\<lparr>po_ended := po_ended poll \<or> pu_ended payload,
                   po_ended_at := alt (pu_ended_at payload) (po_ended_at poll),
                   po_results := \<lparr>pr_version = pu_version payload,
                                  pr_total_voters = pu_total_voters payload,
                                  pr_counts = pu_counts payload, pr_me = me\<rparr>,
                   selfVersion := (if own then pu_version payload else selfVersion poll)\<rparr>)"

definition reducePollUpdate ::
  "messages_state \<Rightarrow> poll_update_payload \<Rightarrow> int \<Rightarrow> messages_state" where
  "reducePollUpdate prev payload currentUserId =
     withPoll prev (pu_channel_id payload) (pu_message_id payload)
       (pollUpdateChange payload currentUserId)"

definition pollVoteOkChange :: "poll_vote_ok_payload \<Rightarrow> poll_view \<Rightarrow> poll_view" where
  "pollVoteOkChange payload poll =
     (if pv_version payload > selfVersion poll
      then poll\<lparr>po_results := (po_results poll)\<lparr>pr_me := pv_answer_ids payload\<rparr>,
                selfVersion := pv_version payload\<rparr>
      else poll)"

fun pollVoteOkLoop :: "int list \<Rightarrow> messages_state \<Rightarrow> poll_vote_ok_payload \<Rightarrow> messages_state" where
  "pollVoteOkLoop [] prev payload = prev"
| "pollVoteOkLoop (channelId # cs) prev payload =
     (let next = withPoll prev channelId (pv_message_id payload) (pollVoteOkChange payload)
      in if next \<noteq> prev then next else pollVoteOkLoop cs prev payload)"

definition reducePollVoteOk :: "messages_state \<Rightarrow> poll_vote_ok_payload \<Rightarrow> messages_state" where
  "reducePollVoteOk prev payload = pollVoteOkLoop (jm_keys (messagesByChannel prev)) prev payload"

subsection \<open>How withPoll acts on the rows\<close>

abbreviation has_poll :: "int \<Rightarrow> message \<Rightarrow> bool" where
  "has_poll mid m \<equiv> msg_id m = mid \<and> msg_poll m \<noteq> None"

definition poll_rows :: "int \<Rightarrow> (poll_view \<Rightarrow> poll_view) \<Rightarrow> message list \<Rightarrow> message list" where
  "poll_rows mid change =
     update_first (has_poll mid) (\<lambda>m. m\<lparr>msg_poll := map_option change (msg_poll m)\<rparr>)"

lemma withPoll_eq:
  "withPoll s c mid f = (case jm_get (messagesByChannel s) c of None \<Rightarrow> s
     | Some list \<Rightarrow> s\<lparr>messagesByChannel := jm_set (messagesByChannel s) c (poll_rows mid f list)\<rparr>)"
proof (cases "jm_get (messagesByChannel s) c")
  case None
  then show ?thesis by (simp add: withPoll_def)
next
  case (Some list)
  note found = this
  have same: "s\<lparr>messagesByChannel := jm_set (messagesByChannel s) c list\<rparr> = s"
    using found by (simp add: jm_set_same)
  show ?thesis
  proof (cases "find_index (has_poll mid) list")
    case None
    with found same show ?thesis
      by (simp add: withPoll_def poll_rows_def update_first_find_index)
  next
    case (Some i)
    let ?r = "list ! i"
    have "list[i := ?r\<lparr>msg_poll := map_option f (msg_poll ?r)\<rparr>] = list"
      if "map_option f (msg_poll ?r) = msg_poll ?r"
      using that by simp
    with found Some same show ?thesis
      by (auto simp: withPoll_def poll_rows_def update_first_find_index Let_def)
  qed
qed

lemma poll_rows_compose: "poll_rows mid g (poll_rows mid f xs) = poll_rows mid (g \<circ> f) xs"
proof -
  let ?u = "\<lambda>h m. m\<lparr>msg_poll := map_option h (msg_poll m)\<rparr>"
  have "update_first (has_poll mid) (?u g) (update_first (has_poll mid) (?u f) xs) =
      update_first (has_poll mid) (?u g \<circ> ?u f) xs"
    by (rule update_first_compose) simp
  also have "?u g \<circ> ?u f = ?u (g \<circ> f)"
    by (rule ext) (simp add: option.map_comp)
  finally show ?thesis by (simp only: poll_rows_def)
qed

lemma withPoll_compose: "withPoll (withPoll s c mid f) c mid g = withPoll s c mid (g \<circ> f)"
proof (cases "jm_get (messagesByChannel s) c")
  case None
  then show ?thesis by (simp add: withPoll_eq)
next
  case (Some list)
  have "jm_set (jm_set m c a) c b = jm_set m c b" for m :: "(int, message list) jmap" and a b
    by (simp add: jm_set_def)
  with Some show ?thesis
    by (simp add: withPoll_eq poll_rows_compose)
qed

lemma real_ids_poll_rows [simp]: "real_ids (poll_rows mid f xs) = real_ids xs"
  unfolding poll_rows_def by (rule real_ids_update_first) simp

lemma poll_rows_Nil [simp]: "poll_rows mid f [] = []"
  by (simp add: poll_rows_def)

lemma rows_withPoll: "rows (withPoll s c mid f) d = (if d = c then poll_rows mid f (rows s c) else rows s d)"
  by (simp add: withPoll_eq rows_def split: option.split)

lemma withPoll_store_ok: "store_ok s \<Longrightarrow> store_ok (withPoll s c mid f)"
proof -
  have "rows_ok (poll_rows mid f ms) = rows_ok ms" for ms
    unfolding poll_rows_def by (rule rows_ok_update_first) simp
  then show "store_ok s \<Longrightarrow> store_ok (withPoll s c mid f)"
    by (auto simp: withPoll_eq split: option.split dest: store_ok_SomeD)
qed

lemma polls_store_ok:
  assumes "store_ok s"
  shows "store_ok (reducePollUpdate s p me)" and "store_ok (reducePollVoteOk s q)"
proof -
  show "store_ok (reducePollUpdate s p me)"
    unfolding reducePollUpdate_def by (rule withPoll_store_ok [OF assms])
  have "store_ok (pollVoteOkLoop cs s q)" for cs
    by (induction cs) (auto simp: Let_def assms withPoll_store_ok)
  then show "store_ok (reducePollVoteOk s q)" by (simp add: reducePollVoteOk_def)
qed

text \<open>The four ways a frame acts on a copy: its counts may be newer or not, and it may move the
  viewer's own selection or not.\<close>

definition own_vote :: "poll_update_payload \<Rightarrow> int \<Rightarrow> bool" where
  "own_vote u me = (pu_user_id u = Some me \<and> pu_answer_ids u \<noteq> None)"

lemma pollUpdateChange_cases:
  "pu_version u \<le> pr_version (po_results p) \<Longrightarrow> \<not> (own_vote u me \<and> pu_version u > selfVersion p) \<Longrightarrow>
     pollUpdateChange u me p = p"
  "pu_version u \<le> pr_version (po_results p) \<Longrightarrow> own_vote u me \<and> pu_version u > selfVersion p \<Longrightarrow>
     pollUpdateChange u me p =
       p\<lparr>po_results := (po_results p)\<lparr>pr_me := nullish (pu_answer_ids u) []\<rparr>, selfVersion := pu_version u\<rparr>"
  "pu_version u > pr_version (po_results p) \<Longrightarrow> own_vote u me \<and> pu_version u > selfVersion p \<Longrightarrow>
     pollUpdateChange u me p =
       p\<lparr>po_ended := po_ended p \<or> pu_ended u, po_ended_at := alt (pu_ended_at u) (po_ended_at p),
         po_results := \<lparr>pr_version = pu_version u, pr_total_voters = pu_total_voters u,
           pr_counts = pu_counts u, pr_me = nullish (pu_answer_ids u) []\<rparr>, selfVersion := pu_version u\<rparr>"
  "pu_version u > pr_version (po_results p) \<Longrightarrow> \<not> (own_vote u me \<and> pu_version u > selfVersion p) \<Longrightarrow>
     pollUpdateChange u me p =
       p\<lparr>po_ended := po_ended p \<or> pu_ended u, po_ended_at := alt (pu_ended_at u) (po_ended_at p),
         po_results := \<lparr>pr_version = pu_version u, pr_total_voters = pu_total_voters u,
           pr_counts = pu_counts u, pr_me = pr_me (po_results p)\<rparr>\<rparr>"
  unfolding pollUpdateChange_def Let_def
  by (simp_all only: own_vote_def [symmetric] conj_assoc [symmetric]) simp_all

text \<open>Two frames of one poll, the second of a higher version, change it the same way in either
  order when an end seen by the first is also seen by the second.\<close>

lemma pollUpdateChange_commute:
  assumes "pu_version a < pu_version b" and "pu_ended a \<longrightarrow> pu_ended b"
    and "pu_ended_at a \<noteq> None \<longrightarrow> pu_ended_at b \<noteq> None"
  shows "pollUpdateChange a me (pollUpdateChange b me p) =
         pollUpdateChange b me (pollUpdateChange a me p)"
proof -
  have ended: "(pu_ended a \<or> pu_ended b) = pu_ended b"
    using assms(2) by blast
  have at: "alt (pu_ended_at b) (alt (pu_ended_at a) x) = alt (pu_ended_at b) x" for x
    using assms(3) by (auto simp: alt_def split: option.splits)
  consider "pr_version (po_results p) < pu_version a" | "pu_version a \<le> pr_version (po_results p)"
    "pr_version (po_results p) < pu_version b" | "pu_version b \<le> pr_version (po_results p)"
    using assms(1) by linarith
  note newer = this
  show ?thesis
    by (cases "own_vote a me \<and> pu_version a > selfVersion p";
        cases "own_vote b me \<and> pu_version b > selfVersion p"; cases rule: newer)
      (use assms(1) in \<open>auto simp: pollUpdateChange_cases ended at\<close>)
qed

subsection \<open>Sample poll\<close>

definition sample_poll :: "int \<Rightarrow> int \<Rightarrow> poll_view" where
  "sample_poll v sv = \<lparr>po_question = ''q'', po_answers = [], po_allow_multiselect = False,
     po_expires_at = ''t'', po_ended = False, po_ended_at = None,
     po_results = \<lparr>pr_version = v, pr_total_voters = 0, pr_counts = [], pr_me = []\<rparr>,
     selfVersion = sv\<rparr>"

definition sample_poll_update :: "int \<Rightarrow> int \<Rightarrow> poll_update_payload" where
  "sample_poll_update v uid = \<lparr>pu_channel_id = 1, pu_message_id = 10, pu_version = v,
     pu_total_voters = v, pu_counts = [], pu_ended = False, pu_ended_at = None,
     pu_user_id = Some uid, pu_answer_ids = Some [uid]\<rparr>"

subsection \<open>Properties\<close>

text \<open>Merging a refetched or replayed copy of a poll never moves it back: the counts' version
  and the viewer's own version of the result are the maxima of the two copies, and an ended poll
  stays ended.\<close>

theorem mergePoll_monotone:
  "\<exists>q. mergePoll (Some p) (Some n) = Some q \<and>
       pr_version (po_results q) = max (pr_version (po_results p)) (pr_version (po_results n)) \<and>
       selfVersion q = max (selfVersion p) (selfVersion n) \<and>
       po_ended q = (po_ended p \<or> po_ended n)"
proof -
  obtain q where "mergePoll (Some p) (Some n) = Some q"
    using mergePoll_Some by blast
  with mergePoll_watermarks [OF this] show ?thesis by auto
qed

text \<open>Two poll updates of one message leave the same state in whichever order they are applied,
  provided the higher version reports the end that the lower one reported.\<close>

theorem reducePollUpdate_order_independent:
  assumes "pu_channel_id a = pu_channel_id b" and "pu_message_id a = pu_message_id b"
    and "pu_version a < pu_version b" and "pu_ended a \<longrightarrow> pu_ended b"
    and "pu_ended_at a \<noteq> None \<longrightarrow> pu_ended_at b \<noteq> None"
  shows "reducePollUpdate (reducePollUpdate s a me) b me = reducePollUpdate (reducePollUpdate s b me) a me"
proof -
  have "pollUpdateChange b me \<circ> pollUpdateChange a me = pollUpdateChange a me \<circ> pollUpdateChange b me"
    by (rule ext) (use pollUpdateChange_commute [OF assms(3-5), of me] in simp)
  with assms(1,2) show ?thesis
    by (simp add: reducePollUpdate_def withPoll_compose)
qed

theorem reducePollUpdate_order_independent_witness:
  "let s = INITIAL_STATE\<lparr>messagesByChannel :=
             [(1, [(sample_row 1 10)\<lparr>msg_poll := Some (sample_poll 0 0)\<rparr>])]\<rparr>;
       a = sample_poll_update 1 7; b = sample_poll_update 2 8
   in reducePollUpdate (reducePollUpdate s a 7) b 7 = reducePollUpdate (reducePollUpdate s b 7) a 7"
  unfolding Let_def
  by (rule reducePollUpdate_order_independent) (simp_all add: sample_poll_update_def)

end
