(* ===== verification/Live_Messages.thy ===== *)
theory Live_Messages
  imports Echo_Reconcile Poll_State
begin

text \<open>
  \<open>features/messaging/liveMessages.ts\<close>: the reducers for a live broadcast, for the user's own
  optimistic row with its acknowledgement, failure and removal, and for the refresh of one row.

  A send lives through \<open>addOptimisticMessage\<close>, \<open>confirmSend\<close> and the broadcast \<open>addMessage\<close>; the
  lemmas show that the acknowledgement and the broadcast lead to the same state in either order,
  that a redelivered broadcast adds no row, that a live row waits behind a detached window, and
  where it is inserted and what is evicted otherwise.
\<close>

subsection \<open>Helpers of the loops\<close>

text \<open>\<open>if (m.correlationId) pendingSends.delete(m.correlationId)\<close>: an empty string is falsy.\<close>

definition drop_correlation :: "(string, int) jmap \<Rightarrow> message \<Rightarrow> (string, int) jmap" where
  "drop_correlation p m = (case msg_correlationId m of
     None \<Rightarrow> p | Some k \<Rightarrow> if k = [] then p else jm_delete p k)"

text \<open>\<open>while (at > 0 && P(existing[at - 1])) at--\<close>\<close>

fun back_while :: "('a \<Rightarrow> bool) \<Rightarrow> 'a list \<Rightarrow> nat \<Rightarrow> nat" where
  "back_while P xs 0 = 0"
| "back_while P xs (Suc n) = (if P (xs ! n) then back_while P xs n else Suc n)"

text \<open>\<open>for (const [cid, list] of messagesByChannel)\<close> up to the first list that satisfies the test.\<close>

fun find_channel :: "(message list \<Rightarrow> bool) \<Rightarrow> (int, message list) jmap \<Rightarrow> int option" where
  "find_channel P [] = None"
| "find_channel P ((cid, list) # m) = (if P list then Some cid else find_channel P m)"

subsection \<open>A live broadcast\<close>

fun replaceById :: "message \<Rightarrow> message \<Rightarrow> nat \<Rightarrow> nat \<Rightarrow> message list \<Rightarrow> (string, int) jmap \<Rightarrow>
    (message list \<times> (string, int) jmap) result" where
  "replaceById message incoming idIdx i [] pending = Inr ([], pending)"
| "replaceById message incoming idIdx i (m # ms) pending = (
     if i = idIdx then
       res_bind (replaceById message incoming idIdx (Suc i) ms pending)
         (\<lambda>(r, p). Inr (incoming # r, p))
     else res_bind (if msg_clientMessageId message \<noteq> None then isUnreconciledEcho m message
                    else Inr False) (\<lambda>twin.
       if twin then replaceById message incoming idIdx (Suc i) ms (drop_correlation pending m)
       else res_bind (replaceById message incoming idIdx (Suc i) ms pending)
              (\<lambda>(r, p). Inr (m # r, p))))"

definition insertLive :: "message list \<Rightarrow> message \<Rightarrow> message list" where
  "insertLive existing message = (
     let insertAt = back_while (\<lambda>m. msg_status m \<noteq> Sent) existing (length existing);
         updatedMsgs = take insertAt existing @ message # drop insertAt existing
     in if length updatedMsgs > MAX_MESSAGES_PER_CHANNEL
        then drop (length updatedMsgs - MAX_MESSAGES_PER_CHANNEL) updatedMsgs else updatedMsgs)"

definition reduceAddMessage :: "messages_state \<Rightarrow> message \<Rightarrow> messages_state result" where
  "reduceAddMessage prev message = (
     let channelId = msg_channelId message; existing = rows prev channelId
     in case find_index (\<lambda>m. msg_id m \<noteq> 0 \<and> msg_id m = msg_id message) existing of
          Some idIdx \<Rightarrow>
            (let incoming = mergeMessagePoll (Some (existing ! idIdx)) message
             in res_bind (replaceById message incoming idIdx 0 existing (pendingSends prev))
                  (\<lambda>(replaced, pending). Inr (prev\<lparr>
                     messagesByChannel := jm_set (messagesByChannel prev) channelId replaced,
                     pendingSends := pending\<rparr>)))
        | None \<Rightarrow> res_bind (find_index_res (\<lambda>m. isUnreconciledEcho m message) existing) (\<lambda>pendingIdx.
            case pendingIdx of
              Some i \<Rightarrow> Inr (prev\<lparr>
                messagesByChannel := jm_set (messagesByChannel prev) channelId (existing[i := message]),
                pendingSends := drop_correlation (pendingSends prev) (existing ! i)\<rparr>)
            | None \<Rightarrow>
                if js_has (detachedChannels prev) channelId then Inr prev
                else Inr (prev\<lparr>
                  messagesByChannel := jm_set (messagesByChannel prev) channelId
                    (insertLive existing message),
                  hasMore := (if length existing + 1 > MAX_MESSAGES_PER_CHANNEL
                              then jm_set (hasMore prev) channelId True else hasMore prev)\<rparr>)))"

subsection \<open>The user's own send\<close>

definition reduceAddOptimisticMessage ::
  "messages_state \<Rightarrow> int \<Rightarrow> string \<Rightarrow> message \<Rightarrow> messages_state" where
  "reduceAddOptimisticMessage prev channelId correlationId optimistic = (
     let existing = rows prev channelId;
         uploading = msg_status optimistic = Uploading;
         at = (if uploading then length existing
               else back_while (\<lambda>m. msg_status m = Uploading) existing (length existing));
         updated = jm_set (messagesByChannel prev) channelId
                     (take at existing @ optimistic # drop at existing)
     in if uploading then prev\<lparr>messagesByChannel := updated\<rparr>
        else prev\<lparr>messagesByChannel := updated,
                  pendingSends := jm_set (pendingSends prev) correlationId channelId\<rparr>)"

abbreviation has_correlation :: "string \<Rightarrow> message \<Rightarrow> bool" where
  "has_correlation k m \<equiv> msg_correlationId m = Some k"

definition reduceMarkSendFailed ::
  "messages_state \<Rightarrow> string \<Rightarrow> string option \<Rightarrow> messages_state" where
  "reduceMarkSendFailed prev correlationId errorCode = (
     case alt (jm_get (pendingSends prev) correlationId)
              (find_channel (\<lambda>list. list_ex (has_correlation correlationId) list)
                 (messagesByChannel prev)) of
       None \<Rightarrow> prev
     | Some channelId \<Rightarrow>
         (case jm_get (messagesByChannel prev) channelId of
            None \<Rightarrow> prev
          | Some existing \<Rightarrow> prev\<lparr>
              messagesByChannel := jm_set (messagesByChannel prev) channelId
                (map (\<lambda>m. if has_correlation correlationId m
                          then m\<lparr>msg_status := Failed, msg_errorCode := errorCode\<rparr> else m) existing),
              pendingSends := jm_delete (pendingSends prev) correlationId\<rparr>))"

definition reduceRemoveOptimistic :: "messages_state \<Rightarrow> string \<Rightarrow> messages_state" where
  "reduceRemoveOptimistic prev correlationId = (
     let updatedPending = jm_delete (pendingSends prev) correlationId;
         without = filter (\<lambda>m. \<not> has_correlation correlationId m)
     in case jm_get (pendingSends prev) correlationId of
          Some channelId \<Rightarrow>
            (case jm_get (messagesByChannel prev) channelId of
               None \<Rightarrow> prev\<lparr>pendingSends := updatedPending\<rparr>
             | Some existing \<Rightarrow> prev\<lparr>
                 messagesByChannel := jm_set (messagesByChannel prev) channelId (without existing),
                 pendingSends := updatedPending\<rparr>)
        | None \<Rightarrow>
            (case find_channel (\<lambda>list. list_ex (has_correlation correlationId) list)
                    (messagesByChannel prev) of
               Some cid \<Rightarrow> prev\<lparr>
                 messagesByChannel := jm_set (messagesByChannel prev) cid (without (rows prev cid)),
                 pendingSends := updatedPending\<rparr>
             | None \<Rightarrow> prev\<lparr>pendingSends := updatedPending\<rparr>))"

text \<open>The test \<open>confirmSend\<close> and \<open>channelIdForSend\<close> share: an unsent row of this transport
  or logical identity.\<close>

definition matchesSend :: "string \<Rightarrow> string option \<Rightarrow> message \<Rightarrow> bool" where
  "matchesSend correlationId clientMessageId m = (
     msg_status m \<noteq> Sent \<and>
     (has_correlation correlationId m \<or>
      (clientMessageId \<noteq> None \<and> msg_clientMessageId m = clientMessageId)))"

definition findSendChannel :: "messages_state \<Rightarrow> string \<Rightarrow> string option \<Rightarrow> int option" where
  "findSendChannel state correlationId clientMessageId =
     (case jm_get (pendingSends state) correlationId of
        Some registered \<Rightarrow> Some registered
      | None \<Rightarrow> find_channel (\<lambda>rs. list_ex (matchesSend correlationId clientMessageId) rs)
                  (messagesByChannel state))"

fun confirmRows :: "string \<Rightarrow> int \<Rightarrow> string \<Rightarrow> string option \<Rightarrow> bool \<Rightarrow> message list \<Rightarrow>
    (string, int) jmap \<Rightarrow> message list \<times> (string, int) jmap" where
  "confirmRows k i t x reconciled [] pending = ([], pending)"
| "confirmRows k i t x reconciled (m # ms) pending = (
     if \<not> matchesSend k x m then
       (let (r, p) = confirmRows k i t x reconciled ms pending in (m # r, p))
     else if reconciled then confirmRows k i t x True ms (drop_correlation pending m)
     else (let (r, p) = confirmRows k i t x True ms (drop_correlation pending m)
           in (m\<lparr>msg_id := i, msg_timestamp := t, msg_status := Sent, msg_errorCode := None\<rparr> # r, p)))"

definition reduceConfirmSend ::
  "messages_state \<Rightarrow> string \<Rightarrow> int \<Rightarrow> string \<Rightarrow> string option \<Rightarrow> messages_state" where
  "reduceConfirmSend prev correlationId messageId timestamp clientMessageId = (
     let channelId = alt (jm_get (pendingSends prev) correlationId)
           (find_channel (\<lambda>rs. list_ex (matchesSend correlationId clientMessageId) rs)
              (messagesByChannel prev));
         updatedPending = jm_delete (pendingSends prev) correlationId
     in case channelId of
          None \<Rightarrow> prev\<lparr>pendingSends := updatedPending\<rparr>
        | Some c \<Rightarrow>
            (case jm_get (messagesByChannel prev) c of
               None \<Rightarrow> prev\<lparr>pendingSends := updatedPending\<rparr>
             | Some existing \<Rightarrow>
                 (let alreadyInHistory = list_ex (\<lambda>m. msg_id m = messageId \<and> msg_status m = Sent) existing;
                      (updatedList, pending) = confirmRows correlationId messageId timestamp
                        clientMessageId alreadyInHistory existing updatedPending
                  in prev\<lparr>messagesByChannel := jm_set (messagesByChannel prev) c updatedList,
                          pendingSends := pending\<rparr>)))"

subsection \<open>Refreshing one row\<close>

definition reduceApplyServerMessage :: "messages_state \<Rightarrow> message_response \<Rightarrow> messages_state" where
  "reduceApplyServerMessage prev response =
     (case jm_get (messagesByChannel prev) (mr_channel_id response) of
        None \<Rightarrow> prev
      | Some existing \<Rightarrow>
          (let converted = messageResponseToMessage response
           in case find_index (\<lambda>m. msg_id m \<noteq> 0 \<and> msg_id m = msg_id converted) existing of
                None \<Rightarrow> prev
              | Some index \<Rightarrow> prev\<lparr>messagesByChannel :=
                  jm_set (messagesByChannel prev) (mr_channel_id response)
                    (existing[index := mergeMessagePoll (Some (existing ! index)) converted])\<rparr>))"

subsection \<open>Loop lemmas\<close>

lemma back_while_le: "back_while P xs n \<le> n"
  by (induction n) auto

lemma back_while_append:
  assumes "\<forall>x \<in> set zs. P x" and "ys = [] \<or> \<not> P (last ys)"
  shows "back_while P (ys @ zs @ ws) (length ys + length zs) = length ys"
  using assms
proof (induction zs arbitrary: ws rule: rev_induct)
  case Nil
  show ?case
  proof (cases ys rule: rev_cases)
    case Nil
    then show ?thesis by simp
  next
    case (snoc us u)
    with Nil.prems show ?thesis by (simp add: nth_append)
  qed
next
  case (snoc z zs)
  have "(ys @ zs @ [z] @ ws) ! (length ys + length zs) = z" by (simp add: nth_append)
  with snoc.prems snoc.IH [of "z # ws"] show ?case by simp
qed

lemma back_while_split:
  obtains ys zs where "xs = ys @ zs" "\<forall>z \<in> set zs. P z" "ys = [] \<or> \<not> P (last ys)"
    "back_while P xs (length xs) = length ys"
proof -
  have "\<exists>ys zs. xs = ys @ zs \<and> (\<forall>z \<in> set zs. P z) \<and> (ys = [] \<or> \<not> P (last ys))"
  proof (induction xs rule: rev_induct)
    case Nil
    then show ?case by simp
  next
    case (snoc x xs)
    then obtain ys zs where ih: "xs = ys @ zs" "\<forall>z \<in> set zs. P z" "ys = [] \<or> \<not> P (last ys)" by blast
    show ?case
    proof (cases "P x")
      case True
      with ih show ?thesis by (intro exI [of _ ys] exI [of _ "zs @ [x]"]) auto
    next
      case False
      then show ?thesis by (intro exI [of _ "xs @ [x]"] exI [of _ "[]"]) auto
    qed
  qed
  then obtain ys zs where "xs = ys @ zs" "\<forall>z \<in> set zs. P z" "ys = [] \<or> \<not> P (last ys)" by blast
  with back_while_append [of zs P ys "[]"] that show thesis by simp
qed


lemma find_channel_None: "find_channel P m = None \<longleftrightarrow> (\<forall>list \<in> snd ` set m. \<not> P list)"
  by (induction P m rule: find_channel.induct) auto

text \<open>The live insertion: behind the sent rows, before the trailing unsent ones, and then the newest
  500 rows.\<close>

lemma insertLive_eq:
  assumes "\<forall>m \<in> set zs. \<not> is_sent m" and "ys = [] \<or> is_sent (last ys)"
  shows "insertLive (ys @ zs) message = last_n MAX_MESSAGES_PER_CHANNEL (ys @ message # zs)"
proof -
  have "back_while (\<lambda>m. \<not> is_sent m) (ys @ zs) (length (ys @ zs)) = length ys"
    using back_while_append [of zs "\<lambda>m. \<not> is_sent m" ys "[]"] assms by simp
  then show ?thesis by (simp add: insertLive_def Let_def last_n_def)
qed

lemma insertLive_split:
  obtains ys zs where "existing = ys @ zs" "\<forall>m \<in> set zs. \<not> is_sent m" "ys = [] \<or> is_sent (last ys)"
    "\<And>message. insertLive existing message = last_n MAX_MESSAGES_PER_CHANNEL (ys @ message # zs)"
proof -
  obtain ys zs where "existing = ys @ zs" "\<forall>m \<in> set zs. \<not> is_sent m"
    "ys = [] \<or> \<not> \<not> is_sent (last ys)"
    by (rule back_while_split [of existing "\<lambda>m. \<not> is_sent m"])
  with insertLive_eq [of zs ys] that show thesis by auto
qed

lemma set_insertLive: "set (insertLive existing message) \<subseteq> insert message (set existing)"
proof -
  obtain ys zs where "existing = ys @ zs"
    "insertLive existing message = last_n MAX_MESSAGES_PER_CHANNEL (ys @ message # zs)"
    by (rule insertLive_split [of existing]) blast
  with set_last_n [of MAX_MESSAGES_PER_CHANNEL "ys @ message # zs"] show ?thesis by auto
qed

subsection \<open>Replacing a row by its id\<close>

text \<open>The rows \<open>replaceById\<close> keeps beside the replaced one: all but the optimistic twins.\<close>

definition kept :: "message \<Rightarrow> message \<Rightarrow> bool" where
  "kept message m \<longleftrightarrow> msg_clientMessageId message = None \<or> isUnreconciledEcho m message = Inr False"

lemma replaceById_others:
  assumes "replaceById message inc idx i ms p = Inr (r, p')" and "idx < i \<or> i + length ms \<le> idx"
  shows "r = filter (kept message) ms"
    and "p' = fold (\<lambda>m p. drop_correlation p m) (filter (\<lambda>m. \<not> kept message m) ms) p"
    and "\<forall>m \<in> set ms. \<not> kept message m \<longrightarrow> isUnreconciledEcho m message = Inr True"
  using assms
proof (atomize (full), induction ms arbitrary: i p r)
  case Nil
  then show ?case by simp
next
  case (Cons m ms)
  have ne: "i \<noteq> idx" and out: "idx < Suc i \<or> Suc i + length ms \<le> idx" using Cons.prems(2) by auto
  show ?case
  proof (cases "kept message m")
    case True
    with Cons.prems ne obtain r' where "replaceById message inc idx (Suc i) ms p = Inr (r', p')"
      "r = m # r'"
      by (auto simp: kept_def elim!: res_bind_InrE split: if_splits)
    with Cons.IH out True show ?thesis by auto
  next
    case False
    with Cons.prems ne have "isUnreconciledEcho m message = Inr True"
      "replaceById message inc idx (Suc i) ms (drop_correlation p m) = Inr (r, p')"
      by (auto simp: kept_def elim!: res_bind_InrE split: if_splits)
    with Cons.IH out False show ?thesis by auto
  qed
qed

lemma replaceById_split:
  assumes "replaceById message inc (i + length ys) i (ys @ m # zs) p = Inr (r, p')"
  shows "r = filter (kept message) ys @ inc # filter (kept message) zs"
    and "p' = fold (\<lambda>m p. drop_correlation p m) (filter (\<lambda>m. \<not> kept message m) (ys @ zs)) p"
    and "\<forall>m \<in> set (ys @ zs). \<not> kept message m \<longrightarrow> isUnreconciledEcho m message = Inr True"
  using assms
proof (atomize (full), induction ys arbitrary: i p r)
  case Nil
  then obtain r' where r': "replaceById message inc i (Suc i) zs p = Inr (r', p')" "r = inc # r'"
    by (auto elim!: res_bind_InrE)
  with replaceById_others [OF r'(1)] show ?case by auto
next
  case (Cons y ys)
  show ?case
  proof (cases "kept message y")
    case True
    with Cons.prems obtain r' where
      *: "replaceById message inc (Suc i + length ys) (Suc i) (ys @ m # zs) p = Inr (r', p')" "r = y # r'"
      by (auto simp: kept_def elim!: res_bind_InrE split: if_splits)
    with Cons.IH [OF *(1)] True show ?thesis by simp
  next
    case False
    with Cons.prems have *: "isUnreconciledEcho y message = Inr True"
      "replaceById message inc (Suc i + length ys) (Suc i) (ys @ m # zs) (drop_correlation p y) = Inr (r, p')"
      by (auto simp: kept_def elim!: res_bind_InrE split: if_splits)
    with Cons.IH [OF *(2)] False show ?thesis by simp
  qed
qed

lemma replaceById_kept:
  "\<forall>m \<in> set (ys @ zs). kept message m \<Longrightarrow>
     replaceById message inc (i + length ys) i (ys @ m # zs) p = Inr (ys @ inc # zs, p)"
proof (induction ys arbitrary: i)
  case Nil
  have "idx < i \<Longrightarrow> replaceById message inc idx i zs p = Inr (zs, p)" for idx i
    using Nil by (induction zs arbitrary: i) (auto simp: kept_def)
  then show ?case by simp
next
  case (Cons y ys)
  from Cons.IH [of "Suc i"] Cons.prems show ?case by (auto simp: kept_def)
qed

subsection \<open>The four outcomes of a live broadcast\<close>

definition no_id :: "message \<Rightarrow> message list \<Rightarrow> bool" where
  "no_id message ms \<longleftrightarrow> (\<forall>m \<in> set ms. \<not> (msg_id m \<noteq> 0 \<and> msg_id m = msg_id message))"

lemma no_id_real_ids: "no_id message ms \<longleftrightarrow> msg_id message \<notin> set (real_ids ms)"
  by (auto simp: no_id_def set_real_ids)

lemma find_index_split:
  assumes "find_index P xs = Some i"
  obtains ys x zs where "xs = ys @ x # zs" "P x" "\<forall>y \<in> set ys. \<not> P y" "i = length ys"
proof
  show "xs = take i xs @ xs ! i # drop (Suc i) xs"
    using find_index_SomeD [OF assms] by (simp add: id_take_nth_drop)
  show "P (xs ! i)" "\<forall>y \<in> set (take i xs). \<not> P y" "i = length (take i xs)"
    using find_index_SomeD [OF assms] by (auto simp: in_set_conv_nth)
qed

lemma reduceAddMessage_cases:
  assumes "reduceAddMessage s message = Inr s'"
  obtains
    (replaced) ys m zs where "rows s (msg_channelId message) = ys @ m # zs"
      "msg_id m = msg_id message" "msg_id message \<noteq> 0" "no_id message ys"
      "\<forall>x \<in> set (ys @ zs). \<not> kept message x \<longrightarrow> isUnreconciledEcho x message = Inr True"
      "s' = s\<lparr>messagesByChannel := jm_set (messagesByChannel s) (msg_channelId message)
                (filter (kept message) ys @ mergeMessagePoll (Some m) message # filter (kept message) zs),
              pendingSends := fold (\<lambda>m p. drop_correlation p m)
                (filter (\<lambda>m. \<not> kept message m) (ys @ zs)) (pendingSends s)\<rparr>"
  | (reconciled) i where "no_id message (rows s (msg_channelId message))"
      "i < length (rows s (msg_channelId message))"
      "isUnreconciledEcho (rows s (msg_channelId message) ! i) message = Inr True"
      "s' = s\<lparr>messagesByChannel := jm_set (messagesByChannel s) (msg_channelId message)
                ((rows s (msg_channelId message))[i := message]),
              pendingSends := drop_correlation (pendingSends s) (rows s (msg_channelId message) ! i)\<rparr>"
  | (detached) "no_id message (rows s (msg_channelId message))"
      "js_has (detachedChannels s) (msg_channelId message)" "s' = s"
  | (appended) "no_id message (rows s (msg_channelId message))"
      "\<not> js_has (detachedChannels s) (msg_channelId message)"
      "s' = s\<lparr>messagesByChannel := jm_set (messagesByChannel s) (msg_channelId message)
                (insertLive (rows s (msg_channelId message)) message),
              hasMore := (if length (rows s (msg_channelId message)) + 1 > MAX_MESSAGES_PER_CHANNEL
                          then jm_set (hasMore s) (msg_channelId message) True else hasMore s)\<rparr>"
proof (cases "find_index (\<lambda>m. msg_id m \<noteq> 0 \<and> msg_id m = msg_id message) (rows s (msg_channelId message))")
  case (Some idx)
  then obtain ys m zs where split: "rows s (msg_channelId message) = ys @ m # zs"
    "msg_id m \<noteq> 0 \<and> msg_id m = msg_id message" "no_id message ys" "idx = length ys"
    unfolding no_id_def by (rule find_index_split)
  from assms Some split obtain r p where
    rp: "replaceById message (mergeMessagePoll (Some m) message) (0 + length ys) 0 (ys @ m # zs) (pendingSends s) = Inr (r, p)"
      "s' = s\<lparr>messagesByChannel := jm_set (messagesByChannel s) (msg_channelId message) r, pendingSends := p\<rparr>"
    by (auto simp: reduceAddMessage_def Let_def elim!: res_bind_InrE)
  from replaceById_split [OF rp(1)] split show thesis
    by (intro replaced [of ys m zs]) (auto simp: rp(2))
next
  case None
  then have n: "no_id message (rows s (msg_channelId message))"
    by (simp add: find_index_None no_id_def)
  from assms None obtain pi where
    pi: "find_index_res (\<lambda>m. isUnreconciledEcho m message) (rows s (msg_channelId message)) = Inr pi"
    by (auto simp: reduceAddMessage_def Let_def elim!: res_bind_InrE)
  show thesis
  proof (cases pi)
    case (Some i)
    with find_index_res_Some [of "\<lambda>m. isUnreconciledEcho m message"] pi n None assms show thesis
      by (intro reconciled [of i]) (auto simp: reduceAddMessage_def Let_def)
  next
    case None': None
    with pi None n assms show thesis
      by (cases "js_has (detachedChannels s) (msg_channelId message)")
        (auto simp: reduceAddMessage_def Let_def intro: detached appended)
  qed
qed

subsection \<open>Every reducer keeps the store well-formed\<close>

lemma rows_ok_stamp:
  assumes "rows_ok ms" and "i < length ms" and "msg_id (ms ! i) = 0 \<or> msg_id (ms ! i) = msg_id x"
    and "row_ok x" and "msg_id x \<in> set (real_ids ms) \<Longrightarrow> msg_id (ms ! i) = msg_id x"
  shows "rows_ok (ms[i := x])"
proof -
  have ms: "ms = take i ms @ ms ! i # drop (Suc i) ms"
    using assms(2) by (simp add: id_take_nth_drop)
  have "rows_ok (take i ms @ ms ! i # drop (Suc i) ms)" using assms(1) ms by metis
  moreover have "msg_id x \<notin> set (real_ids (take i ms)) \<union> set (real_ids (drop (Suc i) ms))"
    if "msg_id (ms ! i) = 0"
    using assms(5) that by (auto simp: set_real_ids dest: in_set_takeD in_set_dropD)
  ultimately show ?thesis
    using assms(2-4) by (auto simp: upd_conv_take_nth_drop split: if_splits)
qed

lemma rows_ok_insertLive:
  assumes "rows_ok ms" and "row_ok message" and "no_id message ms"
  shows "rows_ok (insertLive ms message)"
proof -
  obtain ys zs where ms: "ms = ys @ zs"
    "insertLive ms message = last_n MAX_MESSAGES_PER_CHANNEL (ys @ message # zs)"
    by (rule insertLive_split [of ms]) blast
  with assms have "rows_ok (ys @ message # zs)" by (auto simp: no_id_real_ids)
  with ms(2) show ?thesis by (simp add: rows_ok_sublist)
qed

lemma row_ok_merge: "row_ok (mergeMessagePoll p n) = row_ok n"
  by (simp add: row_ok_def)

lemma reduceAddMessage_store_ok:
  assumes "store_ok s" and "is_sent message" and "msg_id message \<noteq> 0"
    and "reduceAddMessage s message = Inr s'"
  shows "store_ok s'"
  using assms(4)
proof (cases rule: reduceAddMessage_cases)
  case (replaced ys m zs)
  have "rows_ok (ys @ m # zs)" using store_ok_rows [OF assms(1)] replaced(1) by metis
  then have "rows_ok (filter (kept message) ys @ mergeMessagePoll (Some m) message # filter (kept message) zs)"
    using assms(2,3) replaced(2,3) set_real_ids_filter [of "kept message"]
    by (auto simp: rows_ok_filter row_ok_def) blast+
  from store_ok_write [OF assms(1) this] replaced(6) show ?thesis by simp
next
  case (reconciled i)
  let ?ms = "rows s (msg_channelId message)"
  have ok: "rows_ok ?ms" by (rule store_ok_rows [OF assms(1)])
  have "msg_id (?ms ! i) = 0"
    using rows_okD [OF ok nth_mem [OF reconciled(2)]] echo_unsent [OF reconciled(3)]
    by (simp add: row_ok_def)
  then have "rows_ok (?ms[i := message])"
    using ok reconciled(1,2) assms(2,3) by (intro rows_ok_stamp) (auto simp: row_ok_def no_id_real_ids)
  with store_ok_write [OF assms(1)] reconciled(4) show ?thesis by simp
next
  case detached
  with assms(1) show ?thesis by simp
next
  case appended
  with assms(2,3) store_ok_rows [OF assms(1)]
  have "rows_ok (insertLive (rows s (msg_channelId message)) message)"
    by (intro rows_ok_insertLive) (auto simp: row_ok_def)
  with store_ok_write [OF assms(1)] appended(3) show ?thesis by simp
qed

lemma reduceAddOptimisticMessage_rows:
  obtains ys zs where "rows s c = ys @ zs" "\<forall>z \<in> set zs. msg_status z = Uploading"
    "messagesByChannel (reduceAddOptimisticMessage s c k m) =
       jm_set (messagesByChannel s) c (ys @ m # zs)"
    "msg_status m \<noteq> Uploading \<Longrightarrow> reduceAddOptimisticMessage s c k m =
       s\<lparr>messagesByChannel := jm_set (messagesByChannel s) c (ys @ m # zs),
         pendingSends := jm_set (pendingSends s) k c\<rparr>"
proof (cases "msg_status m = Uploading")
  case True
  with that [of "rows s c" "[]"] show thesis
    by (simp add: reduceAddOptimisticMessage_def Let_def)
next
  case False
  obtain ys zs where "rows s c = ys @ zs" "\<forall>z \<in> set zs. msg_status z = Uploading"
    "back_while (\<lambda>m. msg_status m = Uploading) (rows s c) (length (rows s c)) = length ys"
    by (rule back_while_split)
  with False that [of ys zs] show thesis
    by (simp add: reduceAddOptimisticMessage_def Let_def)
qed

lemma reduceAddOptimisticMessage_pending:
  assumes "msg_status m \<noteq> Uploading"
  obtains ys zs where "rows s c = ys @ zs" "reduceAddOptimisticMessage s c k m =
       s\<lparr>messagesByChannel := jm_set (messagesByChannel s) c (ys @ m # zs),
         pendingSends := jm_set (pendingSends s) k c\<rparr>"
  by (rule reduceAddOptimisticMessage_rows [of s c k m]) (use assms that in blast)

lemma reduceAddOptimisticMessage_store_ok:
  assumes "store_ok s" and "\<not> is_sent m" and "msg_id m = 0"
  shows "store_ok (reduceAddOptimisticMessage s c k m)"
proof -
  obtain ys zs where yz: "rows s c = ys @ zs"
    "messagesByChannel (reduceAddOptimisticMessage s c k m) =
       jm_set (messagesByChannel s) c (ys @ m # zs)"
    by (rule reduceAddOptimisticMessage_rows)
  have "rows_ok (ys @ zs)" using store_ok_rows [OF assms(1), of c] yz(1) by simp
  with assms(2,3) have "rows_ok (ys @ m # zs)" by (simp add: row_ok_def)
  from store_ok_write [OF assms(1) this yz(2)] show ?thesis .
qed

text \<open>\<open>markSendFailed\<close> keeps it when the rows of that correlation id are unsent.\<close>

lemma reduceMarkSendFailed_store_ok:
  assumes "store_ok s"
    and "\<And>c m. m \<in> set (rows s c) \<Longrightarrow> has_correlation k m \<Longrightarrow> \<not> is_sent m"
  shows "store_ok (reduceMarkSendFailed s k e)"
proof -
  have "rows_ok (map (\<lambda>m. if has_correlation k m then m\<lparr>msg_status := Failed, msg_errorCode := e\<rparr> else m) ms)"
    if "jm_get (messagesByChannel s) c = Some ms" for c ms
    using assms(2) [of _ c] store_ok_rows [OF assms(1), of c] rows_Some [OF that]
    by (subst rows_ok_map) auto
  with assms(1) show ?thesis
    by (auto simp: reduceMarkSendFailed_def split: option.split)
qed

lemma reduceRemoveOptimistic_store_ok: "store_ok s \<Longrightarrow> store_ok (reduceRemoveOptimistic s k)"
  unfolding reduceRemoveOptimistic_def Let_def
  by (auto split: option.split intro: rows_ok_filter store_ok_rows store_ok_SomeD)

lemma confirmRows_ok:
  assumes "i \<noteq> 0" and "reconciled \<or> i \<notin> set (real_ids ms)" and "rows_ok ms"
  shows "rows_ok (fst (confirmRows k i t x reconciled ms p)) \<and>
    set (real_ids (fst (confirmRows k i t x reconciled ms p))) \<subseteq>
      (if reconciled then {} else {i}) \<union> set (real_ids ms)"
  using assms(2,3)
proof (induction ms arbitrary: reconciled p)
  case Nil
  then show ?case by simp
next
  case (Cons m ms)
  have "rows_ok ms" "reconciled \<or> i \<notin> set (real_ids ms)" using Cons.prems by (auto split: if_splits)
  with Cons.IH [of reconciled p] Cons.IH [of True "drop_correlation p m"] Cons.prems assms(1)
  show ?case by (auto simp: row_ok_def matchesSend_def split: prod.splits if_splits)
qed

lemma reduceConfirmSend_store_ok:
  assumes "store_ok s" and "i \<noteq> 0"
  shows "store_ok (reduceConfirmSend s k i t x)"
proof -
  have "rows_ok l"
    if "jm_get (messagesByChannel s) c = Some ms"
      "confirmRows k i t x (list_ex (\<lambda>m. msg_id m = i \<and> is_sent m) ms) ms p = (l, q)" for c ms p l q
  proof -
    have ok: "rows_ok ms" by (rule store_ok_SomeD [OF assms(1) that(1)])
    have "list_ex (\<lambda>m. msg_id m = i \<and> is_sent m) ms \<or> i \<notin> set (real_ids ms)"
      using rows_okD [OF ok] assms(2) by (auto simp: set_real_ids list_ex_iff row_ok_def)
    from confirmRows_ok [OF assms(2) this ok, of k t x p] that(2) show ?thesis by simp
  qed
  with assms(1) show ?thesis
    by (auto simp: reduceConfirmSend_def Let_def split: option.split prod.split)
qed

lemma reduceApplyServerMessage_store_ok:
  assumes "store_ok s"
  shows "store_ok (reduceApplyServerMessage s r)"
proof -
  have "rows_ok (ms[i := mergeMessagePoll (Some (ms ! i)) (messageResponseToMessage r)])"
    if "jm_get (messagesByChannel s) c = Some ms"
      "find_index (\<lambda>m. msg_id m \<noteq> 0 \<and> msg_id m = mr_id r) ms = Some i" for c ms i
    using store_ok_SomeD [OF assms that(1)] find_index_SomeD [OF that(2)]
    by (intro rows_ok_stamp) (auto simp: row_ok_def)
  with assms show ?thesis
    by (auto simp: reduceApplyServerMessage_def Let_def split: option.split)
qed

subsection \<open>Redelivery\<close>

lemma real_ids_filter_unsent:
  "(\<And>m. m \<in> set ms \<Longrightarrow> \<not> P m \<Longrightarrow> msg_id m = 0) \<Longrightarrow> real_ids (filter P ms) = real_ids ms"
  by (induction ms) auto

lemma find_index_append_hit:
  "\<forall>y \<in> set ys. \<not> P y \<Longrightarrow> P x \<Longrightarrow> find_index P (ys @ x # zs) = Some (length ys)"
  by (induction ys) auto

lemma kept_filter_again:
  "\<forall>x \<in> set ms. \<not> kept message x \<longrightarrow> isUnreconciledEcho x message = Inr True \<Longrightarrow>
     \<forall>x \<in> set (filter (kept message) ms). kept message x"
  by simp

lemma reduceAddMessage_replay:
  assumes "rows s c = ys @ m # zs" and "msg_channelId message = c" and "no_id message ys"
    and "msg_id message \<noteq> 0" and "msg_id m = msg_id message"
    and "\<forall>x \<in> set (ys @ zs). kept message x" and "mergeMessagePoll (Some m) message = m"
  shows "reduceAddMessage s message = Inr (s\<lparr>messagesByChannel := jm_set (messagesByChannel s) c (ys @ m # zs)\<rparr>)"
proof -
  have "find_index (\<lambda>r. msg_id r \<noteq> 0 \<and> msg_id r = msg_id message) (ys @ m # zs) = Some (length ys)"
    using assms(3-5) by (intro find_index_append_hit) (auto simp: no_id_def)
  moreover have "replaceById message m (0 + length ys) 0 (ys @ m # zs) (pendingSends s) =
      Inr (ys @ m # zs, pendingSends s)"
    by (rule replaceById_kept) (rule assms(6))
  ultimately show ?thesis
    using assms(1,2,7) by (simp add: reduceAddMessage_def Let_def)
qed

subsection \<open>One send, its acknowledgement and its echo\<close>

lemma find_index_res_hit:
  "\<forall>y \<in> set ys. P y = Inr False \<Longrightarrow> P x = Inr True \<Longrightarrow> find_index_res P (ys @ x # zs) = Inr (Some (length ys))"
  by (induction ys) auto

lemma confirmRows_other:
  "\<forall>m \<in> set ms. \<not> matchesSend k x m \<Longrightarrow> confirmRows k i t x b ms p = (ms, p)"
  by (induction ms) auto

lemma confirmRows_one:
  assumes "\<forall>m \<in> set (ys @ zs). \<not> matchesSend k x m" and "matchesSend k x m"
  shows "confirmRows k i t x False (ys @ m # zs) p =
    (ys @ m\<lparr>msg_id := i, msg_timestamp := t, msg_status := Sent, msg_errorCode := None\<rparr> # zs,
     drop_correlation p m)"
  using assms by (induction ys) (auto simp: confirmRows_other)

text \<open>A tracked send: what \<open>addOptimisticMessage\<close> puts into its row, its broadcast, and that nothing
  else in the store answers to its identities.\<close>

definition tracked_send :: "messages_state \<Rightarrow> int \<Rightarrow> string \<Rightarrow> string \<Rightarrow> message \<Rightarrow> message \<Rightarrow> bool" where
  "tracked_send s c k x opt echo \<longleftrightarrow>
     msg_status opt = Pending \<and> msg_id opt = 0 \<and> has_correlation k opt \<and> k \<noteq> [] \<and>
     msg_clientMessageId opt = Some x \<and> msg_poll opt = None \<and>
     msg_channelId echo = c \<and> is_sent echo \<and> msg_id echo \<noteq> 0 \<and> msg_clientMessageId echo = Some x \<and>
     u_id (msg_user opt) = u_id (msg_user echo) \<and>
     jm_get (pendingSends s) k = None \<and>
     list_all (list_all (\<lambda>m. \<not> matchesSend k (Some x) m)) (jm_values (messagesByChannel s)) \<and>
     msg_id echo \<notin> set (real_ids (rows s c)) \<and>
     list_all (\<lambda>m. isUnreconciledEcho m echo = Inr False) (rows s c)"

lemma rows_no_match:
  assumes "list_all (list_all P) (jm_values (messagesByChannel s))"
  shows "\<forall>m \<in> set (rows s c). P m"
proof (cases "jm_get (messagesByChannel s) c")
  case (Some ms)
  with assms show ?thesis
    by (auto simp: rows_Some list_all_iff jm_values_def dest!: jm_get_SomeD)
qed (simp add: rows_None)

lemma tracked_sendD:
  assumes "tracked_send s c k x opt echo" and "rows s c = ys @ zs"
  shows "isUnreconciledEcho opt echo = Inr True" and "matchesSend k (Some x) opt"
    and "\<forall>m \<in> set (ys @ zs). \<not> matchesSend k (Some x) m"
    and "\<forall>m \<in> set (ys @ zs). isUnreconciledEcho m echo = Inr False"
    and "no_id echo (ys @ zs)"
proof -
  show "isUnreconciledEcho opt echo = Inr True" "matchesSend k (Some x) opt"
    using assms(1) by (auto simp: tracked_send_def isUnreconciledEcho_def matchesSend_def)
  show "\<forall>m \<in> set (ys @ zs). \<not> matchesSend k (Some x) m"
    using assms rows_no_match [of "\<lambda>m. \<not> matchesSend k (Some x) m" s c] by (simp add: tracked_send_def)
  show "\<forall>m \<in> set (ys @ zs). isUnreconciledEcho m echo = Inr False" "no_id echo (ys @ zs)"
    using assms by (auto simp: tracked_send_def list_all_iff no_id_real_ids)
qed

lemma ack_of_send:
  assumes "tracked_send s c k x opt echo" and "rows s c = ys @ zs"
  shows "reduceConfirmSend (s\<lparr>messagesByChannel := jm_set (messagesByChannel s) c (ys @ opt # zs),
      pendingSends := jm_set (pendingSends s) k c\<rparr>) k (msg_id echo) t (Some x) =
    s\<lparr>messagesByChannel := jm_set (messagesByChannel s) c
        (ys @ opt\<lparr>msg_id := msg_id echo, msg_timestamp := t, msg_status := Sent, msg_errorCode := None\<rparr> # zs)\<rparr>"
proof -
  note d = tracked_sendD [OF assms]
  have p: "jm_delete (jm_set (pendingSends s) k c) k = pendingSends s"
    using assms(1) by (intro jm_delete_set_fresh) (simp add: tracked_send_def)
  have q: "drop_correlation (pendingSends s) opt = pendingSends s"
    using assms(1) by (auto simp: tracked_send_def drop_correlation_def jm_delete_absent)
  have "msg_id echo \<noteq> 0" "msg_status opt = Pending" using assms(1) by (auto simp: tracked_send_def)
  with d(5) have none: "\<not> list_ex (\<lambda>m. msg_id m = msg_id echo \<and> is_sent m) (ys @ opt # zs)"
    unfolding no_id_real_ids set_real_ids by (auto simp: list_ex_iff)
  have "list_ex (\<lambda>m. msg_id m = msg_id echo \<and> is_sent m) (ys @ opt # zs) = False"
    using none by (rule eq_False [THEN iffD2])
  then show ?thesis
    by (simp add: reduceConfirmSend_def Let_def p q confirmRows_one [OF d(3,2)] del: list_ex_append list.pred_inject)
qed

lemma echo_after_ack:
  assumes "tracked_send s c k x opt echo" and "rows s c = ys @ zs"
    and "msg_id acked = msg_id echo" and "msg_poll acked = None"
  shows "reduceAddMessage (s\<lparr>messagesByChannel := jm_set (messagesByChannel s) c (ys @ acked # zs)\<rparr>) echo =
    Inr (s\<lparr>messagesByChannel := jm_set (messagesByChannel s) c (ys @ echo # zs)\<rparr>)"
proof -
  note d = tracked_sendD [OF assms(1,2)]
  have e: "msg_channelId echo = c" "msg_id echo \<noteq> 0" using assms(1) by (auto simp: tracked_send_def)
  have "find_index (\<lambda>r. msg_id r \<noteq> 0 \<and> msg_id r = msg_id echo) (ys @ acked # zs) = Some (length ys)"
    using d(5) e(2) assms(3) by (intro find_index_append_hit) (auto simp: no_id_def)
  moreover have "mergeMessagePoll (Some acked) echo = echo"
    using assms(4) by (cases "msg_poll echo") (auto simp: mergeMessagePoll_def mergePoll_def)
  moreover have "replaceById echo echo (0 + length ys) 0 (ys @ acked # zs) (pendingSends s) =
      Inr (ys @ echo # zs, pendingSends s)"
    using d(4) by (intro replaceById_kept) (auto simp: kept_def)
  ultimately show ?thesis using e by (simp add: reduceAddMessage_def Let_def)
qed

lemma echo_before_ack:
  assumes "tracked_send s c k x opt echo" and "rows s c = ys @ zs"
  shows "reduceAddMessage (s\<lparr>messagesByChannel := jm_set (messagesByChannel s) c (ys @ opt # zs),
      pendingSends := jm_set (pendingSends s) k c\<rparr>) echo =
    Inr (s\<lparr>messagesByChannel := jm_set (messagesByChannel s) c (ys @ echo # zs)\<rparr>)"
proof -
  note d = tracked_sendD [OF assms]
  have e: "msg_channelId echo = c" "msg_id opt = 0" using assms(1) by (auto simp: tracked_send_def)
  have "find_index (\<lambda>r. msg_id r \<noteq> 0 \<and> msg_id r = msg_id echo) (ys @ opt # zs) = None"
    using d(5) e(2) by (auto simp: find_index_None no_id_def)
  moreover have "find_index_res (\<lambda>m. isUnreconciledEcho m echo) (ys @ opt # zs) = Inr (Some (length ys))"
    using d(1,4) by (intro find_index_res_hit) auto
  moreover have "drop_correlation (jm_set (pendingSends s) k c) opt = pendingSends s"
    using assms(1) by (auto simp: tracked_send_def drop_correlation_def jm_delete_set_fresh)
  ultimately show ?thesis using e by (simp add: reduceAddMessage_def Let_def list_update_append)
qed

lemma late_ack:
  assumes "tracked_send s c k x opt echo" and "rows s c = ys @ zs"
  shows "reduceConfirmSend (s\<lparr>messagesByChannel := jm_set (messagesByChannel s) c (ys @ echo # zs)\<rparr>)
      k i t (Some x) = s\<lparr>messagesByChannel := jm_set (messagesByChannel s) c (ys @ echo # zs)\<rparr>"
proof -
  let ?m = "jm_set (messagesByChannel s) c (ys @ echo # zs)"
  have "\<not> matchesSend k (Some x) echo" using assms(1) by (simp add: tracked_send_def matchesSend_def)
  moreover have "list_all (list_all (\<lambda>m. \<not> matchesSend k (Some x) m)) (jm_values (messagesByChannel s))"
    "jm_get (pendingSends s) k = None"
    using assms(1) by (auto simp: tracked_send_def)
  ultimately have "find_channel (\<lambda>rs. list_ex (matchesSend k (Some x)) rs) ?m = None"
    using set_jm_set [of "messagesByChannel s" c "ys @ echo # zs"] tracked_sendD(3) [OF assms]
    by (fastforce simp: find_channel_None list_ex_iff list_all_iff jm_values_def)
  with \<open>jm_get (pendingSends s) k = None\<close> show ?thesis
    by (simp add: reduceConfirmSend_def Let_def jm_delete_absent)
qed

subsection \<open>Properties\<close>

text \<open>A broadcast whose message is already loaded adds no row: the server ids of the channel stay
  as they were, and delivering it once more changes nothing at all.\<close>

theorem addMessage_redelivery:
  assumes "store_ok s" and "msg_id message \<in> set (real_ids (rows s (msg_channelId message)))"
    and "reduceAddMessage s message = Inr s'"
  shows "real_ids (rows s' (msg_channelId message)) = real_ids (rows s (msg_channelId message)) \<and>
         reduceAddMessage s' message = Inr s'"
  using assms(3)
proof (cases rule: reduceAddMessage_cases)
  case (replaced ys m zs)
  let ?c = "msg_channelId message" and ?K = "filter (kept message)"
  let ?q = "mergeMessagePoll (Some m) message"
  have ok: "\<forall>x \<in> set (ys @ m # zs). row_ok x"
    using rows_okD store_ok_rows [OF assms(1)] replaced(1) by metis
  have "real_ids (?K xs) = real_ids xs" if "set xs \<subseteq> set (ys @ zs)" for xs
    using that ok replaced(5) echo_unsent by (intro real_ids_filter_unsent) (fastforce simp: row_ok_def)
  then have ids: "real_ids (?K ys @ ?q # ?K zs) = real_ids (ys @ m # zs)"
    using replaced(2) by auto
  have r: "rows s' ?c = ?K ys @ ?q # ?K zs" by (simp add: replaced(6))
  have "reduceAddMessage s' message =
      Inr (s'\<lparr>messagesByChannel := jm_set (messagesByChannel s') ?c (?K ys @ ?q # ?K zs)\<rparr>)"
    by (rule reduceAddMessage_replay [OF r])
      (use replaced(3,4) in \<open>auto simp: no_id_def mergeMessagePoll_absorb\<close>)
  moreover have "jm_set (messagesByChannel s') ?c (?K ys @ ?q # ?K zs) = messagesByChannel s'"
    by (rule jm_set_same) (simp add: replaced(6))
  ultimately show ?thesis using ids r replaced(1) by simp
qed (use assms(2) in \<open>auto simp: no_id_real_ids\<close>)

theorem addMessage_redelivery_witness:
  "let s = INITIAL_STATE\<lparr>messagesByChannel := [(1, [sample_row 1 5, sample_row 1 6])]\<rparr>
   in real_ids (rows (projr (reduceAddMessage s (sample_row 1 6))) 1) = [5, 6]"
proof -
  let ?s = "INITIAL_STATE\<lparr>messagesByChannel := [(1, [sample_row 1 5, sample_row 1 6])]\<rparr>"
  have r: "rows ?s 1 = [sample_row 1 5, sample_row 1 6]" by (simp add: rows_def jm_get_def)
  obtain s' where s': "reduceAddMessage ?s (sample_row 1 6) = Inr s'"
    by (simp add: reduceAddMessage_def Let_def r)
  have "real_ids (rows s' (msg_channelId (sample_row 1 6))) =
      real_ids (rows ?s (msg_channelId (sample_row 1 6)))"
    by (rule addMessage_redelivery [THEN conjunct1, OF _ _ s'])
      (simp_all add: store_ok_def jm_wf_def jm_values_def r row_ok_def)
  with s' r show ?thesis by (simp add: Let_def)
qed

text \<open>A message that is new to a live channel and echoes none of its rows goes behind the sent
  rows and before the trailing unsent ones; the channel keeps the newest 500 rows, and records that
  the server has older ones exactly when a row was evicted.\<close>

theorem addMessage_appends:
  assumes "rows s (msg_channelId message) = ys @ zs" and "\<forall>m \<in> set zs. \<not> is_sent m"
    and "ys = [] \<or> is_sent (last ys)"
    and "msg_id message \<notin> set (real_ids (ys @ zs))"
    and "\<forall>m \<in> set (ys @ zs). isUnreconciledEcho m message = Inr False"
    and "\<not> js_has (detachedChannels s) (msg_channelId message)"
  shows "reduceAddMessage s message = Inr (s\<lparr>
     messagesByChannel := jm_set (messagesByChannel s) (msg_channelId message)
       (last_n 500 (ys @ message # zs)),
     hasMore := (if length (ys @ zs) \<ge> 500 then jm_set (hasMore s) (msg_channelId message) True
                 else hasMore s)\<rparr>)"
proof -
  have n: "find_index (\<lambda>m. msg_id m \<noteq> 0 \<and> msg_id m = msg_id message) (ys @ zs) = None"
    using assms(4) by (auto simp: find_index_None set_real_ids)
  have e: "find_index_res (\<lambda>m. isUnreconciledEcho m message) (ys @ zs) = Inr None"
    using find_index_res_pure [of "ys @ zs" _ "\<lambda>_. False"] assms(5)
    by (auto simp: find_index_None)
  show ?thesis
    using assms(6) insertLive_eq [OF assms(2,3), of message]
    by (simp add: reduceAddMessage_def Let_def assms(1) n e MAX_MESSAGES_PER_CHANNEL_def)
qed

theorem addMessage_appends_witness:
  "let p = (sample_row 1 0)\<lparr>msg_status := Pending, msg_clientMessageId := Some ''x''\<rparr>;
       s = INITIAL_STATE\<lparr>messagesByChannel := [(1, [sample_row 1 5, p])]\<rparr>
   in reduceAddMessage s (sample_row 1 6) =
      Inr (s\<lparr>messagesByChannel := [(1, [sample_row 1 5, sample_row 1 6, p])]\<rparr>)"
proof -
  let ?p = "(sample_row 1 0)\<lparr>msg_status := Pending, msg_clientMessageId := Some ''x''\<rparr>"
  let ?s = "INITIAL_STATE\<lparr>messagesByChannel := [(1, [sample_row 1 5, ?p])]\<rparr>"
  have r: "rows ?s 1 = [sample_row 1 5] @ [?p]" by (simp add: rows_def jm_get_def)
  have "reduceAddMessage ?s (sample_row 1 6) = Inr (?s\<lparr>
     messagesByChannel := jm_set (messagesByChannel ?s) (msg_channelId (sample_row 1 6))
       (last_n 500 ([sample_row 1 5] @ sample_row 1 6 # [?p])),
     hasMore := (if length ([sample_row 1 5] @ [?p]) \<ge> 500
                 then jm_set (hasMore ?s) (msg_channelId (sample_row 1 6)) True else hasMore ?s)\<rparr>)"
    by (rule addMessage_appends) (simp_all add: r isUnreconciledEcho_def, simp add: INITIAL_STATE_def)
  then show ?thesis by (simp add: Let_def last_n_def jm_set_def)
qed

text \<open>A channel that shows a detached window refuses the live row: a message it does not hold,
  and that echoes none of its rows, leaves the store as it was.\<close>

theorem addMessage_detached:
  assumes "js_has (detachedChannels s) (msg_channelId message)"
    and "msg_id message \<notin> set (real_ids (rows s (msg_channelId message)))"
    and "\<forall>m \<in> set (rows s (msg_channelId message)). isUnreconciledEcho m message = Inr False"
  shows "reduceAddMessage s message = Inr s"
proof -
  let ?ms = "rows s (msg_channelId message)"
  have "find_index (\<lambda>m. msg_id m \<noteq> 0 \<and> msg_id m = msg_id message) ?ms = None"
    using assms(2) by (auto simp: find_index_None set_real_ids)
  moreover have "find_index_res (\<lambda>m. isUnreconciledEcho m message) ?ms = Inr None"
    using find_index_res_pure [of ?ms _ "\<lambda>_. False"] assms(3) by (auto simp: find_index_None)
  ultimately show ?thesis using assms(1) by (simp add: reduceAddMessage_def Let_def)
qed

theorem addMessage_detached_witness:
  "let s = INITIAL_STATE\<lparr>messagesByChannel := [(1, [sample_row 1 5])], detachedChannels := [1]\<rparr>
   in reduceAddMessage s (sample_row 1 6) = Inr s"
  unfolding Let_def
  by (rule addMessage_detached) (simp_all add: js_has_def rows_def jm_get_def)

text \<open>C4: The acknowledgement and the broadcast of a tracked send commute: an optimistic row followed
  by the two in either order ends in the same state, with the broadcast in the row's place, the
  other rows unchanged and the send no longer registered.\<close>

theorem ack_and_echo_commute:
  assumes "tracked_send s c k x opt echo"
  shows "\<exists>ys zs. rows s c = ys @ zs \<and>
    (let s1 = reduceAddOptimisticMessage s c k opt;
         done = s\<lparr>messagesByChannel := jm_set (messagesByChannel s) c (ys @ echo # zs)\<rparr>
     in reduceAddMessage (reduceConfirmSend s1 k (msg_id echo) t (Some x)) echo = Inr done \<and>
        res_bind (reduceAddMessage s1 echo) (\<lambda>s2. Inr (reduceConfirmSend s2 k (msg_id echo) t (Some x))) =
          Inr done)"
proof -
  have st: "msg_status opt \<noteq> Uploading" and po: "msg_poll opt = None"
    using assms by (auto simp: tracked_send_def)
  obtain ys zs where yz: "rows s c = ys @ zs" and s1: "reduceAddOptimisticMessage s c k opt =
      s\<lparr>messagesByChannel := jm_set (messagesByChannel s) c (ys @ opt # zs),
        pendingSends := jm_set (pendingSends s) k c\<rparr>"
    by (rule reduceAddOptimisticMessage_pending [OF st])
  show ?thesis
    unfolding s1 Let_def ack_of_send [OF assms yz] echo_before_ack [OF assms yz] res_bind_simps
      late_ack [OF assms yz]
    using yz echo_after_ack [OF assms yz] po by (intro exI [of _ ys] exI [of _ zs]) simp
qed

theorem ack_and_echo_commute_witness:
  "let opt = (sample_row 1 0)\<lparr>msg_status := Pending, msg_correlationId := Some ''k'', msg_clientMessageId := Some ''x''\<rparr>;
       echo = (sample_row 1 9)\<lparr>msg_clientMessageId := Some ''x''\<rparr>;
       s = INITIAL_STATE\<lparr>messagesByChannel := [(1, [sample_row 1 5])]\<rparr>;
       s1 = reduceAddOptimisticMessage s 1 ''k'' opt
   in reduceAddMessage (reduceConfirmSend s1 ''k'' 9 ''t'' (Some ''x'')) echo =
      res_bind (reduceAddMessage s1 echo) (\<lambda>s2. Inr (reduceConfirmSend s2 ''k'' 9 ''t'' (Some ''x'')))"
proof -
  let ?opt = "(sample_row 1 0)\<lparr>msg_status := Pending, msg_correlationId := Some ''k'', msg_clientMessageId := Some ''x''\<rparr>"
  let ?echo = "(sample_row 1 9)\<lparr>msg_clientMessageId := Some ''x''\<rparr>"
  let ?s = "INITIAL_STATE\<lparr>messagesByChannel := [(1, [sample_row 1 5])]\<rparr>"
  have "rows ?s 1 = [sample_row 1 5]" "pendingSends ?s = []"
    by (simp_all add: rows_def jm_get_def INITIAL_STATE_def)
  then have "tracked_send ?s 1 ''k'' ''x'' ?opt ?echo"
    by (simp add: tracked_send_def jm_values_def matchesSend_def)
  from ack_and_echo_commute [OF this, of "''t''"] show ?thesis by (auto simp: Let_def)
qed

text \<open>An acknowledgement touches only the channel that \<open>channelIdForSend\<close> reports for the send.\<close>

theorem confirmSend_frame:
  assumes "findSendChannel s k x \<noteq> Some d"
  shows "rows (reduceConfirmSend s k i t x) d = rows s d"
proof -
  have "findSendChannel s k x = alt (jm_get (pendingSends s) k)
      (find_channel (\<lambda>rs. list_ex (matchesSend k x) rs) (messagesByChannel s))"
    by (simp add: findSendChannel_def alt_def)
  with assms show ?thesis
    by (auto simp: reduceConfirmSend_def Let_def rows_def split: option.split prod.split)
qed

theorem confirmSend_frame_witness:
  "let s = INITIAL_STATE\<lparr>messagesByChannel := [(1, [sample_row 1 5])], pendingSends := [(''k'', 2)]\<rparr>
   in rows (reduceConfirmSend s ''k'' 9 ''t'' None) 1 = [sample_row 1 5]"
proof -
  let ?s = "INITIAL_STATE\<lparr>messagesByChannel := [(1, [sample_row 1 5])], pendingSends := [(''k'', 2)]\<rparr>"
  have "rows (reduceConfirmSend ?s ''k'' 9 ''t'' None) 1 = rows ?s 1"
    by (rule confirmSend_frame) (simp add: findSendChannel_def jm_get_def)
  then show ?thesis by (simp add: Let_def rows_def jm_get_def)
qed



end
