(* ===== verification/History_Windows.thy ===== *)
theory History_Windows
  imports Echo_Reconcile Poll_State
begin

text \<open>
  \<open>features/messaging/historyWindows.ts\<close>: the loaded window of a channel. A REST page is merged
  into it (\<open>setMessages\<close>), it is replaced by a window around a jump target (\<open>setAroundMessages\<close>),
  extended at either end, or dropped. A detached window does not reach the live tail.

  The code keeps an object's or an array's identity when nothing changed; values are equal then, so
  the model has no counterpart of those branches beyond \<open>sameValue\<close>, which also decides whether a
  cached row's live-only fields are kept. The optional maps and sets of the state
  (\<open>olderLoadFailed\<close>, \<open>loadWatermark\<close>) are always present in it.

  The lemmas show which rows survive each operation: unsent rows are carried, rows that were there
  when a fetch began and are missing from its page are dropped, rows that arrived since are kept,
  the reader's anchor stays, and the ids stay in increasing order.
\<close>

subsection \<open>Comparing a cached row with its refetched twin\<close>

definition strip_user :: "message_user \<Rightarrow> message_user" where
  "strip_user u = u\<lparr>u_display_name := None\<rparr>"

text \<open>The properties that count: absent, null and live-only ones (the client id and every
  \<open>display_name\<close>) are left out on both sides.\<close>

definition present :: "message \<Rightarrow> message" where
  "present m = m\<lparr>msg_clientMessageId := None, msg_user := strip_user (msg_user m),
     msg_referencedMessage :=
       map_option (\<lambda>r. r\<lparr>rf_user := map_option strip_user (rf_user r)\<rparr>) (msg_referencedMessage m)\<rparr>"

definition sameValue :: "message \<Rightarrow> message \<Rightarrow> bool" where
  "sameValue a b = (present a = present b)"

subsection \<open>Load state\<close>

text \<open>\<open>reduce((max, m) => Math.max(max, m.id), 0)\<close>\<close>

definition max_id :: "message list \<Rightarrow> int" where
  "max_id ms = foldl (\<lambda>mx m. max mx (msg_id m)) 0 ms"

definition reduceSetChannelLoading :: "messages_state \<Rightarrow> int \<Rightarrow> messages_state" where
  "reduceSetChannelLoading prev channelId = prev\<lparr>
     historyLoadState := jm_set (historyLoadState prev) channelId Loading,
     loadWatermark := jm_set (loadWatermark prev) channelId (max_id (rows prev channelId))\<rparr>"

definition reduceSetOlderLoadFailed :: "messages_state \<Rightarrow> int \<Rightarrow> bool \<Rightarrow> messages_state" where
  "reduceSetOlderLoadFailed prev channelId failed = (
     if js_has (olderLoadFailed prev) channelId = failed then prev
     else prev\<lparr>olderLoadFailed := (if failed then js_add (olderLoadFailed prev) channelId
                                  else js_delete (olderLoadFailed prev) channelId)\<rparr>)"

definition reduceSetChannelLoadError :: "messages_state \<Rightarrow> int \<Rightarrow> messages_state" where
  "reduceSetChannelLoadError prev channelId = (
     let updated = jm_set (historyLoadState prev) channelId LoadError
     in if \<not> list_ex is_sent (rows prev channelId) then prev\<lparr>historyLoadState := updated\<rparr>
        else prev\<lparr>historyLoadState := updated,
                  detachedChannels := js_add (detachedChannels prev) channelId\<rparr>)"

subsection \<open>Merging a page\<close>

text \<open>The \<open>findIndex\<close> over the page rows that no earlier carried row consumed.\<close>

fun find_echo :: "message \<Rightarrow> nat jset \<Rightarrow> nat \<Rightarrow> message list \<Rightarrow> nat option result" where
  "find_echo m consumed i [] = Inr None"
| "find_echo m consumed i (s # ss) = res_bind
     (if js_has consumed i then Inr False else isUnreconciledEcho m s)
     (\<lambda>hit. if hit then Inr (Some i) else find_echo m consumed (Suc i) ss)"

text \<open>\<open>previous.filter(...)\<close>, whose predicate records the echoes it consumed.\<close>

fun carryRows :: "int jset \<Rightarrow> int \<Rightarrow> message list \<Rightarrow> nat jset \<Rightarrow> message list \<Rightarrow> message list result" where
  "carryRows ids floor page consumed [] = Inr []"
| "carryRows ids floor page consumed (m # ms) = (
     if js_has ids (msg_id m) then carryRows ids floor page consumed ms
     else if is_sent m then res_bind (carryRows ids floor page consumed ms)
       (\<lambda>r. Inr (if msg_id m > floor then m # r else r))
     else res_bind (find_echo m consumed 0 page) (\<lambda>e. case e of
         None \<Rightarrow> res_bind (carryRows ids floor page consumed ms) (\<lambda>r. Inr (m # r))
       | Some i \<Rightarrow> carryRows ids floor page (js_add consumed i) ms))"

definition trimPage :: "message list \<Rightarrow> message list" where
  "trimPage converted = (if length converted > MAX_MESSAGES_PER_CHANNEL
     then drop (length converted - MAX_MESSAGES_PER_CHANNEL) converted else converted)"

definition snapshotRows :: "message list \<Rightarrow> message list \<Rightarrow> message list" where
  "snapshotRows previous trimmed = (
     let cachedById = jm_of_list (map (\<lambda>m. (msg_id m, m)) (filter is_sent previous))
     in map (\<lambda>fetched.
          let cached = jm_get cachedById (msg_id fetched); m = mergeMessagePoll cached fetched
          in case cached of Some old \<Rightarrow> if sameValue old m then old else m | None \<Rightarrow> m) trimmed)"

definition watermark :: "messages_state \<Rightarrow> int \<Rightarrow> int" where
  "watermark s c = nullish (jm_get (loadWatermark s) c) 0"

text \<open>The loaded rows a resync splice keeps above the page.\<close>

definition spliceOlder ::
  "messages_state \<Rightarrow> int \<Rightarrow> bool \<Rightarrow> bool \<Rightarrow> message list \<Rightarrow> message list" where
  "spliceOlder prev channelId spl serverMore trimmed = (
     let minSnapshotId = (case trimmed of [] \<Rightarrow> 0 | m # _ \<Rightarrow> msg_id m)
     in if spl \<and> serverMore \<and> length trimmed > 0 \<and> minSnapshotId \<le> watermark prev channelId
        then filter (\<lambda>m. is_sent m \<and> msg_id m < minSnapshotId) (rows prev channelId) else [])"

text \<open>Whether the trim must keep the head, and the trim itself.\<close>

definition keepsHead :: "message list \<Rightarrow> message list \<Rightarrow> int option \<Rightarrow> bool" where
  "keepsHead older merged anchorId = (
     let overflow = length merged - MAX_MESSAGES_PER_CHANNEL;
         anchorIdx = (case anchorId of None \<Rightarrow> None | Some a \<Rightarrow> find_index (\<lambda>m. msg_id m = a) merged)
     in overflow > 0 \<and> length older > 0 \<and> (case anchorIdx of None \<Rightarrow> False | Some i \<Rightarrow> i < overflow))"

definition trimMerged :: "message list \<Rightarrow> message list \<Rightarrow> int option \<Rightarrow> message list" where
  "trimMerged older merged anchorId = (
     let overflow = length merged - MAX_MESSAGES_PER_CHANNEL
     in if keepsHead older merged anchorId then take MAX_MESSAGES_PER_CHANNEL merged @
          filter (\<lambda>m. \<not> is_sent m) (drop MAX_MESSAGES_PER_CHANNEL merged)
        else if overflow > 0 then drop overflow merged else merged)"

definition reduceSetMessages ::
  "messages_state \<Rightarrow> int \<Rightarrow> message_response list \<Rightarrow> bool \<Rightarrow> bool \<Rightarrow> int option \<Rightarrow>
     messages_state result" where
  "reduceSetMessages prev channelId messages serverMore spl anchorId = (
     let converted = rev (map messageResponseToMessage messages);
         trimmed = trimPage converted;
         previous = rows prev channelId;
         snapshotIds = js_of_list (map msg_id trimmed);
         carryFloor = max (max_id trimmed) (watermark prev channelId)
     in res_bind (carryRows snapshotIds carryFloor trimmed [] previous) (\<lambda>carried.
       let snapshot = snapshotRows previous trimmed;
           older = spliceOlder prev channelId spl serverMore trimmed;
           merged = older @ snapshot @ carried;
           mergeTrimmed = length merged > MAX_MESSAGES_PER_CHANNEL;
           keepHead = keepsHead older merged anchorId
       in Inr (prev\<lparr>
         messagesByChannel := jm_set (messagesByChannel prev) channelId (trimMerged older merged anchorId),
         loadedChannels := js_add (loadedChannels prev) channelId,
         hasMore := jm_set (hasMore prev) channelId
           ((if length older > 0 then nullish (jm_get (hasMore prev) channelId) serverMore else serverMore) \<or>
            length converted > MAX_MESSAGES_PER_CHANNEL \<or> (mergeTrimmed \<and> \<not> keepHead)),
         historyLoadState := jm_delete (historyLoadState prev) channelId,
         detachedChannels := (if keepHead then js_add (detachedChannels prev) channelId
                              else js_delete (detachedChannels prev) channelId),
         loadWatermark := jm_delete (loadWatermark prev) channelId\<rparr>)))"

definition reduceSetAroundMessages ::
  "messages_state \<Rightarrow> int \<Rightarrow> message_response list \<Rightarrow> bool \<Rightarrow> bool \<Rightarrow> bool \<Rightarrow> messages_state" where
  "reduceSetAroundMessages prev channelId messages hasMoreBefore hasMoreAfter spl = (
     let previous = rows prev channelId;
         loaded = jm_of_list (map (\<lambda>m. (msg_id m, m)) (filter (\<lambda>m. msg_poll m \<noteq> None) previous));
         converted = map (\<lambda>m. mergeMessagePoll (jm_get loaded (msg_id m)) m)
                       (map messageResponseToMessage messages);
         trimmed = (if length converted > MAX_MESSAGES_PER_CHANNEL
                    then take MAX_MESSAGES_PER_CHANNEL converted else converted);
         attached = (\<not> hasMoreAfter \<and> length trimmed = length converted);
         maxWindowId = max_id trimmed;
         carried = filter (\<lambda>m. \<not> is_sent m \<or> (attached \<and> msg_id m > maxWindowId)) previous;
         splicing = (spl \<and> length trimmed > 0);
         minWindowId = (case trimmed of [] \<Rightarrow> 0 | m # _ \<Rightarrow> msg_id m);
         older = (if splicing \<and> hasMoreBefore
                  then filter (\<lambda>m. is_sent m \<and> msg_id m < minWindowId) previous else []);
         newer = (if splicing \<and> \<not> attached
                  then filter (\<lambda>m. is_sent m \<and> msg_id m > maxWindowId) previous else []);
         merged = (if length older + length newer + length carried > 0
                   then older @ trimmed @ newer @ carried else trimmed);
         mergeTrimmed = (splicing \<and> length merged > MAX_MESSAGES_PER_CHANNEL);
         final = (if mergeTrimmed then drop (length merged - MAX_MESSAGES_PER_CHANNEL) merged else merged)
     in prev\<lparr>
       messagesByChannel := jm_set (messagesByChannel prev) channelId final,
       loadedChannels := js_add (loadedChannels prev) channelId,
       hasMore := jm_set (hasMore prev) channelId
         ((if length older > 0 then nullish (jm_get (hasMore prev) channelId) hasMoreBefore
           else hasMoreBefore) \<or> mergeTrimmed),
       historyLoadState := jm_delete (historyLoadState prev) channelId,
       detachedChannels := (if attached then js_delete (detachedChannels prev) channelId
                            else js_add (detachedChannels prev) channelId)\<rparr>)"

subsection \<open>Dropping a window\<close>

definition reduceInvalidateLoadedMessageWindows :: "messages_state \<Rightarrow> messages_state" where
  "reduceInvalidateLoadedMessageWindows prev =
     (if loadedChannels prev = [] then prev else prev\<lparr>loadedChannels := []\<rparr>)"

definition reduceInvalidateChannelMessageWindow :: "messages_state \<Rightarrow> int \<Rightarrow> messages_state" where
  "reduceInvalidateChannelMessageWindow prev channelId =
     (if \<not> js_has (loadedChannels prev) channelId then prev
      else prev\<lparr>loadedChannels := js_delete (loadedChannels prev) channelId\<rparr>)"

definition reduceClearChannelContent :: "messages_state \<Rightarrow> int \<Rightarrow> messages_state" where
  "reduceClearChannelContent prev channelId = (
     if jm_get (messagesByChannel prev) channelId = None \<and> \<not> js_has (loadedChannels prev) channelId
     then prev
     else (let carried = filter (\<lambda>m. \<not> is_sent m) (rows prev channelId)
           in prev\<lparr>
             messagesByChannel := (if length carried > 0
               then jm_set (messagesByChannel prev) channelId carried
               else jm_delete (messagesByChannel prev) channelId),
             loadedChannels := js_delete (loadedChannels prev) channelId,
             hasMore := jm_delete (hasMore prev) channelId,
             detachedChannels := js_delete (detachedChannels prev) channelId\<rparr>))"

definition reduceReattachToPresent :: "messages_state \<Rightarrow> int \<Rightarrow> messages_state" where
  "reduceReattachToPresent prev channelId =
     (if \<not> js_has (detachedChannels prev) channelId then prev
      else prev\<lparr>loadedChannels := js_delete (loadedChannels prev) channelId\<rparr>)"

subsection \<open>Extending a window\<close>

definition reduceAppendNewerMessages ::
  "messages_state \<Rightarrow> int \<Rightarrow> message_response list \<Rightarrow> bool \<Rightarrow> messages_state" where
  "reduceAppendNewerMessages prev channelId messages serverMore = (
     if \<not> js_has (detachedChannels prev) channelId then prev
     else
       let existing = rows prev channelId;
           sent = filter is_sent existing;
           carried = filter (\<lambda>m. \<not> is_sent m) existing;
           newestId = max_id sent;
           fresh = map messageResponseToMessage (filter (\<lambda>m. mr_id m > newestId) messages);
           kept = sent @ fresh;
           overflow = length kept - MAX_MESSAGES_PER_CHANNEL;
           wasTrimmed = overflow > 0;
           kept' = (if wasTrimmed then drop overflow kept else kept)
       in prev\<lparr>
         messagesByChannel := jm_set (messagesByChannel prev) channelId (kept' @ carried),
         hasMore := (if wasTrimmed then jm_set (hasMore prev) channelId True else hasMore prev),
         detachedChannels := (if serverMore then detachedChannels prev
                              else js_delete (detachedChannels prev) channelId)\<rparr>)"

definition reduceMergeTailMessages ::
  "messages_state \<Rightarrow> int \<Rightarrow> message_response list \<Rightarrow> messages_state" where
  "reduceMergeTailMessages prev channelId messages = (
     if js_has (detachedChannels prev) channelId then prev
     else
       let existing = rows prev channelId;
           known = js_of_list (map msg_id (filter is_sent existing));
           fresh = map messageResponseToMessage (filter (\<lambda>m. \<not> js_has known (mr_id m)) messages)
       in if length fresh = 0 then prev
          else let sent = sort_key msg_id (filter is_sent existing @ fresh)
               in prev\<lparr>messagesByChannel := jm_set (messagesByChannel prev) channelId
                    (last_n MAX_MESSAGES_PER_CHANNEL sent @ filter (\<lambda>m. \<not> is_sent m) existing)\<rparr>)"

definition reducePrependMessages ::
  "messages_state \<Rightarrow> int \<Rightarrow> message_response list \<Rightarrow> bool \<Rightarrow> messages_state" where
  "reducePrependMessages prev channelId messages serverMore = (
     let converted = rev (map messageResponseToMessage messages);
         existing = rows prev channelId;
         combined = converted @ existing;
         wasTrimmed = length combined > MAX_MESSAGES_PER_CHANNEL;
         kept = take MAX_MESSAGES_PER_CHANNEL combined;
         carried = filter (\<lambda>m. \<not> is_sent m) (drop MAX_MESSAGES_PER_CHANNEL combined);
         final = (if wasTrimmed then (if length carried > 0 then kept @ carried else kept) else combined)
     in prev\<lparr>
       messagesByChannel := jm_set (messagesByChannel prev) channelId final,
       hasMore := jm_set (hasMore prev) channelId serverMore,
       detachedChannels := (if wasTrimmed then js_add (detachedChannels prev) channelId
                            else detachedChannels prev)\<rparr>)"

subsection \<open>Lemmas on rows\<close>

definition sent_ids :: "message list \<Rightarrow> int list" where
  "sent_ids ms = map msg_id (filter is_sent ms)"

lemma sent_ids_simps [simp]:
  "sent_ids [] = []" "sent_ids (xs @ ys) = sent_ids xs @ sent_ids ys"
  "sent_ids (m # ms) = (if is_sent m then msg_id m # sent_ids ms else sent_ids ms)"
  by (simp_all add: sent_ids_def)

lemma sent_ids_filter_sent [simp]: "sent_ids (filter is_sent ms) = sent_ids ms"
  by (simp add: sent_ids_def)

lemma real_ids_sent: "list_all row_ok ms \<Longrightarrow> real_ids ms = sent_ids ms"
  by (induction ms) (auto simp: row_ok_def)

lemma rows_ok_sorted: "list_all row_ok ms \<Longrightarrow> sorted_wrt (<) (sent_ids ms) \<Longrightarrow> rows_ok ms"
  by (simp add: rows_ok_def real_ids_sent strict_sorted_iff)

lemma sent_ids_mono: "set xs \<subseteq> set ys \<Longrightarrow> set (sent_ids xs) \<subseteq> set (sent_ids ys)"
  by (auto simp: sent_ids_def)

lemma max_id_acc:
  "a \<le> foldl (\<lambda>mx m. max mx (msg_id m)) a ms \<and>
   (\<forall>m \<in> set ms. msg_id m \<le> foldl (\<lambda>mx m. max mx (msg_id m)) a ms)"
proof (induction ms arbitrary: a)
  case Nil
  then show ?case by simp
next
  case (Cons m ms)
  from Cons [of "max a (msg_id m)"] show ?case by auto
qed

lemma max_id_ge: "m \<in> set ms \<Longrightarrow> msg_id m \<le> max_id ms"
  using max_id_acc [of 0 ms] by (simp add: max_id_def)

lemma max_id_less: "\<forall>m \<in> set ms. msg_id m < b \<Longrightarrow> 0 < b \<Longrightarrow> max_id ms < b"
proof -
  have "a < b \<Longrightarrow> \<forall>m \<in> set ms. msg_id m < b \<Longrightarrow> foldl (\<lambda>mx m. max mx (msg_id m)) a ms < b" for a
    by (induction ms arbitrary: a) auto
  then show "\<forall>m \<in> set ms. msg_id m < b \<Longrightarrow> 0 < b \<Longrightarrow> max_id ms < b" by (simp add: max_id_def)
qed

lemma max_id_nonneg: "0 \<le> max_id ms"
  using max_id_acc [of 0 ms] by (simp add: max_id_def)

lemma sorted_wrt_subset_filter: "sorted_wrt R (map f xs) \<Longrightarrow> sorted_wrt R (map f (filter P xs))"
  by (induction xs) auto

lemma sent_ids_filter: "sorted_wrt (<) (sent_ids ms) \<Longrightarrow> sorted_wrt (<) (sent_ids (filter P ms))"
  by (induction ms) (auto simp: sent_ids_def)

lemma trimPage_last_n: "trimPage ms = last_n MAX_MESSAGES_PER_CHANNEL ms"
  by (simp add: trimPage_def last_n_def)

text \<open>A page as the server sends it: newest first, with positive ids.\<close>

definition newest_first :: "message_response list \<Rightarrow> bool" where
  "newest_first rs \<longleftrightarrow> sorted_wrt (\<lambda>a b. mr_id a > mr_id b) rs \<and> list_all (\<lambda>r. 0 < mr_id r) rs"

definition oldest_first :: "message_response list \<Rightarrow> bool" where
  "oldest_first rs \<longleftrightarrow> sorted_wrt (\<lambda>a b. mr_id a < mr_id b) rs \<and> list_all (\<lambda>r. 0 < mr_id r) rs"

abbreviation page_rows :: "message_response list \<Rightarrow> message list" where
  "page_rows rs \<equiv> trimPage (rev (map messageResponseToMessage rs))"

lemma page_rows_sent: "\<forall>m \<in> set (page_rows rs). is_sent m \<and> (\<exists>r \<in> set rs. m = messageResponseToMessage r)"
  by (auto simp: trimPage_last_n dest!: set_last_n [THEN subsetD])

lemma filter_is_sent_id: "\<forall>m \<in> set ms. is_sent m \<Longrightarrow> sent_ids ms = map msg_id ms"
  by (simp add: sent_ids_def)

lemma sent_ids_last_n:
  assumes "\<forall>m \<in> set ms. is_sent m"
  shows "sent_ids (last_n n ms) = last_n n (map msg_id ms)"
proof -
  have "\<forall>m \<in> set (last_n n ms). is_sent m" using assms set_last_n [of n ms] by blast
  then show ?thesis by (simp add: filter_is_sent_id last_n_def drop_map)
qed

lemma unsent_after_sent:
  assumes "\<forall>m \<in> set ms. is_sent m"
  shows "filter (\<lambda>m. \<not> is_sent m) (last_n n ms @ filter (\<lambda>m. \<not> is_sent m) xs) = filter (\<lambda>m. \<not> is_sent m) xs"
proof -
  have "filter (\<lambda>m. \<not> is_sent m) (last_n n ms) = []"
    using assms set_last_n [of n ms] unfolding filter_empty_conv by blast
  then show ?thesis by simp
qed

lemma page_rows_sorted:
  assumes "newest_first rs"
  shows "sorted_wrt (<) (map msg_id (page_rows rs))"
proof -
  have "sorted_wrt (<) (map msg_id (rev (map messageResponseToMessage rs)))"
    using assms by (simp add: newest_first_def sorted_wrt_map sorted_wrt_rev rev_map o_def)
  then show ?thesis
    unfolding trimPage_last_n last_n_def drop_map [symmetric] by (rule sorted_wrt_drop)
qed

lemma snapshotRows_ids: "map msg_id (snapshotRows previous page) = map msg_id page"
  unfolding snapshotRows_def Let_def map_map
  by (rule map_cong) (auto split: option.split dest!: jm_get_of_listD)

lemma snapshotRows_sent:
  "\<forall>m \<in> set page. is_sent m \<Longrightarrow> m \<in> set (snapshotRows previous page) \<Longrightarrow> is_sent m"
  by (auto simp: snapshotRows_def Let_def split: option.splits if_splits dest!: jm_get_of_listD)

lemma length_snapshotRows [simp]: "length (snapshotRows previous page) = length page"
  by (simp add: snapshotRows_def Let_def)

subsection \<open>What a page carries over\<close>

lemma find_echo_Some:
  "find_echo m consumed i page = Inr (Some j) \<Longrightarrow>
     i \<le> j \<and> j < i + length page \<and> \<not> js_has consumed j \<and> isUnreconciledEcho m (page ! (j - i)) = Inr True"
proof (induction page arbitrary: i)
  case Nil
  then show ?case by simp
next
  case (Cons s ss)
  from Cons.prems obtain hit where
    hit: "(if js_has consumed i then Inr False else isUnreconciledEcho m s) = Inr hit"
    by (auto elim: res_bind_InrE)
  show ?case
  proof (cases hit)
    case True
    with hit Cons.prems show ?thesis by (auto split: if_splits)
  next
    case False
    with hit Cons.prems have "find_echo m consumed (Suc i) ss = Inr (Some j)" by simp
    from Cons.IH [OF this] show ?thesis by (auto simp: nth_Cons')
  qed
qed

lemma find_echo_None:
  "find_echo m consumed i page = Inr None \<Longrightarrow> k < length page \<Longrightarrow> \<not> js_has consumed (i + k) \<Longrightarrow>
     isUnreconciledEcho m (page ! k) = Inr False"
proof (induction page arbitrary: i k)
  case Nil
  then show ?case by simp
next
  case (Cons s ss)
  from Cons.prems(1) obtain hit where
    hit: "(if js_has consumed i then Inr False else isUnreconciledEcho m s) = Inr hit" "\<not> hit"
      "find_echo m consumed (Suc i) ss = Inr None"
    by (auto elim!: res_bind_InrE split: if_splits)
  show ?case
  proof (cases k)
    case 0
    with hit Cons.prems show ?thesis by simp
  next
    case (Suc k')
    with Cons.IH [OF hit(3), of k'] Cons.prems show ?thesis by simp
  qed
qed

text \<open>The sent rows carried are those above the floor that the page does not have; an unsent row is
  carried unless a page row echoes it; and a page row retires at most one unsent row.\<close>

lemma carryRows_sent:
  "carryRows ids fl page consumed ms = Inr r \<Longrightarrow>
     filter is_sent r = filter (\<lambda>m. is_sent m \<and> \<not> js_has ids (msg_id m) \<and> msg_id m > fl) ms"
  by (induction ms arbitrary: consumed r)
    (auto elim!: res_bind_InrE split: if_splits option.splits)

lemma carryRows_sent_ids:
  assumes "carryRows ids fl page consumed ms = Inr r"
  shows "sent_ids r = sent_ids (filter (\<lambda>m. is_sent m \<and> \<not> js_has ids (msg_id m) \<and> msg_id m > fl) ms)"
  by (auto simp: sent_ids_def carryRows_sent [OF assms] intro!: arg_cong [where f = "map msg_id"] filter_cong)

lemma carryRows_ConsE:
  assumes "carryRows ids fl page consumed (m # ms) = Inr r"
  obtains consumed' r' where "carryRows ids fl page consumed' ms = Inr r'" "r = r' \<or> r = m # r'"
  using assms by (auto elim!: res_bind_InrE split: if_splits option.splits)

lemma carryRows_set:
  "carryRows ids fl page consumed ms = Inr r \<Longrightarrow> set r \<subseteq> set ms \<and> length r \<le> length ms"
proof (induction ms arbitrary: consumed r)
  case (Cons m ms)
  from Cons.prems obtain consumed' r' where "carryRows ids fl page consumed' ms = Inr r'"
    "r = r' \<or> r = m # r'"
    by (rule carryRows_ConsE)
  with Cons.IH show ?case by fastforce
qed simp


lemma carryRows_one_to_one:
  assumes "carryRows ids fl page consumed ms = Inr r" and "distinct consumed"
    and "set consumed \<subseteq> {..<length page}"
  shows "length (filter (\<lambda>m. \<not> is_sent m \<and> \<not> js_has ids (msg_id m)) ms) + length consumed \<le>
    length (filter (\<lambda>m. \<not> is_sent m) r) + length page"
  using assms
proof (induction ms arbitrary: consumed r)
  case Nil
  then have "card (set consumed) \<le> card {..<length page}" by (intro card_mono) auto
  with Nil show ?case by (simp add: distinct_card)
next
  case (Cons m ms)
  show ?case
  proof (cases "js_has ids (msg_id m) \<or> is_sent m")
    case True
    with Cons.prems obtain r' where "carryRows ids fl page consumed ms = Inr r'"
      "filter (\<lambda>m. \<not> is_sent m) r = filter (\<lambda>m. \<not> is_sent m) r'"
      by (auto elim!: res_bind_InrE split: if_splits)
    with Cons.IH [of consumed r'] Cons.prems(2,3) True show ?thesis by auto
  next
    case False
    with Cons.prems obtain e where e: "find_echo m consumed 0 page = Inr e" by (auto elim: res_bind_InrE)
    show ?thesis
    proof (cases e)
      case None
      with e False Cons.prems obtain r' where "carryRows ids fl page consumed ms = Inr r'" "r = m # r'"
        by (auto elim!: res_bind_InrE)
      with Cons.IH [of consumed r'] Cons.prems(2,3) False show ?thesis by auto
    next
      case (Some j)
      with e False Cons.prems have r: "carryRows ids fl page (js_add consumed j) ms = Inr r" by simp
      from Some e have "j < length page \<and> \<not> js_has consumed j" by (auto dest: find_echo_Some)
      with Cons.IH [OF r] Cons.prems(2,3) False show ?thesis
        by (auto simp: js_add_def js_has_def)
    qed
  qed
qed

subsection \<open>Trimming\<close>

lemma trimMerged_set: "set (trimMerged older ms a) \<subseteq> set ms"
  by (auto simp: trimMerged_def Let_def dest: in_set_takeD in_set_dropD)

lemma sent_ids_sublist:
  "sorted_wrt R (sent_ids ms) \<Longrightarrow> sorted_wrt R (sent_ids (take n ms))"
  "sorted_wrt R (sent_ids ms) \<Longrightarrow> sorted_wrt R (sent_ids (drop n ms))"
  by (metis append_take_drop_id sent_ids_simps(2) sorted_wrt_append)+

lemma sent_ids_unsent: "sent_ids (filter (\<lambda>m. \<not> is_sent m) ms) = []"
  by (simp add: sent_ids_def)

lemma trimMerged_sorted:
  "sorted_wrt (<) (sent_ids ms) \<Longrightarrow> sorted_wrt (<) (sent_ids (trimMerged older ms a))"
  by (simp add: trimMerged_def Let_def sent_ids_sublist sent_ids_unsent)

lemma drop_keeps_suffix: "length ys \<le> n \<Longrightarrow> set ys \<subseteq> set (drop (length (xs @ ys) - n) (xs @ ys))"
  by simp

lemma trimMerged_tail:
  assumes "length ys \<le> MAX_MESSAGES_PER_CHANNEL" and "m \<in> set ys" and "\<not> is_sent m \<or> \<not> keepsHead older (xs @ ys) a"
  shows "m \<in> set (trimMerged older (xs @ ys) a)"
proof (cases "keepsHead older (xs @ ys) a")
  case True
  have "m \<in> set (take MAX_MESSAGES_PER_CHANNEL (xs @ ys)) \<union> set (drop MAX_MESSAGES_PER_CHANNEL (xs @ ys))"
    using assms(2) by (metis append_take_drop_id in_set_conv_decomp set_append Un_iff)
  with True assms(3) show ?thesis by (auto simp: trimMerged_def Let_def)
next
  case False
  with assms(2) drop_keeps_suffix [OF assms(1), of xs] show ?thesis
    by (auto simp: trimMerged_def Let_def)
qed

lemma trimMerged_unsent:
  assumes "length ys \<le> MAX_MESSAGES_PER_CHANNEL" and "\<forall>m \<in> set xs. is_sent m"
  shows "filter (\<lambda>m. \<not> is_sent m) (trimMerged older (xs @ ys) a) = filter (\<lambda>m. \<not> is_sent m) ys"
proof (cases "keepsHead older (xs @ ys) a")
  case True
  have "filter (\<lambda>m. \<not> is_sent m) (take n (xs @ ys)) @ filter (\<lambda>m. \<not> is_sent m) (drop n (xs @ ys)) =
      filter (\<lambda>m. \<not> is_sent m) (xs @ ys)" for n
    by (metis append_take_drop_id filter_append)
  with True assms(2) show ?thesis
    by (simp add: trimMerged_def Let_def del: filter_append take_append drop_append)
      (simp only: filter_append [symmetric], simp)
next
  case False
  with assms show ?thesis by (auto simp: trimMerged_def Let_def filter_empty_conv dest: in_set_dropD)
qed

lemma rows_ok_trimMerged:
  assumes "rows_ok ms"
  shows "rows_ok (trimMerged older ms a)"
proof -
  have "rows_ok (take n ms @ drop n ms)" for n using assms by (simp only: append_take_drop_id)
  then have "rows_ok (take n ms @ filter (\<lambda>m. \<not> is_sent m) (drop n ms))" for n
    using rows_ok_filter [of "drop n ms"] by (fastforce simp: set_real_ids simp del: append_take_drop_id)
  with assms show ?thesis by (auto simp: trimMerged_def Let_def rows_ok_sublist)
qed

lemma trimMerged_anchor:
  assumes "find_index (\<lambda>m. msg_id m = a) ms = Some i" and "i < MAX_MESSAGES_PER_CHANNEL" and "older \<noteq> []"
  shows "a \<in> msg_id ` set (trimMerged older ms (Some a))"
proof (cases "i < length ms - MAX_MESSAGES_PER_CHANNEL")
  case True
  with assms have "keepsHead older ms (Some a)" by (auto simp: keepsHead_def Let_def)
  moreover have "ms ! i \<in> set (take MAX_MESSAGES_PER_CHANNEL ms)"
    using find_index_SomeD [OF assms(1)] assms(2) by (force simp: in_set_conv_nth)
  ultimately show ?thesis
    using find_index_SomeD [OF assms(1)] by (auto simp: trimMerged_def Let_def intro!: rev_image_eqI)
next
  case False
  with assms have "\<not> keepsHead older ms (Some a)" by (auto simp: keepsHead_def Let_def)
  moreover have "ms ! i \<in> set (drop (length ms - MAX_MESSAGES_PER_CHANNEL) ms)"
  proof -
    have "drop (length ms - MAX_MESSAGES_PER_CHANNEL) ms ! (i - (length ms - MAX_MESSAGES_PER_CHANNEL)) = ms ! i"
      using False find_index_SomeD [OF assms(1)] by simp
    moreover have "i - (length ms - MAX_MESSAGES_PER_CHANNEL) < length (drop (length ms - MAX_MESSAGES_PER_CHANNEL) ms)"
      using False find_index_SomeD [OF assms(1)] by (simp add: diff_less_mono not_less)
    ultimately show ?thesis by (metis nth_mem)
  qed
  ultimately show ?thesis
    using find_index_SomeD [OF assms(1)] by (auto simp: trimMerged_def Let_def intro!: rev_image_eqI)
qed

subsection \<open>The merged window\<close>

lemma reduceSetMessages_cases:
  assumes "reduceSetMessages s c rs more' spl a = Inr s'"
  obtains carried merged older where
    "older = spliceOlder s c spl more' (page_rows rs)"
    "carryRows (js_of_list (map msg_id (page_rows rs))) (max (max_id (page_rows rs)) (watermark s c))
       (page_rows rs) [] (rows s c) = Inr carried"
    "merged = older @ snapshotRows (rows s c) (page_rows rs) @ carried"
    "rows s' c = trimMerged older merged a"
    "messagesByChannel s' = jm_set (messagesByChannel s) c (trimMerged older merged a)"
    "js_has (detachedChannels s') c \<longleftrightarrow> keepsHead older merged a"
    "js_has (loadedChannels s') c" "jm_get (historyLoadState s') c = None" "jm_get (loadWatermark s') c = None"
proof -
  from assms obtain carried where
    "carryRows (js_of_list (map msg_id (page_rows rs))) (max (max_id (page_rows rs)) (watermark s c))
       (page_rows rs) [] (rows s c) = Inr carried"
    by (auto simp: reduceSetMessages_def Let_def elim!: res_bind_InrE)
  with assms show thesis
    by (intro that [OF refl _ refl]) (auto simp: reduceSetMessages_def Let_def split: if_splits)
qed

text \<open>Every sent row of the merge stands in order: the rows above the page, the page, and the rows
  that arrived since.\<close>

lemma merged_sorted:
  assumes "newest_first rs" and "sorted_wrt (<) (sent_ids (rows s c))"
    and "carryRows ids (max (max_id (page_rows rs)) w) (page_rows rs) [] (rows s c) = Inr carried"
  shows "sorted_wrt (<) (sent_ids (spliceOlder s c spl more' (page_rows rs) @
           snapshotRows (rows s c) (page_rows rs) @ carried))"
proof -
  let ?page = "page_rows rs" and ?snap = "snapshotRows (rows s c) (page_rows rs)"
  have snap: "sent_ids ?snap = map msg_id ?page"
    using snapshotRows_sent page_rows_sent [of rs]
    by (subst filter_is_sent_id) (auto simp: snapshotRows_ids)
  have older: "sorted_wrt (<) (sent_ids (spliceOlder s c spl more' ?page))"
    unfolding spliceOlder_def Let_def using sent_ids_filter [OF assms(2)] by auto
  have below: "\<forall>x \<in> set (sent_ids (spliceOlder s c spl more' ?page)). ?page \<noteq> [] \<and> x < msg_id (hd ?page)"
    by (auto simp: spliceOlder_def Let_def sent_ids_def split: list.splits)
  have srt: "sorted_wrt (<) (map msg_id ?page)" by (rule page_rows_sorted [OF assms(1)])
  have carried: "sorted_wrt (<) (sent_ids carried)" "\<forall>x \<in> set (sent_ids carried). max_id ?page < x"
    unfolding carryRows_sent_ids [OF assms(3)] by (rule sent_ids_filter [OF assms(2)]) (auto simp: sent_ids_def)
  have hd: "\<forall>x \<in> set ?page. msg_id (hd ?page) \<le> msg_id x"
    using srt by (cases ?page) auto
  have page_carried: "\<forall>x \<in> set (map msg_id ?page). \<forall>y \<in> set (sent_ids carried). x < y"
    using carried(2) max_id_ge [of _ ?page] by fastforce
  have older_page: "\<forall>x \<in> set (sent_ids (spliceOlder s c spl more' ?page)). \<forall>y \<in> set (map msg_id ?page). x < y"
    using below hd by fastforce
  have older_carried: "\<forall>x \<in> set (sent_ids (spliceOlder s c spl more' ?page)). \<forall>y \<in> set (sent_ids carried). x < y"
  proof (intro ballI)
    fix x y assume x: "x \<in> set (sent_ids (spliceOlder s c spl more' ?page))" and y: "y \<in> set (sent_ids carried)"
    then have h: "msg_id (hd ?page) \<in> set (map msg_id ?page)" using below by simp
    from older_page x h page_carried y show "x < y" using order_less_trans by blast
  qed
  show ?thesis
    unfolding sent_ids_simps snap sorted_wrt_append
    using older srt carried(1) page_carried older_page older_carried by auto
qed

lemma merged_row_ok:
  assumes "rows_ok (rows s c)" and "newest_first rs"
    and "carryRows ids fl (page_rows rs) [] (rows s c) = Inr carried"
  shows "list_all row_ok (spliceOlder s c spl more' (page_rows rs) @
           snapshotRows (rows s c) (page_rows rs) @ carried)"
proof -
  have "row_ok m" if "m \<in> set (snapshotRows (rows s c) (page_rows rs))" for m
  proof -
    have "is_sent m" using snapshotRows_sent [OF _ that] page_rows_sent [of rs] by blast
    moreover have "msg_id m \<in> msg_id ` set (page_rows rs)"
      using that snapshotRows_ids [of "rows s c" "page_rows rs"] by (metis image_eqI list.set_map)
    then have "msg_id m \<noteq> 0"
      using page_rows_sent [of rs] assms(2) by (fastforce simp: newest_first_def list_all_iff)
    ultimately show ?thesis by (simp add: row_ok_def)
  qed
  moreover have "row_ok m" if "m \<in> set (rows s c)" for m
    by (rule rows_okD [OF assms(1) that])
  ultimately show ?thesis
    using carryRows_set [OF assms(3)] by (auto simp: list_all_iff spliceOlder_def Let_def split: if_splits)
qed

lemma rows_ok_distinct: "list_all row_ok ms \<Longrightarrow> distinct (sent_ids ms) \<Longrightarrow> rows_ok ms"
  by (simp add: rows_ok_def real_ids_sent)

lemma distinct_sent_ids: "rows_ok ms \<Longrightarrow> distinct (sent_ids ms)"
  by (auto simp: rows_ok_def real_ids_sent)

lemma sent_ids_filter_distinct: "distinct (sent_ids ms) \<Longrightarrow> distinct (sent_ids (filter P ms))"
  by (induction ms) (auto simp: sent_ids_def)

lemma merged_rows_ok:
  assumes "rows_ok (rows s c)" and "newest_first rs"
    and "carryRows ids (max (max_id (page_rows rs)) w) (page_rows rs) [] (rows s c) = Inr carried"
  shows "rows_ok (spliceOlder s c spl more' (page_rows rs) @ snapshotRows (rows s c) (page_rows rs) @ carried)"
proof (rule rows_ok_distinct [OF merged_row_ok [OF assms]])
  let ?page = "page_rows rs" and ?old = "spliceOlder s c spl more' (page_rows rs)"
  have snap: "sent_ids (snapshotRows (rows s c) ?page) = map msg_id ?page"
    using snapshotRows_sent page_rows_sent [of rs]
    by (subst filter_is_sent_id) (auto simp: snapshotRows_ids)
  have srt: "sorted_wrt (<) (map msg_id ?page)" by (rule page_rows_sorted [OF assms(2)])
  have old: "distinct (sent_ids ?old)" "\<forall>x \<in> set (sent_ids ?old). ?page \<noteq> [] \<and> x < msg_id (hd ?page)"
    using sent_ids_filter_distinct [OF distinct_sent_ids [OF assms(1)]]
    by (auto simp: spliceOlder_def Let_def split: if_splits) (auto simp: sent_ids_def split: list.splits)
  have carried: "distinct (sent_ids carried)" "\<forall>x \<in> set (sent_ids carried). max_id ?page < x"
    unfolding carryRows_sent_ids [OF assms(3)]
    by (rule sent_ids_filter_distinct [OF distinct_sent_ids [OF assms(1)]]) (auto simp: sent_ids_def)
  have hd: "\<forall>x \<in> set ?page. msg_id (hd ?page) \<le> msg_id x" using srt by (cases ?page) auto
  have "\<forall>x \<in> set ?page. msg_id x \<le> max_id ?page" by (simp add: max_id_ge)
  then have "set (sent_ids ?old) \<inter> set (map msg_id ?page) = {}" "set (map msg_id ?page) \<inter> set (sent_ids carried) = {}"
    "set (sent_ids ?old) \<inter> set (sent_ids carried) = {}"
    using hd old(2) carried(2) by (fastforce dest: hd_in_set)+
  with old(1) carried(1) srt show "distinct (sent_ids (?old @ snapshotRows (rows s c) ?page @ carried))"
    unfolding sent_ids_simps snap by (auto simp: strict_sorted_iff)
qed

lemma reduceSetMessages_store_ok:
  assumes "store_ok s" and "newest_first rs" and "reduceSetMessages s c rs more' spl a = Inr s'"
  shows "store_ok s'"
proof -
  from assms(3) obtain carried merged older where
    m: "older = spliceOlder s c spl more' (page_rows rs)"
      "carryRows (js_of_list (map msg_id (page_rows rs))) (max (max_id (page_rows rs)) (watermark s c))
         (page_rows rs) [] (rows s c) = Inr carried"
      "merged = older @ snapshotRows (rows s c) (page_rows rs) @ carried"
      "messagesByChannel s' = jm_set (messagesByChannel s) c (trimMerged older merged a)"
    by (rule reduceSetMessages_cases)
  have "rows_ok merged"
    unfolding m(1,3) by (rule merged_rows_ok [OF store_ok_rows [OF assms(1)] assms(2) m(2)])
  then show ?thesis by (intro store_ok_write [OF assms(1) rows_ok_trimMerged m(4)])
qed

subsection \<open>The other writers keep the rows well-formed\<close>

lemma mono_page_sorted:
  assumes "oldest_first rs"
  shows "sorted_wrt (<) (map mr_id (filter P rs))"
  using assms sorted_wrt_subset_filter [of "(<)" mr_id rs P]
  by (simp add: oldest_first_def sorted_wrt_map)

lemma sent_ids_converted [simp]: "sent_ids (map messageResponseToMessage rs) = map mr_id rs"
  by (simp add: sent_ids_def o_def)

lemma row_ok_converted: "0 < mr_id r \<Longrightarrow> row_ok (messageResponseToMessage r)"
  by (simp add: row_ok_def)

lemma list_all_row_ok: "rows_ok ms \<Longrightarrow> list_all row_ok ms"
  by (simp add: rows_ok_def)

lemma reduceAppendNewerMessages_store_ok:
  assumes "store_ok s" and "oldest_first rs"
  shows "store_ok (reduceAppendNewerMessages s c rs more')"
proof -
  let ?ms = "rows s c" and ?P = "\<lambda>m. mr_id m > max_id (filter is_sent (rows s c))"
  let ?all = "filter is_sent ?ms @ map messageResponseToMessage (filter ?P rs)"
  have ok: "rows_ok ?ms" by (rule store_ok_rows [OF assms(1)])
  have "rows_ok ?all"
  proof (rule rows_ok_distinct)
    show "list_all row_ok ?all"
      using rows_okD [OF ok] assms(2) by (auto simp: list_all_iff oldest_first_def intro: row_ok_converted)
    have "\<forall>x \<in> set (sent_ids (filter is_sent ?ms)). x \<le> max_id (filter is_sent ?ms)"
      by (auto simp: sent_ids_def intro: max_id_ge)
    then show "distinct (sent_ids ?all)"
      using distinct_sent_ids [OF ok] mono_page_sorted [OF assms(2), of ?P]
      by (fastforce simp: strict_sorted_iff)
  qed
  moreover have "real_ids (filter (\<lambda>m. \<not> is_sent m) ?ms) = []"
    using real_ids_sent [OF list_all_row_ok [OF rows_ok_filter [OF ok]]] by (simp add: sent_ids_unsent)
  ultimately have "rows_ok (drop n ?all @ filter (\<lambda>m. \<not> is_sent m) ?ms)" for n
    using rows_ok_sublist(2) rows_ok_filter [OF ok] by (simp del: drop_append drop_map)
  from this [of 0] this show ?thesis
    unfolding reduceAppendNewerMessages_def Let_def using assms(1) by (auto simp del: rows_ok_simps drop_append)
qed

lemma reduceMergeTailMessages_store_ok:
  assumes "store_ok s" and "oldest_first rs"
  shows "store_ok (reduceMergeTailMessages s c rs)"
proof -
  let ?ms = "rows s c"
  let ?P = "\<lambda>m. \<not> js_has (js_of_list (map msg_id (filter is_sent (rows s c)))) (mr_id m)"
  let ?all = "filter is_sent ?ms @ map messageResponseToMessage (filter ?P rs)"
  have ok: "rows_ok ?ms" by (rule store_ok_rows [OF assms(1)])
  have all: "list_all row_ok ?all"
    using rows_okD [OF ok] assms(2) by (auto simp: list_all_iff oldest_first_def intro: row_ok_converted)
  have "distinct (sent_ids ?all)"
    using distinct_sent_ids [OF ok] mono_page_sorted [OF assms(2), of ?P]
    by (auto simp: strict_sorted_iff sent_ids_def [symmetric])
  then have "distinct (sent_ids (sort_key msg_id ?all))"
    unfolding sent_ids_def filter_sort distinct_map_sort_key .
  then have "rows_ok (sort_key msg_id ?all)"
    using all by (intro rows_ok_distinct) (auto simp: list_all_iff)
  moreover have "real_ids (filter (\<lambda>m. \<not> is_sent m) ?ms) = []"
    using real_ids_sent [OF list_all_row_ok [OF rows_ok_filter [OF ok]]] by (simp add: sent_ids_unsent)
  ultimately have "rows_ok (last_n n (sort_key msg_id ?all) @ filter (\<lambda>m. \<not> is_sent m) ?ms)" for n
    using rows_ok_sublist(3) rows_ok_filter [OF ok] by simp
  then show ?thesis
    unfolding reduceMergeTailMessages_def Let_def using assms(1) by (auto simp del: rows_ok_simps)
qed

lemma reducePrependMessages_store_ok:
  assumes "store_ok s" and "newest_first rs" and "\<forall>r \<in> set rs. mr_id r \<notin> set (real_ids (rows s c))"
  shows "store_ok (reducePrependMessages s c rs more')"
proof -
  let ?new = "rev (map messageResponseToMessage rs)"
  have "sorted_wrt (<) (sent_ids ?new)"
    using assms(2) by (simp add: newest_first_def sent_ids_def sorted_wrt_map sorted_wrt_rev rev_map [symmetric]
        rev_filter o_def)
  then have "rows_ok ?new"
    using assms(2) by (intro rows_ok_sorted) (auto simp: list_all_iff newest_first_def intro: row_ok_converted)
  then have all: "rows_ok (?new @ rows s c)"
    using store_ok_rows [OF assms(1), of c] assms(3) by (fastforce simp: set_real_ids)
  have "rows_ok (take n (?new @ rows s c) @ drop n (?new @ rows s c))" for n
    using all by (simp only: append_take_drop_id)
  then have "rows_ok (take n (?new @ rows s c) @ filter (\<lambda>m. \<not> is_sent m) (drop n (?new @ rows s c)))" for n
    using rows_ok_filter [of "drop n (?new @ rows s c)" "\<lambda>m. \<not> is_sent m"] set_real_ids_filter
    unfolding rows_ok_simps(3) by blast
  with all show ?thesis
    unfolding reducePrependMessages_def Let_def using assms(1) rows_ok_sublist(1) [OF all]
    by (auto simp del: rows_ok_simps take_append drop_append filter_append)
qed

text \<open>The around-window: its own rows in the middle, older rows above, newer and unsent rows below.\<close>

lemma around_rows_ok:
  assumes ok: "rows_ok ms" and page: "list_all row_ok page" "\<forall>m \<in> set page. is_sent m"
      "sorted_wrt (<) (map msg_id page)"
    and older: "older = [] \<or> page \<noteq> [] \<and> older = filter (\<lambda>m. is_sent m \<and> msg_id m < msg_id (hd page)) ms"
    and newer: "newer = (if b then filter (\<lambda>m. is_sent m \<and> msg_id m > max_id page) ms else [])"
    and carried: "carried = filter (\<lambda>m. \<not> is_sent m \<or> (a \<and> msg_id m > max_id page)) ms" and "b \<longrightarrow> \<not> a"
  shows "rows_ok (older @ page @ newer @ carried)"
proof (rule rows_ok_distinct)
  show "list_all row_ok (older @ page @ newer @ carried)"
    using rows_okD [OF ok] page(1) older newer carried by (auto simp: list_all_iff)
  let ?hi = "filter (\<lambda>m. is_sent m \<and> msg_id m > max_id page) ms"
  have low: "\<forall>x \<in> set (sent_ids older). page \<noteq> [] \<and> x < msg_id (hd page)"
    using older by (auto simp: sent_ids_def)
  have d_low: "distinct (sent_ids older)"
    using older sent_ids_filter_distinct [OF distinct_sent_ids [OF ok]] by auto
  have "sent_ids newer = (if b then sent_ids ?hi else [])" using newer by simp
  moreover have "sent_ids carried = (if a then sent_ids ?hi else [])"
    unfolding carried sent_ids_def by (auto intro!: arg_cong [where f = "map msg_id"] filter_cong)
  ultimately have hi: "sent_ids (newer @ carried) = (if a \<or> b then sent_ids ?hi else [])"
    using assms(8) by auto
  have d_hi: "distinct (sent_ids (newer @ carried))" "\<forall>x \<in> set (sent_ids (newer @ carried)). max_id page < x"
    unfolding hi using sent_ids_filter_distinct [OF distinct_sent_ids [OF ok]]
    by (simp, auto simp: sent_ids_def split: if_splits)
  have mid: "sent_ids page = map msg_id page" by (rule filter_is_sent_id [OF page(2)])
  have lo_page: "\<forall>x \<in> set page. msg_id (hd page) \<le> msg_id x" using page(3) by (cases page) auto
  have hi_page: "\<forall>x \<in> set page. msg_id x \<le> max_id page" by (simp add: max_id_ge)
  have "set (sent_ids older) \<inter> set (map msg_id page) = {}"
    "set (map msg_id page) \<inter> set (sent_ids (newer @ carried)) = {}"
    "set (sent_ids older) \<inter> set (sent_ids (newer @ carried)) = {}"
    using low lo_page hi_page d_hi(2) by (fastforce dest: hd_in_set)+
  with d_low d_hi(1) page(3) show "distinct (sent_ids (older @ page @ newer @ carried))"
    unfolding sent_ids_simps mid by (auto simp: strict_sorted_iff)
qed

lemma reduceSetAroundMessages_store_ok:
  assumes "store_ok s" and "oldest_first rs"
  shows "store_ok (reduceSetAroundMessages s c rs before after spl)"
proof -
  define conv where "conv = map (\<lambda>m. mergeMessagePoll (jm_get (jm_of_list (map (\<lambda>m. (msg_id m, m))
      (filter (\<lambda>m. msg_poll m \<noteq> None) (rows s c)))) (msg_id m)) m) (map messageResponseToMessage rs)"
  define page where "page = (if length conv > MAX_MESSAGES_PER_CHANNEL then take MAX_MESSAGES_PER_CHANNEL conv else conv)"
  have "sorted_wrt (<) (map msg_id conv)" "\<forall>m \<in> set conv. row_ok m \<and> is_sent m"
    using assms(2) by (auto simp: conv_def oldest_first_def sorted_wrt_map list_all_iff row_ok_def o_def)
  then have page: "list_all row_ok page" "\<forall>m \<in> set page. is_sent m" "sorted_wrt (<) (map msg_id page)"
    by (auto simp: page_def list_all_iff take_map [symmetric] intro: sorted_wrt_take dest: in_set_takeD)
  define att where "att = (\<not> after \<and> length page = length conv)"
  define older where "older = (if (spl \<and> length page > 0) \<and> before then filter (\<lambda>m. is_sent m \<and>
      msg_id m < (case page of [] \<Rightarrow> 0 | m # _ \<Rightarrow> msg_id m)) (rows s c) else [])"
  define newer where "newer = (if (spl \<and> length page > 0) \<and> \<not> att
      then filter (\<lambda>m. is_sent m \<and> msg_id m > max_id page) (rows s c) else [])"
  define carried where "carried = filter (\<lambda>m. \<not> is_sent m \<or> (att \<and> msg_id m > max_id page)) (rows s c)"
  define merged where "merged = (if length older + length newer + length carried > 0
      then older @ page @ newer @ carried else page)"
  have "merged = older @ page @ newer @ carried" by (auto simp: merged_def)
  moreover have "rows_ok (older @ page @ newer @ carried)"
    by (rule around_rows_ok [OF store_ok_rows [OF assms(1), of c] page _ newer_def carried_def])
      (auto simp: older_def split: list.split)
  ultimately have "rows_ok (if b then drop n merged else merged)" for b n
    using rows_ok_sublist(2) by metis
  moreover have "messagesByChannel (reduceSetAroundMessages s c rs before after spl) =
      jm_set (messagesByChannel s) c (if (spl \<and> length page > 0) \<and> length merged > MAX_MESSAGES_PER_CHANNEL
        then drop (length merged - MAX_MESSAGES_PER_CHANNEL) merged else merged)"
    unfolding reduceSetAroundMessages_def Let_def conv_def [symmetric] page_def [symmetric]
      att_def [symmetric] newer_def [symmetric] older_def [symmetric] carried_def [symmetric] merged_def [symmetric]
    by simp
  ultimately show ?thesis by (intro store_ok_write [OF assms(1)])
qed

text \<open>The writers that only touch flags, or drop rows.\<close>

lemma window_flags_store_ok:
  "store_ok (reduceSetChannelLoading s c) = store_ok s"
  "store_ok (reduceSetOlderLoadFailed s c f) = store_ok s"
  "store_ok (reduceSetChannelLoadError s c) = store_ok s"
  "store_ok (reduceInvalidateLoadedMessageWindows s) = store_ok s"
  "store_ok (reduceInvalidateChannelMessageWindow s c) = store_ok s"
  "store_ok (reduceReattachToPresent s c) = store_ok s"
  by (simp_all add: reduceSetChannelLoading_def reduceSetOlderLoadFailed_def reduceSetChannelLoadError_def
      reduceInvalidateLoadedMessageWindows_def reduceInvalidateChannelMessageWindow_def
      reduceReattachToPresent_def Let_def)

lemma reduceClearChannelContent_store_ok: "store_ok s \<Longrightarrow> store_ok (reduceClearChannelContent s c)"
  by (auto simp: reduceClearChannelContent_def Let_def intro: rows_ok_filter store_ok_rows)

text \<open>The merge returns whenever no unsent row makes the echo test throw.\<close>

definition echo_safe :: "message \<Rightarrow> bool" where
  "echo_safe m \<longleftrightarrow> is_sent m \<or> msg_clientMessageId m \<noteq> None \<or> 38 \<notin> set (msg_content m)"

lemma echo_safe_total: "echo_safe m \<Longrightarrow> \<exists>b. isUnreconciledEcho m p = Inr b"
  using echo_total [of m p] by (auto simp: echo_safe_def)

lemma find_echo_total: "echo_safe m \<Longrightarrow> \<exists>e. find_echo m consumed i page = Inr e"
proof (induction page arbitrary: i)
  case (Cons s ss)
  obtain b where "isUnreconciledEcho m s = Inr b" using echo_safe_total [OF Cons.prems] by blast
  with Cons show ?case by auto
qed simp

lemma carryRows_total: "\<forall>m \<in> set ms. echo_safe m \<Longrightarrow> \<exists>r. carryRows ids fl page consumed ms = Inr r"
proof (induction ms arbitrary: consumed)
  case (Cons m ms)
  then have ih: "\<exists>r. carryRows ids fl page consumed ms = Inr r" for consumed by simp
  obtain e where "find_echo m consumed 0 page = Inr e" using find_echo_total Cons.prems by fastforce
  with ih [of consumed] ih [of "js_add consumed (the e)"] show ?case by (auto split: option.split)
qed simp

lemma reduceSetMessages_total:
  assumes "\<forall>m \<in> set (rows s c). echo_safe m"
  obtains s' where "reduceSetMessages s c rs more' spl a = Inr s'"
proof -
  obtain r where "carryRows (js_of_list (map msg_id (page_rows rs)))
      (max (max_id (page_rows rs)) (watermark s c)) (page_rows rs) [] (rows s c) = Inr r"
    using carryRows_total [OF assms] by blast
  with that show thesis by (simp add: reduceSetMessages_def Let_def)
qed

subsection \<open>Properties of a page merge\<close>

text \<open>A newest-first page merged into a window whose sent rows are in id order leaves rows with
  distinct server ids whose sent rows are again in id order, at most 500 of them unless more rows
  than that are still unsent.\<close>

theorem setMessages_sorted:
  assumes "rows_ok (rows s c)" and "sorted_wrt (<) (sent_ids (rows s c))" and "newest_first rs"
    and "reduceSetMessages s c rs serverMore spl anchor = Inr s'"
  shows "rows_ok (rows s' c) \<and> sorted_wrt (<) (sent_ids (rows s' c)) \<and> length (sent_ids (rows s' c)) \<le> 500"
proof -
  from assms(4) obtain carried merged older where
    m: "older = spliceOlder s c spl serverMore (page_rows rs)"
      "carryRows (js_of_list (map msg_id (page_rows rs))) (max (max_id (page_rows rs)) (watermark s c))
         (page_rows rs) [] (rows s c) = Inr carried"
      "merged = older @ snapshotRows (rows s c) (page_rows rs) @ carried"
      "rows s' c = trimMerged older merged anchor"
    by (rule reduceSetMessages_cases)
  have "sorted_wrt (<) (sent_ids (rows s' c))"
    unfolding m(4) by (rule trimMerged_sorted) (use merged_sorted [OF assms(3,2) m(2)] m(1,3) in simp)
  moreover have "list_all row_ok (rows s' c)"
    using merged_row_ok [OF assms(1,3) m(2)] trimMerged_set m(1,3,4) by (fastforce simp: list_all_iff)
  moreover have "length (sent_ids (rows s' c)) \<le> 500"
  proof (cases "keepsHead older merged anchor")
    case True
    have "length (sent_ids (take 500 merged)) \<le> length (take 500 merged)"
      by (simp add: sent_ids_def del: length_take)
    with True m(4) show ?thesis
      by (simp add: trimMerged_def Let_def sent_ids_unsent MAX_MESSAGES_PER_CHANNEL_def)
  next
    case False
    then have "length (rows s' c) \<le> 500"
      by (auto simp: m(4) trimMerged_def Let_def MAX_MESSAGES_PER_CHANNEL_def)
    then show ?thesis
      by (simp add: sent_ids_def) (meson le_trans length_filter_le)
  qed
  ultimately show ?thesis by (simp add: rows_ok_sorted)
qed

theorem setMessages_sorted_witness:
  "let s = INITIAL_STATE\<lparr>messagesByChannel := [(1, [sample_row 1 5, sample_row 1 9])]\<rparr>;
       s' = projr (reduceSetMessages s 1 [sample_response 1 7, sample_response 1 6] True False None)
   in rows_ok (rows s' 1) \<and> sorted_wrt (<) (sent_ids (rows s' 1))"
proof -
  let ?s = "INITIAL_STATE\<lparr>messagesByChannel := [(1, [sample_row 1 5, sample_row 1 9])]\<rparr>"
  have r: "rows ?s 1 = [sample_row 1 5, sample_row 1 9]" by (simp add: rows_def jm_get_def)
  obtain s' where s': "reduceSetMessages ?s 1 [sample_response 1 7, sample_response 1 6] True False None = Inr s'"
    by (rule reduceSetMessages_total [of ?s 1]) (simp_all add: r echo_safe_def)
  have "rows_ok (rows s' 1) \<and> sorted_wrt (<) (sent_ids (rows s' 1)) \<and> length (sent_ids (rows s' 1)) \<le> 500"
    by (rule setMessages_sorted [OF _ _ _ s'])
      (simp_all add: r row_ok_def newest_first_def sample_response_def)
  with s' show ?thesis by (simp add: Let_def)
qed



text \<open>A refetch without splice shows what the server shows. Of the rows loaded when the fetch
  began, a sent one that the page misses is gone afterwards; a row that arrived during the fetch, with
  an id above both the loaded rows and the page, stays.\<close>

theorem setMessages_purges_stale:
  assumes "loadWatermark s = loadWatermark (reduceSetChannelLoading s0 c)"
    and "reduceSetMessages s c rs serverMore False anchor = Inr s'"
  shows "(\<forall>m \<in> set (rows s0 c). is_sent m \<longrightarrow> msg_id m \<notin> mr_id ` set rs \<longrightarrow> msg_id m \<notin> set (sent_ids (rows s' c))) \<and>
    (length (rows s c) \<le> 500 \<longrightarrow>
      (\<forall>m \<in> set (rows s c). is_sent m \<longrightarrow> (\<forall>x \<in> set (rows s0 c). msg_id x < msg_id m) \<longrightarrow> 0 < msg_id m \<longrightarrow>
         (\<forall>r \<in> set rs. mr_id r < msg_id m) \<longrightarrow> m \<in> set (rows s' c)))"
proof -
  let ?page = "page_rows rs"
  have w: "watermark s c = max_id (rows s0 c)"
    by (simp add: watermark_def assms(1) reduceSetChannelLoading_def)
  from assms(2) obtain carried merged older where
    m: "older = spliceOlder s c False serverMore ?page"
      "carryRows (js_of_list (map msg_id ?page)) (max (max_id ?page) (watermark s c)) ?page [] (rows s c) = Inr carried"
      "merged = older @ snapshotRows (rows s c) ?page @ carried" "rows s' c = trimMerged older merged anchor"
    by (rule reduceSetMessages_cases)
  have older: "older = []" by (simp add: m(1) spliceOlder_def)
  have ids: "set (sent_ids (rows s' c)) \<subseteq> msg_id ` set ?page \<union> set (sent_ids carried)"
  proof -
    have "set (sent_ids (rows s' c)) \<subseteq> set (sent_ids merged)"
      unfolding m(4) by (rule sent_ids_mono [OF trimMerged_set])
    moreover have "set (sent_ids (snapshotRows (rows s c) ?page)) \<subseteq> set (map msg_id ?page)"
      unfolding snapshotRows_ids [of "rows s c" ?page, symmetric] by (auto simp: sent_ids_def)
    ultimately show ?thesis unfolding m(3) older by auto
  qed
  have carr: "\<forall>x \<in> set (sent_ids carried). max_id (rows s0 c) < x"
    unfolding carryRows_sent_ids [OF m(2)] w by (auto simp: sent_ids_def)
  have page: "msg_id ` set ?page \<subseteq> mr_id ` set rs" using page_rows_sent [of rs] by fastforce
  have "msg_id x \<notin> set (sent_ids (rows s' c))" if "x \<in> set (rows s0 c)" "msg_id x \<notin> mr_id ` set rs" for x
  proof -
    have "msg_id x \<notin> msg_id ` set ?page" using that(2) page by blast
    moreover have "msg_id x \<notin> set (sent_ids carried)" using carr max_id_ge [OF that(1)] leD by blast
    ultimately show ?thesis using ids by blast
  qed
  moreover have "x \<in> set (rows s' c)"
    if "length (rows s c) \<le> 500" "x \<in> set (rows s c)" "is_sent x" "\<forall>y \<in> set (rows s0 c). msg_id y < msg_id x"
      "0 < msg_id x" "\<forall>r \<in> set rs. mr_id r < msg_id x" for x
  proof -
    have fl: "max_id ms < msg_id x" if "\<forall>y \<in> set ms. msg_id y < msg_id x" for ms
      using that \<open>0 < msg_id x\<close> by (rule max_id_less)
    have "\<forall>y \<in> set ?page. msg_id y < msg_id x" using page that(6) by fastforce
    with fl that(3,4) have "x \<in> set (filter is_sent carried)"
      unfolding carryRows_sent [OF m(2)] w using that(2) by fastforce
    then show ?thesis
      using trimMerged_tail [of carried x older "older @ snapshotRows (rows s c) ?page" anchor]
        carryRows_set [OF m(2)] that(1) m(3,4) older
      by (simp add: MAX_MESSAGES_PER_CHANNEL_def keepsHead_def Let_def)
  qed
  ultimately show ?thesis by blast
qed

theorem setMessages_purges_stale_witness:
  "let s = reduceSetChannelLoading (INITIAL_STATE\<lparr>messagesByChannel := [(1, [sample_row 1 5])]\<rparr>) 1
   in 5 \<notin> set (sent_ids (rows (projr (reduceSetMessages s 1 [] False False None)) 1))"
proof -
  let ?old = "INITIAL_STATE\<lparr>messagesByChannel := [(1, [sample_row 1 5])]\<rparr>"
  let ?new = "reduceSetChannelLoading ?old 1"
  have r: "rows ?old 1 = [sample_row 1 5]" by (simp add: rows_def jm_get_def)
  then have r': "rows ?new 1 = [sample_row 1 5]" unfolding reduceSetChannelLoading_def by (simp only: rows_simps)
  obtain s' where s': "reduceSetMessages ?new 1 [] False False None = Inr s'"
    by (rule reduceSetMessages_total [of ?new 1]) (simp_all add: r' echo_safe_def)
  from setMessages_purges_stale [OF refl s'] r have "5 \<notin> set (sent_ids (rows s' 1))" by simp
  with s' show ?thesis by (simp add: Let_def)
qed

text \<open>A page row retires at most one unsent row, so sends of identical text are matched one to
  one: a page merge removes no more unsent rows than the page has rows.\<close>

theorem setMessages_echo_one_to_one:
  assumes "rows_ok (rows s c)" and "length (rows s c) \<le> 500" and "newest_first rs"
    and "reduceSetMessages s c rs serverMore spl anchor = Inr s'"
  shows "length (filter (\<lambda>m. \<not> is_sent m) (rows s c)) \<le>
         length (filter (\<lambda>m. \<not> is_sent m) (rows s' c)) + length rs"
proof -
  let ?page = "page_rows rs" and ?U = "filter (\<lambda>m. \<not> is_sent m)"
  from assms(4) obtain carried merged older where
    m: "older = spliceOlder s c spl serverMore ?page"
      "carryRows (js_of_list (map msg_id ?page)) (max (max_id ?page) (watermark s c)) ?page [] (rows s c) = Inr carried"
      "merged = older @ snapshotRows (rows s c) ?page @ carried" "rows s' c = trimMerged older merged anchor"
    by (rule reduceSetMessages_cases)
  have "\<forall>x \<in> set older. is_sent x" by (simp add: m(1) spliceOlder_def Let_def)
  moreover have "\<forall>x \<in> set (snapshotRows (rows s c) ?page). is_sent x"
    using snapshotRows_sent page_rows_sent [of rs] by blast
  ultimately have "?U (rows s' c) = ?U carried"
    using trimMerged_unsent [of carried "older @ snapshotRows (rows s c) ?page" older anchor]
      carryRows_set [OF m(2)] assms(2) m(3,4) by (auto simp: MAX_MESSAGES_PER_CHANNEL_def)
  moreover have "?U (rows s c) = filter (\<lambda>m. \<not> is_sent m \<and> \<not> js_has (js_of_list (map msg_id ?page)) (msg_id m)) (rows s c)"
    using rows_okD [OF assms(1)] page_rows_sent [of rs] assms(3)
    by (intro filter_cong) (fastforce simp: row_ok_def newest_first_def list_all_iff)+
  moreover have "length ?page \<le> length rs" by (simp add: trimPage_def)
  ultimately show ?thesis using carryRows_one_to_one [OF m(2)] by simp
qed

theorem setMessages_echo_one_to_one_witness:
  "let p = (sample_row 1 0)\<lparr>msg_status := Pending, msg_correlationId := Some ''k''\<rparr>;
       q = (sample_row 1 0)\<lparr>msg_status := Pending, msg_correlationId := Some ''l''\<rparr>;
       s = INITIAL_STATE\<lparr>messagesByChannel := [(1, [p, q])]\<rparr>
   in 1 \<le> length (filter (\<lambda>m. \<not> is_sent m) (rows (projr (reduceSetMessages s 1 [sample_response 1 7] True False None)) 1))"
proof -
  let ?p = "(sample_row 1 0)\<lparr>msg_status := Pending, msg_correlationId := Some ''k''\<rparr>"
  let ?q = "(sample_row 1 0)\<lparr>msg_status := Pending, msg_correlationId := Some ''l''\<rparr>"
  let ?s = "INITIAL_STATE\<lparr>messagesByChannel := [(1, [?p, ?q])]\<rparr>"
  have r: "rows ?s 1 = [?p, ?q]" by (simp add: rows_def jm_get_def)
  obtain s' where s': "reduceSetMessages ?s 1 [sample_response 1 7] True False None = Inr s'"
    by (rule reduceSetMessages_total [of ?s 1]) (simp_all add: r echo_safe_def js_lit_def)
  have "length (filter (\<lambda>m. \<not> is_sent m) (rows ?s 1)) \<le>
      length (filter (\<lambda>m. \<not> is_sent m) (rows s' 1)) + length [sample_response 1 7]"
    by (rule setMessages_echo_one_to_one [OF _ _ _ s'])
      (simp_all add: r row_ok_def newest_first_def sample_response_def)
  with s' r show ?thesis by (simp add: Let_def)
qed

text \<open>A resync splice never trims the row the reader is looking at: when the page connects to the
  loaded rows, an anchor above the page is still in the window afterwards.\<close>

theorem setMessages_keeps_anchor:
  assumes "length (rows s c) \<le> 500" and "rs \<noteq> []"
    and "msg_id (hd (page_rows rs)) \<le> watermark s c"
    and "m \<in> set (rows s c)" and "is_sent m" and "msg_id m < msg_id (hd (page_rows rs))"
    and "reduceSetMessages s c rs True True (Some (msg_id m)) = Inr s'"
  shows "msg_id m \<in> msg_id ` set (rows s' c)"
proof -
  let ?page = "page_rows rs"
  from assms(7) obtain carried merged older where
    o: "older = spliceOlder s c True True ?page"
    and mg: "merged = older @ snapshotRows (rows s c) ?page @ carried"
      "rows s' c = trimMerged older merged (Some (msg_id m))"
    by (rule reduceSetMessages_cases)
  have ne: "?page \<noteq> []" using assms(2) by (auto simp: trimPage_def MAX_MESSAGES_PER_CHANNEL_def)
  then have "older = filter (\<lambda>x. is_sent x \<and> msg_id x < msg_id (hd ?page)) (rows s c)"
    using assms(3) o by (cases ?page) (auto simp: spliceOlder_def Let_def)
  then have mo: "m \<in> set older" and len: "length older \<le> 500"
    using assms(1,4-6) by (auto intro: le_trans [OF length_filter_le])
  have "find_index (\<lambda>x. msg_id x = msg_id m) merged \<noteq> None"
    using mo mg(1) by (auto simp: find_index_None)
  then obtain i where i: "find_index (\<lambda>x. msg_id x = msg_id m) merged = Some i" by blast
  obtain j where j: "j < length older" "older ! j = m" using mo by (auto simp: in_set_conv_nth)
  then have "merged ! j = m" using mg(1) by (simp add: nth_append)
  with find_index_SomeD [OF i] have "\<not> j < i" by auto
  then have "i < MAX_MESSAGES_PER_CHANNEL" using j(1) len by (simp add: MAX_MESSAGES_PER_CHANNEL_def)
  moreover have "older \<noteq> []" using mo by auto
  ultimately show ?thesis unfolding mg(2) by (rule trimMerged_anchor [OF i])
qed

theorem setMessages_keeps_anchor_witness:
  "let s = INITIAL_STATE\<lparr>messagesByChannel := [(1, [sample_row 1 5, sample_row 1 8])], loadWatermark := [(1, 8)]\<rparr>
   in 5 \<in> msg_id ` set (rows (projr (reduceSetMessages s 1 [sample_response 1 8] True True (Some 5))) 1)"
proof -
  let ?s = "INITIAL_STATE\<lparr>messagesByChannel := [(1, [sample_row 1 5, sample_row 1 8])], loadWatermark := [(1, 8)]\<rparr>"
  have r: "rows ?s 1 = [sample_row 1 5, sample_row 1 8]" by (simp add: rows_def jm_get_def)
  have e: "\<forall>m \<in> set (rows ?s 1). echo_safe m" unfolding r by (simp add: echo_safe_def)
  have w: "watermark ?s 1 = 8" by (simp add: watermark_def jm_get_def)
  have h: "msg_id (hd (page_rows [sample_response 1 8])) = 8"
    by (simp add: trimPage_def MAX_MESSAGES_PER_CHANNEL_def sample_response_def)
  obtain s' where s': "reduceSetMessages ?s 1 [sample_response 1 8] True True (Some (msg_id (sample_row 1 5))) = Inr s'"
    by (rule reduceSetMessages_total [OF e])
  have "msg_id (sample_row 1 5) \<in> msg_id ` set (rows s' 1)"
    by (rule setMessages_keeps_anchor [OF _ _ _ _ _ _ s']) (simp_all only: r w h, simp_all)
  with s' show ?thesis by (simp add: Let_def)
qed

text \<open>The page that follows a detached window extends it: its sent ids are the newest 500 of the
  old ones and the page's newer ones, still in id order; unsent rows stay; and the window is
  attached again exactly when the page reached the newest message.\<close>

theorem appendNewer_extends:
  assumes "js_has (detachedChannels s) c" and "sorted_wrt (<) (sent_ids (rows s c))" and "oldest_first rs"
  shows "let s' = reduceAppendNewerMessages s c rs serverMore
    in sent_ids (rows s' c) = last_n 500 (sent_ids (rows s c) @
         map mr_id (filter (\<lambda>r. mr_id r > max_id (filter is_sent (rows s c))) rs)) \<and>
       sorted_wrt (<) (sent_ids (rows s' c)) \<and>
       filter (\<lambda>m. \<not> is_sent m) (rows s' c) = filter (\<lambda>m. \<not> is_sent m) (rows s c) \<and>
       (js_has (detachedChannels s') c \<longleftrightarrow> serverMore)"
proof -
  let ?P = "\<lambda>r. mr_id r > max_id (filter is_sent (rows s c))"
  let ?all = "filter is_sent (rows s c) @ map messageResponseToMessage (filter ?P rs)"
  let ?s' = "reduceAppendNewerMessages s c rs serverMore"
  have rows': "rows ?s' c = last_n 500 ?all @ filter (\<lambda>m. \<not> is_sent m) (rows s c)"
    using assms(1) by (simp add: reduceAppendNewerMessages_def Let_def last_n_def MAX_MESSAGES_PER_CHANNEL_def)
  have sent: "\<forall>m \<in> set ?all. is_sent m" by auto
  have l: "sent_ids (last_n 500 ?all) = last_n 500 (sent_ids ?all)"
    unfolding sent_ids_last_n [OF sent] filter_is_sent_id [OF sent] ..
  have ids: "sent_ids ?all = sent_ids (rows s c) @ map mr_id (filter ?P rs)" by simp
  have "\<forall>x \<in> set (sent_ids (rows s c)). x \<le> max_id (filter is_sent (rows s c))"
    by (auto simp: sent_ids_def intro: max_id_ge)
  moreover have "\<forall>y \<in> set (map mr_id (filter ?P rs)). max_id (filter is_sent (rows s c)) < y" by simp
  ultimately have "\<forall>x \<in> set (sent_ids (rows s c)). \<forall>y \<in> set (map mr_id (filter ?P rs)). x < y"
    using order_le_less_trans by blast
  then have srt: "sorted_wrt (<) (sent_ids ?all)"
    unfolding ids sorted_wrt_append by (intro conjI assms(2) mono_page_sorted [OF assms(3)])
  have "sent_ids (rows ?s' c) = last_n 500 (sent_ids ?all)"
    unfolding rows' sent_ids_simps l sent_ids_unsent by simp
  moreover have "filter (\<lambda>m. \<not> is_sent m) (rows ?s' c) = filter (\<lambda>m. \<not> is_sent m) (rows s c)"
    unfolding rows' by (rule unsent_after_sent [OF sent])
  moreover have "js_has (detachedChannels ?s') c \<longleftrightarrow> serverMore"
    using assms(1) by (simp add: reduceAppendNewerMessages_def Let_def)
  ultimately show ?thesis using srt ids by (simp add: Let_def sorted_wrt_filter_drop)
qed

theorem appendNewer_extends_witness:
  "let s = INITIAL_STATE\<lparr>messagesByChannel := [(1, [sample_row 1 5])], detachedChannels := [1]\<rparr>
   in sent_ids (rows (reduceAppendNewerMessages s 1 [sample_response 1 5, sample_response 1 8] False) 1) = [5, 8]"
proof -
  let ?s = "INITIAL_STATE\<lparr>messagesByChannel := [(1, [sample_row 1 5])], detachedChannels := [1]\<rparr>"
  have r: "rows ?s 1 = [sample_row 1 5]" by (simp add: rows_def jm_get_def)
  have d: "js_has (detachedChannels ?s) 1" by (simp add: js_has_def)
  have srt: "sorted_wrt (<) (sent_ids (rows ?s 1))" unfolding r by simp
  have p: "oldest_first [sample_response 1 5, sample_response 1 8]"
    by (simp add: oldest_first_def sample_response_def)
  have n: "map mr_id (filter (\<lambda>r. mr_id r > max_id (filter is_sent (rows ?s 1)))
      [sample_response 1 5, sample_response 1 8]) = [8]"
    unfolding r by (simp add: max_id_def sample_response_def)
  have "sent_ids (rows (reduceAppendNewerMessages ?s 1 [sample_response 1 5, sample_response 1 8] False) 1) =
      last_n 500 (sent_ids (rows ?s 1) @ [8])"
    using appendNewer_extends [OF d srt p, of False] unfolding Let_def n by blast
  then show ?thesis unfolding r Let_def by (simp add: last_n_def)
qed

text \<open>The tail union repairs an attached window: its sent rows are in id order afterwards, they
  are the union of the loaded and the fetched ids while those fit into 500 rows, and the unsent rows
  stay as they were.\<close>

theorem mergeTail_union:
  assumes "\<not> js_has (detachedChannels s) c" and "sorted_wrt (<) (sent_ids (rows s c))" and "oldest_first rs"
  shows "let s' = reduceMergeTailMessages s c rs
    in sorted_wrt (<) (sent_ids (rows s' c)) \<and>
       (card (set (sent_ids (rows s c)) \<union> mr_id ` set rs) \<le> 500 \<longrightarrow>
          set (sent_ids (rows s' c)) = set (sent_ids (rows s c)) \<union> mr_id ` set rs) \<and>
       filter (\<lambda>m. \<not> is_sent m) (rows s' c) = filter (\<lambda>m. \<not> is_sent m) (rows s c)"
proof -
  let ?P = "\<lambda>r. \<not> js_has (js_of_list (map msg_id (filter is_sent (rows s c)))) (mr_id r)"
  let ?all = "filter is_sent (rows s c) @ map messageResponseToMessage (filter ?P rs)"
  let ?s' = "reduceMergeTailMessages s c rs"
  show ?thesis
  proof (cases "filter ?P rs = []")
    case True
    then have "mr_id ` set rs \<subseteq> set (sent_ids (rows s c))"
      by (auto simp: filter_empty_conv sent_ids_def)
    moreover have "?s' = s" using True by (simp add: reduceMergeTailMessages_def)
    ultimately show ?thesis using assms(2) by (auto simp: Let_def)
  next
    case False
    then have rows': "rows ?s' c = last_n 500 (sort_key msg_id ?all) @ filter (\<lambda>m. \<not> is_sent m) (rows s c)"
      using assms(1) by (simp add: reduceMergeTailMessages_def Let_def MAX_MESSAGES_PER_CHANNEL_def)
    have sent: "\<forall>m \<in> set (sort_key msg_id ?all). is_sent m" by auto
    have ids: "sent_ids (rows ?s' c) = last_n 500 (map msg_id (sort_key msg_id ?all))"
      unfolding rows' sent_ids_simps sent_ids_unsent append_Nil2 sent_ids_last_n [OF sent] ..
    have d: "distinct (map msg_id (sort_key msg_id ?all))"
      unfolding distinct_map_sort_key
      using assms(2) mono_page_sorted [OF assms(3), of ?P]
      by (auto simp: strict_sorted_iff sent_ids_def [symmetric] o_def)
    then have srt: "sorted_wrt (<) (map msg_id (sort_key msg_id ?all))" by (simp add: strict_sorted_iff)
    have set_all: "set (map msg_id (sort_key msg_id ?all)) = set (sent_ids (rows s c)) \<union> mr_id ` set rs"
    proof -
      have P: "?P r \<longleftrightarrow> mr_id r \<notin> set (sent_ids (rows s c))" for r by (simp add: sent_ids_def)
      have "set (map msg_id (sort_key msg_id ?all)) = set (sent_ids (rows s c)) \<union> mr_id ` set (filter ?P rs)"
        by (simp add: sent_ids_def image_Un image_image)
      also have "\<dots> = set (sent_ids (rows s c)) \<union> mr_id ` set rs" unfolding P by auto
      finally show ?thesis .
    qed
    have "sorted_wrt (<) (sent_ids (rows ?s' c))" unfolding ids by (rule sorted_wrt_filter_drop [OF srt])
    moreover have "set (sent_ids (rows ?s' c)) = set (sent_ids (rows s c)) \<union> mr_id ` set rs"
      if "card (set (sent_ids (rows s c)) \<union> mr_id ` set rs) \<le> 500"
    proof -
      have "length (map msg_id (sort_key msg_id ?all)) \<le> 500"
        using that distinct_card [OF d] set_all by simp
      then show ?thesis unfolding ids by (simp only: last_n_all set_all)
    qed
    moreover have "filter (\<lambda>m. \<not> is_sent m) (rows ?s' c) = filter (\<lambda>m. \<not> is_sent m) (rows s c)"
      unfolding rows' by (rule unsent_after_sent [OF sent])
    ultimately show ?thesis by (simp add: Let_def)
  qed
qed

theorem mergeTail_union_witness:
  "let s = INITIAL_STATE\<lparr>messagesByChannel := [(1, [sample_row 1 5, sample_row 1 9])]\<rparr>
   in sorted_wrt (<) (sent_ids (rows (reduceMergeTailMessages s 1 [sample_response 1 5, sample_response 1 8]) 1))"
proof -
  let ?s = "INITIAL_STATE\<lparr>messagesByChannel := [(1, [sample_row 1 5, sample_row 1 9])]\<rparr>"
  have r: "rows ?s 1 = [sample_row 1 5, sample_row 1 9]" by (simp add: rows_def jm_get_def)
  have d: "\<not> js_has (detachedChannels ?s) 1" by (simp add: INITIAL_STATE_def)
  have srt: "sorted_wrt (<) (sent_ids (rows ?s 1))" unfolding r by simp
  have p: "oldest_first [sample_response 1 5, sample_response 1 8]"
    by (simp add: oldest_first_def sample_response_def)
  from mergeTail_union [OF d srt p] show ?thesis by (simp add: Let_def)
qed

end
