(* ===== verification/Message_Edits.thy ===== *)
theory Message_Edits
  imports Message_Model
begin

text \<open>
  \<open>features/messaging/messageEdits.ts\<close> and \<open>lib/text/messageKind.ts\<close>: edits, soft deletes, purges
  and pins. A row may carry a snippet of the message it points at (a reply's parent or a pin row's
  target); an edit refreshes that snippet and a delete redacts it.

  The lemmas show that a purge is the sequence of its single deletes, that nothing of a deleted
  message stays visible in a snippet, and that a snippet is the first 100 code points of the text.
\<close>

subsection \<open>Kinds of server rows\<close>

definition isServerRowKind :: "string option \<Rightarrow> bool" where
  "isServerRowKind kind = (kind \<noteq> None \<and> kind \<noteq> Some [])"

definition isWelcomeRowKind :: "string option \<Rightarrow> bool" where
  "isWelcomeRowKind kind = (kind = Some ''member_join'')"

definition isPinRowKind :: "string option \<Rightarrow> bool" where
  "isPinRowKind kind = (kind = Some ''pin_add'')"

subsection \<open>Snippets\<close>

definition redactSnippet :: "int \<Rightarrow> referenced_message" where
  "redactSnippet i = \<lparr>rf_id = i, rf_user = None, rf_content = [], rf_deleted = True,
     rf_has_attachments = False, rf_imported_author = None\<rparr>"

definition pointedAt :: "message \<Rightarrow> int option" where
  "pointedAt m = (case msg_referencedMessage m of
     Some r \<Rightarrow> Some (rf_id r)
   | None \<Rightarrow> if isPinRowKind (msg_kind m) then msg_replyTo m else None)"

definition redactReplies :: "message list \<Rightarrow> (int \<Rightarrow> bool) \<Rightarrow> message list" where
  "redactReplies list hit = (
     let hits = (\<lambda>m. case pointedAt m of None \<Rightarrow> False | Some i \<Rightarrow> hit i)
     in if \<not> list_ex hits list then list
        else map (\<lambda>m. if hits m then m\<lparr>msg_referencedMessage := map_option redactSnippet (pointedAt m)\<rparr>
                      else m) list)"

text \<open>\<open>Array.from\<close> on a string: its code points, a surrogate pair being one.\<close>

definition is_high :: "16 word \<Rightarrow> bool" where
  "is_high u = (0xD800 \<le> u \<and> u \<le> 0xDBFF)"

definition is_low :: "16 word \<Rightarrow> bool" where
  "is_low u = (0xDC00 \<le> u \<and> u \<le> 0xDFFF)"

fun code_points :: "jstring \<Rightarrow> jstring list" where
  "code_points [] = []"
| "code_points [u] = [[u]]"
| "code_points (u # v # s) =
     (if is_high u \<and> is_low v then [u, v] # code_points s else [u] # code_points (v # s))"

definition SNIPPET_MAX_CODE_POINTS :: nat where
  "SNIPPET_MAX_CODE_POINTS = 100"

definition snippet_of :: "jstring \<Rightarrow> jstring" where
  "snippet_of content = concat (take SNIPPET_MAX_CODE_POINTS (code_points content))"

definition refreshReplies :: "message list \<Rightarrow> int \<Rightarrow> jstring \<Rightarrow> message list" where
  "refreshReplies list parentId content = (
     let hits = (\<lambda>m. case msg_referencedMessage m of None \<Rightarrow> False | Some r \<Rightarrow> rf_id r = parentId)
     in if \<not> list_ex hits list then list
        else let snippet = snippet_of content
             in map (\<lambda>m. if hits m then m\<lparr>msg_referencedMessage :=
                    map_option (\<lambda>r. r\<lparr>rf_content := snippet\<rparr>) (msg_referencedMessage m)\<rparr> else m) list)"

subsection \<open>Reducers\<close>

definition editRow :: "chat_edited_payload \<Rightarrow> message \<Rightarrow> message" where
  "editRow payload msg = (
     let edited = msg\<lparr>msg_content := ce_content payload, msg_editedAt := ce_edited_at payload,
           msg_mentions := ce_mentions payload, msg_mentionsEveryone := ce_mentions_everyone payload,
           msg_mentionRoles := ce_mention_roles payload\<rparr>;
         files = (case ce_attachments payload of None \<Rightarrow> edited
                  | Some atts \<Rightarrow> edited\<lparr>msg_attachments := atts\<rparr>)
     in case ce_call payload of None \<Rightarrow> files
        | Some call \<Rightarrow> files\<lparr>msg_kind := Some (nullish (ce_kind payload) ''call''), msg_call := Some call\<rparr>)"

definition reduceEditMessage :: "messages_state \<Rightarrow> chat_edited_payload \<Rightarrow> messages_state" where
  "reduceEditMessage prev payload = (case jm_get (messagesByChannel prev) (ce_channel_id payload) of
     None \<Rightarrow> prev
   | Some channelMessages \<Rightarrow> prev\<lparr>messagesByChannel :=
       jm_set (messagesByChannel prev) (ce_channel_id payload)
         (refreshReplies (map (\<lambda>msg. if msg_id msg = ce_message_id payload then editRow payload msg else msg)
            channelMessages) (ce_message_id payload) (ce_content payload))\<rparr>)"

definition reduceDeleteMessage :: "messages_state \<Rightarrow> chat_deleted_payload \<Rightarrow> messages_state" where
  "reduceDeleteMessage prev payload = (case jm_get (messagesByChannel prev) (cd_channel_id payload) of
     None \<Rightarrow> prev
   | Some channelMessages \<Rightarrow> prev\<lparr>messagesByChannel :=
       jm_set (messagesByChannel prev) (cd_channel_id payload)
         (redactReplies (map (\<lambda>msg. if msg_id msg = cd_message_id payload then msg\<lparr>msg_deleted := True\<rparr> else msg)
            channelMessages) (\<lambda>i. i = cd_message_id payload))\<rparr>)"

definition reduceBulkDeleteMessages :: "messages_state \<Rightarrow> chat_bulk_deleted_payload \<Rightarrow> messages_state" where
  "reduceBulkDeleteMessages prev payload = (case jm_get (messagesByChannel prev) (cb_channel_id payload) of
     None \<Rightarrow> prev
   | Some channelMessages \<Rightarrow>
       (let purged = js_of_list (cb_ids payload)
        in if \<not> list_ex (\<lambda>msg. (js_has purged (msg_id msg) \<and> \<not> msg_deleted msg) \<or>
                               js_has purged (nullish (pointedAt msg) 0)) channelMessages
           then prev
           else prev\<lparr>messagesByChannel :=
             jm_set (messagesByChannel prev) (cb_channel_id payload)
               (redactReplies (map (\<lambda>msg. if js_has purged (msg_id msg) then msg\<lparr>msg_deleted := True\<rparr> else msg)
                  channelMessages) (js_has purged))\<rparr>))"

definition reduceSetMessagePinned :: "messages_state \<Rightarrow> int \<Rightarrow> int \<Rightarrow> bool \<Rightarrow> messages_state" where
  "reduceSetMessagePinned prev channelId messageId pinned = (
     let pins = jm_set (pinRevision prev) channelId (nullish (jm_get (pinRevision prev) channelId) 0 + 1);
         messagePins = jm_set (messagePinRevision prev) messageId
                         (nullish (jm_get (messagePinRevision prev) messageId) 0 + 1)
     in case jm_get (messagesByChannel prev) channelId of
          None \<Rightarrow> prev\<lparr>pinRevision := pins, messagePinRevision := messagePins\<rparr>
        | Some channelMessages \<Rightarrow> prev\<lparr>
            messagesByChannel := jm_set (messagesByChannel prev) channelId
              (map (\<lambda>msg. if msg_id msg = messageId then msg\<lparr>msg_pinned := pinned\<rparr> else msg) channelMessages),
            pinRevision := pins, messagePinRevision := messagePins\<rparr>)"

subsection \<open>Acting row by row\<close>

definition redact :: "(int \<Rightarrow> bool) \<Rightarrow> message \<Rightarrow> message" where
  "redact hit m = (case pointedAt m of
     Some i \<Rightarrow> if hit i then m\<lparr>msg_referencedMessage := Some (redactSnippet i)\<rparr> else m | None \<Rightarrow> m)"

definition remove_row :: "(int \<Rightarrow> bool) \<Rightarrow> message \<Rightarrow> message" where
  "remove_row hit m = redact hit (if hit (msg_id m) then m\<lparr>msg_deleted := True\<rparr> else m)"

lemma redactReplies_map: "redactReplies ms hit = map (redact hit) ms"
proof -
  have "map (redact hit) ms = ms" if "\<not> list_ex (\<lambda>m. case pointedAt m of None \<Rightarrow> False | Some i \<Rightarrow> hit i) ms"
    using that by (intro map_idI) (auto simp: list_ex_iff redact_def split: option.split)
  then show ?thesis
    by (auto simp: redactReplies_def Let_def redact_def split: option.split)
qed

lemma remove_rows:
  "redactReplies (map (\<lambda>m. if hit (msg_id m) then m\<lparr>msg_deleted := True\<rparr> else m) ms) hit = map (remove_row hit) ms"
  by (simp add: redactReplies_map remove_row_def)

lemma pointedAt_simps [simp]:
  "pointedAt (m\<lparr>msg_deleted := b\<rparr>) = pointedAt m"
  "pointedAt (m\<lparr>msg_referencedMessage := Some r\<rparr>) = Some (rf_id r)"
  by (simp_all add: pointedAt_def split: option.split)

lemma rf_redact [simp]: "rf_id (redactSnippet i) = i" "rf_content (redactSnippet i) = []"
  "rf_user (redactSnippet i) = None"
  by (simp_all add: redactSnippet_def)

lemma remove_row_ids [simp]:
  "msg_id (remove_row hit m) = msg_id m" "pointedAt (remove_row hit m) = pointedAt m"
  "msg_status (remove_row hit m) = msg_status m"
  by (auto simp: remove_row_def redact_def split: option.split)

lemma remove_row_compose: "remove_row b (remove_row a m) = remove_row (\<lambda>i. a i \<or> b i) m"
  by (auto simp: remove_row_def redact_def split: option.split)

lemma reduceDeleteMessage_eq:
  "reduceDeleteMessage s \<lparr>cd_message_id = i, cd_channel_id = c\<rparr> = (case jm_get (messagesByChannel s) c of
     None \<Rightarrow> s | Some ms \<Rightarrow> s\<lparr>messagesByChannel := jm_set (messagesByChannel s) c (map (remove_row (\<lambda>j. j = i)) ms)\<rparr>)"
  by (simp add: reduceDeleteMessage_def remove_rows [of "\<lambda>j. j = i"] split: option.split)

lemma reduceBulkDeleteMessages_eq:
  "reduceBulkDeleteMessages s \<lparr>cb_channel_id = c, cb_ids = ids\<rparr> = (case jm_get (messagesByChannel s) c of
     None \<Rightarrow> s | Some ms \<Rightarrow> s\<lparr>messagesByChannel := jm_set (messagesByChannel s) c (map (remove_row (\<lambda>j. j \<in> set ids)) ms)\<rparr>)"
proof (cases "jm_get (messagesByChannel s) c")
  case (Some ms)
  let ?hit = "\<lambda>j. j \<in> set ids"
  show ?thesis
  proof (cases "list_ex (\<lambda>m. (msg_id m \<in> set ids \<and> \<not> msg_deleted m) \<or> nullish (pointedAt m) 0 \<in> set ids) ms")
    case True
    moreover have hit: "js_has (js_of_list ids) = ?hit" by (rule ext) simp
    ultimately show ?thesis
      using Some remove_rows [of ?hit ms] by (simp add: reduceBulkDeleteMessages_def Let_def hit)
  next
    case False
    have "map (remove_row ?hit) ms = ms"
      using False by (intro map_idI) (auto simp: list_ex_iff remove_row_def redact_def split: option.split)
    with Some False show ?thesis
      by (simp add: reduceBulkDeleteMessages_def Let_def jm_set_same)
  qed
qed (simp add: reduceBulkDeleteMessages_def)

lemma remove_rows_fold:
  "fold (\<lambda>i. map (remove_row (\<lambda>j. j = i))) ids ms = map (remove_row (\<lambda>j. j \<in> set ids)) ms"
proof (induction ids arbitrary: ms)
  case Nil
  show ?case by (simp add: remove_row_def redact_def map_idI split: option.split)
next
  case (Cons i ids)
  then show ?case by (simp add: remove_row_compose)
qed

lemma delete_all_rows:
  assumes "jm_get (messagesByChannel s) c = Some ms"
  shows "fold (\<lambda>i s. reduceDeleteMessage s \<lparr>cd_message_id = i, cd_channel_id = c\<rparr>) ids s =
    s\<lparr>messagesByChannel := jm_set (messagesByChannel s) c (fold (\<lambda>i. map (remove_row (\<lambda>j. j = i))) ids ms)\<rparr>"
  using assms
proof (induction ids arbitrary: s ms)
  case Nil
  then show ?case by (simp add: jm_set_same)
next
  case (Cons i ids)
  let ?s = "s\<lparr>messagesByChannel := jm_set (messagesByChannel s) c (map (remove_row (\<lambda>j. j = i)) ms)\<rparr>"
  have "reduceDeleteMessage s \<lparr>cd_message_id = i, cd_channel_id = c\<rparr> = ?s"
    by (simp add: reduceDeleteMessage_eq Cons.prems)
  with Cons.IH [of ?s "map (remove_row (\<lambda>j. j = i)) ms"] show ?case by simp
qed

lemma delete_all_missing:
  "jm_get (messagesByChannel s) c = None \<Longrightarrow>
     fold (\<lambda>i s. reduceDeleteMessage s \<lparr>cd_message_id = i, cd_channel_id = c\<rparr>) ids s = s"
  by (induction ids) (simp_all add: reduceDeleteMessage_eq)

definition refresh :: "int \<Rightarrow> jstring \<Rightarrow> message \<Rightarrow> message" where
  "refresh i t m = (case msg_referencedMessage m of
     Some r \<Rightarrow> if rf_id r = i then m\<lparr>msg_referencedMessage := Some (r\<lparr>rf_content := snippet_of t\<rparr>)\<rparr> else m
   | None \<Rightarrow> m)"

lemma refresh_simps [simp]: "msg_id (refresh i t m) = msg_id m" "msg_status (refresh i t m) = msg_status m"
  by (simp_all add: refresh_def split: option.split)

lemma refreshReplies_map: "refreshReplies ms i t = map (refresh i t) ms"
proof -
  let ?hits = "\<lambda>m. case msg_referencedMessage m of None \<Rightarrow> False | Some r \<Rightarrow> rf_id r = i"
  have "map (refresh i t) ms = ms" if "\<not> list_ex ?hits ms"
    using that by (intro map_idI) (auto simp: list_ex_iff refresh_def split: option.split)
  then show ?thesis
    by (auto simp: refreshReplies_def Let_def refresh_def split: option.split)
qed

lemma store_ok_map_rows:
  assumes "store_ok s" and "\<And>m. msg_id (f m) = msg_id m \<and> (is_sent (f m) \<longleftrightarrow> is_sent m)"
    and "jm_get (messagesByChannel s) c = Some ms"
  shows "store_ok (s\<lparr>messagesByChannel := jm_set (messagesByChannel s) c (map f ms)\<rparr>)"
  using assms(1,3) by (intro store_ok_set) (auto simp: rows_ok_map [of ms f] assms(2) dest: store_ok_SomeD)

lemma edits_store_ok:
  assumes "store_ok s"
  shows "store_ok (reduceDeleteMessage s d)" and "store_ok (reduceBulkDeleteMessages s b)"
    and "store_ok (reduceSetMessagePinned s c i pin)" and "store_ok (reduceEditMessage s e)"
proof -
  show "store_ok (reduceDeleteMessage s d)"
    using assms by (cases d) (auto simp: reduceDeleteMessage_eq split: option.split intro!: store_ok_map_rows)
  show "store_ok (reduceBulkDeleteMessages s b)"
    using assms by (cases b) (auto simp: reduceBulkDeleteMessages_eq split: option.split intro!: store_ok_map_rows)
  show "store_ok (reduceSetMessagePinned s c i pin)"
    using assms by (auto simp: reduceSetMessagePinned_def Let_def split: option.split if_splits intro!: store_ok_map_rows)
  have "msg_id (editRow e m) = msg_id m \<and> msg_status (editRow e m) = msg_status m" for m
    by (simp add: editRow_def Let_def split: option.split)
  then show "store_ok (reduceEditMessage s e)"
    using assms
    by (auto simp: reduceEditMessage_def refreshReplies_map split: option.split if_splits
        intro!: store_ok_map_rows)
qed

subsection \<open>Properties\<close>

text \<open>A purge leaves the store exactly as deleting its messages one after the other would,
  whichever rows and reply snippets they touch.\<close>

theorem bulkDelete_is_fold:
  "reduceBulkDeleteMessages s \<lparr>cb_channel_id = c, cb_ids = ids\<rparr> =
   fold (\<lambda>i s. reduceDeleteMessage s \<lparr>cd_message_id = i, cd_channel_id = c\<rparr>) ids s"
  by (cases "jm_get (messagesByChannel s) c")
    (simp_all add: reduceBulkDeleteMessages_eq delete_all_missing delete_all_rows remove_rows_fold)

text \<open>After a delete the message shows as deleted wherever it is loaded in its channel, and no
  row that points at it still carries its author or its text.\<close>

theorem delete_redacts:
  assumes "m \<in> set (rows (reduceDeleteMessage s \<lparr>cd_message_id = i, cd_channel_id = c\<rparr>) c)"
  shows "(msg_id m = i \<longrightarrow> msg_deleted m) \<and>
         (pointedAt m = Some i \<longrightarrow> (\<exists>r. msg_referencedMessage m = Some r \<and> rf_user r = None \<and> rf_content r = []))"
proof -
  obtain x where "m = remove_row (\<lambda>j. j = i) x"
    using assms by (auto simp: reduceDeleteMessage_eq rows_def split: option.splits)
  then show ?thesis by (auto simp: remove_row_def redact_def split: option.splits if_splits)
qed

theorem delete_redacts_witness:
  "let reply = (sample_row 1 6)\<lparr>msg_replyTo := Some 5,
         msg_referencedMessage := Some \<lparr>rf_id = 5, rf_user = Some sample_user, rf_content = js_lit ''hi'',
           rf_deleted = False, rf_has_attachments = False, rf_imported_author = None\<rparr>\<rparr>;
       s = INITIAL_STATE\<lparr>messagesByChannel := [(1, [sample_row 1 5, reply])]\<rparr>;
       s' = reduceDeleteMessage s \<lparr>cd_message_id = 5, cd_channel_id = 1\<rparr>
   in \<exists>r. msg_referencedMessage (rows s' 1 ! 1) = Some r \<and> rf_user r = None \<and> rf_content r = []"
proof -
  let ?ref = "\<lparr>rf_id = 5, rf_user = Some sample_user, rf_content = js_lit ''hi'',
           rf_deleted = False, rf_has_attachments = False, rf_imported_author = None\<rparr>"
  let ?reply = "(sample_row 1 6)\<lparr>msg_replyTo := Some 5, msg_referencedMessage := Some ?ref\<rparr>"
  let ?s = "INITIAL_STATE\<lparr>messagesByChannel := [(1, [sample_row 1 5, ?reply])]\<rparr>"
  let ?t = "reduceDeleteMessage ?s \<lparr>cd_message_id = 5, cd_channel_id = 1\<rparr>"
  have r: "rows ?t 1 = map (remove_row (\<lambda>j. j = 5)) [sample_row 1 5, ?reply]"
    by (simp add: reduceDeleteMessage_eq jm_get_def)
  have "rows ?t 1 ! 1 \<in> set (rows ?t 1)" unfolding r by simp
  from delete_redacts [OF this] show ?thesis
    unfolding Let_def r by simp
qed

lemma code_points_concat: "concat (code_points t) = t"
  by (induction t rule: code_points.induct) auto

lemma code_points_head: "\<exists>w. concat (take (Suc n) (code_points (v # s))) = v # w"
  by (cases s) auto

lemma code_points_take: "code_points (concat (take n (code_points t))) = take n (code_points t)"
proof (induction t arbitrary: n rule: code_points.induct)
  case (3 u v s)
  show ?case
  proof (cases n)
    case (Suc k)
    show ?thesis
    proof (cases "is_high u \<and> is_low v")
      case True
      with Suc 3(1) show ?thesis by simp
    next
      case False
      obtain w where "k = 0 \<or> concat (take k (code_points (v # s))) = v # w"
        using code_points_head [of "k - 1" v s] by (cases k) auto
      with Suc False 3(2) [OF False, of k] show ?thesis by auto
    qed
  qed simp
qed (auto simp: take_Cons')

text \<open>The snippet of an edited message is a prefix of its text and cuts no surrogate pair: read
  again, it has the first 100 code points of the text.\<close>

theorem snippet_code_points:
  "code_points (snippet_of t) = take 100 (code_points t) \<and> (\<exists>rest. t = snippet_of t @ rest)"
proof -
  have "t = concat (take 100 (code_points t)) @ concat (drop 100 (code_points t))"
    by (metis append_take_drop_id code_points_concat concat_append)
  then show ?thesis
    unfolding snippet_of_def SNIPPET_MAX_CODE_POINTS_def code_points_take by blast
qed

end
