(* ===== verification/Messages_Store.thy ===== *)
theory Messages_Store
  imports Live_Messages History_Windows Message_Edits Reaction_State
begin

text \<open>
  \<open>stores/messages.store.ts\<close>: the store's mutators, one action each, and its selectors. A mutator
  hands its reducer to \<open>setState\<close>; here an action is applied to the state, and the result is an
  error value where the reducer throws. \<open>adoptStarterThreads\<close>, which some mutators call first,
  writes the threads store only and is modelled there.

  The store's runs are steps of actions that respect what the server promises of its frames. The
  lemmas show that every reachable state is well-formed and that a mutator returns whenever the
  unsent rows carry client ids.
\<close>

subsection \<open>Mutators\<close>

record optimistic_params =
  op_correlationId :: string
  op_clientMessageId :: "string option"
  op_channelId :: int
  op_user :: message_user
  op_content :: jstring
  op_replyTo :: "int option"
  op_attachments :: "attachment list option"
  op_sticker :: "sticker_info option"
  op_timestamp :: string
  op_uploading :: bool

definition optimisticRow :: "optimistic_params \<Rightarrow> message" where
  "optimisticRow params = \<lparr>
     msg_id = 0, msg_channelId = op_channelId params, msg_user = op_user params,
     msg_content = op_content params, msg_replyTo = op_replyTo params, msg_referencedMessage = None,
     msg_attachments = nullish (op_attachments params) [], msg_reactions = [], msg_pinned = False,
     msg_editedAt = None, msg_deleted = False, msg_timestamp = op_timestamp params,
     msg_status = (if op_uploading params then Uploading else Pending),
     msg_correlationId = Some (op_correlationId params),
     msg_clientMessageId = op_clientMessageId params, msg_errorCode = None, msg_mentions = None,
     msg_mentionsEveryone = None, msg_mentionRoles = None, msg_kind = None, msg_call = None,
     msg_groupEvent = None, msg_forward = None, msg_poll = None, msg_sticker = op_sticker params,
     msg_thread = None, msg_importedAuthor = None\<rparr>"

definition stale_sticker :: "int jset \<Rightarrow> message \<Rightarrow> bool" where
  "stale_sticker liveIds m = (case msg_sticker m of
     None \<Rightarrow> False | Some st \<Rightarrow> (case st_id st of None \<Rightarrow> False | Some i \<Rightarrow> \<not> js_has liveIds i))"

definition markStickersDeleted :: "messages_state \<Rightarrow> int jset \<Rightarrow> messages_state" where
  "markStickersDeleted prev liveIds = prev\<lparr>messagesByChannel :=
     map (\<lambda>(channelId, list). (channelId,
       if \<not> list_ex (stale_sticker liveIds) list then list
       else map (\<lambda>m. if stale_sticker liveIds m
                     then m\<lparr>msg_sticker := map_option (\<lambda>st. \<lparr>st_id = None, st_name = st_name st, st_url = None\<rparr>)
                             (msg_sticker m)\<rparr> else m) list)) (messagesByChannel prev)\<rparr>"

definition addMessage :: "messages_state \<Rightarrow> chat_message_payload \<Rightarrow> messages_state result" where
  "addMessage s payload = reduceAddMessage s (chatPayloadToMessage payload)"

definition addOptimisticMessage :: "messages_state \<Rightarrow> optimistic_params \<Rightarrow> messages_state" where
  "addOptimisticMessage s params =
     reduceAddOptimisticMessage s (op_channelId params) (op_correlationId params) (optimisticRow params)"

definition setMessages ::
  "messages_state \<Rightarrow> int \<Rightarrow> message_response list \<Rightarrow> bool \<Rightarrow> bool \<Rightarrow> int option \<Rightarrow> messages_state result" where
  "setMessages s channelId messages serverMore spl anchorId =
     res_bind (reduceSetMessages s channelId messages serverMore spl anchorId)
       (\<lambda>t. Inr (reduceSetOlderLoadFailed t channelId False))"

definition setAroundMessages ::
  "messages_state \<Rightarrow> int \<Rightarrow> message_response list \<Rightarrow> bool \<Rightarrow> bool \<Rightarrow> bool \<Rightarrow> messages_state" where
  "setAroundMessages s channelId messages hasMoreBefore hasMoreAfter spl =
     reduceSetOlderLoadFailed
       (reduceSetAroundMessages s channelId messages hasMoreBefore hasMoreAfter spl) channelId False"

definition clearChannelContent :: "messages_state \<Rightarrow> int \<Rightarrow> messages_state" where
  "clearChannelContent s channelId =
     reduceSetOlderLoadFailed (reduceClearChannelContent s channelId) channelId False"

definition prependMessages :: "messages_state \<Rightarrow> int \<Rightarrow> message_response list \<Rightarrow> bool \<Rightarrow> messages_state" where
  "prependMessages s channelId messages serverMore =
     reduceSetOlderLoadFailed (reducePrependMessages s channelId messages serverMore) channelId False"

definition bulkDeleteMessages :: "messages_state \<Rightarrow> chat_bulk_deleted_payload \<Rightarrow> messages_state" where
  "bulkDeleteMessages s payload =
     (if length (cb_ids payload) = 0 then s else reduceBulkDeleteMessages s payload)"

text \<open>\<open>rollbackReaction\<close> also answers whether the id named a pending toggle.\<close>

definition rollbackReaction :: "messages_state \<Rightarrow> string \<Rightarrow> messages_state \<times> bool" where
  "rollbackReaction s correlationId = reduceRollbackReaction s correlationId"

definition channelIdForSend :: "messages_state \<Rightarrow> string \<Rightarrow> string option \<Rightarrow> int option" where
  "channelIdForSend s correlationId clientMessageId = findSendChannel s correlationId clientMessageId"

lemmas facade_defs = addMessage_def addOptimisticMessage_def setMessages_def setAroundMessages_def
  clearChannelContent_def prependMessages_def bulkDeleteMessages_def rollbackReaction_def

datatype messages_action =
    AddMessage chat_message_payload
  | AddOptimisticMessage optimistic_params
  | MarkSendFailed string "string option"
  | RemoveOptimistic string
  | SetChannelLoading int
  | SetChannelLoadError int
  | SetMessages int "message_response list" bool bool "int option"
  | SetAroundMessages int "message_response list" bool bool bool
  | InvalidateLoadedMessageWindows
  | InvalidateChannelMessageWindow int
  | ClearChannelContent int
  | ReattachToPresent int
  | PrependMessages int "message_response list" bool
  | SetOlderLoadFailed int bool
  | AppendNewerMessages int "message_response list" bool
  | MergeTailMessages int "message_response list"
  | EditMessage chat_edited_payload
  | DeleteMessage chat_deleted_payload
  | MarkStickersDeleted "int jset"
  | BulkDeleteMessages chat_bulk_deleted_payload
  | SetMessagePinned int int bool
  | ConfirmSend string int string "string option"
  | ApplyServerMessage message_response
  | AddOptimisticReaction string pending_reaction
  | RollbackReaction string
  | UpdateReaction reaction_update_payload int
  | UpdatePoll poll_update_payload int
  | ApplyPollVoteOk poll_vote_ok_payload
  | ResetMessagesStore

fun messages_apply :: "messages_state \<Rightarrow> messages_action \<Rightarrow> messages_state result" where
  "messages_apply s (AddMessage payload) = addMessage s payload"
| "messages_apply s (AddOptimisticMessage params) = Inr (addOptimisticMessage s params)"
| "messages_apply s (MarkSendFailed k code) = Inr (reduceMarkSendFailed s k code)"
| "messages_apply s (RemoveOptimistic k) = Inr (reduceRemoveOptimistic s k)"
| "messages_apply s (SetChannelLoading c) = Inr (reduceSetChannelLoading s c)"
| "messages_apply s (SetChannelLoadError c) = Inr (reduceSetChannelLoadError s c)"
| "messages_apply s (SetMessages c rs serverMore spl anchor) = setMessages s c rs serverMore spl anchor"
| "messages_apply s (SetAroundMessages c rs before after spl) = Inr (setAroundMessages s c rs before after spl)"
| "messages_apply s InvalidateLoadedMessageWindows = Inr (reduceInvalidateLoadedMessageWindows s)"
| "messages_apply s (InvalidateChannelMessageWindow c) = Inr (reduceInvalidateChannelMessageWindow s c)"
| "messages_apply s (ClearChannelContent c) = Inr (clearChannelContent s c)"
| "messages_apply s (ReattachToPresent c) = Inr (reduceReattachToPresent s c)"
| "messages_apply s (PrependMessages c rs serverMore) = Inr (prependMessages s c rs serverMore)"
| "messages_apply s (SetOlderLoadFailed c failed) = Inr (reduceSetOlderLoadFailed s c failed)"
| "messages_apply s (AppendNewerMessages c rs serverMore) = Inr (reduceAppendNewerMessages s c rs serverMore)"
| "messages_apply s (MergeTailMessages c rs) = Inr (reduceMergeTailMessages s c rs)"
| "messages_apply s (EditMessage payload) = Inr (reduceEditMessage s payload)"
| "messages_apply s (DeleteMessage payload) = Inr (reduceDeleteMessage s payload)"
| "messages_apply s (MarkStickersDeleted liveIds) = Inr (markStickersDeleted s liveIds)"
| "messages_apply s (BulkDeleteMessages payload) = Inr (bulkDeleteMessages s payload)"
| "messages_apply s (SetMessagePinned c i pinned) = Inr (reduceSetMessagePinned s c i pinned)"
| "messages_apply s (ConfirmSend k i t x) = Inr (reduceConfirmSend s k i t x)"
| "messages_apply s (ApplyServerMessage response) = Inr (reduceApplyServerMessage s response)"
| "messages_apply s (AddOptimisticReaction k toggle) = Inr (reduceAddOptimisticReaction s k toggle)"
| "messages_apply s (RollbackReaction k) = Inr (fst (rollbackReaction s k))"
| "messages_apply s (UpdateReaction payload me) = Inr (reduceUpdateReaction s payload me)"
| "messages_apply s (UpdatePoll payload me) = Inr (reducePollUpdate s payload me)"
| "messages_apply s (ApplyPollVoteOk payload) = Inr (reducePollVoteOk s payload)"
| "messages_apply s ResetMessagesStore = Inr INITIAL_STATE"

subsection \<open>Selectors\<close>

definition getChannelMessages :: "messages_state \<Rightarrow> int \<Rightarrow> message list" where
  "getChannelMessages s channelId = nullish (jm_get (messagesByChannel s) channelId) []"

definition isChannelLoaded :: "messages_state \<Rightarrow> int \<Rightarrow> bool" where
  "isChannelLoaded s channelId = js_has (loadedChannels s) channelId"

definition hasMoreMessages :: "messages_state \<Rightarrow> int \<Rightarrow> bool" where
  "hasMoreMessages s channelId = nullish (jm_get (hasMore s) channelId) False"

definition getHistoryLoadState :: "messages_state \<Rightarrow> int \<Rightarrow> load_state option" where
  "getHistoryLoadState s channelId = jm_get (historyLoadState s) channelId"

definition isWindowDetached :: "messages_state \<Rightarrow> int \<Rightarrow> bool" where
  "isWindowDetached s channelId = js_has (detachedChannels s) channelId"

definition hasOlderLoadFailed :: "messages_state \<Rightarrow> int \<Rightarrow> bool" where
  "hasOlderLoadFailed s channelId = js_has (olderLoadFailed s) channelId"

definition hasMessageLoaded :: "messages_state \<Rightarrow> int \<Rightarrow> int \<Rightarrow> bool" where
  "hasMessageLoaded s channelId messageId = (case jm_get (messagesByChannel s) channelId of
     None \<Rightarrow> False | Some ms \<Rightarrow> list_ex (\<lambda>m. msg_id m = messageId) ms)"

subsection \<open>Runs of the store\<close>

text \<open>What the server promises: a message has a positive id, pages are in order, an older page holds no
  loaded row, and an error answers a send that was not confirmed.\<close>

fun action_ok :: "messages_state \<Rightarrow> messages_action \<Rightarrow> bool" where
  "action_ok s (AddMessage payload) = (0 < cm_id payload)"
| "action_ok s (MarkSendFailed k code) =
     list_all (list_all (\<lambda>m. has_correlation k m \<longrightarrow> \<not> is_sent m)) (jm_values (messagesByChannel s))"
| "action_ok s (SetMessages c rs serverMore spl anchor) = newest_first rs"
| "action_ok s (SetAroundMessages c rs before after spl) = oldest_first rs"
| "action_ok s (PrependMessages c rs serverMore) =
     (newest_first rs \<and> list_all (\<lambda>r. mr_id r \<notin> set (real_ids (rows s c))) rs)"
| "action_ok s (AppendNewerMessages c rs serverMore) = oldest_first rs"
| "action_ok s (MergeTailMessages c rs) = oldest_first rs"
| "action_ok s (ConfirmSend k i t x) = (0 < i)"
| "action_ok s _ = True"

inductive messages_step :: "messages_state \<Rightarrow> messages_action \<Rightarrow> messages_state \<Rightarrow> bool" where
  messages_step_intro: "action_ok s a \<Longrightarrow> messages_apply s a = Inr s' \<Longrightarrow> messages_step s a s'"

inductive_cases messages_stepE: "messages_step s a s'"

lemma optimisticRow_simps [simp]:
  "msg_id (optimisticRow p) = 0" "\<not> is_sent (optimisticRow p)"
  by (simp_all add: optimisticRow_def)

lemma markStickersDeleted_store_ok:
  assumes "store_ok s"
  shows "store_ok (markStickersDeleted s liveIds)"
proof -
  have "rows_ok (map (\<lambda>m. if stale_sticker liveIds m
      then m\<lparr>msg_sticker := map_option (\<lambda>st. \<lparr>st_id = None, st_name = st_name st, st_url = None\<rparr>)
              (msg_sticker m)\<rparr> else m) ms) = rows_ok ms" for ms
    by (rule rows_ok_map) simp
  then show ?thesis
    using assms unfolding store_ok_def markStickersDeleted_def jm_wf_def jm_values_def
    by (auto simp: list_all_iff o_def case_prod_beta)
qed

lemma messages_apply_ok:
  assumes "store_ok s" and "action_ok s a" and "messages_apply s a = Inr s'"
  shows "store_ok s'"
proof (cases a)
  case (AddMessage p)
  with assms reduceAddMessage_store_ok [OF assms(1), of "chatPayloadToMessage p" s'] show ?thesis
    by (simp add: addMessage_def)
next
  case (MarkSendFailed k code)
  have "\<not> is_sent m" if "m \<in> set (rows s c)" "has_correlation k m" for c m
    using assms(2) MarkSendFailed that rows_no_match [of "\<lambda>m. has_correlation k m \<longrightarrow> \<not> is_sent m" s c] by simp
  with assms(3) MarkSendFailed reduceMarkSendFailed_store_ok [OF assms(1), of k code] show ?thesis by auto
next
  case (SetMessages c rs m spl anchor)
  with assms show ?thesis
    by (auto elim!: res_bind_InrE simp: setMessages_def window_flags_store_ok intro: reduceSetMessages_store_ok [OF assms(1)])
next
  case (PrependMessages c rs m)
  with assms show ?thesis
    by (auto simp: prependMessages_def window_flags_store_ok list_all_iff intro!: reducePrependMessages_store_ok)
qed (use assms in \<open>auto simp: facade_defs window_flags_store_ok edits_store_ok reactions_store_ok polls_store_ok
      reduceRemoveOptimistic_store_ok reduceClearChannelContent_store_ok reduceSetAroundMessages_store_ok
      reduceAppendNewerMessages_store_ok reduceMergeTailMessages_store_ok markStickersDeleted_store_ok
      reduceAddOptimisticMessage_store_ok reduceConfirmSend_store_ok reduceApplyServerMessage_store_ok\<close>)

interpretation ms: invariant_system messages_step INITIAL_STATE store_ok
  by unfold_locales (auto elim: messages_stepE intro: messages_apply_ok)

subsection \<open>No mutator throws on safe rows\<close>

lemma replaceById_total:
  "\<forall>m \<in> set ms. echo_safe m \<Longrightarrow> \<exists>r. replaceById message inc idx i ms p = Inr r"
proof (induction ms arbitrary: i p)
  case (Cons m ms)
  obtain b where b: "isUnreconciledEcho m message = Inr b" using echo_safe_total [of m message] Cons.prems by auto
  have ih: "\<exists>r. replaceById message inc idx (Suc i) ms q = Inr r" for q using Cons by simp
  from ih [of p] ih [of "drop_correlation p m"] b show ?case by (cases b) auto
qed simp

lemma find_index_res_total:
  "\<forall>m \<in> set ms. echo_safe m \<Longrightarrow> \<exists>r. find_index_res (\<lambda>m. isUnreconciledEcho m message) ms = Inr r"
proof (induction ms)
  case (Cons m ms)
  obtain b where "isUnreconciledEcho m message = Inr b" using echo_safe_total [of m message] Cons.prems by auto
  with Cons show ?case by (cases b) auto
qed simp

lemma reduceAddMessage_total:
  assumes "\<forall>m \<in> set (rows s (msg_channelId message)). echo_safe m"
  shows "\<exists>s'. reduceAddMessage s message = Inr s'"
proof (cases "find_index (\<lambda>m. msg_id m \<noteq> 0 \<and> msg_id m = msg_id message) (rows s (msg_channelId message))")
  case (Some i)
  obtain r where "replaceById message (mergeMessagePoll (Some (rows s (msg_channelId message) ! i)) message) i 0
      (rows s (msg_channelId message)) (pendingSends s) = Inr r"
    using replaceById_total [OF assms] by blast
  with Some show ?thesis by (auto simp: reduceAddMessage_def Let_def split: prod.split)
next
  case None
  obtain r where "find_index_res (\<lambda>m. isUnreconciledEcho m message) (rows s (msg_channelId message)) = Inr r"
    using find_index_res_total [OF assms] by blast
  with None show ?thesis by (auto simp: reduceAddMessage_def Let_def split: option.split)
qed

subsection \<open>Properties\<close>



text \<open>No mutator throws while every unsent row carries a client id or a text without an
  ampersand.\<close>

theorem messages_apply_total:
  assumes "list_all (list_all echo_safe) (jm_values (messagesByChannel s))"
  shows "\<exists>s'. messages_apply s a = Inr s'"
proof (cases a)
  case (AddMessage p)
  have "\<forall>m \<in> set (rows s (msg_channelId (chatPayloadToMessage p))). echo_safe m" by (rule rows_no_match [OF assms])
  with reduceAddMessage_total AddMessage show ?thesis by (simp add: addMessage_def)
next
  case (SetMessages c rs m spl anchor)
  have "\<forall>m \<in> set (rows s c). echo_safe m" by (rule rows_no_match [OF assms])
  then obtain s' where "reduceSetMessages s c rs m spl anchor = Inr s'" by (rule reduceSetMessages_total)
  with SetMessages show ?thesis by (simp add: setMessages_def)
qed simp_all

theorem messages_apply_total_witness:
  "let p = (sample_row 1 0)\<lparr>msg_status := Pending, msg_clientMessageId := Some ''x'', msg_content := js_lit ''&#x110000;''\<rparr>;
       s = INITIAL_STATE\<lparr>messagesByChannel := [(1, [p])]\<rparr>
   in \<exists>s'. messages_apply s (SetMessages 1 [sample_response 1 7] True False None) = Inr s'"
  unfolding Let_def
  by (rule messages_apply_total) (simp add: jm_values_def echo_safe_def)

end
