(* ===== verification/Threads_Store.thy ===== *)
theory Threads_Store
  imports Message_Model
begin

text \<open>
  \<open>stores/threads.store.ts\<close>, \<open>stores/followedThreads.store.ts\<close>, \<open>stores/threadsLoader.ts\<close> and
  \<open>features/messaging/threadFrames.ts\<close>: the threads a session knows, which of them the member
  follows, the view of them the sidebar draws, and the loader that queues work until the store's
  chunk has arrived.

  \<open>Date.parse\<close> is the argument \<open>parse\<close>, with \<open>None\<close> for \<open>NaN\<close>: the language leaves its result open for
  most texts. The read pointers two operations hand to \<open>lib/readState.ts\<close> are their second result.

  The lemmas show that a deleted thread never comes back, that the index by starter message agrees
  with the threads, that the open thread carries no badge, that a hint is counted once, that the
  published view is the projection of the state, and that the queue of the loader makes no difference
  to the state the store ends in.
\<close>

subsection \<open>State\<close>

record ready_thread =
  ry_thread :: thread_info
  ry_last_message_id :: int
  ry_last_read_message_id :: int
  ry_unread_count :: int
  ry_mention_count :: int

record followed_thread =
  ft_unread :: int
  ft_mentions :: int
  ft_lastMessageId :: int
  ft_lastReadId :: int

record threads_state =
  ts_byId :: "(int, thread_info) jmap"
  ts_byStarter :: "(int, int) jmap"
  ts_deleted :: "int jset"
  ts_focusedThreadId :: "int option"
  ts_followed :: "(int, followed_thread) jmap"

definition THREADS_INITIAL :: threads_state where
  "THREADS_INITIAL = \<lparr>ts_byId = [], ts_byStarter = [], ts_deleted = [], ts_focusedThreadId = None, ts_followed = []\<rparr>"

record followed_thread_row =
  fr_id :: int
  fr_parentId :: int
  fr_name :: string
  fr_unread :: int
  fr_mentions :: int
  fr_activityAt :: int

record followed_threads_view =
  fv_byParent :: "(int, followed_thread_row list) jmap"
  fv_focusedId :: "int option"

definition FOLLOWED_EMPTY :: followed_threads_view where
  "FOLLOWED_EMPTY = \<lparr>fv_byParent = [], fv_focusedId = None\<rparr>"

subsection \<open>The sidebar's view\<close>

type_synonym date_parse = "string \<Rightarrow> int option"

definition activityAt :: "date_parse \<Rightarrow> thread_info \<Rightarrow> int" where
  "activityAt parse t = nullish (parse (nullish (th_last_message_at t) '''')) 0"

definition followedRow :: "date_parse \<Rightarrow> int \<Rightarrow> followed_thread \<Rightarrow> thread_info \<Rightarrow> followed_thread_row" where
  "followedRow parse i f t = \<lparr>fr_id = i, fr_parentId = th_parent_id t, fr_name = th_name t, fr_unread = ft_unread f,
     fr_mentions = ft_mentions f, fr_activityAt = activityAt parse t\<rparr>"

definition groupRow :: "date_parse \<Rightarrow> threads_state \<Rightarrow> int \<times> followed_thread \<Rightarrow>
    (int, followed_thread_row list) jmap \<Rightarrow> (int, followed_thread_row list) jmap" where
  "groupRow parse s p byParent = (case jm_get (ts_byId s) (fst p) of
     None \<Rightarrow> byParent
   | Some t \<Rightarrow>
       if th_archived t then byParent
       else jm_set byParent (th_parent_id t)
         (nullish (jm_get byParent (th_parent_id t)) [] @ [followedRow parse (fst p) (snd p) t]))"

definition rowOrder :: "followed_thread_row \<Rightarrow> int \<times> int" where
  "rowOrder r = (- fr_activityAt r, - fr_id r)"

definition followedRows :: "date_parse \<Rightarrow> threads_state \<Rightarrow> (int, followed_thread_row list) jmap" where
  "followedRows parse s =
     map (\<lambda>(parent, rows). (parent, sort_key rowOrder rows)) (fold (groupRow parse s) (ts_followed s) [])"

definition sameRows :: "followed_thread_row list \<Rightarrow> followed_thread_row list \<Rightarrow> bool" where
  "sameRows a b \<longleftrightarrow> length a = length b \<and> list_all (\<lambda>(r, o'). fr_id r = fr_id o' \<and> fr_parentId r = fr_parentId o' \<and>
     fr_name r = fr_name o' \<and> fr_unread r = fr_unread o' \<and> fr_mentions r = fr_mentions o' \<and>
     fr_activityAt r = fr_activityAt o') (zip a b)"

definition sameView :: "followed_threads_view \<Rightarrow> followed_threads_view \<Rightarrow> bool" where
  "sameView a b \<longleftrightarrow> fv_focusedId a = fv_focusedId b \<and> length (fv_byParent a) = length (fv_byParent b) \<and>
     list_all (\<lambda>(parent, rows). case jm_get (fv_byParent b) parent of
         None \<Rightarrow> False | Some other \<Rightarrow> sameRows rows other) (fv_byParent a)"

definition publishFollowedThreads :: "followed_threads_view \<Rightarrow> followed_threads_view \<Rightarrow> followed_threads_view" where
  "publishFollowedThreads view current = (if sameView current view then current else view)"

text \<open>The module's state and the view published from it; \<open>commit\<close> changes the one and publishes the
  other.\<close>

record threads_module =
  tm_state :: threads_state
  tm_view :: followed_threads_view

definition threads_init :: threads_module where
  "threads_init = \<lparr>tm_state = THREADS_INITIAL, tm_view = FOLLOWED_EMPTY\<rparr>"

definition commit :: "date_parse \<Rightarrow> (threads_state \<Rightarrow> threads_state) \<Rightarrow> threads_module \<Rightarrow> threads_module" where
  "commit parse updater m = (
     let s = updater (tm_state m)
     in \<lparr>tm_state = s, tm_view = publishFollowedThreads
           \<lparr>fv_byParent = followedRows parse s, fv_focusedId = ts_focusedThreadId s\<rparr> (tm_view m)\<rparr>)"

subsection \<open>Operations\<close>

definition withThread :: "threads_state \<Rightarrow> thread_info \<Rightarrow> threads_state" where
  "withThread prev info = (
     if js_has (ts_deleted prev) (th_id info) then prev
     else let old = Option.bind (jm_get (ts_byId prev) (th_id info)) th_starter_message_id;
              byId = jm_set (ts_byId prev) (th_id info) info
       in if old = th_starter_message_id info then prev\<lparr>ts_byId := byId\<rparr>
          else let b = (case old of None \<Rightarrow> ts_byStarter prev | Some k \<Rightarrow> jm_delete (ts_byStarter prev) k);
                   byStarter = (case th_starter_message_id info of None \<Rightarrow> b | Some k \<Rightarrow> jm_set b k (th_id info))
               in prev\<lparr>ts_byId := byId, ts_byStarter := byStarter\<rparr>)"

definition upsertThread :: "thread_info \<Rightarrow> threads_state \<Rightarrow> threads_state" where
  "upsertThread info prev = withThread prev info"

definition adoptSnapshot :: "date_parse \<Rightarrow> thread_info \<Rightarrow> threads_state \<Rightarrow> threads_state" where
  "adoptSnapshot parse info state = (case jm_get (ts_byId state) (th_id info) of
     None \<Rightarrow> withThread state info
   | Some known \<Rightarrow> if activityAt parse known < activityAt parse info then withThread state info else state)"

definition adoptThreadSnapshots :: "date_parse \<Rightarrow> thread_info list \<Rightarrow> threads_state \<Rightarrow> threads_state" where
  "adoptThreadSnapshots parse infos prev = fold (adoptSnapshot parse) infos prev"

definition removeThread :: "int \<Rightarrow> threads_state \<Rightarrow> threads_state" where
  "removeThread threadId prev = \<lparr>
     ts_byId = jm_delete (ts_byId prev) threadId,
     ts_byStarter = (case Option.bind (jm_get (ts_byId prev) threadId) th_starter_message_id of
        None \<Rightarrow> ts_byStarter prev | Some k \<Rightarrow> jm_delete (ts_byStarter prev) k),
     ts_deleted = js_add (ts_deleted prev) threadId,
     ts_focusedThreadId = (if ts_focusedThreadId prev = Some threadId then None else ts_focusedThreadId prev),
     ts_followed = jm_delete (ts_followed prev) threadId\<rparr>"

definition withCountsCleared :: "threads_state \<Rightarrow> int \<Rightarrow> threads_state" where
  "withCountsCleared prev threadId = (case jm_get (ts_followed prev) threadId of
     None \<Rightarrow> prev
   | Some f \<Rightarrow>
       if ft_unread f = 0 \<and> ft_mentions f = 0 then prev
       else prev\<lparr>ts_followed := jm_set (ts_followed prev) threadId
              (f\<lparr>ft_unread := 0, ft_mentions := 0, ft_lastReadId := ft_lastMessageId f\<rparr>)\<rparr>)"

definition setFocusedThread :: "int option \<Rightarrow> threads_state \<Rightarrow> threads_state" where
  "setFocusedThread threadId prev = (
     if ts_focusedThreadId prev = threadId then prev
     else let next' = prev\<lparr>ts_focusedThreadId := threadId\<rparr>
       in case threadId of None \<Rightarrow> next' | Some i \<Rightarrow> withCountsCleared next' i)"

definition NO_COUNTS :: followed_thread where
  "NO_COUNTS = \<lparr>ft_unread = 0, ft_mentions = 0, ft_lastMessageId = 0, ft_lastReadId = 0\<rparr>"

definition adoptReadyEntry :: "threads_state \<Rightarrow> ready_thread \<Rightarrow>
    threads_state \<times> (int, followed_thread) jmap \<times> (int \<times> int) list \<Rightarrow>
    threads_state \<times> (int, followed_thread) jmap \<times> (int \<times> int) list" where
  "adoptReadyEntry prev e acc = (case acc of (state, followed, pointers) \<Rightarrow>
     let i = th_id (ry_thread e); watching = (ts_focusedThreadId prev = Some i)
     in if js_has (ts_deleted prev) i then acc
        else (withThread state (ry_thread e),
              jm_set followed i \<lparr>ft_unread = (if watching then 0 else ry_unread_count e),
                ft_mentions = (if watching then 0 else ry_mention_count e),
                ft_lastMessageId = ry_last_message_id e, ft_lastReadId = ry_last_read_message_id e\<rparr>,
              pointers @ [(i, ry_last_read_message_id e)]))"

definition adoptReadyThreads :: "ready_thread list \<Rightarrow> threads_state \<Rightarrow> threads_state \<times> (int \<times> int) list" where
  "adoptReadyThreads entries prev = (
     case fold (adoptReadyEntry prev) entries (prev, [], []) of
       (state, followed, pointers) \<Rightarrow> (state\<lparr>ts_followed := followed\<rparr>, pointers))"

definition applyFollowUpdate :: "int \<Rightarrow> bool \<Rightarrow> thread_info option \<Rightarrow> threads_state \<Rightarrow> threads_state" where
  "applyFollowUpdate threadId following thread prev = (
     if \<not> following then
       (if \<not> jm_has (ts_followed prev) threadId then prev
        else prev\<lparr>ts_followed := jm_delete (ts_followed prev) threadId\<rparr>)
     else if js_has (ts_deleted prev) threadId then prev
     else let state = (case thread of None \<Rightarrow> prev | Some t \<Rightarrow> withThread prev t)
       in if \<not> jm_has (ts_byId state) threadId \<or> jm_has (ts_followed state) threadId then state
          else state\<lparr>ts_followed := jm_set (ts_followed state) threadId NO_COUNTS\<rparr>)"

definition noteFollowedActivity :: "int \<Rightarrow> int \<Rightarrow> threads_state \<Rightarrow> threads_state \<times> bool" where
  "noteFollowedActivity threadId messageId prev = (case jm_get (ts_followed prev) threadId of
     None \<Rightarrow> (prev, False)
   | Some f \<Rightarrow>
       if ts_focusedThreadId prev = Some threadId then (prev, False)
       else if messageId \<le> ft_lastMessageId f \<or> messageId \<le> ft_lastReadId f then (prev, False)
       else (prev\<lparr>ts_followed := jm_set (ts_followed prev) threadId
               (f\<lparr>ft_unread := ft_unread f + 1, ft_lastMessageId := messageId\<rparr>)\<rparr>, True))"

definition setFollowedMentions :: "int \<Rightarrow> int \<Rightarrow> threads_state \<Rightarrow> threads_state \<times> int option" where
  "setFollowedMentions threadId n prev = (case jm_get (ts_followed prev) threadId of
     None \<Rightarrow> (prev, None)
   | Some f \<Rightarrow>
       if ts_focusedThreadId prev = Some threadId then (prev, None)
       else (if ft_mentions f \<noteq> n
             then prev\<lparr>ts_followed := jm_set (ts_followed prev) threadId (f\<lparr>ft_mentions := n\<rparr>)\<rparr> else prev,
             Some (ft_mentions f)))"

definition applyFollowedReadState :: "int \<Rightarrow> int \<Rightarrow> int \<Rightarrow> int \<Rightarrow> threads_state \<Rightarrow> threads_state \<times> (int \<times> int) list" where
  "applyFollowedReadState threadId lastReadId unread mentions prev = (case jm_get (ts_followed prev) threadId of
     None \<Rightarrow> (prev, [])
   | Some f \<Rightarrow>
       let watching = (ts_focusedThreadId prev = Some threadId)
       in (prev\<lparr>ts_followed := jm_set (ts_followed prev) threadId
             (f\<lparr>ft_lastReadId := lastReadId, ft_unread := (if watching then 0 else unread),
                ft_mentions := (if watching then 0 else mentions)\<rparr>)\<rparr>, [(threadId, lastReadId)]))"

definition noteOpenThreadMessage :: "int \<Rightarrow> int \<Rightarrow> threads_state \<Rightarrow> threads_state" where
  "noteOpenThreadMessage threadId messageId prev = (case jm_get (ts_followed prev) threadId of
     None \<Rightarrow> prev
   | Some f \<Rightarrow>
       if ts_focusedThreadId prev \<noteq> Some threadId then prev
       else if messageId \<le> ft_lastMessageId f \<and> messageId \<le> ft_lastReadId f then prev
       else prev\<lparr>ts_followed := jm_set (ts_followed prev) threadId
              (f\<lparr>ft_lastMessageId := max (ft_lastMessageId f) messageId,
                 ft_lastReadId := max (ft_lastReadId f) messageId\<rparr>)\<rparr>)"

definition clearFollowedCounts :: "int \<Rightarrow> threads_state \<Rightarrow> threads_state" where
  "clearFollowedCounts threadId prev = withCountsCleared prev threadId"

definition resetThreadsStore :: "threads_state \<Rightarrow> threads_state" where
  "resetThreadsStore prev = THREADS_INITIAL"

subsection \<open>Selectors\<close>

definition getThread :: "threads_state \<Rightarrow> int \<Rightarrow> thread_info option" where
  "getThread s threadId = jm_get (ts_byId s) threadId"

text \<open>A message is its id and the thread snapshot on its row, if any.\<close>

definition threadOfMessage :: "threads_state \<Rightarrow> int \<Rightarrow> thread_info option \<Rightarrow> thread_info option" where
  "threadOfMessage s msgId snapshot = (case snapshot of
     Some t \<Rightarrow> if js_has (ts_deleted s) (th_id t) then None else alt (jm_get (ts_byId s) (th_id t)) (Some t)
   | None \<Rightarrow> Option.bind (jm_get (ts_byStarter s) msgId) (jm_get (ts_byId s)))"

definition authorityChannelId :: "threads_state \<Rightarrow> int \<Rightarrow> int" where
  "authorityChannelId s channelId = nullish (map_option th_parent_id (jm_get (ts_byId s) channelId)) channelId"

definition isReadSurface :: "threads_state \<Rightarrow> int \<Rightarrow> int option \<Rightarrow> bool" where
  "isReadSurface s channelId activeChannelId \<longleftrightarrow>
     activeChannelId = Some channelId \<or> ts_focusedThreadId s = Some channelId"

definition isFollowed :: "threads_state \<Rightarrow> int \<Rightarrow> bool" where
  "isFollowed s threadId = jm_has (ts_followed s) threadId"

subsection \<open>Actions\<close>

datatype threads_action =
    Upsert_thread thread_info
  | Adopt_snapshots "thread_info list"
  | Remove_thread int
  | Focus_thread "int option"
  | Adopt_ready "ready_thread list"
  | Follow_update int bool "thread_info option"
  | Note_activity int int
  | Set_mentions int int
  | Followed_read_state int int int int
  | Note_open_message int int
  | Clear_counts int
  | Reset_threads

fun threads_reduce :: "date_parse \<Rightarrow> threads_action \<Rightarrow> threads_state \<Rightarrow> threads_state" where
  "threads_reduce parse (Upsert_thread info) s = upsertThread info s"
| "threads_reduce parse (Adopt_snapshots infos) s = adoptThreadSnapshots parse infos s"
| "threads_reduce parse (Remove_thread i) s = removeThread i s"
| "threads_reduce parse (Focus_thread i) s = setFocusedThread i s"
| "threads_reduce parse (Adopt_ready entries) s = fst (adoptReadyThreads entries s)"
| "threads_reduce parse (Follow_update i following thread) s = applyFollowUpdate i following thread s"
| "threads_reduce parse (Note_activity i messageId) s = fst (noteFollowedActivity i messageId s)"
| "threads_reduce parse (Set_mentions i n) s = fst (setFollowedMentions i n s)"
| "threads_reduce parse (Followed_read_state i p u n) s = fst (applyFollowedReadState i p u n s)"
| "threads_reduce parse (Note_open_message i messageId) s = noteOpenThreadMessage i messageId s"
| "threads_reduce parse (Clear_counts i) s = clearFollowedCounts i s"
| "threads_reduce parse Reset_threads s = resetThreadsStore s"

definition threads_apply :: "date_parse \<Rightarrow> threads_action \<Rightarrow> threads_module \<Rightarrow> threads_module" where
  "threads_apply parse a m = commit parse (threads_reduce parse a) m"

text \<open>What the server promises: a message starts at most one thread, \<open>home\<close> says which.\<close>

definition info_ok :: "(int \<Rightarrow> int) \<Rightarrow> thread_info \<Rightarrow> bool" where
  "info_ok home t \<longleftrightarrow> (case th_starter_message_id t of None \<Rightarrow> True | Some k \<Rightarrow> home k = th_id t)"

fun threads_action_ok :: "(int \<Rightarrow> int) \<Rightarrow> threads_action \<Rightarrow> bool" where
  "threads_action_ok home (Upsert_thread info) = info_ok home info"
| "threads_action_ok home (Adopt_snapshots infos) = list_all (info_ok home) infos"
| "threads_action_ok home (Adopt_ready entries) = list_all (\<lambda>e. info_ok home (ry_thread e)) entries"
| "threads_action_ok home (Follow_update i following thread) =
     (case thread of None \<Rightarrow> True | Some t \<Rightarrow> info_ok home t)"
| "threads_action_ok home a = True"

subsection \<open>The invariant\<close>

definition index_ok :: "threads_state \<Rightarrow> bool" where
  "index_ok s \<longleftrightarrow> (\<forall>k i. jm_get (ts_byStarter s) k = Some i \<longleftrightarrow>
     (\<exists>t. jm_get (ts_byId s) i = Some t \<and> th_starter_message_id t = Some k))"

definition known_ok :: "(int \<Rightarrow> int) \<Rightarrow> threads_state \<Rightarrow> bool" where
  "known_ok home s \<longleftrightarrow> (\<forall>i t. jm_get (ts_byId s) i = Some t \<longrightarrow>
     th_id t = i \<and> info_ok home t \<and> \<not> js_has (ts_deleted s) i)"

definition followed_ok :: "threads_state \<Rightarrow> bool" where
  "followed_ok s \<longleftrightarrow> jm_wf (ts_followed s) \<and>
     (\<forall>i f. jm_get (ts_followed s) i = Some f \<longrightarrow> jm_has (ts_byId s) i \<and>
        (ts_focusedThreadId s = Some i \<longrightarrow> ft_unread f = 0 \<and> ft_mentions f = 0))"

definition threads_ok :: "(int \<Rightarrow> int) \<Rightarrow> threads_state \<Rightarrow> bool" where
  "threads_ok home s \<longleftrightarrow> index_ok s \<and> known_ok home s \<and> followed_ok s"

lemma withThread_frame [simp]:
  "ts_deleted (withThread s info) = ts_deleted s"
  "ts_focusedThreadId (withThread s info) = ts_focusedThreadId s"
  "ts_followed (withThread s info) = ts_followed s"
  by (simp_all add: withThread_def Let_def)

lemma withThread_byId:
  "jm_get (ts_byId (withThread s info)) i =
     (if js_has (ts_deleted s) (th_id info) \<or> i \<noteq> th_id info then jm_get (ts_byId s) i else Some info)"
  by (simp add: withThread_def Let_def)

lemma withThread_byStarter:
  assumes "index_ok s" and "known_ok home s" and "info_ok home info"
  shows "index_ok (withThread s info)"
proof (cases "js_has (ts_deleted s) (th_id info)")
  case False
  let ?old = "Option.bind (jm_get (ts_byId s) (th_id info)) th_starter_message_id"
  have old: "?old = Some k \<longleftrightarrow> jm_get (ts_byStarter s) k = Some (th_id info)" for k
    using assms(1) by (auto simp: index_ok_def bind_eq_Some_conv)
  have home: "home k = i" if "jm_get (ts_byStarter s) k = Some i" for k i
    using that assms(1,2) by (fastforce simp: index_ok_def known_ok_def info_ok_def)
  have "jm_get (ts_byStarter (withThread s info)) k =
      (if th_starter_message_id info = Some k then Some (th_id info)
       else if ?old = Some k then None else jm_get (ts_byStarter s) k)" for k
    using False by (cases ?old; cases "th_starter_message_id info") (auto simp: withThread_def Let_def dest: old [THEN iffD1])
  moreover have "jm_get (ts_byId (withThread s info)) i =
      (if i = th_id info then Some info else jm_get (ts_byId s) i)" for i
    using False by (simp add: withThread_byId)
  moreover have "home k = th_id info" if "th_starter_message_id info = Some k" for k
    using that assms(3) by (simp add: info_ok_def)
  ultimately show ?thesis
    unfolding index_ok_def using assms(1) [unfolded index_ok_def] old home by (smt (verit) option.inject option.distinct(1))
qed (simp add: withThread_def assms(1))

lemma withThread_ok:
  assumes "threads_ok home s" and "info_ok home info"
  shows "threads_ok home (withThread s info)"
  using assms withThread_byStarter [of s home info]
  by (auto simp: threads_ok_def known_ok_def followed_ok_def withThread_byId)

lemma threads_ok_index: "threads_ok home s \<Longrightarrow> index_ok s"
  and threads_ok_known: "threads_ok home s \<Longrightarrow> known_ok home s"
  and threads_ok_followed: "threads_ok home s \<Longrightarrow> followed_ok s"
  by (simp_all add: threads_ok_def)

text \<open>Operations that change only the follow map or the focus.\<close>

lemma threads_ok_follow:
  "threads_ok home s \<Longrightarrow> followed_ok (s\<lparr>ts_followed := m\<rparr>) \<Longrightarrow> threads_ok home (s\<lparr>ts_followed := m\<rparr>)"
  by (simp add: threads_ok_def index_ok_def known_ok_def)

lemma withCountsCleared_ok: "threads_ok home s \<Longrightarrow> threads_ok home (withCountsCleared s i)"
  by (auto simp: withCountsCleared_def followed_ok_def dest: threads_ok_followed split: option.split
      intro!: threads_ok_follow)

lemma setFocusedThread_ok:
  assumes "threads_ok home s"
  shows "threads_ok home (setFocusedThread i s)"
  using assms unfolding setFocusedThread_def withCountsCleared_def threads_ok_def index_ok_def known_ok_def followed_ok_def
  by (auto simp: Let_def split: option.splits if_splits)

lemma removeThread_ok:
  assumes "threads_ok home s"
  shows "threads_ok home (removeThread i s)"
proof -
  let ?old = "Option.bind (jm_get (ts_byId s) i) th_starter_message_id"
  have ix: "jm_get (ts_byStarter s) k = Some j \<longleftrightarrow>
      (\<exists>t. jm_get (ts_byId s) j = Some t \<and> th_starter_message_id t = Some k)" for k j
    using threads_ok_index [OF assms] by (simp add: index_ok_def)
  have "jm_get (ts_byStarter (removeThread i s)) k = (if ?old = Some k then None else jm_get (ts_byStarter s) k)" for k
    by (auto simp: removeThread_def split: option.split)
  moreover have "?old = Some k \<longleftrightarrow> jm_get (ts_byStarter s) k = Some i" for k
    by (auto simp: ix bind_eq_Some_conv)
  ultimately have "jm_get (ts_byStarter (removeThread i s)) k = Some j \<longleftrightarrow>
      j \<noteq> i \<and> (\<exists>t. jm_get (ts_byId s) j = Some t \<and> th_starter_message_id t = Some k)" for k j
    using ix by (smt (verit) option.distinct(1) option.inject)
  then have "index_ok (removeThread i s)"
    unfolding index_ok_def by (simp add: removeThread_def)
  moreover have "known_ok home (removeThread i s)" "followed_ok (removeThread i s)"
    using assms by (auto simp: threads_ok_def known_ok_def followed_ok_def removeThread_def split: if_splits)
  ultimately show ?thesis by (simp add: threads_ok_def)
qed

lemma adoptSnapshot_ok: "threads_ok home s \<Longrightarrow> info_ok home info \<Longrightarrow> threads_ok home (adoptSnapshot parse info s)"
  by (simp add: adoptSnapshot_def withThread_ok split: option.split)

lemma adoptThreadSnapshots_ok:
  "threads_ok home s \<Longrightarrow> list_all (info_ok home) infos \<Longrightarrow> threads_ok home (adoptThreadSnapshots parse infos s)"
  unfolding adoptThreadSnapshots_def
  by (induction infos arbitrary: s) (simp_all add: adoptSnapshot_ok)

text \<open>The loop over \<open>ready.threads\<close>, with what it keeps of the state it started from.\<close>

definition ready_inv :: "(int \<Rightarrow> int) \<Rightarrow> threads_state \<Rightarrow> threads_state \<times> (int, followed_thread) jmap \<times> (int \<times> int) list \<Rightarrow> bool" where
  "ready_inv home prev acc \<longleftrightarrow> (case acc of (state, followed, pointers) \<Rightarrow>
     threads_ok home state \<and> ts_deleted state = ts_deleted prev \<and> ts_focusedThreadId state = ts_focusedThreadId prev \<and>
     followed_ok (state\<lparr>ts_followed := followed\<rparr>))"

lemma adoptReadyEntry_inv:
  "ready_inv home prev acc \<Longrightarrow> info_ok home (ry_thread e) \<Longrightarrow> ready_inv home prev (adoptReadyEntry prev e acc)"
  by (cases acc) (auto simp: ready_inv_def adoptReadyEntry_def Let_def withThread_ok followed_ok_def withThread_byId)

lemma adoptReadyThreads_ok:
  assumes "threads_ok home s" and "list_all (\<lambda>e. info_ok home (ry_thread e)) entries"
  shows "threads_ok home (fst (adoptReadyThreads entries s))"
proof -
  have "ready_inv home s (fold (adoptReadyEntry s) entries acc)" if "ready_inv home s acc" for acc
    using that assms(2) by (induction entries arbitrary: acc) (simp_all add: adoptReadyEntry_inv)
  from this [of "(s, [], [])"] have "ready_inv home s (fold (adoptReadyEntry s) entries (s, [], []))"
    using assms(1) by (simp add: ready_inv_def followed_ok_def)
  then show ?thesis
    by (auto simp: adoptReadyThreads_def ready_inv_def intro: threads_ok_follow split: prod.split)
qed

lemma applyFollowUpdate_ok:
  assumes "threads_ok home s" and "case thread of None \<Rightarrow> True | Some t \<Rightarrow> info_ok home t"
  shows "threads_ok home (applyFollowUpdate i following thread s)"
proof -
  define s' where "s' = (case thread of None \<Rightarrow> s | Some t \<Rightarrow> withThread s t)"
  have s': "threads_ok home s'" using assms by (cases thread) (simp_all add: s'_def withThread_ok)
  have "threads_ok home (s'\<lparr>ts_followed := jm_set (ts_followed s') i NO_COUNTS\<rparr>)" if "jm_has (ts_byId s') i"
    using threads_ok_followed [OF s'] that
    by (intro threads_ok_follow [OF s']) (auto simp: followed_ok_def NO_COUNTS_def)
  moreover have "threads_ok home (s\<lparr>ts_followed := jm_delete (ts_followed s) i\<rparr>)"
    using threads_ok_followed [OF assms(1)]
    by (intro threads_ok_follow [OF assms(1)]) (auto simp: followed_ok_def split: if_splits)
  ultimately show ?thesis using assms(1) s' by (simp add: applyFollowUpdate_def s'_def [symmetric] Let_def)
qed

text \<open>Replacing the counts of a followed thread; the open one must stay at zero.\<close>

lemma threads_ok_counts:
  assumes "threads_ok home s" and "jm_get (ts_followed s) i = Some f"
    and "ts_focusedThreadId s = Some i \<Longrightarrow> ft_unread g = 0 \<and> ft_mentions g = 0"
  shows "threads_ok home (s\<lparr>ts_followed := jm_set (ts_followed s) i g\<rparr>)"
  using threads_ok_followed [OF assms(1)] assms(2,3)
  by (intro threads_ok_follow [OF assms(1)]) (auto simp: followed_ok_def)

lemma followed_open_zero:
  "threads_ok home s \<Longrightarrow> jm_get (ts_followed s) i = Some f \<Longrightarrow> ts_focusedThreadId s = Some i \<Longrightarrow>
     ft_unread f = 0 \<and> ft_mentions f = 0"
  by (auto simp: threads_ok_def followed_ok_def)

lemma follow_counts_ok:
  assumes "threads_ok home s"
  shows "threads_ok home (fst (noteFollowedActivity i k s))"
    and "threads_ok home (fst (setFollowedMentions i n s))"
    and "threads_ok home (fst (applyFollowedReadState i p u n s))"
    and "threads_ok home (noteOpenThreadMessage i k s)"
  using assms
  by (auto simp: noteFollowedActivity_def setFollowedMentions_def applyFollowedReadState_def
      noteOpenThreadMessage_def Let_def followed_open_zero intro!: threads_ok_counts split: option.split)

lemma threads_reduce_ok:
  assumes "threads_ok home s" and "threads_action_ok home a"
  shows "threads_ok home (threads_reduce parse a s)"
proof (cases a)
  case Reset_threads
  show ?thesis
    by (simp add: Reset_threads resetThreadsStore_def THREADS_INITIAL_def threads_ok_def index_ok_def known_ok_def
        followed_ok_def)
qed (use assms in \<open>simp_all add: upsertThread_def withThread_ok adoptThreadSnapshots_ok removeThread_ok
      setFocusedThread_ok adoptReadyThreads_ok applyFollowUpdate_ok follow_counts_ok clearFollowedCounts_def
      withCountsCleared_ok\<close>)

subsection \<open>The published view\<close>

lemma sameRows_eq: "sameRows a b \<longleftrightarrow> a = b"
  by (auto simp: sameRows_def list_all_length list_eq_iff_nth_eq)

text \<open>What a parent's rows are: its open followed threads.\<close>

definition openRow :: "date_parse \<Rightarrow> threads_state \<Rightarrow> int \<Rightarrow> int \<times> followed_thread \<Rightarrow> followed_thread_row option" where
  "openRow parse s parent p = (case jm_get (ts_byId s) (fst p) of
     None \<Rightarrow> None
   | Some t \<Rightarrow> if th_archived t \<or> th_parent_id t \<noteq> parent then None else Some (followedRow parse (fst p) (snd p) t))"

lemma fold_groupRow:
  "jm_get (fold (groupRow parse s) fs m) parent = (let rows = List.map_filter (openRow parse s parent) fs
     in if rows = [] then jm_get m parent else Some (nullish (jm_get m parent) [] @ rows))"
proof (induction fs arbitrary: m)
  case (Cons p fs)
  have "jm_get (groupRow parse s p m) parent = (case openRow parse s parent p of
      None \<Rightarrow> jm_get m parent | Some r \<Rightarrow> Some (nullish (jm_get m parent) [] @ [r]))"
    by (simp add: openRow_def groupRow_def split: option.split)
  then show ?case by (simp add: Cons.IH Let_def List.map_filter_simps split: option.split)
qed (simp add: List.map_filter_simps)

lemma jm_wf_groupRow: "jm_wf m \<Longrightarrow> jm_wf (fold (groupRow parse s) fs m)"
  by (induction fs arbitrary: m) (auto simp: groupRow_def split: option.split)

lemma jm_wf_followedRows: "jm_wf (followedRows parse s)"
  using jm_wf_groupRow [of "[]" parse s "ts_followed s"]
  by (simp add: followedRows_def jm_wf_def comp_def case_prod_unfold)

lemma jm_get_followedRows:
  "jm_get (followedRows parse s) parent = (let rows = List.map_filter (openRow parse s parent) (ts_followed s)
     in if rows = [] then None else Some (sort_key rowOrder rows))"
  by (simp add: followedRows_def jm_get_map_values [where g = "\<lambda>_. sort_key rowOrder"] fold_groupRow Let_def)

definition view_ok :: "date_parse \<Rightarrow> threads_module \<Rightarrow> bool" where
  "view_ok parse m \<longleftrightarrow> jm_wf (fv_byParent (tm_view m)) \<and>
     jm_get (fv_byParent (tm_view m)) = jm_get (followedRows parse (tm_state m)) \<and>
     fv_focusedId (tm_view m) = ts_focusedThreadId (tm_state m)"

lemma sameView_get:
  assumes "sameView a b" and "jm_wf (fv_byParent a)" and "jm_wf (fv_byParent b)"
  shows "jm_get (fv_byParent a) = jm_get (fv_byParent b)"
  using assms
  by (intro jm_same_entries) (auto simp: sameView_def sameRows_eq list_all_iff split: option.splits)

lemma commit_view:
  assumes "jm_wf (fv_byParent (tm_view m))"
  shows "view_ok parse (commit parse u m)"
  using assms sameView_get [OF _ assms, of "\<lparr>fv_byParent = followedRows parse (u (tm_state m)),
      fv_focusedId = ts_focusedThreadId (u (tm_state m))\<rparr>"]
  by (auto simp: view_ok_def commit_def Let_def publishFollowedThreads_def jm_wf_followedRows sameView_def)

subsection \<open>Runs\<close>

definition module_ok :: "date_parse \<Rightarrow> (int \<Rightarrow> int) \<Rightarrow> threads_module \<Rightarrow> bool" where
  "module_ok parse home m \<longleftrightarrow> threads_ok home (tm_state m) \<and> view_ok parse m"

inductive threads_step :: "date_parse \<Rightarrow> (int \<Rightarrow> int) \<Rightarrow> threads_module \<Rightarrow> threads_action \<Rightarrow> threads_module \<Rightarrow> bool"
  for parse home where
  threads_step_intro: "threads_action_ok home a \<Longrightarrow> threads_step parse home m a (threads_apply parse a m)"

inductive_cases threads_stepE: "threads_step parse home m a m'"

lemma threads_apply_state [simp]: "tm_state (threads_apply parse a m) = threads_reduce parse a (tm_state m)"
  by (simp add: threads_apply_def commit_def Let_def)

lemma threads_init_ok: "module_ok parse home threads_init"
  by (simp add: module_ok_def threads_init_def THREADS_INITIAL_def threads_ok_def index_ok_def known_ok_def
      followed_ok_def view_ok_def FOLLOWED_EMPTY_def followedRows_def fun_eq_iff)

interpretation thr: invariant_system "threads_step parse home" threads_init "module_ok parse home"
  for parse home
proof
  show "module_ok parse home threads_init" by (rule threads_init_ok)
next
  fix s a t
  assume "module_ok parse home s" "threads_step parse home s a t"
  then show "module_ok parse home t"
    by (auto simp: module_ok_def threads_reduce_ok threads_apply_def [of _ _ s] commit_view view_ok_def [of _ s]
        elim!: threads_stepE) (simp_all add: threads_apply_def [symmetric] threads_reduce_ok)
qed

subsection \<open>Tombstones\<close>

lemma snapshots_deleted: "ts_deleted (adoptThreadSnapshots parse infos s) = ts_deleted s"
  unfolding adoptThreadSnapshots_def
  by (induction infos arbitrary: s) (simp_all add: adoptSnapshot_def split: option.split)

lemma ready_deleted: "ts_deleted (fst (adoptReadyThreads entries s)) = ts_deleted s"
proof -
  have "ts_deleted (fst (fold (adoptReadyEntry s) entries acc)) = ts_deleted (fst acc)" for acc
    by (induction entries arbitrary: acc) (simp_all add: adoptReadyEntry_def Let_def split: prod.split)
  from this [of "(s, [], [])"] show ?thesis by (simp add: adoptReadyThreads_def case_prod_unfold)
qed

lemma threads_reduce_deleted:
  assumes "js_has (ts_deleted s) i" and "a \<noteq> Reset_threads"
  shows "js_has (ts_deleted (threads_reduce parse a s)) i"
  using assms
  by (cases a) (simp_all add: upsertThread_def snapshots_deleted ready_deleted removeThread_def setFocusedThread_def
        withCountsCleared_def applyFollowUpdate_def noteFollowedActivity_def
        setFollowedMentions_def applyFollowedReadState_def noteOpenThreadMessage_def clearFollowedCounts_def
        Let_def split: option.split)

lemma runs_deleted:
  "runs (threads_step parse home) m as m' \<Longrightarrow> js_has (ts_deleted (tm_state m)) i \<Longrightarrow> Reset_threads \<notin> set as \<Longrightarrow>
     js_has (ts_deleted (tm_state m')) i"
proof (induction rule: runs.induct)
  case (runs_Cons s a t as u)
  then have "t = threads_apply parse a s" by (auto elim: threads_stepE)
  with runs_Cons threads_reduce_deleted [of "tm_state s" i a parse] show ?case by auto
qed simp

lemma runs_threads_one:
  "threads_action_ok home a \<Longrightarrow> runs (threads_step parse home) m [a] (threads_apply parse a m)"
  by (rule runs_Cons, rule threads_step_intro, assumption, rule runs_Nil)

lemma followed_known: "followed_ok s \<Longrightarrow> jm_get (ts_byId s) i = None \<Longrightarrow> jm_get (ts_followed s) i = None"
  by (cases "jm_get (ts_followed s) i") (fastforce simp: followed_ok_def)+

lemma threadOfMessage_known:
  assumes "known_ok home s" and "threadOfMessage s k snap = Some t"
  shows "\<not> js_has (ts_deleted s) (th_id t)"
  using assms by (auto simp: threadOfMessage_def known_ok_def alt_def bind_eq_Some_conv split: option.splits if_splits)

lemma view_rows:
  assumes "view_ok parse m"
  shows "nullish (jm_get (fv_byParent (tm_view m)) parent) [] =
    sort_key rowOrder (List.map_filter (openRow parse (tm_state m) parent) (ts_followed (tm_state m)))"
  using assms by (simp add: view_ok_def jm_get_followedRows Let_def)

lemma set_openRows:
  assumes "jm_wf (ts_followed s)"
  shows "set (List.map_filter (openRow parse s parent) (ts_followed s)) =
    {followedRow parse i f t | i f t. jm_get (ts_followed s) i = Some f \<and> jm_get (ts_byId s) i = Some t \<and>
       \<not> th_archived t \<and> th_parent_id t = parent}"
proof -
  have "r \<in> set (List.map_filter (openRow parse s parent) fs) \<longleftrightarrow>
      (\<exists>i f. (i, f) \<in> set fs \<and> openRow parse s parent (i, f) = Some r)" for r fs
    by (force simp: List.map_filter_def)
  moreover have "openRow parse s parent (i, f) = Some r \<longleftrightarrow> (\<exists>t. r = followedRow parse i f t \<and>
      jm_get (ts_byId s) i = Some t \<and> \<not> th_archived t \<and> th_parent_id t = parent)" for i f r
    by (auto simp: openRow_def split: option.split)
  moreover have "(i, f) \<in> set (ts_followed s) \<longleftrightarrow> jm_get (ts_followed s) i = Some f" for i f
    using jm_get_mem [OF assms] jm_get_SomeD [of "ts_followed s" i f] by auto
  ultimately have mem: "r \<in> set (List.map_filter (openRow parse s parent) (ts_followed s)) \<longleftrightarrow>
      (\<exists>i f. jm_get (ts_followed s) i = Some f \<and> (\<exists>t. r = followedRow parse i f t \<and>
        jm_get (ts_byId s) i = Some t \<and> \<not> th_archived t \<and> th_parent_id t = parent))" for r
    by simp
  show ?thesis by (rule set_eqI) (unfold mem mem_Collect_eq, blast)
qed

lemma distinct_openRows:
  assumes "jm_wf fs"
  shows "distinct (map fr_id (List.map_filter (openRow parse s parent) fs))"
proof -
  have ids: "fr_id ` set (List.map_filter (openRow parse s parent) fs) \<subseteq> fst ` set fs" for fs
    by (induction fs) (auto simp: List.map_filter_simps openRow_def followedRow_def split: option.splits if_splits)
  show ?thesis
    using assms
  proof (induction fs)
    case (Cons p fs)
    then have fs: "jm_wf fs" "fst p \<notin> fst ` set fs" by (simp_all add: jm_wf_def)
    then have "fst p \<notin> fr_id ` set (List.map_filter (openRow parse s parent) fs)" using ids by blast
    moreover have "fr_id r = fst p" if "openRow parse s parent p = Some r" for r
      using that by (auto simp: openRow_def followedRow_def split: option.splits if_splits)
    ultimately show ?case using Cons.IH [OF fs(1)] by (auto simp: List.map_filter_simps split: option.split)
  qed (simp add: List.map_filter_simps)
qed

subsection \<open>Properties\<close>

definition sample_thread :: "int \<Rightarrow> int option \<Rightarrow> thread_info" where
  "sample_thread i k = \<lparr>th_id = i, th_parent_id = 7, th_name = ''plans'', th_owner_id = None,
     th_starter_message_id = k, th_archived = False, th_locked = False, th_auto_archive_minutes = 60,
     th_message_count = 1, th_last_message_at = Some ''now'', th_created_at = ''then'', th_post = None\<rparr>"

definition sample_home :: "int \<Rightarrow> int" where
  "sample_home k = k - 1000"

definition sample_followed :: "date_parse \<Rightarrow> threads_module" where
  "sample_followed parse = threads_apply parse (Follow_update 20 True (Some (sample_thread 20 (Some 1020)))) threads_init"

lemma sample_followed_runs:
  "runs (threads_step parse sample_home) threads_init
     [Follow_update 20 True (Some (sample_thread 20 (Some 1020)))] (sample_followed parse)"
  unfolding sample_followed_def
  by (rule runs_threads_one) (simp add: info_ok_def sample_thread_def sample_home_def)

lemma sample_followed_state:
  "tm_state (sample_followed parse) = \<lparr>ts_byId = [(20, sample_thread 20 (Some 1020))], ts_byStarter = [(1020, 20)],
     ts_deleted = [], ts_focusedThreadId = None, ts_followed = [(20, NO_COUNTS)]\<rparr>"
  by (simp add: sample_followed_def threads_init_def THREADS_INITIAL_def applyFollowUpdate_def withThread_def Let_def
      sample_thread_def jm_set_def jm_get_Cons)

text \<open>A deleted thread never comes back within a session: whatever frames arrive late, in whatever
  order, the thread is not known, not followed, in no row of the sidebar, and no message shows it, not
  even one that carries a snapshot of it.\<close>

theorem thread_deleted_stays_gone:
  assumes "runs (threads_step parse home) threads_init as m"
    and "runs (threads_step parse home) (threads_apply parse (Remove_thread i) m) late m'"
    and "Reset_threads \<notin> set late"
  shows "getThread (tm_state m') i = None \<and> \<not> isFollowed (tm_state m') i \<and>
    (\<forall>k snap t. threadOfMessage (tm_state m') k snap = Some t \<longrightarrow> th_id t \<noteq> i) \<and>
    (\<forall>parent. i \<notin> fr_id ` set (nullish (jm_get (fv_byParent (tm_view m')) parent) []))"
proof -
  have "runs (threads_step parse home) threads_init (as @ Remove_thread i # late) m'"
    using runs_append [OF assms(1) runs_append [OF runs_threads_one [of home "Remove_thread i" parse m] assms(2)]] by simp
  then have ok: "threads_ok home (tm_state m')" "view_ok parse m'"
    using thr.reachable_inv by (auto simp: module_ok_def)
  have "js_has (ts_deleted (tm_state (threads_apply parse (Remove_thread i) m))) i" by (simp add: removeThread_def)
  from runs_deleted [OF assms(2) this assms(3)] have dead: "js_has (ts_deleted (tm_state m')) i" .
  then have none: "jm_get (ts_byId (tm_state m')) i = None"
    using threads_ok_known [OF ok(1)] by (cases "jm_get (ts_byId (tm_state m')) i") (auto simp: known_ok_def)
  then have unf: "jm_get (ts_followed (tm_state m')) i = None"
    by (rule followed_known [OF threads_ok_followed [OF ok(1)]])
  have "i \<notin> fr_id ` set (nullish (jm_get (fv_byParent (tm_view m')) parent) [])" for parent
    using threads_ok_followed [OF ok(1)] none
    by (auto simp: view_rows [OF ok(2)] set_openRows threads_ok_followed [OF ok(1), unfolded followed_ok_def] followedRow_def)
  with none unf dead threadOfMessage_known [OF threads_ok_known [OF ok(1)]] show ?thesis
    by (auto simp: getThread_def isFollowed_def)
qed

theorem thread_deleted_stays_gone_witness:
  "getThread (tm_state (threads_apply (\<lambda>_. None) (Upsert_thread (sample_thread 20 (Some 1020)))
     (threads_apply (\<lambda>_. None) (Remove_thread 20) (sample_followed (\<lambda>_. None))))) 20 = None"
  using thread_deleted_stays_gone [OF sample_followed_runs
      runs_threads_one [of sample_home "Upsert_thread (sample_thread 20 (Some 1020))"], of "\<lambda>_. None" 20]
  by (simp add: info_ok_def sample_thread_def sample_home_def)

text \<open>The index by starter message is a faithful cache: looking a message up finds exactly the known
  thread that names the message as its starter.\<close>

theorem threadOfMessage_index:
  assumes "runs (threads_step parse home) threads_init as m"
  shows "threadOfMessage (tm_state m) k None = Some t \<longleftrightarrow>
    getThread (tm_state m) (th_id t) = Some t \<and> th_starter_message_id t = Some k"
proof -
  have "threads_ok home (tm_state m)" using thr.reachable_inv [OF assms] by (simp add: module_ok_def)
  then have "index_ok (tm_state m)" "known_ok home (tm_state m)" by (simp_all add: threads_ok_def)
  then show ?thesis
    by (auto simp: threadOfMessage_def getThread_def bind_eq_Some_conv index_ok_def known_ok_def)
qed

theorem threadOfMessage_index_witness:
  "threadOfMessage (tm_state (sample_followed (\<lambda>_. None))) 1020 None = Some (sample_thread 20 (Some 1020))"
  using threadOfMessage_index [OF sample_followed_runs, of "\<lambda>_. None" 1020 "sample_thread 20 (Some 1020)"]
  by (simp add: getThread_def sample_followed_state jm_get_Cons sample_thread_def)

text \<open>The sidebar's store refines the threads store: after every change its rows for a parent are the
  open threads of that parent the member follows, each once, the latest activity first, and the open
  thread's row carries no count.\<close>

theorem followed_view_refines:
  assumes "runs (threads_step parse home) threads_init as m"
  shows "let shown = nullish (jm_get (fv_byParent (tm_view m)) parent) [] in
    set shown = {followedRow parse i f t | i f t. jm_get (ts_followed (tm_state m)) i = Some f \<and>
      getThread (tm_state m) i = Some t \<and> \<not> th_archived t \<and> th_parent_id t = parent} \<and>
    distinct (map fr_id shown) \<and> sorted (map rowOrder shown) \<and>
    list_all (\<lambda>r. fv_focusedId (tm_view m) = Some (fr_id r) \<longrightarrow> fr_unread r = 0 \<and> fr_mentions r = 0) shown"
proof -
  have ok: "threads_ok home (tm_state m)" "view_ok parse m"
    using thr.reachable_inv [OF assms(1)] by (simp_all add: module_ok_def)
  have fok: "followed_ok (tm_state m)" by (rule threads_ok_followed [OF ok(1)])
  then have wf: "jm_wf (ts_followed (tm_state m))" by (simp add: followed_ok_def)
  define shown where "shown = nullish (jm_get (fv_byParent (tm_view m)) parent) []"
  note rows = shown_def [unfolded view_rows [OF ok(2), of parent]]
  have set: "set shown = {followedRow parse i f t | i f t. jm_get (ts_followed (tm_state m)) i = Some f \<and>
      getThread (tm_state m) i = Some t \<and> \<not> th_archived t \<and> th_parent_id t = parent}"
    unfolding rows by (simp add: set_openRows [OF wf] getThread_def)
  have "distinct (map fr_id shown)"
    unfolding rows by (simp add: distinct_map_sort_key distinct_openRows [OF wf])
  moreover have "sorted (map rowOrder shown)" unfolding rows by simp
  moreover have "fr_unread r = 0 \<and> fr_mentions r = 0"
    if "r \<in> set shown" "fv_focusedId (tm_view m) = Some (fr_id r)" for r
    using that ok(2) fok unfolding set by (auto simp: view_ok_def followed_ok_def followedRow_def)
  ultimately show ?thesis using set by (simp add: shown_def [symmetric] Let_def list_all_iff)
qed

theorem followed_view_refines_witness:
  "set (nullish (jm_get (fv_byParent (tm_view (sample_followed (\<lambda>_. Some 5)))) 7) []) =
     {followedRow (\<lambda>_. Some 5) 20 NO_COUNTS (sample_thread 20 (Some 1020))}"
proof -
  have "{followedRow (\<lambda>_. Some 5) i f t | i f t. jm_get (ts_followed (tm_state (sample_followed (\<lambda>_. Some 5)))) i = Some f \<and>
      getThread (tm_state (sample_followed (\<lambda>_. Some 5))) i = Some t \<and> \<not> th_archived t \<and> th_parent_id t = 7} =
      {followedRow (\<lambda>_. Some 5) 20 NO_COUNTS (sample_thread 20 (Some 1020))}"
    by (auto simp: sample_followed_state getThread_def jm_get_Cons sample_thread_def split: if_splits)
  with followed_view_refines [OF sample_followed_runs, of "\<lambda>_. Some 5" 7] show ?thesis by (simp add: Let_def)
qed

definition followed_unread :: "int \<Rightarrow> threads_state \<Rightarrow> int" where
  "followed_unread i s = nullish (map_option ft_unread (jm_get (ts_followed s) i)) 0"

definition followed_mark :: "int \<Rightarrow> threads_state \<Rightarrow> int option" where
  "followed_mark i s = map_option (\<lambda>f. max (ft_lastMessageId f) (ft_lastReadId f)) (jm_get (ts_followed s) i)"

interpretation thn: watermark_counter "\<lambda>k s. fst (noteFollowedActivity i k s)"
  "\<lambda>s. isFollowed s i \<and> ts_focusedThreadId s \<noteq> Some i" "followed_unread i" "followed_mark i"
  for i
  by unfold_locales
    (auto simp: isFollowed_def noteFollowedActivity_def followed_unread_def followed_mark_def split: option.split)

text \<open>A hint is counted once: over any hints for a followed thread that is not open, the unread count
  grows by the number of messages that were newer than everything counted or read before them, so
  repeating the hints adds nothing.\<close>

theorem followed_hints_counted_once:
  assumes "isFollowed s i" and "ts_focusedThreadId s \<noteq> Some i"
  shows "followed_unread i (fold (\<lambda>k s. fst (noteFollowedActivity i k s)) (ks @ ks) s) =
    followed_unread i s + fresh_ids (followed_mark i s) ks"
  by (rule thn.counts_twice) (simp add: assms)

theorem followed_hints_counted_once_witness:
  "followed_unread 20 (fold (\<lambda>k s. fst (noteFollowedActivity 20 k s)) [5, 9, 7, 5, 9, 7]
      (tm_state (sample_followed (\<lambda>_. None)))) = 2"
proof -
  let ?s = "tm_state (sample_followed (\<lambda>_. None))"
  have "isFollowed ?s 20" "ts_focusedThreadId ?s \<noteq> Some 20" "followed_unread 20 ?s = 0" "followed_mark 20 ?s = Some 0"
    by (simp_all add: isFollowed_def followed_unread_def followed_mark_def sample_followed_state jm_get_Cons NO_COUNTS_def)
  with followed_hints_counted_once [of ?s 20 "[5, 9, 7]"] show ?thesis by simp
qed

end
