(* ===== verification/Threads_Loader.thy ===== *)
theory Threads_Loader
  imports Threads_Store
begin

text \<open>
  \<open>stores/threadsLoader.ts\<close> and \<open>features/messaging/threadFrames.ts\<close>: the threads store is a chunk
  that loads on first need, and the frame handlers hand their work to \<open>withThreadsStore\<close>, which queues it
  until the chunk is there. The abstract specification is a store that is there from the start and
  does each piece of work at once; the loader refines it.
\<close>

subsection \<open>The loader\<close>

text \<open>The store's module exists once the chunk has loaded; until then it stands at its initial state.\<close>

record threads_loader =
  tl_loaded :: bool
  tl_queue :: "threads_action list"
  tl_importing :: bool
  tl_module :: threads_module

definition loader_init :: threads_loader where
  "loader_init = \<lparr>tl_loaded = False, tl_queue = [], tl_importing = False, tl_module = threads_init\<rparr>"

definition withThreadsStore :: "date_parse \<Rightarrow> threads_action \<Rightarrow> threads_loader \<Rightarrow> threads_loader" where
  "withThreadsStore parse run l = (
     if tl_loaded l then l\<lparr>tl_module := threads_apply parse run (tl_module l)\<rparr>
     else let l1 = l\<lparr>tl_queue := tl_queue l @ [run]\<rparr>
       in if tl_importing l1 then l1 else l1\<lparr>tl_importing := True\<rparr>)"

definition importDone :: "date_parse \<Rightarrow> threads_loader \<Rightarrow> threads_loader" where
  "importDone parse l = (
     if tl_loaded l \<or> \<not> tl_importing l then l
     else l\<lparr>tl_loaded := True, tl_queue := [],
            tl_module := fold (threads_apply parse) (tl_queue l) (tl_module l)\<rparr>)"

definition importFailed :: "threads_loader \<Rightarrow> threads_loader" where
  "importFailed l = (if tl_loaded l \<or> \<not> tl_importing l then l else l\<lparr>tl_importing := False\<rparr>)"

text \<open>A session reset runs the loader's hook and, once the store is loaded, the store's own.\<close>

definition loaderReset :: "date_parse \<Rightarrow> threads_loader \<Rightarrow> threads_loader" where
  "loaderReset parse l = (
     let l1 = l\<lparr>tl_queue := []\<rparr>
     in if tl_loaded l1 then l1\<lparr>tl_module := threads_apply parse Reset_threads (tl_module l1)\<rparr> else l1)"

definition threadsStoreInUse :: "threads_loader \<Rightarrow> bool" where
  "threadsStoreInUse l \<longleftrightarrow> tl_loaded l \<or> tl_importing l \<or> tl_queue l \<noteq> []"

definition adoptStarterThreads :: "date_parse \<Rightarrow> thread_info option list \<Rightarrow> threads_loader \<Rightarrow> threads_loader" where
  "adoptStarterThreads parse threads l = (
     let found = List.map_filter id threads
     in if found = [] then l else withThreadsStore parse (Adopt_snapshots found) l)"

subsection \<open>Frame handlers\<close>

definition handleThreadState :: "date_parse \<Rightarrow> thread_info option \<Rightarrow> threads_loader \<Rightarrow> threads_loader" where
  "handleThreadState parse thread l = (case thread of
     None \<Rightarrow> l | Some t \<Rightarrow> withThreadsStore parse (Upsert_thread t) l)"

definition handleThreadDeleted :: "date_parse \<Rightarrow> int \<Rightarrow> threads_loader \<Rightarrow> threads_loader" where
  "handleThreadDeleted parse thread_id l = withThreadsStore parse (Remove_thread thread_id) l"

definition handleThreadFollow :: "date_parse \<Rightarrow> int \<Rightarrow> bool \<Rightarrow> thread_info option \<Rightarrow> threads_loader \<Rightarrow> threads_loader" where
  "handleThreadFollow parse thread_id following thread l =
     withThreadsStore parse (Follow_update thread_id following thread) l"

definition applyReadyThreads :: "date_parse \<Rightarrow> ready_thread list option \<Rightarrow> threads_loader \<Rightarrow> threads_loader" where
  "applyReadyThreads parse threads l = (
     let entries = nullish threads []
     in if entries = [] \<and> \<not> threadsStoreInUse l then l else withThreadsStore parse (Adopt_ready entries) l)"

subsection \<open>The specification and the refinement\<close>

datatype loader_event =
    Thread_state "thread_info option"
  | Thread_deleted int
  | Thread_follow int bool "thread_info option"
  | Ready_threads "ready_thread list option"
  | Starter_rows "thread_info option list"
  | Store_work threads_action
  | Import_done
  | Import_failed
  | Session_reset

fun loader_apply :: "date_parse \<Rightarrow> loader_event \<Rightarrow> threads_loader \<Rightarrow> threads_loader" where
  "loader_apply parse (Thread_state t) l = handleThreadState parse t l"
| "loader_apply parse (Thread_deleted i) l = handleThreadDeleted parse i l"
| "loader_apply parse (Thread_follow i following t) l = handleThreadFollow parse i following t l"
| "loader_apply parse (Ready_threads entries) l = applyReadyThreads parse entries l"
| "loader_apply parse (Starter_rows threads) l = adoptStarterThreads parse threads l"
| "loader_apply parse (Store_work a) l = withThreadsStore parse a l"
| "loader_apply parse Import_done l = importDone parse l"
| "loader_apply parse Import_failed l = importFailed l"
| "loader_apply parse Session_reset l = loaderReset parse l"

text \<open>The store as its clients imagine it: each frame acts at once.\<close>

fun eager :: "date_parse \<Rightarrow> loader_event \<Rightarrow> threads_module \<Rightarrow> threads_module" where
  "eager parse (Thread_state t) m = (case t of None \<Rightarrow> m | Some info \<Rightarrow> threads_apply parse (Upsert_thread info) m)"
| "eager parse (Thread_deleted i) m = threads_apply parse (Remove_thread i) m"
| "eager parse (Thread_follow i following t) m = threads_apply parse (Follow_update i following t) m"
| "eager parse (Ready_threads entries) m = threads_apply parse (Adopt_ready (nullish entries [])) m"
| "eager parse (Starter_rows threads) m = (let found = List.map_filter id threads
     in if found = [] then m else threads_apply parse (Adopt_snapshots found) m)"
| "eager parse (Store_work a) m = threads_apply parse a m"
| "eager parse Session_reset m = threads_init"
| "eager parse _ m = m"

definition loader_abs :: "date_parse \<Rightarrow> threads_loader \<Rightarrow> threads_module" where
  "loader_abs parse l = fold (threads_apply parse) (tl_queue l) (tl_module l)"

definition loader_ok :: "threads_loader \<Rightarrow> bool" where
  "loader_ok l \<longleftrightarrow> (if tl_loaded l then tl_queue l = [] else tl_module l = threads_init)"

lemma withThreadsStore_abs:
  "loader_ok l \<Longrightarrow> loader_ok (withThreadsStore parse a l) \<and>
     loader_abs parse (withThreadsStore parse a l) = threads_apply parse a (loader_abs parse l)"
  by (simp add: loader_ok_def loader_abs_def withThreadsStore_def Let_def)

lemma reset_is_init: "threads_apply parse Reset_threads m = threads_init"
  by (cases "tm_view m")
    (auto simp: threads_apply_def commit_def resetThreadsStore_def threads_init_def publishFollowedThreads_def
      sameView_def followedRows_def THREADS_INITIAL_def FOLLOWED_EMPTY_def Let_def)

lemma ready_nothing: "threads_apply parse (Adopt_ready []) threads_init = threads_init"
  by (simp add: threads_apply_def commit_def adoptReadyThreads_def threads_init_def publishFollowedThreads_def
      sameView_def followedRows_def THREADS_INITIAL_def FOLLOWED_EMPTY_def Let_def)

lemma loader_step_refines:
  assumes "loader_ok l"
  shows "loader_ok (loader_apply parse e l) \<and> loader_abs parse (loader_apply parse e l) = eager parse e (loader_abs parse l)"
proof (cases e)
  case (Ready_threads entries)
  show ?thesis
  proof (cases "nullish entries [] = [] \<and> \<not> threadsStoreInUse l")
    case True
    with assms have "loader_abs parse l = threads_init"
      by (simp add: loader_abs_def loader_ok_def threadsStoreInUse_def)
    with True assms Ready_threads show ?thesis by (simp add: applyReadyThreads_def Let_def ready_nothing)
  next
    case False
    then show ?thesis
      using withThreadsStore_abs [OF assms] Ready_threads by (auto simp: applyReadyThreads_def Let_def)
  qed
next
  case Session_reset
  with assms show ?thesis
    by (simp add: loaderReset_def loader_ok_def loader_abs_def Let_def reset_is_init)
next
  case (Starter_rows threads)
  with withThreadsStore_abs [OF assms] assms show ?thesis by (simp add: adoptStarterThreads_def Let_def)
qed (use assms withThreadsStore_abs [OF assms] in \<open>auto simp: handleThreadState_def handleThreadDeleted_def
      handleThreadFollow_def importDone_def importFailed_def loader_ok_def loader_abs_def split: option.split\<close>)

text \<open>C12: Loading the threads store late makes no difference. Over any frames, rows, session resets,
  finished and failed imports, the state of the store with the queued work done is the state of a store
  that did each piece of work as it came, and once the chunk is loaded nothing is queued.\<close>

theorem lazy_store_refines:
  "let l = fold (loader_apply parse) events loader_init in
     fold (threads_apply parse) (tl_queue l) (tl_module l) = fold (eager parse) events threads_init \<and>
     (if tl_loaded l then tl_queue l = [] else tl_module l = threads_init)"
proof -
  have "loader_ok (fold (loader_apply parse) events l) \<and>
      loader_abs parse (fold (loader_apply parse) events l) = fold (eager parse) events (loader_abs parse l)"
    if "loader_ok l" for l
    using that loader_step_refines by (induction events arbitrary: l) simp_all
  from this [of loader_init] show ?thesis
    by (simp add: loader_ok_def loader_abs_def loader_init_def Let_def)
qed

end
