(* ===== verification/Members_Store.thy ===== *)
theory Members_Store
  imports Prelude
begin

text \<open>
  \<open>stores/members.store.ts\<close>: the members of the server, their presence, and who is typing where, with
  the timers that end a typing mark. A timer is kept under the text \<open>channel:user\<close>, as in the code, with
  the time at which it is due. Two option layers tell an absent field (outer \<open>None\<close>) from null.

  The lemmas show that a typing mark and its timer come and go together, what a batch of presence
  entries leaves, and that the revision counters move with every change of identity.
\<close>

subsection \<open>Wire types\<close>

datatype user_status = Online | Idle | Dnd | Invisible | Offline

record game_activity =
  ga_name :: string
  ga_started_at :: int

record listening_activity =
  la_title :: string
  la_artist :: string
  la_player :: string
  la_started_at :: int
  la_duration_ms :: int

record ready_member =
  rm_id :: int
  rm_username :: string
  rm_avatar :: "string option"
  rm_role :: string
  rm_role_ids :: "int list option"
  rm_status :: user_status
  rm_mobile :: "bool option"
  rm_display_name :: "string option"
  rm_custom_status :: "string option"
  rm_about :: "string option option"
  rm_banner :: "string option option"
  rm_banner_color :: "string option option"
  rm_created_at :: "string option"
  rm_identity_public_key :: "string option"

text \<open>\<open>member_join\<close>: the user of the payload, without a presence of its own, and the optional status.\<close>

record member_join =
  mj_id :: int
  mj_username :: string
  mj_avatar :: "string option"
  mj_role :: string
  mj_role_ids :: "int list option"
  mj_display_name :: "string option"
  mj_about :: "string option option"
  mj_banner :: "string option option"
  mj_banner_color :: "string option option"
  mj_created_at :: "string option"
  mj_identity_public_key :: "string option"
  mj_status :: "user_status option"

record presence_entry =
  pe_user_id :: int
  pe_status :: user_status
  pe_custom_status :: "string option"
  pe_activity :: "game_activity option option"
  pe_listening :: "listening_activity option option"
  pe_mobile :: "bool option"

subsection \<open>State\<close>

record member_activity =
  ma_name :: string
  ma_startedAt :: int

record member_listening =
  ml_title :: string
  ml_artist :: string
  ml_player :: string
  ml_startedAt :: int
  ml_durationMs :: int

record member =
  me_id :: int
  me_username :: string
  me_avatar :: "string option"
  me_role :: string
  me_roleIds :: "int list option"
  me_status :: user_status
  me_mobile :: "bool option"
  me_displayName :: "string option"
  me_customStatus :: "string option"
  me_customStatusExpiresAt :: "string option option"
  me_activity :: "member_activity option option"
  me_listening :: "member_listening option option"
  me_about :: "string option option"
  me_banner :: "string option option"
  me_banner_color :: "string option option"
  me_createdAt :: "string option"
  me_identityPublicKey :: "string option"

record members_state =
  ms_members :: "(int, member) jmap"
  ms_typingUsers :: "(int, int jset) jmap"
  ms_roleRevision :: int
  ms_snapshotRevision :: int

definition MEMBERS_INITIAL_STATE :: members_state where
  "MEMBERS_INITIAL_STATE = \<lparr>ms_members = [], ms_typingUsers = [], ms_roleRevision = 0, ms_snapshotRevision = 0\<rparr>"

record members_module =
  mb_state :: members_state
  mb_typingTimers :: "(string, int) jmap"

definition members_init :: members_module where
  "members_init = \<lparr>mb_state = MEMBERS_INITIAL_STATE, mb_typingTimers = []\<rparr>"

definition toMemberActivity :: "game_activity option \<Rightarrow> member_activity option" where
  "toMemberActivity raw = (case raw of
     None \<Rightarrow> None
   | Some g \<Rightarrow> if trim (ga_name g) = '''' then None else Some \<lparr>ma_name = ga_name g, ma_startedAt = ga_started_at g\<rparr>)"

definition toMemberListening :: "listening_activity option \<Rightarrow> member_listening option" where
  "toMemberListening raw = (case raw of
     None \<Rightarrow> None
   | Some l \<Rightarrow>
       if trim (la_title l) = '''' \<or> trim (la_player l) = '''' then None
       else Some \<lparr>ml_title = la_title l, ml_artist = la_artist l, ml_player = la_player l,
              ml_startedAt = la_started_at l, ml_durationMs = (if la_duration_ms l > 0 then la_duration_ms l else 0)\<rparr>)"

subsection \<open>The roster\<close>

definition readyMember :: "ready_member \<Rightarrow> member" where
  "readyMember m = \<lparr>me_id = rm_id m, me_username = rm_username m, me_avatar = rm_avatar m, me_role = rm_role m,
     me_roleIds = rm_role_ids m, me_status = rm_status m,
     me_mobile = (if rm_mobile m = Some True then Some True else None), me_displayName = rm_display_name m,
     me_customStatus = rm_custom_status m, me_customStatusExpiresAt = None, me_activity = None, me_listening = None,
     me_about = rm_about m, me_banner = rm_banner m, me_banner_color = rm_banner_color m,
     me_createdAt = rm_created_at m, me_identityPublicKey = rm_identity_public_key m\<rparr>"

definition setMembers :: "ready_member list \<Rightarrow> members_module \<Rightarrow> members_module" where
  "setMembers members md = (
     let roster = fold (\<lambda>m acc. jm_set acc (rm_id m) (readyMember m)) members [];
         prev = mb_state md
     in \<lparr>mb_state = \<lparr>ms_members = roster, ms_typingUsers = [], ms_roleRevision = ms_roleRevision prev + 1,
           ms_snapshotRevision = ms_snapshotRevision prev + 1\<rparr>, mb_typingTimers = []\<rparr>)"

definition keepActivity :: "member option \<Rightarrow> member \<Rightarrow> member" where
  "keepActivity existing m = m\<lparr>me_activity := Option.bind existing me_activity,
     me_listening := Option.bind existing me_listening\<rparr>"

definition joinedMember :: "member option \<Rightarrow> member_join \<Rightarrow> member" where
  "joinedMember existing p = keepActivity existing \<lparr>me_id = mj_id p, me_username = mj_username p,
     me_avatar = mj_avatar p, me_role = mj_role p, me_roleIds = mj_role_ids p,
     me_status = nullish (mj_status p) Offline,
     me_mobile = (if Option.bind existing me_mobile = Some True then Some True else None),
     me_displayName = mj_display_name p, me_customStatus = Option.bind existing me_customStatus,
     me_customStatusExpiresAt = None, me_activity = None, me_listening = None, me_about = mj_about p,
     me_banner = mj_banner p, me_banner_color = mj_banner_color p, me_createdAt = mj_created_at p,
     me_identityPublicKey = mj_identity_public_key p\<rparr>"

definition addMember :: "member_join \<Rightarrow> members_state \<Rightarrow> members_state" where
  "addMember p prev = prev\<lparr>ms_members := jm_set (ms_members prev) (mj_id p)
       (joinedMember (jm_get (ms_members prev) (mj_id p)) p),
     ms_roleRevision := ms_roleRevision prev + 1\<rparr>"

definition removeMember :: "int \<Rightarrow> members_state \<Rightarrow> members_state" where
  "removeMember userId prev = prev\<lparr>ms_members := jm_delete (ms_members prev) userId,
     ms_roleRevision := ms_roleRevision prev + 1\<rparr>"

record member_role_update =
  mu_userId :: int
  mu_role :: string
  mu_roleIds :: "int list option"

text \<open>The loop keeps \<open>None\<close> until it meets a member it knows.\<close>

definition roleStep :: "(int, member) jmap \<Rightarrow> member_role_update \<Rightarrow> (int, member) jmap option \<Rightarrow> (int, member) jmap option" where
  "roleStep members u acc = (case jm_get (nullish acc members) (mu_userId u) of
     None \<Rightarrow> acc
   | Some existing \<Rightarrow> Some (jm_set (nullish acc members) (mu_userId u)
       (existing\<lparr>me_role := mu_role u, me_roleIds := mu_roleIds u\<rparr>)))"

definition updateMemberRoles :: "member_role_update list \<Rightarrow> members_state \<Rightarrow> members_state" where
  "updateMemberRoles updates prev = (case fold (roleStep (ms_members prev)) updates None of
     None \<Rightarrow> prev
   | Some members \<Rightarrow> prev\<lparr>ms_members := members, ms_roleRevision := ms_roleRevision prev + 1\<rparr>)"

definition updateMemberRole :: "int \<Rightarrow> string \<Rightarrow> int list option \<Rightarrow> members_state \<Rightarrow> members_state" where
  "updateMemberRole userId role roleIds prev =
     updateMemberRoles [\<lparr>mu_userId = userId, mu_role = role, mu_roleIds = roleIds\<rparr>] prev"

record member_profile_patch =
  mp_username :: string
  mp_avatar :: "string option"
  mp_displayName :: "string option option"
  mp_identityPublicKey :: "string option option"
  mp_about :: "string option option"
  mp_banner :: "string option option"
  mp_banner_color :: "string option option"

definition updateMemberProfile :: "int \<Rightarrow> member_profile_patch \<Rightarrow> members_state \<Rightarrow> members_state" where
  "updateMemberProfile userId patch prev = (case jm_get (ms_members prev) userId of
     None \<Rightarrow> prev
   | Some existing \<Rightarrow> prev\<lparr>ms_members := jm_set (ms_members prev) userId (existing\<lparr>
         me_username := mp_username patch, me_avatar := mp_avatar patch,
         me_displayName := nullish (mp_displayName patch) (me_displayName existing),
         me_identityPublicKey := nullish (mp_identityPublicKey patch) (me_identityPublicKey existing),
         me_about := alt (mp_about patch) (me_about existing),
         me_banner := alt (mp_banner patch) (me_banner existing),
         me_banner_color := alt (mp_banner_color patch) (me_banner_color existing)\<rparr>),
       ms_roleRevision := ms_roleRevision prev + 1\<rparr>)"

subsection \<open>Presence\<close>

text \<open>The field \<open>nextCustomStatusExpiry\<close> contributes to the new row.\<close>

definition nextCustomStatusExpiry :: "member \<Rightarrow> string option option \<Rightarrow> string option option \<Rightarrow> string option option" where
  "nextCustomStatusExpiry existing customStatus provided = (
     if provided \<noteq> None then provided
     else case customStatus of
       None \<Rightarrow> me_customStatusExpiresAt existing
     | Some c \<Rightarrow>
         let same = (nullish (me_customStatus existing) '''' = nullish c '''')
         in if same \<or> me_customStatusExpiresAt existing = None then me_customStatusExpiresAt existing
            else Some None)"

record presence_update =
  pu_status :: user_status
  pu_customStatus :: "string option option"
  pu_customStatusExpiresAt :: "string option option"
  pu_activity :: "game_activity option option"
  pu_listening :: "listening_activity option option"
  pu_mobile :: "bool option"

definition updatePresence :: "int \<Rightarrow> presence_update \<Rightarrow> members_state \<Rightarrow> members_state" where
  "updatePresence userId u prev = (case jm_get (ms_members prev) userId of
     None \<Rightarrow> prev
   | Some existing \<Rightarrow> prev\<lparr>ms_members := jm_set (ms_members prev) userId (existing\<lparr>
         me_status := pu_status u,
         me_mobile := alt (pu_mobile u) (me_mobile existing),
         me_customStatus := nullish (pu_customStatus u) (me_customStatus existing),
         me_customStatusExpiresAt := nextCustomStatusExpiry existing (pu_customStatus u) (pu_customStatusExpiresAt u),
         me_activity := (case pu_activity u of None \<Rightarrow> me_activity existing | Some a \<Rightarrow> Some (toMemberActivity a)),
         me_listening := (case pu_listening u of None \<Rightarrow> me_listening existing | Some l \<Rightarrow> Some (toMemberListening l))\<rparr>)\<rparr>)"

definition batchOffline :: "member \<Rightarrow> member" where
  "batchOffline m = m\<lparr>me_status := Offline, me_mobile := Some False, me_customStatus := None,
     me_activity := Some None, me_listening := Some None\<rparr>"

definition batchEntry :: "presence_entry \<Rightarrow> member \<Rightarrow> member" where
  "batchEntry u existing = existing\<lparr>me_status := pe_status u, me_mobile := Some (pe_mobile u = Some True),
     me_customStatus := pe_custom_status u,
     me_customStatusExpiresAt := nextCustomStatusExpiry existing (Some (pe_custom_status u)) None,
     me_activity := (case pe_activity u of None \<Rightarrow> me_activity existing | Some a \<Rightarrow> Some (toMemberActivity a)),
     me_listening := (case pe_listening u of None \<Rightarrow> me_listening existing | Some l \<Rightarrow> Some (toMemberListening l))\<rparr>"

definition batchStep :: "presence_entry \<Rightarrow> (int, member) jmap \<Rightarrow> (int, member) jmap" where
  "batchStep u members = (case jm_get members (pe_user_id u) of
     None \<Rightarrow> members | Some existing \<Rightarrow> jm_set members (pe_user_id u) (batchEntry u existing))"

text \<open>\<open>for (const [id, m] of next) next.set(id, f(m))\<close> keeps the keys and their order.\<close>

definition map_members :: "(int \<Rightarrow> member \<Rightarrow> member) \<Rightarrow> (int, member) jmap \<Rightarrow> (int, member) jmap" where
  "map_members f m = map (\<lambda>(i, x). (i, f i x)) m"

definition applyPresenceBatch :: "presence_entry list \<Rightarrow> bool \<Rightarrow> members_state \<Rightarrow> members_state" where
  "applyPresenceBatch updates full prev = (
     let listed = js_of_list (map pe_user_id updates);
         start = (if full then map_members (\<lambda>i m. if \<not> js_has listed i then batchOffline m else m) (ms_members prev)
                  else ms_members prev)
     in prev\<lparr>ms_members := fold batchStep updates start\<rparr>)"

definition applyReadyActivities :: "(int \<times> game_activity) list \<Rightarrow> members_state \<Rightarrow> members_state" where
  "applyReadyActivities activities prev = (
     let byUser = fold (\<lambda>(user, a) acc. case toMemberActivity (Some a) of
           None \<Rightarrow> acc | Some activity \<Rightarrow> jm_set acc user activity) activities []
     in prev\<lparr>ms_members := map_members (\<lambda>i m.
          let activity = jm_get byUser i; current = nullish (me_activity m) None
          in if current = activity \<and> me_activity m \<noteq> None then m else m\<lparr>me_activity := Some activity\<rparr>)
          (ms_members prev)\<rparr>)"

definition applyReadyListening :: "(int \<times> listening_activity) list \<Rightarrow> members_state \<Rightarrow> members_state" where
  "applyReadyListening songs prev = (
     let byUser = fold (\<lambda>(user, l) acc. case toMemberListening (Some l) of
           None \<Rightarrow> acc | Some listening \<Rightarrow> jm_set acc user listening) songs []
     in prev\<lparr>ms_members := map_members (\<lambda>i m.
          if me_listening m = Some (jm_get byUser i) then m else m\<lparr>me_listening := Some (jm_get byUser i)\<rparr>)
          (ms_members prev)\<rparr>)"

definition memberDisplayName :: "member \<Rightarrow> string" where
  "memberDisplayName m = (case me_displayName m of
     None \<Rightarrow> me_username m | Some d \<Rightarrow> if trim d \<noteq> '''' then d else me_username m)"

subsection \<open>Typing\<close>

definition typingKey :: "int \<Rightarrow> int \<Rightarrow> string" where
  "typingKey channelId userId = show_int channelId @ '':'' @ show_int userId"

definition TYPING_CLEAR_MS :: int where "TYPING_CLEAR_MS = 5000"

definition setTyping :: "int \<Rightarrow> int \<Rightarrow> int \<Rightarrow> members_module \<Rightarrow> members_module" where
  "setTyping channelId userId now md = (
     let prev = mb_state md;
         nextSet = js_add (nullish (jm_get (ms_typingUsers prev) channelId) []) userId
     in \<lparr>mb_state = prev\<lparr>ms_typingUsers := jm_set (ms_typingUsers prev) channelId nextSet\<rparr>,
         mb_typingTimers = jm_set (mb_typingTimers md) (typingKey channelId userId) (now + TYPING_CLEAR_MS)\<rparr>)"

definition clearTypingUsers :: "int \<Rightarrow> int \<Rightarrow> members_state \<Rightarrow> members_state" where
  "clearTypingUsers channelId userId prev = (case jm_get (ms_typingUsers prev) channelId of
     None \<Rightarrow> prev
   | Some channelSet \<Rightarrow>
       if \<not> js_has channelSet userId then prev
       else let nextSet = js_delete channelSet userId
         in prev\<lparr>ms_typingUsers := (if nextSet = [] then jm_delete (ms_typingUsers prev) channelId
              else jm_set (ms_typingUsers prev) channelId nextSet)\<rparr>)"

definition clearTyping :: "int \<Rightarrow> int \<Rightarrow> members_module \<Rightarrow> members_module" where
  "clearTyping channelId userId md =
     \<lparr>mb_state = clearTypingUsers channelId userId (mb_state md),
      mb_typingTimers = jm_delete (mb_typingTimers md) (typingKey channelId userId)\<rparr>"

text \<open>The timer's callback, when it is due.\<close>

definition typingTimerFires :: "int \<Rightarrow> int \<Rightarrow> int \<Rightarrow> members_module \<Rightarrow> members_module" where
  "typingTimerFires channelId userId now md = (case jm_get (mb_typingTimers md) (typingKey channelId userId) of
     None \<Rightarrow> md
   | Some due \<Rightarrow>
       if now < due then md
       else clearTyping channelId userId
              (md\<lparr>mb_typingTimers := jm_delete (mb_typingTimers md) (typingKey channelId userId)\<rparr>))"

subsection \<open>Selectors and reset\<close>

definition getOnlineMembers :: "members_state \<Rightarrow> member list" where
  "getOnlineMembers s = filter (\<lambda>m. me_status m \<noteq> Offline \<and> me_status m \<noteq> Invisible) (jm_values (ms_members s))"

definition getTypingUsers :: "members_state \<Rightarrow> int \<Rightarrow> member list" where
  "getTypingUsers s channelId = (case jm_get (ms_typingUsers s) channelId of
     None \<Rightarrow> [] | Some userIds \<Rightarrow> List.map_filter (jm_get (ms_members s)) userIds)"

definition resetMembersStore :: "members_module \<Rightarrow> members_module" where
  "resetMembersStore md = \<lparr>mb_state = MEMBERS_INITIAL_STATE\<lparr>ms_roleRevision := ms_roleRevision (mb_state md) + 1,
     ms_snapshotRevision := ms_snapshotRevision (mb_state md) + 1\<rparr>, mb_typingTimers = []\<rparr>"

subsection \<open>Actions\<close>

datatype members_action =
    Set_members "ready_member list"
  | Add_member member_join
  | Remove_member int
  | Update_roles "member_role_update list"
  | Update_profile int member_profile_patch
  | Update_presence int presence_update
  | Presence_batch "presence_entry list" bool
  | Ready_activities "(int \<times> game_activity) list"
  | Ready_listening "(int \<times> listening_activity) list"
  | Set_typing int int int
  | Clear_typing int int
  | Typing_timer int int int
  | Reset_members

fun members_apply :: "members_action \<Rightarrow> members_module \<Rightarrow> members_module" where
  "members_apply (Set_members members) md = setMembers members md"
| "members_apply (Add_member p) md = md\<lparr>mb_state := addMember p (mb_state md)\<rparr>"
| "members_apply (Remove_member userId) md = md\<lparr>mb_state := removeMember userId (mb_state md)\<rparr>"
| "members_apply (Update_roles updates) md = md\<lparr>mb_state := updateMemberRoles updates (mb_state md)\<rparr>"
| "members_apply (Update_profile userId patch) md = md\<lparr>mb_state := updateMemberProfile userId patch (mb_state md)\<rparr>"
| "members_apply (Update_presence userId u) md = md\<lparr>mb_state := updatePresence userId u (mb_state md)\<rparr>"
| "members_apply (Presence_batch updates full) md = md\<lparr>mb_state := applyPresenceBatch updates full (mb_state md)\<rparr>"
| "members_apply (Ready_activities activities) md = md\<lparr>mb_state := applyReadyActivities activities (mb_state md)\<rparr>"
| "members_apply (Ready_listening songs) md = md\<lparr>mb_state := applyReadyListening songs (mb_state md)\<rparr>"
| "members_apply (Set_typing channelId userId now) md = setTyping channelId userId now md"
| "members_apply (Clear_typing channelId userId) md = clearTyping channelId userId md"
| "members_apply (Typing_timer channelId userId now) md = typingTimerFires channelId userId now md"
| "members_apply Reset_members md = resetMembersStore md"

inductive members_step :: "members_module \<Rightarrow> members_action \<Rightarrow> members_module \<Rightarrow> bool" where
  members_step_intro: "members_step md a (members_apply a md)"

inductive_simps members_step_iff [simp]: "members_step md a md'"

subsection \<open>Typing marks and timers\<close>

lemma typingKey_inj: "typingKey c u = typingKey c' u' \<longleftrightarrow> c = c' \<and> u = u'"
proof
  have no_colon: "CHR '':'' \<notin> set (show_int i)" for i using show_int_chars [of "CHR '':''" i] by auto
  assume "typingKey c u = typingKey c' u'"
  then have eq: "show_int c @ CHR '':'' # show_int u = show_int c' @ CHR '':'' # show_int u'" by (simp add: typingKey_def)
  then have "takeWhile (\<lambda>x. x \<noteq> CHR '':'') (show_int c @ CHR '':'' # show_int u) =
      takeWhile (\<lambda>x. x \<noteq> CHR '':'') (show_int c' @ CHR '':'' # show_int u')" by simp
  moreover have "takeWhile (\<lambda>x. x \<noteq> CHR '':'') (show_int i @ CHR '':'' # s) = show_int i" for i s
    using no_colon by (subst takeWhile_append2) auto
  ultimately have "show_int c = show_int c'" by simp
  with eq show "c = c' \<and> u = u'" by (auto dest: show_int_inj)
qed simp

definition typing :: "members_module \<Rightarrow> int \<Rightarrow> int \<Rightarrow> bool" where
  "typing md c u \<longleftrightarrow> js_has (nullish (jm_get (ms_typingUsers (mb_state md)) c) []) u"

definition typingDue :: "members_module \<Rightarrow> int \<Rightarrow> int \<Rightarrow> int option" where
  "typingDue md c u = jm_get (mb_typingTimers md) (typingKey c u)"

definition typing_ok :: "members_module \<Rightarrow> bool" where
  "typing_ok md \<longleftrightarrow> (\<forall>c u. typing md c u \<longleftrightarrow> typingDue md c u \<noteq> None)"

lemma typing_setTyping:
  "typing (setTyping c u now md) c' u' \<longleftrightarrow> (c' = c \<and> u' = u) \<or> typing md c' u'"
  "typingDue (setTyping c u now md) c' u' = (if c' = c \<and> u' = u then Some (now + TYPING_CLEAR_MS) else typingDue md c' u')"
  by (auto simp: typing_def typingDue_def setTyping_def typingKey_inj Let_def)

lemma typing_clearTyping:
  "typing (clearTyping c u md) c' u' \<longleftrightarrow> \<not> (c' = c \<and> u' = u) \<and> typing md c' u'"
  "typingDue (clearTyping c u md) c' u' = (if c' = c \<and> u' = u then None else typingDue md c' u')"
proof -
  show "typing (clearTyping c u md) c' u' \<longleftrightarrow> \<not> (c' = c \<and> u' = u) \<and> typing md c' u'"
  proof (cases "jm_get (ms_typingUsers (mb_state md)) c")
    case None
    then show ?thesis by (auto simp: typing_def clearTyping_def clearTypingUsers_def)
  next
    case (Some marks)
    have "js_has (js_delete marks u) u' \<longleftrightarrow> u' \<noteq> u \<and> js_has marks u'" by simp
    moreover have "\<not> js_has (js_delete marks u) u'" if "js_delete marks u = []" using that by (metis js_has_Nil)
    ultimately show ?thesis
      by (cases "js_has marks u"; cases "js_delete marks u = []"; cases "c' = c")
        (use Some in \<open>auto simp: typing_def clearTyping_def clearTypingUsers_def simp del: js_simps\<close>)
  qed
  show "typingDue (clearTyping c u md) c' u' = (if c' = c \<and> u' = u then None else typingDue md c' u')"
    by (simp add: typingDue_def clearTyping_def typingKey_inj)
qed

lemma typing_fires:
  "typingTimerFires c u now md = (case typingDue md c u of
     None \<Rightarrow> md | Some due \<Rightarrow> if now < due then md else clearTyping c u md)"
  by (cases md) (auto simp: typingTimerFires_def typingDue_def clearTyping_def split: option.split)

lemma typing_state_only:
  "ms_typingUsers s = ms_typingUsers (mb_state md) \<Longrightarrow> typing (md\<lparr>mb_state := s\<rparr>) c u = typing md c u"
  "typingDue (md\<lparr>mb_state := s\<rparr>) c u = typingDue md c u"
  by (simp_all add: typing_def typingDue_def)

lemma roster_ops_typing [simp]:
  "ms_typingUsers (addMember p s) = ms_typingUsers s"
  "ms_typingUsers (removeMember u s) = ms_typingUsers s"
  "ms_typingUsers (updateMemberRoles us s) = ms_typingUsers s"
  "ms_typingUsers (updateMemberProfile u patch s) = ms_typingUsers s"
  "ms_typingUsers (updatePresence u up s) = ms_typingUsers s"
  "ms_typingUsers (applyPresenceBatch es full s) = ms_typingUsers s"
  "ms_typingUsers (applyReadyActivities as s) = ms_typingUsers s"
  "ms_typingUsers (applyReadyListening ls s) = ms_typingUsers s"
  by (simp_all add: addMember_def removeMember_def updateMemberRoles_def updateMemberProfile_def updatePresence_def
      applyPresenceBatch_def applyReadyActivities_def applyReadyListening_def Let_def split: option.split)

lemma members_apply_typing:
  "typing (members_apply a md) c u = (case a of
     Set_members _ \<Rightarrow> False
   | Reset_members \<Rightarrow> False
   | Set_typing c' u' _ \<Rightarrow> (c = c' \<and> u = u') \<or> typing md c u
   | Clear_typing c' u' \<Rightarrow> \<not> (c = c' \<and> u = u') \<and> typing md c u
   | Typing_timer c' u' now \<Rightarrow>
       (case typingDue md c' u' of Some due \<Rightarrow> due \<le> now \<longrightarrow> \<not> (c = c' \<and> u = u') | None \<Rightarrow> True) \<and> typing md c u
   | _ \<Rightarrow> typing md c u)"
  by (cases a) (auto simp: typing_setTyping typing_clearTyping typing_fires typing_state_only setMembers_def Let_def
      resetMembersStore_def MEMBERS_INITIAL_STATE_def split: option.split, (simp_all add: typing_def))

lemma members_apply_due:
  "typingDue (members_apply a md) c u = (case a of
     Set_members _ \<Rightarrow> None
   | Reset_members \<Rightarrow> None
   | Set_typing c' u' now \<Rightarrow> if c = c' \<and> u = u' then Some (now + TYPING_CLEAR_MS) else typingDue md c u
   | Clear_typing c' u' \<Rightarrow> if c = c' \<and> u = u' then None else typingDue md c u
   | Typing_timer c' u' now \<Rightarrow>
       if (c = c' \<and> u = u') \<and> (\<exists>due. typingDue md c u = Some due \<and> due \<le> now) then None else typingDue md c u
   | _ \<Rightarrow> typingDue md c u)"
  by (cases a) (auto simp: typing_setTyping typing_clearTyping typing_fires typing_state_only setMembers_def Let_def
      resetMembersStore_def split: option.split, (simp_all add: typingDue_def))

lemma members_apply_typing_ok: "typing_ok md \<Longrightarrow> typing_ok (members_apply a md)"
  unfolding typing_ok_def members_apply_typing members_apply_due
  by (cases a) (auto split: option.split)

interpretation mem: invariant_system members_step members_init typing_ok
proof
  show "typing_ok members_init"
    by (simp add: typing_ok_def typing_def typingDue_def members_init_def MEMBERS_INITIAL_STATE_def)
qed (simp add: members_apply_typing_ok)

text \<open>Every typing frame of a run arrived by the time \<open>bound\<close>.\<close>

fun typed_by :: "int \<Rightarrow> members_action \<Rightarrow> bool" where
  "typed_by bound (Set_typing c u now) = (now \<le> bound)"
| "typed_by bound a = True"

lemma typing_due_bound:
  assumes "runs members_step md as md'" and "list_all (typed_by bound) as"
    and "\<And>c u due. typingDue md c u = Some due \<Longrightarrow> due \<le> bound + TYPING_CLEAR_MS"
  shows "typingDue md' c u = Some due \<Longrightarrow> due \<le> bound + TYPING_CLEAR_MS"
  using assms
proof (induction arbitrary: c u due rule: runs.induct)
  case (runs_Cons s a t as w)
  have "due' \<le> bound + TYPING_CLEAR_MS" if "typingDue t c' u' = Some due'" for c' u' due'
  proof -
    have t: "t = members_apply a s" using runs_Cons.hyps(1) by simp
    show ?thesis
      using that runs_Cons.prems(2) runs_Cons.prems(3) [of c' u'] unfolding t members_apply_due
      by (cases a) (simp_all split: if_splits)
  qed
  with runs_Cons show ?case by simp
qed

text \<open>A typing mark never sticks. In every reachable state a member is marked as typing exactly while
  a timer for the mark runs; the timer is due within five seconds of the last typing frame, and when it
  fires the mark is gone, and no other one is.\<close>

theorem typing_mark_has_timer:
  assumes "runs members_step members_init as md" and "list_all (typed_by bound) as" and "bound + TYPING_CLEAR_MS \<le> now"
  shows "(typing md c u \<longleftrightarrow> typingDue md c u \<noteq> None) \<and>
    (typing (typingTimerFires c u now md) c' u' \<longleftrightarrow> typing md c' u' \<and> (c', u') \<noteq> (c, u))"
proof -
  have "typing_ok md" by (rule mem.reachable_inv [OF assms(1)])
  then have timer: "typing md c u \<longleftrightarrow> typingDue md c u \<noteq> None" by (simp add: typing_ok_def)
  have "due \<le> now" if "typingDue md c u = Some due" for due
    using typing_due_bound [OF assms(1,2) _ that] assms(3) by (auto simp: typingDue_def members_init_def)
  with timer show ?thesis by (auto simp: typing_fires typing_clearTyping split: option.split)
qed

lemma runs_members_fold: "runs members_step md as (fold members_apply as md)"
  by (induction as arbitrary: md) (auto intro: runs.intros)

theorem typing_mark_has_timer_witness:
  "typing (fold members_apply [Set_typing 3 9 100, Set_typing 3 8 200] members_init) 3 9 \<and>
   \<not> typing (typingTimerFires 3 9 5200 (fold members_apply [Set_typing 3 9 100, Set_typing 3 8 200] members_init)) 3 9 \<and>
   typing (typingTimerFires 3 9 5200 (fold members_apply [Set_typing 3 9 100, Set_typing 3 8 200] members_init)) 3 8"
proof -
  let ?as = "[Set_typing 3 9 100, Set_typing 3 8 200]"
  have hyps: "list_all (typed_by 200) ?as" "(200::int) + TYPING_CLEAR_MS \<le> 5200" by (simp_all add: TYPING_CLEAR_MS_def)
  have "typing (fold members_apply ?as members_init) 3 9" "typing (fold members_apply ?as members_init) 3 8"
    by (simp_all add: typing_setTyping)
  with typing_mark_has_timer [OF runs_members_fold hyps, of 3 9 3 8] typing_mark_has_timer [OF runs_members_fold hyps, of 3 9 3 9]
  show ?thesis by simp
qed

subsection \<open>Presence and identity\<close>

text \<open>What the list of members and the message rows draw of a member.\<close>

definition member_identity :: "member \<Rightarrow> int \<times> string \<times> string option \<times> string option \<times> string \<times> int list option" where
  "member_identity m = (me_id m, me_username m, me_displayName m, me_avatar m, me_role m, me_roleIds m)"

lemma identity_presence [simp]:
  "member_identity (batchOffline m) = member_identity m"
  "member_identity (batchEntry e m) = member_identity m"
  by (simp_all add: member_identity_def batchOffline_def batchEntry_def)

lemma jm_get_map_members: "jm_get (map_members f m) i = map_option (f i) (jm_get m i)"
  by (simp add: map_members_def jm_get_map_values)

lemma jm_get_batch:
  "jm_get (fold batchStep updates m) i = map_option (fold batchEntry (filter (\<lambda>e. pe_user_id e = i) updates)) (jm_get m i)"
  by (induction updates arbitrary: m) (auto simp: batchStep_def option.map_comp comp_def option.map_id
      split: option.split)

lemma fold_batchEntry:
  "es \<noteq> [] \<Longrightarrow> me_status (fold batchEntry es m) = pe_status (last es) \<and>
     me_customStatus (fold batchEntry es m) = pe_custom_status (last es) \<and>
     me_mobile (fold batchEntry es m) = Some (pe_mobile (last es) = Some True)"
  by (induction es arbitrary: m) (auto simp: batchEntry_def)

lemma fold_batchEntry_identity: "member_identity (fold batchEntry es m) = member_identity m"
  by (induction es arbitrary: m) simp_all

lemma applyPresenceBatch_get:
  "jm_get (ms_members (applyPresenceBatch updates full s)) i =
     map_option (\<lambda>m. fold batchEntry (filter (\<lambda>e. pe_user_id e = i) updates)
       (if full \<and> filter (\<lambda>e. pe_user_id e = i) updates = [] then batchOffline m else m)) (jm_get (ms_members s) i)"
proof -
  have "js_has (js_of_list (map pe_user_id updates)) i \<longleftrightarrow> filter (\<lambda>e. pe_user_id e = i) updates \<noteq> []"
    by (auto simp: filter_empty_conv)
  then show ?thesis
    by (cases full) (auto simp: applyPresenceBatch_def Let_def jm_get_batch jm_get_map_members
        option.map_comp comp_def intro!: option.map_cong)
qed

text \<open>A batch of presence entries updates known members only. A member it lists shows its last entry,
  and a member it leaves out is unchanged, or offline without text, game and song after a full snapshot;
  names, avatars and roles stay.\<close>

theorem presence_batch_exact:
  "let s' = applyPresenceBatch updates full s; mine = filter (\<lambda>e. pe_user_id e = i) updates in
     case jm_get (ms_members s) i of
       None \<Rightarrow> jm_get (ms_members s') i = None
     | Some m \<Rightarrow> (\<exists>m'. jm_get (ms_members s') i = Some m' \<and> member_identity m' = member_identity m \<and>
         (if mine = [] then m' = (if full then batchOffline m else m)
          else me_status m' = pe_status (last mine) \<and> me_customStatus m' = pe_custom_status (last mine) \<and>
            me_mobile m' = Some (pe_mobile (last mine) = Some True)))"
proof -
  define mine where "mine = filter (\<lambda>e. pe_user_id e = i) updates"
  show ?thesis using applyPresenceBatch_get [of updates full s i]
    by (cases "mine = []") (auto simp: Let_def mine_def [symmetric] fold_batchEntry fold_batchEntry_identity split: option.split)
qed

lemma identity_ops:
  "map_option member_identity (jm_get (ms_members (updatePresence u up s)) i) = map_option member_identity (jm_get (ms_members s) i)"
  "map_option member_identity (jm_get (ms_members (applyPresenceBatch es full s)) i) = map_option member_identity (jm_get (ms_members s) i)"
  "map_option member_identity (jm_get (ms_members (applyReadyActivities as s)) i) = map_option member_identity (jm_get (ms_members s) i)"
  "map_option member_identity (jm_get (ms_members (applyReadyListening ls s)) i) = map_option member_identity (jm_get (ms_members s) i)"
proof -
  show "map_option member_identity (jm_get (ms_members (applyPresenceBatch es full s)) i) = map_option member_identity (jm_get (ms_members s) i)"
    by (auto simp: applyPresenceBatch_def Let_def jm_get_batch jm_get_map_members option.map_comp comp_def
        fold_batchEntry_identity intro!: option.map_cong)
qed (auto simp: updatePresence_def applyReadyActivities_def applyReadyListening_def Let_def jm_get_map_members
    option.map_comp comp_def member_identity_def intro!: option.map_cong split: option.split)

text \<open>The revision covers identity: no action moves the revision back, and one that leaves it alone
  leaves every name, avatar and role alone, so a view that redraws on the revision shows no stale name.\<close>

theorem roleRevision_covers_identity:
  "let s = mb_state md; s' = mb_state (members_apply a md) in
     ms_roleRevision s \<le> ms_roleRevision s' \<and>
     (ms_roleRevision s' = ms_roleRevision s \<longrightarrow>
       (\<forall>i. map_option member_identity (jm_get (ms_members s') i) = map_option member_identity (jm_get (ms_members s) i)))"
proof -
  have typing: "ms_members (mb_state (setTyping c u now md)) = ms_members (mb_state md)"
    "ms_roleRevision (mb_state (setTyping c u now md)) = ms_roleRevision (mb_state md)"
    "ms_members (mb_state (clearTyping c u md)) = ms_members (mb_state md)"
    "ms_roleRevision (mb_state (clearTyping c u md)) = ms_roleRevision (mb_state md)" for c u now
    by (simp_all add: setTyping_def clearTyping_def clearTypingUsers_def Let_def split: option.split)
  have presence: "ms_roleRevision (updatePresence u up s) = ms_roleRevision s"
    "ms_roleRevision (applyPresenceBatch es full s) = ms_roleRevision s"
    "ms_roleRevision (applyReadyActivities as s) = ms_roleRevision s"
    "ms_roleRevision (applyReadyListening ls s) = ms_roleRevision s" for u up s es full as ls
    by (simp_all add: updatePresence_def applyPresenceBatch_def applyReadyActivities_def applyReadyListening_def Let_def
        split: option.split)
  show ?thesis
    by (cases a) (auto simp: Let_def typing presence identity_ops typing_fires setMembers_def addMember_def removeMember_def
        updateMemberRoles_def updateMemberProfile_def resetMembersStore_def split: option.split)
qed

definition sample_roster :: members_module where
  "sample_roster = setMembers [\<lparr>rm_id = 7, rm_username = ''ada'', rm_avatar = None, rm_role = ''member'', rm_role_ids = None,
     rm_status = Online, rm_mobile = None, rm_display_name = None, rm_custom_status = None, rm_about = None,
     rm_banner = None, rm_banner_color = None, rm_created_at = None, rm_identity_public_key = None\<rparr>] members_init"

theorem roleRevision_covers_identity_witness:
  "map_option member_identity (jm_get (ms_members (mb_state (members_apply (Presence_batch [] True) sample_roster))) 7) =
     Some (7, ''ada'', None, None, ''member'', None)"
  using roleRevision_covers_identity [of sample_roster "Presence_batch [] True"]
  by (simp add: Let_def applyPresenceBatch_def)
    (simp add: sample_roster_def setMembers_def members_init_def MEMBERS_INITIAL_STATE_def readyMember_def
      member_identity_def jm_get_Cons jm_set_def)

end
