(* ===== verification/Dm_Store.thy ===== *)
theory Dm_Store
  imports Channels_Store Members_Store
begin

text \<open>
  \<open>stores/dm.store.ts\<close>, \<open>lib/dmUnread.ts\<close> and the ready, open and close handlers of
  \<open>features/direct-messages/wsHandlers.ts\<close>: the list of direct messages, and the rows the channels
  store keeps for the ones that were opened.

  The translation catalog is a parameter: \<open>connectText\<close> for a text, \<open>moreText\<close> for the counted one. The
  lookups the channel handlers register (\<open>setDmActivityLookup\<close>, \<open>setDmListeningLookup\<close>) and the mute
  preference are arguments.

  The lemmas show that each conversation is listed once, that a failed close is undone exactly, that a
  message is counted once, that a rename clears no badge, and where the row in the channels store
  counts a message again.
\<close>

subsection \<open>Data\<close>

record dm_recipient =
  dw_id :: int
  dw_username :: string
  dw_avatar :: string
  dw_status :: string
  dw_display_name :: "string option"
  dw_mobile :: "bool option"

record dm_channel_payload =
  dq_channel_id :: int
  dq_recipient :: dm_recipient
  dq_recipients :: "dm_recipient list option"
  dq_name :: "string option"
  dq_is_group :: "bool option"
  dq_owner_id :: "int option"
  dq_icon :: "string option"
  dq_last_message_id :: "int option"
  dq_last_message :: jstring
  dq_last_message_at :: string
  dq_unread_count :: int
  dq_mention_count :: "int option"
  dq_last_read_message_id :: "int option"

record dm_user =
  du_id :: int
  du_username :: string
  du_avatar :: string
  du_status :: string
  du_mobile :: "bool option"
  du_displayName :: "string option"
  du_activity :: "member_activity option option"
  du_listening :: "member_listening option option"

record dm_channel =
  dm_channelId :: int
  dm_recipient :: dm_user
  dm_participants :: "dm_user list"
  dm_name :: string
  dm_isGroup :: bool
  dm_ownerId :: "int option"
  dm_icon :: "string option"
  dm_lastMessageId :: "int option"
  dm_lastReadMessageId :: "int option"
  dm_lastMessage :: jstring
  dm_lastMessageAt :: string
  dm_unreadCount :: int
  dm_mentionCount :: int

record dm_state =
  ds_channels :: "dm_channel list"

definition DM_INITIAL :: dm_state where
  "DM_INITIAL = \<lparr>ds_channels = []\<rparr>"

definition dm_find :: "dm_state \<Rightarrow> int \<Rightarrow> dm_channel option" where
  "dm_find s channelId = List.find (\<lambda>c. dm_channelId c = channelId) (ds_channels s)"

subsection \<open>Operations\<close>

definition setDmChannels :: "dm_channel list \<Rightarrow> dm_state \<Rightarrow> dm_state" where
  "setDmChannels channels prev = \<lparr>ds_channels = channels\<rparr>"

definition withKnownActivity :: "(int \<Rightarrow> member_activity option option) \<Rightarrow> (int \<Rightarrow> member_listening option option) \<Rightarrow>
    dm_channel option \<Rightarrow> dm_user \<Rightarrow> dm_user" where
  "withKnownActivity knownActivity knownListening prior user = (
     let before = Option.bind prior (\<lambda>d. List.find (\<lambda>p. du_id p = du_id user) (dm_participants d));
         activity = alt (du_activity user) (alt (Option.bind before du_activity) (knownActivity (du_id user)));
         listening = alt (du_listening user) (alt (Option.bind before du_listening) (knownListening (du_id user)))
     in user\<lparr>du_activity := activity, du_listening := listening\<rparr>)"

definition mergedDm :: "dm_channel option \<Rightarrow> dm_channel \<Rightarrow> dm_channel" where
  "mergedDm existing channel = (case existing of
     None \<Rightarrow> channel
   | Some e \<Rightarrow> channel\<lparr>
       dm_unreadCount := (if dm_unreadCount channel > 0 then dm_unreadCount channel else dm_unreadCount e),
       dm_mentionCount := (if dm_mentionCount channel > 0 then dm_mentionCount channel else dm_mentionCount e),
       dm_lastMessageId := alt (dm_lastMessageId channel) (dm_lastMessageId e),
       dm_lastReadMessageId := alt (dm_lastReadMessageId channel) (dm_lastReadMessageId e),
       dm_lastMessage := (if dm_lastMessage channel \<noteq> [] then dm_lastMessage channel else dm_lastMessage e),
       dm_lastMessageAt := (if dm_lastMessageAt channel \<noteq> '''' then dm_lastMessageAt channel else dm_lastMessageAt e)\<rparr>)"

definition addDmChannel :: "(int \<Rightarrow> member_activity option option) \<Rightarrow> (int \<Rightarrow> member_listening option option) \<Rightarrow>
    dm_channel \<Rightarrow> dm_state \<Rightarrow> dm_state" where
  "addDmChannel knownActivity knownListening incoming prev = (
     let existing = dm_find prev (dm_channelId incoming);
         filtered = filter (\<lambda>c. dm_channelId c \<noteq> dm_channelId incoming) (ds_channels prev);
         known = withKnownActivity knownActivity knownListening existing;
         channel = incoming\<lparr>dm_recipient := known (dm_recipient incoming),
           dm_participants := map known (dm_participants incoming)\<rparr>
     in \<lparr>ds_channels = mergedDm existing channel # filtered\<rparr>)"

definition restoreDmChannel :: "dm_channel \<Rightarrow> nat \<Rightarrow> dm_state \<Rightarrow> dm_state" where
  "restoreDmChannel channel index prev = (
     if list_ex (\<lambda>c. dm_channelId c = dm_channelId channel) (ds_channels prev) then prev
     else \<lparr>ds_channels = take index (ds_channels prev) @ channel # drop index (ds_channels prev)\<rparr>)"

definition removeDmChannel :: "int \<Rightarrow> dm_state \<Rightarrow> dm_state" where
  "removeDmChannel channelId prev = \<lparr>ds_channels = filter (\<lambda>c. dm_channelId c \<noteq> channelId) (ds_channels prev)\<rparr>"

definition updateDmLastMessage :: "int \<Rightarrow> int \<Rightarrow> jstring \<Rightarrow> string \<Rightarrow> bool \<Rightarrow> dm_state \<Rightarrow> dm_state" where
  "updateDmLastMessage channelId messageId content timestamp isMention prev = (case dm_find prev channelId of
     None \<Rightarrow> prev
   | Some updated \<Rightarrow>
       let rest = filter (\<lambda>c. dm_channelId c \<noteq> channelId) (ds_channels prev);
           isReplay = (case dm_lastMessageId updated of None \<Rightarrow> False | Some l \<Rightarrow> messageId \<le> l)
       in if isReplay then prev
          else \<lparr>ds_channels = updated\<lparr>dm_lastMessageId := Some messageId, dm_lastMessage := content,
                 dm_lastMessageAt := timestamp, dm_unreadCount := dm_unreadCount updated + 1,
                 dm_mentionCount := (if isMention then dm_mentionCount updated + 1 else dm_mentionCount updated)\<rparr> # rest\<rparr>)"

definition updateDmLastMessagePreview :: "int \<Rightarrow> int \<Rightarrow> jstring \<Rightarrow> string \<Rightarrow> dm_state \<Rightarrow> dm_state" where
  "updateDmLastMessagePreview channelId messageId content timestamp prev = (case dm_find prev channelId of
     None \<Rightarrow> prev
   | Some updated \<Rightarrow>
       if (case dm_lastMessageId updated of None \<Rightarrow> False | Some l \<Rightarrow> messageId \<le> l) then prev
       else \<lparr>ds_channels = updated\<lparr>dm_lastMessageId := Some messageId, dm_lastMessage := content,
              dm_lastMessageAt := timestamp\<rparr> # filter (\<lambda>c. dm_channelId c \<noteq> channelId) (ds_channels prev)\<rparr>)"

text \<open>The patch of a preview: the fields it states.\<close>

record dm_preview_patch =
  dp_lastMessageId :: "int option option"
  dp_lastMessage :: "jstring option"
  dp_lastMessageAt :: "string option"

definition revisedDm :: "dm_preview_patch \<Rightarrow> dm_channel \<Rightarrow> dm_channel" where
  "revisedDm patch dm = dm\<lparr>dm_lastMessageId := nullish (dp_lastMessageId patch) (dm_lastMessageId dm),
     dm_lastMessage := nullish (dp_lastMessage patch) (dm_lastMessage dm),
     dm_lastMessageAt := nullish (dp_lastMessageAt patch) (dm_lastMessageAt dm)\<rparr>"

definition reviseDmLastMessage :: "int \<Rightarrow> int \<Rightarrow> dm_preview_patch \<Rightarrow> dm_state \<Rightarrow> dm_state" where
  "reviseDmLastMessage channelId messageId patch prev = (case dm_find prev channelId of
     None \<Rightarrow> prev
   | Some dm \<Rightarrow>
       if dm_lastMessageId dm \<noteq> Some messageId then prev
       else \<lparr>ds_channels = update_first (\<lambda>c. dm_channelId c = channelId) (revisedDm patch) (ds_channels prev)\<rparr>)"

definition map_dm :: "int \<Rightarrow> (dm_channel \<Rightarrow> dm_channel) \<Rightarrow> dm_channel list \<Rightarrow> dm_channel list" where
  "map_dm channelId f cs = map (\<lambda>c. if dm_channelId c = channelId then f c else c) cs"

definition setDmReadPointer :: "int \<Rightarrow> int option \<Rightarrow> (int \<times> int) option \<Rightarrow> dm_state \<Rightarrow> dm_state" where
  "setDmReadPointer channelId pointer counts prev = (
     if list_ex (\<lambda>c. dm_channelId c = channelId) (ds_channels prev)
     then \<lparr>ds_channels = map_dm channelId (\<lambda>c.
         let moved = c\<lparr>dm_lastReadMessageId := pointer\<rparr>
         in case counts of None \<Rightarrow> moved
            | Some (unread, mention) \<Rightarrow> moved\<lparr>dm_unreadCount := unread, dm_mentionCount := mention\<rparr>) (ds_channels prev)\<rparr>
     else prev)"

definition clearDmUnread :: "int \<Rightarrow> dm_state \<Rightarrow> dm_state" where
  "clearDmUnread channelId prev =
     \<lparr>ds_channels = map_dm channelId (\<lambda>c. c\<lparr>dm_unreadCount := 0, dm_mentionCount := 0\<rparr>) (ds_channels prev)\<rparr>"

definition join_names :: "string list \<Rightarrow> string" where
  "join_names names = (case names of [] \<Rightarrow> [] | n # ns \<Rightarrow> n @ concat (map (\<lambda>m. '', '' @ m) ns))"

definition dmDisplayName :: "(string \<Rightarrow> string) \<Rightarrow> (nat \<Rightarrow> string) \<Rightarrow> dm_channel \<Rightarrow> string" where
  "dmDisplayName connectText moreText dm = (
     if dm_name dm \<noteq> '''' then dm_name dm
     else let names = map (\<lambda>p. let d = nullish (du_displayName p) '''' in if d \<noteq> '''' then d else du_username p) (dm_participants dm)
       in if names = [] then
            (if du_username (dm_recipient dm) \<noteq> '''' then du_username (dm_recipient dm)
             else if dm_isGroup dm then connectText ''dm.emptyGroup'' else connectText ''dm.unknownUser'')
          else if \<not> dm_isGroup dm then hd names
          else if length names \<le> 3 then join_names names
          else join_names (take 3 names) @ '' '' @ moreText (length names - 3))"

record dm_user_patch =
  dv_username :: "string option"
  dv_avatar :: "string option"
  dv_status :: "string option"
  dv_mobile :: "bool option"
  dv_displayName :: "string option"
  dv_activity :: "member_activity option option"
  dv_listening :: "member_listening option option"

definition patchUser :: "int \<Rightarrow> dm_user_patch \<Rightarrow> dm_user \<Rightarrow> dm_user" where
  "patchUser userId patch u = (
     if du_id u \<noteq> userId then u
     else u\<lparr>du_username := nullish (dv_username patch) (du_username u), du_avatar := nullish (dv_avatar patch) (du_avatar u),
            du_status := nullish (dv_status patch) (du_status u), du_mobile := alt (dv_mobile patch) (du_mobile u),
            du_displayName := alt (dv_displayName patch) (du_displayName u),
            du_activity := alt (dv_activity patch) (du_activity u),
            du_listening := alt (dv_listening patch) (du_listening u)\<rparr>)"

definition updateDmParticipant :: "int \<Rightarrow> dm_user_patch \<Rightarrow> dm_state \<Rightarrow> dm_state" where
  "updateDmParticipant userId patch prev = \<lparr>ds_channels = map (\<lambda>c.
     if du_id (dm_recipient c) \<noteq> userId \<and> list_all (\<lambda>p. du_id p \<noteq> userId) (dm_participants c) then c
     else c\<lparr>dm_recipient := patchUser userId patch (dm_recipient c),
            dm_participants := map (patchUser userId patch) (dm_participants c)\<rparr>) (ds_channels prev)\<rparr>"

definition resetDmStore :: "dm_state \<Rightarrow> dm_state" where
  "resetDmStore prev = DM_INITIAL"

definition dmUnreadCount :: "(int \<Rightarrow> bool) \<Rightarrow> dm_channel \<Rightarrow> int" where
  "dmUnreadCount isChannelMuted c = (if isChannelMuted (dm_channelId c) then dm_mentionCount c else dm_unreadCount c)"

definition totalDmUnread :: "(int \<Rightarrow> bool) \<Rightarrow> dm_channel list \<Rightarrow> int" where
  "totalDmUnread isChannelMuted cs = foldl (\<lambda>total' c. total' + dmUnreadCount isChannelMuted c) 0 cs"

subsection \<open>Mirror rows\<close>

definition mapDmUser :: "dm_recipient \<Rightarrow> dm_user" where
  "mapDmUser u = \<lparr>du_id = dw_id u, du_username = dw_username u, du_avatar = dw_avatar u, du_status = dw_status u,
     du_mobile = (if dw_mobile u = Some True then Some True else None),
     du_displayName = Some (nullish (dw_display_name u) ''''), du_activity = None, du_listening = None\<rparr>"

definition mapDmPayload :: "dm_channel_payload \<Rightarrow> dm_channel" where
  "mapDmPayload p = (
     let participants = map mapDmUser (nullish (dq_recipients p) [dq_recipient p])
     in \<lparr>dm_channelId = dq_channel_id p,
         dm_recipient = (case participants of [] \<Rightarrow> mapDmUser (dq_recipient p) | u # _ \<Rightarrow> u),
         dm_participants = participants, dm_name = nullish (dq_name p) '''', dm_isGroup = nullish (dq_is_group p) False,
         dm_ownerId = dq_owner_id p, dm_icon = dq_icon p, dm_lastMessageId = dq_last_message_id p,
         dm_lastReadMessageId = dq_last_read_message_id p, dm_lastMessage = dq_last_message p,
         dm_lastMessageAt = dq_last_message_at p, dm_unreadCount = dq_unread_count p,
         dm_mentionCount = nullish (dq_mention_count p) 0\<rparr>)"

definition dmChannelFromPayload :: "dm_channel_payload \<Rightarrow> dm_channel" where
  "dmChannelFromPayload p = mapDmPayload p"

definition mirrorRow :: "string \<Rightarrow> dm_channel \<Rightarrow> channel" where
  "mirrorRow name dm = \<lparr>ch_id = dm_channelId dm, ch_name = name, ch_type = DmChannel, ch_category = None,
     ch_categoryId = None, ch_categoryPosition = None, ch_topic = '''', ch_position = 0,
     ch_unreadCount = dm_unreadCount dm, ch_mentionCount = dm_mentionCount dm,
     ch_lastMessageId = dm_lastMessageId dm, ch_lastReadMessageId = dm_lastReadMessageId dm, ch_canSend = True,
     ch_canModerateVoice = None, ch_canMoveVoice = None, ch_canDeleteOthers = None, ch_canPin = None,
     ch_canReact = None, ch_slowMode = 0, ch_nsfw = False, ch_isPrivate = False, ch_nsfwAcknowledged = None,
     ch_voiceMaxUsers = 0, ch_voiceMaxVideo = 0, ch_passwordProtected = None, ch_afk = None, ch_forum = None\<rparr>"

definition addDmToChannelsStore :: "(string \<Rightarrow> string) \<Rightarrow> (nat \<Rightarrow> string) \<Rightarrow> dm_channel \<Rightarrow> channels_state \<Rightarrow> channels_state" where
  "addDmToChannelsStore connectText moreText dm prev = (
     let name = dmDisplayName connectText moreText dm; existing = jm_get (cs_channels prev) (dm_channelId dm)
     in if map_option ch_name existing = Some name then prev
        else prev\<lparr>cs_channels := jm_set (cs_channels prev) (dm_channelId dm) (mirrorRow name dm)\<rparr>)"

text \<open>The stores the handlers of direct messages write.\<close>

record dm_stores =
  dz_dms :: dm_state
  dz_channels :: channels_module

definition reconcileRow :: "(int, dm_channel_payload) jmap \<Rightarrow> int \<times> channel \<Rightarrow> (int, channel) jmap \<Rightarrow> (int, channel) jmap" where
  "reconcileRow dmById entry nextChannels = (case entry of (i, ch) \<Rightarrow>
     if ch_type ch \<noteq> DmChannel then nextChannels
     else case jm_get dmById i of
       None \<Rightarrow> jm_delete nextChannels i
     | Some dm \<Rightarrow>
         let mentionCount = nullish (dq_mention_count dm) 0
         in if ch_unreadCount ch \<noteq> dq_unread_count dm \<or> ch_mentionCount ch \<noteq> mentionCount \<or>
               ch_lastReadMessageId ch \<noteq> dq_last_read_message_id dm
            then jm_set nextChannels i (ch\<lparr>ch_unreadCount := dq_unread_count dm, ch_mentionCount := mentionCount,
                   ch_lastReadMessageId := dq_last_read_message_id dm\<rparr>)
            else nextChannels)"

definition reconcileMirrors :: "dm_channel_payload list \<Rightarrow> channels_state \<Rightarrow> channels_state" where
  "reconcileMirrors payloads prev = (
     let dmById = jm_of_list (map (\<lambda>d. (dq_channel_id d, d)) payloads)
     in prev\<lparr>cs_channels := fold (reconcileRow dmById) (cs_channels prev) (cs_channels prev)\<rparr>)"

definition applyReadyDms :: "dm_channel_payload list option \<Rightarrow> dm_stores \<Rightarrow> dm_stores" where
  "applyReadyDms dm_channels z = (
     let payloads = nullish dm_channels []; md = dz_channels z
     in \<lparr>dz_dms = setDmChannels (map mapDmPayload payloads) (dz_dms z),
         dz_channels = md\<lparr>cs_state := reconcileMirrors payloads (cs_state md)\<rparr>\<rparr>)"

definition renameMirror :: "(string \<Rightarrow> string) \<Rightarrow> (nat \<Rightarrow> string) \<Rightarrow> dm_channel \<Rightarrow> channels_state \<Rightarrow> channels_state" where
  "renameMirror connectText moreText dm prev = (
     let name = dmDisplayName connectText moreText dm
     in case jm_get (cs_channels prev) (dm_channelId dm) of
          None \<Rightarrow> prev
        | Some existing \<Rightarrow> if ch_name existing = name then prev
            else prev\<lparr>cs_channels := jm_set (cs_channels prev) (dm_channelId dm) (existing\<lparr>ch_name := name\<rparr>)\<rparr>)"

text \<open>The second result says whether the call roster of the group is dropped, which the voice store does.\<close>

definition handleDmChannelOpen :: "(string \<Rightarrow> string) \<Rightarrow> (nat \<Rightarrow> string) \<Rightarrow> (int \<Rightarrow> member_activity option option) \<Rightarrow>
    (int \<Rightarrow> member_listening option option) \<Rightarrow> dm_channel_payload \<Rightarrow> dm_stores \<Rightarrow> dm_stores \<times> bool" where
  "handleDmChannelOpen connectText moreText knownActivity knownListening payload z = (
     let dm = mapDmPayload payload;
         fresh = (dm_isGroup dm \<and> \<not> list_ex (\<lambda>c. dm_channelId c = dm_channelId dm) (ds_channels (dz_dms z)));
         md = dz_channels z
     in (\<lparr>dz_dms = addDmChannel knownActivity knownListening dm (dz_dms z),
          dz_channels = md\<lparr>cs_state := renameMirror connectText moreText dm (cs_state md)\<rparr>\<rparr>, fresh))"

definition mostRecentDm :: "dm_channel list \<Rightarrow> dm_channel option" where
  "mostRecentDm channels = fold (\<lambda>dm best. case best of
     None \<Rightarrow> Some dm
   | Some b \<Rightarrow> if nullish (dm_lastMessageId b) (- 1) < nullish (dm_lastMessageId dm) (- 1) then Some dm else best)
     channels None"

definition closeDmLocally :: "int \<Rightarrow> (dm_stores \<Rightarrow> dm_stores) \<Rightarrow> dm_stores \<Rightarrow> dm_stores" where
  "closeDmLocally channelId fallback z = (
     let md = dz_channels z;
         wasActive = (activeChannelId (cs_state md) = Some channelId);
         z1 = \<lparr>dz_dms = removeDmChannel channelId (dz_dms z),
               dz_channels = md\<lparr>cs_state := removeChannel (cs_state md) channelId\<rparr>\<rparr>
     in if wasActive then fallback z1 else z1)"

definition dmFallback :: "(string \<Rightarrow> string) \<Rightarrow> (nat \<Rightarrow> string) \<Rightarrow> dm_stores \<Rightarrow> dm_stores" where
  "dmFallback connectText moreText z = (
     let md = dz_channels z
     in case mostRecentDm (ds_channels (dz_dms z)) of
          Some dm \<Rightarrow>
            \<lparr>dz_dms = clearDmUnread (dm_channelId dm) (dz_dms z),
             dz_channels = setActiveChannel (md\<lparr>cs_state := addDmToChannelsStore connectText moreText dm (cs_state md)\<rparr>)
               (Some (dm_channelId dm)) True\<rparr>
        | None \<Rightarrow> z\<lparr>dz_channels := setActiveChannel md
            (map_option ch_id (firstTextInSidebarOrder (cs_channels (cs_state md)))) True\<rparr>)"

definition handleDmChannelClose :: "(string \<Rightarrow> string) \<Rightarrow> (nat \<Rightarrow> string) \<Rightarrow> int \<Rightarrow> dm_stores \<Rightarrow> dm_stores \<times> bool" where
  "handleDmChannelClose connectText moreText channel_id z =
     (closeDmLocally channel_id (dmFallback connectText moreText) z,
      map_option dm_isGroup (dm_find (dz_dms z) channel_id) = Some True)"

subsection \<open>Each conversation once\<close>

definition dm_ok :: "dm_state \<Rightarrow> bool" where
  "dm_ok s \<longleftrightarrow> distinct (map dm_channelId (ds_channels s))"

lemma dm_find_SomeD: "dm_find s i = Some d \<Longrightarrow> d \<in> set (ds_channels s) \<and> dm_channelId d = i"
  by (auto simp: dm_find_def find_Some_iff in_set_conv_nth)

lemma dm_find_None: "dm_find s i = None \<longleftrightarrow> i \<notin> dm_channelId ` set (ds_channels s)"
  by (auto simp: dm_find_def find_None_iff)

lemma dm_find_Cons [simp]:
  "dm_find \<lparr>ds_channels = c # cs\<rparr> i = (if dm_channelId c = i then Some c else dm_find \<lparr>ds_channels = cs\<rparr> i)"
  by (simp add: dm_find_def)

lemma dm_find_filter:
  "dm_find \<lparr>ds_channels = filter (\<lambda>c. dm_channelId c \<noteq> k) cs\<rparr> i = (if i = k then None else dm_find \<lparr>ds_channels = cs\<rparr> i)"
  by (induction cs) (auto simp: dm_find_def)

lemma distinct_filter_ids: "distinct (map dm_channelId cs) \<Longrightarrow> distinct (map dm_channelId (filter P cs))"
  by (induction cs) auto

lemma mergedDm_id [simp]: "dm_channelId (mergedDm e c) = dm_channelId c"
  by (simp add: mergedDm_def split: option.split)

lemma map_dm_ids: "(\<And>c. dm_channelId (f c) = dm_channelId c) \<Longrightarrow> map dm_channelId (map_dm i f cs) = map dm_channelId cs"
  by (simp add: map_dm_def)

lemma update_first_ids:
  "(\<And>c. dm_channelId (f c) = dm_channelId c) \<Longrightarrow> map dm_channelId (update_first P f cs) = map dm_channelId cs"
  by (induction cs) auto

lemma dm_ops_ok:
  assumes "dm_ok s"
  shows "dm_ok (addDmChannel ka kl d s)" "dm_ok (restoreDmChannel d n s)" "dm_ok (removeDmChannel i s)"
    "dm_ok (updateDmLastMessage i k c t b s)" "dm_ok (updateDmLastMessagePreview i k c t s)"
    "dm_ok (reviseDmLastMessage i k patch s)" "dm_ok (setDmReadPointer i p counts s)" "dm_ok (clearDmUnread i s)"
    "dm_ok (updateDmParticipant u up s)" "dm_ok (resetDmStore s)"
proof -
  have splice: "distinct (map dm_channelId (take n cs @ d # drop n cs))"
    if "distinct (map dm_channelId cs)" "dm_channelId d \<notin> dm_channelId ` set cs" for cs
  proof -
    have "distinct (map dm_channelId (take n cs @ drop n cs))" using that(1) by simp
    then have "distinct (map dm_channelId (take n cs) @ map dm_channelId (drop n cs))" by (simp only: map_append)
    with that(2) show ?thesis by (auto dest: in_set_takeD in_set_dropD)
  qed
  show "dm_ok (restoreDmChannel d n s)"
    using assms splice [of "ds_channels s"]
    by (cases "dm_channelId d \<in> dm_channelId ` set (ds_channels s)")
      (auto simp: dm_ok_def restoreDmChannel_def list_ex_iff image_iff simp del: map_append distinct_append)
  show "dm_ok (reviseDmLastMessage i k patch s)"
    using assms by (auto simp: dm_ok_def reviseDmLastMessage_def update_first_ids revisedDm_def split: option.split)
  show "dm_ok (setDmReadPointer i p counts s)"
    using assms by (cases counts) (auto simp: dm_ok_def setDmReadPointer_def map_dm_ids Let_def)
  show "dm_ok (updateDmParticipant u up s)"
    using assms by (simp add: dm_ok_def updateDmParticipant_def comp_def if_distrib cong: if_cong)
qed (use assms in \<open>auto simp: dm_ok_def addDmChannel_def removeDmChannel_def updateDmLastMessage_def
    updateDmLastMessagePreview_def clearDmUnread_def map_dm_ids resetDmStore_def DM_INITIAL_def Let_def
    distinct_filter_ids split: option.split dest!: dm_find_SomeD\<close>)

subsection \<open>Counting\<close>

definition dm_unread_of :: "int \<Rightarrow> dm_state \<Rightarrow> int" where
  "dm_unread_of i s = nullish (map_option dm_unreadCount (dm_find s i)) 0"

interpretation dmn: watermark_counter "\<lambda>k s. updateDmLastMessage i k content timestamp mention s"
  "\<lambda>s. dm_find s i \<noteq> None" "dm_unread_of i" "\<lambda>s. Option.bind (dm_find s i) dm_lastMessageId"
  for i content timestamp mention
  by unfold_locales
    (auto simp: updateDmLastMessage_def dm_unread_of_def Let_def above_def dest!: dm_find_SomeD split: option.split option.split_asm)

subsection \<open>Properties\<close>

lemma remove_at:
  assumes "distinct (map dm_channelId cs)" and "n < length cs"
  shows "filter (\<lambda>c. dm_channelId c \<noteq> dm_channelId (cs ! n)) cs = take n cs @ drop (Suc n) cs"
proof -
  have split: "cs = take n cs @ cs ! n # drop (Suc n) cs" using assms(2) by (simp add: id_take_nth_drop)
  from assms(1) have "distinct (map dm_channelId (take n cs @ cs ! n # drop (Suc n) cs))" using split by simp
  then have "\<forall>c \<in> set (take n cs) \<union> set (drop (Suc n) cs). dm_channelId c \<noteq> dm_channelId (cs ! n)"
    by (auto simp: image_iff)
  then have "filter (\<lambda>c. dm_channelId c \<noteq> dm_channelId (cs ! n)) (take n cs @ cs ! n # drop (Suc n) cs) =
      take n cs @ drop (Suc n) cs"
    by (simp add: filter_id_conv)
  with split show ?thesis by simp
qed

text \<open>A failed close is undone exactly: putting a removed conversation back at its old index restores
  the list, its order included.\<close>

theorem dm_close_undone:
  assumes "dm_ok s" and "n < length (ds_channels s)"
  shows "restoreDmChannel (ds_channels s ! n) n (removeDmChannel (dm_channelId (ds_channels s ! n)) s) = s"
proof -
  let ?cs = "ds_channels s"
  have "filter (\<lambda>c. dm_channelId c \<noteq> dm_channelId (?cs ! n)) ?cs = take n ?cs @ drop (Suc n) ?cs"
    using assms by (intro remove_at) (simp_all add: dm_ok_def)
  moreover have "take n ?cs @ ?cs ! n # drop (Suc n) ?cs = ?cs" using assms(2) by (metis id_take_nth_drop)
  moreover have "\<not> list_ex (\<lambda>c. dm_channelId c = dm_channelId (?cs ! n)) (filter (\<lambda>c. dm_channelId c \<noteq> dm_channelId (?cs ! n)) ?cs)"
    by (simp add: list_ex_iff)
  ultimately show ?thesis using assms(2) by (simp add: restoreDmChannel_def removeDmChannel_def)
qed

definition sample_recipient :: "int \<Rightarrow> string \<Rightarrow> dm_recipient" where
  "sample_recipient i name = \<lparr>dw_id = i, dw_username = name, dw_avatar = '''', dw_status = ''online'', dw_display_name = None,
     dw_mobile = None\<rparr>"

definition sample_dm :: "int \<Rightarrow> int option \<Rightarrow> int \<Rightarrow> dm_channel_payload" where
  "sample_dm i k n = \<lparr>dq_channel_id = i, dq_recipient = sample_recipient (i + 100) ''ada'', dq_recipients = None, dq_name = None,
     dq_is_group = None, dq_owner_id = None, dq_icon = None, dq_last_message_id = k, dq_last_message = js_lit ''hi'',
     dq_last_message_at = ''t'', dq_unread_count = n, dq_mention_count = None, dq_last_read_message_id = None\<rparr>"

definition sample_dms :: dm_state where
  "sample_dms = \<lparr>ds_channels = [mapDmPayload (sample_dm 1 (Some 10) 0), mapDmPayload (sample_dm 2 (Some 5) 2)]\<rparr>"

lemma mapDmPayload_id [simp]: "dm_channelId (mapDmPayload p) = dq_channel_id p"
  by (simp add: mapDmPayload_def Let_def)

lemma sample_dm_id [simp]: "dq_channel_id (sample_dm i k n) = i"
  by (simp add: sample_dm_def)

theorem dm_close_undone_witness:
  "restoreDmChannel (mapDmPayload (sample_dm 2 (Some 5) 2)) 1 (removeDmChannel 2 sample_dms) = sample_dms"
proof -
  have "dm_ok sample_dms" "1 < length (ds_channels sample_dms)" by (simp_all add: dm_ok_def sample_dms_def)
  from dm_close_undone [OF this] show ?thesis by (simp add: sample_dms_def)
qed

subsection \<open>The rows in the channels store\<close>

text \<open>What \<open>ready\<close> makes of a row of the channels store.\<close>

definition reconciled :: "(int, dm_channel_payload) jmap \<Rightarrow> int \<Rightarrow> channel \<Rightarrow> channel option" where
  "reconciled dmById i ch = (
     if ch_type ch \<noteq> DmChannel then Some ch
     else map_option (\<lambda>dm. ch\<lparr>ch_unreadCount := dq_unread_count dm, ch_mentionCount := nullish (dq_mention_count dm) 0,
            ch_lastReadMessageId := dq_last_read_message_id dm\<rparr>) (jm_get dmById i))"

lemma reconcileRow_get:
  "jm_get acc i = Some ch \<Longrightarrow>
     jm_get (reconcileRow dmById (i, ch) acc) k = (if k = i then reconciled dmById i ch else jm_get acc k)"
  by (auto simp: reconcileRow_def reconciled_def Let_def split: option.split)

lemma fold_reconcileRow:
  assumes "jm_wf es" and "\<And>k ch. (k, ch) \<in> set es \<Longrightarrow> jm_get acc k = Some ch"
  shows "jm_get (fold (reconcileRow dmById) es acc) i =
    (case jm_get es i of None \<Rightarrow> jm_get acc i | Some ch \<Rightarrow> reconciled dmById i ch)"
  using assms
proof (induction es arbitrary: acc)
  case (Cons e es)
  obtain k ch where e: "e = (k, ch)" by fastforce
  have wf: "jm_wf es" "k \<notin> fst ` set es" using Cons.prems(1) e by (simp_all add: jm_wf_def)
  have get: "jm_get acc k = Some ch" using Cons.prems(2) e by simp
  have "jm_get (reconcileRow dmById (k, ch) acc) k' = Some ch'" if "(k', ch') \<in> set es" for k' ch'
    using that wf(2) Cons.prems(2) [of k' ch'] reconcileRow_get [OF get, of dmById k'] e by force
  note IH = Cons.IH [OF wf(1) this]
  have "jm_get es k = None" using wf(2) by (simp add: jm_get_def map_of_eq_None_iff)
  with IH show ?case by (simp add: e jm_get_Cons reconcileRow_get [OF get] split: option.split)
qed simp

lemma reconcileMirrors_get:
  assumes "jm_wf (cs_channels st)"
  shows "jm_get (cs_channels (reconcileMirrors payloads st)) i =
    Option.bind (jm_get (cs_channels st) i) (reconciled (jm_of_list (map (\<lambda>d. (dq_channel_id d, d)) payloads)) i)"
  using fold_reconcileRow [OF assms, of "cs_channels st"] jm_get_mem [OF assms]
  by (simp add: reconcileMirrors_def Let_def split: option.split)

text \<open>After \<open>ready\<close> no row of the channels store is a phantom: every row of a direct message belongs to
  a listed conversation and carries its counts and its read pointer, and the rows of other channels are
  unchanged.\<close>

theorem applyReadyDms_reconciles:
  assumes "jm_wf (cs_channels (cs_state (dz_channels z)))" and "distinct (map dq_channel_id payloads)"
    and "jm_get (cs_channels (cs_state (dz_channels (applyReadyDms (Some payloads) z)))) i = Some ch"
  shows "if ch_type ch = DmChannel
    then \<exists>d. dm_find (dz_dms (applyReadyDms (Some payloads) z)) i = Some d \<and> ch_unreadCount ch = dm_unreadCount d \<and>
      ch_mentionCount ch = dm_mentionCount d \<and> ch_lastReadMessageId ch = dm_lastReadMessageId d
    else jm_get (cs_channels (cs_state (dz_channels z))) i = Some ch"
proof -
  let ?m = "jm_of_list (map (\<lambda>d. (dq_channel_id d, d)) payloads)"
  from assms(3) obtain old where old: "jm_get (cs_channels (cs_state (dz_channels z))) i = Some old" "reconciled ?m i old = Some ch"
    by (auto simp: applyReadyDms_def Let_def reconcileMirrors_get [OF assms(1)] bind_eq_Some_conv)
  show ?thesis
  proof (cases "ch_type old = DmChannel")
    case True
    with old(2) obtain p where p: "jm_get ?m i = Some p" and
      ch: "ch = old\<lparr>ch_unreadCount := dq_unread_count p, ch_mentionCount := nullish (dq_mention_count p) 0,
            ch_lastReadMessageId := dq_last_read_message_id p\<rparr>"
      by (auto simp: reconciled_def)
    from p have mem: "p \<in> set payloads" "dq_channel_id p = i" by (auto dest!: jm_get_of_listD)
    have "dm_find \<lparr>ds_channels = map mapDmPayload payloads\<rparr> i = Some (mapDmPayload p)"
      using mem assms(2) by (induction payloads) (auto simp: image_iff)
    with ch True show ?thesis by (auto simp: applyReadyDms_def setDmChannels_def Let_def mapDmPayload_def)
  next
    case False
    with old show ?thesis by (auto simp: reconciled_def)
  qed
qed

definition sample_stores :: dm_stores where
  "sample_stores = \<lparr>dz_dms = sample_dms,
     dz_channels = setActiveChannel (channels_init\<lparr>cs_state := addDmToChannelsStore id (\<lambda>_. '''')
       (mapDmPayload (sample_dm 1 (Some 10) 0)) CHANNELS_INITIAL_STATE\<rparr>) (Some 1) True\<rparr>"

lemma sample_stores_channels:
  "cs_state (dz_channels sample_stores) = CHANNELS_INITIAL_STATE\<lparr>activeChannelId := Some 1,
     cs_channels := [(1, mirrorRow ''ada'' (mapDmPayload (sample_dm 1 (Some 10) 0)))]\<rparr>"
  by (simp add: sample_stores_def setActiveChannel_def Let_def channels_init_def CHANNELS_INITIAL_STATE_def
      addDmToChannelsStore_def dmDisplayName_def mapDmPayload_def sample_dm_def mapDmUser_def sample_recipient_def
      jm_set_def jm_get_Cons mirrorRow_def)

theorem applyReadyDms_reconciles_witness:
  "\<exists>d. dm_find (dz_dms (applyReadyDms (Some [sample_dm 1 (Some 12) 3]) sample_stores)) 1 = Some d \<and> dm_unreadCount d = 3"
proof -
  let ?z = "applyReadyDms (Some [sample_dm 1 (Some 12) 3]) sample_stores"
  have wf: "jm_wf (cs_channels (cs_state (dz_channels sample_stores)))"
    by (simp add: sample_stores_channels jm_wf_def)
  define ch where "ch = (mirrorRow ''ada'' (mapDmPayload (sample_dm 1 (Some 10) 0)))\<lparr>ch_unreadCount := 3\<rparr>"
  have row: "jm_get (cs_channels (cs_state (dz_channels ?z))) 1 = Some ch"
    using reconcileMirrors_get [OF wf, of "[sample_dm 1 (Some 12) 3]" 1]
    by (simp add: applyReadyDms_def Let_def sample_stores_channels jm_get_Cons reconciled_def jm_of_list_def jm_set_def
        ch_def mirrorRow_def mapDmPayload_def sample_dm_def)
  have "distinct (map dq_channel_id [sample_dm 1 (Some 12) 3])" by simp
  from applyReadyDms_reconciles [OF wf this row] show ?thesis
    by (auto simp: ch_def mirrorRow_def)
qed

subsection \<open>Where a close lands\<close>

lemma firstText_mem: "firstTextInSidebarOrder m = Some ch \<Longrightarrow> ch \<in> set (jm_values m)"
proof -
  assume "firstTextInSidebarOrder m = Some ch"
  then have "firstTextInGroups (categoryGroups m []) = Some ch" by (simp add: firstTextInSidebarOrder_def)
  moreover have "\<exists>g \<in> set gs. ch \<in> set (cg_channels g)" if "firstTextInGroups gs = Some ch" for gs
    using that by (induction gs) (auto simp: find_Some_iff split: option.splits)
  ultimately obtain g where "g \<in> set (categoryGroups m [])" "ch \<in> set (cg_channels g)" by blast
  then show ?thesis using categoryGroups_channels [of g m "[]"] by (auto simp: guildChannels_def)
qed

lemma mostRecentDm_mem: "mostRecentDm cs = Some d \<Longrightarrow> d \<in> set cs"
proof -
  let ?f = "\<lambda>dm best. case best of None \<Rightarrow> Some dm
    | Some b \<Rightarrow> if nullish (dm_lastMessageId b) (- 1) < nullish (dm_lastMessageId dm) (- 1) then Some dm else best"
  have "fold ?f cs best = Some d \<Longrightarrow> d \<in> set cs \<or> best = Some d" for best
    by (induction cs arbitrary: best) (fastforce split: option.splits if_splits)+
  from this [of None] show "mostRecentDm cs = Some d \<Longrightarrow> d \<in> set cs" by (simp add: mostRecentDm_def)
qed

lemma mirror_exists: "jm_get (cs_channels (addDmToChannelsStore ct mt d st)) (dm_channelId d) \<noteq> None"
  by (auto simp: addDmToChannelsStore_def Let_def)

lemma active_set:
  "activeChannelId (cs_state (setActiveChannel md t b)) = t"
  "(jm_get (cs_channels (cs_state (setActiveChannel md t b))) i = None) = (jm_get (cs_channels (cs_state md)) i = None)"
  by (auto simp: setActiveChannel_def Let_def split: option.split)

lemma firstText_removed:
  assumes "chans_ok (cs_channels st)" and "firstTextInSidebarOrder (cs_channels (removeChannel st c)) = Some ch"
  shows "jm_get (cs_channels (removeChannel st c)) (ch_id ch) \<noteq> None \<and> ch_id ch \<noteq> c"
proof -
  from assms(1) have ok: "chans_ok (cs_channels (removeChannel st c))"
    by (auto simp: chans_ok_def removeChannel_def intro: list_all_jm_delete)
  from firstText_mem [OF assms(2)] obtain i where "jm_get (cs_channels (removeChannel st c)) i = Some ch"
    using ok by (auto simp: chans_ok_def jm_values_iff)
  moreover from this ok have "ch_id ch = i" by (auto dest: chans_ok_get simp: channel_ok_def)
  ultimately show ?thesis by (auto simp: removeChannel_def split: if_splits)
qed

text \<open>Closing a conversation never leaves the view on nothing: the closed one is gone from both stores,
  and the channel that becomes active, if any, has a row to show.\<close>

theorem dm_close_lands:
  assumes "channels_ok (dz_channels z)" and "activeChannelId (cs_state (dz_channels z)) = Some c"
    and "z' = fst (handleDmChannelClose connectText moreText c z)"
  shows "dm_find (dz_dms z') c = None \<and> activeChannelId (cs_state (dz_channels z')) \<noteq> Some c \<and>
    (\<forall>i. activeChannelId (cs_state (dz_channels z')) = Some i \<longrightarrow> jm_get (cs_channels (cs_state (dz_channels z'))) i \<noteq> None)"
proof -
  let ?st = "removeChannel (cs_state (dz_channels z)) c"
  let ?ds = "removeDmChannel c (dz_dms z)"
  have z': "z' = dmFallback connectText moreText \<lparr>dz_dms = ?ds, dz_channels = (dz_channels z)\<lparr>cs_state := ?st\<rparr>\<rparr>"
    using assms(2,3) by (simp add: handleDmChannelClose_def closeDmLocally_def Let_def)
  have clear: "dm_find (clearDmUnread i ?ds) c = None" for i
    by (auto simp: dm_find_None removeDmChannel_def clearDmUnread_def map_dm_def)
  have gone: "dm_find ?ds c = None" by (auto simp: dm_find_None removeDmChannel_def)
  show ?thesis
  proof (cases "mostRecentDm (ds_channels ?ds)")
    case (Some d)
    then have "dm_channelId d \<noteq> c" by (auto simp: removeDmChannel_def dest!: mostRecentDm_mem)
    with Some clear mirror_exists show ?thesis
      by (simp add: z' dmFallback_def Let_def active_set del: not_None_eq)
  next
    case None
    have "chans_ok (cs_channels (cs_state (dz_channels z)))" using assms(1) by (simp add: channels_ok_def)
    from firstText_removed [OF this] None gone show ?thesis
      by (cases "firstTextInSidebarOrder (cs_channels ?st)") (auto simp: z' dmFallback_def Let_def active_set)
  qed
qed

theorem dm_close_lands_witness:
  "activeChannelId (cs_state (dz_channels (fst (handleDmChannelClose id (\<lambda>_. '''') 1 sample_stores)))) \<noteq> Some 1"
proof -
  have "channels_ok (dz_channels sample_stores)"
    by (simp add: channels_ok_def sample_stores_channels chans_ok_def jm_wf_def channel_ok_def mirrorRow_def)
  moreover have "activeChannelId (cs_state (dz_channels sample_stores)) = Some 1" by (simp add: sample_stores_channels)
  ultimately show ?thesis using dm_close_lands [OF _ _ refl] by blast
qed

end
