(* ===== verification/Read_State.thy ===== *)
theory Read_State
  imports Dm_Store Sliding_Window
begin

text \<open>
  \<open>lib/readState.ts\<close>: which messages count as read. The module's variables are the fields of a record
  that also holds the two stores it writes (channels and direct messages); what it reads elsewhere is
  an environment: focus of the window, detached windows of the messages store, the views that cover
  the chat, the server's capability and the thread ids the threads store knows. Timers are the times
  at which they are due. Frames sent and listeners told are appended to \<open>rs_out\<close>.

  The lemmas show that the paced queue keeps the server's budget and always empties, that a channel
  marked unread stays so until the reader releases it, that a refused Mark Unread puts the pointer
  back, and that an answer that is older than a pending Mark Unread is dropped.
\<close>

subsection \<open>State\<close>

record read_env =
  re_hasFocus :: bool
  re_detached :: "int \<Rightarrow> bool"
  re_settingsOpen :: bool
  re_viewOpen :: bool
  re_dialogOpen :: bool
  re_readPointer :: bool
  re_threadKnown :: "int \<Rightarrow> bool"

datatype mark_notice = RateLimited | NotFound | MarkFailed

datatype read_effect =
    Mark_read int "int option"
  | Mark_unread_failed int
  | Unread_notice mark_notice

record pending_mark =
  pm_channelId :: int
  pm_messageId :: int
  pm_previous :: "int option"

record read_state =
  rs_dms :: dm_state
  rs_channels :: channels_state
  rs_liveTailOutOfView :: "int jset"
  rs_sender :: bool
  rs_markQueue :: "(int \<times> int) list"
  rs_markSentAt :: "int list"
  rs_markTimer :: "int option"
  rs_pendingLiveSeen :: "(int, int) jmap"
  rs_highestSeen :: "(int, int) jmap"
  rs_unreadHold :: "(int, bool) jmap"
  rs_pendingMarkUnread :: "(string, pending_mark) jmap"
  rs_threadPointers :: "(int, int) jmap"
  rs_out :: "read_effect list"

definition read_emit :: "read_effect \<Rightarrow> read_state \<Rightarrow> read_state" where
  "read_emit e s = s\<lparr>rs_out := rs_out s @ [e]\<rparr>"

subsection \<open>Presence of the reader\<close>

definition noteAwayUnread :: "int \<Rightarrow> read_state \<Rightarrow> read_state" where
  "noteAwayUnread channelId s = (
     if jm_has (rs_unreadHold s) channelId then s\<lparr>rs_unreadHold := jm_set (rs_unreadHold s) channelId True\<rparr> else s)"

definition setLiveTailInView :: "int \<Rightarrow> bool \<Rightarrow> read_state \<Rightarrow> read_state" where
  "setLiveTailInView channelId inView s = (
     if inView then s\<lparr>rs_liveTailOutOfView := js_delete (rs_liveTailOutOfView s) channelId\<rparr>
     else noteAwayUnread channelId (s\<lparr>rs_liveTailOutOfView := js_add (rs_liveTailOutOfView s) channelId\<rparr>))"

definition isChannelAway :: "read_env \<Rightarrow> read_state \<Rightarrow> int \<Rightarrow> bool" where
  "isChannelAway env s channelId \<longleftrightarrow>
     \<not> re_hasFocus env \<or> re_detached env channelId \<or> js_has (rs_liveTailOutOfView s) channelId"

definition isChannelCovered :: "read_env \<Rightarrow> bool" where
  "isChannelCovered env \<longleftrightarrow> re_settingsOpen env \<or> re_viewOpen env \<or> re_dialogOpen env"

subsection \<open>Counts and pointers\<close>

definition isKnownChannel :: "read_env \<Rightarrow> read_state \<Rightarrow> int \<Rightarrow> bool" where
  "isKnownChannel env s channelId \<longleftrightarrow> re_threadKnown env channelId \<or> jm_has (cs_channels (rs_channels s)) channelId \<or>
     list_ex (\<lambda>c. dm_channelId c = channelId) (ds_channels (rs_dms s))"

definition showsBadge :: "channel \<Rightarrow> bool" where
  "showsBadge ch \<longleftrightarrow> ch_mentionCount ch > 0 \<or> (ch_type ch \<noteq> VoiceChannel \<and> ch_unreadCount ch > 0)"

definition dmHasUnread :: "read_state \<Rightarrow> int \<Rightarrow> bool" where
  "dmHasUnread s channelId \<longleftrightarrow> (case dm_find (rs_dms s) channelId of
     None \<Rightarrow> False | Some dm \<Rightarrow> dm_unreadCount dm > 0 \<or> dm_mentionCount dm > 0)"

definition hasUnread :: "read_state \<Rightarrow> int \<Rightarrow> bool" where
  "hasUnread s channelId \<longleftrightarrow> (case jm_get (cs_channels (rs_channels s)) channelId of
       None \<Rightarrow> False | Some ch \<Rightarrow> ch_unreadCount ch > 0 \<or> ch_mentionCount ch > 0) \<or> dmHasUnread s channelId"

definition showsUnreadBadge :: "read_state \<Rightarrow> int \<Rightarrow> bool" where
  "showsUnreadBadge s channelId \<longleftrightarrow> (case jm_get (cs_channels (rs_channels s)) channelId of
       None \<Rightarrow> False | Some ch \<Rightarrow> showsBadge ch) \<or> dmHasUnread s channelId"

definition unreadChannelIds :: "bool \<Rightarrow> read_state \<Rightarrow> int list" where
  "unreadChannelIds includeDms s = (
     let chs = filter (\<lambda>ch. \<not> (\<not> includeDms \<and> ch_type ch = DmChannel) \<and> showsBadge ch) (jm_values (cs_channels (rs_channels s)));
         dms = (if includeDms then filter (\<lambda>dm. dm_unreadCount dm > 0 \<or> dm_mentionCount dm > 0) (ds_channels (rs_dms s)) else [])
     in js_of_list (map ch_id chs @ map dm_channelId dms))"

definition unreadTotal :: "read_state \<Rightarrow> int \<Rightarrow> int" where
  "unreadTotal s channelId = (case jm_get (cs_channels (rs_channels s)) channelId of
     Some ch \<Rightarrow> ch_unreadCount ch + ch_mentionCount ch
   | None \<Rightarrow> (case dm_find (rs_dms s) channelId of None \<Rightarrow> 0 | Some dm \<Rightarrow> dm_unreadCount dm + dm_mentionCount dm))"

definition rawPointer :: "read_state \<Rightarrow> int \<Rightarrow> int option" where
  "rawPointer s channelId =
     alt (Option.bind (jm_get (cs_channels (rs_channels s)) channelId) ch_lastReadMessageId)
       (alt (jm_get (rs_threadPointers s) channelId) (Option.bind (dm_find (rs_dms s) channelId) dm_lastReadMessageId))"

definition pointerOf :: "read_state \<Rightarrow> int \<Rightarrow> int" where
  "pointerOf s channelId = nullish (rawPointer s channelId) 0"

definition setThreadReadPointer :: "int \<Rightarrow> int \<Rightarrow> read_state \<Rightarrow> read_state" where
  "setThreadReadPointer threadId pointer s = s\<lparr>rs_threadPointers := jm_set (rs_threadPointers s) threadId pointer\<rparr>"

definition writeReadPointer :: "read_env \<Rightarrow> int \<Rightarrow> int \<Rightarrow> (int \<times> int) option \<Rightarrow> bool \<Rightarrow> read_state \<Rightarrow> read_state" where
  "writeReadPointer env channelId pointer counts forwardOnly s = (
     let next' = (if forwardOnly then max pointer (pointerOf s channelId) else pointer);
         s1 = (if re_threadKnown env channelId then setThreadReadPointer channelId next' s else s)
     in s1\<lparr>rs_channels := setReadPointer (rs_channels s1) channelId (Some next') counts,
           rs_dms := setDmReadPointer channelId (Some next') counts (rs_dms s1)\<rparr>)"

definition clear_badges :: "int \<Rightarrow> read_state \<Rightarrow> read_state" where
  "clear_badges channelId s = s\<lparr>rs_channels := clearUnread (rs_channels s) channelId,
     rs_dms := clearDmUnread channelId (rs_dms s)\<rparr>"

subsection \<open>Marking read\<close>

definition cancelPendingMarkAll :: "read_state \<Rightarrow> read_state" where
  "cancelPendingMarkAll s = s\<lparr>rs_markTimer := None, rs_markQueue := [], rs_markSentAt := []\<rparr>"

definition cancelPendingLiveSeen :: "read_state \<Rightarrow> read_state" where
  "cancelPendingLiveSeen s = s\<lparr>rs_pendingLiveSeen := []\<rparr>"

definition resetReadPointerState :: "read_state \<Rightarrow> read_state" where
  "resetReadPointerState s = s\<lparr>rs_threadPointers := [], rs_highestSeen := [], rs_unreadHold := [], rs_pendingMarkUnread := []\<rparr>"

definition forgetPendingMarkUnread :: "read_state \<Rightarrow> read_state" where
  "forgetPendingMarkUnread s = s\<lparr>rs_pendingMarkUnread := []\<rparr>"

definition setMarkReadSender :: "bool \<Rightarrow> read_state \<Rightarrow> read_state" where
  "setMarkReadSender present s =
     cancelPendingMarkAll (cancelPendingLiveSeen (resetReadPointerState (s\<lparr>rs_sender := present\<rparr>)))"

definition markChannelRead :: "read_env \<Rightarrow> int \<Rightarrow> read_state \<Rightarrow> read_state" where
  "markChannelRead env channelId s = (
     let s1 = s\<lparr>rs_unreadHold := jm_delete (rs_unreadHold s) channelId\<rparr>
     in if \<not> isKnownChannel env s1 channelId then s1
        else clear_badges channelId (if rs_sender s1 then read_emit (Mark_read channelId None) s1 else s1))"

definition MARK_ALL_READ_BURST_SIZE :: nat where "MARK_ALL_READ_BURST_SIZE = 4"

definition MARK_ALL_READ_BURST_INTERVAL_MS :: int where "MARK_ALL_READ_BURST_INTERVAL_MS = 1100"

fun drainLoop :: "read_env \<Rightarrow> int \<Rightarrow> (int \<times> int) list \<Rightarrow> read_state \<Rightarrow> read_state" where
  "drainLoop env now [] s = s\<lparr>rs_markQueue := []\<rparr>"
| "drainLoop env now ((i, snapshot) # queue) s = (
     if length (rs_markSentAt s) < MARK_ALL_READ_BURST_SIZE then
       (if unreadTotal s i > snapshot then drainLoop env now queue s
        else let s1 = markChannelRead env i s
          in drainLoop env now queue (s1\<lparr>rs_markSentAt := rs_markSentAt s1 @ [now]\<rparr>))
     else s\<lparr>rs_markQueue := (i, snapshot) # queue\<rparr>)"

definition drainMarkQueue :: "read_env \<Rightarrow> int \<Rightarrow> read_state \<Rightarrow> read_state" where
  "drainMarkQueue env now s = (
     let s1 = s\<lparr>rs_markTimer := None,
                rs_markSentAt := filter (\<lambda>t. now - t < MARK_ALL_READ_BURST_INTERVAL_MS) (rs_markSentAt s)\<rparr>;
         s2 = drainLoop env now (rs_markQueue s1) s1
     in if rs_markQueue s2 \<noteq> []
        then s2\<lparr>rs_markTimer := Some (now + max 0 (hd (rs_markSentAt s2) + MARK_ALL_READ_BURST_INTERVAL_MS - now))\<rparr>
        else s2)"

definition enqueueMark :: "int \<Rightarrow> read_state \<Rightarrow> read_state" where
  "enqueueMark i s = (
     if i \<in> set (map fst (rs_markQueue s)) then s
     else let snapshot = unreadTotal s i
       in if snapshot = 0 then s else s\<lparr>rs_markQueue := rs_markQueue s @ [(i, snapshot)]\<rparr>)"

definition markChannelsRead :: "read_env \<Rightarrow> int list \<Rightarrow> int \<Rightarrow> read_state \<Rightarrow> read_state \<times> nat" where
  "markChannelsRead env ids now s =
     (drainMarkQueue env now ((fold enqueueMark ids s)\<lparr>rs_markTimer := None\<rparr>), length ids)"

definition markAllRead :: "read_env \<Rightarrow> bool \<Rightarrow> int \<Rightarrow> read_state \<Rightarrow> read_state \<times> nat" where
  "markAllRead env includeDms now s = markChannelsRead env (unreadChannelIds includeDms s) now s"

subsection \<open>The read pointer\<close>

definition raiseHighestSeen :: "int \<Rightarrow> int \<Rightarrow> read_state \<Rightarrow> read_state" where
  "raiseHighestSeen channelId messageId s = (
     if nullish (jm_get (rs_highestSeen s) channelId) 0 < messageId
     then s\<lparr>rs_highestSeen := jm_set (rs_highestSeen s) channelId messageId\<rparr> else s)"

definition noteMessageSeen :: "read_env \<Rightarrow> int \<Rightarrow> int \<Rightarrow> bool \<Rightarrow> read_state \<Rightarrow> read_state" where
  "noteMessageSeen env channelId messageId live s = (
     if \<not> re_readPointer env \<or> messageId \<le> 0 \<or> isChannelAway env s channelId then s
     else case jm_get (rs_unreadHold s) channelId of
       None \<Rightarrow> raiseHighestSeen channelId messageId s
     | Some away \<Rightarrow>
         if \<not> live \<or> \<not> away then s
         else raiseHighestSeen channelId messageId (s\<lparr>rs_unreadHold := jm_delete (rs_unreadHold s) channelId\<rparr>))"

definition noteVisibleMessageSeen :: "read_env \<Rightarrow> int \<Rightarrow> int \<Rightarrow> read_state \<Rightarrow> read_state" where
  "noteVisibleMessageSeen env channelId messageId s = (
     if \<not> re_readPointer env \<or> messageId \<le> 0 then s
     else if \<not> re_hasFocus env \<or> re_detached env channelId then s
     else if jm_has (rs_unreadHold s) channelId then s
     else raiseHighestSeen channelId messageId s)"

definition sendSeen :: "read_env \<Rightarrow> int \<Rightarrow> read_state \<Rightarrow> read_state" where
  "sendSeen env channelId s = (case jm_get (rs_highestSeen s) channelId of
     None \<Rightarrow> s
   | Some seen \<Rightarrow>
       if \<not> rs_sender s \<or> seen \<le> pointerOf s channelId \<or> \<not> isKnownChannel env s channelId then s
       else writeReadPointer env channelId seen None True (read_emit (Mark_read channelId (Some seen)) s))"

definition markChannelReadSeen :: "read_env \<Rightarrow> int \<Rightarrow> read_state \<Rightarrow> read_state" where
  "markChannelReadSeen env channelId s = (
     if \<not> re_readPointer env then markChannelRead env channelId s
     else let s1 = sendSeen env channelId s
       in if \<not> jm_has (rs_unreadHold s1) channelId \<and> hasUnread s1 channelId then clear_badges channelId s1 else s1)"

definition leaveChannel :: "read_env \<Rightarrow> int \<Rightarrow> read_state \<Rightarrow> read_state" where
  "leaveChannel env channelId s = (
     if \<not> re_readPointer env then markChannelRead env channelId s
     else let s1 = sendSeen env channelId s
       in s1\<lparr>rs_highestSeen := jm_delete (rs_highestSeen s1) channelId,
             rs_unreadHold := jm_delete (rs_unreadHold s1) channelId\<rparr>)"

definition isHeldUnread :: "read_state \<Rightarrow> int \<Rightarrow> bool" where
  "isHeldUnread s channelId = jm_has (rs_unreadHold s) channelId"

definition LIVE_SEEN_MARK_READ_MS :: int where "LIVE_SEEN_MARK_READ_MS = 1000"

text \<open>A live arrival arms one timer per channel; the abort of the list drops it.\<close>

definition noteLiveMessageSeen :: "int \<Rightarrow> bool \<Rightarrow> int \<Rightarrow> read_state \<Rightarrow> read_state" where
  "noteLiveMessageSeen channelId aborted now s = (
     if aborted \<or> jm_has (rs_pendingLiveSeen s) channelId then s
     else s\<lparr>rs_pendingLiveSeen := jm_set (rs_pendingLiveSeen s) channelId (now + LIVE_SEEN_MARK_READ_MS)\<rparr>)"

definition liveSeenAborted :: "int \<Rightarrow> read_state \<Rightarrow> read_state" where
  "liveSeenAborted channelId s = s\<lparr>rs_pendingLiveSeen := jm_delete (rs_pendingLiveSeen s) channelId\<rparr>"

definition liveSeenFires :: "read_env \<Rightarrow> int \<Rightarrow> read_state \<Rightarrow> read_state" where
  "liveSeenFires env channelId s = (
     if \<not> jm_has (rs_pendingLiveSeen s) channelId then s
     else let s1 = s\<lparr>rs_pendingLiveSeen := jm_delete (rs_pendingLiveSeen s) channelId\<rparr>
       in if isChannelCovered env then s1
          else if re_readPointer env then markChannelReadSeen env channelId s1
          else if \<not> hasUnread s1 channelId then markChannelRead env channelId s1
          else s1)"

definition markActiveChannelReadOnUnload :: "read_env \<Rightarrow> read_state \<Rightarrow> read_state" where
  "markActiveChannelReadOnUnload env s = (case activeChannelId (rs_channels s) of
     None \<Rightarrow> s
   | Some active \<Rightarrow>
       if isChannelAway env s active \<or> isChannelCovered env then s
       else if re_readPointer env then sendSeen env active (cancelPendingLiveSeen s)
       else if hasUnread s active then s
       else markChannelRead env active (cancelPendingLiveSeen s))"

subsection \<open>Mark Unread\<close>

text \<open>The id the \<open>send\<close> callback returns is an argument; the result says whether the frame was sent.\<close>

definition beginMarkUnread :: "read_env \<Rightarrow> int \<Rightarrow> int \<Rightarrow> int \<Rightarrow> string \<Rightarrow> read_state \<Rightarrow> read_state \<times> bool" where
  "beginMarkUnread env channelId messageId pointer requestId s = (
     if \<not> re_readPointer env \<or> \<not> isKnownChannel env s channelId then (s, False)
     else let s1 = s\<lparr>rs_pendingMarkUnread := jm_set (rs_pendingMarkUnread s) requestId
                \<lparr>pm_channelId = channelId, pm_messageId = messageId, pm_previous = rawPointer s channelId\<rparr>,
              rs_highestSeen := jm_delete (rs_highestSeen s) channelId,
              rs_unreadHold := jm_set (rs_unreadHold s) channelId (isChannelAway env s channelId)\<rparr>
       in (writeReadPointer env channelId pointer None False s1, True))"

definition acceptReadState :: "int \<Rightarrow> int \<Rightarrow> read_state \<Rightarrow> read_state \<times> bool" where
  "acceptReadState channelId pointer s = (
     let waiting = filter (\<lambda>(_, p). pm_channelId p = channelId) (rs_pendingMarkUnread s)
     in if list_ex (\<lambda>(_, p). pm_messageId p \<le> pointer) waiting then (s, False)
        else (s\<lparr>rs_pendingMarkUnread := fold (\<lambda>(i, _) m. jm_delete m i) waiting (rs_pendingMarkUnread s)\<rparr>, True))"

definition failMarkUnread :: "read_env \<Rightarrow> string option \<Rightarrow> mark_notice \<Rightarrow> read_state \<Rightarrow> read_state \<times> bool" where
  "failMarkUnread env requestId notice s = (case requestId of
     None \<Rightarrow> (s, False)
   | Some i \<Rightarrow> (case jm_get (rs_pendingMarkUnread s) i of
       None \<Rightarrow> (s, False)
     | Some pending \<Rightarrow>
         let s1 = s\<lparr>rs_pendingMarkUnread := jm_delete (rs_pendingMarkUnread s) i,
                    rs_unreadHold := jm_delete (rs_unreadHold s) (pm_channelId pending)\<rparr>;
             s2 = (case pm_previous pending of None \<Rightarrow> s1
               | Some previous \<Rightarrow> writeReadPointer env (pm_channelId pending) previous None False s1)
         in (read_emit (Unread_notice notice) (read_emit (Mark_unread_failed (pm_channelId pending)) s2), True)))"

subsection \<open>The paced queue\<close>

lemma markChannelRead_frame [simp]:
  "rs_markSentAt (markChannelRead env i s) = rs_markSentAt s"
  "rs_markQueue (markChannelRead env i s) = rs_markQueue s"
  "rs_markTimer (markChannelRead env i s) = rs_markTimer s"
  by (simp_all add: markChannelRead_def Let_def clear_badges_def read_emit_def)

lemma markChannelRead_out:
  "rs_out (markChannelRead env i s) = rs_out s @ (if rs_sender s \<and> isKnownChannel env s i then [Mark_read i None] else [])"
  by (auto simp: markChannelRead_def Let_def clear_badges_def read_emit_def isKnownChannel_def)

text \<open>What a pass of the loop does: it takes a prefix of the queue, stamps what it spends of the budget
  with the instant, sends no more than that, and stops early only with the budget spent.\<close>

lemma drainLoop_pass:
  "\<exists>n k frames. rs_markQueue (drainLoop env now q s) = drop n q \<and>
     rs_markSentAt (drainLoop env now q s) = rs_markSentAt s @ replicate k now \<and>
     rs_out (drainLoop env now q s) = rs_out s @ frames \<and> length frames \<le> k \<and>
     (length (rs_markSentAt s) \<le> MARK_ALL_READ_BURST_SIZE \<longrightarrow> length (rs_markSentAt s) + k \<le> MARK_ALL_READ_BURST_SIZE) \<and>
     (drop n q \<noteq> [] \<longrightarrow> MARK_ALL_READ_BURST_SIZE \<le> length (rs_markSentAt s) + k) \<and>
     (q \<noteq> [] \<and> length (rs_markSentAt s) < MARK_ALL_READ_BURST_SIZE \<longrightarrow> 1 \<le> n)"
proof (induction env now q s rule: drainLoop.induct)
  case (1 env now s)
  show ?case by (intro exI [of _ 0] exI [of _ "[]"]) simp
next
  case (2 env now i snapshot queue s)
  let ?q = "(i, snapshot) # queue"
  consider (full) "\<not> length (rs_markSentAt s) < MARK_ALL_READ_BURST_SIZE"
    | (grown) "length (rs_markSentAt s) < MARK_ALL_READ_BURST_SIZE" "unreadTotal s i > snapshot"
    | (mark) "length (rs_markSentAt s) < MARK_ALL_READ_BURST_SIZE" "\<not> unreadTotal s i > snapshot" by blast
  then show ?case
  proof cases
    case full
    then show ?thesis by (intro exI [of _ 0] exI [of _ "[]"]) simp
  next
    case grown
    from "2.IH"(1) [OF grown] obtain n k frames where
      "rs_markQueue (drainLoop env now queue s) = drop n queue"
      "rs_markSentAt (drainLoop env now queue s) = rs_markSentAt s @ replicate k now"
      "rs_out (drainLoop env now queue s) = rs_out s @ frames" "length frames \<le> k"
      "length (rs_markSentAt s) + k \<le> MARK_ALL_READ_BURST_SIZE"
      "drop n queue \<noteq> [] \<longrightarrow> MARK_ALL_READ_BURST_SIZE \<le> length (rs_markSentAt s) + k"
      using grown(1) by (metis less_imp_le)
    with grown show ?thesis by (intro exI [of _ "Suc n"] exI [of _ k] exI [of _ frames]) simp
  next
    case mark
    let ?m = "markChannelRead env i s"
    let ?s = "?m\<lparr>rs_markSentAt := rs_markSentAt ?m @ [now]\<rparr>"
    from "2.IH"(2) [OF mark refl] obtain n k frames where pass:
      "rs_markQueue (drainLoop env now queue ?s) = drop n queue"
      "rs_markSentAt (drainLoop env now queue ?s) = rs_markSentAt s @ now # replicate k now"
      "rs_out (drainLoop env now queue ?s) = rs_out ?m @ frames" "length frames \<le> k"
      "Suc (length (rs_markSentAt s) + k) \<le> MARK_ALL_READ_BURST_SIZE"
      "drop n queue \<noteq> [] \<longrightarrow> MARK_ALL_READ_BURST_SIZE \<le> Suc (length (rs_markSentAt s) + k)"
      using mark(1) by (auto simp: Suc_le_eq)
    obtain f where f: "rs_out ?m = rs_out s @ f" "length f \<le> 1" using markChannelRead_out [of env i s] by auto
    from pass f mark show ?thesis
      by (intro exI [of _ "Suc n"] exI [of _ "Suc k"] exI [of _ "f @ frames"]) (auto simp: Let_def)
  qed
qed

definition pace_ok :: "read_state \<Rightarrow> bool" where
  "pace_ok s \<longleftrightarrow> length (rs_markSentAt s) \<le> MARK_ALL_READ_BURST_SIZE \<and>
     (case rs_markTimer s of
        None \<Rightarrow> rs_markQueue s = []
      | Some due \<Rightarrow> rs_markQueue s \<noteq> [] \<and> rs_markSentAt s \<noteq> [] \<and>
          MARK_ALL_READ_BURST_INTERVAL_MS \<le> due - hd (rs_markSentAt s))"

lemma drainMarkQueue_pace:
  assumes "length (rs_markSentAt s) \<le> MARK_ALL_READ_BURST_SIZE"
  shows "pace_ok (drainMarkQueue env now s)"
    and "rs_markQueue s \<noteq> [] \<Longrightarrow> length (filter (\<lambda>t. now - t < MARK_ALL_READ_BURST_INTERVAL_MS) (rs_markSentAt s)) < MARK_ALL_READ_BURST_SIZE \<Longrightarrow>
      length (rs_markQueue (drainMarkQueue env now s)) < length (rs_markQueue s)"
proof -
  let ?s1 = "s\<lparr>rs_markTimer := None, rs_markSentAt := filter (\<lambda>t. now - t < MARK_ALL_READ_BURST_INTERVAL_MS) (rs_markSentAt s)\<rparr>"
  let ?s2 = "drainLoop env now (rs_markQueue s) ?s1"
  have short: "length (rs_markSentAt ?s1) \<le> MARK_ALL_READ_BURST_SIZE"
    using assms by (simp add: order_trans [OF length_filter_le])
  from drainLoop_pass [of env now "rs_markQueue s" ?s1] obtain n k where pass:
    "rs_markQueue ?s2 = drop n (rs_markQueue s)" "rs_markSentAt ?s2 = rs_markSentAt ?s1 @ replicate k now"
    "length (rs_markSentAt ?s1) + k \<le> MARK_ALL_READ_BURST_SIZE"
    "drop n (rs_markQueue s) \<noteq> [] \<longrightarrow> MARK_ALL_READ_BURST_SIZE \<le> length (rs_markSentAt ?s1) + k"
    "rs_markQueue s \<noteq> [] \<and> length (rs_markSentAt ?s1) < MARK_ALL_READ_BURST_SIZE \<longrightarrow> 1 \<le> n"
    using short by blast
  have timer: "rs_markTimer ?s2 = None"
    using drainLoop.induct [of "\<lambda>env now q s. rs_markTimer s = None \<longrightarrow> rs_markTimer (drainLoop env now q s) = None"]
    by (auto simp: Let_def)
  have some: "rs_markSentAt ?s2 \<noteq> []" if "rs_markQueue ?s2 \<noteq> []"
    using that pass by (auto simp: MARK_ALL_READ_BURST_SIZE_def)
  show "pace_ok (drainMarkQueue env now s)"
    using pass timer some by (auto simp: pace_ok_def drainMarkQueue_def Let_def)
  show "length (rs_markQueue (drainMarkQueue env now s)) < length (rs_markQueue s)"
    if "rs_markQueue s \<noteq> []" "length (filter (\<lambda>t. now - t < MARK_ALL_READ_BURST_INTERVAL_MS) (rs_markSentAt s)) < MARK_ALL_READ_BURST_SIZE"
    using that pass by (auto simp: drainMarkQueue_def Let_def)
qed

lemma pace_ok_fire:
  assumes "pace_ok s" and "rs_markTimer s = Some due"
  shows "pace_ok (drainMarkQueue env due s) \<and> length (rs_markQueue (drainMarkQueue env due s)) < length (rs_markQueue s)"
proof -
  from assms have s: "length (rs_markSentAt s) \<le> MARK_ALL_READ_BURST_SIZE" "rs_markQueue s \<noteq> []" "rs_markSentAt s \<noteq> []"
    "\<not> due - hd (rs_markSentAt s) < MARK_ALL_READ_BURST_INTERVAL_MS"
    by (auto simp: pace_ok_def)
  then obtain t ts where ts: "rs_markSentAt s = t # ts" by (cases "rs_markSentAt s") auto
  with s have "length (filter (\<lambda>t. due - t < MARK_ALL_READ_BURST_INTERVAL_MS) (rs_markSentAt s)) < MARK_ALL_READ_BURST_SIZE"
    by (simp add: le_less_trans [OF length_filter_le])
  with drainMarkQueue_pace [OF s(1)] s(2) show ?thesis by blast
qed

text \<open>The timer fires whenever it is due, each time in an environment of its own.\<close>

fun fire_all :: "read_env list \<Rightarrow> read_state \<Rightarrow> read_state" where
  "fire_all [] s = s"
| "fire_all (env # envs) s = (case rs_markTimer s of None \<Rightarrow> s | Some due \<Rightarrow> fire_all envs (drainMarkQueue env due s))"

lemma fire_all_empties: "pace_ok s \<Longrightarrow> length (rs_markQueue s) \<le> length envs \<Longrightarrow>
    rs_markQueue (fire_all envs s) = [] \<and> rs_markTimer (fire_all envs s) = None"
proof (induction envs arbitrary: s)
  case Nil
  then show ?case by (auto simp: pace_ok_def split: option.splits)
next
  case (Cons env envs)
  show ?case
  proof (cases "rs_markTimer s")
    case None
    with Cons.prems(1) show ?thesis by (simp add: pace_ok_def)
  next
    case (Some due)
    note fire = pace_ok_fire [OF Cons.prems(1) Some, of env]
    have "length (rs_markQueue (drainMarkQueue env due s)) \<le> length envs" using fire Cons.prems(2) by simp
    with Cons.IH [of "drainMarkQueue env due s"] fire Some show ?thesis by simp
  qed
qed

definition sample_env :: read_env where
  "sample_env = \<lparr>re_hasFocus = True, re_detached = (\<lambda>_. False), re_settingsOpen = False, re_viewOpen = False,
     re_dialogOpen = False, re_readPointer = True, re_threadKnown = (\<lambda>_. False)\<rparr>"

text \<open>A direct message with three unread messages and a read pointer.\<close>

definition sample_read :: read_state where
  "sample_read = \<lparr>rs_dms = \<lparr>ds_channels = [(mapDmPayload (sample_dm 1 (Some 10) 3))\<lparr>dm_lastReadMessageId := Some 7\<rparr>]\<rparr>,
     rs_channels = CHANNELS_INITIAL_STATE, rs_liveTailOutOfView = [], rs_sender = True, rs_markQueue = [],
     rs_markSentAt = [], rs_markTimer = None, rs_pendingLiveSeen = [], rs_highestSeen = [], rs_unreadHold = [],
     rs_pendingMarkUnread = [], rs_threadPointers = [], rs_out = []\<rparr>"

text \<open>C31: Mark All as Read always finishes: whatever was queued, and whatever the environment at each
  firing, after as many firings of its timer as channels are queued the queue is empty and no timer is
  left.\<close>

theorem mark_queue_empties:
  assumes "length (rs_markSentAt s) \<le> MARK_ALL_READ_BURST_SIZE" and "s' = fst (markChannelsRead env ids now s)"
    and "length (rs_markQueue s') \<le> length envs"
  shows "rs_markQueue (fire_all envs s') = [] \<and> rs_markTimer (fire_all envs s') = None"
proof -
  have "rs_markSentAt (fold enqueueMark ids s) = rs_markSentAt s"
    by (induction ids arbitrary: s) (simp_all add: enqueueMark_def Let_def)
  then have "pace_ok s'" unfolding assms(2) markChannelsRead_def using assms(1) by (simp add: drainMarkQueue_pace(1))
  from fire_all_empties [OF this assms(3)] show ?thesis .
qed

theorem mark_queue_empties_witness:
  "rs_markQueue (fire_all (replicate 9 sample_env)
     (fst (markChannelsRead sample_env [1] 50 (sample_read\<lparr>rs_markQueue := [(2, 1), (3, 1), (4, 1), (5, 1), (6, 1)]\<rparr>)))) = []"
proof -
  let ?s = "sample_read\<lparr>rs_markQueue := [(2, 1), (3, 1), (4, 1), (5, 1), (6, 1)]\<rparr>"
  have "length (rs_markSentAt ?s) \<le> MARK_ALL_READ_BURST_SIZE" by (simp add: sample_read_def)
  moreover have "length (rs_markQueue (fst (markChannelsRead sample_env [1] 50 ?s))) \<le> length (replicate 9 sample_env)"
  proof -
    let ?e = "(fold enqueueMark [1] ?s)\<lparr>rs_markTimer := None\<rparr>"
    have "length (rs_markQueue ?e) \<le> 6" by (simp add: enqueueMark_def Let_def sample_read_def)
    moreover have "length (rs_markQueue (drainMarkQueue env now t)) \<le> length (rs_markQueue t)" for env now t
    proof -
      let ?t = "t\<lparr>rs_markTimer := None, rs_markSentAt := filter (\<lambda>x. now - x < MARK_ALL_READ_BURST_INTERVAL_MS) (rs_markSentAt t)\<rparr>"
      from drainLoop_pass [of env now "rs_markQueue t" ?t] show ?thesis by (auto simp: drainMarkQueue_def Let_def)
    qed
    from this [of sample_env 50 ?e] \<open>length (rs_markQueue ?e) \<le> 6\<close> show ?thesis by (simp add: markChannelsRead_def)
  qed
  ultimately show ?thesis using mark_queue_empties [OF _ refl] by blast
qed

subsection \<open>The budget over time\<close>

text \<open>A run of the queue: marks asked for, firings of the timer, and anything the rest of the client does
  to the stores in between; with the clock, the instants the queue spent of its budget, and those of
  the frames it sent.\<close>

datatype pace_event = Pace_mark "int list" int | Pace_timer int | Pace_stores channels_state dm_state

record pace_run =
  pr_state :: read_state
  pr_clock :: int
  pr_spent :: "int list"
  pr_sent :: "int list"

definition paced :: "pace_run \<Rightarrow> int \<Rightarrow> read_state \<Rightarrow> pace_run" where
  "paced r now s' = (
     let old = filter (\<lambda>t. now - t < MARK_ALL_READ_BURST_INTERVAL_MS) (rs_markSentAt (pr_state r))
     in \<lparr>pr_state = s', pr_clock = now,
         pr_spent = pr_spent r @ drop (length old) (rs_markSentAt s'),
         pr_sent = pr_sent r @ replicate (length (rs_out s') - length (rs_out (pr_state r))) now\<rparr>)"

inductive pace_step :: "pace_run \<Rightarrow> read_env \<times> pace_event \<Rightarrow> pace_run \<Rightarrow> bool" where
  pace_mark: "pr_clock r \<le> now \<Longrightarrow>
    pace_step r (env, Pace_mark ids now) (paced r now (fst (markChannelsRead env ids now (pr_state r))))"
| pace_timer: "pr_clock r \<le> now \<Longrightarrow>
    pace_step r (env, Pace_timer now) (paced r now (drainMarkQueue env now (pr_state r)))"
| pace_stores: "pace_step r (env, Pace_stores cs ds)
    (r\<lparr>pr_state := (pr_state r)\<lparr>rs_channels := cs, rs_dms := ds\<rparr>\<rparr>)"

definition pace_start :: "read_state \<Rightarrow> int \<Rightarrow> pace_run" where
  "pace_start s now = \<lparr>pr_state = cancelPendingMarkAll s, pr_clock = now, pr_spent = [], pr_sent = []\<rparr>"

definition pace_run_ok :: "pace_run \<Rightarrow> bool" where
  "pace_run_ok r \<longleftrightarrow>
     key_ok MARK_ALL_READ_BURST_INTERVAL_MS (int MARK_ALL_READ_BURST_SIZE) (pr_clock r) (pr_spent r) (rs_markSentAt (pr_state r)) \<and>
     length (rs_markSentAt (pr_state r)) \<le> MARK_ALL_READ_BURST_SIZE \<and>
     (\<forall>a. length (in_window MARK_ALL_READ_BURST_INTERVAL_MS a (pr_sent r)) \<le> length (in_window MARK_ALL_READ_BURST_INTERVAL_MS a (pr_spent r)))"

lemma paced_ok:
  assumes ok: "pace_run_ok r" and "pr_clock r \<le> now"
    and s: "rs_markSentAt s = rs_markSentAt (pr_state r)" "rs_out s = rs_out (pr_state r)"
  shows "pace_run_ok (paced r now (drainMarkQueue env now s))"
proof -
  let ?w = MARK_ALL_READ_BURST_INTERVAL_MS
  let ?old = "filter (\<lambda>t. now - t < ?w) (rs_markSentAt (pr_state r))"
  let ?s1 = "s\<lparr>rs_markTimer := None, rs_markSentAt := filter (\<lambda>t. now - t < ?w) (rs_markSentAt s)\<rparr>"
  have short: "length (rs_markSentAt ?s1) \<le> MARK_ALL_READ_BURST_SIZE"
    using ok s by (simp add: pace_run_ok_def order_trans [OF length_filter_le])
  from drainLoop_pass [of env now "rs_markQueue s" ?s1] obtain k frames where pass:
    "rs_markSentAt (drainLoop env now (rs_markQueue s) ?s1) = rs_markSentAt ?s1 @ replicate k now"
    "rs_out (drainLoop env now (rs_markQueue s) ?s1) = rs_out ?s1 @ frames" "length frames \<le> k"
    "length (rs_markSentAt ?s1) + k \<le> MARK_ALL_READ_BURST_SIZE"
    using short by blast
  then have sent: "rs_markSentAt (drainMarkQueue env now s) = ?old @ replicate k now"
    and out: "rs_out (drainMarkQueue env now s) = rs_out s @ frames" "length frames \<le> k"
    and room: "length ?old + k \<le> MARK_ALL_READ_BURST_SIZE"
    by (simp_all add: drainMarkQueue_def Let_def s)
  have one_le: "1 \<le> ?w" by (simp add: MARK_ALL_READ_BURST_INTERVAL_MS_def)
  have old: "?old = filter (\<lambda>t. now - ?w < t) (rs_markSentAt (pr_state r))" by (rule filter_cong) auto
  have "key_ok ?w (int MARK_ALL_READ_BURST_SIZE) (pr_clock r) (pr_spent r) (rs_markSentAt (pr_state r))"
    using ok by (simp add: pace_run_ok_def)
  from key_ok_grants [OF this assms(2) one_le, of k] room
  have "key_ok ?w (int MARK_ALL_READ_BURST_SIZE) now (pr_spent r @ replicate k now) (?old @ replicate k now)"
    unfolding old by simp
  moreover have "length (in_window ?w a (pr_sent r @ replicate (length frames) now)) \<le>
      length (in_window ?w a (pr_spent r @ replicate k now))" for a
    using ok out(2) by (auto simp: pace_run_ok_def in_window_def filter_replicate intro!: add_mono)
  ultimately show ?thesis
    using sent out room s(2) by (simp add: pace_run_ok_def paced_def Let_def)
qed

lemma enqueue_frame: "rs_markSentAt (fold enqueueMark ids s) = rs_markSentAt s" "rs_out (fold enqueueMark ids s) = rs_out s"
  by (induction ids arbitrary: s) (simp_all add: enqueueMark_def Let_def)

interpretation pace: invariant_system pace_step "pace_start s now" pace_run_ok
  for s now
proof
  show "pace_run_ok (pace_start s now)"
    by (auto simp: pace_run_ok_def pace_start_def cancelPendingMarkAll_def key_ok_def in_window_def)
next
  fix r ev r'
  assume ok: "pace_run_ok r" and "pace_step r ev r'"
  from this(2) show "pace_run_ok r'"
  proof (cases rule: pace_step.cases)
    case (pace_mark now env ids)
    then show ?thesis
      using paced_ok [OF ok, of now "(fold enqueueMark ids (pr_state r))\<lparr>rs_markTimer := None\<rparr>" env]
      by (simp add: markChannelsRead_def enqueue_frame)
  next
    case (pace_timer now env)
    then show ?thesis using paced_ok [OF ok, of now "pr_state r" env] by simp
  qed (use ok in \<open>simp add: pace_run_ok_def\<close>)
qed

text \<open>C13: The queue stays inside the server's budget: over any run, on a clock that does not go back, no
  window of 1100 ms holds more than four of the frames it sends, whichever calls overlap and whatever
  arrives in between.\<close>

theorem mark_queue_budget:
  assumes "runs pace_step (pace_start s start) evs r"
  shows "length (filter (\<lambda>t. a < t \<and> t \<le> a + MARK_ALL_READ_BURST_INTERVAL_MS) (pr_sent r)) \<le> MARK_ALL_READ_BURST_SIZE"
proof -
  have "pace_run_ok r" by (rule pace.reachable_inv [OF assms])
  then have "int (length (in_window MARK_ALL_READ_BURST_INTERVAL_MS a (pr_spent r))) \<le> int MARK_ALL_READ_BURST_SIZE"
    "length (in_window MARK_ALL_READ_BURST_INTERVAL_MS a (pr_sent r)) \<le> length (in_window MARK_ALL_READ_BURST_INTERVAL_MS a (pr_spent r))"
    by (simp_all add: pace_run_ok_def key_ok_def)
  then show ?thesis by (simp add: in_window_def)
qed

theorem mark_queue_budget_witness:
  "\<exists>r. runs pace_step (pace_start sample_read 0) [(sample_env, Pace_mark [1] 20)] r \<and>
     length (filter (\<lambda>t. 10 < t \<and> t \<le> 10 + MARK_ALL_READ_BURST_INTERVAL_MS) (pr_sent r)) \<le> MARK_ALL_READ_BURST_SIZE"
proof -
  have "pace_step (pace_start sample_read 0) (sample_env, Pace_mark [1] 20)
      (paced (pace_start sample_read 0) 20 (fst (markChannelsRead sample_env [1] 20 (pr_state (pace_start sample_read 0)))))"
    by (rule pace_mark) (simp add: pace_start_def)
  then have run: "runs pace_step (pace_start sample_read 0) [(sample_env, Pace_mark [1] 20)]
      (paced (pace_start sample_read 0) 20 (fst (markChannelsRead sample_env [1] 20 (pr_state (pace_start sample_read 0)))))"
    by (rule runs_Cons [OF _ runs_Nil])
  from run mark_queue_budget [OF run] show ?thesis by blast
qed


subsection \<open>A channel marked unread\<close>

text \<open>What the reader, the message list and the page do; the last three are how a hold is released.\<close>

datatype reader_action =
    Seen_message int int bool
  | Seen_visible int int
  | Mark_seen int
  | Live_note int bool int
  | Live_abort int
  | Live_fires int
  | Unload
  | Tail int bool
  | Away_unread int
  | Leave int
  | Mark int

fun reader_apply :: "read_env \<times> reader_action \<Rightarrow> read_state \<Rightarrow> read_state" where
  "reader_apply (env, Seen_message c m live) s = noteMessageSeen env c m live s"
| "reader_apply (env, Seen_visible c m) s = noteVisibleMessageSeen env c m s"
| "reader_apply (env, Mark_seen c) s = markChannelReadSeen env c s"
| "reader_apply (env, Live_note c aborted now) s = noteLiveMessageSeen c aborted now s"
| "reader_apply (env, Live_abort c) s = liveSeenAborted c s"
| "reader_apply (env, Live_fires c) s = liveSeenFires env c s"
| "reader_apply (env, Unload) s = markActiveChannelReadOnUnload env s"
| "reader_apply (env, Tail c inView) s = setLiveTailInView c inView s"
| "reader_apply (env, Away_unread c) s = noteAwayUnread c s"
| "reader_apply (env, Leave c) s = leaveChannel env c s"
| "reader_apply (env, Mark c) s = markChannelRead env c s"

fun stays_on :: "int \<Rightarrow> reader_action \<Rightarrow> bool" where
  "stays_on c (Tail d inView) = (d \<noteq> c \<or> inView)"
| "stays_on c (Away_unread d) = (d \<noteq> c)"
| "stays_on c (Leave d) = (d \<noteq> c)"
| "stays_on c (Mark d) = (d \<noteq> c)"
| "stays_on c _ = True"

text \<open>What the client shows of a channel: its rows in the two stores and its thread pointer; and the
  frames that told the server it was read.\<close>

definition reading :: "int \<Rightarrow> read_state \<Rightarrow> channel option \<times> dm_channel option \<times> int option" where
  "reading c s = (jm_get (cs_channels (rs_channels s)) c, dm_find (rs_dms s) c, jm_get (rs_threadPointers s) c)"

fun marks :: "int \<Rightarrow> read_effect \<Rightarrow> bool" where
  "marks c (Mark_read d _) = (d = c)"
| "marks c _ = False"

definition held :: "int \<Rightarrow> read_state \<Rightarrow> bool" where
  "held c s \<longleftrightarrow> jm_get (rs_unreadHold s) c = Some False \<and> jm_get (rs_highestSeen s) c = None"

definition untouched :: "int \<Rightarrow> read_state \<Rightarrow> read_state \<Rightarrow> bool" where
  "untouched c s t \<longleftrightarrow> held c t \<and> reading c t = reading c s \<and> filter (marks c) (rs_out t) = filter (marks c) (rs_out s)"

lemma dm_find_map_dm_other: "c \<noteq> d \<Longrightarrow> (\<And>x. dm_channelId (f x) = dm_channelId x) \<Longrightarrow>
    dm_find \<lparr>ds_channels = map_dm d f xs\<rparr> c = dm_find \<lparr>ds_channels = xs\<rparr> c"
  by (induction xs) (auto simp: map_dm_def)

lemma with_channel_other [simp]: "c \<noteq> d \<Longrightarrow> jm_get (cs_channels (with_channel st d f)) c = jm_get (cs_channels st) c"
  by (simp add: with_channel_def split: option.split)

lemma dm_find_setDmReadPointer_other: "c \<noteq> d \<Longrightarrow> dm_find (setDmReadPointer d p n s) c = dm_find s c"
  unfolding setDmReadPointer_def
  by (cases s, cases n) (auto simp: Let_def intro!: dm_find_map_dm_other)

lemma dm_find_clear_other: "c \<noteq> d \<Longrightarrow> dm_find (clearDmUnread d s) c = dm_find s c"
  unfolding clearDmUnread_def by (cases s) (simp add: dm_find_map_dm_other)

lemma untouched_refl: "held c s \<Longrightarrow> untouched c s s"
  by (simp add: untouched_def)

lemma untouched_trans: "untouched c s t \<Longrightarrow> untouched c t u \<Longrightarrow> untouched c s u"
  by (simp add: untouched_def)

lemmas touch_defs = untouched_def held_def reading_def

lemma untouched_write: "held c s \<Longrightarrow> c \<noteq> d \<Longrightarrow> untouched c s (writeReadPointer env d p n fwd s)"
  by (simp add: touch_defs writeReadPointer_def Let_def setThreadReadPointer_def setReadPointer_def
      dm_find_setDmReadPointer_other)

lemma untouched_clear: "held c s \<Longrightarrow> c \<noteq> d \<Longrightarrow> untouched c s (clear_badges d s)"
  by (simp add: touch_defs clear_badges_def clearUnread_def dm_find_clear_other)

lemma untouched_markChannelRead: "held c s \<Longrightarrow> c \<noteq> d \<Longrightarrow> untouched c s (markChannelRead env d s)"
  by (simp add: touch_defs markChannelRead_def Let_def read_emit_def clear_badges_def clearUnread_def dm_find_clear_other)

lemma untouched_sendSeen:
  assumes "held c s"
  shows "untouched c s (sendSeen env d s)"
proof (cases "c = d")
  case True
  with assms show ?thesis by (simp add: sendSeen_def held_def untouched_refl)
next
  case False
  have "untouched c s (read_emit (Mark_read d (Some seen)) s)" for seen
    using assms False by (simp add: touch_defs read_emit_def)
  then have "untouched c s (writeReadPointer env d seen None True (read_emit (Mark_read d (Some seen)) s))" for seen
    using untouched_write [OF _ False] untouched_trans untouched_def by blast
  with assms show ?thesis by (simp add: sendSeen_def untouched_refl split: option.split)
qed

lemma untouched_markChannelReadSeen:
  assumes "held c s" and "re_readPointer env"
  shows "untouched c s (markChannelReadSeen env d s)"
proof -
  have sent: "untouched c s (sendSeen env d s)" by (rule untouched_sendSeen [OF assms(1)])
  then have "held c (sendSeen env d s)" by (simp add: untouched_def)
  with sent have "untouched c s (clear_badges d (sendSeen env d s))" if "c \<noteq> d"
    using untouched_clear [OF _ that] untouched_trans by blast
  moreover have "jm_has (rs_unreadHold (sendSeen env d s)) c" using sent by (simp add: touch_defs)
  ultimately show ?thesis using sent assms(2) by (cases "c = d") (auto simp: markChannelReadSeen_def Let_def)
qed

lemma untouched_reader:
  assumes held: "held c s" and env: "re_readPointer env" and "stays_on c a"
  shows "untouched c s (reader_apply (env, a) s)"
proof (cases a)
  case (Live_fires d)
  have "untouched c s (s\<lparr>rs_pendingLiveSeen := jm_delete (rs_pendingLiveSeen s) d\<rparr>)" (is "untouched c s ?s")
    using held by (simp add: touch_defs)
  moreover from this have "untouched c ?s (markChannelReadSeen env d ?s)"
    by (intro untouched_markChannelReadSeen env) (simp add: untouched_def)
  ultimately show ?thesis using held env Live_fires
    by (auto simp: liveSeenFires_def Let_def untouched_refl intro: untouched_trans)
next
  case Unload
  have "untouched c s (cancelPendingLiveSeen s)" using held by (simp add: touch_defs cancelPendingLiveSeen_def)
  moreover from this have "untouched c (cancelPendingLiveSeen s) (sendSeen env d (cancelPendingLiveSeen s))" for d
    by (intro untouched_sendSeen) (simp add: untouched_def)
  ultimately have "untouched c s (sendSeen env d (cancelPendingLiveSeen s))" for d by (rule untouched_trans)
  with held env Unload show ?thesis
    by (simp add: markActiveChannelReadOnUnload_def untouched_refl split: option.split)
next
  case (Leave d)
  with assms(3) have d: "c \<noteq> d" by simp
  have "untouched c s (sendSeen env d s)" by (rule untouched_sendSeen [OF held])
  with d env Leave show ?thesis by (simp add: leaveChannel_def Let_def touch_defs)
next
  case (Mark_seen d)
  with held env show ?thesis by (simp add: untouched_markChannelReadSeen)
next
  case (Mark d)
  with assms show ?thesis by (simp add: untouched_markChannelRead)
qed (use assms in \<open>auto simp: noteMessageSeen_def
    noteVisibleMessageSeen_def raiseHighestSeen_def noteLiveMessageSeen_def liveSeenAborted_def
    setLiveTailInView_def noteAwayUnread_def touch_defs split: option.splits\<close>)

lemma untouched_readers:
  "held c s \<Longrightarrow> \<forall>(env, a) \<in> set acts. re_readPointer env \<and> stays_on c a \<Longrightarrow> untouched c s (fold reader_apply acts s)"
proof (induction acts arbitrary: s)
  case (Cons act acts)
  obtain env a where act: "act = (env, a)" by (cases act)
  with Cons.prems have one: "untouched c s (reader_apply act s)" using untouched_reader by auto
  then have "untouched c (reader_apply act s) (fold reader_apply acts (reader_apply act s))"
    using Cons.prems(2) by (intro Cons.IH) (simp_all add: untouched_def)
  from untouched_trans [OF one this] show ?case by simp
qed (simp add: untouched_refl)

lemma beginMarkUnread_held:
  assumes "beginMarkUnread env c m p i s = (s', True)" and "\<not> isChannelAway env s c"
  shows "held c s'"
  using assms by (auto simp: beginMarkUnread_def Let_def writeReadPointer_def setThreadReadPointer_def held_def split: if_splits)


text \<open>C20: A channel the reader marked unread, looking at it, stays unread: no sequence of what the list and
  the page report afterwards, live messages of that channel included, sends a mark-read for it, clears
  its badges or moves its pointer, until the reader leaves it, marks it read or is away.\<close>

theorem mark_unread_holds:
  assumes "beginMarkUnread env c m p i s = (s', True)" and "\<not> isChannelAway env s c"
    and "\<forall>(e, a) \<in> set acts. re_readPointer e \<and> stays_on c a"
  shows "isHeldUnread (fold reader_apply acts s') c \<and> reading c (fold reader_apply acts s') = reading c s' \<and>
    filter (marks c) (rs_out (fold reader_apply acts s')) = filter (marks c) (rs_out s')"
  using untouched_readers [OF beginMarkUnread_held [OF assms(1,2)] assms(3)]
  by (simp add: touch_defs isHeldUnread_def)

theorem mark_unread_holds_witness:
  "\<exists>s'. beginMarkUnread sample_env 1 9 8 ''r'' sample_read = (s', True) \<and>
     isHeldUnread (fold reader_apply [(sample_env, Seen_message 1 12 True), (sample_env, Mark_seen 1), (sample_env, Unload)] s') 1 \<and>
     reading 1 (fold reader_apply [(sample_env, Seen_message 1 12 True), (sample_env, Mark_seen 1), (sample_env, Unload)] s') = reading 1 s'"
proof -
  obtain s' where s': "beginMarkUnread sample_env 1 9 8 ''r'' sample_read = (s', True)"
    by (simp add: beginMarkUnread_def isKnownChannel_def sample_env_def sample_read_def Let_def)
  have here: "\<not> isChannelAway sample_env sample_read 1" by (simp add: isChannelAway_def sample_env_def sample_read_def)
  have "\<forall>(e, a) \<in> set [(sample_env, Seen_message 1 12 True), (sample_env, Mark_seen 1), (sample_env, Unload)].
      re_readPointer e \<and> stays_on 1 a" by (simp add: sample_env_def)
  from mark_unread_holds [OF s' here this] s' show ?thesis by blast
qed

subsection \<open>A refused Mark Unread\<close>

lemma jm_get_with_channel: "jm_get (cs_channels (with_channel st d f)) c =
    (if c = d then map_option f (jm_get (cs_channels st) c) else jm_get (cs_channels st) c)"
  by (simp add: with_channel_def split: option.split)

lemma dm_find_map_dm: "(\<And>x. dm_channelId (f x) = dm_channelId x) \<Longrightarrow>
    dm_find \<lparr>ds_channels = map_dm c f xs\<rparr> c = map_option f (dm_find \<lparr>ds_channels = xs\<rparr> c)"
  by (induction xs) (auto simp: map_dm_def dm_find_def)

lemma dm_find_setDmReadPointer:
  "dm_find (setDmReadPointer c p None s) c = map_option (\<lambda>x. x\<lparr>dm_lastReadMessageId := p\<rparr>) (dm_find s c)"
proof (cases "list_ex (\<lambda>x. dm_channelId x = c) (ds_channels s)")
  case True
  then show ?thesis by (cases s) (simp add: setDmReadPointer_def dm_find_map_dm)
next
  case False
  then have "dm_find s c = None" by (auto simp: dm_find_None list_ex_iff)
  with False show ?thesis by (simp add: setDmReadPointer_def)
qed

lemma rawPointer_write:
  assumes "isKnownChannel env s c" and "re_threadKnown env c \<or> jm_get (rs_threadPointers s) c = None"
  shows "rawPointer (writeReadPointer env c p None False s) c = Some p"
proof -
  have row: "Option.bind (jm_get (cs_channels (setReadPointer (rs_channels s) c (Some p) None)) c) ch_lastReadMessageId =
      (case jm_get (cs_channels (rs_channels s)) c of None \<Rightarrow> None | Some _ \<Rightarrow> Some p)"
    by (simp add: setReadPointer_def jm_get_with_channel Let_def split: option.split)
  show ?thesis
  proof (cases "jm_get (cs_channels (rs_channels s)) c")
    case (Some ch)
    with row show ?thesis by (simp add: rawPointer_def writeReadPointer_def Let_def setThreadReadPointer_def)
  next
    case None
    show ?thesis
    proof (cases "re_threadKnown env c")
      case True
      with None row show ?thesis by (simp add: rawPointer_def writeReadPointer_def Let_def setThreadReadPointer_def)
    next
      case False
      with None assms(1) obtain d where "dm_find (rs_dms s) c = Some d"
        using dm_find_None [of "rs_dms s" c] by (auto simp: isKnownChannel_def list_ex_iff)
      with None row False assms(2) show ?thesis
        by (simp add: rawPointer_def writeReadPointer_def Let_def dm_find_setDmReadPointer split: option.split)
    qed
  qed
qed

lemma known_write [simp]: "isKnownChannel env (writeReadPointer env d p None fwd s) c = isKnownChannel env s c"
proof -
  have "list_ex (\<lambda>x. dm_channelId x = c) (map_dm d (\<lambda>x. x\<lparr>dm_lastReadMessageId := q\<rparr>) xs) = list_ex (\<lambda>x. dm_channelId x = c) xs" for q xs
    by (induction xs) (auto simp: map_dm_def)
  then show ?thesis
    by (simp add: isKnownChannel_def writeReadPointer_def Let_def setThreadReadPointer_def setDmReadPointer_def
        setReadPointer_def jm_get_with_channel)
qed


lemma known_reading: "reading c s = reading c t \<Longrightarrow> isKnownChannel env s c = isKnownChannel env t c"
proof -
  have "list_ex (\<lambda>x. dm_channelId x = c) (ds_channels d) \<longleftrightarrow> dm_find d c \<noteq> None" for d
    by (auto simp: dm_find_None list_ex_iff)
  then show "reading c s = reading c t \<Longrightarrow> ?thesis" by (simp add: isKnownChannel_def reading_def)
qed

lemma pending_write [simp]: "rs_pendingMarkUnread (writeReadPointer env d p n fwd s) = rs_pendingMarkUnread s"
  by (simp add: writeReadPointer_def Let_def setThreadReadPointer_def)

lemma pending_markChannelRead [simp]: "rs_pendingMarkUnread (markChannelRead env d s) = rs_pendingMarkUnread s"
  by (simp add: markChannelRead_def Let_def clear_badges_def read_emit_def)

lemma pending_sendSeen [simp]: "rs_pendingMarkUnread (sendSeen env d s) = rs_pendingMarkUnread s"
  by (simp add: sendSeen_def read_emit_def split: option.split)

lemma pending_markChannelReadSeen [simp]: "rs_pendingMarkUnread (markChannelReadSeen env d s) = rs_pendingMarkUnread s"
  by (simp add: markChannelReadSeen_def Let_def clear_badges_def)

lemma pending_reader: "rs_pendingMarkUnread (reader_apply act s) = rs_pendingMarkUnread s"
proof (cases act)
  case (Pair env a)
  then show ?thesis
    by (cases a) (simp_all add: noteMessageSeen_def noteVisibleMessageSeen_def raiseHighestSeen_def
      noteLiveMessageSeen_def liveSeenAborted_def liveSeenFires_def Let_def cancelPendingLiveSeen_def
      markActiveChannelReadOnUnload_def setLiveTailInView_def noteAwayUnread_def leaveChannel_def split: option.split)
qed

lemma pending_readers: "rs_pendingMarkUnread (fold reader_apply acts s) = rs_pendingMarkUnread s"
  by (induction acts arbitrary: s) (simp_all add: pending_reader)

lemma beginMarkUnread_pending:
  assumes "beginMarkUnread env c m p i s = (s', True)"
  shows "jm_get (rs_pendingMarkUnread s') i = Some \<lparr>pm_channelId = c, pm_messageId = m, pm_previous = rawPointer s c\<rparr>"
    and "isKnownChannel env s c" and "isKnownChannel env s' c"
    and "\<not> re_threadKnown env c \<Longrightarrow> jm_get (rs_threadPointers s') c = jm_get (rs_threadPointers s) c"
proof -
  from assms have s': "re_readPointer env" "isKnownChannel env s c"
    "s' = writeReadPointer env c p None False (s\<lparr>rs_pendingMarkUnread := jm_set (rs_pendingMarkUnread s) i
                \<lparr>pm_channelId = c, pm_messageId = m, pm_previous = rawPointer s c\<rparr>,
              rs_highestSeen := jm_delete (rs_highestSeen s) c,
              rs_unreadHold := jm_set (rs_unreadHold s) c (isChannelAway env s c)\<rparr>)"
    by (auto simp: beginMarkUnread_def Let_def split: if_splits)
  then show "jm_get (rs_pendingMarkUnread s') i = Some \<lparr>pm_channelId = c, pm_messageId = m, pm_previous = rawPointer s c\<rparr>"
    "isKnownChannel env s c" by simp_all
  from s' show "isKnownChannel env s' c" by (simp add: isKnownChannel_def [of env "s\<lparr>rs_pendingMarkUnread := _, rs_highestSeen := _, rs_unreadHold := _\<rparr>"])
      (simp add: isKnownChannel_def)
  from s' show "\<not> re_threadKnown env c \<Longrightarrow> jm_get (rs_threadPointers s') c = jm_get (rs_threadPointers s) c"
    by (simp add: writeReadPointer_def Let_def)
qed

text \<open>A Mark Unread that the server refuses is undone: whatever the list and the page reported since,
  the refusal is recognised by its request id, the channel's pointer is again the one from before the
  mark and the hold is gone.\<close>

theorem mark_unread_refused:
  assumes "beginMarkUnread env c m p i s = (s', True)" and "\<not> isChannelAway env s c"
    and "\<forall>(e, a) \<in> set acts. re_readPointer e \<and> stays_on c a"
    and "rawPointer s c = Some previous" and "re_threadKnown env c \<or> jm_get (rs_threadPointers s) c = None"
    and "(t, handled) = failMarkUnread env (Some i) notice (fold reader_apply acts s')"
  shows "handled \<and> rawPointer t c = Some previous \<and> \<not> isHeldUnread t c"
proof -
  let ?u = "fold reader_apply acts s'"
  have same: "reading c ?u = reading c s'"
    using untouched_readers [OF beginMarkUnread_held [OF assms(1,2)] assms(3)] by (simp add: touch_defs)
  note begun = beginMarkUnread_pending [OF assms(1)]
  let ?v = "?u\<lparr>rs_pendingMarkUnread := jm_delete (rs_pendingMarkUnread ?u) i, rs_unreadHold := jm_delete (rs_unreadHold ?u) c\<rparr>"
  have view: "reading c ?v = reading c s'" using same by (simp add: reading_def)
  have "isKnownChannel env ?v c" using begun(3) known_reading [OF view] by simp
  moreover have "re_threadKnown env c \<or> jm_get (rs_threadPointers ?v) c = None"
    using assms(5) begun(4) same by (cases "re_threadKnown env c") (simp_all add: reading_def)
  ultimately have "rawPointer (writeReadPointer env c previous None False ?v) c = Some previous" by (rule rawPointer_write)
  moreover have "rs_unreadHold (writeReadPointer env c previous None False ?v) = rs_unreadHold ?v"
    by (simp add: writeReadPointer_def Let_def setThreadReadPointer_def)
  moreover have "(t, handled) = (read_emit (Unread_notice notice) (read_emit (Mark_unread_failed c)
      (writeReadPointer env c previous None False ?v)), True)"
    using assms(4,6) begun(1) by (simp add: failMarkUnread_def pending_readers Let_def)
  ultimately show ?thesis by (simp add: read_emit_def rawPointer_def isHeldUnread_def)
qed


theorem mark_unread_refused_witness:
  "\<exists>t handled s'. beginMarkUnread sample_env 1 9 8 ''r'' sample_read = (s', True) \<and>
     (t, handled) = failMarkUnread sample_env (Some ''r'') RateLimited (fold reader_apply [(sample_env, Mark_seen 1)] s') \<and>
     handled \<and> rawPointer t 1 = Some 7 \<and> \<not> isHeldUnread t 1"
proof -
  obtain s' where s': "beginMarkUnread sample_env 1 9 8 ''r'' sample_read = (s', True)"
    by (simp add: beginMarkUnread_def isKnownChannel_def sample_env_def sample_read_def Let_def)
  obtain t handled where t: "(t, handled) = failMarkUnread sample_env (Some ''r'') RateLimited (fold reader_apply [(sample_env, Mark_seen 1)] s')"
    by (metis prod.exhaust)
  have here: "\<not> isChannelAway sample_env sample_read 1" by (simp add: isChannelAway_def sample_env_def sample_read_def)
  have acts: "\<forall>(e, a) \<in> set [(sample_env, Mark_seen 1)]. re_readPointer e \<and> stays_on 1 a" by (simp add: sample_env_def)
  have "rawPointer sample_read 1 = Some 7"
    by (simp add: rawPointer_def sample_read_def CHANNELS_INITIAL_STATE_def)
  moreover have "re_threadKnown sample_env 1 \<or> jm_get (rs_threadPointers sample_read) 1 = None" by (simp add: sample_read_def)
  ultimately show ?thesis using mark_unread_refused [OF s' here acts _ _ t] s' t by blast
qed

text \<open>A channel whose pointer was never known keeps the pointer the refused mark wrote: there is
  nothing to put back, so the list draws its NEW line where the mark asked although the server moved
  nothing.\<close>

theorem mark_unread_refused_unknown_pointer:
  assumes "re_readPointer env" and "isKnownChannel env s c" and "rawPointer s c = None"
    and "t = fst (failMarkUnread env (Some i) notice (fst (beginMarkUnread env c m p i s)))"
  shows "rawPointer t c = Some p"
proof -
  have threads: "jm_get (rs_threadPointers s) c = None" using assms(3) by (auto simp: rawPointer_def alt_def split: option.splits)
  let ?s = "s\<lparr>rs_pendingMarkUnread := jm_set (rs_pendingMarkUnread s) i \<lparr>pm_channelId = c, pm_messageId = m, pm_previous = None\<rparr>,
              rs_highestSeen := jm_delete (rs_highestSeen s) c,
              rs_unreadHold := jm_set (rs_unreadHold s) c (isChannelAway env s c)\<rparr>"
  have begun: "fst (beginMarkUnread env c m p i s) = writeReadPointer env c p None False ?s"
    using assms(1-3) by (simp add: beginMarkUnread_def Let_def)
  have "isKnownChannel env ?s c" using assms(2) by (simp add: isKnownChannel_def)
  with threads have "rawPointer (writeReadPointer env c p None False ?s) c = Some p" by (intro rawPointer_write) simp_all
  with begun assms(4) show ?thesis by (simp add: failMarkUnread_def Let_def read_emit_def rawPointer_def)
qed

theorem mark_unread_refused_unknown_pointer_witness:
  "\<exists>s. rawPointer s 1 = None \<and>
     rawPointer (fst (failMarkUnread sample_env (Some ''r'') NotFound (fst (beginMarkUnread sample_env 1 9 8 ''r'' s)))) 1 = Some 8"
proof -
  let ?s = "sample_read\<lparr>rs_dms := \<lparr>ds_channels = [(mapDmPayload (sample_dm 1 (Some 10) 3))\<lparr>dm_lastReadMessageId := None\<rparr>]\<rparr>\<rparr>"
  have "re_readPointer sample_env" by (simp add: sample_env_def)
  moreover have "isKnownChannel sample_env ?s 1" by (simp add: isKnownChannel_def)
  moreover have "rawPointer ?s 1 = None" by (simp add: rawPointer_def sample_read_def CHANNELS_INITIAL_STATE_def)
  ultimately show ?thesis using mark_unread_refused_unknown_pointer [of sample_env ?s 1, OF _ _ _ refl] by blast
qed

subsection \<open>Answers older than a pending Mark Unread\<close>

text \<open>While a Mark Unread of a channel waits, a pointer at or above its message changes nothing, and any
  other pointer ends every wait of that channel and of no other.\<close>

lemma fold_jm_delete: "jm_get (fold (\<lambda>(i, _) m. jm_delete m i) xs m) k = (if k \<in> fst ` set xs then None else jm_get m k)"
  by (induction xs arbitrary: m) auto

theorem acceptReadState_answers:
  assumes "jm_wf (rs_pendingMarkUnread s)" and "jm_get (rs_pendingMarkUnread s) i = Some pending"
  shows "(pm_messageId pending \<le> pointer \<longrightarrow> acceptReadState (pm_channelId pending) pointer s = (s, False)) \<and>
    (snd (acceptReadState c pointer s) \<longrightarrow>
      jm_get (rs_pendingMarkUnread (fst (acceptReadState c pointer s))) i = (if pm_channelId pending = c then None else Some pending))"
proof -
  have mem: "(i, pending) \<in> set (rs_pendingMarkUnread s)" using assms(2) by (rule jm_get_SomeD)
  have "i \<in> fst ` set (filter (\<lambda>(_, p). pm_channelId p = c) (rs_pendingMarkUnread s)) \<longleftrightarrow> pm_channelId pending = c"
    using mem assms by (force dest: jm_get_mem)
  with mem assms(2) show ?thesis
    by (auto simp: acceptReadState_def Let_def list_ex_iff fold_jm_delete)
qed

end
