(* ===== verification/Auth_Store.thy ===== *)
theory Auth_Store
  imports Message_Model Members_Store
begin

text \<open>
  \<open>stores/auth.store.ts\<close>: the signed-in user and the server's greeting. \<open>clearAuth\<close> runs the session
  resets of the other stores, which are modelled with those stores; here it is the auth store's own
  state, with the voice snapshot as an argument.
\<close>

record user_with_role = message_user +
  uw_role :: string
  uw_role_ids :: "int list option"
  uw_totp_enabled :: "bool option"
  uw_about :: "string option option"
  uw_banner :: "string option option"
  uw_banner_color :: "string option option"
  uw_created_at :: "string option"
  uw_custom_status :: "string option option"
  uw_custom_status_expires_at :: "string option option"
  uw_status :: "user_status option"
  uw_identity_public_key :: "string option option"

record upload_policy =
  up_max_upload_bytes :: "int option"
  up_blocked_extensions :: "string list option"
  up_allowed_extensions :: "string list option"
  up_thumbnails :: "bool option"

record auth_state =
  au_token :: "string option"
  au_user :: "user_with_role option"
  au_serverName :: "string option"
  au_motd :: "string option"
  au_isAuthenticated :: bool
  au_logoutReason :: "string option"
  au_logoutWasInVoice :: "bool option"
  au_uploadPolicy :: "upload_policy option"

definition AUTH_INITIAL_STATE :: auth_state where
  "AUTH_INITIAL_STATE = \<lparr>au_token = None, au_user = None, au_serverName = None, au_motd = None, au_isAuthenticated = False,
     au_logoutReason = None, au_logoutWasInVoice = None, au_uploadPolicy = None\<rparr>"

definition keptTotp :: "user_with_role option \<Rightarrow> user_with_role \<Rightarrow> user_with_role" where
  "keptTotp known user = (case known of
     None \<Rightarrow> user
   | Some u \<Rightarrow>
       if uw_totp_enabled user = None \<and> u_id u = u_id user \<and> uw_totp_enabled u \<noteq> None
       then user\<lparr>uw_totp_enabled := uw_totp_enabled u\<rparr> else user)"

text \<open>An omitted policy is \<open>None\<close>; a policy of null is \<open>Some None\<close>.\<close>

definition setAuth :: "string \<Rightarrow> user_with_role \<Rightarrow> string \<Rightarrow> string \<Rightarrow> upload_policy option option \<Rightarrow> auth_state \<Rightarrow> auth_state" where
  "setAuth token user serverName motd policy prev = \<lparr>au_token = Some token, au_user = Some (keptTotp (au_user prev) user),
     au_serverName = Some serverName, au_motd = Some motd, au_isAuthenticated = True, au_logoutReason = None,
     au_logoutWasInVoice = None, au_uploadPolicy = nullish policy (au_uploadPolicy prev)\<rparr>"

definition setUploadFileTypes :: "string list \<Rightarrow> string list \<Rightarrow> auth_state \<Rightarrow> auth_state" where
  "setUploadFileTypes blocked allowed prev = prev\<lparr>au_uploadPolicy := Some
     \<lparr>up_max_upload_bytes = Option.bind (au_uploadPolicy prev) up_max_upload_bytes,
      up_blocked_extensions = Some blocked, up_allowed_extensions = Some allowed,
      up_thumbnails = Option.bind (au_uploadPolicy prev) up_thumbnails\<rparr>\<rparr>"

definition clearAuth :: "string \<Rightarrow> int option \<Rightarrow> auth_state \<Rightarrow> auth_state" where
  "clearAuth reason voiceChannel prev =
     AUTH_INITIAL_STATE\<lparr>au_logoutReason := Some reason, au_logoutWasInVoice := Some (voiceChannel \<noteq> None)\<rparr>"

definition updateUser :: "(user_with_role \<Rightarrow> user_with_role) \<Rightarrow> auth_state \<Rightarrow> auth_state" where
  "updateUser patch prev = prev\<lparr>au_user := map_option patch (au_user prev)\<rparr>"

text \<open>A reconnect keeps what the profile fetch established for the same account, and only for it.\<close>

lemma setAuth_totp:
  "au_user (setAuth token user sn motd policy prev) = Some u \<Longrightarrow>
     uw_totp_enabled u = (case uw_totp_enabled user of
       Some b \<Rightarrow> Some b
     | None \<Rightarrow> (case au_user prev of None \<Rightarrow> None | Some k \<Rightarrow> if u_id k = u_id user then uw_totp_enabled k else None))"
  by (auto simp: setAuth_def keptTotp_def split: option.splits)

definition sample_self :: "int \<Rightarrow> string \<Rightarrow> user_with_role" where
  "sample_self i name = \<lparr>u_id = i, u_username = name, u_avatar = None, u_display_name = None, uw_role = ''member'',
     uw_role_ids = None, uw_totp_enabled = None, uw_about = None, uw_banner = None, uw_banner_color = None,
     uw_created_at = None, uw_custom_status = None, uw_custom_status_expires_at = None, uw_status = None,
     uw_identity_public_key = None\<rparr>"

end
