(* ===== verification/Mentions.thy ===== *)
theory Mentions
  imports Message_Edits Auth_Store
begin

text \<open>
  \<open>lib/text/mentions.ts\<close>: which users and roles a message mentions. The two regular expressions are
  matchers on the text, run from left to right as \<open>matchAll\<close> does; the Unicode classes and
  \<open>toLowerCase\<close> are arguments, as are the stores the module reads. The lemmas show that a token that
  the text yields stands alone as a word, and that the badge of a row agrees with the pills inside it.
\<close>

subsection \<open>Environment\<close>

record mention_info =
  mi_mentions :: "int list option"
  mi_mentionsEveryone :: "bool option"
  mi_mentionRoles :: "int list option"

definition NO_INFO :: mention_info where
  "NO_INFO = \<lparr>mi_mentions = None, mi_mentionsEveryone = None, mi_mentionRoles = None\<rparr>"

text \<open>A username is opaque elsewhere; \<open>mv_text\<close> is its UTF-16 text.\<close>

record mention_env =
  mv_letterOrNumber :: "jstring \<Rightarrow> bool"
  mv_lower :: "jstring \<Rightarrow> jstring"
  mv_text :: "string \<Rightarrow> jstring"
  mv_members :: "(int, member) jmap"
  mv_me :: "user_with_role option"
  mv_roleIdByName :: "string \<Rightarrow> int option"

subsection \<open>Matching\<close>

text \<open>\<open>matchAll\<close> with a matcher that is told whether it stands at the start of the text, and that returns
  how much it matched.\<close>

function match_all :: "(bool \<Rightarrow> 'a list \<Rightarrow> ('b \<times> nat) option) \<Rightarrow> bool \<Rightarrow> 'a list \<Rightarrow> 'b list" where
  "match_all m start [] = []"
| "match_all m start (c # cs) = (case m start (c # cs) of
     None \<Rightarrow> match_all m False cs
   | Some (r, n) \<Rightarrow> r # match_all m False (drop (n - 1) cs))"
  by pat_completeness auto
termination by (relation "measure (\<lambda>(m, start, s). length s)") auto

record mention_match =
  mm_before :: "jstring list"
  mm_token :: "jstring list"
  mm_trail :: bool

definition wordRune :: "mention_env \<Rightarrow> jstring \<Rightarrow> bool" where
  "wordRune env c \<longleftrightarrow> mv_letterOrNumber env c \<or> c = js_lit ''_''"

definition tokenRune :: "mention_env \<Rightarrow> jstring \<Rightarrow> bool" where
  "tokenRune env c \<longleftrightarrow> wordRune env c \<or> c = js_lit ''.'' \<or> c = js_lit ''-''"

definition tokenAfter :: "mention_env \<Rightarrow> jstring list \<Rightarrow> jstring list \<Rightarrow> (mention_match \<times> nat) option" where
  "tokenAfter env before rest = (
     let token = take 64 (takeWhile (tokenRune env) rest);
         after = drop (length token) rest;
         trail = (after \<noteq> [] \<and> hd after = js_lit ''@'')
     in if token = [] then None
        else Some (\<lparr>mm_before = before, mm_token = token, mm_trail = trail\<rparr>,
                   length before + 1 + length token + (if trail then 1 else 0)))"

fun mentionAfterRune :: "mention_env \<Rightarrow> jstring list \<Rightarrow> (mention_match \<times> nat) option" where
  "mentionAfterRune env (c # d # rest) =
     (if \<not> wordRune env c \<and> c \<noteq> js_lit ''@'' \<and> d = js_lit ''@'' then tokenAfter env [c] rest else None)"
| "mentionAfterRune env _ = None"

definition MENTION_TOKEN_REGEX :: "mention_env \<Rightarrow> bool \<Rightarrow> jstring list \<Rightarrow> (mention_match \<times> nat) option" where
  "MENTION_TOKEN_REGEX env start s = (
     case (if start \<and> s \<noteq> [] \<and> hd s = js_lit ''@'' then tokenAfter env [] (tl s) else None) of
       Some r \<Rightarrow> Some r
     | None \<Rightarrow> mentionAfterRune env s)"

definition isDigit :: "16 word \<Rightarrow> bool" where
  "isDigit u \<longleftrightarrow> 48 \<le> u \<and> u \<le> 57"

definition ID_MENTION_REGEX :: "bool \<Rightarrow> jstring \<Rightarrow> (jstring \<times> nat) option" where
  "ID_MENTION_REGEX start s = (
     let ds = takeWhile isDigit (drop 2 s); after = drop (length ds) (drop 2 s)
     in if take 2 s = js_lit ''<@'' \<and> ds \<noteq> [] \<and> length ds \<le> 15 \<and> take 1 after = js_lit ''>''
        then Some (ds, 3 + length ds) else None)"

definition digitsToNumber :: "jstring \<Rightarrow> int" where
  "digitsToNumber ds = foldl (\<lambda>n u. 10 * n + (uint u - 48)) 0 ds"

subsection \<open>Resolution\<close>

definition isEveryoneToken :: "mention_env \<Rightarrow> jstring \<Rightarrow> bool" where
  "isEveryoneToken env token \<longleftrightarrow> mv_lower env token = js_lit ''everyone'' \<or> mv_lower env token = js_lit ''here''"

definition mentionSpellings :: "mention_env \<Rightarrow> jstring \<Rightarrow> jstring list" where
  "mentionSpellings env token = (
     let lower = mv_lower env token;
         trimmed = rev (dropWhile (\<lambda>u. [u] = js_lit ''.'' \<or> [u] = js_lit ''-'') (rev lower))
     in if trimmed \<noteq> [] \<and> trimmed \<noteq> lower then [lower, trimmed] else [lower])"

definition spelledBy :: "mention_env \<Rightarrow> jstring \<Rightarrow> string \<Rightarrow> bool" where
  "spelledBy env token username \<longleftrightarrow> mv_lower env (mv_text env username) \<in> set (mentionSpellings env token)"

definition listedMember :: "mention_env \<Rightarrow> jstring \<Rightarrow> int \<Rightarrow> bool" where
  "listedMember env token i \<longleftrightarrow> (case jm_get (mv_members env) i of
     None \<Rightarrow> False | Some m \<Rightarrow> spelledBy env token (me_username m))"

definition resolveMentionUserId :: "mention_env \<Rightarrow> jstring \<Rightarrow> mention_info \<Rightarrow> int option" where
  "resolveMentionUserId env token info = (
     if isEveryoneToken env token then None
     else case List.find (listedMember env token) (nullish (mi_mentions info) []) of
       Some i \<Rightarrow> Some i
     | None \<Rightarrow>
         if mi_mentions info \<noteq> None then None
         else (case List.find (\<lambda>m. spelledBy env token (me_username m)) (jm_values (mv_members env)) of
             Some m \<Rightarrow> Some (me_id m)
           | None \<Rightarrow> (case mv_me env of
               None \<Rightarrow> None
             | Some me \<Rightarrow> if spelledBy env token (u_username me) then Some (u_id me) else None)))"

definition pushNew :: "int list \<Rightarrow> int \<Rightarrow> int list" where
  "pushNew ids i = (if i \<in> set ids then ids else ids @ [i])"

definition tokenStep :: "mention_env \<Rightarrow> int list \<Rightarrow> mention_match \<Rightarrow> int list" where
  "tokenStep env ids m = (
     if mm_trail m then ids
     else if mm_before m = [js_lit ''<''] then ids
     else if isEveryoneToken env (concat (mm_token m)) then ids
     else case resolveMentionUserId env (concat (mm_token m)) NO_INFO of None \<Rightarrow> ids | Some i \<Rightarrow> pushNew ids i)"

definition resolveMentionsFromContent :: "mention_env \<Rightarrow> jstring \<Rightarrow> int list" where
  "resolveMentionsFromContent env content = (
     let ids = foldl (\<lambda>ids ds. pushNew ids (digitsToNumber ds)) [] (match_all ID_MENTION_REGEX True content)
     in foldl (tokenStep env) ids (match_all (MENTION_TOKEN_REGEX env) True (code_points content)))"

definition mentionedRoleIds :: "mention_info \<Rightarrow> int list" where
  "mentionedRoleIds info = nullish (mi_mentionRoles info) []"

definition currentUserHeldRoleIds :: "mention_env \<Rightarrow> int list" where
  "currentUserHeldRoleIds env = (case mv_me env of
     None \<Rightarrow> []
   | Some me \<Rightarrow> (case uw_role_ids me of
       Some ids \<Rightarrow> ids
     | None \<Rightarrow> (case mv_roleIdByName env (uw_role me) of None \<Rightarrow> [] | Some i \<Rightarrow> [i])))"

definition mentionsHeldRole :: "mention_env \<Rightarrow> mention_info \<Rightarrow> bool" where
  "mentionsHeldRole env info = (
     let mentioned = mentionedRoleIds info
     in if length mentioned = 0 then False
        else list_ex (\<lambda>i. i \<in> set (currentUserHeldRoleIds env)) mentioned)"

definition mentionsCurrentUser :: "mention_env \<Rightarrow> jstring \<Rightarrow> mention_info \<Rightarrow> bool" where
  "mentionsCurrentUser env content info = (case mv_me env of
     None \<Rightarrow> False
   | Some me \<Rightarrow>
       (case mi_mentions info of
          Some ids \<Rightarrow> u_id me \<in> set ids
        | None \<Rightarrow> u_id me \<in> set (resolveMentionsFromContent env content)) \<or> mentionsHeldRole env info)"

definition highlightsCurrentUser :: "mention_env \<Rightarrow> jstring \<Rightarrow> mention_info \<Rightarrow> bool" where
  "highlightsCurrentUser env content info = (
     if mi_mentionsEveryone info = Some True then True else mentionsCurrentUser env content info)"

subsection \<open>Tokens stand alone\<close>

lemma match_all_at:
  "r \<in> set (match_all m start s) \<Longrightarrow> \<exists>pre post n. s = pre @ post \<and> m (start \<and> pre = []) post = Some (r, n)"
proof (induction m start s rule: match_all.induct)
  case (2 m start c cs)
  show ?case
  proof (cases "m start (c # cs)")
    case None
    with "2.prems" have "r \<in> set (match_all m False cs)" by simp
    from "2.IH"(1) [OF None this] obtain pre post n where "cs = pre @ post" "m False post = Some (r, n)" by auto
    then show ?thesis by (intro exI [of _ "c # pre"] exI [of _ post] exI [of _ n]) simp
  next
    case (Some hit)
    obtain r' k where hit: "hit = (r', k)" by (cases hit)
    show ?thesis
    proof (cases "r = r'")
      case True
      with Some hit show ?thesis by (intro exI [of _ "[]"] exI [of _ "c # cs"] exI [of _ k]) simp
    next
      case False
      with "2.prems" Some hit have "r \<in> set (match_all m False (drop (k - 1) cs))" by simp
      from "2.IH"(2) [OF Some hit [symmetric] this] obtain pre post n where "drop (k - 1) cs = pre @ post" "m False post = Some (r, n)" by auto
      moreover have "cs = take (k - 1) cs @ drop (k - 1) cs" by simp
      ultimately have "c # cs = (c # take (k - 1) cs @ pre) @ post" by simp
      with \<open>m False post = Some (r, n)\<close> show ?thesis
        by (intro exI [of _ "c # take (k - 1) cs @ pre"] exI [of _ post] exI [of _ n]) simp
    qed
  qed
qed simp

lemma tokenAfterD:
  assumes "tokenAfter env before rest = Some (r, n)"
  shows "\<exists>after. rest = mm_token r @ after \<and> mm_before r = before \<and> mm_token r \<noteq> [] \<and> length (mm_token r) \<le> 64 \<and>
    list_all (tokenRune env) (mm_token r) \<and>
    (length (mm_token r) = 64 \<or> after = [] \<or> \<not> tokenRune env (hd after)) \<and>
    (mm_trail r \<longleftrightarrow> after \<noteq> [] \<and> hd after = js_lit ''@'')"
proof -
  let ?run = "takeWhile (tokenRune env) rest"
  have tok: "mm_token r = take 64 ?run" "mm_before r = before" "mm_token r \<noteq> []"
    "mm_trail r \<longleftrightarrow> drop (length (mm_token r)) rest \<noteq> [] \<and> hd (drop (length (mm_token r)) rest) = js_lit ''@''"
    using assms by (auto simp: tokenAfter_def Let_def split: if_splits)
  have "rest = mm_token r @ drop (length (mm_token r)) rest"
  proof -
    have "mm_token r = take (min 64 (length ?run)) rest" by (metis tok(1) take_take takeWhile_eq_take)
    moreover have "length ?run \<le> length rest" by (rule length_takeWhile_le)
    ultimately show ?thesis by (metis append_eq_conv_conj append_take_drop_id)
  qed
  moreover have "drop (length ?run) rest = [] \<or> \<not> tokenRune env (hd (drop (length ?run) rest))"
    by (metis dropWhile_eq_drop hd_dropWhile)
  then have "length (mm_token r) = 64 \<or> drop (length (mm_token r)) rest = [] \<or> \<not> tokenRune env (hd (drop (length (mm_token r)) rest))"
    by (cases "length ?run \<le> 64") (auto simp: tok(1))
  moreover have "list_all (tokenRune env) (mm_token r)"
    by (auto simp: tok(1) list_all_iff dest!: in_set_takeD set_takeWhileD)
  ultimately show ?thesis using tok by (intro exI [of _ "drop (length (mm_token r)) rest"]) auto
qed


definition sample_mentions :: mention_env where
  "sample_mentions = \<lparr>mv_letterOrNumber = (\<lambda>c. list_all (\<lambda>u. 97 \<le> u \<and> u \<le> 122) c), mv_lower = id, mv_text = js_lit, mv_members = [],
     mv_me = Some (sample_self 3 ''bob''),
     mv_roleIdByName = (\<lambda>_. None)\<rparr>"

text \<open>Every @token the text yields stands alone as a word: it has between 1 and 64 token runes and ends
  where they end, it starts the text or follows a rune that is neither a word rune nor an @, and the
  match says whether an @ follows it, as in an address.\<close>

theorem mention_token_standalone:
  assumes "r \<in> set (match_all (MENTION_TOKEN_REGEX env) True s)"
  shows "\<exists>pre after. s = pre @ [js_lit ''@''] @ mm_token r @ after \<and>
    (pre = [] \<or> \<not> wordRune env (last pre) \<and> last pre \<noteq> js_lit ''@'') \<and>
    mm_token r \<noteq> [] \<and> length (mm_token r) \<le> 64 \<and> list_all (tokenRune env) (mm_token r) \<and>
    (length (mm_token r) = 64 \<or> after = [] \<or> \<not> tokenRune env (hd after)) \<and>
    (mm_trail r \<longleftrightarrow> after \<noteq> [] \<and> hd after = js_lit ''@'')"
proof -
  from match_all_at [OF assms] obtain pre post n where s: "s = pre @ post"
    and hit: "MENTION_TOKEN_REGEX env (True \<and> pre = []) post = Some (r, n)" by blast
  show ?thesis
  proof (cases "pre = [] \<and> post \<noteq> [] \<and> hd post = js_lit ''@'' \<and> tokenAfter env [] (tl post) \<noteq> None")
    case True
    with hit have "tokenAfter env [] (tl post) = Some (r, n)" by (auto simp: MENTION_TOKEN_REGEX_def)
    from tokenAfterD [OF this] obtain after where "tl post = mm_token r @ after" "mm_token r \<noteq> []" "length (mm_token r) \<le> 64"
      "list_all (tokenRune env) (mm_token r)" "length (mm_token r) = 64 \<or> after = [] \<or> \<not> tokenRune env (hd after)"
      "mm_trail r \<longleftrightarrow> after \<noteq> [] \<and> hd after = js_lit ''@''" by blast
    moreover from this True s have "s = [] @ [js_lit ''@''] @ mm_token r @ after" by (metis append_Cons append_Nil list.collapse)
    ultimately show ?thesis by blast
  next
    case False
    with hit have "mentionAfterRune env post = Some (r, n)" by (auto simp: MENTION_TOKEN_REGEX_def split: option.splits if_splits)
    then obtain c rest where post: "post = c # js_lit ''@'' # rest" "\<not> wordRune env c" "c \<noteq> js_lit ''@''"
      "tokenAfter env [c] rest = Some (r, n)" by (auto elim!: mentionAfterRune.elims split: if_splits)
    from tokenAfterD [OF post(4)] obtain after where after: "rest = mm_token r @ after" "mm_token r \<noteq> []" "length (mm_token r) \<le> 64"
      "list_all (tokenRune env) (mm_token r)" "length (mm_token r) = 64 \<or> after = [] \<or> \<not> tokenRune env (hd after)"
      "mm_trail r \<longleftrightarrow> after \<noteq> [] \<and> hd after = js_lit ''@''" by blast
    with s post have "s = (pre @ [c]) @ [js_lit ''@''] @ mm_token r @ after" by simp
    with after post(2,3) show ?thesis by (intro exI [of _ "pre @ [c]"] exI [of _ after]) simp
  qed
qed

lemma sample_match: "match_all (MENTION_TOKEN_REGEX sample_mentions) True (code_points (js_lit ''@bob''))
    = [\<lparr>mm_before = [], mm_token = code_points (js_lit ''bob''), mm_trail = False\<rparr>]"
  by (simp add: js_lit_def is_high_def MENTION_TOKEN_REGEX_def tokenAfter_def tokenRune_def wordRune_def sample_mentions_def Let_def)

theorem mention_token_standalone_witness:
  "\<exists>pre after. code_points (js_lit ''@bob'') = pre @ [js_lit ''@''] @ code_points (js_lit ''bob'') @ after"
  using mention_token_standalone [of "\<lparr>mm_before = [], mm_token = code_points (js_lit ''bob''), mm_trail = False\<rparr>"
      sample_mentions "code_points (js_lit ''@bob'')"] sample_match by auto

subsection \<open>Pills and badges\<close>

lemma pushNew_set: "set (pushNew ids i) = insert i (set ids)" "distinct ids \<Longrightarrow> distinct (pushNew ids i)"
  by (auto simp: pushNew_def)

lemma tokenStep_mono: "set ids \<subseteq> set (tokenStep env ids m)"
  by (auto simp: tokenStep_def pushNew_set split: option.split)

lemma foldl_tokenStep_mono: "set ids \<subseteq> set (foldl (tokenStep env) ids ms)"
  by (induction ms arbitrary: ids) (use tokenStep_mono in fastforce)+

lemma foldl_tokenStep_hit:
  assumes "m \<in> set ms" and "\<not> mm_trail m" and "mm_before m \<noteq> [js_lit ''<'']"
    and "resolveMentionUserId env (concat (mm_token m)) NO_INFO = Some i"
  shows "i \<in> set (foldl (tokenStep env) ids ms)"
  using assms(1)
proof (induction ms arbitrary: ids)
  case (Cons m' ms)
  show ?case
  proof (cases "m = m'")
    case True
    have "\<not> isEveryoneToken env (concat (mm_token m))" using assms(4) by (auto simp: resolveMentionUserId_def)
    with assms True have "i \<in> set (tokenStep env ids m')" by (simp add: tokenStep_def pushNew_set)
    with foldl_tokenStep_mono show ?thesis by fastforce
  next
    case False
    with Cons show ?thesis by simp
  qed
qed simp

lemma resolve_listed:
  "resolveMentionUserId env token info = Some i \<Longrightarrow> mi_mentions info = Some ids \<Longrightarrow> i \<in> set ids"
  by (auto simp: resolveMentionUserId_def find_Some_iff split: if_splits option.splits)

lemma resolve_NO_INFO: "mi_mentions info = None \<Longrightarrow> resolveMentionUserId env token info = resolveMentionUserId env token NO_INFO"
  by (simp add: resolveMentionUserId_def NO_INFO_def)

text \<open>A row and its pills agree: when a token of the message is drawn as a mention of the signed-in
  user, the row counts as mentioning them, whether the server listed the mentions or the client had to
  read them from the text.\<close>

theorem mention_pill_badge_agree:
  assumes "mv_me env = Some me" and "m \<in> set (match_all (MENTION_TOKEN_REGEX env) True (code_points content))"
    and "\<not> mm_trail m" and "mm_before m \<noteq> [js_lit ''<'']"
    and "resolveMentionUserId env (concat (mm_token m)) info = Some (u_id me)"
  shows "mentionsCurrentUser env content info"
proof (cases "mi_mentions info")
  case None
  with assms(5) have "resolveMentionUserId env (concat (mm_token m)) NO_INFO = Some (u_id me)" by (simp add: resolve_NO_INFO)
  from foldl_tokenStep_hit [OF assms(2-4) this] assms(1) None show ?thesis
    by (simp add: mentionsCurrentUser_def resolveMentionsFromContent_def Let_def)
next
  case (Some ids)
  with resolve_listed [OF assms(5)] assms(1) show ?thesis by (simp add: mentionsCurrentUser_def)
qed

theorem mention_pill_badge_agree_witness:
  "mentionsCurrentUser sample_mentions (js_lit ''@bob'') NO_INFO"
proof -
  let ?m = "\<lparr>mm_before = [], mm_token = code_points (js_lit ''bob''), mm_trail = False\<rparr>"
  have "resolveMentionUserId sample_mentions (concat (mm_token ?m)) NO_INFO = Some 3"
    by (simp add: resolveMentionUserId_def isEveryoneToken_def sample_mentions_def NO_INFO_def code_points_concat
        spelledBy_def mentionSpellings_def Let_def js_lit_def jm_values_def sample_self_def)
  then show ?thesis
    using mention_pill_badge_agree [of sample_mentions _ ?m "js_lit ''@bob''" NO_INFO] sample_match
    by (simp add: sample_mentions_def sample_self_def)
qed

end
