(* ===== verification/Blocks_Store.thy ===== *)
theory Blocks_Store
  imports Prelude
begin

text \<open>
  \<open>stores/blocks.store.ts\<close>: whom the user has blocked and who refused the user's direct messages. The
  list of \<open>GET /blocks\<close> is asked for with the revision of the moment, so that an answer that a click
  has overtaken is dropped; the lemmas show that it is, and that an answer nothing has overtaken is
  applied.
\<close>

subsection \<open>State and operations\<close>

record blocks_state =
  bs_blockedByMe :: "int jset"
  bs_blockedByThem :: "int jset"
  bs_blockedByMeRev :: "int option"

definition BLOCKS_INITIAL :: blocks_state where
  "BLOCKS_INITIAL = \<lparr>bs_blockedByMe = [], bs_blockedByThem = [], bs_blockedByMeRev = Some 0\<rparr>"

definition blocks_rev :: "blocks_state \<Rightarrow> int" where
  "blocks_rev s = nullish (bs_blockedByMeRev s) 0"

definition setBlockedByMe :: "int list \<Rightarrow> int option \<Rightarrow> blocks_state \<Rightarrow> blocks_state" where
  "setBlockedByMe userIds rev' prev = (
     if rev' \<noteq> None \<and> rev' \<noteq> Some (blocks_rev prev) then prev
     else prev\<lparr>bs_blockedByMe := js_of_list userIds\<rparr>)"

definition setUserBlockedByMe :: "int \<Rightarrow> bool \<Rightarrow> blocks_state \<Rightarrow> blocks_state" where
  "setUserBlockedByMe userId blocked prev = (
     if js_has (bs_blockedByMe prev) userId = blocked then prev
     else prev\<lparr>bs_blockedByMe := (if blocked then js_add (bs_blockedByMe prev) userId else js_delete (bs_blockedByMe prev) userId),
               bs_blockedByMeRev := Some (blocks_rev prev + 1)\<rparr>)"

definition setUserBlockedByThem :: "int \<Rightarrow> bool \<Rightarrow> blocks_state \<Rightarrow> blocks_state" where
  "setUserBlockedByThem userId blocked prev = (
     if js_has (bs_blockedByThem prev) userId = blocked then prev
     else prev\<lparr>bs_blockedByThem := (if blocked then js_add (bs_blockedByThem prev) userId
                                    else js_delete (bs_blockedByThem prev) userId)\<rparr>)"

definition clearBlockedByThem :: "blocks_state \<Rightarrow> blocks_state" where
  "clearBlockedByThem prev = (if length (bs_blockedByThem prev) = 0 then prev else prev\<lparr>bs_blockedByThem := []\<rparr>)"

definition resetBlocksStore :: "blocks_state \<Rightarrow> blocks_state" where
  "resetBlocksStore prev = BLOCKS_INITIAL\<lparr>bs_blockedByMeRev := Some (blocks_rev prev + 1)\<rparr>"

definition dmComposerBlockReason :: "(string \<Rightarrow> string) \<Rightarrow> blocks_state \<Rightarrow> int \<Rightarrow> string option" where
  "dmComposerBlockReason connectText st recipientId = (
     if js_has (bs_blockedByMe st) recipientId then Some (connectText ''blocks.blockedByMe'')
     else if js_has (bs_blockedByThem st) recipientId then Some (connectText ''blocks.blockedByThem'')
     else None)"

subsection \<open>A snapshot that a click overtook\<close>

text \<open>What may happen while the request is in flight; an answer to another request is one of them.\<close>

datatype blocks_action =
    Block_me int bool
  | Block_them int bool
  | Blocks_answer "int list" int
  | Clear_them
  | Reset_blocks

fun blocks_apply :: "blocks_action \<Rightarrow> blocks_state \<Rightarrow> blocks_state" where
  "blocks_apply (Block_me u b) s = setUserBlockedByMe u b s"
| "blocks_apply (Block_them u b) s = setUserBlockedByThem u b s"
| "blocks_apply (Blocks_answer us r) s = setBlockedByMe us (Some r) s"
| "blocks_apply Clear_them s = clearBlockedByThem s"
| "blocks_apply Reset_blocks s = resetBlocksStore s"

text \<open>The action overtakes a request: a click that changes the set, or the end of the session.\<close>

fun overtakes :: "blocks_state \<Rightarrow> blocks_action \<Rightarrow> bool" where
  "overtakes s (Block_me u b) = (js_has (bs_blockedByMe s) u \<noteq> b)"
| "overtakes s Reset_blocks = True"
| "overtakes s _ = False"

fun overtaken :: "blocks_state \<Rightarrow> blocks_action list \<Rightarrow> bool" where
  "overtaken s [] = False"
| "overtaken s (a # as) = (overtakes s a \<or> overtaken (blocks_apply a s) as)"

lemma blocks_rev_step: "blocks_rev (blocks_apply a s) = blocks_rev s + (if overtakes s a then 1 else 0)"
  by (cases a) (simp_all add: blocks_rev_def setUserBlockedByMe_def setUserBlockedByThem_def setBlockedByMe_def
      clearBlockedByThem_def resetBlocksStore_def)

interpretation blr: revision_guard blocks_apply blocks_rev overtakes
  by unfold_locales (rule blocks_rev_step)

lemma overtaken_iff: "overtaken s as \<longleftrightarrow> (\<exists>k < length as. overtakes (fold blocks_apply (take k as) s) (as ! k))"
proof (induction as arbitrary: s)
  case (Cons a as)
  show ?case unfolding overtaken.simps Cons length_Cons Ex_less_Suc2 by simp
qed simp

lemma blocks_rev_overtaken: "blocks_rev (fold blocks_apply as s) = blocks_rev s \<longleftrightarrow> \<not> overtaken s as"
  using blr.revision_kept by (auto simp: overtaken_iff)

text \<open>The answer to a \<open>GET /blocks\<close> is applied exactly when nothing overtook it: whatever happened
  since it was asked for, an accepted click on Block or Unblock or the end of the session makes it a
  no-op, and otherwise the blocked set is the server's.\<close>

theorem blocks_answer_fresh:
  assumes "rev' = blocks_rev s" and "t = fold blocks_apply as s"
  shows "setBlockedByMe us (Some rev') t = (if overtaken s as then t else t\<lparr>bs_blockedByMe := js_of_list us\<rparr>)"
  using blocks_rev_overtaken [of as s] assms by (auto simp: setBlockedByMe_def)

theorem blocks_answer_fresh_witness:
  "setBlockedByMe [5] (Some 0) (blocks_apply (Block_me 7 True) BLOCKS_INITIAL) = blocks_apply (Block_me 7 True) BLOCKS_INITIAL"
  using blocks_answer_fresh [of 0 BLOCKS_INITIAL "blocks_apply (Block_me 7 True) BLOCKS_INITIAL" "[Block_me 7 True]" "[5]"]
  by (simp add: BLOCKS_INITIAL_def blocks_rev_def)

end
