(* ===== verification/Chat_Handlers.thy ===== *)
theory Chat_Handlers
  imports Messages_Store Threads_Loader Read_State Mentions Blocks_Store
begin

text \<open>
  \<open>features/messaging/wsHandlers.ts\<close>: what a frame of the server about messages does to the stores
  together. The stores are the fields of one record; the signed-in user, the clock, the window and the
  parts of the API that are there are an environment. Requests, notifications, toasts and the calls to
  modules that keep no part of this state are appended to \<open>ct_out\<close>, and the answer of a request is a
  step of its own. A handler whose reducer throws stops there: what it did before stays, and the error
  is its result.

  The lemmas show exactly what a message adds to the badges, that a message is counted once, that a
  blocked author raises no mention, that the client clock bounds what is taken for a replay, and that
  a lost connection leaves nothing pending.
\<close>

subsection \<open>State\<close>

text \<open>The skew estimate is \<open>NaN\<close>, here \<open>None\<close>, after a frame whose timestamp does not parse.\<close>

record reconnect_clock =
  rk_hasAuthenticatedBefore :: bool
  rk_hasReceivedReadyBefore :: bool
  rk_lastReconnectHandshakeAt :: "int option"
  rk_serverClockSkewMs :: "int option"
  rk_restartAnnounced :: bool
  rk_voiceRejoinChannelId :: "int option"
  rk_voiceRejoinExpiresAt :: "int option"

definition createReconnectClock :: reconnect_clock where
  "createReconnectClock = \<lparr>rk_hasAuthenticatedBefore = False, rk_hasReceivedReadyBefore = False,
     rk_lastReconnectHandshakeAt = None, rk_serverClockSkewMs = Some 0, rk_restartAnnounced = False,
     rk_voiceRejoinChannelId = None, rk_voiceRejoinExpiresAt = None\<rparr>"

definition cancelVoiceRejoin :: "reconnect_clock \<Rightarrow> reconnect_clock" where
  "cancelVoiceRejoin clock = clock\<lparr>rk_voiceRejoinChannelId := None\<rparr>"

datatype chat_effect =
    Acknowledge "string option"
  | Notify_incoming chat_message_payload
  | Invalidate_reactors int
  | Clear_reactors
  | Get_dm_channels int int int
  | Get_around_sent int int nat
  | Resync_around int int
  | Resync_tail int
  | Toast_error string

record dm_refetch =
  rf_shown :: int
  rf_token :: int

record chat_state =
  ct_messages :: messages_state
  ct_read :: read_state
  ct_members :: members_module
  ct_threads :: threads_loader
  ct_blocks :: blocks_state
  ct_clock :: reconnect_clock
  ct_refetches :: "(int, dm_refetch) jmap"
  ct_refetchToken :: int
  ct_out :: "chat_effect list"

text \<open>The fields of \<open>cx_read\<close> and \<open>cx_mentions\<close> that the stores decide are filled in from the state.\<close>

record chat_env =
  cx_me :: "user_with_role option"
  cx_mentions :: mention_env
  cx_read :: read_env
  cx_now :: int
  cx_time :: "string \<Rightarrow> int option"
  cx_parse :: date_parse
  cx_getDmChannels :: bool
  cx_getMessages :: bool
  cx_getMessagesAround :: bool
  cx_readingAnchor :: "int \<Rightarrow> int option"
  cx_isForwardRequest :: "string option \<Rightarrow> bool"
  cx_isPollRequest :: "string option \<Rightarrow> bool"
  cx_beforeRestore :: "string \<Rightarrow> bool"

definition chat_emit :: "chat_effect \<Rightarrow> chat_state \<Rightarrow> chat_state" where
  "chat_emit e st = st\<lparr>ct_out := ct_out st @ [e]\<rparr>"

definition threads_of :: "chat_state \<Rightarrow> threads_state" where
  "threads_of st = tm_state (tl_module (ct_threads st))"

definition read_env_of :: "chat_env \<Rightarrow> chat_state \<Rightarrow> read_env" where
  "read_env_of env st = (cx_read env)\<lparr>re_detached := isWindowDetached (ct_messages st),
     re_threadKnown := (\<lambda>i. tl_loaded (ct_threads st) \<and> jm_has (ts_byId (threads_of st)) i)\<rparr>"

definition mention_env_of :: "chat_env \<Rightarrow> chat_state \<Rightarrow> mention_env" where
  "mention_env_of env st = (cx_mentions env)\<lparr>mv_members := ms_members (mb_state (ct_members st)), mv_me := cx_me env\<rparr>"

subsection \<open>A message arrives\<close>

definition REPLAY_GATE_WINDOW_MS :: int where "REPLAY_GATE_WINDOW_MS = 5000"

definition isReplayFrame :: "chat_env \<Rightarrow> reconnect_clock \<Rightarrow> string \<Rightarrow> bool" where
  "isReplayFrame env clock timestamp = (case rk_lastReconnectHandshakeAt clock of
     None \<Rightarrow> False
   | Some at \<Rightarrow> cx_now env - at < REPLAY_GATE_WINDOW_MS \<and>
       (case (cx_time env timestamp, rk_serverClockSkewMs clock) of
          (Some t, Some skew) \<Rightarrow> t < at - skew
        | _ \<Rightarrow> False))"

definition isOwnMessage :: "chat_env \<Rightarrow> chat_message_payload \<Rightarrow> bool" where
  "isOwnMessage env payload = (case cx_me env of None \<Rightarrow> False | Some me \<Rightarrow> u_id (cm_user payload) = u_id me)"

definition isMentionFor :: "chat_env \<Rightarrow> chat_state \<Rightarrow> chat_message_payload \<Rightarrow> bool" where
  "isMentionFor env st payload \<longleftrightarrow>
     \<not> js_has (bs_blockedByMe (ct_blocks st)) (u_id (cm_user payload)) \<and>
     (mentionsCurrentUser (mention_env_of env st) (cm_content payload)
        \<lparr>mi_mentions = cm_mentions payload, mi_mentionsEveryone = None, mi_mentionRoles = cm_mention_roles payload\<rparr> \<or>
      cm_mentions_everyone payload = Some True \<and>
        \<not> (cm_mentions_here payload = Some True \<and> isReplayFrame env (ct_clock st) (cm_timestamp payload)))"

definition countUnread :: "chat_env \<Rightarrow> chat_message_payload \<Rightarrow> chat_state \<Rightarrow> chat_state" where
  "countUnread env payload st = (
     let rs = ct_read st; c = cm_channel_id payload; activeId = activeChannelId (rs_channels rs);
         isAway = isChannelAway (read_env_of env st) rs c
     in if (activeId \<noteq> Some c \<or> isAway) \<and> \<not> isOwnMessage env payload
        then let rs1 = rs\<lparr>rs_channels := noteChannelMessage (rs_channels rs) c (cm_id payload) (isMentionFor env st payload) isAway\<rparr>
          in st\<lparr>ct_read := (if isAway \<and> activeId = Some c then noteAwayUnread c rs1 else rs1)\<rparr>
        else st)"

text \<open>\<open>isDm\<close>, \<open>isAway\<close> and \<open>isMention\<close> are computed before the counts move, so they are arguments.\<close>

definition countDm :: "chat_env \<Rightarrow> chat_message_payload \<Rightarrow> bool \<Rightarrow> bool \<Rightarrow> chat_state \<Rightarrow> chat_state" where
  "countDm env payload isAway isMention st = (
     let rs = ct_read st; c = cm_channel_id payload
     in if list_ex (\<lambda>d. dm_channelId d = c) (ds_channels (rs_dms rs))
        then (let isDmActive = (activeChannelId (rs_channels rs) = Some c \<and> \<not> isAway)
          in if isOwnMessage env payload \<or> isDmActive
             then st\<lparr>ct_read := rs\<lparr>rs_dms := updateDmLastMessagePreview c (cm_id payload) (cm_content payload) (cm_timestamp payload) (rs_dms rs)\<rparr>\<rparr>
             else st\<lparr>ct_read := rs\<lparr>rs_dms := updateDmLastMessage c (cm_id payload) (cm_content payload) (cm_timestamp payload) isMention (rs_dms rs)\<rparr>\<rparr>)
        else st)"

definition notifyLive :: "chat_env \<Rightarrow> chat_message_payload \<Rightarrow> chat_state \<Rightarrow> chat_state" where
  "notifyLive env payload st = (
     if isReplayFrame env (ct_clock st) (cm_timestamp payload) then st
     else let surface = (if tl_loaded (ct_threads st) then authorityChannelId (threads_of st) (cm_channel_id payload)
                         else cm_channel_id payload)
       in (chat_emit (Notify_incoming (payload\<lparr>cm_channel_id := surface\<rparr>)) st)\<lparr>ct_clock := (ct_clock st)\<lparr>
            rk_serverClockSkewMs := map_option (\<lambda>t. cx_now env - t) (cx_time env (cm_timestamp payload))\<rparr>\<rparr>)"

definition noteOpenThread :: "chat_env \<Rightarrow> chat_message_payload \<Rightarrow> threads_loader \<Rightarrow> threads_loader" where
  "noteOpenThread env payload l = (
     if tl_loaded l then withThreadsStore (cx_parse env) (Note_open_message (cm_channel_id payload) (cm_id payload)) l else l)"

definition handleChatMessage :: "chat_env \<Rightarrow> chat_message_payload \<Rightarrow> chat_state \<Rightarrow> chat_state \<times> js_error option" where
  "handleChatMessage env payload st = (
     let s1 = (if isOwnMessage env payload then chat_emit (Acknowledge (cm_client_message_id payload)) st else st);
         s2 = s1\<lparr>ct_members := clearTyping (cm_channel_id payload) (u_id (cm_user payload)) (ct_members s1)\<rparr>
     in case addMessage (ct_messages s2) payload of
          Inl e \<Rightarrow> (s2, Some e)
        | Inr messages \<Rightarrow>
            (let s3 = s2\<lparr>ct_messages := messages,
                   ct_threads := noteOpenThread env payload (handleThreadState (cx_parse env) (cm_thread payload) (ct_threads s2))\<rparr>;
                 isAway = isChannelAway (read_env_of env s3) (ct_read s3) (cm_channel_id payload);
                 isMention = isMentionFor env s3 payload;
                 s4 = countDm env payload isAway isMention (countUnread env payload s3)
             in (notifyLive env payload s4, None)))"

subsection \<open>Edits, deletes and the previews of direct messages\<close>

definition shownPreview :: "chat_state \<Rightarrow> int \<Rightarrow> int option" where
  "shownPreview st channelId = Option.bind (dm_find (rs_dms (ct_read st)) channelId) dm_lastMessageId"

definition withDms :: "(dm_state \<Rightarrow> dm_state) \<Rightarrow> chat_state \<Rightarrow> chat_state" where
  "withDms f st = st\<lparr>ct_read := (ct_read st)\<lparr>rs_dms := f (rs_dms (ct_read st))\<rparr>\<rparr>"

definition reviseDmPreviewAfterDelete :: "chat_env \<Rightarrow> int \<Rightarrow> int list \<Rightarrow> chat_state \<Rightarrow> chat_state" where
  "reviseDmPreviewAfterDelete env channelId ids st = (case shownPreview st channelId of
     None \<Rightarrow> st
   | Some shown \<Rightarrow>
       if shown \<notin> set ids \<and> map_option rf_shown (jm_get (ct_refetches st) channelId) \<noteq> Some shown then st
       else let s1 = withDms (reviseDmLastMessage channelId shown
                  \<lparr>dp_lastMessageId = None, dp_lastMessage = Some [], dp_lastMessageAt = None\<rparr>) st
         in if \<not> cx_getDmChannels env then s1
            else let token = ct_refetchToken s1 + 1
              in chat_emit (Get_dm_channels channelId shown token) (s1\<lparr>ct_refetchToken := token,
                   ct_refetches := jm_set (ct_refetches s1) channelId \<lparr>rf_shown = shown, rf_token = token\<rparr>\<rparr>))"

definition settleRefetch :: "int \<Rightarrow> int \<Rightarrow> chat_state \<Rightarrow> chat_state \<times> bool" where
  "settleRefetch channelId token st = (
     if map_option rf_token (jm_get (ct_refetches st) channelId) \<noteq> Some token then (st, False)
     else (st\<lparr>ct_refetches := jm_delete (ct_refetches st) channelId\<rparr>, True))"

definition dmPreviewAnswer :: "int \<Rightarrow> int \<Rightarrow> int \<Rightarrow> dm_channel_payload list \<Rightarrow> chat_state \<Rightarrow> chat_state" where
  "dmPreviewAnswer channelId shown token dms st = (case settleRefetch channelId token st of
     (s1, False) \<Rightarrow> s1
   | (s1, True) \<Rightarrow> (case List.find (\<lambda>d. dq_channel_id d = channelId) dms of
       None \<Rightarrow> s1
     | Some p \<Rightarrow>
         if (case dq_last_message_id p of None \<Rightarrow> False | Some l \<Rightarrow> l > shown) then s1
         else withDms (reviseDmLastMessage channelId shown
           \<lparr>dp_lastMessageId = Some (dq_last_message_id p), dp_lastMessage = Some (dq_last_message p),
            dp_lastMessageAt = Some (dq_last_message_at p)\<rparr>) s1))"

definition dmPreviewFailed :: "int \<Rightarrow> int \<Rightarrow> chat_state \<Rightarrow> chat_state" where
  "dmPreviewFailed channelId token st = fst (settleRefetch channelId token st)"

definition handleChatEdited :: "chat_env \<Rightarrow> chat_edited_payload \<Rightarrow> chat_state \<Rightarrow> chat_state" where
  "handleChatEdited env payload st = (
     let s1 = withDms (reviseDmLastMessage (ce_channel_id payload) (ce_message_id payload)
                \<lparr>dp_lastMessageId = None, dp_lastMessage = Some (ce_content payload), dp_lastMessageAt = None\<rparr>)
              (st\<lparr>ct_messages := reduceEditMessage (ct_messages st) payload\<rparr>)
     in if jm_has (ct_refetches s1) (ce_channel_id payload) then reviseDmPreviewAfterDelete env (ce_channel_id payload) [] s1 else s1)"

definition handleChatDeleted :: "chat_env \<Rightarrow> chat_deleted_payload \<Rightarrow> chat_state \<Rightarrow> chat_state" where
  "handleChatDeleted env payload st = reviseDmPreviewAfterDelete env (cd_channel_id payload) [cd_message_id payload]
     (st\<lparr>ct_messages := reduceDeleteMessage (ct_messages st) payload\<rparr>)"

definition handleChatBulkDeleted :: "chat_env \<Rightarrow> chat_bulk_deleted_payload \<Rightarrow> chat_state \<Rightarrow> chat_state" where
  "handleChatBulkDeleted env payload st = reviseDmPreviewAfterDelete env (cb_channel_id payload) (cb_ids payload)
     (st\<lparr>ct_messages := bulkDeleteMessages (ct_messages st) payload\<rparr>)"

definition handleChatPinned :: "int \<Rightarrow> int \<Rightarrow> bool \<Rightarrow> chat_state \<Rightarrow> chat_state" where
  "handleChatPinned channel_id message_id pinned st =
     st\<lparr>ct_messages := reduceSetMessagePinned (ct_messages st) channel_id message_id pinned\<rparr>"


subsection \<open>Answers to the user's own frames\<close>

record chat_send_ok_payload =
  so_client_message_id :: "string option"
  so_deduplicated :: "bool option"
  so_message_id :: int
  so_timestamp :: string

definition handleChatSendOk :: "chat_env \<Rightarrow> chat_send_ok_payload \<Rightarrow> string option \<Rightarrow> chat_state \<Rightarrow> chat_state" where
  "handleChatSendOk env payload i st = (
     let s1 = chat_emit (Acknowledge (so_client_message_id payload)) st
     in case i of
          None \<Rightarrow> s1
        | Some k \<Rightarrow>
            if k = [] then s1
            else let channelId = channelIdForSend (ct_messages s1) k (so_client_message_id payload);
                     s2 = s1\<lparr>ct_messages := reduceConfirmSend (ct_messages s1) k (so_message_id payload) (so_timestamp payload)
                            (so_client_message_id payload)\<rparr>
              in (case channelId of
                    Some c \<Rightarrow> if so_deduplicated payload = Some True \<and> cx_getMessagesAround env
                      then chat_emit (Get_around_sent c (so_message_id payload) 3) s2 else s2
                  | None \<Rightarrow> s2))"

text \<open>The answer to a reconcile read. \<open>changed\<close> is the identity test on the row object, which a frame that
  arrived since the read replaces.\<close>

definition reconcileAnswer :: "chat_env \<Rightarrow> int \<Rightarrow> int \<Rightarrow> nat \<Rightarrow> bool \<Rightarrow> message_response list \<Rightarrow> chat_state \<Rightarrow> chat_state" where
  "reconcileAnswer env channelId messageId readsLeft changed messages st = (
     case List.find (\<lambda>m. mr_id m = messageId) messages of
       None \<Rightarrow> st
     | Some row \<Rightarrow>
         if changed then (if readsLeft > 1 then chat_emit (Get_around_sent channelId messageId (readsLeft - 1)) st else st)
         else st\<lparr>ct_threads := adoptStarterThreads (cx_parse env) [mr_thread row] (ct_threads st),
                 ct_messages := reduceApplyServerMessage (ct_messages st) row\<rparr>)"

definition my_id :: "chat_env \<Rightarrow> int" where
  "my_id env = (case cx_me env of None \<Rightarrow> 0 | Some me \<Rightarrow> u_id me)"

definition handleReactionUpdate :: "chat_env \<Rightarrow> reaction_update_payload \<Rightarrow> chat_state \<Rightarrow> chat_state" where
  "handleReactionUpdate env payload st = chat_emit (Invalidate_reactors (ru_message_id payload))
     (st\<lparr>ct_messages := reduceUpdateReaction (ct_messages st) payload (my_id env)\<rparr>)"

definition handlePollUpdate :: "chat_env \<Rightarrow> poll_update_payload \<Rightarrow> chat_state \<Rightarrow> chat_state" where
  "handlePollUpdate env payload st = st\<lparr>ct_messages := reducePollUpdate (ct_messages st) payload (my_id env)\<rparr>"

definition handlePollVoteOk :: "poll_vote_ok_payload \<Rightarrow> chat_state \<Rightarrow> chat_state" where
  "handlePollVoteOk payload st = st\<lparr>ct_messages := reducePollVoteOk (ct_messages st) payload\<rparr>"

definition handleTyping :: "chat_env \<Rightarrow> int \<Rightarrow> int \<Rightarrow> chat_state \<Rightarrow> chat_state" where
  "handleTyping env channel_id user_id st = st\<lparr>ct_members := setTyping channel_id user_id (cx_now env) (ct_members st)\<rparr>"

subsection \<open>Failures\<close>

text \<open>The connection states of \<open>lib/ws.ts\<close> by name.\<close>

definition failPendingOnDisconnect :: "string \<Rightarrow> messages_state \<Rightarrow> messages_state" where
  "failPendingOnDisconnect state s = (
     if state \<noteq> ''reconnecting'' \<and> state \<noteq> ''disconnected'' then s
     else let s1 = fold (\<lambda>i t. reduceMarkSendFailed t i (Some ''OFFLINE'')) (jm_keys (pendingSends s)) s
       in fold (\<lambda>i t. fst (rollbackReaction t i)) (jm_keys (pendingReactions s1)) s1)"

definition handleSendFailure :: "string \<Rightarrow> string \<Rightarrow> messages_state \<Rightarrow> messages_state" where
  "handleSendFailure i code s = (
     if jm_has (pendingSends s) i then reduceMarkSendFailed s i (Some code)
     else fst (rollbackReaction s i))"

definition hasSendRow :: "messages_state \<Rightarrow> string \<Rightarrow> bool" where
  "hasSendRow s correlationId = list_ex (\<lambda>rows. list_ex (has_correlation correlationId) rows) (jm_values (messagesByChannel s))"

definition blockRefusal :: "string \<Rightarrow> int option \<Rightarrow> chat_state \<Rightarrow> chat_state" where
  "blockRefusal code chId st = (
     if code \<noteq> ''FORBIDDEN'' then st
     else case Option.bind chId (dm_find (rs_dms (ct_read st))) of
       None \<Rightarrow> st
     | Some dm \<Rightarrow> if dm_isGroup dm then st
         else st\<lparr>ct_blocks := setUserBlockedByThem (du_id (dm_recipient dm)) True (ct_blocks st)\<rparr>)"

definition sentClientId :: "messages_state \<Rightarrow> string \<Rightarrow> string option" where
  "sentClientId s i = Option.bind (List.find (has_correlation i) (rows s (nullish (jm_get (pendingSends s) i) 0))) msg_clientMessageId"

definition failPendingSend :: "chat_env \<Rightarrow> string \<Rightarrow> string \<Rightarrow> chat_state \<Rightarrow> chat_state" where
  "failPendingSend env code i st = (
     let s1 = blockRefusal code (jm_get (pendingSends (ct_messages st)) i) st;
         beforeRestore = (code = ''BAD_REQUEST'' \<and>
           (case sentClientId (ct_messages s1) i of None \<Rightarrow> False | Some k \<Rightarrow> cx_beforeRestore env k));
         s2 = (if beforeRestore then chat_emit (Toast_error ''app.sendBeforeRestore'') s1 else s1)
     in s2\<lparr>ct_messages := reduceMarkSendFailed (ct_messages s2) i (Some (if beforeRestore then ''BEFORE_RESTORE'' else code))\<rparr>)"

definition handleMessagingError :: "chat_env \<Rightarrow> string \<Rightarrow> string option \<Rightarrow> chat_state \<Rightarrow> chat_state \<times> bool" where
  "handleMessagingError env code i st = (
     if cx_isForwardRequest env i then (st, True)
     else if cx_isPollRequest env i then (st, True)
     else case i of
       None \<Rightarrow> (st, False)
     | Some k \<Rightarrow>
         if code = ''ATTACHMENTS_UNAVAILABLE'' \<and> hasSendRow (ct_messages st) k
         then (st\<lparr>ct_messages := reduceRemoveOptimistic (ct_messages st) k\<rparr>, True)
         else if k \<noteq> [] \<and> jm_has (pendingSends (ct_messages st)) k then (failPendingSend env code k st, True)
         else (case rollbackReaction (ct_messages st) k of
             (m, True) \<Rightarrow> (let s1 = st\<lparr>ct_messages := m\<rparr>
               in (if code = ''REACTION_LIMIT'' then chat_emit (Toast_error ''app.reactionLimit'') s1 else s1, True))
           | (m, False) \<Rightarrow> (st\<lparr>ct_messages := m\<rparr>, False)))"

subsection \<open>The resync of the window on screen\<close>

definition applyReadyMessageResync :: "chat_env \<Rightarrow> chat_state \<Rightarrow> chat_state" where
  "applyReadyMessageResync env st = (
     let s1 = (if \<not> rk_hasReceivedReadyBefore (ct_clock st) then st
               else let s0 = chat_emit Clear_reactors st
                 in case activeChannelId (rs_channels (ct_read s0)) of
                      None \<Rightarrow> s0
                    | Some active \<Rightarrow>
                        if \<not> cx_getMessages env then s0
                        else let anchor = (if isWindowDetached (ct_messages s0) active then cx_readingAnchor env active else None);
                                 s2 = s0\<lparr>ct_messages := reduceInvalidateLoadedMessageWindows (reduceSetChannelLoading (ct_messages s0) active)\<rparr>
                          in (case anchor of
                                Some a \<Rightarrow> if cx_getMessagesAround env then chat_emit (Resync_around active a) s2 else chat_emit (Resync_tail active) s2
                              | None \<Rightarrow> chat_emit (Resync_tail active) s2))
     in s1\<lparr>ct_clock := (ct_clock s1)\<lparr>rk_hasReceivedReadyBefore := True\<rparr>\<rparr>)"

definition stillActive :: "int \<Rightarrow> chat_state \<Rightarrow> bool" where
  "stillActive channelId st \<longleftrightarrow> activeChannelId (rs_channels (ct_read st)) = Some channelId"

definition resyncFailed :: "int \<Rightarrow> chat_state \<Rightarrow> chat_state" where
  "resyncFailed channelId st = (
     if \<not> stillActive channelId st then st
     else let s1 = st\<lparr>ct_messages := reduceSetChannelLoadError (ct_messages st) channelId\<rparr>
       in if length (getChannelMessages (ct_messages s1) channelId) > 0 then chat_emit (Toast_error ''app.loadHistoryFailed'') s1 else s1)"

definition resyncAroundAnswer :: "chat_env \<Rightarrow> int \<Rightarrow> message_response list \<Rightarrow> bool \<Rightarrow> bool \<Rightarrow> chat_state \<Rightarrow> chat_state" where
  "resyncAroundAnswer env channelId messages hasMoreBefore hasMoreAfter st = (
     if \<not> stillActive channelId st then st
     else st\<lparr>ct_threads := adoptStarterThreads (cx_parse env) (map mr_thread messages) (ct_threads st),
             ct_messages := setAroundMessages (ct_messages st) channelId messages hasMoreBefore hasMoreAfter True\<rparr>)"

text \<open>A reducer that throws rejects the promise, so the failure branch runs.\<close>

definition resyncTailAnswer :: "chat_env \<Rightarrow> int \<Rightarrow> message_response list \<Rightarrow> bool \<Rightarrow> chat_state \<Rightarrow> chat_state" where
  "resyncTailAnswer env channelId messages serverMore st = (
     if \<not> stillActive channelId st then st
     else let s1 = st\<lparr>ct_threads := adoptStarterThreads (cx_parse env) (map mr_thread messages) (ct_threads st)\<rparr>
       in case setMessages (ct_messages s1) channelId messages serverMore True (cx_readingAnchor env channelId) of
            Inl _ \<Rightarrow> resyncFailed channelId s1
          | Inr m \<Rightarrow> s1\<lparr>ct_messages := m\<rparr>)"


subsection \<open>Badges\<close>

text \<open>A message counts in its channel when it is not the reader's own and the reader is not watching.\<close>

definition counts_in :: "chat_env \<Rightarrow> chat_state \<Rightarrow> chat_message_payload \<Rightarrow> bool" where
  "counts_in env st p \<longleftrightarrow> \<not> isOwnMessage env p \<and>
     (activeChannelId (rs_channels (ct_read st)) \<noteq> Some (cm_channel_id p) \<or>
      isChannelAway (read_env_of env st) (ct_read st) (cm_channel_id p))"

definition mention_of :: "int \<Rightarrow> channels_state \<Rightarrow> int" where
  "mention_of c s = nullish (map_option ch_mentionCount (jm_get (cs_channels s) c)) 0"

definition dm_mention_of :: "int \<Rightarrow> dm_state \<Rightarrow> int" where
  "dm_mention_of c s = nullish (map_option dm_mentionCount (dm_find s c)) 0"

definition channel_mark :: "int \<Rightarrow> channels_state \<Rightarrow> int option" where
  "channel_mark c s = Option.bind (jm_get (cs_channels s) c) ch_lastMessageId"

definition dm_mark :: "int \<Rightarrow> dm_state \<Rightarrow> int option" where
  "dm_mark c s = Option.bind (dm_find s c) dm_lastMessageId"

lemma addMessage_detached_same: "addMessage s p = Inr s' \<Longrightarrow> detachedChannels s' = detachedChannels s"
  by (auto simp: addMessage_def reduceAddMessage_def Let_def res_bind_def split: option.splits sum.splits if_splits)

lemma clearTyping_members [simp]: "ms_members (mb_state (clearTyping c u md)) = ms_members (mb_state md)"
  by (simp add: clearTyping_def clearTypingUsers_def Let_def split: option.split)

lemma countDm_dms: "rs_dms (ct_read (countDm env p away mention st)) =
    (if isOwnMessage env p \<or> (activeChannelId (rs_channels (ct_read st)) = Some (cm_channel_id p) \<and> \<not> away)
     then updateDmLastMessagePreview (cm_channel_id p) (cm_id p) (cm_content p) (cm_timestamp p) (rs_dms (ct_read st))
     else updateDmLastMessage (cm_channel_id p) (cm_id p) (cm_content p) (cm_timestamp p) mention (rs_dms (ct_read st)))"
proof (cases "list_ex (\<lambda>d. dm_channelId d = cm_channel_id p) (ds_channels (rs_dms (ct_read st)))")
  case False
  then have "dm_find (rs_dms (ct_read st)) (cm_channel_id p) = None" by (auto simp: dm_find_None list_ex_iff)
  with False show ?thesis by (simp add: countDm_def Let_def updateDmLastMessage_def updateDmLastMessagePreview_def)
qed (simp add: countDm_def Let_def)

text \<open>What the handler leaves in the stores that hold the badges.\<close>

lemma handleChatMessage_stores:
  assumes "handleChatMessage env p st = (st', None)"
  shows "rs_channels (ct_read st') = (if counts_in env st p
      then noteChannelMessage (rs_channels (ct_read st)) (cm_channel_id p) (cm_id p) (isMentionFor env st p)
        (isChannelAway (read_env_of env st) (ct_read st) (cm_channel_id p))
      else rs_channels (ct_read st))" (is ?channels)
    and "rs_dms (ct_read st') = (if counts_in env st p
      then updateDmLastMessage (cm_channel_id p) (cm_id p) (cm_content p) (cm_timestamp p) (isMentionFor env st p) (rs_dms (ct_read st))
      else updateDmLastMessagePreview (cm_channel_id p) (cm_id p) (cm_content p) (cm_timestamp p) (rs_dms (ct_read st)))" (is ?dms)
    and "ct_blocks st' = ct_blocks st" (is ?blocks)
proof -
  let ?c = "cm_channel_id p"
  define s1 where "s1 = (if isOwnMessage env p then chat_emit (Acknowledge (cm_client_message_id p)) st else st)"
  define s2 where "s2 = s1\<lparr>ct_members := clearTyping ?c (u_id (cm_user p)) (ct_members s1)\<rparr>"
  from assms obtain messages where add: "addMessage (ct_messages s2) p = Inr messages"
    by (auto simp: handleChatMessage_def Let_def s1_def s2_def split: sum.splits)
  define s3 where "s3 = s2\<lparr>ct_messages := messages,
     ct_threads := noteOpenThread env p (handleThreadState (cx_parse env) (cm_thread p) (ct_threads s2))\<rparr>"
  let ?away = "isChannelAway (read_env_of env s3) (ct_read s3) ?c"
  have st': "st' = notifyLive env p (countDm env p ?away (isMentionFor env s3 p) (countUnread env p s3))"
    using assms add by (simp add: handleChatMessage_def Let_def s1_def s2_def s3_def)
  have read3: "ct_read s3 = ct_read st" "ct_blocks s3 = ct_blocks st" by (simp_all add: s1_def s2_def s3_def chat_emit_def)
  have away: "?away = isChannelAway (read_env_of env st) (ct_read st) ?c"
    using addMessage_detached_same [OF add]
    by (simp add: isChannelAway_def read_env_of_def isWindowDetached_def s1_def s2_def s3_def chat_emit_def)
  have mention: "isMentionFor env s3 p = isMentionFor env st p"
    by (simp add: isMentionFor_def mention_env_of_def s1_def s2_def s3_def chat_emit_def)
  have counted: "(activeChannelId (rs_channels (ct_read s3)) \<noteq> Some ?c \<or> ?away) \<and> \<not> isOwnMessage env p \<longleftrightarrow> counts_in env st p"
    using away read3 by (auto simp: counts_in_def)
  have notify: "ct_read (notifyLive env p s) = ct_read s" "ct_blocks (notifyLive env p s) = ct_blocks s" for s
    by (simp_all add: notifyLive_def Let_def chat_emit_def)
  let ?s4 = "countUnread env p s3"
  have s4: "rs_channels (ct_read ?s4) = (if counts_in env st p
      then noteChannelMessage (rs_channels (ct_read st)) ?c (cm_id p) (isMentionFor env st p) ?away else rs_channels (ct_read st))"
    "rs_dms (ct_read ?s4) = rs_dms (ct_read st)" "ct_blocks ?s4 = ct_blocks st"
    using counted mention read3 by (simp_all add: countUnread_def Let_def noteAwayUnread_def)
  have active: "activeChannelId (rs_channels (ct_read ?s4)) = activeChannelId (rs_channels (ct_read st))"
    by (simp add: s4(1) noteChannelMessage_def Let_def split: option.split)
  have branch: "isOwnMessage env p \<or> (activeChannelId (rs_channels (ct_read ?s4)) = Some ?c \<and> \<not> ?away) \<longleftrightarrow> \<not> counts_in env st p"
    using counted active read3 by auto
  show ?channels using s4(1) away by (simp add: st' notify countDm_def Let_def)
  show ?blocks by (simp add: st' notify countDm_def Let_def s4(3))
  show ?dms
    unfolding st' notify countDm_dms branch by (simp add: s4(2) mention)
qed


lemma noteChannelMessage_row:
  "unread_of c (noteChannelMessage s c k mention ev) = unread_of c s +
     (if (activeChannelId s \<noteq> Some c \<or> ev) \<and> jm_has (cs_channels s) c \<and> above (channel_mark c s) k then 1 else 0)"
  "mention_of c (noteChannelMessage s c k mention ev) = mention_of c s +
     (if (activeChannelId s \<noteq> Some c \<or> ev) \<and> jm_has (cs_channels s) c \<and> above (channel_mark c s) k \<and> mention then 1 else 0)"
  "d \<noteq> c \<Longrightarrow> jm_get (cs_channels (noteChannelMessage s c k mention ev)) d = jm_get (cs_channels s) d"
  by (auto simp: noteChannelMessage_def unread_of_def mention_of_def channel_mark_def Let_def above_def split: option.split option.split_asm)

lemma updateDm_row:
  "dm_unread_of c (updateDmLastMessage c k content timestamp mention s) = dm_unread_of c s +
     (if dm_find s c \<noteq> None \<and> above (dm_mark c s) k then 1 else 0)"
  "dm_mention_of c (updateDmLastMessage c k content timestamp mention s) = dm_mention_of c s +
     (if dm_find s c \<noteq> None \<and> above (dm_mark c s) k \<and> mention then 1 else 0)"
  "dm_unread_of c (updateDmLastMessagePreview c k content timestamp s) = dm_unread_of c s"
  "dm_mention_of c (updateDmLastMessagePreview c k content timestamp s) = dm_mention_of c s"
  by (auto simp: updateDmLastMessage_def updateDmLastMessagePreview_def dm_unread_of_def dm_mention_of_def dm_mark_def Let_def
      above_def dest!: dm_find_SomeD split: option.split option.split_asm)

lemma updateDm_other:
  "d \<noteq> c \<Longrightarrow> dm_find (updateDmLastMessage c k content timestamp mention s) d = dm_find s d"
  "d \<noteq> c \<Longrightarrow> dm_find (updateDmLastMessagePreview c k content timestamp s) d = dm_find s d"
  by (cases s; auto simp: updateDmLastMessage_def updateDmLastMessagePreview_def Let_def dm_find_filter dest!: dm_find_SomeD split: option.split)+

text \<open>C2: What a message does to the badges, exactly: it adds one unread, and one mention when it mentions the
  reader, to its channel and to its conversation, each only when the reader is not watching, the message
  is not their own, the store knows it and its id is above the store's watermark; every other channel
  and conversation keeps its row.\<close>

theorem chat_message_badges:
  assumes "handleChatMessage env p st = (st', None)" and "c = cm_channel_id p"
    and "cs = rs_channels (ct_read st)" and "ds = rs_dms (ct_read st)"
    and "cs' = rs_channels (ct_read st')" and "ds' = rs_dms (ct_read st')"
  shows "unread_of c cs' = unread_of c cs + (if counts_in env st p \<and> jm_has (cs_channels cs) c \<and> above (channel_mark c cs) (cm_id p) then 1 else 0) \<and>
    mention_of c cs' = mention_of c cs + (if counts_in env st p \<and> jm_has (cs_channels cs) c \<and> above (channel_mark c cs) (cm_id p) \<and> isMentionFor env st p then 1 else 0) \<and>
    dm_unread_of c ds' = dm_unread_of c ds + (if counts_in env st p \<and> dm_find ds c \<noteq> None \<and> above (dm_mark c ds) (cm_id p) then 1 else 0) \<and>
    dm_mention_of c ds' = dm_mention_of c ds + (if counts_in env st p \<and> dm_find ds c \<noteq> None \<and> above (dm_mark c ds) (cm_id p) \<and> isMentionFor env st p then 1 else 0) \<and>
    (\<forall>d. d \<noteq> c \<longrightarrow> jm_get (cs_channels cs') d = jm_get (cs_channels cs) d \<and> dm_find ds' d = dm_find ds d)"
proof -
  note stores = handleChatMessage_stores [OF assms(1)]
  have watched: "activeChannelId cs \<noteq> Some c \<or> isChannelAway (read_env_of env st) (ct_read st) c" if "counts_in env st p"
    using that assms(2,3) by (auto simp: counts_in_def)
  show ?thesis unfolding assms(5,6) stores unfolding assms(2-4) [symmetric]
    using watched by (simp add: noteChannelMessage_row updateDm_row updateDm_other)
qed

definition sample_chat :: chat_state where
  "sample_chat = \<lparr>ct_messages = INITIAL_STATE, ct_read = sample_read,
     ct_members = \<lparr>mb_state = MEMBERS_INITIAL_STATE, mb_typingTimers = []\<rparr>, ct_threads = loader_init,
     ct_blocks = BLOCKS_INITIAL, ct_clock = createReconnectClock, ct_refetches = [], ct_refetchToken = 0, ct_out = []\<rparr>"

definition sample_chat_env :: chat_env where
  "sample_chat_env = \<lparr>cx_me = mv_me sample_mentions, cx_mentions = sample_mentions, cx_read = sample_env, cx_now = 100,
     cx_time = (\<lambda>_. Some 90), cx_parse = (\<lambda>_. None), cx_getDmChannels = True, cx_getMessages = True,
     cx_getMessagesAround = True, cx_readingAnchor = (\<lambda>_. None), cx_isForwardRequest = (\<lambda>_. False),
     cx_isPollRequest = (\<lambda>_. False), cx_beforeRestore = (\<lambda>_. False)\<rparr>"

definition sample_chat_message :: "int \<Rightarrow> int \<Rightarrow> chat_message_payload" where
  "sample_chat_message c k = \<lparr>cm_client_message_id = None, cm_id = k, cm_channel_id = c,
     cm_user = \<lparr>u_id = 9, u_username = ''eve'', u_avatar = None, u_display_name = None\<rparr>, cm_content = js_lit ''hi'',
     cm_reply_to = None, cm_referenced_message = None, cm_attachments = [], cm_timestamp = ''t'', cm_mentions = Some [3],
     cm_mention_roles = None, cm_mentions_everyone = None, cm_mentions_here = None, cm_kind = None, cm_call = None,
     cm_group_event = None, cm_forward = None, cm_poll = None, cm_sticker = None, cm_thread = None\<rparr>"

lemma empty_addMessage: "messagesByChannel s = [] \<Longrightarrow> \<exists>s'. addMessage s p = Inr s'"
  by (simp add: addMessage_def reduceAddMessage_def rows_def Let_def res_bind_def)

lemma handleChatMessage_returns:
  "addMessage (ct_messages st) p = Inr m \<Longrightarrow> \<exists>st'. handleChatMessage env p st = (st', None)"
  by (simp add: handleChatMessage_def Let_def chat_emit_def)

theorem chat_message_badges_witness:
  "\<exists>st'. handleChatMessage sample_chat_env (sample_chat_message 1 12) sample_chat = (st', None) \<and>
     dm_unread_of 1 (rs_dms (ct_read st')) = 4"
proof -
  have "messagesByChannel (ct_messages sample_chat) = []" by (simp add: sample_chat_def INITIAL_STATE_def)
  from empty_addMessage [OF this] handleChatMessage_returns obtain st' where st': "handleChatMessage sample_chat_env (sample_chat_message 1 12) sample_chat = (st', None)"
    by blast
  have "counts_in sample_chat_env sample_chat (sample_chat_message 1 12)"
    by (simp add: counts_in_def isOwnMessage_def sample_chat_env_def sample_mentions_def sample_self_def sample_chat_message_def sample_chat_def
        sample_read_def CHANNELS_INITIAL_STATE_def)
  moreover have "dm_find (rs_dms (ct_read sample_chat)) 1 \<noteq> None" "dm_mark 1 (rs_dms (ct_read sample_chat)) = Some 10"
    "dm_unread_of 1 (rs_dms (ct_read sample_chat)) = 3"
    by (simp_all add: sample_chat_def sample_read_def dm_mark_def dm_unread_of_def mapDmPayload_def sample_dm_def Let_def)
  ultimately show ?thesis
    using chat_message_badges [OF st' refl refl refl refl refl] st' by (simp add: sample_chat_message_def)
qed


lemma handleChatMessage_messages:
  assumes "handleChatMessage env p st = (st', None)"
  shows "addMessage (ct_messages st) p = Inr (ct_messages st')"
proof -
  have keep: "ct_messages (notifyLive env p (countDm env p a m (countUnread env p s))) = ct_messages s" for a m s
    by (simp add: notifyLive_def countDm_def countUnread_def chat_emit_def Let_def)
  show ?thesis using assms keep by (auto simp: handleChatMessage_def Let_def chat_emit_def split: sum.splits if_splits)
qed

lemma sample_returns: "\<exists>st'. handleChatMessage env p sample_chat = (st', None)"
proof -
  have "messagesByChannel (ct_messages sample_chat) = []" by (simp add: sample_chat_def INITIAL_STATE_def)
  from empty_addMessage [OF this] handleChatMessage_returns show ?thesis by blast
qed

lemma counted_mark:
  "jm_has (cs_channels s) c \<Longrightarrow> activeChannelId s \<noteq> Some c \<or> ev \<Longrightarrow> \<not> above (channel_mark c (noteChannelMessage s c k mention ev)) k"
  "\<not> jm_has (cs_channels s) c \<Longrightarrow> noteChannelMessage s c k mention ev = s"
  by (auto simp: noteChannelMessage_def channel_mark_def Let_def above_def split: option.splits)

lemma dm_counted_mark:
  "dm_find s c \<noteq> None \<Longrightarrow> \<not> above (dm_mark c (updateDmLastMessage c k content timestamp mention s)) k"
  "dm_find s c = None \<Longrightarrow> updateDmLastMessage c k content timestamp mention s = s"
  by (auto simp: updateDmLastMessage_def dm_mark_def Let_def above_def dest!: dm_find_SomeD split: option.splits)

text \<open>A message that was counted is not counted again: delivered a second time, in whatever environment, it
  leaves the unread and mention counts of its channel and its conversation as they are.\<close>

theorem chat_message_counted_once:
  assumes "handleChatMessage env p st = (st1, None)" and "counts_in env st p"
    and "handleChatMessage env' p st1 = (st2, None)" and "c = cm_channel_id p"
  shows "unread_of c (rs_channels (ct_read st2)) = unread_of c (rs_channels (ct_read st1)) \<and>
    mention_of c (rs_channels (ct_read st2)) = mention_of c (rs_channels (ct_read st1)) \<and>
    dm_unread_of c (rs_dms (ct_read st2)) = dm_unread_of c (rs_dms (ct_read st1)) \<and>
    dm_mention_of c (rs_dms (ct_read st2)) = dm_mention_of c (rs_dms (ct_read st1))"
proof -
  note stores = handleChatMessage_stores [OF assms(1)]
  have watched: "activeChannelId (rs_channels (ct_read st)) \<noteq> Some c \<or> isChannelAway (read_env_of env st) (ct_read st) c"
    using assms(2,4) by (auto simp: counts_in_def)
  have row: "\<not> jm_has (cs_channels (rs_channels (ct_read st1))) c \<or> \<not> above (channel_mark c (rs_channels (ct_read st1))) (cm_id p)"
    using counted_mark(1) [OF _ watched] counted_mark(2) [of "rs_channels (ct_read st)" c] assms(2,4) unfolding stores by (metis (full_types))
  have dm: "dm_find (rs_dms (ct_read st1)) c = None \<or> \<not> above (dm_mark c (rs_dms (ct_read st1))) (cm_id p)"
    using dm_counted_mark [of "rs_dms (ct_read st)" c] assms(2,4) unfolding stores by (metis (full_types))
  note again = handleChatMessage_stores [OF assms(3)]
  show ?thesis using row dm unfolding again assms(4) [symmetric]
    by (auto simp: noteChannelMessage_row updateDm_row)
qed

theorem chat_message_counted_once_witness:
  "\<exists>st1 st2. handleChatMessage sample_chat_env (sample_chat_message 1 12) sample_chat = (st1, None) \<and>
     handleChatMessage sample_chat_env (sample_chat_message 1 12) st1 = (st2, None) \<and>
     dm_unread_of 1 (rs_dms (ct_read st2)) = dm_unread_of 1 (rs_dms (ct_read st1))"
proof -
  let ?p = "sample_chat_message 1 12"
  obtain st1 where st1: "handleChatMessage sample_chat_env ?p sample_chat = (st1, None)" using sample_returns by blast
  have counted: "counts_in sample_chat_env sample_chat ?p"
    by (simp add: counts_in_def isOwnMessage_def sample_chat_env_def sample_mentions_def sample_self_def sample_chat_message_def sample_chat_def
        sample_read_def CHANNELS_INITIAL_STATE_def)
  have "messagesByChannel (ct_messages st1) = [(1, [chatPayloadToMessage ?p])]"
    using handleChatMessage_messages [OF st1] by (simp add: sample_chat_def addMessage_def reduceAddMessage_def Let_def INITIAL_STATE_def rows_def
        res_bind_def insertLive_def MAX_MESSAGES_PER_CHANNEL_def jm_set_def chatPayloadToMessage_def sample_chat_message_def)
      (drule sym, simp)
  then obtain m where "addMessage (ct_messages st1) ?p = Inr m"
    by (auto simp: addMessage_def reduceAddMessage_def Let_def rows_def jm_get_Cons chatPayloadToMessage_def sample_chat_message_def res_bind_def)
  then obtain st2 where st2: "handleChatMessage sample_chat_env ?p st1 = (st2, None)" using handleChatMessage_returns by blast
  from chat_message_counted_once [OF st1 counted st2 refl] st1 st2 show ?thesis by (auto simp: sample_chat_message_def)
qed

text \<open>A message of a blocked author raises no mention anywhere, not even with an @everyone that the server
  honoured.\<close>

theorem blocked_author_no_mention:
  assumes "handleChatMessage env p st = (st', None)" and "js_has (bs_blockedByMe (ct_blocks st)) (u_id (cm_user p))"
  shows "mention_of c (rs_channels (ct_read st')) = mention_of c (rs_channels (ct_read st)) \<and>
    dm_mention_of c (rs_dms (ct_read st')) = dm_mention_of c (rs_dms (ct_read st))"
proof -
  have "\<not> isMentionFor env st p" using assms(2) by (simp add: isMentionFor_def)
  then show ?thesis unfolding handleChatMessage_stores [OF assms(1)]
    by (cases "c = cm_channel_id p")
      (auto simp: noteChannelMessage_row updateDm_row, auto simp: mention_of_def dm_mention_of_def noteChannelMessage_row updateDm_other)
qed

theorem blocked_author_no_mention_witness:
  "\<exists>st'. handleChatMessage sample_chat_env (sample_chat_message 1 12) (sample_chat\<lparr>ct_blocks := setUserBlockedByMe 9 True BLOCKS_INITIAL\<rparr>) = (st', None) \<and>
     dm_mention_of 1 (rs_dms (ct_read st')) = 0"
proof -
  let ?st = "sample_chat\<lparr>ct_blocks := setUserBlockedByMe 9 True BLOCKS_INITIAL\<rparr>"
  have "messagesByChannel (ct_messages ?st) = []" by (simp add: sample_chat_def INITIAL_STATE_def)
  from empty_addMessage [OF this] handleChatMessage_returns obtain st' where
    st': "handleChatMessage sample_chat_env (sample_chat_message 1 12) ?st = (st', None)" by blast
  have "js_has (bs_blockedByMe (ct_blocks ?st)) (u_id (cm_user (sample_chat_message 1 12)))"
    by (simp add: sample_chat_message_def setUserBlockedByMe_def BLOCKS_INITIAL_def)
  moreover have "dm_mention_of 1 (rs_dms (ct_read ?st)) = 0"
    by (simp add: sample_chat_def sample_read_def dm_mention_of_def mapDmPayload_def sample_dm_def Let_def)
  ultimately show ?thesis using blocked_author_no_mention [OF st', of 1] st' by auto
qed

subsection \<open>Replays\<close>

text \<open>A wrong estimate of the server's clock hides a message for five seconds at most: once that long has
  passed since the reconnect handshake, or when there was none, every message handled is handed to the
  notifications and refreshes the estimate, whatever the estimate was.\<close>

theorem replay_window_bounds:
  assumes "handleChatMessage env p st = (st', None)" and "case rk_lastReconnectHandshakeAt (ct_clock st) of None \<Rightarrow> True | Some at \<Rightarrow> at + 5000 \<le> cx_now env"
  shows "(\<exists>ch. last (ct_out st') = Notify_incoming (p\<lparr>cm_channel_id := ch\<rparr>)) \<and>
    rk_serverClockSkewMs (ct_clock st') = map_option (\<lambda>t. cx_now env - t) (cx_time env (cm_timestamp p))"
proof -
  from assms(1) obtain s4 where st': "st' = notifyLive env p s4" and clock: "ct_clock s4 = ct_clock st"
    by (auto simp: handleChatMessage_def Let_def countDm_def countUnread_def chat_emit_def split: sum.splits)
  have "\<not> isReplayFrame env (ct_clock s4) (cm_timestamp p)"
    using assms(2) by (auto simp: isReplayFrame_def clock REPLAY_GATE_WINDOW_MS_def split: option.splits)
  then have "last (ct_out st') = Notify_incoming (p\<lparr>cm_channel_id := if tl_loaded (ct_threads s4)
      then authorityChannelId (threads_of s4) (cm_channel_id p) else cm_channel_id p\<rparr>)"
    and "rk_serverClockSkewMs (ct_clock st') = map_option (\<lambda>t. cx_now env - t) (cx_time env (cm_timestamp p))"
    unfolding st' notifyLive_def Let_def chat_emit_def by simp_all
  then show ?thesis by blast
qed


theorem replay_window_bounds_witness:
  "\<exists>st'. handleChatMessage sample_chat_env (sample_chat_message 1 12) sample_chat = (st', None) \<and>
     rk_serverClockSkewMs (ct_clock st') = Some 10"
proof -
  obtain st' where st': "handleChatMessage sample_chat_env (sample_chat_message 1 12) sample_chat = (st', None)" using sample_returns by blast
  have "rk_lastReconnectHandshakeAt (ct_clock sample_chat) = None" by (simp add: sample_chat_def createReconnectClock_def)
  with replay_window_bounds [OF st'] st' show ?thesis by (auto simp: sample_chat_env_def)
qed

subsection \<open>Previews of deleted messages\<close>

lemma dm_find_update_first:
  "(\<And>x. dm_channelId (f x) = dm_channelId x) \<Longrightarrow>
     dm_find \<lparr>ds_channels = update_first (\<lambda>x. dm_channelId x = c) f xs\<rparr> c = map_option f (dm_find \<lparr>ds_channels = xs\<rparr> c)"
  by (induction xs) (auto simp: dm_find_def)

lemma revise_find:
  "dm_find s c = Some d \<Longrightarrow> dm_lastMessageId d = Some m \<Longrightarrow> dm_find (reviseDmLastMessage c m patch s) c = Some (revisedDm patch d)"
  by (cases s) (simp add: reviseDmLastMessage_def dm_find_update_first revisedDm_def)

text \<open>A deleted message does not come back in the list of conversations: the delete of the message a preview
  shows blanks the preview at once, and the answer of any request for previews that was sent before the
  delete is dropped.\<close>

theorem deleted_preview_stays_blank:
  assumes "shownPreview st c = Some m" and "cx_getDmChannels env" and "token \<le> ct_refetchToken st"
    and "st' = handleChatDeleted env \<lparr>cd_message_id = m, cd_channel_id = c\<rparr> st"
  shows "(\<exists>d. dm_find (rs_dms (ct_read st')) c = Some d \<and> dm_lastMessage d = []) \<and> dmPreviewAnswer c shown token answer st' = st'"
proof -
  from assms(1) obtain d where d: "dm_find (rs_dms (ct_read st)) c = Some d" "dm_lastMessageId d = Some m"
    by (auto simp: shownPreview_def bind_eq_Some_conv)
  let ?patch = "\<lparr>dp_lastMessageId = None, dp_lastMessage = Some [], dp_lastMessageAt = None\<rparr>"
  have shown: "shownPreview (st\<lparr>ct_messages := msgs\<rparr>) c = Some m" for msgs using assms(1) by (simp add: shownPreview_def)
  have read': "rs_dms (ct_read st') = reviseDmLastMessage c m ?patch (rs_dms (ct_read st))"
    and token': "jm_get (ct_refetches st') c = Some \<lparr>rf_shown = m, rf_token = ct_refetchToken st + 1\<rparr>"
    using assms(2,4) by (simp_all add: handleChatDeleted_def reviseDmPreviewAfterDelete_def shown Let_def withDms_def chat_emit_def)
  have "dmPreviewAnswer c shown token answer st' = st'"
    using assms(3) by (simp add: dmPreviewAnswer_def settleRefetch_def token')
  moreover have "dm_lastMessage (revisedDm ?patch d) = []" by (simp add: revisedDm_def)
  ultimately show ?thesis unfolding read' using revise_find [OF d] by blast
qed

theorem deleted_preview_stays_blank_witness:
  "\<exists>d. dm_find (rs_dms (ct_read (handleChatDeleted sample_chat_env \<lparr>cd_message_id = 10, cd_channel_id = 1\<rparr> sample_chat))) 1 = Some d \<and>
     dm_lastMessage d = []"
proof -
  have "shownPreview sample_chat 1 = Some 10"
    by (simp add: shownPreview_def sample_chat_def sample_read_def mapDmPayload_def sample_dm_def Let_def)
  moreover have "cx_getDmChannels sample_chat_env" by (simp add: sample_chat_env_def)
  moreover have "0 \<le> ct_refetchToken sample_chat" by (simp add: sample_chat_def)
  ultimately show ?thesis using deleted_preview_stays_blank [OF _ _ _ refl] by blast
qed

subsection \<open>A lost connection\<close>

definition failed_row :: "string \<Rightarrow> message \<Rightarrow> bool" where
  "failed_row i m \<longleftrightarrow> (has_correlation i m \<longrightarrow> msg_status m = Failed)"

definition all_failed :: "string \<Rightarrow> int \<Rightarrow> messages_state \<Rightarrow> bool" where
  "all_failed i c s \<longleftrightarrow> list_all (failed_row i) (rows s c)"

lemma rollback_failed: "all_failed i c s \<Longrightarrow> all_failed i c (fst (rollbackReaction s k))"
  by (auto simp: rollbackReaction_def reduceRollbackReaction_def applyReactionDelta_def Let_def all_failed_def rows_def
      list_all_iff failed_row_def split: option.splits)

lemma rollback_pending:
  "pendingSends (fst (rollbackReaction s k)) = pendingSends s"
  "pendingReactions (fst (rollbackReaction s k)) = jm_delete (pendingReactions s) k"
  "jm_get (messagesByChannel (fst (rollbackReaction s k))) c = None \<longleftrightarrow> jm_get (messagesByChannel s) c = None"
  by (auto simp: rollbackReaction_def reduceRollbackReaction_def applyReactionDelta_def Let_def jm_delete_absent split: option.splits)

lemma mark_failed: "all_failed i c s \<Longrightarrow> all_failed i c (reduceMarkSendFailed s k code)"
  by (auto simp: reduceMarkSendFailed_def all_failed_def rows_def list_all_iff failed_row_def split: option.splits)

lemma mark_failed_self:
  "jm_get (pendingSends s) i = Some c \<Longrightarrow> all_failed i c (reduceMarkSendFailed s i code)"
  by (auto simp: reduceMarkSendFailed_def all_failed_def rows_def list_all_iff failed_row_def split: option.splits)

lemma mark_pending:
  "jm_get (messagesByChannel (reduceMarkSendFailed s k code)) c = None \<longleftrightarrow> jm_get (messagesByChannel s) c = None"
  "jm_get (pendingSends (reduceMarkSendFailed s k code)) i = Some c \<Longrightarrow>
     jm_get (pendingSends s) i = Some c \<and> (i = k \<longrightarrow> jm_get (messagesByChannel s) c = None)"
  by (auto simp: reduceMarkSendFailed_def split: option.splits if_splits)


text \<open>Marking a list of sends failed, and rolling back a list of toggles.\<close>

lemma fold_mark:
  assumes "t = fold (\<lambda>i t. reduceMarkSendFailed t i code) is s"
  shows "all_failed i c s \<Longrightarrow> all_failed i c t"
    and "i \<in> set is \<Longrightarrow> jm_get (pendingSends s) i = Some c \<Longrightarrow> all_failed i c t"
    and "jm_get (messagesByChannel t) c = None \<longleftrightarrow> jm_get (messagesByChannel s) c = None"
    and "jm_get (pendingSends t) i = Some c \<Longrightarrow> jm_get (pendingSends s) i = Some c \<and> (i \<in> set is \<longrightarrow> jm_get (messagesByChannel s) c = None)"
proof -
  have keep: "all_failed i c s \<Longrightarrow> all_failed i c (fold (\<lambda>i t. reduceMarkSendFailed t i code) is s)" for "is" s
    by (induction "is" arbitrary: s) (auto intro: mark_failed)
  then show "all_failed i c s \<Longrightarrow> all_failed i c t" by (simp add: assms)
  show "i \<in> set is \<Longrightarrow> jm_get (pendingSends s) i = Some c \<Longrightarrow> all_failed i c t"
    unfolding assms
  proof (induction "is" arbitrary: s)
    case (Cons k "is")
    show ?case
    proof (cases "i = k")
      case True
      with keep [OF mark_failed_self [OF Cons.prems(2)]] show ?thesis by simp
    next
      case False
      have "jm_get (pendingSends (reduceMarkSendFailed s k code)) i = Some c"
        using Cons.prems(2) False by (simp add: reduceMarkSendFailed_def split: option.split)
      with Cons False show ?thesis by simp
    qed
  qed simp
  show "jm_get (messagesByChannel t) c = None \<longleftrightarrow> jm_get (messagesByChannel s) c = None"
    unfolding assms by (induction "is" arbitrary: s) (simp_all add: mark_pending(1))
  show "jm_get (pendingSends t) i = Some c \<Longrightarrow> jm_get (pendingSends s) i = Some c \<and> (i \<in> set is \<longrightarrow> jm_get (messagesByChannel s) c = None)"
    unfolding assms
  proof (induction "is" arbitrary: s)
    case (Cons k "is")
    then have "jm_get (pendingSends (reduceMarkSendFailed s k code)) i = Some c \<and>
        (i \<in> set is \<longrightarrow> jm_get (messagesByChannel (reduceMarkSendFailed s k code)) c = None)" by simp
    with mark_pending [of s k code] show ?case by auto
  qed simp
qed

lemma fold_rollback:
  assumes "t = fold (\<lambda>i t. fst (rollbackReaction t i)) ks s"
  shows "pendingSends t = pendingSends s" and "jm_get (messagesByChannel t) c = None \<longleftrightarrow> jm_get (messagesByChannel s) c = None"
    and "all_failed i c s \<Longrightarrow> all_failed i c t" and "pendingReactions t = filter (\<lambda>e. fst e \<notin> set ks) (pendingReactions s)"
proof -
  have del: "jm_delete m k = filter (\<lambda>e. fst e \<noteq> k) m" for m :: "(string, pending_reaction) jmap" and k
    by (induction m) (auto simp: jm_delete_def)
  show "pendingSends t = pendingSends s" "jm_get (messagesByChannel t) c = None \<longleftrightarrow> jm_get (messagesByChannel s) c = None"
    unfolding assms by (induction ks arbitrary: s) (simp_all add: rollback_pending(1,3))
  show "all_failed i c s \<Longrightarrow> all_failed i c t"
    unfolding assms by (induction ks arbitrary: s) (simp_all add: rollback_failed)
  show "pendingReactions t = filter (\<lambda>e. fst e \<notin> set ks) (pendingReactions s)"
    unfolding assms by (induction ks arbitrary: s) (auto simp: rollback_pending del intro!: filter_cong)
qed

text \<open>A lost connection leaves nothing pending: every row of a send that waited for its answer is failed and
  can be retried, no send that has a window still waits, and every reaction toggle that waited is rolled
  back.\<close>

theorem disconnect_settles_pending:
  assumes "state = ''reconnecting'' \<or> state = ''disconnected''" and "t = failPendingOnDisconnect state s"
    and "jm_get (pendingSends s) i = Some c"
  shows "list_all (\<lambda>m. has_correlation i m \<longrightarrow> msg_status m = Failed) (rows t c) \<and>
    (jm_get (messagesByChannel s) c \<noteq> None \<longrightarrow> jm_get (pendingSends t) i = None) \<and> pendingReactions t = []"
proof -
  let ?s1 = "fold (\<lambda>i t. reduceMarkSendFailed t i (Some ''OFFLINE'')) (jm_keys (pendingSends s)) s"
  have t: "t = fold (\<lambda>i t. fst (rollbackReaction t i)) (jm_keys (pendingReactions ?s1)) ?s1"
    using assms(1,2) by (auto simp: failPendingOnDisconnect_def Let_def)
  have mem: "i \<in> set (jm_keys (pendingSends s))" using jm_get_SomeD [OF assms(3)] by (force simp: jm_keys_def)
  have "all_failed i c ?s1" by (rule fold_mark(2) [OF refl mem assms(3)])
  then have "all_failed i c t" by (rule fold_rollback(3) [OF t])
  moreover have "jm_get (pendingSends ?s1) i = None" if row: "jm_get (messagesByChannel s) c \<noteq> None"
  proof (rule ccontr)
    assume "jm_get (pendingSends ?s1) i \<noteq> None"
    then obtain c' where "jm_get (pendingSends ?s1) i = Some c'" by blast
    from fold_mark(4) [OF refl this] mem assms(3) row show False by simp
  qed
  moreover have "pendingReactions t = []" using fold_rollback(4) [OF t] by (auto simp: jm_keys_def filter_empty_conv)
  ultimately show ?thesis by (simp add: all_failed_def failed_row_def [abs_def] fold_rollback(1) [OF t])
qed


theorem disconnect_settles_pending_witness:
  "list_all (\<lambda>m. has_correlation ''k'' m \<longrightarrow> msg_status m = Failed)
     (rows (failPendingOnDisconnect ''reconnecting'' (addOptimisticMessage INITIAL_STATE
       \<lparr>op_correlationId = ''k'', op_clientMessageId = None, op_channelId = 1, op_user = Message_Model.sample_user,
        op_content = js_lit ''hi'', op_replyTo = None, op_attachments = None, op_sticker = None, op_timestamp = ''t'', op_uploading = False\<rparr>)) 1)"
proof -
  let ?s = "addOptimisticMessage INITIAL_STATE
       \<lparr>op_correlationId = ''k'', op_clientMessageId = None, op_channelId = 1, op_user = Message_Model.sample_user,
        op_content = js_lit ''hi'', op_replyTo = None, op_attachments = None, op_sticker = None, op_timestamp = ''t'', op_uploading = False\<rparr>"
  have "jm_get (pendingSends ?s) ''k'' = Some 1"
    by (simp add: addOptimisticMessage_def reduceAddOptimisticMessage_def Let_def optimisticRow_def)
  from disconnect_settles_pending [OF _ refl this] show ?thesis by simp
qed

subsection \<open>The mirror row of a conversation after a resync\<close>

definition apply_ready_dms :: "dm_channel_payload list \<Rightarrow> chat_state \<Rightarrow> chat_state" where
  "apply_ready_dms payloads st = (
     let rs = ct_read st; z = applyReadyDms (Some payloads) \<lparr>dz_dms = rs_dms rs, dz_channels = channels_init\<lparr>cs_state := rs_channels rs\<rparr>\<rparr>
     in st\<lparr>ct_read := rs\<lparr>rs_dms := dz_dms z, rs_channels := cs_state (dz_channels z)\<rparr>\<rparr>)"

lemma apply_ready_dms_rows:
  assumes "jm_wf (cs_channels (rs_channels (ct_read st)))" and "jm_get (cs_channels (rs_channels (ct_read st))) (dq_channel_id q) = Some e"
    and "ch_type e = DmChannel"
  shows "jm_get (cs_channels (rs_channels (ct_read (apply_ready_dms [q] st)))) (dq_channel_id q) =
      Some (e\<lparr>ch_unreadCount := dq_unread_count q, ch_mentionCount := nullish (dq_mention_count q) 0, ch_lastReadMessageId := dq_last_read_message_id q\<rparr>)"
    and "dm_find (rs_dms (ct_read (apply_ready_dms [q] st))) (dq_channel_id q) = Some (mapDmPayload q)"
    and "activeChannelId (rs_channels (ct_read (apply_ready_dms [q] st))) = activeChannelId (rs_channels (ct_read st))"
  using assms reconcileMirrors_get [OF assms(1), of "[q]" "dq_channel_id q"]
  by (simp_all add: apply_ready_dms_def applyReadyDms_def setDmChannels_def Let_def reconciled_def jm_get_of_list reconcileMirrors_def)

text \<open>C40: The mirror row of an open conversation counts a message twice across a resync: \<open>ready\<close> restates its
  counts but not its watermark, so the message that \<open>ready\<close> already counted, delivered right after it, is
  counted by the channels store and not by the store of conversations.\<close>

theorem dm_mirror_counts_twice:
  assumes "jm_wf (cs_channels (rs_channels (ct_read st)))" and "jm_get (cs_channels (rs_channels (ct_read st))) (dq_channel_id q) = Some e"
    and "ch_type e = DmChannel" and "above (ch_lastMessageId e) (cm_id p)" and "dq_last_message_id q = Some (cm_id p)"
    and "cm_channel_id p = dq_channel_id q" and "\<not> isOwnMessage env p"
    and "activeChannelId (rs_channels (ct_read st)) \<noteq> Some (dq_channel_id q)"
    and "handleChatMessage env p (apply_ready_dms [q] st) = (st', None)"
  shows "dm_unread_of (dq_channel_id q) (rs_dms (ct_read st')) = dq_unread_count q \<and>
    unread_of (dq_channel_id q) (rs_channels (ct_read st')) = dq_unread_count q + 1"
proof -
  note rows = apply_ready_dms_rows [OF assms(1-3)]
  have counted: "counts_in env (apply_ready_dms [q] st) p" using assms(6-8) rows(3) by (simp add: counts_in_def)
  have "dm_mark (dq_channel_id q) (rs_dms (ct_read (apply_ready_dms [q] st))) = Some (cm_id p)"
    "dm_unread_of (dq_channel_id q) (rs_dms (ct_read (apply_ready_dms [q] st))) = dq_unread_count q"
    using rows(2) assms(5) by (simp_all add: dm_mark_def dm_unread_of_def mapDmPayload_def Let_def)
  moreover have "channel_mark (dq_channel_id q) (rs_channels (ct_read (apply_ready_dms [q] st))) = ch_lastMessageId e"
    "unread_of (dq_channel_id q) (rs_channels (ct_read (apply_ready_dms [q] st))) = dq_unread_count q"
    using rows(1) by (simp_all add: channel_mark_def unread_of_def)
  ultimately show ?thesis unfolding handleChatMessage_stores [OF assms(9)] assms(6)
    using counted rows assms(4,8) by (simp add: noteChannelMessage_row updateDm_row)
qed

theorem dm_mirror_counts_twice_witness:
  "\<exists>st st'. handleChatMessage sample_chat_env (sample_chat_message 1 12) (apply_ready_dms [sample_dm 1 (Some 12) 3] st) = (st', None) \<and>
     dm_unread_of 1 (rs_dms (ct_read st')) = 3 \<and> unread_of 1 (rs_channels (ct_read st')) = 4"
proof -
  let ?e = "mirrorRow ''ada'' (mapDmPayload (sample_dm 1 (Some 10) 0))"
  let ?st = "sample_chat\<lparr>ct_read := sample_read\<lparr>rs_channels := CHANNELS_INITIAL_STATE\<lparr>cs_channels := [(1, ?e)]\<rparr>\<rparr>\<rparr>"
  let ?q = "sample_dm 1 (Some 12) 3"
  let ?p = "sample_chat_message 1 12"
  have "messagesByChannel (ct_messages (apply_ready_dms [?q] ?st)) = []"
    by (simp add: apply_ready_dms_def Let_def sample_chat_def INITIAL_STATE_def)
  from empty_addMessage [OF this] handleChatMessage_returns obtain st' where
    st': "handleChatMessage sample_chat_env ?p (apply_ready_dms [?q] ?st) = (st', None)" by blast
  have "jm_wf (cs_channels (rs_channels (ct_read ?st)))" by (simp add: jm_wf_def)
  moreover have "jm_get (cs_channels (rs_channels (ct_read ?st))) (dq_channel_id ?q) = Some ?e" by (simp add: jm_get_Cons)
  moreover have "ch_type ?e = DmChannel" "above (ch_lastMessageId ?e) (cm_id ?p)"
    by (simp_all add: mirrorRow_def mapDmPayload_def sample_dm_def Let_def sample_chat_message_def)
  moreover have "dq_last_message_id ?q = Some (cm_id ?p)" "cm_channel_id ?p = dq_channel_id ?q"
    by (simp_all add: sample_dm_def sample_chat_message_def)
  moreover have "\<not> isOwnMessage sample_chat_env ?p"
    by (simp add: isOwnMessage_def sample_chat_env_def sample_mentions_def sample_self_def sample_chat_message_def)
  moreover have "activeChannelId (rs_channels (ct_read ?st)) \<noteq> Some (dq_channel_id ?q)"
    by (simp add: CHANNELS_INITIAL_STATE_def)
  ultimately have "dm_unread_of (dq_channel_id ?q) (rs_dms (ct_read st')) = dq_unread_count ?q \<and>
    unread_of (dq_channel_id ?q) (rs_channels (ct_read st')) = dq_unread_count ?q + 1"
    using st' by (rule dm_mirror_counts_twice)
  with st' show ?thesis by (auto simp: sample_dm_def)
qed

end
