(* ===== verification/Mention_Alerts.thy ===== *)
theory Mention_Alerts
  imports Prelude
begin

text \<open>
  The mention alerts of \<open>features/channels/wsHandlers.ts\<close>. The server announces a mention twice: as a
  raised total (\<open>mention_count\<close>) and as an entry of \<open>channel_activity\<close>, in either order. A rise waits
  three seconds for its entry before it alerts by itself, and an entry that comes first leaves a
  credit. The lemmas show that rises and entries are matched one to one inside that window, and that a
  rise nothing matches alerts no later than the window's end.
\<close>

subsection \<open>State and operations\<close>

definition MENTION_ALERT_GRACE_MS :: int where "MENTION_ALERT_GRACE_MS = 3000"

record pending_mention_alert =
  pa_owed :: int
  pa_due :: int

record mention_alerts =
  al_pending :: "(int, pending_mention_alert) jmap"
  al_credits :: "(int, int list) jmap"

definition NO_ALERTS :: mention_alerts where
  "NO_ALERTS = \<lparr>al_pending = [], al_credits = []\<rparr>"

definition put_credits :: "int \<Rightarrow> int list \<Rightarrow> mention_alerts \<Rightarrow> mention_alerts" where
  "put_credits channelId ts a = (
     if length ts = 0 then a\<lparr>al_credits := jm_delete (al_credits a) channelId\<rparr>
     else a\<lparr>al_credits := jm_set (al_credits a) channelId ts\<rparr>)"

definition liveCredits :: "int \<Rightarrow> int \<Rightarrow> mention_alerts \<Rightarrow> int list \<times> mention_alerts" where
  "liveCredits channelId now a = (
     let live = filter (\<lambda>at. now - at < MENTION_ALERT_GRACE_MS) (nullish (jm_get (al_credits a) channelId) [])
     in (live, put_credits channelId live a))"

definition deferMentionAlert :: "int \<Rightarrow> int \<Rightarrow> int \<Rightarrow> mention_alerts \<Rightarrow> mention_alerts" where
  "deferMentionAlert channelId rises now a = (
     let (credits, a1) = liveCredits channelId now a;
         used = min (int (length credits)) rises;
         a2 = (if used > 0 then put_credits channelId (drop (nat used) credits) a1 else a1);
         owed = rises - used
     in if owed = 0 then a2
        else case jm_get (al_pending a2) channelId of
          Some pending \<Rightarrow> a2\<lparr>al_pending := jm_set (al_pending a2) channelId (pending\<lparr>pa_owed := pa_owed pending + owed\<rparr>)\<rparr>
        | None \<Rightarrow> a2\<lparr>al_pending := jm_set (al_pending a2) channelId \<lparr>pa_owed = owed, pa_due = now + MENTION_ALERT_GRACE_MS\<rparr>\<rparr>)"

definition lessen :: "int \<Rightarrow> int \<Rightarrow> pending_mention_alert \<Rightarrow> mention_alerts \<Rightarrow> mention_alerts" where
  "lessen channelId n pending a = (
     let owed = pa_owed pending - n
     in if owed \<le> 0 then a\<lparr>al_pending := jm_delete (al_pending a) channelId\<rparr>
        else a\<lparr>al_pending := jm_set (al_pending a) channelId (pending\<lparr>pa_owed := owed\<rparr>)\<rparr>)"

definition withdrawMentionAlert :: "int \<Rightarrow> int \<Rightarrow> mention_alerts \<Rightarrow> mention_alerts" where
  "withdrawMentionAlert channelId n a = (case jm_get (al_pending a) channelId of
     None \<Rightarrow> a | Some pending \<Rightarrow> lessen channelId n pending a)"

definition matchMentionEntry :: "int \<Rightarrow> int \<Rightarrow> mention_alerts \<Rightarrow> mention_alerts" where
  "matchMentionEntry channelId now a = (case jm_get (al_pending a) channelId of
     None \<Rightarrow> (let (live, a1) = liveCredits channelId now a in a1\<lparr>al_credits := jm_set (al_credits a1) channelId (live @ [now])\<rparr>)
   | Some pending \<Rightarrow> lessen channelId 1 pending a)"

text \<open>The timer's callback: the alert is given, and the second result says so.\<close>

definition alertFires :: "int \<Rightarrow> mention_alerts \<Rightarrow> mention_alerts \<times> bool" where
  "alertFires channelId a = (case jm_get (al_pending a) channelId of
     None \<Rightarrow> (a, False) | Some _ \<Rightarrow> (a\<lparr>al_pending := jm_delete (al_pending a) channelId\<rparr>, True))"

definition resetChannelActivity :: "mention_alerts \<Rightarrow> mention_alerts" where
  "resetChannelActivity a = a\<lparr>al_pending := [], al_credits := []\<rparr>"

subsection \<open>Rises and entries match one to one\<close>

datatype alert_event = Rise int int | Entry int

fun alert_channel :: "alert_event \<Rightarrow> int" where
  "alert_channel (Rise c n) = c"
| "alert_channel (Entry c) = c"

fun alert_weight :: "alert_event \<Rightarrow> int" where
  "alert_weight (Rise c n) = n"
| "alert_weight (Entry c) = - 1"

fun alert_event_ok :: "alert_event \<Rightarrow> bool" where
  "alert_event_ok (Rise c n) = (n > 0)"
| "alert_event_ok (Entry c) = True"

fun alert_apply :: "int \<times> alert_event \<Rightarrow> mention_alerts \<Rightarrow> mention_alerts" where
  "alert_apply (now, Rise c n) a = deferMentionAlert c n now a"
| "alert_apply (now, Entry c) a = matchMentionEntry c now a"

definition owed_of :: "int \<Rightarrow> mention_alerts \<Rightarrow> int" where
  "owed_of c a = (case jm_get (al_pending a) c of None \<Rightarrow> 0 | Some p \<Rightarrow> pa_owed p)"

definition credits_of :: "int \<Rightarrow> mention_alerts \<Rightarrow> int list" where
  "credits_of c a = nullish (jm_get (al_credits a) c) []"

text \<open>A channel owes alerts or holds credits, never both, and its credits date from the window.\<close>

definition ledger_ok :: "int \<Rightarrow> int \<Rightarrow> mention_alerts \<Rightarrow> bool" where
  "ledger_ok t0 c a \<longleftrightarrow> (\<forall>p. jm_get (al_pending a) c = Some p \<longrightarrow> 1 \<le> pa_owed p \<and> credits_of c a = []) \<and>
     (\<forall>t \<in> set (credits_of c a). t0 \<le> t)"

lemma put_credits_simps [simp]:
  "credits_of c (put_credits d ts a) = (if c = d then ts else credits_of c a)"
  "al_pending (put_credits d ts a) = al_pending a"
  by (auto simp: put_credits_def credits_of_def)

lemma live_all:
  assumes "ledger_ok t0 c a" and "now < t0 + MENTION_ALERT_GRACE_MS"
  shows "liveCredits c now a = (credits_of c a, put_credits c (credits_of c a) a)"
proof -
  have "filter (\<lambda>at. now - at < MENTION_ALERT_GRACE_MS) (credits_of c a) = credits_of c a"
    using assms by (auto simp: ledger_ok_def filter_id_conv)
  then show ?thesis by (simp add: liveCredits_def credits_of_def Let_def)
qed

lemma credits_pending_update [simp]: "credits_of c (a\<lparr>al_pending := m\<rparr>) = credits_of c a"
  by (simp add: credits_of_def)

lemma rise_other: "c \<noteq> d \<Longrightarrow> owed_of c (deferMentionAlert d n now a) = owed_of c a \<and>
    credits_of c (deferMentionAlert d n now a) = credits_of c a \<and>
    jm_get (al_pending (deferMentionAlert d n now a)) c = jm_get (al_pending a) c"
  by (simp add: deferMentionAlert_def liveCredits_def Let_def owed_of_def split: option.split)

lemma entry_other: "c \<noteq> d \<Longrightarrow> owed_of c (matchMentionEntry d now a) = owed_of c a \<and>
    credits_of c (matchMentionEntry d now a) = credits_of c a \<and>
    jm_get (al_pending (matchMentionEntry d now a)) c = jm_get (al_pending a) c"
  by (simp add: matchMentionEntry_def liveCredits_def lessen_def Let_def owed_of_def put_credits_def credits_of_def split: option.split)

lemma rise_self:
  assumes ok: "ledger_ok t0 c a" and "t0 \<le> now" "now < t0 + MENTION_ALERT_GRACE_MS" "0 < n"
  shows "ledger_ok t0 c (deferMentionAlert c n now a) \<and>
    owed_of c (deferMentionAlert c n now a) - int (length (credits_of c (deferMentionAlert c n now a))) =
      owed_of c a - int (length (credits_of c a)) + n"
proof (cases "jm_get (al_pending a) c")
  case None
  with ok assms(4) show ?thesis
    by (auto simp: deferMentionAlert_def live_all [OF ok assms(3)] Let_def ledger_ok_def owed_of_def min_def dest: in_set_dropD)
next
  case (Some p)
  with ok have "credits_of c a = []" "1 \<le> pa_owed p" by (simp_all add: ledger_ok_def)
  with Some assms(4) show ?thesis
    by (simp add: deferMentionAlert_def live_all [OF ok assms(3)] Let_def ledger_ok_def owed_of_def)
qed

lemma entry_self:
  assumes ok: "ledger_ok t0 c a" and "t0 \<le> now" "now < t0 + MENTION_ALERT_GRACE_MS"
  shows "ledger_ok t0 c (matchMentionEntry c now a) \<and>
    owed_of c (matchMentionEntry c now a) - int (length (credits_of c (matchMentionEntry c now a))) =
      owed_of c a - int (length (credits_of c a)) - 1"
proof (cases "jm_get (al_pending a) c")
  case None
  have "credits_of c (a\<lparr>al_credits := jm_set m c ts\<rparr>) = ts" for a m ts by (simp add: credits_of_def)
  with None ok assms(2) show ?thesis
    by (auto simp: matchMentionEntry_def live_all [OF ok assms(3)] Let_def ledger_ok_def owed_of_def)
next
  case (Some p)
  with ok have "credits_of c a = []" "1 \<le> pa_owed p" by (simp_all add: ledger_ok_def)
  with Some show ?thesis
    by (auto simp: matchMentionEntry_def lessen_def Let_def ledger_ok_def owed_of_def)
qed

lemma ledger_fold:
  "ledger_ok t0 c a \<Longrightarrow> \<forall>(now, e) \<in> set evs. t0 \<le> now \<and> now < t0 + MENTION_ALERT_GRACE_MS \<and> alert_event_ok e \<Longrightarrow>
     ledger_ok t0 c (fold alert_apply evs a) \<and>
     owed_of c (fold alert_apply evs a) - int (length (credits_of c (fold alert_apply evs a))) =
       owed_of c a - int (length (credits_of c a)) + sum_list (map (alert_weight \<circ> snd) (filter (\<lambda>(_, e). alert_channel e = c) evs))"
proof (induction evs arbitrary: a)
  case (Cons ev evs)
  obtain now e where ev: "ev = (now, e)" by (cases ev)
  have t: "t0 \<le> now" "now < t0 + MENTION_ALERT_GRACE_MS" "alert_event_ok e" using Cons.prems(2) ev by auto
  have step: "ledger_ok t0 c (alert_apply ev a) \<and>
    owed_of c (alert_apply ev a) - int (length (credits_of c (alert_apply ev a))) =
      owed_of c a - int (length (credits_of c a)) + (if alert_channel e = c then alert_weight e else 0)"
  proof (cases "alert_channel e = c")
    case True
    then show ?thesis using rise_self [OF Cons.prems(1) t(1,2)] entry_self [OF Cons.prems(1) t(1,2)] t(3) ev by (cases e) auto
  next
    case False
    then show ?thesis using rise_other [of c] entry_other [of c] Cons.prems(1) ev by (cases e) (auto simp: ledger_ok_def)
  qed
  from Cons.IH [of "alert_apply ev a"] step Cons.prems(2) ev show ?case by auto
qed simp

text \<open>A pending alert is never put off: its timer keeps the instant it was set for.\<close>

lemma alert_due_kept:
  assumes "jm_get (al_pending a) c = Some p" and "jm_get (al_pending (alert_apply ev a)) c = Some p'"
  shows "pa_due p' = pa_due p"
proof -
  obtain now e where ev: "ev = (now, e)" by (cases ev)
  show ?thesis using assms ev by (cases e) (auto simp: deferMentionAlert_def liveCredits_def matchMentionEntry_def
      lessen_def Let_def split: if_splits option.splits)
qed

text \<open>C24: Each mention entry answers one rise, whichever came first: over any sequence of rises and entries inside
  one grace window, of this channel and of others, an alert is pending for a channel exactly when its
  rises outnumber its entries, and what it owes is the difference.\<close>

theorem mention_alerts_match:
  assumes "jm_get (al_pending a) c = None" and "jm_get (al_credits a) c = None"
    and "\<forall>(now, e) \<in> set evs. t0 \<le> now \<and> now < t0 + MENTION_ALERT_GRACE_MS \<and> alert_event_ok e"
    and "net = sum_list (map (alert_weight \<circ> snd) (filter (\<lambda>(_, e). alert_channel e = c) evs))"
  shows "(if net > 0 then \<exists>p. jm_get (al_pending (fold alert_apply evs a)) c = Some p \<and> pa_owed p = net
    else jm_get (al_pending (fold alert_apply evs a)) c = None \<and> int (length (credits_of c (fold alert_apply evs a))) = - net)"
proof -
  let ?b = "fold alert_apply evs a"
  have "ledger_ok t0 c a" using assms(1,2) by (simp add: ledger_ok_def credits_of_def)
  from ledger_fold [OF this assms(3)] assms(1,2,4) have ok: "ledger_ok t0 c ?b" and
    balance: "owed_of c ?b - int (length (credits_of c ?b)) = net" by (simp_all add: owed_of_def credits_of_def)
  show ?thesis
  proof (cases "jm_get (al_pending ?b) c")
    case None
    with balance show ?thesis by (simp add: owed_of_def)
  next
    case (Some p)
    with ok balance show ?thesis by (auto simp: owed_of_def ledger_ok_def)
  qed
qed

theorem mention_alerts_match_witness:
  "\<exists>p. jm_get (al_pending (fold alert_apply [(0, Entry 1), (500, Rise 1 2), (600, Entry 2)] NO_ALERTS)) 1 = Some p \<and> pa_owed p = 1"
proof -
  have "\<forall>(now, e) \<in> set [(0, Entry 1), (500, Rise 1 2), (600, Entry 2)]. 0 \<le> now \<and> now < 0 + MENTION_ALERT_GRACE_MS \<and> alert_event_ok e"
    by (simp add: MENTION_ALERT_GRACE_MS_def)
  from mention_alerts_match [OF _ _ this refl, of NO_ALERTS 1] show ?thesis by (simp add: NO_ALERTS_def)
qed

end
