(* ===== verification/Channel_Handlers.thy ===== *)
theory Channel_Handlers
  imports Chat_Handlers Mention_Alerts
begin

text \<open>
  \<open>features/channels/wsHandlers.ts\<close>: the frames about channels, members, presence and read state, over the
  stores of \<open>Chat_Handlers\<close> together with the snapshots of the channels module, the pending mention
  alerts, the signed-in user and the game-activity switch. Emoji and stickers, whose stores are not
  modelled, are left out, as is the voice roster's copy of a name.

  The lemmas show that \<open>ready\<close> and a deleted channel leave a channel on screen that exists, what a
  \<open>read_state\<close> and a \<open>mention_count\<close> do, and that the two copies of a person's presence agree.
\<close>

subsection \<open>State\<close>

record channel_activity_entry =
  ca_channel_id :: int
  ca_message_id :: int
  ca_author_id :: "int option"
  ca_mentions_you :: bool
  ca_mentions_everyone :: bool

record thread_notify_context =
  tn_parentId :: int
  tn_name :: string
  tn_watching :: bool

datatype hub_effect =
    Notify_activity channel_activity_entry "thread_notify_context option"
  | Notify_mention int "thread_notify_context option"
  | Toast_info string

record hub =
  hb_chat :: chat_state
  hb_module :: channels_module
  hb_alerts :: mention_alerts
  hb_auth :: auth_state
  hb_gamePolicy :: "bool option"
  hb_out :: "hub_effect list"

record hub_env =
  he_chat :: chat_env
  he_viewOpen :: bool
  he_lastChannel :: "int option"
  he_hasReceivedReady :: bool

text \<open>The channels store is the one inside the chat state; the module's snapshots are beside it.\<close>

definition hub_channels :: "hub \<Rightarrow> channels_state" where
  "hub_channels h = rs_channels (ct_read (hb_chat h))"

definition hub_dms :: "hub \<Rightarrow> dm_state" where
  "hub_dms h = rs_dms (ct_read (hb_chat h))"

definition hub_members :: "hub \<Rightarrow> members_state" where
  "hub_members h = mb_state (ct_members (hb_chat h))"

definition with_read :: "(read_state \<Rightarrow> read_state) \<Rightarrow> hub \<Rightarrow> hub" where
  "with_read f h = h\<lparr>hb_chat := (hb_chat h)\<lparr>ct_read := f (ct_read (hb_chat h))\<rparr>\<rparr>"

definition with_channels :: "(channels_state \<Rightarrow> channels_state) \<Rightarrow> hub \<Rightarrow> hub" where
  "with_channels f h = with_read (\<lambda>rs. rs\<lparr>rs_channels := f (rs_channels rs)\<rparr>) h"

definition with_dms :: "(dm_state \<Rightarrow> dm_state) \<Rightarrow> hub \<Rightarrow> hub" where
  "with_dms f h = with_read (\<lambda>rs. rs\<lparr>rs_dms := f (rs_dms rs)\<rparr>) h"

definition with_members :: "(members_state \<Rightarrow> members_state) \<Rightarrow> hub \<Rightarrow> hub" where
  "with_members f h = h\<lparr>hb_chat := (hb_chat h)\<lparr>ct_members := (ct_members (hb_chat h))\<lparr>mb_state := f (hub_members h)\<rparr>\<rparr>\<rparr>"

definition with_module :: "(channels_module \<Rightarrow> channels_module) \<Rightarrow> hub \<Rightarrow> hub" where
  "with_module f h = (
     let md = f ((hb_module h)\<lparr>cs_state := hub_channels h\<rparr>)
     in with_channels (\<lambda>_. cs_state md) (h\<lparr>hb_module := md\<rparr>))"

definition hub_emit :: "hub_effect \<Rightarrow> hub \<Rightarrow> hub" where
  "hub_emit e h = h\<lparr>hb_out := hb_out h @ [e]\<rparr>"

definition hub_read_env :: "hub_env \<Rightarrow> hub \<Rightarrow> read_env" where
  "hub_read_env env h = read_env_of (he_chat env) (hb_chat h)"

definition hub_away :: "hub_env \<Rightarrow> hub \<Rightarrow> int \<Rightarrow> bool" where
  "hub_away env h c = isChannelAway (hub_read_env env h) (ct_read (hb_chat h)) c"

lemma hub_simps [simp]:
  "hub_channels (with_channels f h) = f (hub_channels h)" "hub_dms (with_channels f h) = hub_dms h"
  "hub_members (with_channels f h) = hub_members h" "hub_channels (with_dms g h) = hub_channels h"
  "hub_dms (with_dms g h) = g (hub_dms h)" "hub_members (with_dms g h) = hub_members h"
  "hub_channels (with_members k h) = hub_channels h" "hub_dms (with_members k h) = hub_dms h"
  "hub_members (with_members k h) = k (hub_members h)" "hub_channels (hub_emit e h) = hub_channels h"
  "hub_dms (hub_emit e h) = hub_dms h" "hub_members (hub_emit e h) = hub_members h"
  "hub_channels (with_module u h) = cs_state (u ((hb_module h)\<lparr>cs_state := hub_channels h\<rparr>))"
  "hub_dms (with_module u h) = hub_dms h" "hub_members (with_module u h) = hub_members h"
  by (simp_all add: hub_channels_def hub_dms_def hub_members_def with_channels_def with_dms_def with_members_def
      with_read_def hub_emit_def with_module_def Let_def)

subsection \<open>The snapshot of \<open>ready\<close>\<close>

text \<open>The parts of the payload these handlers read.\<close>

record ready_payload =
  rp_channels :: "ready_channel list"
  rp_categories :: "channel_category list option"
  rp_roles :: "ready_role list option"
  rp_members :: "ready_member list"
  rp_dm_channels :: "dm_channel_payload list option"

definition applyReadyChannels :: "ready_payload \<Rightarrow> hub \<Rightarrow> hub" where
  "applyReadyChannels payload h = (
     let h1 = with_module (\<lambda>md. setChannels md (rp_channels payload)) h;
         h2 = with_channels (\<lambda>s. setCategories s (nullish (rp_categories payload) [])) h1;
         h3 = with_channels (\<lambda>s. setRoles s (nullish (rp_roles payload) [])) h2
     in h3\<lparr>hb_chat := (hb_chat h3)\<lparr>ct_members := setMembers (rp_members payload) (ct_members (hb_chat h3))\<rparr>\<rparr>)"

definition applyReadyActiveChannel :: "hub_env \<Rightarrow> ready_payload \<Rightarrow> hub \<Rightarrow> hub \<times> int option" where
  "applyReadyActiveChannel env payload h = (
     let currentActive = activeChannelId (hub_channels h)
     in case currentActive of
          None \<Rightarrow>
            if \<not> he_viewOpen env \<and> length (rp_channels payload) > 0 then
              (let remembered = he_lastChannel env;
                   visible = (case remembered of None \<Rightarrow> False | Some i \<Rightarrow> list_ex (\<lambda>ch. rc_id ch = i) (rp_channels payload))
               in if visible then (with_module (\<lambda>md. setActiveChannel md remembered False) h, None)
                  else (case firstTextInSidebarOrder (readyChannelMap (rp_channels payload)) of
                          None \<Rightarrow> (h, None)
                        | Some firstText \<Rightarrow> (with_module (\<lambda>md. setActiveChannel md (Some (ch_id firstText)) False) h, None)))
            else (h, None)
        | Some current \<Rightarrow>
            if list_ex (\<lambda>ch. rc_id ch = current) (rp_channels payload) \<or>
               list_ex (\<lambda>dm. dq_channel_id dm = current) (nullish (rp_dm_channels payload) [])
            then (h, Some current)
            else (with_module (\<lambda>md. setActiveChannel md None True) h, None))"

definition markReadyActiveChannelRead :: "hub_env \<Rightarrow> int option \<Rightarrow> hub \<Rightarrow> hub" where
  "markReadyActiveChannelRead env currentActive h = (case currentActive of
     None \<Rightarrow> h
   | Some c \<Rightarrow>
       if map_option ch_type (jm_get (cs_channels (hub_channels h)) c) = Some ForumChannel then h
       else if hub_away env h c then h
       else with_read (if re_readPointer (hub_read_env env h) then markChannelReadSeen (hub_read_env env h) c
                       else markChannelRead (hub_read_env env h) c) h)"

subsection \<open>Read state\<close>

record read_state_payload =
  rq_channel_id :: int
  rq_last_read_message_id :: int
  rq_unread_count :: int
  rq_mention_count :: int

definition with_threads :: "(threads_loader \<Rightarrow> threads_loader) \<Rightarrow> hub \<Rightarrow> hub" where
  "with_threads f h = h\<lparr>hb_chat := (hb_chat h)\<lparr>ct_threads := f (ct_threads (hb_chat h))\<rparr>\<rparr>"

text \<open>A thread's pointer is restated by the threads store where it applies the frame; while the store is
  still loading the frame waits in its queue.\<close>

definition threadReadState :: "hub_env \<Rightarrow> read_state_payload \<Rightarrow> hub \<Rightarrow> hub" where
  "threadReadState env payload h = (
     let l = ct_threads (hb_chat h);
         act = Followed_read_state (rq_channel_id payload) (rq_last_read_message_id payload) (rq_unread_count payload) (rq_mention_count payload)
     in if \<not> threadsStoreInUse l then h
        else let h1 = with_threads (withThreadsStore (cx_parse (he_chat env)) act) h
          in if tl_loaded l
             then with_read (fold (\<lambda>(i, p). setThreadReadPointer i p) (snd (applyFollowedReadState (rq_channel_id payload)
               (rq_last_read_message_id payload) (rq_unread_count payload) (rq_mention_count payload) (tm_state (tl_module l))))) h1
             else h1)"

definition handleReadState :: "hub_env \<Rightarrow> read_state_payload \<Rightarrow> hub \<Rightarrow> hub" where
  "handleReadState env payload h = (
     let c = rq_channel_id payload
     in if \<not> he_hasReceivedReady env then h
        else if jm_get (cs_channels (hub_channels h)) c = None \<and> \<not> list_ex (\<lambda>d. dm_channelId d = c) (ds_channels (hub_dms h))
        then threadReadState env payload h
        else case acceptReadState c (rq_last_read_message_id payload) (ct_read (hb_chat h)) of
          (rs, False) \<Rightarrow> with_read (\<lambda>_. rs) h
        | (rs, True) \<Rightarrow>
            (let watching = (activeChannelId (rs_channels rs) = Some c \<and> \<not> isChannelAway (hub_read_env env h) rs c \<and> \<not> isHeldUnread rs c)
             in with_read (\<lambda>_. writeReadPointer (hub_read_env env h) c (rq_last_read_message_id payload)
                  (Some (if watching then (0, 0) else (rq_unread_count payload, rq_mention_count payload))) False rs) h))"

definition handleMarkUnreadError :: "hub_env \<Rightarrow> string \<Rightarrow> string option \<Rightarrow> hub \<Rightarrow> hub \<times> bool" where
  "handleMarkUnreadError env code i h = (
     let notice = (if code = ''RATE_LIMITED'' then RateLimited else if code = ''NOT_FOUND'' then NotFound else MarkFailed);
         (rs, handled) = failMarkUnread (hub_read_env env h) i notice (ct_read (hb_chat h))
     in (with_read (\<lambda>_. rs) h, handled))"

subsection \<open>Mention totals and activity hints\<close>

definition threadNotifyContext :: "hub \<Rightarrow> int \<Rightarrow> thread_notify_context option" where
  "threadNotifyContext h i = (
     let l = ct_threads (hb_chat h); ts = tm_state (tl_module l)
     in if \<not> tl_loaded l then None
        else map_option (\<lambda>t. \<lparr>tn_parentId = th_parent_id t, tn_name = th_name t, tn_watching = (ts_focusedThreadId ts = Some i)\<rparr>) (getThread ts i))"

definition noteTotal :: "hub_env \<Rightarrow> int \<Rightarrow> int \<Rightarrow> int \<Rightarrow> hub \<Rightarrow> hub" where
  "noteTotal env c previous n h = (
     if n > previous then h\<lparr>hb_alerts := deferMentionAlert c (n - previous) (cx_now (he_chat env)) (hb_alerts h)\<rparr>
     else if n < previous then h\<lparr>hb_alerts := withdrawMentionAlert c (previous - n) (hb_alerts h)\<rparr>
     else h)"

text \<open>The callback of a thread's total runs at once when the threads store is loaded; while it loads, the
  store's part waits in the queue.\<close>

definition handleThreadMentionCount :: "hub_env \<Rightarrow> int \<Rightarrow> int \<Rightarrow> hub \<Rightarrow> hub" where
  "handleThreadMentionCount env c n h = (
     let l = ct_threads (hb_chat h);
         h1 = with_threads (withThreadsStore (cx_parse (he_chat env)) (Set_mentions c n)) h
     in if \<not> tl_loaded l then h1
        else case snd (setFollowedMentions c n (tm_state (tl_module l))) of
          None \<Rightarrow> h1 | Some previous \<Rightarrow> noteTotal env c previous n h1)"

definition handleMentionCount :: "hub_env \<Rightarrow> int \<Rightarrow> int \<Rightarrow> hub \<Rightarrow> hub" where
  "handleMentionCount env c n h = (case jm_get (cs_channels (hub_channels h)) c of
     None \<Rightarrow> if threadsStoreInUse (ct_threads (hb_chat h)) then handleThreadMentionCount env c n h else h
   | Some ch \<Rightarrow>
       if ch_type ch = DmChannel then h
       else if activeChannelId (hub_channels h) = Some c then
         (if \<not> hub_away env h c then h else with_channels (\<lambda>s. setMentionCount s c (min (ch_mentionCount ch) n)) h)
       else noteTotal env c (ch_mentionCount ch) n (with_channels (\<lambda>s. setMentionCount s c n) h))"

definition alertTimerFires :: "int \<Rightarrow> hub \<Rightarrow> hub" where
  "alertTimerFires c h = (case alertFires c (hb_alerts h) of
     (a, False) \<Rightarrow> h | (a, True) \<Rightarrow> hub_emit (Notify_mention c (threadNotifyContext h c)) (h\<lparr>hb_alerts := a\<rparr>))"

definition newestLoadedId :: "messages_state \<Rightarrow> int \<Rightarrow> int" where
  "newestLoadedId s channelId = (case List.find (\<lambda>m. msg_id m > 0) (rev (getChannelMessages s channelId)) of
     None \<Rightarrow> 0 | Some m \<Rightarrow> msg_id m)"

definition noteEntry :: "hub_env \<Rightarrow> channel_activity_entry \<Rightarrow> hub \<Rightarrow> hub" where
  "noteEntry env e h = (
     if ca_mentions_you e \<or> ca_mentions_everyone e
     then h\<lparr>hb_alerts := matchMentionEntry (ca_channel_id e) (cx_now (he_chat env)) (hb_alerts h)\<rparr> else h)"

definition handleThreadActivity :: "hub_env \<Rightarrow> channel_activity_entry \<Rightarrow> hub \<Rightarrow> hub" where
  "handleThreadActivity env e h = (
     let l = ct_threads (hb_chat h);
         h1 = with_threads (withThreadsStore (cx_parse (he_chat env)) (Note_activity (ca_channel_id e) (ca_message_id e))) h
     in if tl_loaded l \<and> snd (noteFollowedActivity (ca_channel_id e) (ca_message_id e) (tm_state (tl_module l)))
        then let h2 = noteEntry env e h1
          in hub_emit (Notify_activity e (threadNotifyContext h2 (ca_channel_id e))) h2
        else h1)"

definition activityStep :: "hub_env \<Rightarrow> int option \<Rightarrow> channel_activity_entry \<Rightarrow> hub \<Rightarrow> hub" where
  "activityStep env activeId e h = (
     if activeId = Some (ca_channel_id e) then h
     else case jm_get (cs_channels (hub_channels h)) (ca_channel_id e) of
       None \<Rightarrow> if threadsStoreInUse (ct_threads (hb_chat h)) then handleThreadActivity env e h else h
     | Some ch \<Rightarrow>
         if ch_type ch = DmChannel then h
         else if (case ch_lastMessageId ch of None \<Rightarrow> False | Some l \<Rightarrow> ca_message_id e \<le> l) then h
         else if ca_message_id e \<le> newestLoadedId (ct_messages (hb_chat h)) (ca_channel_id e) then h
         else hub_emit (Notify_activity e None) (noteEntry env e
           (with_channels (\<lambda>s. noteChannelMessage s (ca_channel_id e) (ca_message_id e) False False) h)))"

definition handleChannelActivity :: "hub_env \<Rightarrow> channel_activity_entry list \<Rightarrow> hub \<Rightarrow> hub" where
  "handleChannelActivity env entries h = fold (activityStep env (activeChannelId (hub_channels h))) entries h"


subsection \<open>Presence\<close>

fun status_text :: "user_status \<Rightarrow> string" where
  "status_text Online = ''online''"
| "status_text Idle = ''idle''"
| "status_text Dnd = ''dnd''"
| "status_text Invisible = ''invisible''"
| "status_text Offline = ''offline''"

definition EMPTY_PATCH :: dm_user_patch where
  "EMPTY_PATCH = \<lparr>dv_username = None, dv_avatar = None, dv_status = None, dv_mobile = None, dv_displayName = None,
     dv_activity = None, dv_listening = None\<rparr>"

definition dmPartners :: "dm_state \<Rightarrow> int jset" where
  "dmPartners s = js_of_list (concat (map (\<lambda>c. du_id (dm_recipient c) # map du_id (dm_participants c)) (ds_channels s)))"

definition gameActivityPolicyIsOff :: "hub \<Rightarrow> bool" where
  "gameActivityPolicyIsOff h \<longleftrightarrow> hb_gamePolicy h = Some False"

definition applyGameActivityList :: "(int \<times> game_activity) list \<Rightarrow> (int \<times> listening_activity) list \<Rightarrow> hub \<Rightarrow> hub" where
  "applyGameActivityList games songs h = (
     let h1 = with_members (applyReadyListening songs) (with_members (applyReadyActivities games) h);
         byUser = jm_of_list (map (\<lambda>(i, a). (i, toMemberActivity (Some a))) games);
         songByUser = jm_of_list (map (\<lambda>(i, l). (i, toMemberListening (Some l))) songs)
     in with_dms (\<lambda>ds. fold (\<lambda>i d. updateDmParticipant i (EMPTY_PATCH\<lparr>dv_activity := Some (Option.bind (jm_get byUser i) id),
          dv_listening := Some (Option.bind (jm_get songByUser i) id)\<rparr>) d) (dmPartners ds) ds) h1)"

definition applyGameActivityPolicy :: "bool \<Rightarrow> hub \<Rightarrow> hub \<times> bool" where
  "applyGameActivityPolicy enabled h = (if hb_gamePolicy h = Some enabled then (h, False) else (h\<lparr>hb_gamePolicy := Some enabled\<rparr>, True))"

definition handleGameActivityPolicy :: "bool \<Rightarrow> hub \<Rightarrow> hub" where
  "handleGameActivityPolicy enabled h = (
     let (h1, changed) = applyGameActivityPolicy enabled h
     in if changed \<and> \<not> enabled then applyGameActivityList [] [] h1 else h1)"

record presence_payload =
  pp_user_id :: int
  pp_status :: user_status
  pp_custom_status :: "string option option"
  pp_activity :: "game_activity option option"
  pp_listening :: "listening_activity option option"
  pp_mobile :: "bool option"

definition handlePresence :: "presence_payload \<Rightarrow> hub \<Rightarrow> hub" where
  "handlePresence payload h = (
     let off = gameActivityPolicyIsOff h;
         activity = (if off then Some None else pp_activity payload);
         listening = (if off then Some None else pp_listening payload);
         h1 = with_members (updatePresence (pp_user_id payload) \<lparr>pu_status = pp_status payload, pu_customStatus = pp_custom_status payload,
                pu_customStatusExpiresAt = None, pu_activity = activity, pu_listening = listening,
                pu_mobile = Some (pp_mobile payload = Some True)\<rparr>) h
     in with_dms (updateDmParticipant (pp_user_id payload) (EMPTY_PATCH\<lparr>dv_status := Some (status_text (pp_status payload)),
          dv_mobile := Some (pp_mobile payload = Some True), dv_activity := map_option toMemberActivity activity,
          dv_listening := map_option toMemberListening listening\<rparr>)) h1)"

text \<open>The patch for one partner; \<open>None\<close> is the partner the batch says nothing about.\<close>

definition batchPatch :: "presence_entry list \<Rightarrow> bool \<Rightarrow> int \<Rightarrow> dm_user_patch option" where
  "batchPatch updates full i = (
     let statuses = jm_of_list (map (\<lambda>u. (pe_user_id u, pe_status u)) updates);
         activities = jm_of_list (map (\<lambda>u. (pe_user_id u, pe_activity u)) updates);
         songs = jm_of_list (map (\<lambda>u. (pe_user_id u, pe_listening u)) updates);
         phones = js_of_list (map pe_user_id (filter (\<lambda>u. pe_mobile u = Some True) updates));
         status = alt (jm_get statuses i) (if full then Some Offline else None)
     in map_option (\<lambda>st.
          let patch = EMPTY_PATCH\<lparr>dv_status := Some (status_text st), dv_mobile := Some (js_has phones i)\<rparr>
          in if \<not> jm_has statuses i then patch\<lparr>dv_activity := Some None, dv_listening := Some None\<rparr>
             else patch\<lparr>dv_activity := map_option toMemberActivity (Option.bind (jm_get activities i) id),
                        dv_listening := map_option toMemberListening (Option.bind (jm_get songs i) id)\<rparr>) status)"

definition patchPartner :: "presence_entry list \<Rightarrow> bool \<Rightarrow> int \<Rightarrow> dm_state \<Rightarrow> dm_state" where
  "patchPartner updates full i ds = (case batchPatch updates full i of None \<Rightarrow> ds | Some patch \<Rightarrow> updateDmParticipant i patch ds)"

definition handlePresenceBatch :: "presence_entry list \<Rightarrow> bool option \<Rightarrow> hub \<Rightarrow> hub" where
  "handlePresenceBatch entries full' h = (
     let full = (full' = Some True);
         updates = (if gameActivityPolicyIsOff h then map (\<lambda>u. u\<lparr>pe_activity := Some None, pe_listening := Some None\<rparr>) entries else entries)
     in with_dms (\<lambda>ds. fold (patchPartner updates full) (dmPartners ds) ds) (with_members (applyPresenceBatch updates full) h))"

subsection \<open>Channels and members\<close>

definition handleChannelCreate :: "channel_create \<Rightarrow> hub \<Rightarrow> hub" where
  "handleChannelCreate payload h = with_channels (\<lambda>s. addChannel s payload) h"

definition handleChannelUpdate :: "channel_update \<Rightarrow> hub \<Rightarrow> hub" where
  "handleChannelUpdate payload h = with_channels (\<lambda>s. updateChannel s payload) h"

definition handleChannelCategories :: "channel_category list \<Rightarrow> hub \<Rightarrow> hub" where
  "handleChannelCategories categories h = with_channels (\<lambda>s. setCategories s categories) h"

definition handleNsfwAck :: "int \<Rightarrow> bool \<Rightarrow> hub \<Rightarrow> hub" where
  "handleNsfwAck channel_id acknowledged h = with_channels (\<lambda>s. setNsfwAcknowledged s channel_id acknowledged) h"

definition handleChannelDelete :: "int \<Rightarrow> hub \<Rightarrow> hub" where
  "handleChannelDelete i h = (
     let activeId = activeChannelId (hub_channels h);
         h1 = with_channels (\<lambda>s. removeChannel s i) h
     in if activeId = Some i
        then let firstText = firstTextInSidebarOrder (cs_channels (hub_channels h1))
          in hub_emit (Toast_info ''app.channelDeleted'') (with_module (\<lambda>md. setActiveChannel md (map_option ch_id firstText) True) h1)
        else h1)"

definition handleMemberJoin :: "member_join \<Rightarrow> hub \<Rightarrow> hub" where
  "handleMemberJoin payload h = with_members (addMember payload) h"

definition handleMemberBan :: "int \<Rightarrow> hub \<Rightarrow> hub" where
  "handleMemberBan user_id h = with_members (removeMember user_id) h"

text \<open>\<open>findLast\<close>: the last entry about the signed-in user.\<close>

definition applyMemberUpdates :: "member_role_update list \<Rightarrow> hub \<Rightarrow> hub" where
  "applyMemberUpdates entries h = (
     let h1 = with_members (updateMemberRoles entries) h
     in case au_user (hb_auth h1) of
          None \<Rightarrow> h1
        | Some me \<Rightarrow> (case List.find (\<lambda>e. mu_userId e = u_id me) (rev entries) of
            None \<Rightarrow> h1
          | Some e \<Rightarrow> h1\<lparr>hb_auth := (hb_auth h1)\<lparr>au_user := Some (me\<lparr>uw_role := mu_role e, uw_role_ids := mu_roleIds e\<rparr>)\<rparr>\<rparr>))"

definition handleMemberUpdate :: "member_role_update \<Rightarrow> hub \<Rightarrow> hub" where
  "handleMemberUpdate payload h = applyMemberUpdates [payload] h"

definition handleMemberUpdateBatch :: "member_role_update list option \<Rightarrow> hub \<Rightarrow> hub" where
  "handleMemberUpdateBatch members h = applyMemberUpdates (nullish members []) h"

definition handleRolesUpdate :: "ready_role list option \<Rightarrow> hub \<Rightarrow> hub" where
  "handleRolesUpdate roles h = with_channels (\<lambda>s. setRoles s (nullish roles [])) h"

record user_update_payload =
  uu_user_id :: int
  uu_username :: string
  uu_avatar :: "string option"
  uu_display_name :: "string option option"
  uu_about :: "string option option"
  uu_banner :: "string option option"
  uu_banner_color :: "string option option"
  uu_identity_public_key :: "string option option"

definition ownProfile :: "user_update_payload \<Rightarrow> user_with_role \<Rightarrow> user_with_role" where
  "ownProfile p me = me\<lparr>u_username := uu_username p, u_avatar := uu_avatar p,
     u_display_name := nullish (uu_display_name p) (u_display_name me), uw_about := alt (uu_about p) (uw_about me),
     uw_banner := alt (uu_banner p) (uw_banner me), uw_banner_color := alt (uu_banner_color p) (uw_banner_color me)\<rparr>"

definition handleUserUpdate :: "user_update_payload \<Rightarrow> hub \<Rightarrow> hub" where
  "handleUserUpdate p h = (
     let h1 = with_members (updateMemberProfile (uu_user_id p) \<lparr>mp_username = uu_username p, mp_avatar = uu_avatar p,
                mp_displayName = uu_display_name p, mp_identityPublicKey = uu_identity_public_key p, mp_about = uu_about p,
                mp_banner = uu_banner p, mp_banner_color = uu_banner_color p\<rparr>) h;
         h2 = with_dms (updateDmParticipant (uu_user_id p) (EMPTY_PATCH\<lparr>dv_username := Some (uu_username p),
                dv_avatar := Some (nullish (uu_avatar p) []), dv_displayName := map_option (\<lambda>d. nullish d []) (uu_display_name p)\<rparr>)) h1;
         au = hb_auth h2
     in case au_user au of
          None \<Rightarrow> h2
        | Some me \<Rightarrow>
            if uu_user_id p = u_id me
            then h2\<lparr>hb_auth := setAuth (nullish (au_token au) []) (ownProfile p me) (nullish (au_serverName au) []) (nullish (au_motd au) []) None au\<rparr>
            else h2)"


subsection \<open>The channel on screen\<close>

lemma readyChannelMap_ids: "ch \<in> set (jm_values (readyChannelMap channels)) \<Longrightarrow> ch_id ch \<in> rc_id ` set channels"
proof -
  assume "ch \<in> set (jm_values (readyChannelMap channels))"
  then obtain i where "jm_get (readyChannelMap channels) i = Some ch" by (auto simp: readyChannelMap_def jm_values_iff)
  then show ?thesis by (auto simp: readyChannelMap_def readyChannel_def dest!: jm_get_of_listD)
qed

text \<open>After \<open>ready\<close> the channel on screen is one the server listed: the one that was open, the one the reader
  left, or the first in the sidebar; and the channel handed on to be marked read is the one that was open
  and still is.\<close>

theorem ready_active_listed:
  assumes "(h', marked) = applyReadyActiveChannel env payload h"
  shows "(case activeChannelId (hub_channels h') of
      None \<Rightarrow> True
    | Some i \<Rightarrow> i \<in> rc_id ` set (rp_channels payload) \<or> i \<in> dq_channel_id ` set (nullish (rp_dm_channels payload) [])) \<and>
    (marked \<noteq> None \<longrightarrow> marked = activeChannelId (hub_channels h') \<and> marked = activeChannelId (hub_channels h))"
proof -
  have first: "ch_id ch \<in> rc_id ` set (rp_channels payload)"
    if "firstTextInSidebarOrder (readyChannelMap (rp_channels payload)) = Some ch" for ch
    using readyChannelMap_ids [OF firstText_mem [OF that]] .
  show ?thesis
  proof (cases "activeChannelId (hub_channels h)")
    case None
    with assms first show ?thesis
      by (auto simp: applyReadyActiveChannel_def Let_def active_set list_ex_iff split: if_splits option.splits)
  next
    case (Some current)
    with assms show ?thesis
      by (auto simp: applyReadyActiveChannel_def Let_def active_set list_ex_iff split: if_splits)
  qed
qed

definition sample_hub :: hub where
  "sample_hub = \<lparr>hb_chat = sample_chat, hb_module = channels_init, hb_alerts = NO_ALERTS, hb_auth = AUTH_INITIAL_STATE,
     hb_gamePolicy = None, hb_out = []\<rparr>"

definition sample_hub_env :: hub_env where
  "sample_hub_env = \<lparr>he_chat = sample_chat_env, he_viewOpen = False, he_lastChannel = Some 4, he_hasReceivedReady = True\<rparr>"

definition sample_ready_payload :: ready_payload where
  "sample_ready_payload = \<lparr>rp_channels = [sample_ready 4 TextChannel], rp_categories = None, rp_roles = None, rp_members = [],
     rp_dm_channels = None\<rparr>"

theorem ready_active_listed_witness:
  "\<exists>h' marked. (h', marked) = applyReadyActiveChannel sample_hub_env sample_ready_payload sample_hub \<and>
     activeChannelId (hub_channels h') = Some 4 \<and> 4 \<in> rc_id ` set (rp_channels sample_ready_payload)"
proof -
  obtain h' marked where h': "(h', marked) = applyReadyActiveChannel sample_hub_env sample_ready_payload sample_hub" by (metis prod.exhaust)
  have "activeChannelId (hub_channels sample_hub) = None"
    by (simp add: hub_channels_def sample_hub_def sample_chat_def sample_read_def CHANNELS_INITIAL_STATE_def)
  with h' have "activeChannelId (hub_channels h') = Some 4"
    by (simp add: applyReadyActiveChannel_def Let_def sample_hub_env_def sample_ready_payload_def sample_ready_def active_set)
  with ready_active_listed [OF h'] h' show ?thesis by (auto simp: sample_ready_payload_def)
qed

text \<open>A deleted channel is gone and off the screen: when it was the one on screen, another channel that
  exists takes its place, or none.\<close>

theorem channel_delete_lands:
  assumes "chans_ok (cs_channels (hub_channels h))" and "h' = handleChannelDelete i h"
  shows "jm_get (cs_channels (hub_channels h')) i = None \<and> activeChannelId (hub_channels h') \<noteq> Some i \<and>
    (activeChannelId (hub_channels h) = Some i \<longrightarrow>
      (\<forall>j. activeChannelId (hub_channels h') = Some j \<longrightarrow> jm_get (cs_channels (hub_channels h')) j \<noteq> None))"
proof (cases "activeChannelId (hub_channels h) = Some i")
  case False
  with assms(2) show ?thesis by (simp add: handleChannelDelete_def Let_def removeChannel_def)
next
  case True
  let ?st = "removeChannel (hub_channels h) i"
  have "jm_get (cs_channels ?st) i = None" by (simp add: removeChannel_def)
  with True assms(2) firstText_removed [OF assms(1), of i] show ?thesis
    by (cases "firstTextInSidebarOrder (cs_channels ?st)") (auto simp: handleChannelDelete_def Let_def active_set)
qed

theorem channel_delete_lands_witness:
  "jm_get (cs_channels (hub_channels (handleChannelDelete 1 (with_channels (\<lambda>_. sample_channels) sample_hub)))) 1 = None"
proof -
  have "chans_ok (cs_channels (hub_channels (with_channels (\<lambda>_. sample_channels) sample_hub)))"
    by (simp add: chans_ok_def jm_wf_def channel_ok_def sample_channel_def readyChannel_def sample_ready_def)
  from channel_delete_lands [OF this refl] show ?thesis by blast
qed


subsection \<open>Read state\<close>

lemma with_read_same: "with_read (\<lambda>_. ct_read (hb_chat h)) h = h"
  by (simp add: with_read_def)

lemma dm_find_pointer_counts:
  "dm_find (setDmReadPointer c (Some p) (Some (u, m)) s) c =
     map_option (\<lambda>d. d\<lparr>dm_lastReadMessageId := Some p, dm_unreadCount := u, dm_mentionCount := m\<rparr>) (dm_find s c)"
proof (cases "list_ex (\<lambda>x. dm_channelId x = c) (ds_channels s)")
  case True
  then show ?thesis by (cases s) (simp add: setDmReadPointer_def dm_find_map_dm Let_def)
next
  case False
  then have "dm_find s c = None" by (auto simp: dm_find_None list_ex_iff)
  with False show ?thesis by (simp add: setDmReadPointer_def)
qed

lemma writeReadPointer_counts:
  "jm_get (cs_channels (rs_channels (writeReadPointer env c p (Some (u, m)) False s))) c =
     map_option (\<lambda>e. e\<lparr>ch_lastReadMessageId := Some p, ch_unreadCount := u, ch_mentionCount := m\<rparr>) (jm_get (cs_channels (rs_channels s)) c)"
  "dm_find (rs_dms (writeReadPointer env c p (Some (u, m)) False s)) c =
     map_option (\<lambda>d. d\<lparr>dm_lastReadMessageId := Some p, dm_unreadCount := u, dm_mentionCount := m\<rparr>) (dm_find (rs_dms s) c)"
  by (auto simp: writeReadPointer_def Let_def setThreadReadPointer_def setReadPointer_def jm_get_with_channel dm_find_pointer_counts
      intro!: option.map_cong)

text \<open>A \<open>read_state\<close> of a channel or conversation is the whole truth about it or nothing: while a Mark Unread
  whose message it has already passed waits for its answer, the frame changes nothing; otherwise both
  rows take its pointer and its counts, or zero counts when the reader watches the channel and did not
  just mark it unread.\<close>

theorem read_state_all_or_nothing:
  assumes "he_hasReceivedReady env" and "c = rq_channel_id q" and "rs = ct_read (hb_chat h)"
    and "jm_get (cs_channels (hub_channels h)) c \<noteq> None \<or> dm_find (hub_dms h) c \<noteq> None"
    and "watching = (activeChannelId (hub_channels h) = Some c \<and> \<not> hub_away env h c \<and> \<not> isHeldUnread rs c)"
    and "u = (if watching then 0 else rq_unread_count q)" and "n = (if watching then 0 else rq_mention_count q)"
  shows "if list_ex (\<lambda>(_, p). pm_channelId p = c \<and> pm_messageId p \<le> rq_last_read_message_id q) (rs_pendingMarkUnread rs)
    then handleReadState env q h = h
    else jm_get (cs_channels (hub_channels (handleReadState env q h))) c = map_option (\<lambda>e. e\<lparr>ch_lastReadMessageId := Some (rq_last_read_message_id q),
        ch_unreadCount := u, ch_mentionCount := n\<rparr>) (jm_get (cs_channels (hub_channels h)) c) \<and>
      dm_find (hub_dms (handleReadState env q h)) c = map_option (\<lambda>d. d\<lparr>dm_lastReadMessageId := Some (rq_last_read_message_id q),
        dm_unreadCount := u, dm_mentionCount := n\<rparr>) (dm_find (hub_dms h) c)"
proof -
  have known: "\<not> (jm_get (cs_channels (hub_channels h)) c = None \<and> \<not> list_ex (\<lambda>d. dm_channelId d = c) (ds_channels (hub_dms h)))"
    using assms(4) dm_find_None [of "hub_dms h" c] by (auto simp: list_ex_iff)
  let ?stale = "list_ex (\<lambda>(_, p). pm_channelId p = c \<and> pm_messageId p \<le> rq_last_read_message_id q) (rs_pendingMarkUnread rs)"
  have stale: "list_ex (\<lambda>(_, p). pm_messageId p \<le> rq_last_read_message_id q)
      (filter (\<lambda>(_, p). pm_channelId p = c) (rs_pendingMarkUnread rs)) \<longleftrightarrow> ?stale" by (auto simp: list_ex_iff)
  show ?thesis
  proof (cases ?stale)
    case True
    then have "acceptReadState c (rq_last_read_message_id q) rs = (rs, False)" using stale by (simp add: acceptReadState_def Let_def)
    with True known assms(1-3) show ?thesis by (auto simp: handleReadState_def Let_def with_read_same)
  next
    case False
    define rs' where "rs' = fst (acceptReadState c (rq_last_read_message_id q) rs)"
    have acc: "acceptReadState c (rq_last_read_message_id q) rs = (rs', True)"
      using False stale by (simp add: acceptReadState_def Let_def rs'_def)
    have rs': "rs_channels rs' = hub_channels h" "rs_dms rs' = hub_dms h" "isHeldUnread rs' c = isHeldUnread rs c"
      "isChannelAway e rs' c = isChannelAway e rs c" for e
      using assms(3) by (auto simp: rs'_def acceptReadState_def Let_def hub_channels_def hub_dms_def isHeldUnread_def isChannelAway_def)
    have watch: "watching = (activeChannelId (rs_channels rs') = Some c \<and> \<not> isChannelAway (hub_read_env env h) rs' c \<and> \<not> isHeldUnread rs' c)"
      using assms(3,5) by (simp add: rs' hub_away_def)
    have "handleReadState env q h = with_read (\<lambda>_. writeReadPointer (hub_read_env env h) c (rq_last_read_message_id q) (Some (u, n)) False rs') h"
      unfolding assms(6,7) watch using known assms(1-3) acc by (auto simp: handleReadState_def Let_def)
    with False show ?thesis
      using rs'(1,2) by (simp add: hub_channels_def hub_dms_def with_read_def writeReadPointer_counts)
  qed
qed


theorem read_state_all_or_nothing_witness:
  "\<exists>d. dm_find (hub_dms (handleReadState sample_hub_env
      \<lparr>rq_channel_id = 1, rq_last_read_message_id = 9, rq_unread_count = 1, rq_mention_count = 0\<rparr> sample_hub)) 1 = Some d \<and>
     dm_lastReadMessageId d = Some 9 \<and> dm_unreadCount d = 1"
proof -
  let ?q = "\<lparr>rq_channel_id = 1, rq_last_read_message_id = 9, rq_unread_count = 1, rq_mention_count = 0\<rparr>"
  have ready: "he_hasReceivedReady sample_hub_env" by (simp add: sample_hub_env_def)
  have chan: "1 = rq_channel_id ?q" by simp
  have dm: "dm_find (hub_dms sample_hub) 1 \<noteq> None"
    by (simp add: hub_dms_def sample_hub_def sample_chat_def sample_read_def)
  then have known: "jm_get (cs_channels (hub_channels sample_hub)) 1 \<noteq> None \<or> dm_find (hub_dms sample_hub) 1 \<noteq> None" ..
  have quiet: "activeChannelId (hub_channels sample_hub) = None" "rs_pendingMarkUnread (ct_read (hb_chat sample_hub)) = []"
    by (simp_all add: hub_channels_def sample_hub_def sample_chat_def sample_read_def CHANNELS_INITIAL_STATE_def)
  from read_state_all_or_nothing [OF ready chan refl known refl refl refl] dm quiet show ?thesis by auto
qed

end
