(* ===== verification/Presence_Copies.thy ===== *)
theory Presence_Copies
  imports Channel_Handlers
begin

text \<open>
  The presence of a person is kept twice: in the roster of \<open>stores/members.store.ts\<close> and, for the people of
  a conversation, in \<open>stores/dm.store.ts\<close>, which the sidebar draws. The presence frames of
  \<open>features/channels/wsHandlers.ts\<close> write both copies separately; the lemmas show that they stay in step.
\<close>

section \<open>The people of the conversations\<close>

definition dm_people :: "dm_state \<Rightarrow> dm_user list" where
  "dm_people s = concat (map (\<lambda>c. dm_recipient c # dm_participants c) (ds_channels s))"

text \<open>The presence of one person, as a row draws it: an absent game, song or device counts as none.\<close>

definition agree :: "member \<Rightarrow> dm_user \<Rightarrow> bool" where
  "agree m u \<longleftrightarrow> du_status u = status_text (me_status m) \<and> (du_mobile u = Some True \<longleftrightarrow> me_mobile m = Some True) \<and>
     nullish (du_activity u) None = nullish (me_activity m) None \<and> nullish (du_listening u) None = nullish (me_listening m) None"

definition copies_agree :: "hub \<Rightarrow> bool" where
  "copies_agree h \<longleftrightarrow> list_all (\<lambda>u. case jm_get (ms_members (hub_members h)) (du_id u) of
     None \<Rightarrow> True | Some m \<Rightarrow> agree m u) (dm_people (hub_dms h))"

lemma patchUser_id [simp]: "du_id (patchUser i p u) = du_id u"
  by (simp add: patchUser_def)

lemma patchUser_other: "du_id u \<noteq> i \<Longrightarrow> patchUser i p u = u"
  by (simp add: patchUser_def)

lemma patchUser_twice: "patchUser i p (patchUser i p u) = patchUser i p u"
  by (auto simp: patchUser_def nullish_def alt_def split: option.split)

lemma dm_people_patch: "dm_people (updateDmParticipant i p s) = map (patchUser i p) (dm_people s)"
proof -
  define g where "g c = (if du_id (dm_recipient c) \<noteq> i \<and> list_all (\<lambda>q. du_id q \<noteq> i) (dm_participants c) then c
    else c\<lparr>dm_recipient := patchUser i p (dm_recipient c), dm_participants := map (patchUser i p) (dm_participants c)\<rparr>)" for c :: dm_channel
  have "dm_recipient (g c) = patchUser i p (dm_recipient c)" "dm_participants (g c) = map (patchUser i p) (dm_participants c)" for c
    by (auto simp: g_def patchUser_other list_all_iff map_idI)
  moreover have "updateDmParticipant i p s = \<lparr>ds_channels = map g (ds_channels s)\<rparr>" by (simp add: updateDmParticipant_def g_def)
  ultimately show ?thesis by (simp add: dm_people_def map_concat comp_def)
qed

text \<open>Patching the partners one by one patches each of them once.\<close>

lemma fold_one_patch:
  assumes "\<And>i u. du_id u \<noteq> i \<Longrightarrow> f i u = u" and "\<And>i u. du_id (f i u) = du_id u" and "\<And>i u. f i (f i u) = f i u"
  shows "fold f ids u = (if du_id u \<in> set ids then f (du_id u) u else u)"
proof (induction ids arbitrary: u)
  case (Cons i ids)
  show ?case
  proof (cases "du_id u = i")
    case True
    then have "fold f ids (f i u) = f i u" using Cons [of "f i u"] assms(2,3) by simp
    with True show ?thesis by simp
  next
    case False
    then show ?thesis using Cons [of u] assms(1) by simp
  qed
qed simp

lemma dm_people_fold:
  assumes "\<And>i s. dm_people (g i s) = map (f i) (dm_people s)"
  shows "dm_people (fold g ids s) = map (fold f ids) (dm_people s)"
  by (induction ids arbitrary: s) (simp_all add: assms comp_def)

lemma dm_people_partners:
  assumes "\<And>i s. dm_people (g i s) = map (f i) (dm_people s)"
    and "\<And>i u. du_id u \<noteq> i \<Longrightarrow> f i u = u" and "\<And>i u. du_id (f i u) = du_id u" and "\<And>i u. f i (f i u) = f i u"
  shows "dm_people (fold g (dmPartners s) s) = map (\<lambda>u. f (du_id u) u) (dm_people s)"
proof -
  have "du_id u \<in> set (dmPartners s)" if "u \<in> set (dm_people s)" for u
    using that js_of_list_has [of _ "du_id u", unfolded js_has_set]
    by (auto simp: dmPartners_def dm_people_def)
  moreover have "dm_people (fold g (dmPartners s) s) = map (fold f (dmPartners s)) (dm_people s)"
    by (rule dm_people_fold [of g f]) (rule assms(1))
  ultimately show ?thesis using fold_one_patch [of f, OF assms(2-4)] by (simp cong: map_cong)
qed

section \<open>One frame\<close>

lemma presence_keeps:
  assumes "copies_agree h"
  shows "copies_agree (handlePresence p h)"
  using assms
  by (auto simp: copies_agree_def handlePresence_def Let_def dm_people_patch list_all_iff agree_def updatePresence_def
      patchUser_def EMPTY_PATCH_def alt_def split: option.splits)

lemma jm_of_list_get: "distinct (map fst kvs) \<Longrightarrow> jm_get (jm_of_list kvs) i = map_of kvs i"
proof -
  have "jm_get (fold (\<lambda>(k, v) m. jm_set m k v) kvs m) i = alt (map_of kvs i) (jm_get m i)" if "distinct (map fst kvs)" for m
    using that
  proof (induction kvs arbitrary: m)
    case (Cons kv kvs)
    obtain k v where kv: "kv = (k, v)" by (cases kv)
    with Cons.prems have "map_of kvs k = None" by (auto simp: map_of_eq_None_iff)
    with Cons kv show ?case by (auto simp: alt_def split: option.split)
  qed simp
  from this [of "[]"] show "distinct (map fst kvs) \<Longrightarrow> ?thesis" by (simp add: jm_of_list_def alt_def split: option.split)
qed

lemma entry_of: "distinct (map pe_user_id es) \<Longrightarrow> map_of (map (\<lambda>u. (pe_user_id u, f u)) es) i = map_option f (List.find (\<lambda>u. pe_user_id u = i) es)"
  by (induction es) auto

lemma entries_of:
  "distinct (map pe_user_id es) \<Longrightarrow> filter (\<lambda>u. pe_user_id u = i) es = (case List.find (\<lambda>u. pe_user_id u = i) es of None \<Rightarrow> [] | Some e \<Rightarrow> [e])"
proof (induction es)
  case (Cons e es)
  then show ?case by (cases "pe_user_id e = i") (auto simp: filter_empty_conv find_None_iff intro: rev_image_eqI split: option.split)
qed simp

lemma phone_of:
  assumes "distinct (map pe_user_id es)"
  shows "js_has (js_of_list (map pe_user_id (filter (\<lambda>u. pe_mobile u = Some True) es))) i \<longleftrightarrow>
    (case List.find (\<lambda>u. pe_user_id u = i) es of None \<Rightarrow> False | Some e \<Rightarrow> pe_mobile e = Some True)"
proof -
  have "i \<in> pe_user_id ` {u \<in> set es. pe_mobile u = Some True} \<longleftrightarrow> (\<exists>u \<in> set (filter (\<lambda>u. pe_user_id u = i) es). pe_mobile u = Some True)"
    by auto
  then show ?thesis unfolding entries_of [OF assms] by (simp split: option.split)
qed

lemma batchPatch_found:
  assumes "distinct (map pe_user_id es)"
  shows "batchPatch es full i = (case List.find (\<lambda>u. pe_user_id u = i) es of
     Some e \<Rightarrow> Some (EMPTY_PATCH\<lparr>dv_status := Some (status_text (pe_status e)), dv_mobile := Some (pe_mobile e = Some True),
       dv_activity := map_option toMemberActivity (pe_activity e), dv_listening := map_option toMemberListening (pe_listening e)\<rparr>)
   | None \<Rightarrow> if full then Some (EMPTY_PATCH\<lparr>dv_status := Some (status_text Offline), dv_mobile := Some False,
       dv_activity := Some None, dv_listening := Some None\<rparr>) else None)"
proof -
  have get: "jm_get (jm_of_list (map (\<lambda>u. (pe_user_id u, f u)) es)) i = map_option f (List.find (\<lambda>u. pe_user_id u = i) es)" for f :: "presence_entry \<Rightarrow> 'z"
    using assms by (simp add: jm_of_list_get comp_def entry_of)
  show ?thesis unfolding batchPatch_def Let_def get phone_of [OF assms] jm_has_iff
    by (simp add: alt_def split: option.split)
qed

lemma batch_keeps:
  assumes agree: "copies_agree h" and ids: "distinct (map pe_user_id es)"
  shows "copies_agree (handlePresenceBatch es full h)"
proof -
  let ?es = "if gameActivityPolicyIsOff h then map (\<lambda>u. u\<lparr>pe_activity := Some None, pe_listening := Some None\<rparr>) es else es"
  let ?full = "full = Some True"
  define f where "f i u = (case batchPatch ?es ?full i of None \<Rightarrow> u | Some p \<Rightarrow> patchUser i p u)" for i u
  have ids': "distinct (map pe_user_id ?es)" using ids by (simp add: comp_def)
  have people: "dm_people (hub_dms (handlePresenceBatch es full h)) = map (\<lambda>u. f (du_id u) u) (dm_people (hub_dms h))"
    unfolding handlePresenceBatch_def Let_def hub_simps
    by (rule dm_people_partners) (auto simp: f_def patchPartner_def dm_people_patch patchUser_other patchUser_twice map_idI split: option.split)
  define r where "r i m = (case List.find (\<lambda>u. pe_user_id u = i) ?es of Some e \<Rightarrow> batchEntry e m
    | None \<Rightarrow> if ?full then batchOffline m else m)" for i m
  have roster: "jm_get (ms_members (hub_members (handlePresenceBatch es full h))) i = map_option (r i) (jm_get (ms_members (hub_members h)) i)" for i
    unfolding handlePresenceBatch_def Let_def hub_simps applyPresenceBatch_get entries_of [OF ids'] r_def
    by (auto intro!: option.map_cong split: option.split)
  have step: "agree (r (du_id u) m) (f (du_id u) u)" if "agree m u" for m u
    using that unfolding f_def r_def batchPatch_found [OF ids']
    by (auto simp: agree_def patchUser_def EMPTY_PATCH_def batchEntry_def batchOffline_def alt_def split: option.split)
  have "du_id (f i u) = du_id u" for i u by (simp add: f_def split: option.split)
  with agree step show ?thesis
    unfolding copies_agree_def people list_all_iff by (auto simp: roster split: option.splits)
qed

lemma fold_known_get:
  assumes "distinct (map fst kvs)"
  shows "jm_get (fold (\<lambda>(k, a) acc. case f a of None \<Rightarrow> acc | Some v \<Rightarrow> jm_set acc k v) kvs m) i =
    (case map_of kvs i of None \<Rightarrow> jm_get m i | Some a \<Rightarrow> alt (f a) (jm_get m i))"
  using assms
proof (induction kvs arbitrary: m)
  case (Cons kv kvs)
  obtain k a where kv: "kv = (k, a)" by (cases kv)
  with Cons.prems have "map_of kvs k = None" by (auto simp: map_of_eq_None_iff)
  with Cons kv show ?case by (auto split: option.split)
qed simp

lemma games_keep:
  assumes agree: "copies_agree h" and ids: "distinct (map fst games)" "distinct (map fst songs)"
  shows "copies_agree (applyGameActivityList games songs h)"
proof -
  define g where "g i = Option.bind (map_of games i) (\<lambda>a. toMemberActivity (Some a))" for i
  define l where "l i = Option.bind (map_of songs i) (\<lambda>a. toMemberListening (Some a))" for i
  define f where "f i u = patchUser i (EMPTY_PATCH\<lparr>dv_activity := Some (g i), dv_listening := Some (l i)\<rparr>) u" for i u
  have lookup: "Option.bind (jm_get (jm_of_list (map (\<lambda>(i, a). (i, t (Some a))) kvs)) i) id = Option.bind (map_of kvs i) (\<lambda>a. t (Some a))"
    if "distinct (map fst kvs)" for t :: "'p option \<Rightarrow> 'q option" and kvs i
  proof -
    have keys: "map fst (map (\<lambda>(i, a). (i, t (Some a))) kvs) = map fst kvs" by auto
    have d: "distinct (map fst (map (\<lambda>(i, a). (i, t (Some a))) kvs))" unfolding keys by (rule that)
    show ?thesis unfolding jm_of_list_get [OF d] map_of_map [of "\<lambda>a. t (Some a)"] by (cases "map_of kvs i") simp_all
  qed
  have people: "dm_people (hub_dms (applyGameActivityList games songs h)) = map (\<lambda>u. f (du_id u) u) (dm_people (hub_dms h))"
    unfolding applyGameActivityList_def Let_def hub_simps lookup [OF ids(1)] lookup [OF ids(2)] g_def [symmetric] l_def [symmetric]
    by (rule dm_people_partners) (simp_all add: f_def dm_people_patch patchUser_other patchUser_twice)
  have known: "jm_get (fold (\<lambda>(k, a) acc. case toMemberActivity (Some a) of None \<Rightarrow> acc | Some v \<Rightarrow> jm_set acc k v) games []) i = g i"
    "jm_get (fold (\<lambda>(k, a) acc. case toMemberListening (Some a) of None \<Rightarrow> acc | Some v \<Rightarrow> jm_set acc k v) songs []) i = l i" for i
    using fold_known_get [OF ids(1), of "\<lambda>a. toMemberActivity (Some a)" "[]" i] fold_known_get [OF ids(2), of "\<lambda>a. toMemberListening (Some a)" "[]" i]
    by (auto simp: g_def l_def alt_def split: option.split)
  have roster: "jm_get (ms_members (hub_members (applyGameActivityList games songs h))) i =
      map_option (\<lambda>m. m\<lparr>me_activity := Some (g i), me_listening := Some (l i)\<rparr>) (jm_get (ms_members (hub_members h)) i)" for i
    unfolding applyGameActivityList_def Let_def hub_simps applyReadyActivities_def applyReadyListening_def
    by (auto simp: jm_get_map_members known option.map_comp comp_def intro!: option.map_cong)
  have step: "agree (m\<lparr>me_activity := Some (g (du_id u)), me_listening := Some (l (du_id u))\<rparr>) (f (du_id u) u)" if "agree m u" for m u
    using that by (simp add: agree_def f_def patchUser_def EMPTY_PATCH_def)
  have "du_id (f i u) = du_id u" for i u by (simp add: f_def)
  with agree step show ?thesis
    unfolding copies_agree_def people list_all_iff by (auto simp: roster split: option.splits)
qed

section \<open>Any frames\<close>

datatype presence_event =
    Presence presence_payload
  | Presence_batch "presence_entry list" "bool option"
  | Ready_games "(int \<times> game_activity) list" "(int \<times> listening_activity) list"
  | Game_policy bool

fun presence_apply :: "presence_event \<Rightarrow> hub \<Rightarrow> hub" where
  "presence_apply (Presence p) h = handlePresence p h"
| "presence_apply (Presence_batch es full) h = handlePresenceBatch es full h"
| "presence_apply (Ready_games games songs) h = applyGameActivityList games songs h"
| "presence_apply (Game_policy enabled) h = handleGameActivityPolicy enabled h"

text \<open>A frame that lists people lists each once.\<close>

fun lists_once :: "presence_event \<Rightarrow> bool" where
  "lists_once (Presence_batch es full) = distinct (map pe_user_id es)"
| "lists_once (Ready_games games songs) = (distinct (map fst games) \<and> distinct (map fst songs))"
| "lists_once _ = True"

lemma policy_keeps:
  assumes "copies_agree h"
  shows "copies_agree (handleGameActivityPolicy enabled h)"
proof -
  have "copies_agree (h\<lparr>hb_gamePolicy := p\<rparr>)" for p using assms by (simp add: copies_agree_def hub_members_def hub_dms_def)
  then show ?thesis using assms games_keep [of _ "[]" "[]"]
    by (simp add: handleGameActivityPolicy_def applyGameActivityPolicy_def)
qed

text \<open>C25: However presence frames, batches, full snapshots, the games of \<open>ready\<close> and the switch for games follow one
  another, the two copies of a person's presence stay in step: what the sidebar draws for a
  conversation is the status, device, game and song that the roster shows.\<close>

theorem presence_copies_agree:
  assumes "copies_agree h" and "list_all lists_once es"
  shows "copies_agree (fold presence_apply es h)"
  using assms
proof (induction es arbitrary: h)
  case (Cons e es)
  have "copies_agree (presence_apply e h)"
    using Cons.prems by (cases e) (simp_all add: presence_keeps batch_keeps games_keep policy_keeps)
  with Cons show ?case by simp
qed simp


definition roster_hub :: hub where
  "roster_hub = with_members (\<lambda>s. s\<lparr>ms_members := [(101, \<lparr>me_id = 101, me_username = ''ada'', me_avatar = None, me_role = ''member'',
     me_roleIds = None, me_status = Online, me_mobile = None, me_displayName = None, me_customStatus = None,
     me_customStatusExpiresAt = None, me_activity = None, me_listening = None, me_about = None, me_banner = None,
     me_banner_color = None, me_createdAt = None, me_identityPublicKey = None\<rparr>)]\<rparr>) sample_hub"

theorem presence_copies_agree_witness:
  "copies_agree roster_hub \<and> copies_agree (fold presence_apply [Presence_batch [] (Some True), Presence \<lparr>pp_user_id = 101,
     pp_status = Idle, pp_custom_status = None, pp_activity = None, pp_listening = None, pp_mobile = Some True\<rparr>] roster_hub)"
proof -
  have people: "dm_people (hub_dms roster_hub) = replicate 2 \<lparr>du_id = 101, du_username = ''ada'', du_avatar = '''', du_status = ''online'',
      du_mobile = None, du_displayName = Some '''', du_activity = None, du_listening = None\<rparr>"
    by (simp add: dm_people_def roster_hub_def) (simp add: hub_dms_def sample_hub_def sample_chat_def sample_read_def mapDmPayload_def sample_dm_def
        sample_recipient_def mapDmUser_def numeral_2_eq_2 Let_def)
  have h: "copies_agree roster_hub" unfolding copies_agree_def people by (simp add: roster_hub_def agree_def jm_get_def numeral_2_eq_2)
  from presence_copies_agree [OF h, of "[Presence_batch [] (Some True), Presence \<lparr>pp_user_id = 101,
     pp_status = Idle, pp_custom_status = None, pp_activity = None, pp_listening = None, pp_mobile = Some True\<rparr>]"] h
  show ?thesis by simp
qed

end
