(* ===== verification/Emoji_Store.thy ===== *)
theory Emoji_Store
  imports Prelude
begin

text \<open>
  \<open>stores/emoji.store.ts\<close>: the server's own emoji. The set is loaded by a request and replaced whole by
  every \<open>emoji_update\<close>; the revision keeps a late answer from undoing a broadcast or from crossing into the
  next session. The lemmas show which shortcode resolves to which emoji, and when an answer counts.
\<close>

section \<open>State and operations\<close>

record custom_emoji =
  em_id :: int
  em_shortcode :: string
  em_url :: string

text \<open>An entry as it arrives; \<open>None\<close> is a value that is not a string.\<close>

record wire_emoji =
  we_id :: int
  we_shortcode :: "string option"
  we_url :: "string option"

record emoji_state =
  es_emoji :: "custom_emoji list"
  es_byShortcode :: "(string, custom_emoji) jmap"
  es_rev :: "int option"
  es_loaded :: "bool option"

definition EMOJI_INITIAL :: emoji_state where
  "EMOJI_INITIAL = \<lparr>es_emoji = [], es_byShortcode = [], es_rev = Some 0, es_loaded = None\<rparr>"

definition emoji_rev :: "emoji_state \<Rightarrow> int" where
  "emoji_rev s = nullish (es_rev s) 0"

definition shortcode_char :: "char \<Rightarrow> bool" where
  "shortcode_char c \<longleftrightarrow> (let n = of_char c :: nat in 97 \<le> n \<and> n \<le> 122 \<or> 48 \<le> n \<and> n \<le> 57 \<or> n = 95)"

definition SHORTCODE_PATTERN :: "string \<Rightarrow> bool" where
  "SHORTCODE_PATTERN s \<longleftrightarrow> 2 \<le> length s \<and> length s \<le> 32 \<and> list_all shortcode_char s"

definition emojiEntry :: "wire_emoji \<Rightarrow> custom_emoji option" where
  "emojiEntry e = (case (we_shortcode e, we_url e) of
     (Some code, Some url) \<Rightarrow>
       (let shortcode = map lower_char code
        in if SHORTCODE_PATTERN shortcode then Some \<lparr>em_id = we_id e, em_shortcode = shortcode, em_url = url\<rparr> else None)
   | _ \<Rightarrow> None)"

definition addShortcode :: "custom_emoji \<Rightarrow> (string, custom_emoji) jmap \<Rightarrow> (string, custom_emoji) jmap" where
  "addShortcode entry m = (if jm_has m (em_shortcode entry) then m else jm_set m (em_shortcode entry) entry)"

definition setCustomEmoji :: "wire_emoji list \<Rightarrow> int option \<Rightarrow> emoji_state \<Rightarrow> emoji_state" where
  "setCustomEmoji es rev' prev = (
     let entries = List.map_filter emojiEntry es
     in if rev' \<noteq> None \<and> rev' \<noteq> Some (emoji_rev prev) then prev
        else \<lparr>es_emoji = entries, es_byShortcode = fold addShortcode entries [], es_rev = Some (emoji_rev prev + 1),
              es_loaded = Some True\<rparr>)"

definition clearCustomEmoji :: "emoji_state \<Rightarrow> emoji_state" where
  "clearCustomEmoji prev = EMOJI_INITIAL\<lparr>es_rev := Some (emoji_rev prev + 1)\<rparr>"

definition bareName :: "string \<Rightarrow> string" where
  "bareName name = (if name \<noteq> [] \<and> hd name = CHR '':'' \<and> last name = CHR '':'' \<and> length name > 2
     then butlast (tl name) else name)"

definition resolveEmoji :: "emoji_state \<Rightarrow> string \<Rightarrow> custom_emoji option" where
  "resolveEmoji s shortcode = jm_get (es_byShortcode s) (bareName (map lower_char shortcode))"

definition customEmojiLoaded :: "emoji_state \<Rightarrow> bool" where
  "customEmojiLoaded s \<longleftrightarrow> es_loaded s = Some True"

definition listCustomEmoji :: "emoji_state \<Rightarrow> custom_emoji list" where
  "listCustomEmoji s = es_emoji s"

section \<open>Runs\<close>

datatype emoji_action =
    Emoji_update "wire_emoji list"
  | Emoji_answer "wire_emoji list" int
  | Emoji_clear

fun emoji_apply :: "emoji_action \<Rightarrow> emoji_state \<Rightarrow> emoji_state" where
  "emoji_apply (Emoji_update es) s = setCustomEmoji es None s"
| "emoji_apply (Emoji_answer es r) s = setCustomEmoji es (Some r) s"
| "emoji_apply Emoji_clear s = clearCustomEmoji s"

text \<open>Every write overtakes the requests that are under way: a broadcast, an accepted answer, the end of
  the session.\<close>

fun emoji_overtakes :: "emoji_state \<Rightarrow> emoji_action \<Rightarrow> bool" where
  "emoji_overtakes s (Emoji_answer es r) = (r = emoji_rev s)"
| "emoji_overtakes s _ = True"

interpretation emr: revision_guard emoji_apply emoji_rev emoji_overtakes
proof
  fix a s
  show "emoji_rev (emoji_apply a s) = emoji_rev s + (if emoji_overtakes s a then 1 else 0)"
    by (cases a) (simp_all add: setCustomEmoji_def clearCustomEmoji_def emoji_rev_def Let_def)
qed

section \<open>Lookup\<close>

lemma fold_addShortcode:
  "jm_get (fold addShortcode es m) n = alt (jm_get m n) (List.find (\<lambda>e. em_shortcode e = n) es)"
proof (induction es arbitrary: m)
  case Nil
  then show ?case by (simp add: alt_def split: option.split)
next
  case (Cons e es)
  then show ?case by (auto simp: addShortcode_def alt_def split: option.split)
qed

definition emoji_ok :: "emoji_state \<Rightarrow> bool" where
  "emoji_ok s \<longleftrightarrow> (\<forall>n. jm_get (es_byShortcode s) n = List.find (\<lambda>e. em_shortcode e = n) (es_emoji s)) \<and>
     (\<forall>e \<in> set (es_emoji s). SHORTCODE_PATTERN (em_shortcode e))"

lemma emojiEntry_pattern: "emojiEntry w = Some e \<Longrightarrow> SHORTCODE_PATTERN (em_shortcode e)"
  by (auto simp: emojiEntry_def Let_def split: option.splits if_splits)

definition emoji_step :: "emoji_state \<Rightarrow> emoji_action \<Rightarrow> emoji_state \<Rightarrow> bool" where
  "emoji_step s a t \<longleftrightarrow> t = emoji_apply a s"

lemma setCustomEmoji_ok: "emoji_ok s \<Longrightarrow> emoji_ok (setCustomEmoji es r s)"
  by (auto simp: emoji_ok_def setCustomEmoji_def Let_def fold_addShortcode map_filter_def dest: emojiEntry_pattern)

interpretation emo: invariant_system emoji_step EMOJI_INITIAL emoji_ok
proof
  fix s a t
  assume "emoji_ok s" "emoji_step s a t"
  then show "emoji_ok t" by (cases a) (simp_all add: emoji_step_def setCustomEmoji_ok, simp add: clearCustomEmoji_def EMOJI_INITIAL_def emoji_ok_def)
qed (simp add: emoji_ok_def EMOJI_INITIAL_def)

lemma emoji_runs: "runs emoji_step s as (fold emoji_apply as s)"
  by (induction as arbitrary: s) (auto simp: emoji_step_def intro: runs_Nil runs_Cons)

lemma bareName_colons: "n \<noteq> [] \<Longrightarrow> bareName (CHR '':'' # n @ '':'') = n"
  by (simp add: bareName_def)

lemma bareName_pattern: "SHORTCODE_PATTERN n \<Longrightarrow> bareName n = n"
  by (cases n) (auto simp: bareName_def SHORTCODE_PATTERN_def shortcode_char_def Let_def)

text \<open>After any updates, answers and clears a shortcode resolves to the first emoji of the shown set with that
  name, in any case and with or without its colons, and what does not have the form of a shortcode
  resolves to nothing.\<close>

theorem emoji_resolves:
  assumes "s = fold emoji_apply as EMOJI_INITIAL" and "code \<noteq> []"
  shows "resolveEmoji s (CHR '':'' # code @ '':'') = List.find (\<lambda>e. em_shortcode e = map lower_char code) (listCustomEmoji s) \<and>
    (SHORTCODE_PATTERN (map lower_char code) \<longrightarrow> resolveEmoji s code = resolveEmoji s (CHR '':'' # code @ '':'')) \<and>
    (\<not> SHORTCODE_PATTERN (map lower_char code) \<longrightarrow> resolveEmoji s (CHR '':'' # code @ '':'') = None)"
proof -
  have ok: "emoji_ok s" unfolding assms(1) by (rule emo.reachable_inv [OF emoji_runs])
  have colon: "lower_char (CHR '':'') = CHR '':''" by code_simp
  have full: "resolveEmoji s (CHR '':'' # code @ '':'') = List.find (\<lambda>e. em_shortcode e = map lower_char code) (listCustomEmoji s)"
    using ok assms(2) bareName_colons [of "map lower_char code"] by (simp add: resolveEmoji_def colon emoji_ok_def listCustomEmoji_def)
  moreover have "resolveEmoji s code = resolveEmoji s (CHR '':'' # code @ '':'')" if "SHORTCODE_PATTERN (map lower_char code)"
    using ok full bareName_pattern [OF that] by (simp add: resolveEmoji_def emoji_ok_def listCustomEmoji_def)
  moreover have "List.find (\<lambda>e. em_shortcode e = map lower_char code) (es_emoji s) = None" if "\<not> SHORTCODE_PATTERN (map lower_char code)"
    using ok that by (auto simp: emoji_ok_def find_None_iff)
  ultimately show ?thesis by (simp add: listCustomEmoji_def)
qed

text \<open>The answer to a request for the set is applied exactly when no broadcast, no other answer and no end of
  the session came between.\<close>

theorem emoji_answer_fresh:
  assumes "t = fold emoji_apply as s"
  shows "setCustomEmoji es (Some (emoji_rev s)) t =
    (if \<exists>k < length as. emoji_overtakes (fold emoji_apply (take k as) s) (as ! k) then t else setCustomEmoji es None t)"
  using emr.revision_kept [of as s] by (auto simp: assms setCustomEmoji_def Let_def)

end
