(* ===== verification/Stickers_Store.thy ===== *)
theory Stickers_Store
  imports Prelude
begin

text \<open>
  \<open>stores/stickers.store.ts\<close>: the server's stickers, kept like its emoji: loaded by a request, replaced whole
  by every \<open>sticker_update\<close>, with a revision against late answers.
\<close>

record sticker =
  sk_id :: int
  sk_name :: string
  sk_emoji :: "string option"
  sk_url :: string

text \<open>An entry as it arrives; \<open>None\<close> is a value of another type.\<close>

record wire_sticker =
  wk_id :: "int option"
  wk_name :: "string option"
  wk_emoji :: "string option"
  wk_url :: "string option"

record stickers_state =
  ss_stickers :: "sticker list"
  ss_rev :: int
  ss_loaded :: bool

definition STICKERS_INITIAL :: stickers_state where
  "STICKERS_INITIAL = \<lparr>ss_stickers = [], ss_rev = 0, ss_loaded = False\<rparr>"

definition stickerEntry :: "wire_sticker \<Rightarrow> sticker option" where
  "stickerEntry w = (case (wk_id w, wk_name w, wk_url w) of
     (Some i, Some name, Some url) \<Rightarrow>
       Some \<lparr>sk_id = i, sk_name = name, sk_emoji = (if wk_emoji w = Some [] then None else wk_emoji w), sk_url = url\<rparr>
   | _ \<Rightarrow> None)"

fun uniqueStickers :: "int jset \<Rightarrow> wire_sticker list \<Rightarrow> sticker list" where
  "uniqueStickers seen [] = []"
| "uniqueStickers seen (w # ws) = (case stickerEntry w of
     None \<Rightarrow> uniqueStickers seen ws
   | Some s \<Rightarrow> if js_has seen (sk_id s) then uniqueStickers seen ws
       else s # uniqueStickers (js_add seen (sk_id s)) ws)"

definition setStickers :: "wire_sticker list \<Rightarrow> int option \<Rightarrow> stickers_state \<Rightarrow> stickers_state" where
  "setStickers ws rev' prev = (
     if rev' \<noteq> None \<and> rev' \<noteq> Some (ss_rev prev) then prev
     else \<lparr>ss_stickers = uniqueStickers [] ws, ss_rev = ss_rev prev + 1, ss_loaded = True\<rparr>)"

definition clearStickers :: "stickers_state \<Rightarrow> stickers_state" where
  "clearStickers prev = STICKERS_INITIAL\<lparr>ss_rev := ss_rev prev + 1\<rparr>"

definition listStickers :: "stickers_state \<Rightarrow> sticker list" where
  "listStickers s = ss_stickers s"

definition findSticker :: "stickers_state \<Rightarrow> int \<Rightarrow> sticker option" where
  "findSticker s i = List.find (\<lambda>k. sk_id k = i) (ss_stickers s)"

definition stickersLoaded :: "stickers_state \<Rightarrow> bool" where
  "stickersLoaded s = ss_loaded s"

datatype stickers_action =
    Sticker_update "wire_sticker list"
  | Sticker_answer "wire_sticker list" int
  | Sticker_clear

fun stickers_apply :: "stickers_action \<Rightarrow> stickers_state \<Rightarrow> stickers_state" where
  "stickers_apply (Sticker_update ws) s = setStickers ws None s"
| "stickers_apply (Sticker_answer ws r) s = setStickers ws (Some r) s"
| "stickers_apply Sticker_clear s = clearStickers s"

fun stickers_overtakes :: "stickers_state \<Rightarrow> stickers_action \<Rightarrow> bool" where
  "stickers_overtakes s (Sticker_answer ws r) = (r = ss_rev s)"
| "stickers_overtakes s _ = True"

interpretation skr: revision_guard stickers_apply ss_rev stickers_overtakes
proof
  fix a s
  show "ss_rev (stickers_apply a s) = ss_rev s + (if stickers_overtakes s a then 1 else 0)"
    by (cases a) (simp_all add: setStickers_def clearStickers_def)
qed

lemma uniqueStickers_ids: "distinct (map sk_id (uniqueStickers seen ws)) \<and> set (map sk_id (uniqueStickers seen ws)) \<inter> set seen = {}"
proof (induction seen ws rule: uniqueStickers.induct)
  case (2 seen w ws)
  then show ?case by (auto simp: js_has_set js_add_def split: option.split)
qed simp

text \<open>The shown set has each sticker once, so the one found under an id is the only one, whatever
  updates, answers and clears came before.\<close>

theorem stickers_unique:
  assumes "s = fold stickers_apply as STICKERS_INITIAL" and "k \<in> set (listStickers s)"
  shows "findSticker s (sk_id k) = Some k"
proof -
  have "distinct (map sk_id (ss_stickers (stickers_apply a t)))" if "distinct (map sk_id (ss_stickers t))" for a t
    using that uniqueStickers_ids [of "[]"] by (cases a) (simp_all add: setStickers_def clearStickers_def STICKERS_INITIAL_def)
  then have "distinct (map sk_id (ss_stickers (fold stickers_apply as t)))" if "distinct (map sk_id (ss_stickers t))" for t
    using that by (induction as arbitrary: t) auto
  then have d: "distinct (map sk_id (ss_stickers s))" unfolding assms(1) by (simp add: STICKERS_INITIAL_def)
  have "List.find (\<lambda>j. sk_id j = sk_id k) xs = Some k" if "distinct (map sk_id xs)" "k \<in> set xs" for xs
    using that by (induction xs) (auto intro: rev_image_eqI)
  with d assms(2) show ?thesis by (simp add: findSticker_def listStickers_def)
qed

text \<open>The answer to a request for the set is applied exactly when nothing overtook it.\<close>

theorem sticker_answer_fresh:
  assumes "t = fold stickers_apply as s"
  shows "setStickers ws (Some (ss_rev s)) t =
    (if \<exists>k < length as. stickers_overtakes (fold stickers_apply (take k as) s) (as ! k) then t else setStickers ws None t)"
  using skr.revision_kept [of as s] by (auto simp: assms setStickers_def)

end
