(* ===== verification/Server_Sets.thy ===== *)
theory Server_Sets
  imports Messages_Store Emoji_Store Stickers_Store Blocks_Store
begin

text \<open>
  The frames for the sets that a server keeps as a whole, its emoji and stickers, and the user's own blocks:
  the slices of \<open>ready\<close> that ask for them and the broadcasts that replace them, of
  \<open>features/channels/wsHandlers.ts\<close> and \<open>features/direct-messages/wsHandlers.ts\<close>. A slice returns the revision
  that its request carries, \<open>None\<close> when it asks for nothing.
\<close>

definition applyReadyEmoji :: "bool \<Rightarrow> emoji_state \<Rightarrow> int option" where
  "applyReadyEmoji api s = (if api then Some (emoji_rev s) else None)"

definition applyReadyStickers :: "bool \<Rightarrow> bool \<Rightarrow> stickers_state \<Rightarrow> int option" where
  "applyReadyStickers enabled api s = (if \<not> enabled \<or> \<not> api then None else Some (ss_rev s))"

definition applyReadyBlocks :: "bool \<Rightarrow> blocks_state \<Rightarrow> blocks_state \<times> int option" where
  "applyReadyBlocks api s = (let s1 = clearBlockedByThem s in (s1, if api then Some (blocks_rev s1) else None))"

definition handleEmojiUpdate :: "wire_emoji list option \<Rightarrow> emoji_state \<Rightarrow> emoji_state" where
  "handleEmojiUpdate emoji s = setCustomEmoji (nullish emoji []) None s"

definition handleStickerUpdate ::
  "wire_sticker list option \<Rightarrow> stickers_state \<times> messages_state \<Rightarrow> stickers_state \<times> messages_state" where
  "handleStickerUpdate payload st = (
     let stickers = nullish payload []
     in (setStickers stickers None (fst st),
         markStickersDeleted (snd st) (js_of_list (List.map_filter wk_id stickers))))"

section \<open>Properties\<close>

text \<open>The answer to the request that \<open>ready\<close> made for the emoji, when a broadcast came first: it changes nothing,
  and the broadcast's set stays.\<close>

theorem emoji_broadcast_wins:
  assumes "applyReadyEmoji True s = Some r" and "t = handleEmojiUpdate (Some es) (fold emoji_apply as s)"
  shows "setCustomEmoji answer (Some r) (fold emoji_apply bs t) = fold emoji_apply bs t"
proof -
  have "emoji_rev s < emoji_rev t"
    using emr.revision_grows [of s as] by (simp add: assms(2) handleEmojiUpdate_def setCustomEmoji_def emoji_rev_def Let_def)
  then have "r < emoji_rev (fold emoji_apply bs t)"
    using emr.revision_grows [of t bs] assms(1) by (simp add: applyReadyEmoji_def)
  then show ?thesis by (simp add: setCustomEmoji_def Let_def)
qed

text \<open>After a \<open>sticker_update\<close> no row on screen shows a sticker that the server no longer has: the stickers still
  drawn are of the broadcast set, the others are marked deleted, and no row is added or lost.\<close>

theorem sticker_update_settles:
  assumes "(st', s') = handleStickerUpdate (Some ws) (st, s)"
  shows "(\<forall>c. map msg_id (rows s' c) = map msg_id (rows s c)) \<and>
    (\<forall>c. \<forall>m \<in> set (rows s' c). case msg_sticker m of None \<Rightarrow> True
       | Some k \<Rightarrow> (case st_id k of None \<Rightarrow> True | Some i \<Rightarrow> i \<in> set (List.map_filter wk_id ws)))"
proof -
  define f where "f m = (if stale_sticker (js_of_list (List.map_filter wk_id ws)) m
    then m\<lparr>msg_sticker := map_option (\<lambda>st. \<lparr>st_id = None, st_name = st_name st, st_url = None\<rparr>) (msg_sticker m)\<rparr> else m)" for m :: message
  have s': "s' = markStickersDeleted s (js_of_list (List.map_filter wk_id ws))" using assms by (simp add: handleStickerUpdate_def Let_def)
  have "rows s' c = map f (rows s c)" for c
  proof -
    have "messagesByChannel s' = map (\<lambda>(k, xs). (k, map f xs)) (messagesByChannel s)"
      by (auto simp: s' markStickersDeleted_def f_def list_ex_iff map_idI intro!: map_cong)
    then show ?thesis by (simp add: rows_def jm_get_def map_of_map nullish_def split: option.split)
  qed
  then show ?thesis by (auto simp: f_def stale_sticker_def split: option.splits)
qed

end
