(* ===== verification/Pending_Messages.thy ===== *)
theory Pending_Messages
  imports Messages_Store Complex_Main
begin

text \<open>
  The outbox of unsent texts: \<open>lib/pendingMessages.ts\<close> over the in-memory persistence of
  \<open>platform/browser/pendingMessages.ts\<close>. Each login owns a queue of drafts. Its reads and writes of the
  persistent copy run one after the other through one chain of promises shared by all queues, so
  a step of the model is a call, the start of the next operation of the chain, or the answer of the
  persistence, which may refuse. The persistence is named by the contract of
  \<open>platform/contracts/pendingMessages.ts\<close>; what a write stores takes effect when it is answered, and no
  second one is under way meanwhile.

  Saved texts are values of a type \<open>'v\<close>, known to the code only through \<open>JSON.stringify\<close>,
  \<open>JSON.parse\<close> and the length of their encoding, the fields of \<open>pending_env\<close>. A saved draft has the
  four fields that this module writes.
\<close>

section \<open>Client message ids\<close>

definition PENDING_MESSAGE_MAX_AGE_MS :: int where
  "PENDING_MESSAGE_MAX_AGE_MS = 24 * 60 * 60 * 1000"

definition PENDING_MESSAGE_MAX_COUNT :: nat where
  "PENDING_MESSAGE_MAX_COUNT = 64"

definition PENDING_MESSAGE_MAX_BYTES :: nat where
  "PENDING_MESSAGE_MAX_BYTES = 128 * 1024"

definition dec_char :: "char \<Rightarrow> bool" where
  "dec_char c \<longleftrightarrow> 48 \<le> (of_char c :: nat) \<and> (of_char c :: nat) \<le> 57"

definition hex_char :: "char \<Rightarrow> bool" where
  "hex_char c \<longleftrightarrow> dec_char c \<or> 97 \<le> (of_char c :: nat) \<and> (of_char c :: nat) \<le> 102"

text \<open>A regular expression without repetition is a list of character classes. This is the version-4
  identifier that \<open>crypto.randomUUID\<close> returns.\<close>

definition UUID_PATTERN :: "(char \<Rightarrow> bool) list" where
  "UUID_PATTERN = replicate 8 hex_char @ [(=) (CHR ''-'')] @ replicate 4 hex_char @ [(=) (CHR ''-''), (=) (CHR ''4'')]
     @ replicate 3 hex_char @ [(=) (CHR ''-''), \<lambda>c. c \<in> set ''89ab''] @ replicate 3 hex_char @ [(=) (CHR ''-'')]
     @ replicate 12 hex_char"

definition matches :: "(char \<Rightarrow> bool) list \<Rightarrow> string \<Rightarrow> bool" where
  "matches ps s = list_all2 (\<lambda>p c. p c) ps s"

definition ID_PATTERN :: "string \<Rightarrow> bool" where
  "ID_PATTERN s = matches (replicate 13 dec_char @ [(=) (CHR '':'')] @ UUID_PATTERN) s"

text \<open>\<open>Number(clientMessageId.split(":", 1)[0])\<close>; only read of an id that matches the pattern.\<close>

definition idTime :: "string \<Rightarrow> int" where
  "idTime s = fold (\<lambda>c n. 10 * n + (int (of_char c) - 48)) (takeWhile (\<lambda>c. c \<noteq> CHR '':'') s) 0"

definition newClientMessageId :: "string \<Rightarrow> int \<Rightarrow> int \<Rightarrow> string" where
  "newClientMessageId uuid now flr = show_int (max now flr) @ '':'' @ uuid"

definition pendingMessageExpired :: "string \<Rightarrow> int \<Rightarrow> int \<Rightarrow> bool" where
  "pendingMessageExpired clientMessageId now flr = (
     let createdAt = idTime clientMessageId
     in \<not> ID_PATTERN clientMessageId \<or> now - createdAt \<ge> PENDING_MESSAGE_MAX_AGE_MS \<or>
        createdAt > max (now + 5 * 60 * 1000) flr)"

definition pendingMessageBeforeRestore :: "string \<Rightarrow> int \<Rightarrow> bool" where
  "pendingMessageBeforeRestore clientMessageId flr = (
     if flr \<le> 0 \<or> \<not> ID_PATTERN clientMessageId then False
     else idTime clientMessageId < flr)"

section \<open>Drafts and their saved form\<close>

record pending_text =
  pt_clientMessageId :: string
  pt_channelId :: int
  pt_content :: jstring
  pt_createdAt :: int

record pending_owner =
  ow_host :: string
  ow_userId :: int

datatype json =
    JNull
  | JBool bool
  | JNumber rat
  | JString jstring
  | JArray "json list"
  | JObject "(string \<times> json) list"

record 'v pending_env =
  pe_stringify :: "json \<Rightarrow> 'v"
  pe_parse :: "'v \<Rightarrow> json option"
  pe_bytes :: "'v \<Rightarrow> nat"
  pe_toISO :: "int \<Rightarrow> string"

definition draftJson :: "pending_text \<Rightarrow> json" where
  "draftJson d = JObject [(''clientMessageId'', JString (js_lit (pt_clientMessageId d))),
     (''channelId'', JNumber (of_int (pt_channelId d))), (''content'', JString (pt_content d)),
     (''createdAt'', JNumber (of_int (pt_createdAt d)))]"

definition draftsJson :: "pending_text list \<Rightarrow> json" where
  "draftsJson ds = JArray (map draftJson ds)"

definition isSafeInteger :: "rat \<Rightarrow> bool" where
  "isSafeInteger r \<longleftrightarrow> r = of_int \<lfloor>r\<rfloor> \<and> \<bar>r\<bar> \<le> 9007199254740991"

text \<open>A text with a code unit above 255 matches no pattern of this module.\<close>

definition latin1 :: "jstring \<Rightarrow> string option" where
  "latin1 s = (if list_all (\<lambda>w. w \<le> 255) s then Some (map (\<lambda>w. char_of (unat w)) s) else None)"

definition decodeEntry :: "int \<Rightarrow> int \<Rightarrow> string jset \<Rightarrow> json \<Rightarrow> pending_text option" where
  "decodeEntry now flr seen entry = (case entry of
     JObject fs \<Rightarrow> (case (map_of fs ''clientMessageId'', map_of fs ''createdAt'', map_of fs ''channelId'', map_of fs ''content'') of
         (Some (JString i), Some (JNumber t), Some (JNumber c), Some (JString content)) \<Rightarrow>
           (case latin1 i of
              None \<Rightarrow> None
            | Some cid \<Rightarrow>
                if pendingMessageExpired cid now flr \<or> js_has seen cid \<or> t \<noteq> of_int (idTime cid) \<or>
                   \<not> isSafeInteger c \<or> c \<le> 0 \<or> content = [] then None
                else Some \<lparr>pt_clientMessageId = cid, pt_channelId = \<lfloor>c\<rfloor>, pt_content = content, pt_createdAt = idTime cid\<rparr>)
       | _ \<Rightarrow> None)
   | _ \<Rightarrow> None)"

fun decodeEntries :: "int \<Rightarrow> int \<Rightarrow> string jset \<Rightarrow> json list \<Rightarrow> pending_text list" where
  "decodeEntries now flr seen [] = []"
| "decodeEntries now flr seen (entry # rest) = (case decodeEntry now flr seen entry of
     None \<Rightarrow> decodeEntries now flr seen rest
   | Some d \<Rightarrow>
       (let seen' = js_add seen (pt_clientMessageId d)
        in if length seen' \<le> PENDING_MESSAGE_MAX_COUNT then d # decodeEntries now flr seen' rest
           else decodeEntries now flr seen' rest))"

definition decode :: "'v pending_env \<Rightarrow> 'v option \<Rightarrow> int \<Rightarrow> int \<Rightarrow> pending_text list" where
  "decode env val now flr = (case val of
     None \<Rightarrow> []
   | Some text \<Rightarrow>
       if pe_bytes env text > PENDING_MESSAGE_MAX_BYTES then []
       else (case pe_parse env text of
           Some (JArray entries) \<Rightarrow> decodeEntries now flr [] entries
         | _ \<Rightarrow> []))"

section \<open>Queues\<close>

text \<open>One queue per login. \<open>pq_loaded\<close> is the promise of the first load: pending, fulfilled or
  rejected; \<open>pq_puts\<close> are the calls of \<open>put\<close> that await it. \<open>pq_user\<close> is what the recovery
  callback holds.\<close>

record pending_queue =
  pq_owner :: pending_owner
  pq_user :: message_user
  pq_drafts :: "(string, pending_text) jmap"
  pq_active :: bool
  pq_loading :: bool
  pq_acknowledged :: "string jset"
  pq_retryFloor :: int
  pq_loaded :: "bool option"
  pq_puts :: "pending_text list"

text \<open>The operations handed to \<open>serialize\<close>, by the number of their queue.\<close>

datatype operation =
    Op_load nat
  | Op_write nat string
  | Op_remove nat string
  | Op_delete nat

text \<open>What the chain waits for: the text of a load, or a write (\<open>None\<close> deletes) of an operation.\<close>

datatype 'v running =
    Run_load nat
  | Run_persist operation "'v option"

datatype pending_effect =
    Recovered string
  | Put_saved string
  | Put_failed string

record 'v pending =
  pm_queues :: "pending_queue list"
  pm_activeQueue :: "nat option"
  pm_deduplication :: bool
  pm_retryFloor :: int
  pm_operations :: "operation list"
  pm_running :: "'v running option"
  pm_store :: "(pending_owner, 'v) jmap"
  pm_messages :: messages_state
  pm_effects :: "pending_effect list"

definition PENDING_INITIAL :: "(pending_owner, 'v) jmap \<Rightarrow> messages_state \<Rightarrow> 'v pending" where
  "PENDING_INITIAL store messages = \<lparr>pm_queues = [], pm_activeQueue = None, pm_deduplication = False, pm_retryFloor = 0,
     pm_operations = [], pm_running = None, pm_store = store, pm_messages = messages, pm_effects = []\<rparr>"

definition queue_at :: "'v pending \<Rightarrow> nat \<Rightarrow> pending_queue" where
  "queue_at pm i = pm_queues pm ! i"

definition on_queue :: "nat \<Rightarrow> (pending_queue \<Rightarrow> pending_queue) \<Rightarrow> 'v pending \<Rightarrow> 'v pending" where
  "on_queue i f pm = (if i < length (pm_queues pm) then pm\<lparr>pm_queues := (pm_queues pm)[i := f (pm_queues pm ! i)]\<rparr> else pm)"

definition serializePendingWrites :: "operation \<Rightarrow> 'v pending \<Rightarrow> 'v pending" where
  "serializePendingWrites op pm = pm\<lparr>pm_operations := pm_operations pm @ [op]\<rparr>"

definition emit_pending :: "pending_effect \<Rightarrow> 'v pending \<Rightarrow> 'v pending" where
  "emit_pending e pm = pm\<lparr>pm_effects := pm_effects pm @ [e]\<rparr>"

definition sameOwner :: "pending_owner \<Rightarrow> pending_owner \<Rightarrow> bool" where
  "sameOwner a b \<longleftrightarrow> ow_host a = ow_host b \<and> ow_userId a = ow_userId b"

definition owns :: "pending_queue \<Rightarrow> pending_owner \<Rightarrow> bool" where
  "owns q owner \<longleftrightarrow> pq_active q \<and> sameOwner owner (pq_owner q)"

definition activeOwns :: "'v pending \<Rightarrow> pending_owner \<Rightarrow> bool" where
  "activeOwns pm owner = (case pm_activeQueue pm of None \<Rightarrow> False | Some i \<Rightarrow> owns (queue_at pm i) owner)"

text \<open>The text that \<open>write\<close> would save now; \<open>None\<close> when it would delete.\<close>

definition content_of :: "'v pending_env \<Rightarrow> pending_queue \<Rightarrow> 'v option" where
  "content_of env q = (if pq_drafts q = [] then None else Some (pe_stringify env (draftsJson (jm_values (pq_drafts q)))))"

definition writeDrafts :: "'v pending_env \<Rightarrow> operation \<Rightarrow> nat \<Rightarrow> 'v pending \<Rightarrow> 'v pending" where
  "writeDrafts env op i pm = pm\<lparr>pm_running := Some (Run_persist op (content_of env (queue_at pm i)))\<rparr>"

definition recover :: "'v pending_env \<Rightarrow> message_user \<Rightarrow> pending_text \<Rightarrow> messages_state \<Rightarrow> messages_state" where
  "recover env user draft s = reduceMarkSendFailed
     (addOptimisticMessage s \<lparr>op_correlationId = ''recovered:'' @ pt_clientMessageId draft,
        op_clientMessageId = Some (pt_clientMessageId draft), op_channelId = pt_channelId draft, op_user = user,
        op_content = pt_content draft, op_replyTo = None, op_attachments = None, op_sticker = None,
        op_timestamp = pe_toISO env (pt_createdAt draft), op_uploading = False\<rparr>)
     (''recovered:'' @ pt_clientMessageId draft) (Some ''RECOVERED'')"

definition recoverDraft :: "'v pending_env \<Rightarrow> nat \<Rightarrow> pending_text \<Rightarrow> 'v pending \<Rightarrow> 'v pending" where
  "recoverDraft env i draft pm = (
     if js_has (pq_acknowledged (queue_at pm i)) (pt_clientMessageId draft) then pm
     else emit_pending (Recovered (pt_clientMessageId draft))
       ((on_queue i (\<lambda>q. q\<lparr>pq_drafts := jm_set (pq_drafts q) (pt_clientMessageId draft) draft\<rparr>) pm)
          \<lparr>pm_messages := recover env (pq_user (queue_at pm i)) draft (pm_messages pm)\<rparr>))"

definition endLoading :: "nat \<Rightarrow> 'v pending \<Rightarrow> 'v pending" where
  "endLoading i = on_queue i (\<lambda>q. q\<lparr>pq_loading := False, pq_acknowledged := []\<rparr>)"

definition settleLoaded :: "nat \<Rightarrow> bool \<Rightarrow> 'v pending \<Rightarrow> 'v pending" where
  "settleLoaded i ok pm = on_queue i (\<lambda>q. q\<lparr>pq_loaded := Some ok\<rparr>) (endLoading i pm)"

text \<open>The constructor: the queue is there at once, its load is an operation of the chain.\<close>

definition newQueue :: "pending_owner \<Rightarrow> message_user \<Rightarrow> int \<Rightarrow> pending_queue" where
  "newQueue owner user flr = \<lparr>pq_owner = owner, pq_user = user, pq_drafts = [], pq_active = True, pq_loading = True,
     pq_acknowledged = [], pq_retryFloor = flr, pq_loaded = None, pq_puts = []\<rparr>"

definition constructQueue :: "pending_owner \<Rightarrow> message_user \<Rightarrow> int \<Rightarrow> 'v pending \<Rightarrow> 'v pending" where
  "constructQueue owner user flr pm = serializePendingWrites (Op_load (length (pm_queues pm)))
     (pm\<lparr>pm_queues := pm_queues pm @ [newQueue owner user flr], pm_activeQueue := Some (length (pm_queues pm))\<rparr>)"

definition loadAnswer :: "'v pending_env \<Rightarrow> int \<Rightarrow> bool \<Rightarrow> 'v pending \<Rightarrow> 'v pending" where
  "loadAnswer env now ok pm = (case pm_running pm of
     Some (Run_load i) \<Rightarrow>
       (let pm0 = pm\<lparr>pm_running := None\<rparr>; q = queue_at pm i
        in if \<not> ok then settleLoaded i False pm0
           else if \<not> pq_active q then settleLoaded i True pm0
           else let val = jm_get (pm_store pm) (pq_owner q);
                    pm1 = endLoading i (fold (recoverDraft env i) (decode env val now (pq_retryFloor q)) pm0)
                in if val \<noteq> None then writeDrafts env (Op_load i) i pm1 else settleLoaded i True pm1)
   | _ \<Rightarrow> pm)"

text \<open>A call of \<open>put\<close> waits for the load; the rest of its body up to the chain is one step.\<close>

definition prunedDrafts :: "int \<Rightarrow> pending_queue \<Rightarrow> (string, pending_text) jmap" where
  "prunedDrafts now q = filter (\<lambda>e. \<not> pendingMessageExpired (fst e) now (pq_retryFloor q)) (pq_drafts q)"

definition putBody :: "'v pending_env \<Rightarrow> int \<Rightarrow> nat \<Rightarrow> pending_text \<Rightarrow> 'v pending \<Rightarrow> 'v pending" where
  "putBody env now i draft pm = (
     let q = queue_at pm i; cid = pt_clientMessageId draft
     in if \<not> pq_active q then emit_pending (Put_failed cid) pm
        else if pendingMessageExpired cid now (pq_retryFloor q) then emit_pending (Put_failed cid) pm
        else let drafts = jm_set (prunedDrafts now q) cid draft
          in if length drafts > PENDING_MESSAGE_MAX_COUNT \<or>
                pe_bytes env (pe_stringify env (draftsJson (jm_values drafts))) > PENDING_MESSAGE_MAX_BYTES
             then emit_pending (Put_failed cid) pm
             else serializePendingWrites (Op_write i cid) (on_queue i (\<lambda>q. q\<lparr>pq_drafts := drafts\<rparr>) pm))"

definition putResume :: "'v pending_env \<Rightarrow> int \<Rightarrow> nat \<Rightarrow> 'v pending \<Rightarrow> 'v pending" where
  "putResume env now i pm = (
     if \<not> i < length (pm_queues pm) then pm
     else case (pq_loaded (queue_at pm i), pq_puts (queue_at pm i)) of
       (Some ok, draft # rest) \<Rightarrow>
         (let pm1 = on_queue i (\<lambda>q. q\<lparr>pq_puts := rest\<rparr>) pm
          in if ok then putBody env now i draft pm1 else emit_pending (Put_failed (pt_clientMessageId draft)) pm1)
     | _ \<Rightarrow> pm)"

definition remove_draft :: "nat \<Rightarrow> string \<Rightarrow> 'v pending \<Rightarrow> 'v pending" where
  "remove_draft i cid pm = serializePendingWrites (Op_remove i cid)
     (on_queue i (\<lambda>q. if pq_loading q then q\<lparr>pq_acknowledged := js_add (pq_acknowledged q) cid\<rparr> else q) pm)"

definition deactivate :: "nat \<Rightarrow> bool \<Rightarrow> 'v pending \<Rightarrow> 'v pending" where
  "deactivate i discard pm = (
     let pm1 = on_queue i (\<lambda>q. q\<lparr>pq_active := False, pq_drafts := []\<rparr>) pm
     in if discard then serializePendingWrites (Op_delete i) pm1 else pm1)"

section \<open>The chain\<close>

definition startOperation :: "'v pending_env \<Rightarrow> operation \<Rightarrow> 'v pending \<Rightarrow> 'v pending" where
  "startOperation env op pm = (case op of
     Op_load i \<Rightarrow> pm\<lparr>pm_running := Some (Run_load i)\<rparr>
   | Op_write i cid \<Rightarrow> if pq_active (queue_at pm i) then writeDrafts env op i pm else emit_pending (Put_failed cid) pm
   | Op_remove i cid \<Rightarrow>
       if \<not> pq_active (queue_at pm i) \<or> \<not> jm_has (pq_drafts (queue_at pm i)) cid then pm
       else writeDrafts env op i (on_queue i (\<lambda>q. q\<lparr>pq_drafts := jm_delete (pq_drafts q) cid\<rparr>) pm)
   | Op_delete i \<Rightarrow> pm\<lparr>pm_running := Some (Run_persist op None)\<rparr>)"

definition nextOperation :: "'v pending_env \<Rightarrow> 'v pending \<Rightarrow> 'v pending" where
  "nextOperation env pm = (case (pm_running pm, pm_operations pm) of
     (None, op # rest) \<Rightarrow> startOperation env op (pm\<lparr>pm_operations := rest\<rparr>)
   | _ \<Rightarrow> pm)"

definition op_queue :: "operation \<Rightarrow> nat" where
  "op_queue op = (case op of Op_load i \<Rightarrow> i | Op_write i _ \<Rightarrow> i | Op_remove i _ \<Rightarrow> i | Op_delete i \<Rightarrow> i)"

definition store_write :: "pending_owner \<Rightarrow> 'v option \<Rightarrow> (pending_owner, 'v) jmap \<Rightarrow> (pending_owner, 'v) jmap" where
  "store_write owner val m = (case val of None \<Rightarrow> jm_delete m owner | Some v \<Rightarrow> jm_set m owner v)"

definition persistAnswer :: "bool \<Rightarrow> 'v pending \<Rightarrow> 'v pending" where
  "persistAnswer ok pm = (case pm_running pm of
     Some (Run_persist op val) \<Rightarrow>
       (let i = op_queue op;
            pm1 = pm\<lparr>pm_running := None,
              pm_store := (if ok then store_write (pq_owner (queue_at pm i)) val (pm_store pm) else pm_store pm)\<rparr>
        in case op of
             Op_load _ \<Rightarrow> settleLoaded i ok pm1
           | Op_write _ cid \<Rightarrow> emit_pending (if ok \<and> pq_active (queue_at pm1 i) then Put_saved cid else Put_failed cid) pm1
           | _ \<Rightarrow> pm1)
   | _ \<Rightarrow> pm)"

section \<open>The module\<close>

definition validFloor :: "rat option \<Rightarrow> int" where
  "validFloor flr = (if isSafeInteger (nullish flr 0) \<and> nullish flr 0 > 0 then \<lfloor>nullish flr 0\<rfloor> else 0)"

definition activatePendingMessages :: "pending_owner \<Rightarrow> message_user \<Rightarrow> bool \<Rightarrow> rat option \<Rightarrow> 'v pending \<Rightarrow> 'v pending" where
  "activatePendingMessages owner user supportsDeduplication flr pm = (
     let fl = validFloor flr;
         pm1 = pm\<lparr>pm_deduplication := supportsDeduplication, pm_retryFloor := fl\<rparr>
     in case pm_activeQueue pm1 of
          None \<Rightarrow> constructQueue owner user fl pm1
        | Some i \<Rightarrow>
            if owns (queue_at pm1 i) owner then on_queue i (\<lambda>q. q\<lparr>pq_retryFloor := fl\<rparr>) pm1
            else constructQueue owner user fl (deactivate i False pm1))"

definition deactivatePendingMessages :: "bool \<Rightarrow> 'v pending \<Rightarrow> 'v pending" where
  "deactivatePendingMessages discard pm = (
     let pm1 = pm\<lparr>pm_activeQueue := None, pm_deduplication := False, pm_retryFloor := 0\<rparr>
     in case pm_activeQueue pm of None \<Rightarrow> pm1 | Some i \<Rightarrow> deactivate i discard pm1)"

definition supportsMessageDeduplication :: "'v pending \<Rightarrow> pending_owner \<Rightarrow> bool" where
  "supportsMessageDeduplication pm owner \<longleftrightarrow> pm_deduplication pm \<and> activeOwns pm owner"

definition pendingMessageRetryFloor :: "'v pending \<Rightarrow> pending_owner \<Rightarrow> int" where
  "pendingMessageRetryFloor pm owner = (if activeOwns pm owner then pm_retryFloor pm else 0)"

definition savePendingText :: "pending_owner \<Rightarrow> pending_text \<Rightarrow> 'v pending \<Rightarrow> 'v pending" where
  "savePendingText owner draft pm = (case pm_activeQueue pm of
     None \<Rightarrow> emit_pending (Put_failed (pt_clientMessageId draft)) pm
   | Some i \<Rightarrow>
       if owns (queue_at pm i) owner then on_queue i (\<lambda>q. q\<lparr>pq_puts := pq_puts q @ [draft]\<rparr>) pm
       else emit_pending (Put_failed (pt_clientMessageId draft)) pm)"

definition recoveredPendingText :: "'v pending \<Rightarrow> pending_owner \<Rightarrow> string \<Rightarrow> pending_text option" where
  "recoveredPendingText pm owner correlationId = (
     if \<not> activeOwns pm owner \<or> take 10 correlationId \<noteq> ''recovered:'' then None
     else case pm_activeQueue pm of
       None \<Rightarrow> None
     | Some i \<Rightarrow> jm_get (pq_drafts (queue_at pm i)) (drop 10 correlationId))"

definition acknowledgePendingMessage :: "string option \<Rightarrow> 'v pending \<Rightarrow> 'v pending" where
  "acknowledgePendingMessage clientMessageId pm = (case (clientMessageId, pm_activeQueue pm) of
     (Some cid, Some i) \<Rightarrow> if cid = [] then pm else remove_draft i cid pm
   | _ \<Rightarrow> pm)"

section \<open>Runs\<close>

datatype pending_event =
    Activate pending_owner message_user bool "rat option"
  | Deactivate bool
  | Save pending_owner pending_text
  | Put_resumes int nat
  | Acknowledged "string option"
  | Operation_starts
  | Load_answers int bool
  | Persist_answers bool

definition pending_apply :: "'v pending_env \<Rightarrow> pending_event \<Rightarrow> 'v pending \<Rightarrow> 'v pending" where
  "pending_apply env e = (case e of
     Activate owner user dedup flr \<Rightarrow> activatePendingMessages owner user dedup flr
   | Deactivate discard \<Rightarrow> deactivatePendingMessages discard
   | Save owner draft \<Rightarrow> savePendingText owner draft
   | Put_resumes now i \<Rightarrow> putResume env now i
   | Acknowledged cid \<Rightarrow> acknowledgePendingMessage cid
   | Operation_starts \<Rightarrow> nextOperation env
   | Load_answers now ok \<Rightarrow> loadAnswer env now ok
   | Persist_answers ok \<Rightarrow> persistAnswer ok)"

text \<open>No read or write was refused.\<close>

definition answered :: "pending_event \<Rightarrow> bool" where
  "answered e = (case e of Load_answers _ ok \<Rightarrow> ok | Persist_answers ok \<Rightarrow> ok | _ \<Rightarrow> True)"

definition pending_run :: "'v pending_env \<Rightarrow> pending_event list \<Rightarrow> 'v pending \<Rightarrow> 'v pending" where
  "pending_run env es pm = fold (pending_apply env) es pm"

definition idle :: "'v pending \<Rightarrow> bool" where
  "idle pm \<longleftrightarrow> pm_operations pm = [] \<and> pm_running pm = None"

end
