(* ===== verification/Pending_Chain.thy ===== *)
theory Pending_Chain
  imports Pending_Messages
begin

text \<open>
  What every step of the outbox keeps: the fields it leaves alone, and the order of the chain of reads and
  writes (\<open>queues_ok\<close>): queues run in the order of the logins, the load of each first and once.
\<close>

section \<open>What the steps keep\<close>

subsection \<open>Fields\<close>

lemma on_queue_fields [simp]:
  "length (pm_queues (on_queue i f pm)) = length (pm_queues pm)"
  "pm_activeQueue (on_queue i f pm) = pm_activeQueue pm"
  "pm_operations (on_queue i f pm) = pm_operations pm"
  "pm_running (on_queue i f pm) = pm_running pm"
  "pm_store (on_queue i f pm) = pm_store pm"
  "pm_effects (on_queue i f pm) = pm_effects pm"
  by (simp_all add: on_queue_def)

lemma queue_at_on_queue [simp]:
  "i < length (pm_queues pm) \<Longrightarrow> queue_at (on_queue i f pm) j = (if j = i then f (queue_at pm i) else queue_at pm j)"
  by (simp add: on_queue_def queue_at_def nth_list_update)

lemma on_queue_at:
  "queue_at (on_queue i f pm) j = (if j = i \<and> i < length (pm_queues pm) then f (queue_at pm i) else queue_at pm j)"
  by (simp add: on_queue_def queue_at_def nth_list_update)

lemma queue_at_update [simp]:
  "queue_at (pm_activeQueue_update f pm) = queue_at pm" "queue_at (pm_running_update g pm) = queue_at pm"
  "queue_at (pm_operations_update h pm) = queue_at pm" "queue_at (pm_effects_update k pm) = queue_at pm"
  "queue_at (pm_store_update l pm) = queue_at pm" "queue_at (pm_messages_update n pm) = queue_at pm"
  "queue_at (pm_deduplication_update b pm) = queue_at pm" "queue_at (pm_retryFloor_update r pm) = queue_at pm"
  by (simp_all add: queue_at_def fun_eq_iff)

lemmas pending_helpers = serializePendingWrites_def emit_pending_def endLoading_def settleLoaded_def writeDrafts_def

text \<open>The operations under way, the running one first.\<close>

definition chain :: "'v pending \<Rightarrow> operation list" where
  "chain pm = (case pm_running pm of None \<Rightarrow> [] | Some (Run_load i) \<Rightarrow> [Op_load i] | Some (Run_persist op _) \<Rightarrow> [op])
     @ pm_operations pm"

text \<open>Recovering drafts changes the queue's own drafts, the rows and the effects.\<close>

definition same_but_drafts :: "nat \<Rightarrow> 'v pending \<Rightarrow> 'v pending \<Rightarrow> bool" where
  "same_but_drafts i pm pm' \<longleftrightarrow> length (pm_queues pm') = length (pm_queues pm) \<and> pm_activeQueue pm' = pm_activeQueue pm \<and>
     pm_operations pm' = pm_operations pm \<and> pm_running pm' = pm_running pm \<and> pm_store pm' = pm_store pm \<and>
     (\<forall>j. j \<noteq> i \<longrightarrow> queue_at pm' j = queue_at pm j) \<and>
     (\<exists>ds. queue_at pm' i = (queue_at pm i)\<lparr>pq_drafts := ds\<rparr>)"

lemma same_but_drafts_refl: "same_but_drafts i pm pm"
  unfolding same_but_drafts_def by (intro conjI exI [of _ "pq_drafts (queue_at pm i)"]) simp_all

lemma same_but_drafts_trans: "same_but_drafts i pm pm' \<Longrightarrow> same_but_drafts i pm' pm'' \<Longrightarrow> same_but_drafts i pm pm''"
  unfolding same_but_drafts_def by auto

lemma recoverDraft_same: "i < length (pm_queues pm) \<Longrightarrow> same_but_drafts i pm (recoverDraft env i d pm)"
  by (auto simp: recoverDraft_def same_but_drafts_refl emit_pending_def) (auto simp: same_but_drafts_def)

lemma recover_fold_same:
  "i < length (pm_queues pm) \<Longrightarrow> same_but_drafts i pm (fold (recoverDraft env i) ds pm)"
proof (induction ds arbitrary: pm)
  case (Cons d ds)
  then have same: "same_but_drafts i pm (recoverDraft env i d pm)" by (intro recoverDraft_same)
  then have "i < length (pm_queues (recoverDraft env i d pm))" using Cons.prems by (simp add: same_but_drafts_def)
  from same_but_drafts_trans [OF same Cons.IH [OF this]] show ?case by simp
qed (simp add: same_but_drafts_refl)

subsection \<open>The order of the chain\<close>

text \<open>The chain runs the queues in the order of the logins, the load of each first.\<close>

definition op_rank :: "operation \<Rightarrow> nat" where
  "op_rank op = 2 * op_queue op + (case op of Op_load _ \<Rightarrow> 0 | _ \<Rightarrow> 1)"

definition queues_ok :: "'v pending \<Rightarrow> bool" where
  "queues_ok pm \<longleftrightarrow>
     (\<forall>i. pm_activeQueue pm = Some i \<longrightarrow> Suc i = length (pm_queues pm)) \<and>
     (\<forall>i < length (pm_queues pm). pq_active (queue_at pm i) \<longleftrightarrow> pm_activeQueue pm = Some i) \<and>
     (\<forall>op \<in> set (chain pm). op_queue op < length (pm_queues pm)) \<and>
     sorted (map op_rank (chain pm)) \<and>
     (\<forall>i < length (pm_queues pm). count_list (chain pm) (Op_load i) = (if pq_loaded (queue_at pm i) = None then 1 else 0))"


lemma queues_ok_initial: "queues_ok (PENDING_INITIAL store messages)"
  by (simp add: queues_ok_def PENDING_INITIAL_def chain_def)

lemma queues_ok_cong:
  assumes "length (pm_queues pm') = length (pm_queues pm)" "pm_activeQueue pm' = pm_activeQueue pm" "chain pm' = chain pm"
    and "\<And>i. i < length (pm_queues pm) \<Longrightarrow> pq_active (queue_at pm' i) = pq_active (queue_at pm i) \<and> pq_loaded (queue_at pm' i) = pq_loaded (queue_at pm i)"
    and "queues_ok pm"
  shows "queues_ok pm'"
  using assms by (simp add: queues_ok_def)

lemma op_rank_bound: "op_queue op < n \<Longrightarrow> op_rank op < 2 * n"
  by (cases op) (auto simp: op_rank_def op_queue_def)

lemma queues_ok_append:
  assumes "queues_ok pm" and "Suc (op_queue op) = length (pm_queues pm)" and "op \<noteq> Op_load (op_queue op)"
  shows "queues_ok (serializePendingWrites op pm)"
proof -
  have chain: "chain (serializePendingWrites op pm) = chain pm @ [op]" by (simp add: chain_def serializePendingWrites_def)
  have rank: "op_rank op = 2 * op_queue op + 1" using assms(3) by (cases op) (auto simp: op_rank_def op_queue_def)
  have "op_rank x \<le> op_rank op" if "x \<in> set (chain pm)" for x
    using that assms(1,2) op_rank_bound [of x "length (pm_queues pm)"] rank by (auto simp: queues_ok_def)
  moreover have "op \<noteq> Op_load i" for i using assms(3) by (auto simp: op_queue_def)
  ultimately show ?thesis using assms(1,2) unfolding queues_ok_def chain
    by (auto simp: serializePendingWrites_def sorted_append queue_at_def)
qed

lemma queues_ok_drop:
  assumes "queues_ok pm" and "chain pm = op # chain pm'" and "op \<noteq> Op_load (op_queue op)"
    and "length (pm_queues pm') = length (pm_queues pm)" "pm_activeQueue pm' = pm_activeQueue pm"
    and "\<And>i. i < length (pm_queues pm) \<Longrightarrow> pq_active (queue_at pm' i) = pq_active (queue_at pm i) \<and> pq_loaded (queue_at pm' i) = pq_loaded (queue_at pm i)"
  shows "queues_ok pm'"
proof -
  have "op \<noteq> Op_load i" for i using assms(3) by (auto simp: op_queue_def)
  with assms show ?thesis by (simp add: queues_ok_def)
qed

lemma queues_ok_settle:
  assumes "queues_ok pm" and "chain pm = Op_load i # chain pm'"
    and "length (pm_queues pm') = length (pm_queues pm)" "pm_activeQueue pm' = pm_activeQueue pm"
    and "\<And>j. j < length (pm_queues pm) \<Longrightarrow> pq_active (queue_at pm' j) = pq_active (queue_at pm j) \<and>
          (if j = i then pq_loaded (queue_at pm' j) \<noteq> None else pq_loaded (queue_at pm' j) = pq_loaded (queue_at pm j))"
  shows "queues_ok pm'"
  using assms by (auto simp: queues_ok_def split: if_splits)

lemma running_in_chain:
  "pm_running pm = Some (Run_load i) \<Longrightarrow> chain pm = Op_load i # pm_operations pm"
  "pm_running pm = Some (Run_persist op v) \<Longrightarrow> chain pm = op # pm_operations pm"
  "pm_running pm = None \<Longrightarrow> chain pm = pm_operations pm"
  by (simp_all add: chain_def)

lemma queues_ok_bound:
  "queues_ok pm \<Longrightarrow> pm_running pm = Some (Run_load i) \<Longrightarrow> i < length (pm_queues pm)"
  "queues_ok pm \<Longrightarrow> pm_running pm = Some (Run_persist op v) \<Longrightarrow> op_queue op < length (pm_queues pm)"
  "queues_ok pm \<Longrightarrow> pm_activeQueue pm = Some j \<Longrightarrow> j < length (pm_queues pm) \<and> pq_active (queue_at pm j)"
  "queues_ok pm \<Longrightarrow> op \<in> set (pm_operations pm) \<Longrightarrow> op_queue op < length (pm_queues pm)"
  by (force simp: queues_ok_def chain_def op_queue_def)+


lemma chain_update [simp]:
  "chain (on_queue i f pm) = chain pm" "chain (emit_pending e pm) = chain pm" "chain (pm_activeQueue_update g pm) = chain pm"
  "chain (pm_store_update h pm) = chain pm" "chain (pm_deduplication_update b pm) = chain pm"
  "chain (pm_retryFloor_update r pm) = chain pm" "chain (pm_messages_update n pm) = chain pm"
  by (simp_all add: chain_def emit_pending_def)

lemma emit_pending_fields [simp]:
  "pm_queues (emit_pending e pm) = pm_queues pm" "pm_activeQueue (emit_pending e pm) = pm_activeQueue pm"
  "pm_operations (emit_pending e pm) = pm_operations pm" "pm_running (emit_pending e pm) = pm_running pm"
  "pm_store (emit_pending e pm) = pm_store pm" "queue_at (emit_pending e pm) = queue_at pm"
  "pm_effects (emit_pending e pm) = pm_effects pm @ [e]"
  by (simp_all add: emit_pending_def)

lemma serialize_fields [simp]:
  "pm_queues (serializePendingWrites op pm) = pm_queues pm" "pm_activeQueue (serializePendingWrites op pm) = pm_activeQueue pm"
  "pm_operations (serializePendingWrites op pm) = pm_operations pm @ [op]"
  "pm_running (serializePendingWrites op pm) = pm_running pm" "pm_store (serializePendingWrites op pm) = pm_store pm"
  "queue_at (serializePendingWrites op pm) = queue_at pm" "pm_effects (serializePendingWrites op pm) = pm_effects pm"
  "chain (serializePendingWrites op pm) = chain pm @ [op]"
  by (simp_all add: serializePendingWrites_def chain_def)

lemma settleLoaded_fields [simp]:
  "length (pm_queues (settleLoaded i ok pm)) = length (pm_queues pm)"
  "pm_activeQueue (settleLoaded i ok pm) = pm_activeQueue pm" "pm_operations (settleLoaded i ok pm) = pm_operations pm"
  "pm_running (settleLoaded i ok pm) = pm_running pm" "pm_store (settleLoaded i ok pm) = pm_store pm"
  "pm_effects (settleLoaded i ok pm) = pm_effects pm" "chain (settleLoaded i ok pm) = chain pm"
  "i < length (pm_queues pm) \<Longrightarrow> queue_at (settleLoaded i ok pm) j =
     (if j = i then (queue_at pm i)\<lparr>pq_loading := False, pq_acknowledged := [], pq_loaded := Some ok\<rparr> else queue_at pm j)"
  by (simp_all add: settleLoaded_def endLoading_def)

lemma queues_ok_on_queue:
  assumes "queues_ok pm"
    and "\<And>q. pq_active (f q) = pq_active q \<and> pq_loaded (f q) = pq_loaded q"
  shows "queues_ok (on_queue i f pm)"
proof (cases "i < length (pm_queues pm)")
  case True
  with assms show ?thesis by (intro queues_ok_cong [OF _ _ _ _ assms(1)]) auto
qed (simp add: on_queue_def assms(1))

lemma queues_ok_emit: "queues_ok pm \<Longrightarrow> queues_ok (emit_pending e pm)"
  by (rule queues_ok_cong [of _ pm]) simp_all

lemma queues_ok_construct:
  assumes ok: "queues_ok pm" and "pm_activeQueue pm = None"
  shows "queues_ok (constructQueue owner user flr pm)"
proof -
  let ?n = "length (pm_queues pm)"
  have chain: "chain (constructQueue owner user flr pm) = chain pm @ [Op_load ?n]"
    by (simp add: constructQueue_def chain_def)
  have at: "queue_at (constructQueue owner user flr pm) i = (if i = ?n then newQueue owner user flr else queue_at pm i)" if "i \<le> ?n" for i
    using that by (simp add: constructQueue_def queue_at_def serializePendingWrites_def nth_append)
  have new: "Op_load ?n \<notin> set (chain pm)" using ok by (force simp: queues_ok_def op_queue_def)
  have "op_rank x \<le> op_rank (Op_load ?n)" if "x \<in> set (chain pm)" for x
    using that ok op_rank_bound [of x ?n] by (auto simp: queues_ok_def op_rank_def op_queue_def)
  then have "sorted (map op_rank (chain pm @ [Op_load ?n]))"
    using ok by (auto simp: queues_ok_def sorted_append)
  moreover have "\<forall>op \<in> set (chain pm @ [Op_load ?n]). op_queue op < Suc ?n"
    using ok by (auto simp: queues_ok_def op_queue_def intro: less_SucI)
  moreover have "pq_active (queue_at (constructQueue owner user flr pm) i) \<longleftrightarrow> ?n = i" if "i < Suc ?n" for i
    using that ok assms(2) by (auto simp: at queues_ok_def newQueue_def)
  moreover have "count_list (chain pm @ [Op_load ?n]) (Op_load i) =
      (if pq_loaded (queue_at (constructQueue owner user flr pm) i) = None then 1 else 0)" if "i < Suc ?n" for i
    using that ok new by (auto simp: at queues_ok_def newQueue_def count_notin)
  ultimately show ?thesis unfolding queues_ok_def chain by (simp add: constructQueue_def)
qed

lemma queues_ok_deactivate:
  assumes ok: "queues_ok pm" and i: "pm_activeQueue pm = Some i"
  shows "queues_ok (deactivate i discard (pm_activeQueue_update (\<lambda>_. None) pm))"
proof -
  let ?pm1 = "on_queue i (\<lambda>q. q\<lparr>pq_active := False, pq_drafts := []\<rparr>) (pm_activeQueue_update (\<lambda>_. None) pm)"
  have "Suc i = length (pm_queues pm)" using assms by (simp add: queues_ok_def)
  then have ok1: "queues_ok ?pm1" using assms by (auto simp: queues_ok_def)
  moreover have "queues_ok (serializePendingWrites (Op_delete i) ?pm1)"
    by (rule queues_ok_append [OF ok1]) (simp_all add: op_queue_def \<open>Suc i = _\<close>)
  ultimately show ?thesis by (simp add: deactivate_def Let_def)
qed


lemma construct_forgets_active:
  "constructQueue owner user flr (deactivate i discard pm) =
     constructQueue owner user flr (deactivate i discard (pm_activeQueue_update (\<lambda>_. None) pm))"
  by (simp add: constructQueue_def deactivate_def on_queue_def serializePendingWrites_def Let_def)

lemma deactivate_fields [simp]:
  "length (pm_queues (deactivate i discard pm)) = length (pm_queues pm)"
  "pm_activeQueue (deactivate i discard pm) = pm_activeQueue pm"
  "pm_running (deactivate i discard pm) = pm_running pm"
  "pm_store (deactivate i discard pm) = pm_store pm"
  "pm_effects (deactivate i discard pm) = pm_effects pm"
  "pm_operations (deactivate i discard pm) = pm_operations pm @ (if discard then [Op_delete i] else [])"
  "i < length (pm_queues pm) \<Longrightarrow> queue_at (deactivate i discard pm) j =
     (if j = i then (queue_at pm i)\<lparr>pq_active := False, pq_drafts := []\<rparr> else queue_at pm j)"
  by (simp_all add: deactivate_def Let_def)

lemma queues_ok_activate: "queues_ok pm \<Longrightarrow> queues_ok (activatePendingMessages owner user dedup flr pm)"
proof -
  assume ok: "queues_ok pm"
  define pm1 where "pm1 = pm\<lparr>pm_deduplication := dedup, pm_retryFloor := validFloor flr\<rparr>"
  have ok1: "queues_ok pm1" unfolding pm1_def by (rule queues_ok_cong [OF _ _ _ _ ok]) simp_all
  show ?thesis
  proof (cases "pm_activeQueue pm1")
    case None
    with queues_ok_construct [OF ok1 None] show ?thesis by (simp add: activatePendingMessages_def pm1_def Let_def)
  next
    case (Some i)
    have "queues_ok (constructQueue owner user f (deactivate i False pm1))" for f
      by (subst construct_forgets_active) (intro queues_ok_construct queues_ok_deactivate ok1 Some, simp)
    moreover have "queues_ok (on_queue i (\<lambda>q. q\<lparr>pq_retryFloor := f\<rparr>) pm1)" for f
      by (rule queues_ok_on_queue [OF ok1]) simp
    ultimately show ?thesis using Some by (simp add: activatePendingMessages_def pm1_def Let_def)
  qed
qed

lemma queues_ok_deactivateAll: "queues_ok pm \<Longrightarrow> queues_ok (deactivatePendingMessages discard pm)"
proof -
  assume ok: "queues_ok pm"
  show ?thesis
  proof (cases "pm_activeQueue pm")
    case None
    with ok show ?thesis
      by (intro queues_ok_cong [OF _ _ _ _ ok]) (simp_all add: deactivatePendingMessages_def Let_def)
  next
    case (Some i)
    with ok have "i < length (pm_queues pm)" by (simp add: queues_ok_bound)
    with Some show ?thesis
      by (intro queues_ok_cong [OF _ _ _ _ queues_ok_deactivate [OF ok Some, of discard]])
        (simp_all add: deactivatePendingMessages_def chain_def Let_def)
  qed
qed

lemma queues_ok_putResume:
  assumes ok: "queues_ok pm"
  shows "queues_ok (putResume env now i pm)"
proof -
  have body: "queues_ok (putBody env now i d pm')" if "queues_ok pm'" "i < length (pm_queues pm')" for d and pm' :: "'a pending"
  proof (cases "pq_active (queue_at pm' i)")
    case True
    with that have last: "Suc i = length (pm_queues pm')" by (auto simp: queues_ok_def)
    have "queues_ok (serializePendingWrites (Op_write i c) (on_queue i (\<lambda>q. q\<lparr>pq_drafts := ds\<rparr>) pm'))" for c ds
      by (rule queues_ok_append [OF queues_ok_on_queue [OF that(1)]]) (simp_all add: op_queue_def last)
    with True that(1) show ?thesis by (simp add: putBody_def Let_def queues_ok_emit)
  qed (simp add: putBody_def that(1) queues_ok_emit)
  have "queues_ok (on_queue i (\<lambda>q. q\<lparr>pq_puts := r\<rparr>) pm)" for r by (rule queues_ok_on_queue [OF ok]) simp
  with ok show ?thesis
    by (simp add: putResume_def Let_def body queues_ok_emit split: option.split list.split)
qed

lemma queues_ok_acknowledge: "queues_ok pm \<Longrightarrow> queues_ok (acknowledgePendingMessage cid pm)"
proof -
  assume ok: "queues_ok pm"
  have "queues_ok (remove_draft i c pm)" if "pm_activeQueue pm = Some i" for i c
    unfolding remove_draft_def
    by (rule queues_ok_append [OF queues_ok_on_queue [OF ok]]) (use that ok in \<open>simp_all add: op_queue_def queues_ok_def\<close>)
  with ok show ?thesis by (auto simp: acknowledgePendingMessage_def split: option.split)
qed

lemma queues_ok_save: "queues_ok pm \<Longrightarrow> queues_ok (savePendingText owner d pm)"
  by (auto simp: savePendingText_def queues_ok_emit intro: queues_ok_on_queue split: option.split)

lemma queues_ok_next:
  assumes ok: "queues_ok pm"
  shows "queues_ok (nextOperation env pm)"
proof (cases "pm_running pm = None \<and> pm_operations pm \<noteq> []")
  case True
  then obtain op rest where ops: "pm_operations pm = op # rest" by (cases "pm_operations pm") auto
  let ?pm1 = "pm\<lparr>pm_operations := rest\<rparr>"
  have ch: "chain pm = op # rest" using True ops by (simp add: chain_def)
  have i: "op_queue op < length (pm_queues pm)" using queues_ok_bound(4) [OF ok, of op] ops by simp
  have run: "queues_ok (pm'\<lparr>pm_running := Some r\<rparr>)"
    if "chain (pm'\<lparr>pm_running := Some r\<rparr>) = chain pm" "length (pm_queues pm') = length (pm_queues pm)" "pm_activeQueue pm' = pm_activeQueue pm"
      "\<And>j. j < length (pm_queues pm) \<Longrightarrow> pq_active (queue_at pm' j) = pq_active (queue_at pm j) \<and> pq_loaded (queue_at pm' j) = pq_loaded (queue_at pm j)"
    for r and pm' :: "'a pending"
    by (rule queues_ok_cong [OF _ _ _ _ ok]) (use that in simp_all)
  have drop: "queues_ok pm'" if "pm_operations pm' = rest" "pm_running pm' = None" "queue_at pm' = queue_at pm"
      "length (pm_queues pm') = length (pm_queues pm)" "pm_activeQueue pm' = pm_activeQueue pm" "op \<noteq> Op_load (op_queue op)" for pm' :: "'a pending"
    by (rule queues_ok_drop [OF ok, of op]) (use that ch in \<open>simp_all add: chain_def\<close>)
  have "queues_ok (startOperation env op ?pm1)"
  proof (cases op)
    case (Op_load j)
    then show ?thesis using ch by (auto simp: startOperation_def chain_def intro!: run)
  next
    case (Op_write j c)
    then show ?thesis using ch True by (auto simp: startOperation_def writeDrafts_def chain_def op_queue_def intro!: run drop)
  next
    case (Op_remove j c)
    then show ?thesis using ch True i by (auto simp: startOperation_def writeDrafts_def chain_def op_queue_def intro!: run drop split: if_splits)
  next
    case (Op_delete j)
    then show ?thesis using ch by (auto simp: startOperation_def chain_def intro!: run)
  qed
  with True ops show ?thesis by (simp add: nextOperation_def)
qed (auto simp: nextOperation_def ok split: option.split list.split)


text \<open>The state right after a load was answered: the recovered drafts are in the queue.\<close>

definition loadedState :: "'v pending_env \<Rightarrow> int \<Rightarrow> nat \<Rightarrow> 'v pending \<Rightarrow> 'v pending" where
  "loadedState env now i pm = endLoading i (fold (recoverDraft env i)
     (decode env (jm_get (pm_store pm) (pq_owner (queue_at pm i))) now (pq_retryFloor (queue_at pm i))) (pm\<lparr>pm_running := None\<rparr>))"

lemma loadedState_fields:
  assumes "i < length (pm_queues pm)"
  shows "length (pm_queues (loadedState env now i pm)) = length (pm_queues pm)"
    "pm_activeQueue (loadedState env now i pm) = pm_activeQueue pm" "pm_operations (loadedState env now i pm) = pm_operations pm"
    "pm_running (loadedState env now i pm) = None" "pm_store (loadedState env now i pm) = pm_store pm"
    "j \<noteq> i \<Longrightarrow> queue_at (loadedState env now i pm) j = queue_at pm j"
    "\<exists>ds. queue_at (loadedState env now i pm) i = (queue_at pm i)\<lparr>pq_drafts := ds, pq_loading := False, pq_acknowledged := []\<rparr>"
proof -
  let ?ds = "decode env (jm_get (pm_store pm) (pq_owner (queue_at pm i))) now (pq_retryFloor (queue_at pm i))"
  have "same_but_drafts i (pm\<lparr>pm_running := None\<rparr>) (fold (recoverDraft env i) ?ds (pm\<lparr>pm_running := None\<rparr>))"
    by (rule recover_fold_same) (simp add: assms)
  note same = this [unfolded same_but_drafts_def]
  from same assms show "length (pm_queues (loadedState env now i pm)) = length (pm_queues pm)"
    "pm_activeQueue (loadedState env now i pm) = pm_activeQueue pm" "pm_operations (loadedState env now i pm) = pm_operations pm"
    "pm_running (loadedState env now i pm) = None" "pm_store (loadedState env now i pm) = pm_store pm"
    "j \<noteq> i \<Longrightarrow> queue_at (loadedState env now i pm) j = queue_at pm j"
    by (simp_all add: loadedState_def endLoading_def)
  from same assms show "\<exists>ds. queue_at (loadedState env now i pm) i = (queue_at pm i)\<lparr>pq_drafts := ds, pq_loading := False, pq_acknowledged := []\<rparr>"
    by (auto simp: loadedState_def endLoading_def)
qed

lemma loadAnswer_cases:
  assumes "pm_running pm = Some (Run_load i)"
  shows "loadAnswer env now ok pm =
    (if \<not> ok then settleLoaded i False (pm\<lparr>pm_running := None\<rparr>)
     else if \<not> pq_active (queue_at pm i) then settleLoaded i True (pm\<lparr>pm_running := None\<rparr>)
     else if jm_get (pm_store pm) (pq_owner (queue_at pm i)) \<noteq> None
       then writeDrafts env (Op_load i) i (loadedState env now i pm)
       else settleLoaded i True (loadedState env now i pm))"
  using assms by (simp add: loadAnswer_def loadedState_def Let_def)

lemma queues_ok_load:
  assumes ok: "queues_ok pm"
  shows "queues_ok (loadAnswer env now ans pm)"
proof (cases "\<exists>i. pm_running pm = Some (Run_load i)")
  case True
  then obtain i where run: "pm_running pm = Some (Run_load i)" by blast
  have i: "i < length (pm_queues pm)" using ok run by (rule queues_ok_bound)
  note ch = running_in_chain(1) [OF run]
  note ls = loadedState_fields [OF i, where env = env and now = now]
  obtain ds where qi: "queue_at (loadedState env now i pm) i = (queue_at pm i)\<lparr>pq_drafts := ds, pq_loading := False, pq_acknowledged := []\<rparr>"
    using ls(7) by blast
  have at: "pq_active (queue_at (loadedState env now i pm) j) = pq_active (queue_at pm j) \<and>
      pq_loaded (queue_at (loadedState env now i pm) j) = pq_loaded (queue_at pm j)" for j
    using qi ls(6) by (cases "j = i") simp_all
  have "queues_ok (settleLoaded i b (pm\<lparr>pm_running := None\<rparr>))" for b
    by (rule queues_ok_settle [OF ok, of i]) (use i ch in \<open>simp_all add: chain_def\<close>)
  moreover have "queues_ok (settleLoaded i b (loadedState env now i pm))" for b
    by (rule queues_ok_settle [OF ok, of i]) (use i ch ls at in \<open>simp_all add: chain_def\<close>)
  moreover have "queues_ok (writeDrafts env (Op_load i) i (loadedState env now i pm))"
    by (rule queues_ok_cong [OF _ _ _ _ ok]) (use i ch ls at in \<open>simp_all add: writeDrafts_def chain_def\<close>)
  ultimately show ?thesis by (simp add: loadAnswer_cases [OF run])
qed (auto simp: loadAnswer_def ok split: option.split running.split)

lemma queues_ok_persist:
  assumes ok: "queues_ok pm"
  shows "queues_ok (persistAnswer ans pm)"
proof (cases "\<exists>op v. pm_running pm = Some (Run_persist op v)")
  case True
  then obtain op v where run: "pm_running pm = Some (Run_persist op v)" by blast
  have i: "op_queue op < length (pm_queues pm)" using ok run by (rule queues_ok_bound)
  note ch = running_in_chain(2) [OF run]
  have settle: "queues_ok (settleLoaded j b (pm\<lparr>pm_running := None, pm_store := st\<rparr>))" if "op = Op_load j" for j b st
    by (rule queues_ok_settle [OF ok, of j]) (use i ch that in \<open>simp_all add: chain_def op_queue_def\<close>)
  have drop: "queues_ok (pm\<lparr>pm_running := None, pm_store := st\<rparr>)" if "op \<noteq> Op_load (op_queue op)" for st
    by (rule queues_ok_drop [OF ok, of op]) (use ch that in \<open>simp_all add: chain_def\<close>)
  have same: "pm\<lparr>pm_running := None, pm_store := pm_store pm\<rparr> = pm\<lparr>pm_running := None\<rparr>" by simp
  show ?thesis using run
    by (cases op) (auto simp: persistAnswer_def Let_def op_queue_def
        intro!: settle drop queues_ok_emit settle [where st = "pm_store pm", unfolded same] drop [where st = "pm_store pm", unfolded same])
qed (auto simp: persistAnswer_def ok split: option.split running.split)

lemmas queues_ok_steps = queues_ok_activate queues_ok_deactivateAll queues_ok_save queues_ok_putResume
  queues_ok_acknowledge queues_ok_next queues_ok_load queues_ok_persist

definition pending_step :: "'v pending_env \<Rightarrow> 'v pending \<Rightarrow> pending_event \<Rightarrow> 'v pending \<Rightarrow> bool" where
  "pending_step env pm e pm' \<longleftrightarrow> pm' = pending_apply env e pm"

interpretation pmq: invariant_system "pending_step env" "PENDING_INITIAL store messages" queues_ok
proof
  fix s t :: "'a pending" and e
  assume "queues_ok s" "pending_step env s e t"
  then show "queues_ok t" by (cases e) (simp_all add: pending_step_def pending_apply_def queues_ok_steps)
qed (rule queues_ok_initial)

lemma pending_runs: "runs (pending_step env) pm es (pending_run env es pm)"
  by (induction es arbitrary: pm) (auto simp: pending_run_def pending_step_def intro: runs_Nil runs_Cons)

lemma pending_run_ok: "queues_ok pm \<Longrightarrow> queues_ok (pending_run env es pm)"
  using pmq.runs_inv [OF pending_runs] .

lemma pending_reachable_ok: "queues_ok (pending_run env es (PENDING_INITIAL store messages))"
  by (rule pmq.reachable_inv [OF pending_runs])

end
