(* ===== verification/Pending_Outbox.thy ===== *)
theory Pending_Outbox
  imports Pending_Chain
begin

text \<open>
  What the outbox promises: the saved copy follows the drafts, a discarding logout leaves nothing, an
  acknowledged message leaves, what one session saved the next gets back, and new ids are accepted.
\<close>

section \<open>The saved copy\<close>
























section \<open>Discarding\<close>

text \<open>What a step does to the queues that were there before it, to the deletes in the chain, and to the
  write under way.\<close>

lemma construct_queue_at:
  "i < length (pm_queues pm) \<Longrightarrow> queue_at (constructQueue owner user flr pm) i = queue_at pm i"
  by (simp add: constructQueue_def queue_at_def serializePendingWrites_def nth_append)

lemma construct_fields [simp]:
  "length (pm_queues (constructQueue owner user flr pm)) = Suc (length (pm_queues pm))"
  "pm_activeQueue (constructQueue owner user flr pm) = Some (length (pm_queues pm))"
  "pm_running (constructQueue owner user flr pm) = pm_running pm"
  "pm_store (constructQueue owner user flr pm) = pm_store pm"
  "pm_effects (constructQueue owner user flr pm) = pm_effects pm"
  "pm_operations (constructQueue owner user flr pm) = pm_operations pm @ [Op_load (length (pm_queues pm))]"
  "queue_at (constructQueue owner user flr pm) (length (pm_queues pm)) = newQueue owner user flr"
  by (simp_all add: constructQueue_def queue_at_def serializePendingWrites_def)

lemma pending_apply_queue:
  assumes ok: "queues_ok pm" and i: "i < length (pm_queues pm)"
  shows "i < length (pm_queues (pending_apply env e pm)) \<and>
    pq_owner (queue_at (pending_apply env e pm) i) = pq_owner (queue_at pm i) \<and>
    (pq_active (queue_at (pending_apply env e pm) i) \<longrightarrow> pq_active (queue_at pm i))"
proof (cases e)
  case (Activate owner user dedup flr)
  then show ?thesis using i queues_ok_bound(3) [OF ok]
    by (auto simp: pending_apply_def activatePendingMessages_def Let_def construct_queue_at split: option.split)
next
  case (Deactivate d)
  then show ?thesis using i queues_ok_bound(3) [OF ok]
    by (auto simp: pending_apply_def deactivatePendingMessages_def Let_def split: option.split)
next
  case (Save owner d)
  then show ?thesis using i queues_ok_bound(3) [OF ok] by (auto simp: pending_apply_def savePendingText_def split: option.split)
next
  case (Put_resumes now j)
  then show ?thesis using i by (auto simp: pending_apply_def putResume_def putBody_def Let_def split: option.split list.split)
next
  case (Acknowledged c)
  then show ?thesis using i queues_ok_bound(3) [OF ok]
    by (auto simp: pending_apply_def acknowledgePendingMessage_def remove_draft_def split: option.split)
next
  case Operation_starts
  then show ?thesis using i queues_ok_bound(4) [OF ok]
    by (auto simp: pending_apply_def nextOperation_def startOperation_def writeDrafts_def on_queue_at
        split: option.split list.split operation.split)
next
  case (Load_answers now b)
  show ?thesis
  proof (cases "\<exists>j. pm_running pm = Some (Run_load j)")
    case True
    then obtain j where run: "pm_running pm = Some (Run_load j)" by blast
    have j: "j < length (pm_queues pm)" using ok run by (rule queues_ok_bound)
    note ls = loadedState_fields [OF j, where env = env and now = now]
    obtain ds where "queue_at (loadedState env now j pm) j = (queue_at pm j)\<lparr>pq_drafts := ds, pq_loading := False, pq_acknowledged := []\<rparr>"
      using ls(7) by blast
    with ls i j Load_answers show ?thesis
      by (cases "i = j") (auto simp: pending_apply_def loadAnswer_cases [OF run] writeDrafts_def)
  qed (use i Load_answers in \<open>auto simp: pending_apply_def loadAnswer_def split: option.split running.split\<close>)
next
  case (Persist_answers b)
  then show ?thesis using i queues_ok_bound(2) [OF ok]
    by (auto simp: pending_apply_def persistAnswer_def Let_def op_queue_def split: option.split running.split operation.splits if_splits)
qed

text \<open>The calls leave the write under way alone and only add operations.\<close>

definition is_call :: "pending_event \<Rightarrow> bool" where
  "is_call e = (case e of Operation_starts \<Rightarrow> False | Load_answers _ _ \<Rightarrow> False | Persist_answers _ \<Rightarrow> False | _ \<Rightarrow> True)"

lemma pending_call:
  assumes "is_call e"
  shows "pm_running (pending_apply env e pm) = pm_running pm \<and> pm_store (pending_apply env e pm) = pm_store pm \<and>
    set (pm_operations pm) \<subseteq> set (pm_operations (pending_apply env e pm))"
  using assms by (cases e) (auto simp: is_call_def pending_apply_def activatePendingMessages_def deactivatePendingMessages_def savePendingText_def
      putResume_def putBody_def acknowledgePendingMessage_def remove_draft_def Let_def split: option.split list.split)

lemma pending_apply_chain:
  assumes ok: "queues_ok pm" and del: "Op_delete j \<in> set (chain pm)"
  shows "Op_delete j \<in> set (chain (pending_apply env e pm)) \<or>
    (\<exists>b v. e = Persist_answers b \<and> pm_running pm = Some (Run_persist (Op_delete j) v))"
proof (cases e)
  case (Load_answers now b)
  show ?thesis
  proof (cases "\<exists>k. pm_running pm = Some (Run_load k)")
    case True
    then obtain k where run: "pm_running pm = Some (Run_load k)" by blast
    have k: "k < length (pm_queues pm)" using ok run by (rule queues_ok_bound)
    show ?thesis using del loadedState_fields(3,4) [OF k, where env = env and now = now] Load_answers
      by (auto simp: pending_apply_def loadAnswer_cases [OF run] writeDrafts_def chain_def run)
  qed (use del Load_answers in \<open>auto simp: pending_apply_def loadAnswer_def split: option.split running.split\<close>)
next
  case (Persist_answers b)
  show ?thesis
  proof (cases "\<exists>op v. pm_running pm = Some (Run_persist op v)")
    case True
    then obtain op v where "pm_running pm = Some (Run_persist op v)" by blast
    with del Persist_answers show ?thesis by (cases op) (auto simp: pending_apply_def persistAnswer_def Let_def chain_def)
  qed (use del Persist_answers in \<open>auto simp: pending_apply_def persistAnswer_def split: option.split running.split\<close>)
next
  case Operation_starts
  show ?thesis
  proof (cases "pm_running pm = None \<and> pm_operations pm \<noteq> []")
    case True
    then obtain op rest where "pm_running pm = None" "pm_operations pm = op # rest" by (cases "pm_operations pm") auto
    with del Operation_starts show ?thesis
      by (cases op) (auto simp: pending_apply_def nextOperation_def startOperation_def writeDrafts_def chain_def)
  qed (use del Operation_starts in \<open>auto simp: pending_apply_def nextOperation_def split: option.split list.split\<close>)
qed (use del pending_call [of e env pm] in \<open>auto simp: is_call_def chain_def\<close>)

text \<open>Nothing of an owner is saved, or a delete for it is still to come; and no queue of the owner is in use.\<close>

definition no_copy :: "'v pending \<Rightarrow> pending_owner \<Rightarrow> bool" where
  "no_copy pm owner \<longleftrightarrow> jm_get (pm_store pm) owner = None \<and>
     (\<forall>op v. pm_running pm = Some (Run_persist op (Some v)) \<longrightarrow> pq_owner (queue_at pm (op_queue op)) \<noteq> owner)"

definition discarded :: "'v pending \<Rightarrow> pending_owner \<Rightarrow> bool" where
  "discarded pm owner \<longleftrightarrow>
     (\<forall>i < length (pm_queues pm). pq_owner (queue_at pm i) = owner \<longrightarrow> \<not> pq_active (queue_at pm i)) \<and>
     (\<forall>j v. pm_running pm = Some (Run_persist (Op_delete j) v) \<longrightarrow> v = None) \<and>
     ((\<exists>j < length (pm_queues pm). pq_owner (queue_at pm j) = owner \<and> Op_delete j \<in> set (chain pm)) \<or> no_copy pm owner)"

lemma delete_writes_nothing:
  assumes "queues_ok pm" and "\<forall>j v. pm_running pm = Some (Run_persist (Op_delete j) v) \<longrightarrow> v = None"
  shows "\<forall>j v. pm_running (pending_apply env e pm) = Some (Run_persist (Op_delete j) v) \<longrightarrow> v = None"
proof (cases e)
  case (Load_answers now b)
  show ?thesis
  proof (cases "\<exists>k. pm_running pm = Some (Run_load k)")
    case True
    then obtain k where run: "pm_running pm = Some (Run_load k)" by blast
    have k: "k < length (pm_queues pm)" using assms(1) run by (rule queues_ok_bound)
    show ?thesis using loadedState_fields(4) [OF k, where env = env and now = now] Load_answers
      by (simp add: pending_apply_def loadAnswer_cases [OF run] writeDrafts_def)
  qed (use assms Load_answers in \<open>auto simp: pending_apply_def loadAnswer_def split: option.split running.split\<close>)
next
  case (Persist_answers b)
  then show ?thesis using assms(2)
    by (simp add: pending_apply_def persistAnswer_def Let_def split: option.split running.split operation.split)
next
  case Operation_starts
  then show ?thesis using assms(2)
    by (simp add: pending_apply_def nextOperation_def startOperation_def writeDrafts_def split: option.split list.split operation.split)
qed (use assms(2) pending_call [of e env pm] in \<open>auto simp: is_call_def\<close>)

lemma deletes_reachable:
  "\<forall>j v. pm_running (pending_run env es (PENDING_INITIAL store messages)) = Some (Run_persist (Op_delete j) v) \<longrightarrow> v = None"
proof (induction es rule: rev_induct)
  case (snoc e es)
  from delete_writes_nothing [OF pending_reachable_ok snoc, of env e] show ?case by (simp add: pending_run_def)
qed (simp add: pending_run_def PENDING_INITIAL_def)

lemma no_copy_step:
  assumes ok: "queues_ok pm" and none: "no_copy pm owner"
    and inactive: "\<forall>i < length (pm_queues pm). pq_owner (queue_at pm i) = owner \<longrightarrow> \<not> pq_active (queue_at pm i)"
  shows "no_copy (pending_apply env e pm) owner"
proof -
  have same: "pq_owner (queue_at (pending_apply env e pm) (op_queue op)) = pq_owner (queue_at pm (op_queue op))"
    if "op_queue op < length (pm_queues pm)" for op using pending_apply_queue [OF ok that] by simp
  have off: "\<not> pq_active (queue_at pm k) \<or> pq_owner (queue_at pm k) \<noteq> owner" if "k < length (pm_queues pm)" for k
    using inactive that by blast
  have bound: "op_queue op < length (pm_queues pm)" if "op \<in> set (chain pm)" for op using ok that by (simp add: queues_ok_def)
  show ?thesis
  proof (cases "is_call e")
    case True
    then show ?thesis using none pending_call [OF True, of env pm] same queues_ok_bound(2) [OF ok] by (auto simp: no_copy_def)
  next
    case False
    then consider "e = Operation_starts" | now b where "e = Load_answers now b" | b where "e = Persist_answers b"
      by (cases e) (auto simp: is_call_def)
    then show ?thesis
    proof cases
      case 1
      show ?thesis
      proof (cases "pm_running pm = None \<and> pm_operations pm \<noteq> []")
        case True
        then obtain op rest where ops: "pm_running pm = None" "pm_operations pm = op # rest" by (cases "pm_operations pm") auto
        have j: "op_queue op < length (pm_queues pm)" using queues_ok_bound(4) [OF ok] ops by simp
        show ?thesis using none ops 1 j off [OF j] same
          by (cases op) (auto simp: no_copy_def pending_apply_def nextOperation_def startOperation_def writeDrafts_def op_queue_def)
      qed (use none 1 in \<open>auto simp: no_copy_def pending_apply_def nextOperation_def split: option.split list.split\<close>)
    next
      case 2
      show ?thesis
      proof (cases "\<exists>k. pm_running pm = Some (Run_load k)")
        case True
        then obtain k where run: "pm_running pm = Some (Run_load k)" by blast
        have k: "k < length (pm_queues pm)" using ok run by (rule queues_ok_bound)
        note ls = loadedState_fields(4,5) [OF k, where env = env and now = now]
        show ?thesis using none 2 ls off [OF k] same [of "Op_load k"] k
          by (auto simp: no_copy_def pending_apply_def loadAnswer_cases [OF run] writeDrafts_def op_queue_def run)
      qed (use none 2 in \<open>auto simp: no_copy_def pending_apply_def loadAnswer_def split: option.split running.split\<close>)
    next
      case 3
      show ?thesis
      proof (cases "\<exists>op v. pm_running pm = Some (Run_persist op v)")
        case True
        then obtain op v where run: "pm_running pm = Some (Run_persist op v)" by blast
        show ?thesis using none 3 run
          by (cases op; cases v) (auto simp: no_copy_def pending_apply_def persistAnswer_def Let_def store_write_def op_queue_def)
      qed (use none 3 in \<open>auto simp: no_copy_def pending_apply_def persistAnswer_def split: option.split running.split\<close>)
    qed
  qed
qed

lemma pending_apply_new:
  assumes ok: "queues_ok pm" and i: "i < length (pm_queues (pending_apply env e pm))" "\<not> i < length (pm_queues pm)"
  shows "\<exists>owner user d f. e = Activate owner user d f \<and> pq_owner (queue_at (pending_apply env e pm) i) = owner"
proof (cases e)
  case (Activate owner user d f)
  let ?pm1 = "pm\<lparr>pm_deduplication := d, pm_retryFloor := validFloor f\<rparr>"
  have new: "pq_owner (queue_at (constructQueue owner user g pm') i) = owner"
    if "length (pm_queues pm') = length (pm_queues pm)" "i \<le> length (pm_queues pm)" for g and pm' :: "'a pending"
  proof -
    have "i = length (pm_queues pm')" using that i(2) by simp
    then show ?thesis by (simp add: newQueue_def)
  qed
  show ?thesis
  proof (cases "pm_activeQueue pm")
    case None
    with i Activate new [of ?pm1] show ?thesis by (auto simp: pending_apply_def activatePendingMessages_def Let_def)
  next
    case (Some j)
    have "\<not> owns (queue_at pm j) owner" "i \<le> length (pm_queues pm)"
      using i Activate Some by (auto simp: pending_apply_def activatePendingMessages_def Let_def split: if_splits)
    with Some Activate new [of "deactivate j False ?pm1" "validFloor f"] show ?thesis
      by (simp add: pending_apply_def activatePendingMessages_def Let_def)
  qed
next
  case (Load_answers now b)
  show ?thesis
  proof (cases "\<exists>k. pm_running pm = Some (Run_load k)")
    case True
    then obtain k where run: "pm_running pm = Some (Run_load k)" by blast
    have k: "k < length (pm_queues pm)" using ok run by (rule queues_ok_bound)
    show ?thesis using i loadedState_fields(1) [OF k, where env = env and now = now] Load_answers
      by (simp add: pending_apply_def loadAnswer_cases [OF run] writeDrafts_def split: if_splits)
  qed (use i Load_answers in \<open>auto simp: pending_apply_def loadAnswer_def split: option.splits running.splits\<close>)
qed (use i in \<open>auto simp: pending_apply_def deactivatePendingMessages_def savePendingText_def putResume_def putBody_def
      acknowledgePendingMessage_def remove_draft_def nextOperation_def startOperation_def writeDrafts_def persistAnswer_def Let_def
      split: option.splits list.splits operation.splits running.splits if_splits\<close>)

lemma discarded_step:
  assumes ok: "queues_ok pm" and dis: "discarded pm owner" and ans: "answered e"
    and other: "\<And>user d f. e \<noteq> Activate owner user d f"
  shows "discarded (pending_apply env e pm) owner"
proof -
  let ?pm' = "pending_apply env e pm"
  have off: "\<not> pq_active (queue_at ?pm' i)" if "i < length (pm_queues ?pm')" "pq_owner (queue_at ?pm' i) = owner" for i
  proof (cases "i < length (pm_queues pm)")
    case True
    with pending_apply_queue [OF ok True, of env e] dis that show ?thesis by (auto simp: discarded_def)
  next
    case False
    with pending_apply_new [OF ok that(1) False] that(2) other show ?thesis by auto
  qed
  have null: "\<forall>j v. pm_running pm = Some (Run_persist (Op_delete j) v) \<longrightarrow> v = None" using dis by (simp add: discarded_def)
  have "(\<exists>j < length (pm_queues ?pm'). pq_owner (queue_at ?pm' j) = owner \<and> Op_delete j \<in> set (chain ?pm')) \<or> no_copy ?pm' owner"
  proof (cases "no_copy pm owner")
    case True
    with no_copy_step [OF ok True] dis show ?thesis by (simp add: discarded_def)
  next
    case False
    with dis obtain j where j: "j < length (pm_queues pm)" "pq_owner (queue_at pm j) = owner" "Op_delete j \<in> set (chain pm)"
      by (auto simp: discarded_def)
    note q = pending_apply_queue [OF ok j(1), of env e]
    from pending_apply_chain [OF ok j(3), of env e] show ?thesis
    proof
      assume "Op_delete j \<in> set (chain ?pm')"
      with q j show ?thesis by auto
    next
      assume "\<exists>b v. e = Persist_answers b \<and> pm_running pm = Some (Run_persist (Op_delete j) v)"
      with ans null have "e = Persist_answers True" "pm_running pm = Some (Run_persist (Op_delete j) None)"
        by (auto simp: answered_def)
      with j have "no_copy ?pm' owner"
        by (simp add: no_copy_def pending_apply_def persistAnswer_def Let_def store_write_def op_queue_def)
      then show ?thesis ..
    qed
  qed
  with off delete_writes_nothing [OF ok null] show ?thesis by (simp add: discarded_def)
qed

lemma discarded_run:
  "queues_ok pm \<Longrightarrow> discarded pm owner \<Longrightarrow> list_all answered es \<Longrightarrow> (\<And>user d f. Activate owner user d f \<notin> set es) \<Longrightarrow>
     discarded (pending_run env es pm) owner"
proof (induction es arbitrary: pm)
  case (Cons e es)
  have "queues_ok (pending_apply env e pm)" using pending_run_ok [OF Cons.prems(1), of env "[e]"] by (simp add: pending_run_def)
  moreover have "discarded (pending_apply env e pm) owner"
    by (rule discarded_step [OF Cons.prems(1,2)]) (use Cons.prems(3,4) in auto)
  ultimately show ?case using Cons.IH Cons.prems(3,4) by (simp add: pending_run_def)
qed (simp add: pending_run_def)

section \<open>Acknowledgements\<close>

definition load_outstanding :: "'v pending \<Rightarrow> nat \<Rightarrow> bool" where
  "load_outstanding pm i \<longleftrightarrow> Op_load i \<in> set (pm_operations pm) \<or> pm_running pm = Some (Run_load i)"

definition loading_ok :: "'v pending \<Rightarrow> bool" where
  "loading_ok pm \<longleftrightarrow> (\<forall>i < length (pm_queues pm). load_outstanding pm i \<longrightarrow> pq_loading (queue_at pm i))"

text \<open>What one step does to one queue that stays in use: nothing, or one of a few changes.\<close>

lemma outstanding_back:
  assumes ok: "queues_ok pm" and i: "i < length (pm_queues pm)" and out: "load_outstanding (pending_apply env e pm) i"
  shows "load_outstanding pm i"
proof (cases "is_call e")
  case True
  have "Op_load i \<in> set (pm_operations pm)" if "Op_load i \<in> set (pm_operations (pending_apply env e pm))"
    using True that i
    by (cases e) (auto simp: is_call_def pending_apply_def activatePendingMessages_def deactivatePendingMessages_def savePendingText_def
        putResume_def putBody_def acknowledgePendingMessage_def remove_draft_def Let_def split: option.splits list.splits if_splits)
  with out pending_call [OF True, of env pm] show ?thesis by (auto simp: load_outstanding_def)
next
  case False
  then consider "e = Operation_starts" | now b where "e = Load_answers now b" | b where "e = Persist_answers b"
    by (cases e) (auto simp: is_call_def)
  then show ?thesis
  proof cases
    case 1
    with out show ?thesis
      by (auto simp: load_outstanding_def pending_apply_def nextOperation_def startOperation_def writeDrafts_def
          split: option.splits list.splits operation.splits if_splits)
  next
    case 2
    show ?thesis
    proof (cases "\<exists>k. pm_running pm = Some (Run_load k)")
      case True
      then obtain k where run: "pm_running pm = Some (Run_load k)" by blast
      have k: "k < length (pm_queues pm)" using ok run by (rule queues_ok_bound)
      show ?thesis using out 2 loadedState_fields(3,4) [OF k, where env = env and now = now]
        by (simp add: load_outstanding_def pending_apply_def loadAnswer_cases [OF run] writeDrafts_def split: if_splits)
    qed (use out 2 in \<open>auto simp: pending_apply_def loadAnswer_def split: option.splits running.splits\<close>)
  next
    case 3
    with out show ?thesis
      by (auto simp: load_outstanding_def pending_apply_def persistAnswer_def Let_def split: option.splits running.splits operation.splits)
  qed
qed

text \<open>An outstanding load keeps the queue loading, and what was acknowledged meanwhile.\<close>

lemma outstanding_once:
  assumes "queues_ok pm" "i < length (pm_queues pm)" "pm_running pm = Some (Run_load i) \<or> (\<exists>v. pm_running pm = Some (Run_persist (Op_load i) v))"
  shows "Op_load i \<notin> set (pm_operations pm)"
proof -
  have "chain pm = Op_load i # pm_operations pm" using assms(3) by (auto simp: chain_def)
  moreover have "count_list (chain pm) (Op_load i) \<le> 1" using assms(1,2) by (simp add: queues_ok_def)
  ultimately show ?thesis by (simp add: count_list_0_iff)
qed

lemma outstanding_queue:
  assumes ok: "queues_ok pm" and i: "i < length (pm_queues pm)" and out: "load_outstanding (pending_apply env e pm) i"
  shows "pq_loading (queue_at (pending_apply env e pm) i) = pq_loading (queue_at pm i) \<and>
    (js_has (pq_acknowledged (queue_at pm i)) c \<longrightarrow> js_has (pq_acknowledged (queue_at (pending_apply env e pm) i)) c)"
proof (cases "is_call e")
  case True
  then show ?thesis using i queues_ok_bound(3) [OF ok]
    by (cases e) (auto simp: is_call_def pending_apply_def activatePendingMessages_def deactivatePendingMessages_def savePendingText_def
        putResume_def putBody_def acknowledgePendingMessage_def remove_draft_def Let_def construct_queue_at split: option.split list.split)
next
  case False
  then consider "e = Operation_starts" | now b where "e = Load_answers now b" | b where "e = Persist_answers b"
    by (cases e) (auto simp: is_call_def)
  then show ?thesis
  proof cases
    case 1
    then show ?thesis by (auto simp: pending_apply_def nextOperation_def startOperation_def writeDrafts_def on_queue_at
          split: option.split list.split operation.split)
  next
    case 2
    show ?thesis
    proof (cases "\<exists>k. pm_running pm = Some (Run_load k)")
      case True
      then obtain k where run: "pm_running pm = Some (Run_load k)" by blast
      have k: "k < length (pm_queues pm)" using ok run by (rule queues_ok_bound)
      note ls = loadedState_fields [OF k, where env = env and now = now]
      have "i \<noteq> k"
        using out outstanding_once [OF ok k] run 2 ls(3,4)
        by (auto simp: load_outstanding_def pending_apply_def loadAnswer_cases [OF run] writeDrafts_def split: if_splits)
      with ls(1,6) k 2 show ?thesis by (simp add: pending_apply_def loadAnswer_cases [OF run] writeDrafts_def)
    qed (use 2 in \<open>auto simp: pending_apply_def loadAnswer_def split: option.split running.split\<close>)
  next
    case 3
    show ?thesis
    proof (cases "\<exists>op v. pm_running pm = Some (Run_persist op v)")
      case True
      then obtain op v where run: "pm_running pm = Some (Run_persist op v)" by blast
      note j = queues_ok_bound(2) [OF ok run]
      have "op \<noteq> Op_load i" using out outstanding_once [OF ok i] run 3
        by (auto simp: load_outstanding_def pending_apply_def persistAnswer_def Let_def)
      with run 3 j show ?thesis by (cases op) (auto simp: pending_apply_def persistAnswer_def Let_def op_queue_def)
    qed (use 3 in \<open>auto simp: pending_apply_def persistAnswer_def split: option.split running.split\<close>)
  qed
qed

lemma loading_reachable: "loading_ok (pending_run env es (PENDING_INITIAL store messages))"
proof (induction es rule: rev_induct)
  case (snoc e es)
  let ?pm = "pending_run env es (PENDING_INITIAL store messages)"
  note ok = pending_reachable_ok [of env es store messages]
  have "pq_loading (queue_at (pending_apply env e ?pm) i)"
    if i: "i < length (pm_queues (pending_apply env e ?pm))" and out: "load_outstanding (pending_apply env e ?pm) i" for i
  proof (cases "i < length (pm_queues ?pm)")
    case True
    with snoc outstanding_back [OF ok True out] outstanding_queue [OF ok True out] show ?thesis by (simp add: loading_ok_def)
  next
    case False
    with pending_apply_new [OF ok i False] obtain owner user d f where e: "e = Activate owner user d f" by blast
    have len: "i = length (pm_queues ?pm)"
      using i False e by (auto simp: pending_apply_def activatePendingMessages_def Let_def split: option.splits if_splits)
    have new: "pq_loading (queue_at (constructQueue owner user g pm') i)"
      if "length (pm_queues pm') = length (pm_queues ?pm)" for g and pm' :: "'a pending"
      using construct_fields(7) [of owner user g pm'] that by (simp add: len newQueue_def)
    show ?thesis using i False e by (auto simp: pending_apply_def activatePendingMessages_def Let_def intro!: new split: option.splits if_splits)
  qed
  then show ?case by (simp add: loading_ok_def pending_run_def)
qed (simp add: loading_ok_def pending_run_def PENDING_INITIAL_def)

text \<open>The queue will not hold the acknowledged message once the chain has run dry, and will not recover it.\<close>

definition will_forget :: "'v pending \<Rightarrow> nat \<Rightarrow> string \<Rightarrow> bool" where
  "will_forget pm i c \<longleftrightarrow> c \<notin> pt_clientMessageId ` set (pq_puts (queue_at pm i)) \<and>
     (Op_remove i c \<in> set (pm_operations pm) \<or> jm_get (pq_drafts (queue_at pm i)) c = None \<and> \<not> load_outstanding pm i) \<and>
     (load_outstanding pm i \<longrightarrow> js_has (pq_acknowledged (queue_at pm i)) c)"

lemma recoverDraft_effects:
  "Recovered c \<in> set (pm_effects (recoverDraft env i d pm)) \<longleftrightarrow>
     Recovered c \<in> set (pm_effects pm) \<or> c = pt_clientMessageId d \<and> \<not> js_has (pq_acknowledged (queue_at pm i)) c"
  by (auto simp: recoverDraft_def)

lemma recover_fold_effects:
  assumes "i < length (pm_queues pm)" and "js_has (pq_acknowledged (queue_at pm i)) c"
    and "Recovered c \<in> set (pm_effects (fold (recoverDraft env i) ds pm))"
  shows "Recovered c \<in> set (pm_effects pm)"
  using assms
proof (induction ds arbitrary: pm)
  case (Cons d ds)
  have same: "same_but_drafts i pm (recoverDraft env i d pm)" using Cons.prems(1) by (rule recoverDraft_same)
  then have "js_has (pq_acknowledged (queue_at (recoverDraft env i d pm) i)) c" "i < length (pm_queues (recoverDraft env i d pm))"
    using Cons.prems(1,2) by (auto simp: same_but_drafts_def)
  with Cons.IH Cons.prems have "Recovered c \<in> set (pm_effects (recoverDraft env i d pm))" by simp
  with Cons.prems(2) show ?case by (simp add: recoverDraft_effects)
qed simp

lemma prunedDrafts_get: "jm_get (pq_drafts q) c = None \<Longrightarrow> jm_get (prunedDrafts now q) c = None"
  by (auto simp: prunedDrafts_def jm_get_def map_of_eq_None_iff)

lemma will_forget_call:
  assumes ok: "queues_ok pm" and act: "pm_activeQueue pm = Some i" "pm_activeQueue (pending_apply env e pm) = Some i"
    and wf: "will_forget pm i c" and call: "is_call e" and fresh: "\<And>owner d. e = Save owner d \<Longrightarrow> pt_clientMessageId d \<noteq> c"
  shows "will_forget (pending_apply env e pm) i c"
proof -
  note i = queues_ok_bound(3) [OF ok act(1)]
  have out: "load_outstanding (pending_apply env e pm) i \<Longrightarrow> load_outstanding pm i"
    using outstanding_back [OF ok] i by blast
  have ack: "load_outstanding (pending_apply env e pm) i \<Longrightarrow> js_has (pq_acknowledged (queue_at (pending_apply env e pm) i)) c"
    using out wf outstanding_queue [OF ok, of i env e c] i by (simp add: will_forget_def)
  have ops: "set (pm_operations pm) \<subseteq> set (pm_operations (pending_apply env e pm))" using pending_call [OF call] by blast
  have "c \<notin> pt_clientMessageId ` set (pq_puts (queue_at (pending_apply env e pm) i)) \<and>
      (jm_get (pq_drafts (queue_at pm i)) c = None \<longrightarrow> jm_get (pq_drafts (queue_at (pending_apply env e pm) i)) c = None)"
  proof (cases e)
    case (Activate owner user d f)
    with act i wf show ?thesis
      by (auto simp: will_forget_def pending_apply_def activatePendingMessages_def Let_def split: if_splits)
  next
    case (Deactivate d)
    with act show ?thesis by (simp add: pending_apply_def deactivatePendingMessages_def Let_def)
  next
    case (Save owner d)
    with act i wf fresh show ?thesis by (auto simp: will_forget_def pending_apply_def savePendingText_def)
  next
    case (Put_resumes now j)
    show ?thesis using Put_resumes i wf prunedDrafts_get [of "queue_at pm i" c now]
      by (auto simp: will_forget_def pending_apply_def putResume_def putBody_def prunedDrafts_def Let_def split: option.split list.split)
  next
    case (Acknowledged d)
    with act i wf show ?thesis by (auto simp: will_forget_def pending_apply_def acknowledgePendingMessage_def remove_draft_def split: option.split)
  qed (use call in \<open>auto simp: is_call_def\<close>)
  with wf out ack ops show ?thesis unfolding will_forget_def by blast
qed

lemma will_forget_start:
  assumes ok: "queues_ok pm" and act: "pm_activeQueue pm = Some i" and wf: "will_forget pm i c"
  shows "will_forget (nextOperation env pm) i c"
proof (cases "pm_running pm = None \<and> pm_operations pm \<noteq> []")
  case True
  then obtain op rest where ops: "pm_running pm = None" "pm_operations pm = op # rest" by (cases "pm_operations pm") auto
  let ?pm' = "startOperation env op (pm\<lparr>pm_operations := rest\<rparr>)"
  note i = queues_ok_bound(3) [OF ok act]
  have out: "load_outstanding ?pm' i \<Longrightarrow> load_outstanding pm i"
    using outstanding_back [OF ok, of i env Operation_starts] i ops by (simp add: pending_apply_def nextOperation_def)
  have rest: "pm_operations ?pm' = rest" "pm_running ?pm' = Some (Run_load i) \<longleftrightarrow> op = Op_load i"
    using ops by (auto simp: startOperation_def writeDrafts_def split: operation.split)
  have q: "pq_puts (queue_at ?pm' i) = pq_puts (queue_at pm i)" "pq_acknowledged (queue_at ?pm' i) = pq_acknowledged (queue_at pm i)"
    "jm_get (pq_drafts (queue_at pm i)) c = None \<Longrightarrow> jm_get (pq_drafts (queue_at ?pm' i)) c = None"
    by (auto simp: startOperation_def writeDrafts_def on_queue_at split: operation.split)
  have "Op_remove i c \<in> set rest \<or> jm_get (pq_drafts (queue_at ?pm' i)) c = None \<and> \<not> load_outstanding ?pm' i"
  proof (cases "op = Op_remove i c")
    case True
    have "sorted (map op_rank (op # rest))" using ok ops running_in_chain(3) [OF ops(1)] by (simp add: queues_ok_def)
    then have "Op_load i \<notin> set rest" using True by (auto simp: op_rank_def op_queue_def)
    moreover have "jm_get (pq_drafts (queue_at ?pm' i)) c = None"
      using True i by (auto simp: startOperation_def writeDrafts_def on_queue_at)
    ultimately show ?thesis using rest True by (simp add: load_outstanding_def)
  next
    case False
    with wf ops out q(3) show ?thesis by (auto simp: will_forget_def)
  qed
  then have "will_forget ?pm' i c" using wf out q rest by (auto simp: will_forget_def)
  with ops show ?thesis by (simp add: nextOperation_def)
qed (use wf in \<open>auto simp: nextOperation_def split: option.split list.split\<close>)

lemma will_forget_load:
  assumes ok: "queues_ok pm" and act: "pm_activeQueue pm = Some i" and wf: "will_forget pm i c"
  shows "will_forget (loadAnswer env now b pm) i c"
proof (cases "\<exists>k. pm_running pm = Some (Run_load k)")
  case True
  then obtain k where run: "pm_running pm = Some (Run_load k)" by blast
  have k: "k < length (pm_queues pm)" using ok run by (rule queues_ok_bound)
  note ls = loadedState_fields [OF k, where env = env and now = now]
  let ?pm' = "loadAnswer env now b pm"
  have ops: "pm_operations ?pm' = pm_operations pm" "pm_running ?pm' \<noteq> Some (Run_load i)"
    using ls by (simp_all add: loadAnswer_cases [OF run] writeDrafts_def)
  show ?thesis
  proof (cases "k = i")
    case True
    obtain ds where qi: "queue_at (loadedState env now i pm) i = (queue_at pm i)\<lparr>pq_drafts := ds, pq_loading := False, pq_acknowledged := []\<rparr>"
      using ls(7) True by blast
    have "pq_puts (queue_at ?pm' i) = pq_puts (queue_at pm i)"
      using True k ls(1) qi by (simp add: loadAnswer_cases [OF run] writeDrafts_def)
    moreover have "\<not> load_outstanding ?pm' i"
      using outstanding_once [OF ok k] run ops True by (simp add: load_outstanding_def)
    moreover have "Op_remove i c \<in> set (pm_operations pm)"
      using wf run True by (auto simp: will_forget_def load_outstanding_def)
    ultimately show ?thesis using wf ops by (simp add: will_forget_def)
  next
    case False
    then have "queue_at ?pm' i = queue_at pm i" using ls(1,6) k by (simp add: loadAnswer_cases [OF run] writeDrafts_def)
    then show ?thesis using wf ops by (auto simp: will_forget_def load_outstanding_def)
  qed
qed (use wf in \<open>auto simp: loadAnswer_def split: option.split running.split\<close>)

lemma will_forget_persist:
  assumes ok: "queues_ok pm" and act: "pm_activeQueue pm = Some i" and wf: "will_forget pm i c"
  shows "will_forget (persistAnswer b pm) i c"
proof (cases "\<exists>op v. pm_running pm = Some (Run_persist op v)")
  case True
  then obtain op v where run: "pm_running pm = Some (Run_persist op v)" by blast
  note j = queues_ok_bound(2) [OF ok run] and i = queues_ok_bound(3) [OF ok act]
  let ?pm' = "persistAnswer b pm"
  have ops: "pm_operations ?pm' = pm_operations pm" "pm_running ?pm' = None"
    using run by (cases op; simp add: persistAnswer_def Let_def)+
  have q: "queue_at ?pm' i = (if op = Op_load i then (queue_at pm i)\<lparr>pq_loading := False, pq_acknowledged := [], pq_loaded := Some b\<rparr> else queue_at pm i)"
    using run j by (cases op) (auto simp: persistAnswer_def Let_def op_queue_def)
  have "Op_load i \<notin> set (pm_operations pm)" if "op = Op_load i" using outstanding_once [OF ok] i run that by blast
  then show ?thesis using wf ops q run by (auto simp: will_forget_def load_outstanding_def)
qed (use wf in \<open>auto simp: persistAnswer_def split: option.split running.split\<close>)

text \<open>A step recovers the message only when it answers a load of a queue that did not hear of it.\<close>

lemma recovered_back:
  assumes ok: "queues_ok pm" and act: "pm_activeQueue pm = Some i" and wf: "will_forget pm i c"
    and "Recovered c \<in> set (pm_effects (pending_apply env e pm))"
  shows "Recovered c \<in> set (pm_effects pm)"
proof (cases "\<exists>now b k. e = Load_answers now b \<and> pm_running pm = Some (Run_load k)")
  case True
  then obtain now b k where e: "e = Load_answers now b" and run: "pm_running pm = Some (Run_load k)" by blast
  have k: "k < length (pm_queues pm)" using ok run by (rule queues_ok_bound)
  show ?thesis
  proof (cases "k = i")
    case True
    then have "js_has (pq_acknowledged (queue_at pm i)) c" using wf run by (simp add: will_forget_def load_outstanding_def)
    then have "Recovered c \<in> set (pm_effects (loadedState env now i pm)) \<Longrightarrow> Recovered c \<in> set (pm_effects pm)"
      using recover_fold_effects [of i "pm\<lparr>pm_running := None\<rparr>" c] k True by (simp add: loadedState_def endLoading_def)
    with assms(4) e True show ?thesis
      by (auto simp: pending_apply_def loadAnswer_cases [OF run] writeDrafts_def split: if_splits)
  next
    case False
    then have "\<not> pq_active (queue_at pm k)" using ok act k by (auto simp: queues_ok_def)
    with assms(4) e show ?thesis by (simp add: pending_apply_def loadAnswer_cases [OF run] split: if_splits)
  qed
next
  case False
  show ?thesis
  proof (cases e)
    case (Load_answers now b)
    with False assms(4) show ?thesis by (auto simp: pending_apply_def loadAnswer_def split: option.splits running.splits)
  qed (use assms(4) in \<open>auto simp: pending_apply_def activatePendingMessages_def deactivatePendingMessages_def savePendingText_def
      putResume_def putBody_def acknowledgePendingMessage_def remove_draft_def nextOperation_def startOperation_def writeDrafts_def
      persistAnswer_def Let_def split: option.splits list.splits operation.splits running.splits if_splits\<close>)
qed

lemma active_back:
  assumes ok: "queues_ok pm" and i: "i < length (pm_queues pm)" and "pm_activeQueue (pending_apply env e pm) = Some i"
  shows "pm_activeQueue pm = Some i"
proof -
  have ok': "queues_ok (pending_apply env e pm)" using pending_run_ok [OF ok, of env "[e]"] by (simp add: pending_run_def)
  have "pq_active (queue_at (pending_apply env e pm) i)" using queues_ok_bound(3) [OF ok' assms(3)] by simp
  then have "pq_active (queue_at pm i)" using pending_apply_queue [OF ok i] by blast
  with ok i show ?thesis by (simp add: queues_ok_def)
qed

lemma active_stays_back:
  "queues_ok pm \<Longrightarrow> i < length (pm_queues pm) \<Longrightarrow> pm_activeQueue (pending_run env es pm) = Some i \<Longrightarrow> pm_activeQueue pm = Some i"
proof (induction es arbitrary: pm)
  case (Cons e es)
  have "queues_ok (pending_apply env e pm)" using pending_run_ok [OF Cons.prems(1), of env "[e]"] by (simp add: pending_run_def)
  with Cons pending_apply_queue [OF Cons.prems(1,2), of env e] have "pm_activeQueue (pending_apply env e pm) = Some i"
    by (simp add: pending_run_def)
  then show ?case by (rule active_back [OF Cons.prems(1,2)])
qed (simp add: pending_run_def)

lemma will_forget_run:
  assumes "queues_ok pm" "i < length (pm_queues pm)" "pm_activeQueue pm = Some i \<Longrightarrow> will_forget pm i c"
    and "\<And>owner d. Save owner d \<in> set es \<Longrightarrow> pt_clientMessageId d \<noteq> c"
    and "pm_activeQueue (pending_run env es pm) = Some i"
  shows "will_forget (pending_run env es pm) i c \<and>
    (Recovered c \<in> set (pm_effects (pending_run env es pm)) \<longrightarrow> Recovered c \<in> set (pm_effects pm))"
  using assms
proof (induction es arbitrary: pm)
  case (Cons e es)
  let ?pm1 = "pending_apply env e pm"
  have ok1: "queues_ok ?pm1" using pending_run_ok [OF Cons.prems(1), of env "[e]"] by (simp add: pending_run_def)
  have i1: "i < length (pm_queues ?pm1)" using pending_apply_queue [OF Cons.prems(1,2)] by blast
  have bk: "pm_activeQueue ?pm1 = Some i \<Longrightarrow> pm_activeQueue pm = Some i" by (rule active_back [OF Cons.prems(1,2)])
  have wf1: "will_forget ?pm1 i c" if act: "pm_activeQueue ?pm1 = Some i"
  proof -
    note wf = Cons.prems(3) [OF bk [OF act]]
    show ?thesis
    proof (cases "is_call e")
      case True
      then show ?thesis using will_forget_call [OF Cons.prems(1) bk [OF act] act wf True] Cons.prems(4) by auto
    next
      case False
      then show ?thesis using will_forget_start [OF Cons.prems(1) bk [OF act] wf] will_forget_load [OF Cons.prems(1) bk [OF act] wf]
          will_forget_persist [OF Cons.prems(1) bk [OF act] wf]
        by (cases e) (auto simp: is_call_def pending_apply_def)
    qed
  qed
  have "pm_activeQueue ?pm1 = Some i"
  proof (rule ccontr)
    assume "pm_activeQueue ?pm1 \<noteq> Some i"
    with ok1 i1 Cons.prems(5) show False using active_stays_back [of ?pm1 i env es] by (simp add: pending_run_def)
  qed
  with Cons.IH [OF ok1 i1 wf1] Cons.prems(4,5) recovered_back [OF Cons.prems(1) bk Cons.prems(3) [OF bk]]
  show ?case by (simp add: pending_run_def) blast
qed (simp add: pending_run_def)

section \<open>Properties\<close>

definition outbox_env :: "json pending_env" where
  "outbox_env = \<lparr>pe_stringify = (\<lambda>j. j), pe_parse = Some, pe_bytes = (\<lambda>_. 100), pe_toISO = show_int\<rparr>"

definition outbox_owner :: pending_owner where
  "outbox_owner = \<lparr>ow_host = ''chat.example'', ow_userId = 7\<rparr>"

definition outbox_cid :: string where
  "outbox_cid = ''1700000000000:01234567-89ab-4cde-8f01-23456789abcd''"

definition outbox_draft :: pending_text where
  "outbox_draft = \<lparr>pt_clientMessageId = outbox_cid, pt_channelId = 3, pt_content = js_lit ''hi'', pt_createdAt = 1700000000000\<rparr>"

definition outbox_events :: "pending_event list" where
  "outbox_events = [Activate outbox_owner sample_user True None, Save outbox_owner outbox_draft, Operation_starts,
     Load_answers 1700000000500 True, Put_resumes 1700000000500 0, Operation_starts, Persist_answers True]"

definition outbox_state :: "json pending" where
  "outbox_state = pending_run outbox_env outbox_events (PENDING_INITIAL [] INITIAL_STATE)"

lemma outbox_fresh [simp]: "pendingMessageExpired outbox_cid 1700000000500 0 = False"
  by code_simp

lemma outbox_id [simp]: "pt_clientMessageId outbox_draft = outbox_cid"
  by (simp add: outbox_draft_def)

lemmas pending_defs = pending_run_def pending_apply_def activatePendingMessages_def constructQueue_def
  deactivatePendingMessages_def deactivate_def savePendingText_def putResume_def putBody_def prunedDrafts_def
  acknowledgePendingMessage_def remove_draft_def nextOperation_def startOperation_def loadAnswer_def persistAnswer_def
  store_write_def writeDrafts_def settleLoaded_def endLoading_def serializePendingWrites_def emit_pending_def
  on_queue_def queue_at_def owns_def sameOwner_def newQueue_def validFloor_def isSafeInteger_def content_of_def
  decode_def op_queue_def PENDING_INITIAL_def jm_set_def jm_get_def jm_delete_def jm_values_def
  PENDING_MESSAGE_MAX_COUNT_def PENDING_MESSAGE_MAX_BYTES_def

lemma outbox_facts:
  "idle outbox_state" "pm_activeQueue outbox_state = Some 0" "pq_owner (queue_at outbox_state 0) = outbox_owner"
  "pq_drafts (queue_at outbox_state 0) = [(outbox_cid, outbox_draft)]" "pq_puts (queue_at outbox_state 0) = []"
  by (simp_all add: outbox_state_def outbox_events_def pending_defs idle_def outbox_env_def)






text \<open>C17: A logout that discards leaves nothing behind: once the chain has run dry, the persistence holds no
  text of that owner, whatever saves were under way or waiting when it happened and whatever other
  accounts did since, until the owner signs in again. A delayed save cannot bring a draft back.\<close>

theorem discarded_stays_gone:
  assumes "pm = pending_run env es (PENDING_INITIAL store messages)" and "pm_activeQueue pm = Some i"
    and "owner = pq_owner (queue_at pm i)" and "list_all answered later"
    and "\<And>user d f. Activate owner user d f \<notin> set later"
    and "after = pending_run env later (deactivatePendingMessages True pm)" and "idle after"
  shows "jm_get (pm_store after) owner = None"
proof -
  have ok: "queues_ok pm" unfolding assms(1) by (rule pending_reachable_ok)
  note i = queues_ok_bound(3) [OF ok assms(2)]
  have "\<forall>j v. pm_running pm = Some (Run_persist (Op_delete j) v) \<longrightarrow> v = None"
    unfolding assms(1) by (rule deletes_reachable)
  moreover have "\<not> pq_active (queue_at pm j)" if "j < length (pm_queues pm)" "j \<noteq> i" for j
    using ok assms(2) that by (auto simp: queues_ok_def)
  ultimately have "discarded (deactivatePendingMessages True pm) owner"
    using i assms(2,3) by (auto simp: discarded_def deactivatePendingMessages_def Let_def chain_def intro!: exI [of _ i])
  from discarded_run [OF queues_ok_deactivateAll [OF ok] this assms(4,5)] have "discarded after owner" using assms(6) by simp
  with \<open>idle after\<close> show ?thesis by (auto simp: discarded_def no_copy_def idle_def chain_def)
qed


theorem discarded_stays_gone_witness:
  "jm_get (pm_store (pending_run outbox_env [Operation_starts, Persist_answers True] (deactivatePendingMessages True outbox_state)))
     outbox_owner = None"
proof -
  let ?more = "[Operation_starts, Persist_answers True]"
  have "idle (pending_run outbox_env ?more (deactivatePendingMessages True outbox_state))"
    by (simp add: outbox_state_def outbox_events_def pending_defs idle_def outbox_env_def)
  then show ?thesis
    using discarded_stays_gone [OF outbox_state_def outbox_facts(2) refl, of ?more] outbox_facts(3)
    by (simp add: answered_def)
qed


text \<open>An acknowledged message leaves the outbox, also when the acknowledgement overtakes the load of the
  saved drafts or a save that is under way: once the chain has run dry the queue does not hold it, and
  no recovered row is shown for it after the acknowledgement. Refused reads and writes change nothing here.\<close>

theorem acknowledged_leaves_outbox:
  assumes "pm = pending_run env es (PENDING_INITIAL store messages)" and "pm_activeQueue pm = Some i" and "cid \<noteq> []"
    and "cid \<notin> pt_clientMessageId ` set (pq_puts (queue_at pm i))"
    and "\<And>owner d. Save owner d \<in> set later \<Longrightarrow> pt_clientMessageId d \<noteq> cid"
    and "after = pending_run env later (acknowledgePendingMessage (Some cid) pm)" and "idle after" and "pm_activeQueue after = Some i"
  shows "jm_get (pq_drafts (queue_at after i)) cid = None \<and>
    (Recovered cid \<in> set (pm_effects after) \<longrightarrow> Recovered cid \<in> set (pm_effects pm))"
proof -
  have ok: "queues_ok pm" and loading: "loading_ok pm" unfolding assms(1) by (rule pending_reachable_ok loading_reachable)+
  note i = queues_ok_bound(3) [OF ok assms(2)]
  let ?pm1 = "acknowledgePendingMessage (Some cid) pm"
  have "will_forget ?pm1 i cid"
    using assms(2,3,4) i loading
    by (auto simp: will_forget_def acknowledgePendingMessage_def remove_draft_def loading_ok_def load_outstanding_def)
  moreover have "i < length (pm_queues ?pm1)" "pm_effects ?pm1 = pm_effects pm"
    using assms(2,3) i by (simp_all add: acknowledgePendingMessage_def remove_draft_def)
  ultimately have "will_forget after i cid \<and> (Recovered cid \<in> set (pm_effects after) \<longrightarrow> Recovered cid \<in> set (pm_effects pm))"
    using will_forget_run [OF queues_ok_acknowledge [OF ok], of i "Some cid" cid later env] assms(5,6,8) by auto
  with assms(7) show ?thesis by (auto simp: will_forget_def idle_def)
qed

text \<open>The load that the acknowledgement overtakes, with the draft of an earlier session on disk.\<close>

definition outbox_reload :: "json pending" where
  "outbox_reload = pending_run outbox_env [Activate outbox_owner sample_user True None, Operation_starts]
     (PENDING_INITIAL [(outbox_owner, draftsJson [outbox_draft])] INITIAL_STATE)"

theorem acknowledged_leaves_outbox_witness:
  "jm_get (pq_drafts (queue_at (pending_run outbox_env [] (acknowledgePendingMessage (Some outbox_cid) outbox_state)) 0)) outbox_cid \<noteq> None \<and>
   jm_get (pq_drafts (queue_at (pending_run outbox_env [Operation_starts, Persist_answers False]
     (acknowledgePendingMessage (Some outbox_cid) outbox_state)) 0)) outbox_cid = None"
proof -
  let ?later = "[Operation_starts, Persist_answers False]"
  let ?after = "pending_run outbox_env ?later (acknowledgePendingMessage (Some outbox_cid) outbox_state)"
  have ne: "outbox_cid \<noteq> []" by (simp add: outbox_cid_def)
  have "idle ?after" "pm_activeQueue ?after = Some 0"
    "jm_get (pq_drafts (queue_at (pending_run outbox_env [] (acknowledgePendingMessage (Some outbox_cid) outbox_state)) 0)) outbox_cid \<noteq> None"
    using ne by (simp_all add: outbox_state_def outbox_events_def pending_defs idle_def outbox_env_def)
  then show ?thesis
    using acknowledged_leaves_outbox [OF outbox_state_def outbox_facts(2) ne, of ?later] outbox_facts(5) by simp
qed


subsection \<open>Recovery\<close>

text \<open>What the composer hands to \<open>savePendingText\<close>: an id of this module with its own time, a channel and
  some text.\<close>

definition draft_ok :: "pending_text \<Rightarrow> bool" where
  "draft_ok d \<longleftrightarrow> ID_PATTERN (pt_clientMessageId d) \<and> pt_createdAt d = idTime (pt_clientMessageId d) \<and>
     0 < pt_channelId d \<and> pt_channelId d \<le> 9007199254740991 \<and> pt_content d \<noteq> []"

definition still_fresh :: "int \<Rightarrow> int \<Rightarrow> pending_text \<Rightarrow> bool" where
  "still_fresh now flr d \<longleftrightarrow> \<not> pendingMessageExpired (pt_clientMessageId d) now flr"

lemma char_word: "unat (of_nat (of_char c) :: 16 word) = (of_char c :: nat)"
proof -
  have "(of_char c :: nat) < 2 ^ 16" by (rule less_trans [OF nat_of_char_less_256]) simp
  then show ?thesis by (simp add: unat_of_nat)
qed

lemma latin1_lit: "latin1 (js_lit s) = Some s"
proof -
  have "(of_nat (of_char c) :: 16 word) \<le> 255" for c :: char
    using nat_of_char_less_256 [of c] by (simp add: word_le_nat_alt char_word del: nat_of_char_less_256)
  then show ?thesis by (simp add: latin1_def js_lit_def list_all_iff char_word map_idI)
qed

lemma decodeEntry_draft:
  assumes "draft_ok d" and "\<not> js_has seen (pt_clientMessageId d)"
  shows "decodeEntry now flr seen (draftJson d) = (if still_fresh now flr d then Some d else None)"
  using assms by (simp add: decodeEntry_def draftJson_def latin1_lit draft_ok_def still_fresh_def isSafeInteger_def)

lemma decodeEntries_drafts:
  assumes "list_all draft_ok ds" "distinct (map pt_clientMessageId ds)" "length seen + length ds \<le> PENDING_MESSAGE_MAX_COUNT"
    and "\<forall>d \<in> set ds. pt_clientMessageId d \<notin> set seen"
  shows "decodeEntries now flr seen (map draftJson ds) = filter (still_fresh now flr) ds"
  using assms
proof (induction ds arbitrary: seen)
  case (Cons d ds)
  then have d: "decodeEntry now flr seen (draftJson d) = (if still_fresh now flr d then Some d else None)"
    by (intro decodeEntry_draft) (simp_all add: js_has_set)
  have add: "js_add seen (pt_clientMessageId d) = seen @ [pt_clientMessageId d]"
    using Cons.prems(4) by (simp add: js_add_def)
  have "decodeEntries now flr seen (map draftJson ds) = filter (still_fresh now flr) ds"
    using Cons by simp
  moreover have "decodeEntries now flr (seen @ [pt_clientMessageId d]) (map draftJson ds) = filter (still_fresh now flr) ds"
    using Cons.prems by (intro Cons.IH) (auto intro: rev_image_eqI)
  ultimately show ?case using Cons.prems(3) by (simp add: d add)
qed simp

lemma recover_fold_drafts:
  assumes "i < length (pm_queues pm)" and "pq_acknowledged (queue_at pm i) = []"
    and "distinct (map pt_clientMessageId ds)" and "\<forall>d \<in> set ds. pt_clientMessageId d \<notin> set (jm_keys (pq_drafts (queue_at pm i)))"
  shows "pq_drafts (queue_at (fold (recoverDraft env i) ds pm) i) =
    pq_drafts (queue_at pm i) @ map (\<lambda>d. (pt_clientMessageId d, d)) ds"
  using assms
proof (induction ds arbitrary: pm)
  case (Cons d ds)
  let ?pm1 = "recoverDraft env i d pm"
  have "queue_at ?pm1 i = (queue_at pm i)\<lparr>pq_drafts := pq_drafts (queue_at pm i) @ [(pt_clientMessageId d, d)]\<rparr>"
    using Cons.prems by (simp add: recoverDraft_def jm_set_new)
  moreover have "i < length (pm_queues ?pm1)" using recoverDraft_same [OF Cons.prems(1), of env d] Cons.prems(1) by (simp add: same_but_drafts_def)
  moreover have "\<forall>e \<in> set ds. pt_clientMessageId e \<noteq> pt_clientMessageId d" using Cons.prems(3) by (auto intro: rev_image_eqI)
  ultimately show ?case using Cons.IH [of ?pm1] Cons.prems by (auto simp: jm_keys_def)
qed simp

text \<open>C29: What one session saved the next one gets back: the answer to the load of a new queue fills it with
  exactly the saved drafts that have not expired, in their order. It relies on \<open>JSON.parse\<close> undoing
  \<open>JSON.stringify\<close>.\<close>

theorem recovery_round_trip:
  assumes "\<And>j. pe_parse env (pe_stringify env j) = Some j"
    and "list_all draft_ok ds" and "distinct (map pt_clientMessageId ds)" and "length ds \<le> PENDING_MESSAGE_MAX_COUNT"
    and "pe_bytes env (pe_stringify env (draftsJson ds)) \<le> PENDING_MESSAGE_MAX_BYTES"
    and "pm_running pm = Some (Run_load i)" and "i < length (pm_queues pm)" and "pq_active (queue_at pm i)"
    and "pq_drafts (queue_at pm i) = []" and "pq_acknowledged (queue_at pm i) = []"
    and "jm_get (pm_store pm) (pq_owner (queue_at pm i)) = Some (pe_stringify env (draftsJson ds))"
  shows "jm_values (pq_drafts (queue_at (loadAnswer env now True pm) i)) = filter (still_fresh now (pq_retryFloor (queue_at pm i))) ds"
proof -
  let ?fl = "pq_retryFloor (queue_at pm i)"
  have dec: "decode env (Some (pe_stringify env (draftsJson ds))) now ?fl = filter (still_fresh now ?fl) ds"
    using decodeEntries_drafts [OF assms(2,3), of "[]" now ?fl] assms(1,4,5) by (simp add: decode_def draftsJson_def)
  have "distinct (map pt_clientMessageId (filter (still_fresh now ?fl) ds))" using assms(3) by (rule distinct_map_filter)
  then have "pq_drafts (queue_at (loadedState env now i pm) i) = map (\<lambda>d. (pt_clientMessageId d, d)) (filter (still_fresh now ?fl) ds)"
    using recover_fold_drafts [of i "pm\<lparr>pm_running := None\<rparr>" "filter (still_fresh now ?fl) ds" env] assms(7,9,10)
      recover_fold_same [of i "pm\<lparr>pm_running := None\<rparr>" env "filter (still_fresh now ?fl) ds"]
    by (simp add: loadedState_def endLoading_def assms(11) dec jm_keys_def same_but_drafts_def)
  then show ?thesis using assms(8,11) by (simp add: loadAnswer_cases [OF assms(6)] writeDrafts_def jm_values_def comp_def)
qed

theorem recovery_round_trip_witness:
  "jm_values (pq_drafts (queue_at (loadAnswer outbox_env 1700000000500 True outbox_reload) 0)) = [outbox_draft]"
proof -
  have law: "pe_parse outbox_env (pe_stringify outbox_env j) = Some j" for j by (simp add: outbox_env_def)
  have ok: "list_all draft_ok [outbox_draft]"
    by (simp add: draft_ok_def outbox_draft_def js_lit_def) code_simp
  have fresh: "still_fresh 1700000000500 0 outbox_draft" by (simp add: still_fresh_def)
  have st: "pm_running outbox_reload = Some (Run_load 0)" "0 < length (pm_queues outbox_reload)" "pq_active (queue_at outbox_reload 0)"
    "pq_drafts (queue_at outbox_reload 0) = []" "pq_acknowledged (queue_at outbox_reload 0) = []" "pq_retryFloor (queue_at outbox_reload 0) = 0"
    "jm_get (pm_store outbox_reload) (pq_owner (queue_at outbox_reload 0)) = Some (pe_stringify outbox_env (draftsJson [outbox_draft]))"
    by (simp_all add: outbox_reload_def pending_defs outbox_env_def)
  have small: "length [outbox_draft] \<le> PENDING_MESSAGE_MAX_COUNT"
    "pe_bytes outbox_env (pe_stringify outbox_env (draftsJson [outbox_draft])) \<le> PENDING_MESSAGE_MAX_BYTES"
    by (simp_all add: PENDING_MESSAGE_MAX_COUNT_def PENDING_MESSAGE_MAX_BYTES_def outbox_env_def)
  from recovery_round_trip [OF law ok _ small st(1-5,7), of 1700000000500] show ?thesis by (simp add: st(6) fresh)
qed


subsection \<open>New ids\<close>

lemma show_nat_length: "10 ^ k \<le> n \<Longrightarrow> n < 10 ^ Suc k \<Longrightarrow> length (show_nat n) = Suc k"
proof (induction k arbitrary: n)
  case 0
  then show ?case by (subst show_nat.simps) simp
next
  case (Suc k)
  have "length (show_nat (n div 10)) = Suc k" by (rule Suc.IH) (use Suc.prems in \<open>simp_all add: less_eq_div_iff_mult_less_eq div_less_iff_less_mult\<close>)
  moreover have "10 * 1 \<le> 10 * (10::nat) ^ k" by (intro mult_le_mono) simp_all
  then have "\<not> n < 10" using Suc.prems(1) unfolding power_Suc by linarith
  ultimately show ?case by (subst show_nat.simps) simp
qed

lemma show_nat_value:
  "fold (\<lambda>c m. 10 * m + (int (of_char c) - 48)) (show_nat n) 0 = int n"
proof (induction n rule: show_nat.induct)
  case (1 n)
  have digit: "int (of_char (char_of (48 + d) :: char)) - 48 = int d" if "d < 10" for d :: nat
    using that by simp
  show ?case
  proof (cases "n < 10")
    case True
    then show ?thesis using digit [OF True] by (subst show_nat.simps) simp
  next
    case False
    have "int n = 10 * int (n div 10) + int (n mod 10)" by presburger
    with False 1 digit [of "n mod 10"] show ?thesis by (subst show_nat.simps) simp
  qed
qed

lemma takeWhile_show: "takeWhile (\<lambda>c. c \<noteq> CHR '':'') (show_nat n @ CHR '':'' # s) = show_nat n"
proof -
  have "CHR '':'' \<notin> set (show_nat n)" using show_nat_digits [of "CHR '':''" n] by auto
  then show ?thesis by (subst takeWhile_append2) auto
qed

text \<open>C35: A new id has the form the server and the outbox accept, carries its own time, is not expired when it
  is made, and does not fall below the floor of a restored server, whatever the clock says. It relies
  on a clock of thirteen digits, which holds until the year 2286.\<close>

theorem new_id_accepted:
  assumes "matches UUID_PATTERN uuid" and "10 ^ 12 \<le> max now flr" and "max now flr < 10 ^ 13"
  shows "ID_PATTERN (newClientMessageId uuid now flr) \<and> idTime (newClientMessageId uuid now flr) = max now flr \<and>
    \<not> pendingMessageExpired (newClientMessageId uuid now flr) now flr \<and>
    \<not> pendingMessageBeforeRestore (newClientMessageId uuid now flr) flr"
proof -
  define n where "n = nat (max now flr)"
  have n: "int n = max now flr" "10 ^ 12 \<le> n" "n < 10 ^ Suc 12" using assms(2,3) by (auto simp: n_def)
  have new: "newClientMessageId uuid now flr = show_nat n @ '':'' @ uuid"
    using assms(2) by (auto simp: newClientMessageId_def show_int_def n_def)
  have time: "idTime (newClientMessageId uuid now flr) = max now flr"
    unfolding new idTime_def using n(1) by (simp add: takeWhile_show show_nat_value)
  have "list_all2 (\<lambda>p c. p c) (replicate 13 dec_char) (show_nat n)"
    using show_nat_length [OF n(2,3)] show_nat_digits [OF nth_mem, of _ n] by (simp add: list_all2_conv_all_nth dec_char_def)
  then have "ID_PATTERN (newClientMessageId uuid now flr)"
    using assms(1) unfolding ID_PATTERN_def matches_def new by (intro list_all2_appendI) simp_all
  with time show ?thesis
    by (auto simp: pendingMessageExpired_def pendingMessageBeforeRestore_def PENDING_MESSAGE_MAX_AGE_MS_def Let_def)
qed

theorem new_id_accepted_witness:
  "ID_PATTERN (newClientMessageId ''01234567-89ab-4cde-8f01-23456789abcd'' 1700000000000 0) \<and>
   \<not> pendingMessageExpired (newClientMessageId ''01234567-89ab-4cde-8f01-23456789abcd'' 1700000000000 0) 1700000000000 0"
proof -
  have "matches UUID_PATTERN ''01234567-89ab-4cde-8f01-23456789abcd''" by code_simp
  from new_id_accepted [OF this, of 1700000000000 0] show ?thesis by simp
qed

end
