(* ===== verification/Session_Registry.thy ===== *)
theory Session_Registry
  imports Prelude "HOL-Library.Multiset"
begin

text \<open>
  \<open>lib/net/sessionRegistry.ts\<close>: every store that holds data of the signed-in server registers its reset
  here, and the end of the session runs them all, phase by phase. A reset is a function on the state it
  may touch that also says whether it threw; what it did before throwing stays. The identity of a
  registration, which the disposer compares, is a serial number.
\<close>

section \<open>Registrations\<close>

datatype reset_reason = User_reason | Protocol_epoch | Server_switch

datatype reset_phase = Session_phase | Voice_phase | Domain_phase | Cache_phase

definition PHASE_ORDER :: "reset_phase list" where
  "PHASE_ORDER = [Session_phase, Voice_phase, Domain_phase, Cache_phase]"

record 's reset_entry =
  en_phase :: reset_phase
  en_reset :: "reset_reason \<Rightarrow> 's \<Rightarrow> 's \<times> bool"
  en_serial :: nat

record 's session_registry =
  rg_entries :: "(string, 's reset_entry) jmap"
  rg_serial :: nat

definition EMPTY_REGISTRY :: "'s session_registry" where
  "EMPTY_REGISTRY = \<lparr>rg_entries = [], rg_serial = 0\<rparr>"

text \<open>The second result is the serial number that the returned disposer holds.\<close>

definition registerSessionReset ::
  "string \<Rightarrow> (reset_reason \<Rightarrow> 's \<Rightarrow> 's \<times> bool) \<Rightarrow> reset_phase option \<Rightarrow> 's session_registry \<Rightarrow> 's session_registry \<times> nat" where
  "registerSessionReset name reset phase reg = (
     let entry = \<lparr>en_phase = nullish phase Domain_phase, en_reset = reset, en_serial = rg_serial reg\<rparr>
     in (\<lparr>rg_entries = jm_set (rg_entries reg) name entry, rg_serial = Suc (rg_serial reg)\<rparr>, rg_serial reg))"

definition disposeReset :: "string \<Rightarrow> nat \<Rightarrow> 's session_registry \<Rightarrow> 's session_registry" where
  "disposeReset name serial reg = (
     if map_option en_serial (jm_get (rg_entries reg) name) = Some serial
     then reg\<lparr>rg_entries := jm_delete (rg_entries reg) name\<rparr> else reg)"

section \<open>Running the resets\<close>

definition runEntry :: "reset_reason \<Rightarrow> reset_phase \<Rightarrow> string \<times> 's reset_entry \<Rightarrow> 's \<times> string list \<Rightarrow> 's \<times> string list" where
  "runEntry reason phase e acc = (
     if en_phase (snd e) \<noteq> phase then acc
     else let (s, threw) = en_reset (snd e) reason (fst acc)
       in (s, if threw then snd acc @ [fst e] else snd acc))"

definition runSessionResets :: "reset_reason \<Rightarrow> 's session_registry \<Rightarrow> 's \<Rightarrow> 's \<times> string list" where
  "runSessionResets reason reg s = fold (\<lambda>phase acc. fold (runEntry reason phase) (rg_entries reg) acc) PHASE_ORDER (s, [])"

definition listSessionResets :: "'s session_registry \<Rightarrow> string list" where
  "listSessionResets reg = concat (map (\<lambda>phase. map fst (filter (\<lambda>e. en_phase (snd e) = phase) (rg_entries reg))) PHASE_ORDER)"

section \<open>Properties\<close>

definition in_phase :: "'s session_registry \<Rightarrow> reset_phase \<Rightarrow> (string \<times> 's reset_entry) list" where
  "in_phase reg phase = filter (\<lambda>e. en_phase (snd e) = phase) (rg_entries reg)"

definition in_order :: "'s session_registry \<Rightarrow> (string \<times> 's reset_entry) list" where
  "in_order reg = concat (map (in_phase reg) PHASE_ORDER)"

definition run_one :: "reset_reason \<Rightarrow> string \<times> 's reset_entry \<Rightarrow> 's \<times> string list \<Rightarrow> 's \<times> string list" where
  "run_one reason e acc = (let (s, threw) = en_reset (snd e) reason (fst acc) in (s, if threw then snd acc @ [fst e] else snd acc))"

lemma fold_runEntry: "fold (runEntry reason phase) es acc = fold (run_one reason) (filter (\<lambda>e. en_phase (snd e) = phase) es) acc"
  by (induction es arbitrary: acc) (auto simp: runEntry_def run_one_def)

lemma run_in_order: "runSessionResets reason reg s = fold (run_one reason) (in_order reg) (s, [])"
  by (simp add: runSessionResets_def in_order_def in_phase_def PHASE_ORDER_def fold_runEntry)

lemma run_one_state: "fst (fold (run_one reason) es acc) = fold (\<lambda>e s. fst (en_reset (snd e) reason s)) es (fst acc)"
  by (induction es arbitrary: acc) (auto simp: run_one_def split: prod.split)

lemma phase_exhaust: "p \<in> set PHASE_ORDER"
  by (cases p) (simp_all add: PHASE_ORDER_def)

lemma in_order_perm: "mset (in_order reg) = mset (rg_entries reg)"
proof -
  have "mset (filter (\<lambda>e. en_phase (snd e) = Session_phase) es @ filter (\<lambda>e. en_phase (snd e) = Voice_phase) es @
      filter (\<lambda>e. en_phase (snd e) = Domain_phase) es @ filter (\<lambda>e. en_phase (snd e) = Cache_phase) es) = mset es" for es :: "(string \<times> 'a reset_entry) list"
  proof (induction es)
    case (Cons e es)
    then show ?case by (cases "en_phase (snd e)") simp_all
  qed simp
  then show ?thesis by (simp add: in_order_def in_phase_def PHASE_ORDER_def)
qed

text \<open>Every registered reset runs exactly once and in phase order, whether or not others throw: the state at
  the end is that of running them one after the other over the names that \<open>listSessionResets\<close> gives,
  a rearrangement of the registered ones.\<close>

theorem resets_isolated:
  "fst (runSessionResets reason reg s) = fold (\<lambda>e t. fst (en_reset (snd e) reason t)) (in_order reg) s \<and>
   map fst (in_order reg) = listSessionResets reg \<and> mset (in_order reg) = mset (rg_entries reg)"
  by (simp add: run_in_order run_one_state in_order_perm)
    (simp add: in_order_def in_phase_def listSessionResets_def map_concat comp_def)

text \<open>A disposer removes its own registration and never one that replaced it.\<close>

theorem disposer_keeps_replacement:
  assumes "registerSessionReset name reset phase reg = (reg1, serial)"
    and "registerSessionReset name reset' phase' reg1 = (reg2, serial')"
  shows "disposeReset name serial reg2 = reg2 \<and> jm_get (rg_entries (disposeReset name serial' reg2)) name = None"
  using assms by (auto simp: registerSessionReset_def disposeReset_def Let_def)

end
