(* ===== verification/Session_Reset.thy ===== *)
theory Session_Reset
  imports Session_Registry Channel_Handlers Emoji_Store Stickers_Store Pending_Chain
begin

text \<open>
  The end of a session across the stores: \<open>clearAuth\<close> of \<open>stores/auth.store.ts\<close> over the resets that the
  modelled stores and \<open>main.ts\<close> register with the session registry. Modules register when they load, in
  any order, and others may register resets of their own, which may throw.
\<close>

section \<open>State and resets\<close>









section \<open>Nothing of the session is left\<close>


















end
