(* ===== verification/Send_Queue.thy ===== *)
theory Send_Queue
  imports Prelude "HOL-Library.Sublist"
begin

text \<open>
  \<open>features/messaging/sendQueue.ts\<close>: a message sent while its files still upload. The run waits for the uploads,
  then for the channel's slow mode, uploads again what grew too old meanwhile, and dispatches the ids in
  the order of the chips. The waits of the asynchronous function are phases; the steps are
  the answer of an upload, its rejection, the poll of slow mode and the click on Cancel. A file is a
  handle, \<open>None\<close> for a restored chip; progress bars and focus are left out.
\<close>

section \<open>State\<close>

definition ATTACHMENT_TTL_MS :: int where
  "ATTACHMENT_TTL_MS = 50 * 60 * 1000"

text \<open>A running upload; \<open>ul_destroyed\<close> is its owner's signal.\<close>

record draft_upload =
  ul_settledAt :: "int option"
  ul_destroyed :: bool

record queued_item =
  qi_filename :: string
  qi_file :: "nat option"
  qi_id :: "string option"
  qi_uploadedAt :: "int option"
  qi_upload :: "draft_upload option"

record sent_attachment =
  sa_id :: string
  sa_filename :: string
  sa_file :: "nat option"

datatype queue_failure = UPLOAD_FAILED | UPLOAD_CANCELLED

datatype queue_effect =
    Start_upload nat
  | Put_back "sent_attachment list"
  | Dispatch "sent_attachment list"
  | Fail queue_failure

text \<open>Where the run waits: for the uploads of the listed chips, for slow mode, for the second uploads, or
  nowhere.\<close>

datatype queue_phase = Settling "nat list" | Holding | Resettling "nat list" | Finished

record queued_send =
  qs_cid :: string
  qs_channelId :: int
  qs_userId :: int
  qs_content :: string
  qs_replyTo :: "int option"
  qs_replyPing :: bool
  qs_items :: "queued_item list"
  qs_cancelled :: bool
  qs_failed :: bool
  qs_phase :: queue_phase
  qs_out :: "queue_effect list"

definition isFresh :: "queued_item \<Rightarrow> int \<Rightarrow> bool" where
  "isFresh item now = (case (qi_id item, qi_uploadedAt item) of
     (Some _, Some t) \<Rightarrow> now - t < ATTACHMENT_TTL_MS | _ \<Rightarrow> False)"

definition asFile :: "queued_item \<Rightarrow> sent_attachment" where
  "asFile item = \<lparr>sa_id = nullish (qi_id item) '''', sa_filename = qi_filename item, sa_file = qi_file item\<rparr>"

definition queue_emit :: "queue_effect \<Rightarrow> queued_send \<Rightarrow> queued_send" where
  "queue_emit x e = e\<lparr>qs_out := qs_out e @ [x]\<rparr>"

section \<open>The run\<close>

definition startUpload :: "nat \<Rightarrow> queued_send \<Rightarrow> queued_send" where
  "startUpload k e = queue_emit (Start_upload k) (e\<lparr>qs_items := (qs_items e)[k := (qs_items e ! k)\<lparr>qi_id := None, qi_uploadedAt := None,
     qi_upload := Some \<lparr>ul_settledAt = None, ul_destroyed = False\<rparr>\<rparr>]\<rparr>)"

definition settleItem :: "nat \<Rightarrow> string \<Rightarrow> string \<Rightarrow> int \<Rightarrow> queued_send \<Rightarrow> queued_send" where
  "settleItem k rid rname now e = (case qi_upload (qs_items e ! k) of
     None \<Rightarrow> e
   | Some upload \<Rightarrow> e\<lparr>qs_items := (qs_items e)[k := (qs_items e ! k)\<lparr>qi_id := Some rid, qi_filename := rname,
         qi_uploadedAt := Some (nullish (ul_settledAt upload) now), qi_upload := None\<rparr>]\<rparr>)"

definition destroyRunning :: "queued_send \<Rightarrow> queued_send" where
  "destroyRunning e = e\<lparr>qs_items := map (\<lambda>i. i\<lparr>qi_upload := None\<rparr>) (qs_items e)\<rparr>"

definition uploading :: "queued_send \<Rightarrow> nat list" where
  "uploading e = filter (\<lambda>k. qi_upload (qs_items e ! k) \<noteq> None) [0..<length (qs_items e)]"

text \<open>The \<open>catch\<close> of the run.\<close>

definition failRun :: "queued_send \<Rightarrow> queued_send" where
  "failRun e = queue_emit (Fail (if qs_cancelled e then UPLOAD_CANCELLED else UPLOAD_FAILED))
     ((destroyRunning e)\<lparr>qs_failed := True, qs_phase := Finished\<rparr>)"

definition dispatchRun :: "int \<Rightarrow> queued_send \<Rightarrow> queued_send" where
  "dispatchRun now e = (
     if qs_cancelled e then failRun e
     else let lost = filter (\<lambda>i. qi_id i = None \<or> \<not> isFresh i now) (qs_items e);
              e1 = e\<lparr>qs_items := filter (\<lambda>i. \<not> (qi_id i = None \<or> \<not> isFresh i now)) (qs_items e), qs_phase := Finished\<rparr>;
              e2 = (if lost \<noteq> [] then queue_emit (Put_back (map asFile (filter (\<lambda>i. qi_id i \<noteq> None) lost))) e1 else e1)
          in queue_emit (Dispatch (map asFile (qs_items e2))) e2)"

definition afterHold :: "int \<Rightarrow> queued_send \<Rightarrow> queued_send" where
  "afterHold now e = (
     if qs_cancelled e then failRun e
     else let old = filter (\<lambda>k. \<not> isFresh (qs_items e ! k) now) [0..<length (qs_items e)];
              e1 = fold (\<lambda>k s. if qi_file (qs_items e ! k) \<noteq> None then startUpload k s else s) old e;
              waiting = filter (\<lambda>k. qi_upload (qs_items e1 ! k) \<noteq> None) old
          in if waiting = [] then dispatchRun now e1 else e1\<lparr>qs_phase := Resettling waiting\<rparr>)"

text \<open>\<open>slow\<close> is the channel's last send and its window in seconds at the time of the poll.\<close>

definition holdForSlowMode :: "int \<Rightarrow> (int \<times> int) option \<Rightarrow> queued_send \<Rightarrow> queued_send" where
  "holdForSlowMode now slow e = (
     let ms = (case slow of None \<Rightarrow> 0 | Some (sentAt, window) \<Rightarrow> sentAt + window * 1000 - now)
     in if ms \<le> 0 \<or> qs_cancelled e then afterHold now e else e\<lparr>qs_phase := Holding\<rparr>)"

definition runQueuedSend :: "int \<Rightarrow> (int \<times> int) option \<Rightarrow> queued_send \<Rightarrow> queued_send" where
  "runQueuedSend now slow e = (
     let e1 = e\<lparr>qs_failed := False\<rparr>
     in if uploading e1 = [] then holdForSlowMode now slow e1 else e1\<lparr>qs_phase := Settling (uploading e1)\<rparr>)"

definition cancelQueuedSend :: "queued_send \<Rightarrow> queued_send" where
  "cancelQueuedSend e = e\<lparr>qs_cancelled := True,
     qs_items := map (\<lambda>i. i\<lparr>qi_upload := map_option (\<lambda>u. u\<lparr>ul_destroyed := True\<rparr>) (qi_upload i)\<rparr>) (qs_items e)\<rparr>"

definition retryQueuedSend :: "int \<Rightarrow> (int \<times> int) option \<Rightarrow> queued_send \<Rightarrow> queued_send" where
  "retryQueuedSend now slow e = (
     let e0 = e\<lparr>qs_cancelled := False\<rparr>;
         stale = filter (\<lambda>k. qi_upload (qs_items e0 ! k) = None \<and> \<not> isFresh (qs_items e0 ! k) now) [0..<length (qs_items e0)];
         e1 = fold (\<lambda>k s. if qi_file (qs_items e0 ! k) \<noteq> None then startUpload k s else s) stale e0;
         lost = (\<lambda>i. qi_upload i = None \<and> \<not> isFresh i now \<and> qi_file i = None);
         unsendable = map asFile (filter (\<lambda>i. qi_id i \<noteq> None) (filter lost (qs_items e1)));
         e2 = e1\<lparr>qs_items := filter (\<lambda>i. \<not> lost i) (qs_items e1)\<rparr>;
         e3 = (if length unsendable > 0 then queue_emit (Put_back unsendable) e2 else e2)
     in runQueuedSend now slow e3)"

section \<open>Steps\<close>

datatype queue_event =
    Upload_done nat string string int "(int \<times> int) option"
  | Upload_rejected nat
  | Poll int "(int \<times> int) option"
  | Cancel

text \<open>An answer that nothing waits for is dropped with its promise.\<close>

definition queue_step :: "queue_event \<Rightarrow> queued_send \<Rightarrow> queued_send" where
  "queue_step ev e = (case ev of
     Upload_done k rid rname now slow \<Rightarrow> (case qs_phase e of
         Settling ks \<Rightarrow> if k \<notin> set ks then e
           else let e1 = settleItem k rid rname now e; rest = filter (\<lambda>j. j \<noteq> k) ks
             in if rest = [] then holdForSlowMode now slow e1 else e1\<lparr>qs_phase := Settling rest\<rparr>
       | Resettling ks \<Rightarrow> if k \<notin> set ks then e
           else let e1 = settleItem k rid rname now e; rest = filter (\<lambda>j. j \<noteq> k) ks
             in if rest = [] then dispatchRun now e1 else e1\<lparr>qs_phase := Resettling rest\<rparr>
       | _ \<Rightarrow> e)
   | Upload_rejected k \<Rightarrow> (case qs_phase e of
         Settling ks \<Rightarrow> if k \<in> set ks then failRun e else e
       | Resettling ks \<Rightarrow> if k \<in> set ks then failRun e else e
       | _ \<Rightarrow> e)
   | Poll now slow \<Rightarrow> (case qs_phase e of Holding \<Rightarrow> holdForSlowMode now slow e | _ \<Rightarrow> e)
   | Cancel \<Rightarrow> cancelQueuedSend e)"

section \<open>Properties\<close>

definition is_end :: "queue_effect \<Rightarrow> bool" where
  "is_end x = (case x of Dispatch _ \<Rightarrow> True | Fail _ \<Rightarrow> True | _ \<Rightarrow> False)"

definition ended :: "queued_send \<Rightarrow> nat" where
  "ended e = length (filter is_end (qs_out e))"

lemma queue_emit_fields [simp]:
  "qs_items (queue_emit x e) = qs_items e" "qs_cancelled (queue_emit x e) = qs_cancelled e" "qs_phase (queue_emit x e) = qs_phase e"
  "qs_out (queue_emit x e) = qs_out e @ [x]" "qs_failed (queue_emit x e) = qs_failed e"
  by (simp_all add: queue_emit_def)

lemma ended_emit: "ended (queue_emit x e) = ended e + (if is_end x then 1 else 0)"
  by (simp add: ended_def)

lemma fold_startUpload:
  "qs_cancelled (fold (\<lambda>k s. if P k then startUpload k s else s) ks e) = qs_cancelled e \<and>
   ended (fold (\<lambda>k s. if P k then startUpload k s else s) ks e) = ended e \<and>
   length (qs_items (fold (\<lambda>k s. if P k then startUpload k s else s) ks e)) = length (qs_items e)"
  by (induction ks arbitrary: e) (auto simp: startUpload_def ended_def is_end_def)

subsection \<open>Ending\<close>

text \<open>A part of the run ends it exactly when it finishes.\<close>

definition ends :: "queued_send \<Rightarrow> queued_send \<Rightarrow> bool" where
  "ends e e' \<longleftrightarrow> ended e' = ended e + (if qs_phase e' = Finished then 1 else 0)"

lemma ends_fail: "ends e (failRun e)"
  by (simp add: ends_def failRun_def ended_emit is_end_def) (simp add: ended_def destroyRunning_def)

lemma ends_dispatch: "ends e (dispatchRun now e)"
  by (cases "qs_cancelled e") (simp_all add: dispatchRun_def ends_fail Let_def, simp add: ends_def ended_def is_end_def)

lemma ends_afterHold: "ends e (afterHold now e)"
proof (cases "qs_cancelled e")
  case False
  let ?old = "filter (\<lambda>k. \<not> isFresh (qs_items e ! k) now) [0..<length (qs_items e)]"
  let ?e1 = "fold (\<lambda>k s. if qi_file (qs_items e ! k) \<noteq> None then startUpload k s else s) ?old e"
  have "ended ?e1 = ended e" by (rule fold_startUpload [THEN conjunct2, THEN conjunct1])
  with False ends_dispatch [of ?e1 now] show ?thesis by (simp add: afterHold_def Let_def ends_def ended_def)
qed (simp add: afterHold_def ends_fail)

lemma ends_hold: "ends e (holdForSlowMode now slow e)"
  using ends_afterHold [of e now] by (simp add: holdForSlowMode_def Let_def) (simp add: ends_def ended_def)

lemma ends_run: "ends e (runQueuedSend now slow e)"
  using ends_hold [of "e\<lparr>qs_failed := False\<rparr>" now slow] by (simp add: runQueuedSend_def Let_def ends_def ended_def)

lemma settle_fields [simp]:
  "qs_cancelled (settleItem k a b now e) = qs_cancelled e" "qs_out (settleItem k a b now e) = qs_out e"
  "qs_phase (settleItem k a b now e) = qs_phase e" "length (qs_items (settleItem k a b now e)) = length (qs_items e)"
  by (simp_all add: settleItem_def split: option.split)

lemma cancel_fields [simp]:
  "qs_cancelled (cancelQueuedSend e)" "qs_out (cancelQueuedSend e) = qs_out e" "qs_phase (cancelQueuedSend e) = qs_phase e"
  by (simp_all add: cancelQueuedSend_def)

lemma queue_step_ends: "qs_phase e \<noteq> Finished \<Longrightarrow> ends e (queue_step ev e)"
  using ends_hold [of "settleItem k a b now e" now slow for k a b now slow] ends_dispatch [of "settleItem k a b now e" now for k a b now]
    ends_hold [of e] ends_fail [of e]
  by (cases ev; cases "qs_phase e") (auto simp: queue_step_def Let_def ends_def ended_def cancelQueuedSend_def)

lemma finished_stays: "qs_phase e = Finished \<Longrightarrow> qs_phase (queue_step ev e) = Finished \<and> qs_out (queue_step ev e) = qs_out e"
  by (cases ev) (auto simp: queue_step_def cancelQueuedSend_def)

text \<open>A send ends once: whatever answers, rejections, polls and clicks follow, in any order, the row is handed to
  the socket or shown as failed at most once, and exactly when the run has finished.\<close>

theorem send_ends_once:
  assumes "t = fold queue_step es (runQueuedSend now slow e)"
  shows "ended t = ended e + (if qs_phase t = Finished then 1 else 0)"
proof -
  have "ended (fold queue_step es s) = n + (if qs_phase (fold queue_step es s) = Finished then 1 else 0)"
    if "ended s = n + (if qs_phase s = Finished then 1 else 0)" for s n
    using that
  proof (induction es arbitrary: s)
    case (Cons ev es)
    have "ended (queue_step ev s) = n + (if qs_phase (queue_step ev s) = Finished then 1 else 0)"
    proof (cases "qs_phase s = Finished")
      case True
      then show ?thesis using Cons.prems finished_stays [OF True, of ev] by (simp add: ended_def)
    next
      case False
      then show ?thesis using Cons.prems queue_step_ends [OF False, of ev] by (simp add: ends_def)
    qed
    from Cons.IH [OF this] show ?case by simp
  qed simp
  from this [of "runQueuedSend now slow e" "ended e"] show ?thesis using ends_run [of e now slow] assms by (simp add: ends_def)
qed

subsection \<open>Cancelling\<close>

definition cancelled_step :: "queued_send \<Rightarrow> queued_send \<Rightarrow> bool" where
  "cancelled_step e e' \<longleftrightarrow> qs_cancelled e' \<and>
     (if qs_phase e' = Finished then qs_out e' = qs_out e @ [Fail UPLOAD_CANCELLED] else qs_out e' = qs_out e)"

lemma cancelled_fail: "qs_cancelled e \<Longrightarrow> cancelled_step e (failRun e)"
  by (simp add: cancelled_step_def failRun_def destroyRunning_def)

lemma cancelled_queue_step:
  assumes "qs_cancelled e" and "qs_phase e \<noteq> Finished"
  shows "cancelled_step e (queue_step ev e)"
proof -
  have "cancelled_step e (failRun (settleItem k a b now e))" for k a b now
    using assms cancelled_fail [of "settleItem k a b now e"] by (simp add: cancelled_step_def)
  with assms cancelled_fail [of e] show ?thesis
    by (cases ev; cases "qs_phase e")
      (auto simp: queue_step_def holdForSlowMode_def afterHold_def dispatchRun_def Let_def cancelled_step_def cancelQueuedSend_def)
qed

text \<open>C18: A cancelled send is never handed to the socket: whatever arrives afterwards, also the answers of all its
  uploads, the run dispatches nothing more, and when it finishes the row fails as cancelled.\<close>

theorem cancelled_send_fails:
  assumes "qs_phase e \<noteq> Finished" and "t = fold queue_step es (cancelQueuedSend e)"
  shows "if qs_phase t = Finished then qs_out t = qs_out e @ [Fail UPLOAD_CANCELLED] else qs_out t = qs_out e"
proof -
  have "if qs_phase (fold queue_step es s) = Finished then qs_out (fold queue_step es s) = out @ [Fail UPLOAD_CANCELLED]
      else qs_out (fold queue_step es s) = out"
    if "qs_cancelled s" "if qs_phase s = Finished then qs_out s = out @ [Fail UPLOAD_CANCELLED] else qs_out s = out" for s out
    using that
  proof (induction es arbitrary: s)
    case (Cons ev es)
    have "qs_cancelled (queue_step ev s) \<and> (if qs_phase (queue_step ev s) = Finished
        then qs_out (queue_step ev s) = out @ [Fail UPLOAD_CANCELLED] else qs_out (queue_step ev s) = out)"
    proof (cases "qs_phase s = Finished")
      case True
      then have "qs_cancelled (queue_step ev s)" using Cons.prems(1) by (cases ev) (auto simp: queue_step_def cancelQueuedSend_def)
      with True Cons.prems finished_stays [OF True, of ev] show ?thesis by simp
    next
      case False
      then show ?thesis using Cons.prems cancelled_queue_step [OF Cons.prems(1) False, of ev] by (auto simp: cancelled_step_def split: if_splits)
    qed
    with Cons.IH show ?case by simp
  qed simp
  from this [of "cancelQueuedSend e" "qs_out e"] assms show ?thesis by simp
qed


subsection \<open>Dispatching\<close>

text \<open>What a part of the run that dispatches may have done.\<close>

definition sound :: "int \<Rightarrow> queued_send \<Rightarrow> queued_send \<Rightarrow> bool" where
  "sound now e e' \<longleftrightarrow> subseq (map qi_file (qs_items e')) (map qi_file (qs_items e)) \<and>
     (\<exists>xs. qs_out e' = qs_out e @ xs \<and> (\<forall>fs. Dispatch fs \<in> set xs \<longrightarrow> \<not> qs_cancelled e \<and> fs = map asFile (qs_items e') \<and>
        list_all (\<lambda>i. qi_id i \<noteq> None \<and> isFresh i now) (qs_items e')))"

lemma sound_fail: "sound now e (failRun e)"
  by (simp add: sound_def failRun_def destroyRunning_def comp_def)

lemma sound_dispatch: "sound now e (dispatchRun now e)"
proof (cases "qs_cancelled e")
  case False
  have "subseq (map qi_file (filter P xs)) (map qi_file xs)" for P xs by (simp add: subseq_map)
  with False show ?thesis by (auto simp: dispatchRun_def Let_def sound_def list_all_iff)
qed (simp add: dispatchRun_def sound_fail)

lemma sound_trans:
  assumes "sound now e e'" and "qs_out e = qs_out d" "qs_cancelled e = qs_cancelled d" "map qi_file (qs_items e) = map qi_file (qs_items d)"
  shows "sound now d e'"
  using assms by (simp add: sound_def)

lemma startUploads_kept:
  "map qi_file (qs_items (fold (\<lambda>k s. if P k then startUpload k s else s) ks e)) = map qi_file (qs_items e) \<and>
   (\<exists>xs. qs_out (fold (\<lambda>k s. if P k then startUpload k s else s) ks e) = qs_out e @ xs \<and> (\<forall>fs. Dispatch fs \<notin> set xs))"
proof (induction ks arbitrary: e)
  case (Cons k ks)
  have files: "map qi_file (qs_items (startUpload k e)) = map qi_file (qs_items e)"
    by (cases "k < length (qs_items e)") (simp_all add: startUpload_def map_update list_update_same_conv list_update_beyond)
  have "qs_out (startUpload k e) = qs_out e @ [Start_upload k]" by (simp add: startUpload_def)
  with files Cons.IH [of "startUpload k e"] Cons.IH [of e] show ?case by (cases "P k") auto
qed simp

lemma sound_afterHold: "sound now e (afterHold now e)"
proof (cases "qs_cancelled e")
  case False
  let ?old = "filter (\<lambda>k. \<not> isFresh (qs_items e ! k) now) [0..<length (qs_items e)]"
  define e1 where "e1 = fold (\<lambda>k s. if qi_file (qs_items e ! k) \<noteq> None then startUpload k s else s) ?old e"
  have kept: "map qi_file (qs_items e1) = map qi_file (qs_items e)" "\<exists>xs. qs_out e1 = qs_out e @ xs \<and> (\<forall>fs. Dispatch fs \<notin> set xs)"
    unfolding e1_def by (rule startUploads_kept [THEN conjunct1], rule startUploads_kept [THEN conjunct2])
  have "qs_cancelled e1 = qs_cancelled e" unfolding e1_def by (rule fold_startUpload [THEN conjunct1])
  with sound_dispatch [of now e1] kept have "sound now e (dispatchRun now e1)" "sound now e (e1\<lparr>qs_phase := p\<rparr>)" for p
    by (fastforce simp: sound_def)+
  with False show ?thesis unfolding afterHold_def Let_def e1_def [symmetric] by simp
qed (simp add: afterHold_def sound_fail)

lemma sound_hold: "sound now e (holdForSlowMode now slow e)"
  using sound_afterHold [of now e] by (simp add: holdForSlowMode_def Let_def) (simp add: sound_def)

lemma settle_files: "map qi_file (qs_items (settleItem k a b now e)) = map qi_file (qs_items e)"
  by (cases "k < length (qs_items e)") (simp_all add: settleItem_def map_update list_update_same_conv list_update_beyond split: option.split)

definition event_time :: "queue_event \<Rightarrow> int" where
  "event_time ev = (case ev of Upload_done _ _ _ now _ \<Rightarrow> now | Poll now _ \<Rightarrow> now | _ \<Rightarrow> 0)"

text \<open>What is handed to the socket is what the server still has: a step dispatches only a send that was not
  cancelled, with the ids of the chips that are left, in their order, each younger than the
  server's sweep at that moment, and no chip appears from nowhere.\<close>

theorem dispatch_is_fresh:
  assumes "t = queue_step ev e"
  shows "subseq (map qi_file (qs_items t)) (map qi_file (qs_items e)) \<and>
    (\<exists>xs. qs_out t = qs_out e @ xs \<and> (\<forall>fs. Dispatch fs \<in> set xs \<longrightarrow> \<not> qs_cancelled e \<and> fs = map asFile (qs_items t) \<and>
       list_all (\<lambda>i. qi_id i \<noteq> None \<and> isFresh i (event_time ev)) (qs_items t)))"
proof -
  have kept: "sound now e (settleItem k a b now' e)" "sound now e (settleItem k a b now' e\<lparr>qs_phase := p\<rparr>)" for now k a b now' p
    using settle_files by (simp_all add: sound_def)
  have "sound now e (holdForSlowMode now slow (settleItem k a b now e))" "sound now e (dispatchRun now (settleItem k a b now e))" for k a b now slow
    by (rule sound_trans [OF sound_hold] sound_trans [OF sound_dispatch]; simp add: settle_files)+
  then have "sound (event_time ev) e (queue_step ev e)"
    by (cases ev; cases "qs_phase e")
      (auto simp: queue_step_def event_time_def Let_def kept sound_hold sound_fail, auto simp: sound_def cancelQueuedSend_def comp_def)
  then show ?thesis unfolding assms sound_def .
qed


subsection \<open>Finishing\<close>

definition waiting :: "queued_send \<Rightarrow> nat list" where
  "waiting e = (case qs_phase e of Settling ks \<Rightarrow> ks | Resettling ks \<Rightarrow> ks | _ \<Rightarrow> [])"

text \<open>All uploads that the run waits for are answered, outside slow mode.\<close>

definition answer_all :: "(nat \<Rightarrow> string) \<Rightarrow> int \<Rightarrow> queued_send \<Rightarrow> queued_send" where
  "answer_all rid now e = fold (\<lambda>k. queue_step (Upload_done k (rid k) ''f'' now None)) (waiting e) e"

lemma failRun_finished [simp]: "qs_phase (failRun e) = Finished"
  by (simp add: failRun_def)

lemma dispatchRun_finished [simp]: "qs_phase (dispatchRun now e) = Finished"
  by (simp add: dispatchRun_def Let_def)

lemma afterHold_phase: "qs_phase (afterHold now e) = Finished \<or> (\<exists>ks. qs_phase (afterHold now e) = Resettling ks \<and> ks \<noteq> [] \<and> distinct ks)"
  by (simp add: afterHold_def Let_def)

lemma answer_resettling:
  "qs_phase e = Resettling ks \<Longrightarrow> distinct ks \<Longrightarrow> ks \<noteq> [] \<Longrightarrow>
     qs_phase (fold (\<lambda>k. queue_step (Upload_done k (rid k) n now None)) ks e) = Finished"
proof (induction ks arbitrary: e)
  case (Cons k ks)
  let ?e1 = "queue_step (Upload_done k (rid k) n now None) e"
  have rest: "filter (\<lambda>j. j \<noteq> k) (k # ks) = ks" using Cons.prems(2) by (auto simp: filter_id_conv)
  show ?case
  proof (cases "ks = []")
    case True
    then show ?thesis using Cons.prems(1) by (simp add: queue_step_def Let_def)
  next
    case False
    then have "qs_phase ?e1 = Resettling ks" using Cons.prems(1) rest by (simp add: queue_step_def Let_def)
    then show ?thesis using Cons.IH [of ?e1] Cons.prems(2) False by simp
  qed
qed simp

lemma answer_settling:
  "qs_phase e = Settling ks \<Longrightarrow> distinct ks \<Longrightarrow> ks \<noteq> [] \<Longrightarrow>
     (\<exists>d. fold (\<lambda>k. queue_step (Upload_done k (rid k) n now None)) ks e = afterHold now d)"
proof (induction ks arbitrary: e)
  case (Cons k ks)
  let ?e1 = "queue_step (Upload_done k (rid k) n now None) e"
  have rest: "filter (\<lambda>j. j \<noteq> k) (k # ks) = ks" using Cons.prems(2) by (auto simp: filter_id_conv)
  show ?case
  proof (cases "ks = []")
    case True
    then show ?thesis using Cons.prems(1) by (auto simp: queue_step_def Let_def holdForSlowMode_def)
  next
    case False
    then have "qs_phase ?e1 = Settling ks" using Cons.prems(1) rest by (simp add: queue_step_def Let_def)
    then show ?thesis using Cons.IH [of ?e1] Cons.prems(2) False by simp
  qed
qed simp

text \<open>A queued send does not hang: once every upload it waits for has been answered, and every upload that it
  started again because an id had grown old, the run has finished. Two rounds of answers are enough.\<close>

theorem queued_send_finishes:
  assumes "qs_phase e = Settling ks \<or> qs_phase e = Resettling ks" and "distinct ks" and "ks \<noteq> []"
  shows "qs_phase (answer_all rid' now' (answer_all rid now e)) = Finished"
proof -
  let ?e1 = "answer_all rid now e"
  have "qs_phase ?e1 = Finished \<or> (\<exists>ks. qs_phase ?e1 = Resettling ks \<and> ks \<noteq> [] \<and> distinct ks)"
    using assms(1)
  proof
    assume "qs_phase e = Settling ks"
    with answer_settling [OF this assms(2,3), of rid "''f''" now] obtain d where "?e1 = afterHold now d"
      by (auto simp: answer_all_def waiting_def)
    with afterHold_phase [of now d] show ?thesis by simp
  next
    assume "qs_phase e = Resettling ks"
    with answer_resettling [OF this assms(2,3), of rid "''f''" now] show ?thesis by (simp add: answer_all_def waiting_def)
  qed
  then show ?thesis
  proof (elim disjE exE conjE)
    fix ls
    assume "qs_phase ?e1 = Resettling ls" "ls \<noteq> []" "distinct ls"
    then show ?thesis using answer_resettling [of ?e1 ls rid' "''f''" now'] by (simp add: answer_all_def [of rid'] waiting_def)
  qed (simp add: answer_all_def [of rid'] waiting_def)
qed


definition sample_send :: queued_send where
  "sample_send = \<lparr>qs_cid = ''c'', qs_channelId = 1, qs_userId = 7, qs_content = ''hi'', qs_replyTo = None, qs_replyPing = False,
     qs_items = [\<lparr>qi_filename = ''a.png'', qi_file = Some 0, qi_id = None, qi_uploadedAt = None,
       qi_upload = Some \<lparr>ul_settledAt = None, ul_destroyed = False\<rparr>\<rparr>],
     qs_cancelled = False, qs_failed = False, qs_phase = Settling [0], qs_out = []\<rparr>"

theorem queued_send_finishes_witness:
  "qs_phase (answer_all (\<lambda>_. ''x'') 5 (answer_all (\<lambda>_. ''x'') 5 sample_send)) = Finished \<and>
   qs_out (answer_all (\<lambda>_. ''x'') 5 sample_send) = [Dispatch [\<lparr>sa_id = ''x'', sa_filename = ''f'', sa_file = Some 0\<rparr>]]"
proof -
  have "qs_phase sample_send = Settling [0]" by (simp add: sample_send_def)
  then have "qs_phase (answer_all (\<lambda>_. ''x'') 5 (answer_all (\<lambda>_. ''x'') 5 sample_send)) = Finished"
    using queued_send_finishes [of sample_send "[0]"] by simp
  moreover have "qs_out (answer_all (\<lambda>_. ''x'') 5 sample_send) = [Dispatch [\<lparr>sa_id = ''x'', sa_filename = ''f'', sa_file = Some 0\<rparr>]]"
    by code_simp
  ultimately show ?thesis by simp
qed

theorem cancelled_send_fails_witness:
  "qs_out (fold queue_step [Upload_done 0 ''x'' ''f'' 5 None] (cancelQueuedSend sample_send)) = [Fail UPLOAD_CANCELLED]"
proof -
  let ?t = "fold queue_step [Upload_done 0 ''x'' ''f'' 5 None] (cancelQueuedSend sample_send)"
  have "qs_phase ?t = Finished" "qs_phase sample_send \<noteq> Finished" "qs_out sample_send = []" by code_simp+
  then show ?thesis using cancelled_send_fails [OF _ refl, of sample_send "[Upload_done 0 ''x'' ''f'' 5 None]"] by simp
qed

theorem send_ends_once_witness:
  "ended (fold queue_step [Upload_done 0 ''x'' ''f'' 5 None, Cancel, Upload_rejected 0] (runQueuedSend 4 None sample_send)) = 1"
proof -
  let ?es = "[Upload_done 0 ''x'' ''f'' 5 None, Cancel, Upload_rejected 0]"
  have "qs_phase (fold queue_step ?es (runQueuedSend 4 None sample_send)) = Finished" "ended sample_send = 0" by code_simp+
  then show ?thesis using send_ends_once [of _ ?es 4 None sample_send, OF refl] by simp
qed

theorem dispatch_is_fresh_witness:
  "\<exists>t. t = queue_step (Upload_done 0 ''x'' ''f'' 5 None) sample_send \<and> qs_out t \<noteq> [] \<and>
     list_all (\<lambda>i. qi_id i \<noteq> None \<and> isFresh i 5) (qs_items t)"
proof -
  let ?ev = "Upload_done 0 ''x'' ''f'' 5 None"
  have out: "qs_out (queue_step ?ev sample_send) = [Dispatch [\<lparr>sa_id = ''x'', sa_filename = ''f'', sa_file = Some 0\<rparr>]]" "qs_out sample_send = []"
    by code_simp+
  with dispatch_is_fresh [of _ ?ev sample_send, OF refl] show ?thesis by (auto simp: event_time_def)
qed

end
