(* ===== verification/Increasing_Run.thy ===== *)
theory Increasing_Run
  imports Prelude
begin

text \<open>
  \<open>longestIncreasingRun\<close> of \<open>lib/net/reconcile.ts\<close>: the positions of one longest strictly increasing
  run of a list of numbers, negative ones left out, by piles and binary search. The rows at these
  positions stay where they are when a list is redrawn. The run that the back pointers give is
  increasing and no increasing run is longer.
\<close>

section \<open>The search\<close>

text \<open>\<open>tails\<close> holds for each length the position that ends the best run of that length, \<open>prev\<close> the
  position before each one, or -1.\<close>

function bisect :: "int list \<Rightarrow> nat list \<Rightarrow> int \<Rightarrow> nat \<Rightarrow> nat \<Rightarrow> nat" where
  "bisect vs tails v lo hi = (
     if lo < hi then
       let mid = (lo + hi) div 2
       in if vs ! (tails ! mid) < v then bisect vs tails v (mid + 1) hi else bisect vs tails v lo mid
     else lo)"
  by pat_completeness auto
termination by (relation "measure (\<lambda>(vs, tails, v, lo, hi). hi - lo)") auto

declare bisect.simps [simp del]

text \<open>An assignment at an index of an array, which may be its end.\<close>

definition put_at :: "'a list \<Rightarrow> nat \<Rightarrow> 'a \<Rightarrow> 'a list" where
  "put_at xs k x = (if k < length xs then xs[k := x] else xs @ [x])"

definition runStep :: "int list \<Rightarrow> nat \<Rightarrow> nat list \<times> int list \<Rightarrow> nat list \<times> int list" where
  "runStep vs i st = (case st of (tails, prev) \<Rightarrow>
     let v = vs ! i
     in if v < 0 then (tails, prev)
        else let lo = bisect vs tails v 0 (length tails)
          in (put_at tails lo i, prev[i := if lo > 0 then int (tails ! (lo - 1)) else - 1]))"

partial_function (option) collectRun :: "int list \<Rightarrow> int \<Rightarrow> nat list option" where
  "collectRun prev i = (if i < 0 then Some [] else Option.bind (collectRun prev (prev ! nat i)) (\<lambda>keep. Some (nat i # keep)))"

declare collectRun.simps [code]

definition longestIncreasingRun :: "int list \<Rightarrow> nat jset option" where
  "longestIncreasingRun vs = (
     case fold (runStep vs) [0..<length vs] ([], replicate (length vs) (- 1)) of (tails, prev) \<Rightarrow>
       collectRun prev (if tails \<noteq> [] then int (last tails) else - 1))"

section \<open>Increasing runs\<close>

definition run_rel :: "int list \<Rightarrow> nat \<Rightarrow> nat \<Rightarrow> bool" where
  "run_rel vs i j = (i < j \<and> vs ! i < vs ! j)"

definition increasing_run :: "int list \<Rightarrow> nat \<Rightarrow> nat list \<Rightarrow> bool" where
  "increasing_run vs n ps = (sorted_wrt (run_rel vs) ps \<and> (\<forall>i \<in> set ps. i < n \<and> 0 \<le> vs ! i))"

lemma run_Nil [simp]: "increasing_run vs n []"
  by (simp add: increasing_run_def)

lemma run_mono: "increasing_run vs n ps \<Longrightarrow> n \<le> m \<Longrightarrow> increasing_run vs m ps"
  by (auto simp: increasing_run_def)

lemma run_snoc: "increasing_run vs n (ps @ [i]) \<longleftrightarrow>
    increasing_run vs n ps \<and> i < n \<and> 0 \<le> vs ! i \<and> (\<forall>j \<in> set ps. run_rel vs j i)"
  by (auto simp: increasing_run_def sorted_wrt_append)

text \<open>It is enough to compare with the last position of the run.\<close>

lemma run_extend:
  assumes "increasing_run vs n ps" and "ps \<noteq> [] \<longrightarrow> vs ! last ps < vs ! i" and "0 \<le> vs ! i" and "n \<le> i"
  shows "increasing_run vs (Suc i) (ps @ [i])"
proof -
  have "run_rel vs j i" if "j \<in> set ps" for j
  proof (cases ps rule: rev_cases)
    case (snoc qs l)
    then show ?thesis using assms that by (auto simp: increasing_run_def sorted_wrt_append run_rel_def)
  qed (use that in simp)
  with assms(3) run_mono [OF assms(1), of "Suc i"] assms(4) show ?thesis by (simp add: run_snoc)
qed

text \<open>Following the back pointers from the end of a run gives the run.\<close>

fun linked :: "int list \<Rightarrow> nat list \<Rightarrow> bool" where
  "linked prev [] = True"
| "linked prev [i] = (prev ! i = - 1)"
| "linked prev (i # j # ps) = (prev ! i = int j \<and> linked prev (j # ps))"

lemma collect_linked: "linked prev ps \<Longrightarrow> ps \<noteq> [] \<Longrightarrow> collectRun prev (int (hd ps)) = Some ps"
proof (induction prev ps rule: linked.induct)
  case (2 prev i)
  then show ?case by (simp add: collectRun.simps [of prev "int i"] collectRun.simps [of prev "- 1"])
next
  case (3 prev i j ps)
  then show ?case by (simp add: collectRun.simps [of prev "int i"])
qed simp

lemma linked_update: "i \<notin> set ps \<Longrightarrow> linked (prev[i := p]) ps = linked prev ps"
  by (induction prev ps rule: linked.induct) auto

section \<open>The invariant of the piles\<close>

lemma bisect_spec:
  assumes "lo \<le> hi" and "hi \<le> length tails"
    and "\<And>k l. k < l \<Longrightarrow> l < length tails \<Longrightarrow> vs ! (tails ! k) < vs ! (tails ! l)"
    and "\<And>k. k < lo \<Longrightarrow> vs ! (tails ! k) < v"
    and "\<And>k. hi \<le> k \<Longrightarrow> k < length tails \<Longrightarrow> v \<le> vs ! (tails ! k)"
  shows "bisect vs tails v lo hi \<le> length tails \<and>
    (\<forall>k < length tails. vs ! (tails ! k) < v \<longleftrightarrow> k < bisect vs tails v lo hi)"
  using assms
proof (induction vs tails v lo hi rule: bisect.induct)
  case (1 vs tails v lo hi)
  let ?mid = "(lo + hi) div 2"
  note ord = "1.prems"(3)
  show ?case
  proof (cases "lo < hi")
    case True
    then have mid: "lo \<le> ?mid" "?mid < hi" by auto
    show ?thesis
    proof (cases "vs ! (tails ! ?mid) < v")
      case below: True
      have "vs ! (tails ! k) < v" if "k < ?mid + 1" for k
        using ord [of k ?mid] below that mid "1.prems"(2) by (cases "k = ?mid") force+
      with "1.IH"(1) [OF True refl below] "1.prems" mid True below show ?thesis
        by (simp add: bisect.simps [of vs tails v lo hi] Let_def)
    next
      case above: False
      have "v \<le> vs ! (tails ! k)" if "?mid \<le> k" "k < length tails" for k
        using ord [of ?mid k] above that by (cases "k = ?mid") force+
      with "1.IH"(2) [OF True refl above] "1.prems" mid True above show ?thesis
        by (simp add: bisect.simps [of vs tails v lo hi] Let_def)
    qed
  next
    case False
    then have "lo = hi" using "1.prems"(1) by simp
    then have "vs ! (tails ! k) < v \<longleftrightarrow> k < lo" if "k < length tails" for k
      using "1.prems"(4) [of k] "1.prems"(5) [of k] that by linarith
    then show ?thesis using "1.prems"(2) \<open>lo = hi\<close> by (simp add: bisect.simps [of vs tails v hi hi])
  qed
qed

definition ends_sorted :: "int list \<Rightarrow> nat list \<Rightarrow> bool" where
  "ends_sorted vs tails = (\<forall>k l. k < l \<longrightarrow> l < length tails \<longrightarrow> vs ! (tails ! k) < vs ! (tails ! l))"

definition chain_at :: "int list \<Rightarrow> nat \<Rightarrow> nat list \<Rightarrow> int list \<Rightarrow> nat \<Rightarrow> bool" where
  "chain_at vs n tails prev k =
     (\<exists>ps. linked prev (tails ! k # ps) \<and> length ps = k \<and> increasing_run vs n (rev ps @ [tails ! k]))"

definition best_ends :: "int list \<Rightarrow> nat \<Rightarrow> nat list \<Rightarrow> bool" where
  "best_ends vs n tails = (\<forall>ps. ps \<noteq> [] \<longrightarrow> increasing_run vs n ps \<longrightarrow>
     length ps \<le> length tails \<and> vs ! (tails ! (length ps - 1)) \<le> vs ! last ps)"

definition piles_ok :: "int list \<Rightarrow> nat \<Rightarrow> nat list \<times> int list \<Rightarrow> bool" where
  "piles_ok vs n st = (case st of (tails, prev) \<Rightarrow> length prev = length vs \<and> ends_sorted vs tails \<and>
     (\<forall>k < length tails. chain_at vs n tails prev k) \<and> best_ends vs n tails)"

lemma piles_start: "piles_ok vs 0 ([], replicate (length vs) (- 1))"
  by (auto simp: piles_ok_def ends_sorted_def best_ends_def increasing_run_def neq_Nil_conv)

text \<open>One value: it takes the place of the first end that is not below it.\<close>

lemma nth_put_at:
  assumes "lo \<le> length xs" and "k < length (put_at xs lo x)"
  shows "put_at xs lo x ! k = (if k = lo then x else xs ! k)" and "k \<noteq> lo \<Longrightarrow> k < length xs"
  using assms by (auto simp: put_at_def nth_append split: if_splits)

lemma length_put_at: "lo \<le> length xs \<Longrightarrow> lo < length (put_at xs lo x)" "length xs \<le> length (put_at xs lo x)"
  by (auto simp: put_at_def)

lemma ends_step:
  assumes "ends_sorted vs tails" and "lo \<le> length tails" and lo: "\<And>k. k < length tails \<Longrightarrow> vs ! (tails ! k) < vs ! i \<longleftrightarrow> k < lo"
  shows "ends_sorted vs (put_at tails lo i)"
proof -
  have "vs ! (put_at tails lo i ! k) < vs ! (put_at tails lo i ! l)" if "k < l" "l < length (put_at tails lo i)" for k l
  proof -
    have k: "k < length (put_at tails lo i)" using that by simp
    have ord: "vs ! (tails ! k) < vs ! (tails ! l)" if "l < length tails" using assms(1) \<open>k < l\<close> that by (simp add: ends_sorted_def)
    show ?thesis using nth_put_at [OF assms(2) k] nth_put_at [OF assms(2) that(2)] lo [of l] lo [of k] lo [of lo] ord that by fastforce
  qed
  then show ?thesis by (simp add: ends_sorted_def)
qed

lemma chain_at_update:
  assumes "chain_at vs i tails prev k"
  shows "chain_at vs i tails (prev[i := p]) k"
proof -
  obtain ps where ps: "linked prev (tails ! k # ps)" "length ps = k" "increasing_run vs i (rev ps @ [tails ! k])"
    using assms unfolding chain_at_def by blast
  then have "i \<notin> set (tails ! k # ps)" by (auto simp: increasing_run_def)
  with ps show ?thesis unfolding chain_at_def by (metis linked_update)
qed

lemma chain_new:
  assumes "\<And>k. k < lo \<Longrightarrow> chain_at vs i tails prev k" and "\<And>k. k < lo \<Longrightarrow> vs ! (tails ! k) < vs ! i" and "0 \<le> vs ! i"
    and "prev ! i = (if lo > 0 then int (tails ! (lo - 1)) else - 1)" and "ends ! lo = i"
  shows "chain_at vs (Suc i) ends prev lo"
proof (cases "lo = 0")
  case True
  then show ?thesis using assms(3,4,5) run_extend [of vs i "[]" i] by (auto simp: chain_at_def intro!: exI [of _ "[]"])
next
  case False
  then obtain ps where ps: "linked prev (tails ! (lo - 1) # ps)" "length ps = lo - 1" "increasing_run vs i (rev ps @ [tails ! (lo - 1)])"
    using assms(1) [of "lo - 1"] by (auto simp: chain_at_def)
  have "increasing_run vs (Suc i) ((rev ps @ [tails ! (lo - 1)]) @ [i])"
    using run_extend [OF ps(3), of i] assms(2) [of "lo - 1"] False assms(3) by simp
  then show ?thesis using ps False assms(4,5) by (auto simp: chain_at_def intro!: exI [of _ "tails ! (lo - 1) # ps"])
qed

lemma chain_mono: "chain_at vs n tails prev k \<Longrightarrow> n \<le> m \<Longrightarrow> ends ! k = tails ! k \<Longrightarrow> chain_at vs m ends prev k"
  unfolding chain_at_def using run_mono by metis

lemma best_step:
  assumes "best_ends vs i tails" and "ends_sorted vs (put_at tails lo i)" and "lo \<le> length tails"
    and lo: "\<And>k. k < length tails \<Longrightarrow> vs ! (tails ! k) < vs ! i \<longleftrightarrow> k < lo"
  shows "best_ends vs (Suc i) (put_at tails lo i)"
proof -
  let ?ends = "put_at tails lo i"
  note len = length_put_at(1) [OF assms(3), of i] length_put_at(2) [of tails lo i]
  note nth = nth_put_at [OF assms(3)]
  have best: "length ps \<le> length tails \<and> vs ! (tails ! (length ps - 1)) \<le> vs ! last ps" if "ps \<noteq> []" "increasing_run vs i ps" for ps
    using assms(1) that by (auto simp: best_ends_def)
  have "length ps \<le> length ?ends \<and> vs ! (?ends ! (length ps - 1)) \<le> vs ! last ps" if ps: "ps \<noteq> []" "increasing_run vs (Suc i) ps" for ps
  proof (cases "last ps = i")
    case True
    then obtain qs where snoc: "ps = qs @ [i]" using ps(1) by (metis append_butlast_last_id)
    then have qs: "increasing_run vs i qs" "\<forall>j \<in> set qs. vs ! j < vs ! i"
      using ps(2) by (auto simp: increasing_run_def sorted_wrt_append run_rel_def)
    have "length qs \<le> lo"
    proof (cases "qs = []")
      case False
      then have "vs ! last qs < vs ! i" using qs(2) last_in_set by blast
      then show ?thesis using best [OF False qs(1)] lo [of "length qs - 1"] False by (cases qs) auto
    qed simp
    moreover have "?ends ! lo = i" using nth(1) len(1) by simp
    ultimately have "vs ! (?ends ! length qs) \<le> vs ! i"
      using assms(2) [unfolded ends_sorted_def, rule_format, of "length qs" lo] len(1) by (cases "length qs = lo") simp_all
    then show ?thesis using \<open>length qs \<le> lo\<close> len(1) snoc by simp
  next
    case False
    have run: "increasing_run vs i ps"
    proof (cases ps rule: rev_cases)
      case (snoc qs l)
      then show ?thesis using ps(2) False by (force simp: increasing_run_def sorted_wrt_append run_rel_def)
    qed simp
    let ?k = "length ps - 1"
    have k: "?k < length tails" using best [OF ps(1) run] ps(1) by (cases ps) auto
    then have "vs ! (?ends ! ?k) \<le> vs ! (tails ! ?k)" using nth(1) [of ?k] lo [OF k] len(2) by auto
    then show ?thesis using best [OF ps(1) run] len(2) by simp
  qed
  then show ?thesis by (simp add: best_ends_def)
qed

lemma piles_step:
  assumes "piles_ok vs i st" and "i < length vs"
  shows "piles_ok vs (Suc i) (runStep vs i st)"
proof (cases "vs ! i < 0")
  case True
  have "increasing_run vs i ps" if "increasing_run vs (Suc i) ps" for ps
    using that True by (fastforce simp: increasing_run_def less_Suc_eq)
  with assms(1) True show ?thesis
    by (cases st) (auto simp: piles_ok_def runStep_def best_ends_def intro: chain_mono)
next
  case False
  obtain tails prev where st: "st = (tails, prev)" by (cases st)
  define lo where "lo = bisect vs tails (vs ! i) 0 (length tails)"
  define prev' where "prev' = prev[i := if lo > 0 then int (tails ! (lo - 1)) else - 1]"
  have ok: "length prev = length vs" "ends_sorted vs tails" "\<And>k. k < length tails \<Longrightarrow> chain_at vs i tails prev k" "best_ends vs i tails"
    using assms(1) by (auto simp: st piles_ok_def)
  have lo: "lo \<le> length tails" "\<And>k. k < length tails \<Longrightarrow> vs ! (tails ! k) < vs ! i \<longleftrightarrow> k < lo"
    using bisect_spec [of 0 "length tails" tails vs "vs ! i"] ok(2) by (auto simp: lo_def ends_sorted_def)
  have step: "runStep vs i st = (put_at tails lo i, prev')" using False by (simp add: st runStep_def lo_def prev'_def Let_def)
  have "chain_at vs (Suc i) (put_at tails lo i) prev' k" if k: "k < length (put_at tails lo i)" for k
  proof (cases "k = lo")
    case True
    have "prev' ! i = (if lo > 0 then int (tails ! (lo - 1)) else - 1)" using ok(1) assms(2) by (simp add: prev'_def)
    then show ?thesis
      using chain_new [of lo vs i tails prev' "put_at tails lo i"] chain_at_update [OF ok(3)] lo False nth_put_at(1) [OF lo(1) k] True
      by (simp add: prev'_def)
  next
    case kept: False
    have "chain_at vs i tails prev' k"
      unfolding prev'_def by (rule chain_at_update [OF ok(3) [OF nth_put_at(2) [OF lo(1) k kept]]])
    then show ?thesis by (rule chain_mono) (simp_all add: kept nth_put_at(1) [OF lo(1) k])
  qed
  with ends_step [OF ok(2) lo] best_step [OF ok(4) ends_step [OF ok(2) lo] lo] ok(1) show ?thesis
    by (simp add: step piles_ok_def prev'_def)
qed

lemma piles_all: "n \<le> length vs \<Longrightarrow> piles_ok vs n (fold (runStep vs) [0..<n] ([], replicate (length vs) (- 1)))"
  by (induction n) (simp_all add: piles_start piles_step)

text \<open>The run returned, first position last, is increasing, and none is longer.\<close>

lemma longest_run:
  obtains keep where "longestIncreasingRun vs = Some keep" and "increasing_run vs (length vs) (rev keep)"
    and "\<And>ps. increasing_run vs (length vs) ps \<Longrightarrow> length ps \<le> length keep"
proof -
  obtain tails prev where st: "fold (runStep vs) [0..<length vs] ([], replicate (length vs) (- 1)) = (tails, prev)" by fastforce
  have ok: "\<And>k. k < length tails \<Longrightarrow> chain_at vs (length vs) tails prev k" "best_ends vs (length vs) tails"
    using piles_all [of "length vs" vs] by (simp_all add: st piles_ok_def)
  have best: "length ps \<le> length tails" if "increasing_run vs (length vs) ps" for ps
    using ok(2) that by (cases "ps = []") (auto simp: best_ends_def)
  show ?thesis
  proof (cases "tails = []")
    case True
    then show ?thesis using that [of "[]"] best by (simp add: longestIncreasingRun_def st collectRun.simps)
  next
    case False
    then obtain ps where ps: "linked prev (last tails # ps)" "length ps = length tails - 1" "increasing_run vs (length vs) (rev ps @ [last tails])"
      using ok(1) [of "length tails - 1"] by (auto simp: chain_at_def last_conv_nth)
    have "longestIncreasingRun vs = Some (last tails # ps)"
      using collect_linked [OF ps(1)] False by (simp add: longestIncreasingRun_def st)
    then show ?thesis using that [of "last tails # ps"] ps best False by simp
  qed
qed

text \<open>C22: The rows that stay in place form a longest increasing run of old positions: no redraw can leave more rows
  untouched. The result always arrives, although the loop over the back pointers has no bound of its own.\<close>

theorem longest_run_stays:
  "\<exists>keep. longestIncreasingRun vs = Some keep \<and> increasing_run vs (length vs) (rev keep) \<and>
     (\<forall>ps. increasing_run vs (length vs) ps \<longrightarrow> length ps \<le> length keep)"
  using longest_run [of vs] by metis

theorem longest_run_stays_witness:
  "\<exists>keep. longestIncreasingRun [3, 0, -1, 1, 2] = Some keep \<and> length keep = 3 \<and> 2 \<notin> set keep"
proof -
  let ?vs = "[3, 0, -1, 1, 2] :: int list"
  obtain keep where keep: "longestIncreasingRun ?vs = Some keep" "increasing_run ?vs (length ?vs) (rev keep)"
    "\<forall>ps. increasing_run ?vs (length ?vs) ps \<longrightarrow> length ps \<le> length keep"
    using longest_run_stays [of ?vs] by blast
  have "longestIncreasingRun ?vs = Some [4, 3, 1]" by code_simp
  moreover have "2 \<notin> set keep" using keep(2) by (auto simp: increasing_run_def)
  ultimately show ?thesis using keep(1) by simp
qed

end
