(* ===== verification/Reconciler.thy ===== *)
theory Reconciler
  imports Increasing_Run Complex_Main
begin

text \<open>
  \<open>lib/net/reconcile.ts\<close>: the keyed-list reconciler under the sidebars. A container is the list of its
  child nodes; \<open>META\<close> says which row a node is. A row whose key is known keeps its node when what it
  draws is unchanged, others are built, gone ones removed, and as few nodes as possible move. What a
  row's callbacks do to the page is an entry of a log. The focus that a replaced row hands on is
  left out.
\<close>

section \<open>Row models\<close>

datatype js_num = Finite rat | Infinite bool | Not_a_number

datatype model_value =
    MString string
  | MNumber js_num
  | MBoolean bool
  | MNull
  | MArray "model_value list"
  | MObject "(string \<times> model_value) list"

type_synonym row_model = "(string, model_value) jmap"

text \<open>\<open>a === b\<close> is structural on primitive values but for \<open>NaN\<close>, which the second test catches. For
  arrays and objects it is identity, which the structural comparison subsumes.\<close>

lemma jm_get_size: "jm_get m k = Some v \<Longrightarrow> size v < Suc (size_list (size_prod (\<lambda>_. 0) size) m)"
  by (induction m) (auto simp: jm_get_def split: if_splits)

function sameModel :: "model_value \<Rightarrow> model_value \<Rightarrow> bool" where
  "sameModel a b = (case (a, b) of
     (MArray xs, MArray ys) \<Rightarrow> length xs = length ys \<and> list_all (\<lambda>(v, w). sameModel v w) (zip xs ys)
   | (MObject left, MObject right) \<Rightarrow> length left = length right \<and>
       list_all (\<lambda>k. case (jm_get left k, jm_get right k) of (Some v, Some w) \<Rightarrow> sameModel v w | _ \<Rightarrow> False) (jm_keys left)
   | _ \<Rightarrow> a = b)"
  by pat_completeness auto
termination
proof (relation "measure (\<lambda>(a, b). size a)", goal_cases)
  case (2 a b x y xs ys z v w)
  then have "v \<in> set xs" by (metis set_zip_leftD)
  then show ?case using 2 by (auto simp: less_Suc_eq_le intro: size_list_estimation')
next
  case (3 a b x y left right z p q v w)
  then have "jm_get left z = Some v" and "a = MObject left" by simp_all
  then show ?case using jm_get_size [of left z v] by simp
qed simp

declare sameModel.simps [simp del]

lemma sameModel_refl [simp]: "sameModel a a"
proof (induction "size a" arbitrary: a rule: less_induct)
  case less
  show ?case
  proof (cases a)
    case (MArray xs)
    then have "sameModel v v" if "v \<in> set xs" for v
      using less that by (auto simp: less_Suc_eq_le intro: size_list_estimation')
    with MArray show ?thesis by (auto simp: sameModel.simps [of "MArray xs"] list_all_iff zip_same)
  next
    case (MObject m)
    have "\<exists>v. jm_get m k = Some v \<and> sameModel v v" if "k \<in> set (jm_keys m)" for k
    proof -
      have "jm_get m k \<noteq> None" using that by (simp add: jm_keys_def jm_get_def map_of_eq_None_iff)
      then obtain v where "jm_get m k = Some v" by blast
      then show ?thesis using less [of v] MObject jm_get_size [of m k v] by simp
    qed
    with MObject show ?thesis by (fastforce simp: sameModel.simps [of "MObject m"] list_all_iff split: option.splits)
  qed (simp_all add: sameModel.simps)
qed

text \<open>The names of the fields on which two models differ.\<close>

definition changedFields :: "row_model \<Rightarrow> row_model \<Rightarrow> string list" where
  "changedFields a b = filter
     (\<lambda>k. \<not> (case (jm_get a k, jm_get b k) of (Some v, Some w) \<Rightarrow> sameModel v w | _ \<Rightarrow> False))
     (js_of_list (jm_keys a @ jm_keys b))"

section \<open>Containers\<close>

type_synonym node = nat

text \<open>\<open>rm_model\<close> and \<open>rm_ref\<close> are there for model rows only; \<open>rm_ref\<close> is the live item.\<close>

record 'i row_meta =
  rm_key :: string
  rm_sig :: string
  rm_model :: "row_model option"
  rm_ref :: "'i option"

datatype 'i row_effect = Created node 'i | Updated node 'i | Patched node row_model | Disposed node

text \<open>\<open>cn_next\<close> is the node that the next call of \<open>create\<close> makes.\<close>

record 'i container =
  cn_children :: "node list"
  cn_meta :: "(node, 'i row_meta) jmap"
  cn_next :: node
  cn_log :: "'i row_effect list"

type_synonym 'i visit = "'i \<Rightarrow> string \<Rightarrow> node option \<Rightarrow> 'i container \<Rightarrow> (node \<times> bool) \<times> 'i container"

definition log_row :: "'i row_effect \<Rightarrow> 'i container \<Rightarrow> 'i container" where
  "log_row e c = c\<lparr>cn_log := cn_log c @ [e]\<rparr>"

text \<open>\<open>create\<close> and \<open>META.set\<close>.\<close>

definition buildRow :: "'i \<Rightarrow> 'i row_meta \<Rightarrow> 'i container \<Rightarrow> (node \<times> bool) \<times> 'i container" where
  "buildRow item meta c = ((cn_next c, False),
     (log_row (Created (cn_next c) item) c)\<lparr>cn_meta := jm_set (cn_meta c) (cn_next c) meta, cn_next := Suc (cn_next c)\<rparr>)"

definition currentRow :: "'i container \<Rightarrow> node option \<Rightarrow> (node \<times> 'i row_meta) option" where
  "currentRow c current = Option.bind current (\<lambda>el. map_option (Pair el) (jm_get (cn_meta c) el))"

lemma currentRow_Some [simp]: "currentRow c current = Some (el, meta) \<longleftrightarrow> current = Some el \<and> jm_get (cn_meta c) el = Some meta"
  by (cases current) (auto simp: currentRow_def)

definition childVisit :: "('i \<Rightarrow> string) \<Rightarrow> 'i visit" where
  "childVisit signature item k current c = (
     case currentRow c current of
       Some (el, meta) \<Rightarrow>
         if rm_sig meta = signature item then ((el, True), log_row (Updated el item) c)
         else buildRow item \<lparr>rm_key = k, rm_sig = signature item, rm_model = None, rm_ref = None\<rparr> c
     | None \<Rightarrow> buildRow item \<lparr>rm_key = k, rm_sig = signature item, rm_model = None, rm_ref = None\<rparr> c)"

definition patchRow :: "node \<Rightarrow> 'i row_meta \<Rightarrow> 'i \<Rightarrow> row_model \<Rightarrow> string list \<Rightarrow> 'i container \<Rightarrow> (node \<times> bool) \<times> 'i container" where
  "patchRow el meta item model changed c = (
     let meta1 = meta\<lparr>rm_ref := Some item\<rparr>;
         c1 = (if changed \<noteq> [] then (log_row (Patched el model) c)\<lparr>cn_meta := jm_set (cn_meta c) el (meta1\<lparr>rm_model := Some model\<rparr>)\<rparr>
               else c\<lparr>cn_meta := jm_set (cn_meta c) el meta1\<rparr>)
     in ((el, True), log_row (Updated el item) c1))"

definition modelVisit :: "('i \<Rightarrow> row_model) \<Rightarrow> string list \<Rightarrow> 'i visit" where
  "modelVisit model patchable item k current c = (
     let next = model item;
         build = buildRow item \<lparr>rm_key = k, rm_sig = [], rm_model = Some next, rm_ref = Some item\<rparr> c
     in case currentRow c current of
       Some (el, meta) \<Rightarrow>
         (case (rm_model meta, rm_ref meta) of
            (Some old, Some _) \<Rightarrow>
              (let changed = changedFields old next
               in if list_all (js_has patchable) changed then patchRow el meta item next changed c else build)
          | _ \<Rightarrow> build)
     | None \<Rightarrow> build)"

section \<open>The pass\<close>

definition existingRows :: "'i container \<Rightarrow> (string, node) jmap" where
  "existingRows c = fold (\<lambda>child m. case jm_get (cn_meta c) child of None \<Rightarrow> m | Some meta \<Rightarrow> jm_set m (rm_key meta) child) (cn_children c) []"

record 'i pass =
  ps_container :: "'i container"
  ps_existing :: "(string, node) jmap"
  ps_wanted :: "node list"
  ps_built :: nat

definition visitItem :: "('i \<Rightarrow> string) \<Rightarrow> 'i visit \<Rightarrow> 'i \<Rightarrow> 'i pass \<Rightarrow> 'i pass" where
  "visitItem key visit item p = (
     let k = key item;
         current = jm_get (ps_existing p) k;
         existing = jm_delete (ps_existing p) k
     in case visit item k current (ps_container p) of ((el, reused), c) \<Rightarrow>
       \<lparr>ps_container = c,
        ps_existing = (case current of Some old \<Rightarrow> if reused then existing else jm_set existing k old | None \<Rightarrow> existing),
        ps_wanted = ps_wanted p @ [el],
        ps_built = (if reused then ps_built p else Suc (ps_built p))\<rparr>)"

definition removeRow :: "node \<Rightarrow> 'i container \<Rightarrow> 'i container" where
  "removeRow el c = (log_row (Disposed el) c)\<lparr>cn_children := remove1 el (cn_children c)\<rparr>"

text \<open>A node that is in the list already leaves its place first; no anchor means the end.\<close>

fun place_before :: "node \<Rightarrow> node option \<Rightarrow> node list \<Rightarrow> node list" where
  "place_before el anchor [] = [el]"
| "place_before el anchor (x # xs) = (if anchor = Some x then el # x # xs else x # place_before el anchor xs)"

definition insertBefore :: "node \<Rightarrow> node option \<Rightarrow> node list \<Rightarrow> node list" where
  "insertBefore el anchor children = place_before el anchor (remove1 el children)"

definition oldIndex :: "node list \<Rightarrow> node \<Rightarrow> int" where
  "oldIndex children el = (case find_index (\<lambda>x. x = el) children of None \<Rightarrow> - 1 | Some i \<Rightarrow> int i)"

definition moveStep :: "nat jset \<Rightarrow> node list \<Rightarrow> nat \<Rightarrow> node list \<times> node option \<Rightarrow> node list \<times> node option" where
  "moveStep stay wanted i st = (case st of (children, anchor) \<Rightarrow>
     let el = wanted ! i
     in (if \<not> js_has stay i then insertBefore el anchor children else children, Some el))"

definition moveRows :: "node list \<Rightarrow> node list \<Rightarrow> node list option" where
  "moveRows wanted children =
     map_option (\<lambda>stay. fst (fold (moveStep stay wanted) (rev [0..<length wanted]) (children, None)))
       (longestIncreasingRun (map (oldIndex children) wanted))"

definition reconcileKeyed :: "'i list \<Rightarrow> ('i \<Rightarrow> string) \<Rightarrow> 'i visit \<Rightarrow> 'i container \<Rightarrow> (nat \<times> 'i container) option" where
  "reconcileKeyed items key visit c = (
     let p = fold (visitItem key visit) items \<lparr>ps_container = c, ps_existing = existingRows c, ps_wanted = [], ps_built = 0\<rparr>;
         c1 = fold removeRow (jm_values (ps_existing p)) (ps_container p)
     in map_option (\<lambda>children. (ps_built p, c1\<lparr>cn_children := children\<rparr>)) (moveRows (ps_wanted p) (cn_children c1)))"

definition reconcileChildren :: "('i \<Rightarrow> string) \<Rightarrow> ('i \<Rightarrow> string) \<Rightarrow> 'i list \<Rightarrow> 'i container \<Rightarrow> (nat \<times> 'i container) option" where
  "reconcileChildren key signature items c = reconcileKeyed items key (childVisit signature) c"

definition reconcileModels ::
  "('i \<Rightarrow> string) \<Rightarrow> ('i \<Rightarrow> row_model) \<Rightarrow> string list \<Rightarrow> 'i list \<Rightarrow> 'i container \<Rightarrow> (nat \<times> 'i container) option" where
  "reconcileModels key model patchable items c = reconcileKeyed items key (modelVisit model patchable) c"

section \<open>The moves\<close>

lemma place_before_end: "place_before el None xs = xs @ [el]"
  by (induction xs) auto

lemma place_before_anchor: "a \<notin> set us \<Longrightarrow> place_before el (Some a) (us @ a # vs) = us @ el # a # vs"
  by (induction us) auto

lemma set_place_before: "set (place_before el anchor xs) = insert el (set xs)"
  by (induction xs) auto

lemma distinct_place_before: "distinct xs \<Longrightarrow> el \<notin> set xs \<Longrightarrow> distinct (place_before el anchor xs)"
  by (induction xs) (auto simp: set_place_before)

lemma filter_remove1: "\<not> P x \<Longrightarrow> filter P (remove1 x xs) = filter P xs"
  by (induction xs) auto

text \<open>A node put before its right neighbour takes its place among the nodes that are in order already.\<close>

lemma place_in_order:
  assumes "distinct (as @ el # a # bs)" and "a \<in> set xs" and "distinct xs" and "el \<notin> set xs" and "a \<in> D" and "el \<notin> D"
    and "filter (\<lambda>x. x \<in> D) xs = filter (\<lambda>x. x \<in> D) (as @ el # a # bs)"
  shows "filter (\<lambda>x. x \<in> insert el D) (place_before el (Some a) xs) = filter (\<lambda>x. x \<in> insert el D) (as @ el # a # bs)"
proof -
  obtain us vs where xs: "xs = us @ a # vs" and us: "a \<notin> set us" using split_list_first [OF assms(2)] by blast
  have "a \<notin> set (filter (\<lambda>x. x \<in> D) us)" "a \<notin> set (filter (\<lambda>x. x \<in> D) vs)" using us assms(3) xs by auto
  note split = append_Cons_eq_iff [OF this]
  have "filter (\<lambda>x. x \<in> D) us @ a # filter (\<lambda>x. x \<in> D) vs = filter (\<lambda>x. x \<in> D) as @ a # filter (\<lambda>x. x \<in> D) bs"
    using assms(5,6,7) by (simp add: xs)
  then have eq: "filter (\<lambda>x. x \<in> D) us = filter (\<lambda>x. x \<in> D) as" "filter (\<lambda>x. x \<in> D) vs = filter (\<lambda>x. x \<in> D) bs"
    unfolding split by simp_all
  have grow: "filter (\<lambda>x. x = el \<or> x \<in> D) ys = filter (\<lambda>x. x \<in> D) ys" if "el \<notin> set ys" for ys
    using that by (intro filter_cong) auto
  show ?thesis using eq assms(1,4,5) by (simp add: xs place_before_anchor [OF us] grow)
qed

definition in_place :: "node list \<Rightarrow> node set \<Rightarrow> nat \<Rightarrow> node set" where
  "in_place W S i = S \<union> set (drop i W)"

definition moved_ok :: "node list \<Rightarrow> node list \<Rightarrow> node set \<Rightarrow> nat \<Rightarrow> node list \<times> node option \<Rightarrow> bool" where
  "moved_ok C W S i st = (distinct (fst st) \<and> set (fst st) = set C \<union> set (drop i W) \<and>
     snd st = (if i < length W then Some (W ! i) else None) \<and>
     filter (\<lambda>x. x \<in> in_place W S i) (fst st) = filter (\<lambda>x. x \<in> in_place W S i) W)"

lemma moved_step:
  assumes "moved_ok C W S (Suc i) st" and "i < length W" and "distinct W"
    and "S \<subseteq> set C" and stay: "\<And>j. j < length W \<Longrightarrow> js_has stay j \<longleftrightarrow> W ! j \<in> S"
  shows "moved_ok C W S i (moveStep stay W i st)"
proof -
  obtain L anchor where st: "st = (L, anchor)" by (cases st)
  let ?el = "W ! i"
  have dropi: "drop i W = ?el # drop (Suc i) W" using assms(2) by (simp add: Cons_nth_drop_Suc)
  have grow: "in_place W S i = insert ?el (in_place W S (Suc i))" by (simp add: in_place_def dropi)
  show ?thesis
  proof (cases "js_has stay i")
    case True
    then have "?el \<in> S" using stay [OF assms(2)] by simp
    then have "in_place W S i = in_place W S (Suc i)" "?el \<in> set C" using assms(4) by (auto simp: in_place_def dropi)
    then show ?thesis using assms(1,2) True by (auto simp: moved_ok_def st moveStep_def Let_def dropi)
  next
    case False
    then have "?el \<notin> S" using stay [OF assms(2)] by simp
    moreover have fresh: "?el \<notin> set (drop (Suc i) W)" using assms(2,3) dropi by (metis distinct.simps(2) distinct_drop)
    ultimately have out: "?el \<notin> in_place W S (Suc i)" by (simp add: in_place_def)
    let ?xs = "remove1 ?el L"
    have xs: "distinct ?xs" "?el \<notin> set ?xs" "filter (\<lambda>x. x \<in> in_place W S (Suc i)) ?xs = filter (\<lambda>x. x \<in> in_place W S (Suc i)) W"
      using assms(1) out by (auto simp: moved_ok_def st filter_remove1)
    have step: "moveStep stay W i st = (place_before ?el anchor ?xs, Some ?el)"
      using False by (simp add: st moveStep_def insertBefore_def Let_def)
    have sets: "set (place_before ?el anchor ?xs) = set C \<union> set (drop i W)"
      using assms(1) by (auto simp: moved_ok_def st set_place_before dropi)
    have "filter (\<lambda>x. x \<in> in_place W S i) (place_before ?el anchor ?xs) = filter (\<lambda>x. x \<in> in_place W S i) W"
    proof (cases "Suc i < length W")
      case True
      let ?a = "W ! Suc i"
      have W: "W = take i W @ ?el # ?a # drop (Suc (Suc i)) W" using True by (metis Cons_nth_drop_Suc Suc_lessD append_take_drop_id)
      have a: "?a \<in> set (drop (Suc i) W)" using True by (metis Cons_nth_drop_Suc list.set_intros(1))
      then have "?a \<in> set ?xs" "?a \<in> in_place W S (Suc i)"
        using assms(1) fresh by (auto simp: moved_ok_def st in_place_def)
      moreover have "anchor = Some ?a" using assms(1) True by (simp add: moved_ok_def st)
      ultimately show ?thesis unfolding grow
        using place_in_order [of "take i W" ?el ?a "drop (Suc (Suc i)) W" ?xs "in_place W S (Suc i)"] xs out assms(3) W by metis
    next
      case last: False
      then have W: "W = take i W @ [?el]" using assms(2) dropi by (metis append_take_drop_id drop_all not_less)
      have "anchor = None" using assms(1) last by (simp add: moved_ok_def st)
      moreover have "?el \<notin> set (take i W)" using assms(3) W by (metis distinct_append disjoint_iff list.set_intros(1))
      moreover have "filter (\<lambda>x. x \<in> in_place W S i) ys = filter (\<lambda>x. x \<in> in_place W S (Suc i)) ys" if "?el \<notin> set ys" for ys
        using that by (intro filter_cong) (auto simp: grow)
      ultimately show ?thesis using xs out
        by (subst W, subst (asm) (5) W) (simp add: place_before_end grow)
    qed
    then show ?thesis using xs(1,2) sets assms(2) by (simp add: moved_ok_def step distinct_place_before)
  qed
qed

lemma moved_all:
  assumes "i \<le> length W" and "distinct W" and "distinct C" and "S \<subseteq> set C"
    and stay: "\<And>j. j < length W \<Longrightarrow> js_has stay j \<longleftrightarrow> W ! j \<in> S"
    and "filter (\<lambda>x. x \<in> S) C = filter (\<lambda>x. x \<in> S) W"
  shows "moved_ok C W S i (fold (moveStep stay W) (rev [i..<length W]) (C, None))"
  using assms(1)
proof (induction rule: inc_induct)
  case base
  then show ?case using assms(3,6) by (simp add: moved_ok_def in_place_def)
next
  case (step i)
  then show ?case using moved_step [OF step.IH step.hyps(2) assms(2,4) stay] by (simp add: upt_conv_Cons)
qed

text \<open>Nodes that stay are in the same order in both lists.\<close>

lemma oldIndex_iff: "0 \<le> oldIndex C x \<longleftrightarrow> x \<in> set C"
  using find_index_None [of "\<lambda>y. y = x" C] by (cases "find_index (\<lambda>y. y = x) C") (auto simp: oldIndex_def)

lemma oldIndex_nth: "x \<in> set C \<Longrightarrow> nat (oldIndex C x) < length C \<and> C ! nat (oldIndex C x) = x"
  by (auto simp: oldIndex_def find_index_None split: option.splits dest: find_index_SomeD)

lemma oldIndex_pos: "distinct C \<Longrightarrow> i < length C \<Longrightarrow> oldIndex C (C ! i) = int i"
  using oldIndex_nth [of "C ! i" C] oldIndex_iff [of C "C ! i"] nth_eq_iff_index_eq [of C "nat (oldIndex C (C ! i))" i] by simp

lemma stay_in_order:
  assumes "increasing_run (map (oldIndex C) W) (length W) (rev keep)" and "distinct W" and "distinct C"
  defines "S \<equiv> (\<lambda>i. W ! i) ` set keep"
  shows "S \<subseteq> set C" and "filter (\<lambda>x. x \<in> S) C = filter (\<lambda>x. x \<in> S) W"
proof -
  have keep: "i < length W" "0 \<le> oldIndex C (W ! i)" if "i \<in> set keep" for i
    using assms(1) that by (auto simp: increasing_run_def)
  then show sub: "S \<subseteq> set C" by (auto simp: S_def oldIndex_iff)
  have run: "oldIndex C (W ! i) < oldIndex C (W ! j)" if "i \<in> set keep" "j \<in> set keep" "i < j" for i j
  proof -
    have "run_rel (map (oldIndex C) W) i j \<or> run_rel (map (oldIndex C) W) j i"
      using assms(1) that sorted_wrt_iff_nth_less [of "run_rel (map (oldIndex C) W)" "rev keep"]
      by (metis (no_types, lifting) in_set_conv_nth increasing_run_def less_irrefl linorder_neqE_nat set_rev)
    then show ?thesis using that keep by (auto simp: run_rel_def)
  qed
  have "sorted_wrt (\<lambda>x y. oldIndex C x < oldIndex C y) (filter (\<lambda>x. x \<in> S) W)"
  proof -
    have "oldIndex C (W ! i) < oldIndex C (W ! j)" if "i < j" "j < length W" "W ! i \<in> S" "W ! j \<in> S" for i j
      using that assms(2) run keep by (auto simp: S_def nth_eq_iff_index_eq)
    then have "sorted_wrt (\<lambda>x y. x \<in> S \<longrightarrow> y \<in> S \<longrightarrow> oldIndex C x < oldIndex C y) W"
      by (auto simp: sorted_wrt_iff_nth_less)
    then have "sorted_wrt (\<lambda>x y. x \<in> S \<longrightarrow> y \<in> S \<longrightarrow> oldIndex C x < oldIndex C y) (filter (\<lambda>x. x \<in> S) W)" by (rule sorted_wrt_filter)
    then show ?thesis by (rule sorted_wrt_mono_rel [rotated]) auto
  qed
  moreover have "sorted_wrt (\<lambda>x y. oldIndex C x < oldIndex C y) (filter (\<lambda>x. x \<in> S) C)"
    by (rule sorted_wrt_filter) (simp add: sorted_wrt_iff_nth_less oldIndex_pos [OF assms(3)])
  moreover have "set (filter (\<lambda>x. x \<in> S) W) = S" "set (filter (\<lambda>x. x \<in> S) C) = S"
    using sub keep by (auto simp: S_def)
  ultimately have "map (oldIndex C) (filter (\<lambda>x. x \<in> S) C) = map (oldIndex C) (filter (\<lambda>x. x \<in> S) W)"
    by (intro strict_sorted_equal) (simp_all add: sorted_wrt_map)
  moreover have "inj_on (oldIndex C) (set C)" using oldIndex_nth by (metis inj_onI)
  ultimately show "filter (\<lambda>x. x \<in> S) C = filter (\<lambda>x. x \<in> S) W"
    using sub keep by (intro map_inj_on [of "oldIndex C"]) (auto simp: inj_on_def S_def)
qed

lemma moveRows_exact:
  assumes "distinct W" and "distinct C" and "set C \<subseteq> set W"
  shows "moveRows W C = Some W"
proof -
  obtain keep where keep: "longestIncreasingRun (map (oldIndex C) W) = Some keep"
    and run: "increasing_run (map (oldIndex C) W) (length W) (rev keep)"
    using longest_run [of "map (oldIndex C) W"] by (metis length_map)
  let ?S = "(\<lambda>i. W ! i) ` set keep"
  have bound: "i < length W" if "i \<in> set keep" for i using run that by (simp add: increasing_run_def)
  have stay: "js_has keep j \<longleftrightarrow> W ! j \<in> ?S" if "j < length W" for j
    using that bound assms(1) by (auto simp: js_has_set nth_eq_iff_index_eq)
  let ?L = "fst (fold (moveStep keep W) (rev [0..<length W]) (C, None))"
  have "moved_ok C W ?S 0 (fold (moveStep keep W) (rev [0..<length W]) (C, None))"
    using moved_all [of 0 W C ?S keep] assms stay stay_in_order [OF run assms(1,2)] by simp
  then have L: "set ?L = set C \<union> set W" "filter (\<lambda>x. x \<in> in_place W ?S 0) ?L = filter (\<lambda>x. x \<in> in_place W ?S 0) W"
    by (simp_all add: moved_ok_def)
  have "filter (\<lambda>x. x \<in> in_place W ?S 0) ?L = ?L" "filter (\<lambda>x. x \<in> in_place W ?S 0) W = W"
    using L(1) assms(3) by (auto simp: in_place_def intro!: filter_True)
  with L(2) have "?L = W" by simp
  then show ?thesis by (simp add: moveRows_def keep)
qed

section \<open>What a visit promises\<close>

text \<open>A visit keeps the node it was given, or builds a fresh one; either way it touches no other row, and its
  row then has the key and draws the item.\<close>

locale row_visitor =
  fixes visit :: "'i visit" and drawn :: "'i row_meta \<Rightarrow> 'i \<Rightarrow> bool"
  assumes visit_children: "visit item k cur c = ((el, reused), c') \<Longrightarrow> cn_children c' = cn_children c"
    and visit_others: "visit item k cur c = ((el, reused), c') \<Longrightarrow> n \<noteq> el \<Longrightarrow> jm_get (cn_meta c') n = jm_get (cn_meta c) n"
    and visit_reused: "visit item k cur c = ((el, True), c') \<Longrightarrow> cur = Some el \<and> cn_next c' = cn_next c"
    and visit_built: "visit item k cur c = ((el, False), c') \<Longrightarrow> el = cn_next c \<and> cn_next c' = Suc (cn_next c)"
    and visit_row: "visit item k cur c = ((el, reused), c') \<Longrightarrow>
      (\<And>n m. cur = Some n \<Longrightarrow> jm_get (cn_meta c) n = Some m \<Longrightarrow> rm_key m = k) \<Longrightarrow>
      \<exists>m. jm_get (cn_meta c') el = Some m \<and> rm_key m = k \<and> drawn m item"
begin

lemma visit_next: "visit item k cur c = ((el, reused), c') \<Longrightarrow> cn_next c \<le> cn_next c'"
  using visit_reused visit_built by (cases reused) fastforce+

end

definition row_of :: "'i container \<Rightarrow> node \<Rightarrow> string \<Rightarrow> bool" where
  "row_of c n k = (\<exists>m. jm_get (cn_meta c) n = Some m \<and> rm_key m = k)"

definition container_ok :: "'i container \<Rightarrow> bool" where
  "container_ok c = (distinct (cn_children c) \<and> (\<forall>n \<in> set (cn_children c). n < cn_next c \<and> (\<exists>k. row_of c n k)) \<and>
     (\<forall>n \<in> set (cn_children c). \<forall>n' \<in> set (cn_children c). \<forall>k. row_of c n k \<longrightarrow> row_of c n' k \<longrightarrow> n = n'))"

lemma row_of_unique: "row_of c n k \<Longrightarrow> row_of c n l \<Longrightarrow> k = l"
  by (auto simp: row_of_def)

definition pass_ok :: "('i row_meta \<Rightarrow> 'i \<Rightarrow> bool) \<Rightarrow> ('i \<Rightarrow> string) \<Rightarrow> node list \<Rightarrow> 'i list \<Rightarrow> 'i pass \<Rightarrow> bool" where
  "pass_ok drawn key C pre p = (let c = ps_container p; E = ps_existing p; W = ps_wanted p in
     cn_children c = C \<and> jm_wf E \<and> distinct W \<and> (\<forall>n \<in> set C \<union> set W. n < cn_next c) \<and>
     (\<forall>k n. jm_get E k = Some n \<longrightarrow> n \<in> set C - set W \<and> row_of c n k) \<and>
     (\<forall>n \<in> set C - set W. \<exists>k. jm_get E k = Some n) \<and>
     list_all2 (\<lambda>n item. \<exists>m. jm_get (cn_meta c) n = Some m \<and> rm_key m = key item \<and> drawn m item) W pre)"

context row_visitor
begin

lemma visit_step:
  assumes "pass_ok drawn key C pre p"
  shows "pass_ok drawn key C (pre @ [item]) (visitItem key visit item p)"
proof -
  let ?c = "ps_container p" and ?E = "ps_existing p" and ?W = "ps_wanted p" and ?k = "key item"
  obtain el reused c where v: "visit item ?k (jm_get ?E ?k) ?c = ((el, reused), c)" by (metis surj_pair)
  define E where "E = (case jm_get ?E ?k of Some old \<Rightarrow> if reused then jm_delete ?E ?k else jm_set (jm_delete ?E ?k) ?k old | None \<Rightarrow> jm_delete ?E ?k)"
  have q: "ps_container (visitItem key visit item p) = c" "ps_existing (visitItem key visit item p) = E" "ps_wanted (visitItem key visit item p) = ?W @ [el]"
    using v by (simp_all add: visitItem_def E_def Let_def)
  have old: "cn_children ?c = C" "jm_wf ?E" "distinct ?W" "\<And>n. n \<in> set C \<union> set ?W \<Longrightarrow> n < cn_next ?c"
    "\<And>k n. jm_get ?E k = Some n \<Longrightarrow> n \<in> set C - set ?W \<and> row_of ?c n k"
    "\<And>n. n \<in> set C - set ?W \<Longrightarrow> \<exists>k. jm_get ?E k = Some n"
    "list_all2 (\<lambda>n item. \<exists>m. jm_get (cn_meta ?c) n = Some m \<and> rm_key m = key item \<and> drawn m item) ?W pre"
    using assms by (auto simp: pass_ok_def Let_def)
  have getE: "jm_get E k = (if reused \<and> k = ?k then None else jm_get ?E k)" for k
    by (auto simp: E_def split: option.splits)
  have node: "if reused then jm_get ?E ?k = Some el \<and> cn_next c = cn_next ?c else el = cn_next ?c \<and> cn_next c = Suc (cn_next ?c)"
    using v visit_reused visit_built by (cases reused) auto
  have fresh: "el \<notin> set ?W" using node old(4) old(5) by (cases reused) force+
  have row: "\<exists>m. jm_get (cn_meta c) el = Some m \<and> rm_key m = ?k \<and> drawn m item"
    using visit_row [OF v] old(5) by (metis row_of_def option.inject)
  have others: "jm_get (cn_meta c) n = jm_get (cn_meta ?c) n" if "n \<noteq> el" for n using visit_others [OF v that] .
  have inE: "n \<in> set C - set (?W @ [el]) \<and> row_of c n k" if get: "jm_get E k = Some n" for k n
  proof -
    have n: "n \<in> set C - set ?W" "row_of ?c n k" using get old(5) by (auto simp: getE split: if_splits)
    have "n \<noteq> el"
    proof (cases reused)
      case True
      then have "k \<noteq> ?k" using get by (auto simp: getE)
      then show ?thesis using True node old(5) [of ?k el] n(2) row_of_unique by metis
    qed (use node old(4) n(1) in force)
    with n others show ?thesis by (simp add: row_of_def)
  qed
  have outE: "\<exists>k. jm_get E k = Some n" if n: "n \<in> set C - set (?W @ [el])" for n
  proof -
    obtain k where "jm_get ?E k = Some n" using old(6) [of n] n by auto
    then show ?thesis using n node by (cases "k = ?k") (auto simp: getE intro!: exI [of _ k])
  qed
  have rows: "list_all2 (\<lambda>n item. \<exists>m. jm_get (cn_meta c) n = Some m \<and> rm_key m = key item \<and> drawn m item) (?W @ [el]) (pre @ [item])"
  proof -
    have "\<exists>m. jm_get (cn_meta c) n = Some m \<and> rm_key m = key item \<and> drawn m item"
      if "n \<in> set ?W" "\<exists>m. jm_get (cn_meta ?c) n = Some m \<and> rm_key m = key item \<and> drawn m item" for n item
      using that fresh others by metis
    with old(7) have "list_all2 (\<lambda>n item. \<exists>m. jm_get (cn_meta c) n = Some m \<and> rm_key m = key item \<and> drawn m item) ?W pre"
      by (rule list.rel_mono_strong)
    with row show ?thesis by (simp add: list_all2_appendI)
  qed
  have below: "n < cn_next c" if "n \<in> set C \<union> set (?W @ [el])" for n
    using that old(4) [of n] node old(4) [of el] old(5) [of ?k el] by (cases reused) (auto simp: less_SucI)
  have "cn_children c = C" "jm_wf E" "distinct (?W @ [el])"
    using old(1,2,3) fresh visit_children [OF v] by (auto simp: E_def split: option.splits)
  with inE outE rows below show ?thesis unfolding pass_ok_def q Let_def by blast
qed

lemma visit_items: "pass_ok drawn key C pre p \<Longrightarrow> pass_ok drawn key C (pre @ items) (fold (visitItem key visit) items p)"
proof (induction items arbitrary: pre p)
  case (Cons item items)
  from Cons.IH [OF visit_step [OF Cons.prems, of item]] show ?case by simp
qed simp

end

lemma existing_get:
  assumes "\<And>n n'. n \<in> set ns \<Longrightarrow> n' \<in> set ns \<Longrightarrow> row_of c n k \<Longrightarrow> row_of c n' k \<Longrightarrow> n = n'"
  shows "jm_get (fold (\<lambda>child m. case jm_get (cn_meta c) child of None \<Rightarrow> m | Some meta \<Rightarrow> jm_set m (rm_key meta) child) ns m) k =
    (if \<exists>n \<in> set ns. row_of c n k then Some (THE n. n \<in> set ns \<and> row_of c n k) else jm_get m k)"
  using assms
proof (induction ns rule: rev_induct)
  case (snoc n ns)
  show ?case
  proof (cases "row_of c n k")
    case True
    then have "(THE n'. n' \<in> set (ns @ [n]) \<and> row_of c n' k) = n" using snoc.prems by (intro the_equality) auto
    with True show ?thesis by (auto simp: row_of_def)
  next
    case False
    then have "(THE n'. n' \<in> set (ns @ [n]) \<and> row_of c n' k) = (THE n'. n' \<in> set ns \<and> row_of c n' k)"
      by (intro arg_cong [of _ _ The]) auto
    moreover have "jm_get (case jm_get (cn_meta c) n of None \<Rightarrow> m | Some meta \<Rightarrow> jm_set m (rm_key meta) n) k = jm_get m k" for m
      using False by (auto simp: row_of_def split: option.splits)
    ultimately show ?thesis using snoc False by auto
  qed
qed simp

lemma existing_rows:
  assumes "container_ok c"
  shows "jm_get (existingRows c) k = Some n \<longleftrightarrow> n \<in> set (cn_children c) \<and> row_of c n k"
proof -
  have uniq: "n = n'" if "n \<in> set (cn_children c)" "n' \<in> set (cn_children c)" "row_of c n k" "row_of c n' k" for n n'
    using assms that by (auto simp: container_ok_def)
  have "(THE n. n \<in> set (cn_children c) \<and> row_of c n k) = n" if "n \<in> set (cn_children c)" "row_of c n k" for n
    using that uniq by (intro the_equality) auto
  then show ?thesis unfolding existingRows_def by (subst existing_get) (use uniq in auto)
qed

lemma jm_wf_existing: "jm_wf (existingRows c)"
proof -
  have "jm_wf (fold (\<lambda>child m. case jm_get (cn_meta c) child of None \<Rightarrow> m | Some meta \<Rightarrow> jm_set m (rm_key meta) child) ns m)" if "jm_wf m" for ns m
    using that by (induction ns arbitrary: m) (auto split: option.splits)
  then show ?thesis by (simp add: existingRows_def)
qed

lemma removed_rows:
  "distinct (cn_children c) \<Longrightarrow> cn_children (fold removeRow ns c) = filter (\<lambda>n. n \<notin> set ns) (cn_children c) \<and>
     cn_meta (fold removeRow ns c) = cn_meta c \<and> cn_next (fold removeRow ns c) = cn_next c"
  by (induction ns arbitrary: c) (auto simp: removeRow_def log_row_def distinct_remove1_removeAll removeAll_filter_not_eq intro!: filter_cong)

context row_visitor
begin

lemma keyed_rows:
  assumes "container_ok c"
  obtains built c' where "reconcileKeyed items key visit c = Some (built, c')"
    and "distinct (cn_children c')" and "\<And>n. n \<in> set (cn_children c') \<Longrightarrow> n < cn_next c'"
    and "list_all2 (\<lambda>n item. \<exists>m. jm_get (cn_meta c') n = Some m \<and> rm_key m = key item \<and> drawn m item) (cn_children c') items"
proof -
  let ?p0 = "\<lparr>ps_container = c, ps_existing = existingRows c, ps_wanted = [], ps_built = 0\<rparr>"
  define p where "p = fold (visitItem key visit) items ?p0"
  have "pass_ok drawn key (cn_children c) [] ?p0"
    using assms existing_rows [OF assms] jm_wf_existing by (auto simp: pass_ok_def container_ok_def)
  from visit_items [OF this, of items] have ok: "pass_ok drawn key (cn_children c) items p" by (simp add: p_def)
  let ?c1 = "fold removeRow (jm_values (ps_existing p)) (ps_container p)"
  have dist: "distinct (cn_children (ps_container p))" "distinct (ps_wanted p)" "jm_wf (ps_existing p)"
    using ok assms by (auto simp: pass_ok_def Let_def container_ok_def)
  note c1 = removed_rows [OF dist(1), of "jm_values (ps_existing p)"]
  have "n \<in> set (ps_wanted p)" if "n \<in> set (cn_children ?c1)" for n
    using that ok c1 dist(3) by (auto simp: pass_ok_def Let_def jm_values_iff)
  then have "moveRows (ps_wanted p) (cn_children ?c1) = Some (ps_wanted p)"
    using dist c1 by (intro moveRows_exact) auto
  then have "reconcileKeyed items key visit c = Some (ps_built p, ?c1\<lparr>cn_children := ps_wanted p\<rparr>)"
    by (simp add: reconcileKeyed_def p_def [symmetric] Let_def)
  then show ?thesis using that ok c1 dist(2) by (auto simp: pass_ok_def Let_def)
qed

lemma keyed_container_ok:
  assumes "distinct (cn_children c)" and "\<And>n. n \<in> set (cn_children c) \<Longrightarrow> n < cn_next c" and "distinct (map key items)"
    and "list_all2 (\<lambda>n item. \<exists>m. jm_get (cn_meta c) n = Some m \<and> rm_key m = key item \<and> drawn m item) (cn_children c) items"
  shows "container_ok c"
proof -
  have row: "row_of c (cn_children c ! i) (key (items ! i))" if "i < length items" for i
    using assms(4) that by (auto simp: list_all2_conv_all_nth row_of_def)
  have len: "length (cn_children c) = length items" using assms(4) by (simp add: list_all2_conv_all_nth)
  have "n = n'" if n: "n \<in> set (cn_children c)" "n' \<in> set (cn_children c)" "row_of c n k" "row_of c n' k" for n n' k
  proof -
    obtain i j where ij: "i < length items" "j < length items" "n = cn_children c ! i" "n' = cn_children c ! j"
      using n(1,2) len by (metis in_set_conv_nth)
    then have "key (items ! i) = key (items ! j)" using n(3,4) row row_of_unique by metis
    with assms(3) ij show ?thesis by (metis distinct_conv_nth length_map nth_map)
  qed
  moreover have "\<exists>k. row_of c n k" if "n \<in> set (cn_children c)" for n
    using that row len by (metis in_set_conv_nth)
  ultimately show ?thesis using assms(1,2) by (auto simp: container_ok_def)
qed

lemma keyed_exact:
  assumes "container_ok c" and "distinct (map key items)"
  shows "\<exists>built c'. reconcileKeyed items key visit c = Some (built, c') \<and> container_ok c' \<and>
    list_all2 (\<lambda>n item. \<exists>m. jm_get (cn_meta c') n = Some m \<and> rm_key m = key item \<and> drawn m item) (cn_children c') items"
proof (rule keyed_rows [OF assms(1), of items key])
  fix built c'
  assume c': "reconcileKeyed items key visit c = Some (built, c')" "distinct (cn_children c')" "\<And>n. n \<in> set (cn_children c') \<Longrightarrow> n < cn_next c'"
    "list_all2 (\<lambda>n item. \<exists>m. jm_get (cn_meta c') n = Some m \<and> rm_key m = key item \<and> drawn m item) (cn_children c') items"
  from keyed_container_ok [OF c'(2,3) assms(2) c'(4)] c'(1,4) show ?thesis by blast
qed

end

section \<open>The two entry points\<close>

interpretation rch: row_visitor "childVisit signature" "\<lambda>meta item. rm_sig meta = signature item"
  by unfold_locales (auto simp: childVisit_def buildRow_def log_row_def split: option.splits if_splits)

text \<open>A model row draws, field by field, what the item's model says.\<close>

definition draws :: "('i \<Rightarrow> row_model) \<Rightarrow> 'i row_meta \<Rightarrow> 'i \<Rightarrow> bool" where
  "draws model meta item = (rm_ref meta = Some item \<and>
     (\<exists>drawn. rm_model meta = Some drawn \<and> (\<forall>k. rel_option sameModel (jm_get drawn k) (jm_get (model item) k))))"

lemma draws_same: "rel_option sameModel x x"
  by (cases x) auto

lemma unchanged_draws: "changedFields a b = [] \<Longrightarrow> rel_option sameModel (jm_get a k) (jm_get b k)"
proof -
  assume "changedFields a b = []"
  then have "case (jm_get a k, jm_get b k) of (Some v, Some w) \<Rightarrow> sameModel v w | _ \<Rightarrow> False" if "k \<in> set (jm_keys a @ jm_keys b)"
    using that js_of_list_has [of "jm_keys a @ jm_keys b" k] by (auto simp: changedFields_def filter_empty_conv js_has_set)
  moreover have "jm_get a k = None \<and> jm_get b k = None" if "k \<notin> set (jm_keys a @ jm_keys b)"
    using that by (auto simp: jm_keys_def jm_get_def map_of_eq_None_iff)
  ultimately show ?thesis by (cases "k \<in> set (jm_keys a @ jm_keys b)") (auto split: option.splits)
qed

interpretation rmd: row_visitor "modelVisit model patchable" "draws model"
proof (unfold_locales, goal_cases)
  case (5 item k cur c el reused c')
  then show ?case
    by (auto simp: modelVisit_def buildRow_def patchRow_def log_row_def draws_def draws_same unchanged_draws Let_def split: option.splits if_splits)
qed (auto simp: modelVisit_def buildRow_def patchRow_def log_row_def Let_def split: option.splits if_splits)

text \<open>C16: After a redraw the children are one row per item, in the order of the items, each row with its
  item's key, its live item and the item's model, and the container is ready for the next redraw. The
  pass always ends. It relies on the keys of the items being different.\<close>

theorem rows_match_items:
  assumes "container_ok c" and "distinct (map key items)"
  shows "\<exists>built c'. reconcileModels key model patchable items c = Some (built, c') \<and> container_ok c' \<and>
    list_all2 (\<lambda>n item. \<exists>meta. jm_get (cn_meta c') n = Some meta \<and> rm_key meta = key item \<and> draws model meta item) (cn_children c') items"
  unfolding reconcileModels_def by (rule rmd.keyed_exact [OF assms])

theorem child_rows_match_items:
  assumes "container_ok c" and "distinct (map key items)"
  shows "\<exists>built c'. reconcileChildren key signature items c = Some (built, c') \<and> container_ok c' \<and>
    list_all2 (\<lambda>n item. \<exists>meta. jm_get (cn_meta c') n = Some meta \<and> rm_key meta = key item \<and> rm_sig meta = signature item) (cn_children c') items"
  unfolding reconcileChildren_def by (rule rch.keyed_exact [OF assms])

definition row_sample :: "string container" where
  "row_sample = \<lparr>cn_children = [0, 1], cn_meta = [(0, \<lparr>rm_key = ''a'', rm_sig = [], rm_model = Some [(''name'', MString ''a'')], rm_ref = Some ''a''\<rparr>),
     (1, \<lparr>rm_key = ''b'', rm_sig = [], rm_model = Some [(''name'', MString ''b'')], rm_ref = Some ''b''\<rparr>)], cn_next = 2, cn_log = []\<rparr>"

theorem rows_match_items_witness:
  "\<exists>c'. reconcileModels id (\<lambda>i. [(''name'', MString i)]) [] [''b'', ''c'', ''a''] row_sample = Some (1, c') \<and> cn_children c' = [1, 2, 0] \<and> container_ok c'"
proof -
  have "container_ok row_sample"
    by (auto simp: container_ok_def row_sample_def row_of_def jm_get_def)
  moreover have "distinct (map id [''b'', ''c'', ''a''])" by simp
  ultimately obtain built c' where r: "reconcileModels id (\<lambda>i. [(''name'', MString i)]) [] [''b'', ''c'', ''a''] row_sample = Some (built, c')" "container_ok c'"
    using rows_match_items by blast
  have "map_option (\<lambda>(b, c'). (b, cn_children c')) (reconcileModels id (\<lambda>i. [(''name'', MString i)]) [] [''b'', ''c'', ''a''] row_sample) = Some (1, [1, 2, 0])"
    by code_simp
  with r show ?thesis by auto
qed

end
