(* ===== verification/Voice_Store.thy ===== *)
theory Voice_Store
  imports Channels_Store Members_Store
begin

text \<open>
  \<open>stores/voice.store.ts\<close> with the leaf \<open>lib/voice/voiceDeafened.ts\<close>: who is in which voice channel,
  the reader's own microphone state and what moderators imposed on it, the rings of those who
  speak, and whose screen is watched. \<open>self\<close> is the signed-in user's id, 0 when nobody is. A flag that the code
  keeps optional and reads with a default is its value with the default.
\<close>

record ready_voice_state =
  rv_channel_id :: int
  rv_user_id :: int
  rv_muted :: bool
  rv_deafened :: bool
  rv_server_muted :: "bool option"
  rv_server_deafened :: "bool option"
  rv_camera :: "bool option"
  rv_screenshare :: "bool option"

record voice_state_payload =
  vp_channel_id :: int
  vp_user_id :: int
  vp_username :: string
  vp_muted :: bool
  vp_deafened :: bool
  vp_speaking :: bool
  vp_camera :: bool
  vp_screenshare :: bool
  vp_server_muted :: "bool option"
  vp_server_deafened :: "bool option"

record voice_user =
  vu_userId :: int
  vu_username :: string
  vu_muted :: bool
  vu_deafened :: bool
  vu_speaking :: bool
  vu_camera :: bool
  vu_screenshare :: bool
  vu_serverMuted :: bool
  vu_serverDeafened :: bool

datatype voice_status = V_idle | V_joining | V_securing | V_connected | V_reconnecting

record voice_config =
  vc_quality :: string
  vc_bitrate :: int
  vc_threshold_mode :: string
  vc_mixing_threshold :: int
  vc_top_speakers :: int
  vc_max_users :: int

datatype verification_status = Verified | Changed | Unverified | Mismatch | Unknown_pin

record peer_verification =
  pv_userId :: int
  pv_status :: verification_status
  pv_safetyNumber :: "string option"
  pv_sessionFingerprint :: "string option"

type_synonym voice_roster = "(int, (int, voice_user) jmap) jmap"

record voice_state =
  vs_currentChannelId :: "int option"
  vs_voiceUsers :: voice_roster
  vs_voiceConfigs :: "(int, voice_config) jmap"
  vs_localMuted :: bool
  vs_localDeafened :: bool
  vs_localServerMuted :: bool
  vs_localServerDeafened :: bool
  vs_inAfkChannel :: bool
  vs_moderatorDeafened :: bool
  vs_mutedBeforeDeafen :: bool
  vs_pttGated :: bool
  vs_localCamera :: bool
  vs_localScreenshare :: bool
  vs_localCameraRev :: int
  vs_localShareRev :: int
  vs_shareDenied :: bool
  vs_joinedAt :: "int option"
  vs_listenOnly :: bool
  vs_voiceStatus :: voice_status
  vs_encryptionDegraded :: bool
  vs_peerVerifications :: "(int, peer_verification) jmap"
  vs_peerVideoDecode :: "(int, string list) jmap"
  vs_peerKeySlots :: "int jset"
  vs_peerWatching :: "(int, int list) jmap"
  vs_localSessionFingerprint :: "string option"
  vs_localSafetyNumber :: "string option"
  vs_localGateSpeaking :: "bool option"

definition VOICE_INITIAL :: voice_state where
  "VOICE_INITIAL = \<lparr>vs_currentChannelId = None, vs_voiceUsers = [], vs_voiceConfigs = [], vs_localMuted = False, vs_localDeafened = False,
     vs_localServerMuted = False, vs_localServerDeafened = False, vs_inAfkChannel = False, vs_moderatorDeafened = False,
     vs_mutedBeforeDeafen = False, vs_pttGated = False, vs_localCamera = False, vs_localScreenshare = False, vs_localCameraRev = 0,
     vs_localShareRev = 0, vs_shareDenied = False, vs_joinedAt = None, vs_listenOnly = False, vs_voiceStatus = V_idle,
     vs_encryptionDegraded = False, vs_peerVerifications = [], vs_peerVideoDecode = [], vs_peerKeySlots = [], vs_peerWatching = [],
     vs_localSessionFingerprint = None, vs_localSafetyNumber = None, vs_localGateSpeaking = None\<rparr>"

text \<open>Beside the store the module keeps the count of roster events, the time of the last resume (\<open>None\<close>
  is minus infinity), whether the key poller is live, and the leaf flags; \<open>vm_prefs\<close> is what is saved.\<close>

record voice_module =
  vm_state :: voice_state
  vm_rosterRevision :: int
  vm_watchingResyncAt :: "int option"
  vm_pttPollingLive :: bool
  vm_deafened :: bool
  vm_inVoiceSession :: bool
  vm_prefs :: "(string, bool) jmap"

definition on_voice :: "(voice_state \<Rightarrow> voice_state) \<Rightarrow> voice_module \<Rightarrow> voice_module" where
  "on_voice f m = m\<lparr>vm_state := f (vm_state m)\<rparr>"

definition setVoiceDeafened :: "bool \<Rightarrow> voice_module \<Rightarrow> voice_module" where
  "setVoiceDeafened b m = m\<lparr>vm_deafened := b\<rparr>"

definition setVoiceInSession :: "bool \<Rightarrow> voice_module \<Rightarrow> voice_module" where
  "setVoiceInSession b m = m\<lparr>vm_inVoiceSession := b\<rparr>"

definition isVoiceDeafened :: "voice_module \<Rightarrow> bool" where
  "isVoiceDeafened m = (vm_deafened m \<and> vm_inVoiceSession m)"

definition syncInAfkChannel :: "channels_state \<Rightarrow> voice_state \<Rightarrow> voice_state" where
  "syncInAfkChannel channels prev = prev\<lparr>vs_inAfkChannel := isAfkChannel channels (vs_currentChannelId prev)\<rparr>"

definition getVoiceRosterRevision :: "voice_module \<Rightarrow> int" where
  "getVoiceRosterRevision m = vm_rosterRevision m"

definition resetVoiceStore :: "voice_module \<Rightarrow> voice_module" where
  "resetVoiceStore m = (setVoiceInSession False (setVoiceDeafened False m))\<lparr>vm_watchingResyncAt := None, vm_state := VOICE_INITIAL\<rparr>"

section \<open>The roster\<close>

definition readyVoiceUser :: "members_state \<Rightarrow> ready_voice_state \<Rightarrow> voice_user" where
  "readyVoiceUser members vs = \<lparr>vu_userId = rv_user_id vs,
     vu_username = (case jm_get (ms_members members) (rv_user_id vs) of None \<Rightarrow> [] | Some m \<Rightarrow> me_username m),
     vu_muted = rv_muted vs, vu_deafened = rv_deafened vs, vu_speaking = False, vu_camera = nullish (rv_camera vs) False,
     vu_screenshare = nullish (rv_screenshare vs) False, vu_serverMuted = nullish (rv_server_muted vs) False,
     vu_serverDeafened = nullish (rv_server_deafened vs) False\<rparr>"

definition addReadyVoice :: "members_state \<Rightarrow> ready_voice_state \<Rightarrow> voice_roster \<Rightarrow> voice_roster" where
  "addReadyVoice members vs roster =
     jm_set roster (rv_channel_id vs) (jm_set (nullish (jm_get roster (rv_channel_id vs)) []) (rv_user_id vs) (readyVoiceUser members vs))"

definition setVoiceStates :: "int \<Rightarrow> members_state \<Rightarrow> ready_voice_state list \<Rightarrow> voice_state \<Rightarrow> voice_state" where
  "setVoiceStates self members states prev = (
     let selfState = (if self \<noteq> 0 \<and> vs_voiceStatus prev \<noteq> V_idle then find (\<lambda>vs. rv_user_id vs = self) states else None)
     in prev\<lparr>vs_voiceUsers := fold (addReadyVoice members) states [],
          vs_currentChannelId := alt (map_option rv_channel_id selfState) (vs_currentChannelId prev),
          vs_localServerMuted := nullish (Option.bind selfState rv_server_muted) False,
          vs_localServerDeafened := nullish (Option.bind selfState rv_server_deafened) False\<rparr>)"

definition voiceRow :: "voice_state_payload \<Rightarrow> bool \<Rightarrow> voice_user" where
  "voiceRow payload speaking = \<lparr>vu_userId = vp_user_id payload, vu_username = vp_username payload, vu_muted = vp_muted payload,
     vu_deafened = vp_deafened payload, vu_speaking = speaking, vu_camera = vp_camera payload, vu_screenshare = vp_screenshare payload,
     vu_serverMuted = nullish (vp_server_muted payload) False, vu_serverDeafened = nullish (vp_server_deafened payload) False\<rparr>"

definition voiceUserOf :: "voice_roster \<Rightarrow> int \<Rightarrow> int \<Rightarrow> voice_user option" where
  "voiceUserOf roster channelId userId = Option.bind (jm_get roster channelId) (\<lambda>users. jm_get users userId)"

definition updateVoiceState :: "int \<Rightarrow> voice_state_payload \<Rightarrow> voice_state \<Rightarrow> voice_state" where
  "updateVoiceState self payload prev = (
     let channelId = vp_channel_id payload;
         existingUser = voiceUserOf (vs_voiceUsers prev) channelId (vp_user_id payload);
         speaking = (case existingUser of Some u \<Rightarrow> vu_speaking u | None \<Rightarrow> vp_speaking payload);
         nextUsers = jm_set (nullish (jm_get (vs_voiceUsers prev) channelId) []) (vp_user_id payload) (voiceRow payload speaking);
         next = prev\<lparr>vs_voiceUsers := jm_set (vs_voiceUsers prev) channelId nextUsers\<rparr>
     in if vp_user_id payload \<noteq> self \<or> vs_voiceStatus prev = V_idle then next
        else next\<lparr>vs_localServerMuted := nullish (vp_server_muted payload) False,
                  vs_localServerDeafened := nullish (vp_server_deafened payload) False\<rparr>)"

definition updateVoiceUserProfile :: "int \<Rightarrow> string \<Rightarrow> voice_state \<Rightarrow> voice_state" where
  "updateVoiceUserProfile userId username prev = prev\<lparr>vs_voiceUsers := map (\<lambda>(channelId, users). (channelId,
     case jm_get users userId of None \<Rightarrow> users | Some u \<Rightarrow> jm_set users userId (u\<lparr>vu_username := username\<rparr>))) (vs_voiceUsers prev)\<rparr>"

definition dropUser :: "int \<Rightarrow> (int, voice_user) jmap \<Rightarrow> int \<Rightarrow> voice_roster \<Rightarrow> voice_roster" where
  "dropUser channelId users userId roster = (
     let nextUsers = jm_delete users userId
     in if nextUsers = [] then jm_delete roster channelId else jm_set roster channelId nextUsers)"

definition removeVoiceUser :: "int \<Rightarrow> int \<Rightarrow> voice_state \<Rightarrow> voice_state" where
  "removeVoiceUser channelId userId prev = (case jm_get (vs_voiceUsers prev) channelId of
     None \<Rightarrow> prev
   | Some users \<Rightarrow>
       if \<not> jm_has users userId then prev
       else prev\<lparr>vs_voiceUsers := dropUser channelId users userId (vs_voiceUsers prev),
                 vs_peerWatching := (if jm_has (vs_peerWatching prev) userId then jm_delete (vs_peerWatching prev) userId else vs_peerWatching prev)\<rparr>)"

definition clearChannelVoiceUsers :: "int \<Rightarrow> voice_module \<Rightarrow> voice_module" where
  "clearChannelVoiceUsers channelId m = (
     let prev = vm_state m
     in if \<not> jm_has (vs_voiceUsers prev) channelId \<or> vs_currentChannelId prev = Some channelId then m
        else m\<lparr>vm_rosterRevision := vm_rosterRevision m + 1, vm_state := prev\<lparr>vs_voiceUsers := jm_delete (vs_voiceUsers prev) channelId\<rparr>\<rparr>)"

section \<open>Joining and leaving\<close>

definition withoutRings :: "voice_roster \<Rightarrow> int option \<Rightarrow> voice_roster" where
  "withoutRings voiceUsers channelId = (case channelId of None \<Rightarrow> voiceUsers | Some i \<Rightarrow>
     (case jm_get voiceUsers i of None \<Rightarrow> voiceUsers
      | Some channel \<Rightarrow> jm_set voiceUsers i
          (jm_of_list (map (\<lambda>(k, user). (k, if vu_speaking user then user\<lparr>vu_speaking := False\<rparr> else user)) channel))))"

definition joinVoiceChannel :: "int \<Rightarrow> int \<Rightarrow> voice_state \<Rightarrow> voice_state" where
  "joinVoiceChannel now channelId prev = (
     if vs_currentChannelId prev = Some channelId then prev
     else prev\<lparr>vs_peerWatching := [], vs_voiceUsers := withoutRings (vs_voiceUsers prev) (vs_currentChannelId prev),
       vs_currentChannelId := Some channelId, vs_joinedAt := Some now, vs_voiceStatus := V_joining, vs_shareDenied := False,
       vs_encryptionDegraded := False\<rparr>)"

definition leaveVoiceChannel :: "int \<Rightarrow> voice_state \<Rightarrow> voice_state" where
  "leaveVoiceChannel self prev = (
     let voiceUsers = withoutRings (vs_voiceUsers prev) (vs_currentChannelId prev);
         left = (case vs_currentChannelId prev of
           None \<Rightarrow> voiceUsers
         | Some channelId \<Rightarrow>
             if self = 0 then voiceUsers
             else (case jm_get voiceUsers channelId of
                 None \<Rightarrow> voiceUsers
               | Some users \<Rightarrow> if jm_has users self then dropUser channelId users self voiceUsers else voiceUsers))
     in prev\<lparr>vs_currentChannelId := None, vs_joinedAt := None, vs_voiceStatus := V_idle, vs_localServerMuted := False,
          vs_localServerDeafened := False, vs_encryptionDegraded := False, vs_shareDenied := False, vs_peerVideoDecode := [],
          vs_peerKeySlots := [], vs_peerWatching := [], vs_voiceUsers := left\<rparr>)"

definition setVoiceStatus :: "voice_status \<Rightarrow> voice_state \<Rightarrow> voice_state" where
  "setVoiceStatus status prev = prev\<lparr>vs_voiceStatus := status\<rparr>"

definition setEncryptionDegraded :: "bool \<Rightarrow> voice_state \<Rightarrow> voice_state" where
  "setEncryptionDegraded degraded prev = prev\<lparr>vs_encryptionDegraded := degraded\<rparr>"

section \<open>The microphone\<close>

definition withLocalRing :: "int \<Rightarrow> voice_state \<Rightarrow> voice_state" where
  "withLocalRing self s = (case (vs_localGateSpeaking s, vs_currentChannelId s) of
     (Some gate, Some channelId) \<Rightarrow>
       (case jm_get (vs_voiceUsers s) channelId of None \<Rightarrow> s | Some channel \<Rightarrow>
          (case jm_get channel self of None \<Rightarrow> s | Some user \<Rightarrow>
             (let speaking = (gate \<and> \<not> vs_localMuted s \<and> \<not> vs_pttGated s)
              in if vu_speaking user = speaking then s
                 else s\<lparr>vs_voiceUsers := jm_set (vs_voiceUsers s) channelId (jm_set channel self (user\<lparr>vu_speaking := speaking\<rparr>))\<rparr>)))
   | _ \<Rightarrow> s)"

definition setModeratorDeafened :: "bool \<Rightarrow> voice_state \<Rightarrow> voice_state" where
  "setModeratorDeafened applied prev = prev\<lparr>vs_moderatorDeafened := applied\<rparr>"

definition setMutedBeforeDeafen :: "bool \<Rightarrow> voice_state \<Rightarrow> voice_state" where
  "setMutedBeforeDeafen muted prev = prev\<lparr>vs_mutedBeforeDeafen := muted\<rparr>"

definition setLocalMuted :: "int \<Rightarrow> bool \<Rightarrow> voice_state \<Rightarrow> voice_state" where
  "setLocalMuted self muted prev = withLocalRing self (prev\<lparr>vs_localMuted := muted\<rparr>)"

definition deafenState :: "bool \<Rightarrow> voice_state \<Rightarrow> voice_state" where
  "deafenState deafened prev = prev\<lparr>vs_localDeafened := deafened, vs_moderatorDeafened := (deafened \<and> vs_moderatorDeafened prev)\<rparr>"

definition setLocalDeafened :: "bool \<Rightarrow> voice_module \<Rightarrow> voice_module" where
  "setLocalDeafened deafened m = on_voice (deafenState deafened) (setVoiceDeafened deafened m)"

definition SELF_MUTED_PREF :: string where
  "SELF_MUTED_PREF = ''localMuted''"

definition SELF_DEAFENED_PREF :: string where
  "SELF_DEAFENED_PREF = ''localDeafened''"

definition MUTED_BEFORE_DEAFEN_PREF :: string where
  "MUTED_BEFORE_DEAFEN_PREF = ''mutedBeforeDeafen''"

definition savePref :: "string \<Rightarrow> bool \<Rightarrow> voice_module \<Rightarrow> voice_module" where
  "savePref key v m = m\<lparr>vm_prefs := jm_set (vm_prefs m) key v\<rparr>"

definition loadPref :: "string \<Rightarrow> voice_module \<Rightarrow> bool" where
  "loadPref key m = nullish (jm_get (vm_prefs m) key) False"

definition saveSelfVoiceState :: "voice_module \<Rightarrow> voice_module" where
  "saveSelfVoiceState m = (
     let s = vm_state m;
         m1 = (if \<not> vs_localServerMuted s then savePref SELF_MUTED_PREF (vs_localMuted s) m else m);
         m2 = savePref SELF_DEAFENED_PREF (vs_localDeafened s \<and> \<not> vs_moderatorDeafened s) m1
     in savePref MUTED_BEFORE_DEAFEN_PREF (vs_mutedBeforeDeafen s) m2)"

definition restoreSavedSelfVoiceState :: "voice_module \<Rightarrow> voice_module" where
  "restoreSavedSelfVoiceState m = (
     if vs_currentChannelId (vm_state m) \<noteq> None then m
     else let deafened = loadPref SELF_DEAFENED_PREF m
       in on_voice (\<lambda>prev. prev\<lparr>vs_localMuted := (deafened \<or> loadPref SELF_MUTED_PREF m), vs_localDeafened := deafened,
            vs_moderatorDeafened := False, vs_mutedBeforeDeafen := loadPref MUTED_BEFORE_DEAFEN_PREF m\<rparr>) (setVoiceDeafened deafened m))"

definition setPttGated :: "int \<Rightarrow> bool \<Rightarrow> voice_state \<Rightarrow> voice_state" where
  "setPttGated self gated prev = (if vs_pttGated prev = gated then prev else withLocalRing self (prev\<lparr>vs_pttGated := gated\<rparr>))"

definition isSelfMuted :: "voice_state \<Rightarrow> bool" where
  "isSelfMuted s = vs_localMuted s"

text \<open>The second component says whether the listeners of the poller are called.\<close>

definition setPttPollingLive :: "bool \<Rightarrow> voice_module \<Rightarrow> voice_module \<times> bool" where
  "setPttPollingLive live m = (if vm_pttPollingLive m = live then (m, False) else (m\<lparr>vm_pttPollingLive := live\<rparr>, True))"

definition isPttPollingLive :: "voice_module \<Rightarrow> bool" where
  "isPttPollingLive m = vm_pttPollingLive m"

definition setLocalCamera :: "bool \<Rightarrow> voice_state \<Rightarrow> voice_state" where
  "setLocalCamera enabled prev = prev\<lparr>vs_localCamera := enabled\<rparr>"

definition setLocalScreenshare :: "bool \<Rightarrow> voice_state \<Rightarrow> voice_state" where
  "setLocalScreenshare enabled prev = prev\<lparr>vs_localScreenshare := enabled\<rparr>"

definition bumpLocalCameraRev :: "voice_state \<Rightarrow> voice_state" where
  "bumpLocalCameraRev prev = prev\<lparr>vs_localCameraRev := vs_localCameraRev prev + 1\<rparr>"

definition bumpLocalShareRev :: "voice_state \<Rightarrow> voice_state" where
  "bumpLocalShareRev prev = prev\<lparr>vs_localShareRev := vs_localShareRev prev + 1\<rparr>"

definition setShareDenied :: "bool \<Rightarrow> voice_state \<Rightarrow> voice_state" where
  "setShareDenied denied prev = prev\<lparr>vs_shareDenied := denied\<rparr>"

definition setListenOnly :: "bool \<Rightarrow> voice_state \<Rightarrow> voice_state" where
  "setListenOnly listenOnly prev = prev\<lparr>vs_listenOnly := listenOnly\<rparr>"

definition setVoiceConfig :: "int \<Rightarrow> voice_config \<Rightarrow> voice_state \<Rightarrow> voice_state" where
  "setVoiceConfig channelId cfg prev = prev\<lparr>vs_voiceConfigs := jm_set (vs_voiceConfigs prev) channelId cfg\<rparr>"

definition setLocalGateSpeaking :: "int \<Rightarrow> bool option \<Rightarrow> voice_state \<Rightarrow> voice_state" where
  "setLocalGateSpeaking self speaking prev =
     (if vs_localGateSpeaking prev = speaking then prev else withLocalRing self (prev\<lparr>vs_localGateSpeaking := speaking\<rparr>))"

definition setSpeakers :: "int \<Rightarrow> int \<Rightarrow> int list \<Rightarrow> voice_state \<Rightarrow> voice_state" where
  "setSpeakers self channelId speakers prev = (
     if Some channelId \<noteq> vs_currentChannelId prev then prev
     else case jm_get (vs_voiceUsers prev) channelId of
       None \<Rightarrow> prev
     | Some channel \<Rightarrow>
         let nextUsers = jm_of_list (map (\<lambda>(userId, user). (userId,
               let isSpeaking = js_has (js_of_list speakers) userId
               in if vu_speaking user \<noteq> isSpeaking then user\<lparr>vu_speaking := isSpeaking\<rparr> else user)) channel)
         in withLocalRing self (prev\<lparr>vs_voiceUsers := jm_set (vs_voiceUsers prev) channelId nextUsers\<rparr>))"

section \<open>Peers\<close>

definition setPeerVerification :: "peer_verification \<Rightarrow> voice_state \<Rightarrow> voice_state" where
  "setPeerVerification v prev = prev\<lparr>vs_peerVerifications := jm_set (vs_peerVerifications prev) (pv_userId v) v\<rparr>"

definition clearPeerVerification :: "int \<Rightarrow> voice_state \<Rightarrow> voice_state" where
  "clearPeerVerification userId prev = (
     if \<not> jm_has (vs_peerVerifications prev) userId then prev
     else prev\<lparr>vs_peerVerifications := jm_delete (vs_peerVerifications prev) userId\<rparr>)"

definition setLocalSessionFingerprint :: "string option \<Rightarrow> voice_state \<Rightarrow> voice_state" where
  "setLocalSessionFingerprint fingerprint prev = prev\<lparr>vs_localSessionFingerprint := fingerprint\<rparr>"

definition setLocalSafetyNumber :: "string option \<Rightarrow> voice_state \<Rightarrow> voice_state" where
  "setLocalSafetyNumber safetyNumber prev = prev\<lparr>vs_localSafetyNumber := safetyNumber\<rparr>"

definition setPeerVideoDecode :: "int \<Rightarrow> string list option \<Rightarrow> voice_state \<Rightarrow> voice_state" where
  "setPeerVideoDecode userId codecs prev = (case codecs of
     None \<Rightarrow> if \<not> jm_has (vs_peerVideoDecode prev) userId then prev
             else prev\<lparr>vs_peerVideoDecode := jm_delete (vs_peerVideoDecode prev) userId\<rparr>
   | Some cs \<Rightarrow> prev\<lparr>vs_peerVideoDecode := jm_set (vs_peerVideoDecode prev) userId cs\<rparr>)"

definition setPeerKeySlots :: "int \<Rightarrow> bool \<Rightarrow> voice_state \<Rightarrow> voice_state" where
  "setPeerKeySlots userId keySlots prev = (
     if js_has (vs_peerKeySlots prev) userId = keySlots then prev
     else prev\<lparr>vs_peerKeySlots := (if keySlots then js_add (vs_peerKeySlots prev) userId else js_delete (vs_peerKeySlots prev) userId)\<rparr>)"

definition noteWatchingResync :: "int \<Rightarrow> voice_module \<Rightarrow> voice_module" where
  "noteWatchingResync now m = m\<lparr>vm_watchingResyncAt := Some now\<rparr>"

definition clearPeerWatching :: "voice_state \<Rightarrow> voice_state" where
  "clearPeerWatching prev = (if vs_peerWatching prev = [] then prev else prev\<lparr>vs_peerWatching := []\<rparr>)"

definition isWatchingResync :: "int \<Rightarrow> int \<Rightarrow> voice_module \<Rightarrow> bool" where
  "isWatchingResync now windowMs m = (case vm_watchingResyncAt m of None \<Rightarrow> False | Some at \<Rightarrow> now - at < windowMs)"

definition inCurrentChannel :: "voice_state \<Rightarrow> int \<Rightarrow> bool" where
  "inCurrentChannel s userId = (case vs_currentChannelId s of None \<Rightarrow> False
     | Some channelId \<Rightarrow> voiceUserOf (vs_voiceUsers s) channelId userId \<noteq> None)"

definition setPeerWatching :: "int \<Rightarrow> int list \<Rightarrow> voice_state \<Rightarrow> voice_state" where
  "setPeerWatching userId watching prev = (
     if \<not> inCurrentChannel prev userId then prev
     else let had = jm_get (vs_peerWatching prev) userId
       in if watching = [] then (if had = None then prev else prev\<lparr>vs_peerWatching := jm_delete (vs_peerWatching prev) userId\<rparr>)
          else if had = Some watching then prev
          else prev\<lparr>vs_peerWatching := jm_set (vs_peerWatching prev) userId watching\<rparr>)"

definition watchesStream :: "int \<Rightarrow> int \<Rightarrow> bool \<Rightarrow> voice_state \<Rightarrow> int \<Rightarrow> bool" where
  "watchesStream self sharerId watchingLocally s i = (
     if i = sharerId then False
     else if i = self then watchingLocally
     else (case jm_get (vs_peerWatching s) i of None \<Rightarrow> False | Some watching \<Rightarrow> sharerId \<in> set watching))"

definition streamViewers :: "int \<Rightarrow> int \<Rightarrow> bool \<Rightarrow> voice_state \<Rightarrow> int list" where
  "streamViewers self sharerId watchingLocally s = (case vs_currentChannelId s of
     None \<Rightarrow> []
   | Some channelId \<Rightarrow>
       (case voiceUserOf (vs_voiceUsers s) channelId sharerId of
          None \<Rightarrow> []
        | Some sharer \<Rightarrow>
            if \<not> vu_screenshare sharer then []
            else sort (filter (watchesStream self sharerId watchingLocally s) (jm_keys (nullish (jm_get (vs_voiceUsers s) channelId) [])))))"

definition clearPeerVerifications :: "voice_state \<Rightarrow> voice_state" where
  "clearPeerVerifications prev = (if vs_peerVerifications prev = [] then prev else prev\<lparr>vs_peerVerifications := []\<rparr>)"

definition getPeerVerification :: "voice_state \<Rightarrow> int \<Rightarrow> peer_verification option" where
  "getPeerVerification s userId = jm_get (vs_peerVerifications s) userId"

definition getChannelVoiceUsers :: "voice_state \<Rightarrow> int \<Rightarrow> voice_user list" where
  "getChannelVoiceUsers s channelId = (case jm_get (vs_voiceUsers s) channelId of None \<Rightarrow> [] | Some users \<Rightarrow> jm_values users)"

datatype voice_frame =
    Voice_mute bool
  | Voice_deafen bool
  | Voice_join int
  | Voice_leave_frame
  | Channel_focus int "bool option"

definition restateSelfVoiceState :: "int \<Rightarrow> bool \<Rightarrow> bool \<Rightarrow> voice_state \<Rightarrow> voice_frame list" where
  "restateSelfVoiceState self skipMute skipDeafen s = (case vs_currentChannelId s of
     None \<Rightarrow> []
   | Some channelId \<Rightarrow>
       if self = 0 then []
       else let row = voiceUserOf (vs_voiceUsers s) channelId self;
                moderated = (vs_localServerDeafened s \<or> vs_moderatorDeafened s);
                rowMuted = (case row of None \<Rightarrow> False | Some u \<Rightarrow> vu_muted u);
                rowDeafened = (case row of None \<Rightarrow> False | Some u \<Rightarrow> vu_deafened u)
         in (if \<not> skipMute \<and> \<not> moderated \<and> \<not> vs_localServerMuted s \<and> vs_localMuted s \<noteq> rowMuted then [Voice_mute (vs_localMuted s)] else []) @
            (if \<not> skipDeafen \<and> \<not> moderated \<and> vs_localDeafened s \<noteq> rowDeafened then [Voice_deafen (vs_localDeafened s)] else []))"

end
