(* ===== verification/Voice_Join.thy ===== *)
theory Voice_Join
  imports Prelude
begin

text \<open>
  The small modules beside a voice join: \<open>features/voice/joinBackoff.ts\<close>, \<open>features/voice/joinRequest.ts\<close>,
  \<open>features/voice/leaveOwed.ts\<close>, \<open>features/voice/moveHint.ts\<close> and \<open>lib/voice/watchRequest.ts\<close>. Each keeps
  a few module variables: when the next join may start, which error frame refuses the join in flight, the
  leave the server may not have seen, the move whose notice waits, the watch frames in flight.
\<close>

section \<open>Backoff\<close>

record join_backoff =
  jb_failures :: nat
  jb_retryAt :: int
  jb_switched :: bool

definition FIRST_WAIT_MS :: int where
  "FIRST_WAIT_MS = 2000"

definition MAX_WAIT_MS :: int where
  "MAX_WAIT_MS = 30000"

definition noteJoinFailed :: "int \<Rightarrow> bool \<Rightarrow> join_backoff \<Rightarrow> join_backoff" where
  "noteJoinFailed now fromSwitch b = (
     let failures = Suc (jb_failures b)
     in \<lparr>jb_failures = failures, jb_retryAt = now + min (FIRST_WAIT_MS * 2 ^ (failures - 1)) MAX_WAIT_MS, jb_switched = fromSwitch\<rparr>)"

definition noteJoinSucceeded :: "join_backoff \<Rightarrow> join_backoff" where
  "noteJoinSucceeded b = \<lparr>jb_failures = 0, jb_retryAt = 0, jb_switched = False\<rparr>"

definition joinRetryInMs :: "int \<Rightarrow> join_backoff \<Rightarrow> int" where
  "joinRetryInMs now b = max 0 (jb_retryAt b - now)"

definition joinBackoffFromSwitch :: "join_backoff \<Rightarrow> bool" where
  "joinBackoffFromSwitch b = jb_switched b"

section \<open>The join in flight\<close>

definition OLD_SERVER_JOIN_CODES :: "string jset" where
  "OLD_SERVER_JOIN_CODES = [''CHANNEL_FULL'', ''VOICE_ERROR'', ''FORBIDDEN'', ''NOT_FOUND'', ''BAD_REQUEST'', ''RATE_LIMITED'',
     ''ALREADY_JOINED'', ''INTERNAL'', ''TIMED_OUT'']"

record refusal =
  rf_id :: string
  rf_channelId :: "int option"
  rf_passwordRetry :: bool

record owed_leave =
  ow_owed :: bool
  ow_channelId :: "int option"

definition clearOwedLeave :: "owed_leave \<Rightarrow> owed_leave" where
  "clearOwedLeave l = \<lparr>ow_owed = False, ow_channelId = None\<rparr>"

text \<open>\<open>jr_listener\<close> counts the calls of the listener that closes an open password dialog.\<close>

record join_request =
  jr_pendingId :: "string option"
  jr_pendingPasswordRetry :: bool
  jr_refusal :: "refusal option"
  jr_joinCount :: int
  jr_listener :: nat
  jr_owed :: owed_leave

definition joinSequence :: "join_request \<Rightarrow> int" where
  "joinSequence r = jr_joinCount r"

definition noteJoinSent :: "string option \<Rightarrow> bool \<Rightarrow> join_request \<Rightarrow> join_request" where
  "noteJoinSent cid passwordRetry r = r\<lparr>
     jr_listener := (if \<not> passwordRetry then Suc (jr_listener r) else jr_listener r),
     jr_owed := clearOwedLeave (jr_owed r), jr_joinCount := jr_joinCount r + 1, jr_pendingId := cid,
     jr_pendingPasswordRetry := (cid \<noteq> None \<and> passwordRetry), jr_refusal := None\<rparr>"

definition takeJoinRefusal :: "string \<Rightarrow> string option \<Rightarrow> int option \<Rightarrow> join_request \<Rightarrow> bool \<times> join_request" where
  "takeJoinRefusal code cid channelId r = (case cid of
     None \<Rightarrow> (js_has OLD_SERVER_JOIN_CODES code, r)
   | Some i \<Rightarrow>
       if jr_pendingId r = None \<or> Some i \<noteq> jr_pendingId r then (False, r)
       else (True, r\<lparr>jr_refusal := Some \<lparr>rf_id = i, rf_channelId = channelId, rf_passwordRetry = jr_pendingPasswordRetry r\<rparr>,
              jr_pendingId := None, jr_pendingPasswordRetry := False\<rparr>))"

definition refusalWasPasswordRetry :: "string option \<Rightarrow> join_request \<Rightarrow> bool" where
  "refusalWasPasswordRetry cid r = (case (cid, jr_refusal r) of (Some i, Some f) \<Rightarrow> rf_id f = i \<and> rf_passwordRetry f | _ \<Rightarrow> False)"

definition takeRefusedJoin :: "string option \<Rightarrow> join_request \<Rightarrow> (int option \<times> bool) option \<times> join_request" where
  "takeRefusedJoin cid r = (case (cid, jr_refusal r) of
     (Some i, Some f) \<Rightarrow> if rf_id f \<noteq> i then (None, r) else (Some (rf_channelId f, rf_passwordRetry f), r\<lparr>jr_refusal := None\<rparr>)
   | _ \<Rightarrow> (None, r))"

definition resetJoinRequest :: "join_request \<Rightarrow> join_request" where
  "resetJoinRequest r = r\<lparr>jr_pendingId := None, jr_pendingPasswordRetry := False, jr_refusal := None\<rparr>"

section \<open>The owed leave\<close>

definition noteVoiceLeave :: "int option \<Rightarrow> owed_leave \<Rightarrow> owed_leave" where
  "noteVoiceLeave currentChannelId l = \<lparr>ow_owed = True, ow_channelId = currentChannelId\<rparr>"

definition settleVoiceLeave :: "int \<Rightarrow> owed_leave \<Rightarrow> owed_leave" where
  "settleVoiceLeave channelId l = (if ow_owed l \<and> ow_channelId l = Some channelId then clearOwedLeave l else l)"

definition isVoiceLeaveOwed :: "owed_leave \<Rightarrow> bool" where
  "isVoiceLeaveOwed l = ow_owed l"

text \<open>The first component says whether a \<open>voice_leave\<close> is sent.\<close>

definition sendOwedVoiceLeave :: "bool \<Rightarrow> owed_leave \<Rightarrow> bool \<times> owed_leave" where
  "sendOwedVoiceLeave idle l = (if \<not> ow_owed l then (False, l) else if \<not> idle then (False, clearOwedLeave l) else (True, clearOwedLeave l))"

section \<open>Moves\<close>

record move_hint =
  mh_pendingMoveChannelId :: "int option"
  mh_pendingAfkChannelId :: "int option"

definition noteVoiceMoved :: "int \<Rightarrow> move_hint \<Rightarrow> move_hint" where
  "noteVoiceMoved channelId h = h\<lparr>mh_pendingMoveChannelId := Some channelId\<rparr>"

definition isVoiceMovePending :: "move_hint \<Rightarrow> bool" where
  "isVoiceMovePending h = (mh_pendingMoveChannelId h \<noteq> None)"

definition takeVoiceMoved :: "int option \<Rightarrow> move_hint \<Rightarrow> bool \<times> move_hint" where
  "takeVoiceMoved channelId h = (channelId \<noteq> None \<and> mh_pendingMoveChannelId h = channelId, h\<lparr>mh_pendingMoveChannelId := None\<rparr>)"

definition noteAfkMove :: "int \<Rightarrow> move_hint \<Rightarrow> move_hint" where
  "noteAfkMove channelId h = h\<lparr>mh_pendingAfkChannelId := Some channelId\<rparr>"

definition takeAfkMove :: "int \<Rightarrow> move_hint \<Rightarrow> bool \<times> move_hint" where
  "takeAfkMove channelId h = (mh_pendingAfkChannelId h = Some channelId, h\<lparr>mh_pendingAfkChannelId := None\<rparr>)"

definition clearAfkMove :: "move_hint \<Rightarrow> move_hint" where
  "clearAfkMove h = h\<lparr>mh_pendingAfkChannelId := None\<rparr>"

definition resetMoveHint :: "move_hint \<Rightarrow> move_hint" where
  "resetMoveHint h = \<lparr>mh_pendingMoveChannelId = None, mh_pendingAfkChannelId = None\<rparr>"

section \<open>Watch frames\<close>

definition MAX_PENDING :: nat where
  "MAX_PENDING = 16"

definition noteWatchSent :: "string option \<Rightarrow> string list \<Rightarrow> string list" where
  "noteWatchSent cid pend = (case cid of None \<Rightarrow> pend
     | Some i \<Rightarrow> let pend1 = pend @ [i] in if length pend1 > MAX_PENDING then tl pend1 else pend1)"

definition takeWatchRefusal :: "string option \<Rightarrow> string list \<Rightarrow> bool \<times> string list" where
  "takeWatchRefusal cid pend = (case cid of None \<Rightarrow> (False, pend)
     | Some i \<Rightarrow> (case find_index (\<lambda>x. x = i) pend of None \<Rightarrow> (False, pend) | Some at \<Rightarrow> (True, take at pend @ drop (Suc at) pend)))"

definition resetWatchRequest :: "string list \<Rightarrow> string list" where
  "resetWatchRequest pend = []"

section \<open>Properties\<close>

lemma watch_bounded: "length pend \<le> MAX_PENDING \<Longrightarrow> length (noteWatchSent cid pend) \<le> MAX_PENDING"
  by (auto simp: noteWatchSent_def Let_def split: option.splits)

text \<open>The wait after a failed join is the first wait doubled for each failure before it, never above the maximum, and
  never shorter than after fewer failures.\<close>

lemma backoff_wait:
  "joinRetryInMs now (noteJoinFailed now sw b) = min (FIRST_WAIT_MS * 2 ^ jb_failures b) MAX_WAIT_MS"
  by (simp add: joinRetryInMs_def noteJoinFailed_def FIRST_WAIT_MS_def MAX_WAIT_MS_def Let_def)

lemma backoff_grows:
  assumes "jb_failures b \<le> jb_failures b'"
  shows "joinRetryInMs now (noteJoinFailed now sw b) \<le> joinRetryInMs now (noteJoinFailed now sw' b')"
proof -
  have "FIRST_WAIT_MS * 2 ^ jb_failures b \<le> FIRST_WAIT_MS * 2 ^ jb_failures b'"
    using assms by (simp add: FIRST_WAIT_MS_def power_increasing)
  then show ?thesis unfolding backoff_wait by linarith
qed

text \<open>A sequence of failed joins, at the given times.\<close>

definition failing_joins :: "int list \<Rightarrow> join_backoff \<Rightarrow> join_backoff" where
  "failing_joins ts b = fold (\<lambda>t. noteJoinFailed t False) ts b"

lemma failing_count: "jb_failures (failing_joins ts b) = jb_failures b + length ts"
  by (induction ts arbitrary: b) (auto simp: failing_joins_def noteJoinFailed_def Let_def)

text \<open>Joins that keep failing after one that succeeded, each started only once its wait is over: the wait doubles from two
  seconds, and from the fifth on they are half a minute apart, however often they are tried.\<close>

theorem failing_joins_paced:
  assumes "joinRetryInMs t2 (failing_joins (ts @ [t1]) (noteJoinSucceeded b)) = 0"
  shows "t2 - t1 \<ge> min (2000 * 2 ^ length ts) 30000"
proof -
  let ?b = "failing_joins ts (noteJoinSucceeded b)"
  have "failing_joins (ts @ [t1]) (noteJoinSucceeded b) = noteJoinFailed t1 False ?b" by (simp add: failing_joins_def)
  moreover have "jb_failures ?b = length ts" by (simp add: failing_count noteJoinSucceeded_def)
  ultimately have "jb_retryAt (failing_joins (ts @ [t1]) (noteJoinSucceeded b)) = t1 + min (2000 * 2 ^ length ts) 30000"
    by (simp add: noteJoinFailed_def FIRST_WAIT_MS_def MAX_WAIT_MS_def Let_def)
  with assms show ?thesis by (simp add: joinRetryInMs_def)
qed

theorem failing_joins_paced_witness:
  "joinRetryInMs 8000 (failing_joins [0, 3000] (noteJoinSucceeded \<lparr>jb_failures = 9, jb_retryAt = 7, jb_switched = True\<rparr>)) = 0 \<and> (8000::int) - 3000 \<ge> 4000"
proof -
  have "joinRetryInMs 8000 (failing_joins ([0] @ [3000]) (noteJoinSucceeded \<lparr>jb_failures = 9, jb_retryAt = 7, jb_switched = True\<rparr>)) = 0" by code_simp
  from failing_joins_paced [OF this] this show ?thesis by simp
qed

text \<open>Only the refusal of the latest join rolls a join back: after a newer join was sent, an error frame with the id
  of an older one changes nothing.\<close>

theorem refusal_of_latest_join:
  assumes "takeJoinRefusal code (Some i) c (noteJoinSent cid retry r) = (True, r')"
  shows "cid = Some i \<and> takeRefusedJoin (Some i) r' = (Some (c, retry), r'\<lparr>jr_refusal := None\<rparr>) \<and>
    fst (takeJoinRefusal code' (Some i) c' r') = False"
  using assms by (auto simp: takeJoinRefusal_def noteJoinSent_def takeRefusedJoin_def split: if_splits)

theorem refusal_of_latest_join_witness:
  "\<exists>r'. takeJoinRefusal ''FORBIDDEN'' (Some ''b'') (Some 4) (noteJoinSent (Some ''b'') False (noteJoinSent (Some ''a'') False
       \<lparr>jr_pendingId = None, jr_pendingPasswordRetry = False, jr_refusal = None, jr_joinCount = 0, jr_listener = 0, jr_owed = \<lparr>ow_owed = False, ow_channelId = None\<rparr>\<rparr>)) = (True, r') \<and>
     fst (takeJoinRefusal ''FORBIDDEN'' (Some ''b'') None r') = False"
proof -
  let ?r = "noteJoinSent (Some ''a'') False \<lparr>jr_pendingId = None, jr_pendingPasswordRetry = False, jr_refusal = None, jr_joinCount = 0, jr_listener = 0,
    jr_owed = \<lparr>ow_owed = False, ow_channelId = None\<rparr>\<rparr>"
  obtain r' where "takeJoinRefusal ''FORBIDDEN'' (Some ''b'') (Some 4) (noteJoinSent (Some ''b'') False ?r) = (True, r')"
    by (simp add: takeJoinRefusal_def noteJoinSent_def)
  from refusal_of_latest_join [OF this] this show ?thesis by blast
qed

end
