(* ===== verification/Voice_Handlers.thy ===== *)
theory Voice_Handlers
  imports Voice_Store Voice_Join Channel_Handlers
begin

text \<open>
  \<open>features/voice/wsHandlers.ts\<close>: what the voice frames do to the voice store, to the modules of
  \<open>Voice_Join\<close> and to the reconnect clock, with \<open>setMuted\<close> and \<open>setDeafened\<close> of
  \<open>features/voice/mediaControl.ts\<close>. The media session is imported on first use, so what a handler does
  through it is a task that runs later, in the order of the frames; calls into the media session and the page
  are effects.
\<close>

section \<open>State\<close>

datatype voice_task =
    Apply_audio bool bool bool bool
  | Move_voice int
  | Left_voice int bool bool bool
  | Roll_back_join
  | Participants_left "int list" "(bool \<times> bool) option"

datatype voice_effect =
    Send voice_frame
  | Livekit_leave bool
  | Livekit_participant_left int
  | Livekit_resend_watching
  | Livekit_video_flags bool bool
  | Livekit_mic bool
  | Livekit_subscription bool
  | Livekit_fail_rejoin
  | Livekit_token int
  | Livekit_announce int
  | Livekit_offer int
  | Livekit_retry_watching
  | Livekit_disable_camera
  | Rollback_video string
  | Password_prompt int "string option"
  | Voice_toast string

record voice_session =
  vx_voice :: voice_module
  vx_clock :: reconnect_clock
  vx_backoff :: join_backoff
  vx_request :: join_request
  vx_hint :: move_hint
  vx_watch :: "string list"
  vx_tasks :: "voice_task list"
  vx_out :: "voice_effect list"

text \<open>What the handlers read elsewhere: the signed-in user, the roster of members and the channels, the clock, the
  envelope id that \<open>send\<close> gives a frame, and whether the media session is reconnecting or under way.\<close>

record voice_env =
  ve_self :: int
  ve_members :: members_state
  ve_channels :: channels_state
  ve_now :: int
  ve_sendId :: "string option"
  ve_autoReconnecting :: bool
  ve_sessionActive :: bool
  ve_text :: "string \<Rightarrow> string list \<Rightarrow> string"

definition vx_state :: "voice_session \<Rightarrow> voice_state" where
  "vx_state x = vm_state (vx_voice x)"

definition on_store :: "(voice_state \<Rightarrow> voice_state) \<Rightarrow> voice_session \<Rightarrow> voice_session" where
  "on_store f x = x\<lparr>vx_voice := on_voice f (vx_voice x)\<rparr>"

definition vx_emit :: "voice_effect \<Rightarrow> voice_session \<Rightarrow> voice_session" where
  "vx_emit e x = x\<lparr>vx_out := vx_out x @ [e]\<rparr>"

definition vx_later :: "voice_task \<Rightarrow> voice_session \<Rightarrow> voice_session" where
  "vx_later t x = x\<lparr>vx_tasks := vx_tasks x @ [t]\<rparr>"

definition on_hint :: "(move_hint \<Rightarrow> move_hint) \<Rightarrow> voice_session \<Rightarrow> voice_session" where
  "on_hint f x = x\<lparr>vx_hint := f (vx_hint x)\<rparr>"

definition stopRejoin :: "voice_session \<Rightarrow> voice_session" where
  "stopRejoin x = x\<lparr>vx_clock := cancelVoiceRejoin (vx_clock x)\<rparr>"

section \<open>The microphone through the media session\<close>

definition setMuted :: "int \<Rightarrow> bool \<Rightarrow> voice_session \<Rightarrow> voice_session" where
  "setMuted self muted x = (
     if \<not> muted \<and> vs_localServerMuted (vx_state x) then x
     else if \<not> muted \<and> vs_inAfkChannel (vx_state x) then x
     else vx_emit (Livekit_mic muted) (on_store (setLocalMuted self muted) x))"

definition setDeafened :: "bool \<Rightarrow> voice_session \<Rightarrow> voice_session" where
  "setDeafened deafened x = (
     if \<not> deafened \<and> vs_localServerDeafened (vx_state x) then x
     else let x1 = x\<lparr>vx_voice := setLocalDeafened deafened (vx_voice x)\<rparr>
       in vx_emit (Livekit_mic (deafened \<or> vs_localMuted (vx_state x1))) (vx_emit (Livekit_subscription deafened) x1))"

definition applyAudio :: "int \<Rightarrow> bool \<Rightarrow> bool \<Rightarrow> bool \<Rightarrow> bool \<Rightarrow> voice_session \<Rightarrow> voice_session" where
  "applyAudio self applyDeafen applyMute releaseMute releaseDeafen x = (
     let x1 = (if applyDeafen then setDeafened True x else x);
         x2 = (if applyMute then setMuted self True x1 else x1);
         x3 = (if releaseMute then setMuted self False x2 else x2)
     in if releaseDeafen then setDeafened False x3 else x3)"

definition enforceModeratorAudioState ::
  "bool \<Rightarrow> bool \<Rightarrow> bool \<Rightarrow> bool \<Rightarrow> bool \<Rightarrow> bool \<Rightarrow> voice_session \<Rightarrow> voice_session" where
  "enforceModeratorAudioState serverMuted serverDeafened prevServerMuted prevServerDeafened selfMuted selfDeafened x = (
     let voice = vx_state x;
         applyDeafen = (serverDeafened \<and> \<not> vs_localDeafened voice);
         x1 = (if applyDeafen then on_store (setModeratorDeafened True) x else x);
         deafenLifted = (prevServerDeafened \<and> \<not> serverDeafened);
         keepOwnDeafen = (deafenLifted \<and> vs_localDeafened voice \<and> \<not> vs_moderatorDeafened voice);
         x2 = (if deafenLifted then on_store (setModeratorDeafened False) x1 else x1);
         x3 = (if keepOwnDeafen then vx_emit (Send (Voice_deafen True)) x2 else x2);
         applyMute = (serverMuted \<and> \<not> vs_localMuted voice);
         releaseMute = (prevServerMuted \<and> \<not> serverMuted \<and> vs_localMuted voice \<and> \<not> selfMuted);
         releaseDeafen = (deafenLifted \<and> \<not> keepOwnDeafen \<and> vs_localDeafened voice \<and> \<not> selfDeafened)
     in if applyDeafen \<or> applyMute \<or> releaseMute \<or> releaseDeafen
        then vx_later (Apply_audio applyDeafen applyMute releaseMute releaseDeafen) x3 else x3)"

section \<open>Frames\<close>

text \<open>The snapshot before \<open>ready\<close>: the channel, the ids in it and the moderator's flags.\<close>

record ready_voice_snapshot =
  rs_prevChannelId :: "int option"
  rs_prevPeerIds :: "int list"
  rs_prevServerMuted :: bool
  rs_prevServerDeafened :: bool

definition snapshotReadyVoice :: "voice_state \<Rightarrow> ready_voice_snapshot" where
  "snapshotReadyVoice s = \<lparr>rs_prevChannelId = vs_currentChannelId s,
     rs_prevPeerIds = (case vs_currentChannelId s of None \<Rightarrow> [] | Some c \<Rightarrow>
       (case jm_get (vs_voiceUsers s) c of None \<Rightarrow> [] | Some users \<Rightarrow> jm_keys users)),
     rs_prevServerMuted = vs_localServerMuted s, rs_prevServerDeafened = vs_localServerDeafened s\<rparr>"

definition departedPeers :: "int \<Rightarrow> ready_voice_snapshot \<Rightarrow> ready_voice_state \<Rightarrow> ready_voice_state list \<Rightarrow> int list" where
  "departedPeers self snap selfState states = (
     if rs_prevChannelId snap \<noteq> Some (rv_channel_id selfState) then []
     else filter (\<lambda>u. u \<noteq> self \<and> u \<notin> set (map rv_user_id (filter (\<lambda>vs. rv_channel_id vs = rv_channel_id selfState) states))) (rs_prevPeerIds snap))"

definition applyReadyVoice :: "voice_env \<Rightarrow> ready_voice_snapshot \<Rightarrow> ready_voice_state list \<Rightarrow> voice_session \<Rightarrow> voice_session" where
  "applyReadyVoice env snap states x = (
     let self = ve_self env;
         x1 = on_hint clearAfkMove (on_store (setVoiceStates self (ve_members env) states) x);
         selfState = (if self \<noteq> 0 then find (\<lambda>vs. rv_user_id vs = self) states else None)
     in case selfState of
       None \<Rightarrow> x1
     | Some own \<Rightarrow>
         if vs_voiceStatus (vx_state x1) = V_idle then x1
         else let sm = (rv_server_muted own = Some True);
                  sd = (rv_server_deafened own = Some True);
                  x2 = enforceModeratorAudioState sm sd (rs_prevServerMuted snap) (rs_prevServerDeafened snap) (rv_muted own) (rv_deafened own) x1;
                  modMuted = (rs_prevServerMuted snap \<or> sm);
                  modDeafened = (rs_prevServerDeafened snap \<or> sd);
                  x3 = fold (\<lambda>f. vx_emit (Send f)) (restateSelfVoiceState self (modMuted \<or> modDeafened) modDeafened (vx_state x2)) x2;
                  x4 = on_store clearPeerWatching (x3\<lparr>vx_voice := noteWatchingResync (ve_now env) (vx_voice x3)\<rparr>);
                  left = departedPeers self snap own states;
                  x5 = fold (\<lambda>u. on_store (\<lambda>s. setPeerKeySlots u False (setPeerVideoDecode u None s))) left x4
              in vx_later (Participants_left left (if rs_prevChannelId snap = Some (rv_channel_id own)
                   then Some (rv_camera own = Some True, rv_screenshare own = Some True) else None)) x5)"

definition handleVoiceState :: "voice_env \<Rightarrow> voice_state_payload \<Rightarrow> voice_session \<Rightarrow> voice_session" where
  "handleVoiceState env payload x = (
     let isSelf = (vp_user_id payload = ve_self env);
         prevServerMuted = (isSelf \<and> vs_localServerMuted (vx_state x));
         prevServerDeafened = (isSelf \<and> vs_localServerDeafened (vx_state x));
         x1 = x\<lparr>vx_voice := (on_voice (updateVoiceState (ve_self env) payload) (vx_voice x))\<lparr>vm_rosterRevision := vm_rosterRevision (vx_voice x) + 1\<rparr>\<rparr>
     in if \<not> isSelf then x1
        else if vs_voiceStatus (vx_state x1) = V_idle then x1
        else let x2 = on_store (joinVoiceChannel (ve_now env) (vp_channel_id payload)) x1;
                 (moved, hint) = takeAfkMove (vp_channel_id payload) (vx_hint x2);
                 x3 = x2\<lparr>vx_hint := hint\<rparr>;
                 x4 = (if moved then vx_emit (Voice_toast (ve_text env ''voice.movedAfk''
                        [case jm_get (cs_channels (ve_channels env)) (vp_channel_id payload) of Some ch \<Rightarrow> ch_name ch
                         | None \<Rightarrow> ve_text env ''voice.afkChannelFallback'' []])) x3 else x3)
             in enforceModeratorAudioState (vp_server_muted payload = Some True) (vp_server_deafened payload = Some True)
                  prevServerMuted prevServerDeafened (vp_muted payload) (vp_deafened payload) x4)"

definition announceModeratorMove :: "voice_env \<Rightarrow> int \<Rightarrow> int \<Rightarrow> voice_session \<Rightarrow> voice_session" where
  "announceModeratorMove env byUserId toChannelId x = (
     let channel = (case jm_get (cs_channels (ve_channels env)) toChannelId of Some ch \<Rightarrow> ch_name ch
           | None \<Rightarrow> ve_text env ''voice.movedChannelFallback'' [])
     in vx_emit (Voice_toast (case jm_get (ms_members (ve_members env)) byUserId of
          None \<Rightarrow> ve_text env ''voice.movedGeneric'' [channel]
        | Some mover \<Rightarrow> ve_text env ''voice.movedBy'' [memberDisplayName mover, channel])) x)"

definition handleVoiceMoved :: "voice_env \<Rightarrow> int \<Rightarrow> string option \<Rightarrow> int option \<Rightarrow> voice_session \<Rightarrow> voice_session" where
  "handleVoiceMoved env toChannelId reason byUserId x = (
     let x1 = on_hint (noteVoiceMoved toChannelId) (stopRejoin x);
         x2 = (if reason = Some ''afk'' then on_hint (noteAfkMove toChannelId) x1
               else let x' = on_hint clearAfkMove x1
                 in case byUserId of None \<Rightarrow> x' | Some i \<Rightarrow> announceModeratorMove env i toChannelId x')
     in vx_later (Move_voice toChannelId) x2)"

definition voiceMovedLoaded :: "voice_env \<Rightarrow> int \<Rightarrow> voice_session \<Rightarrow> voice_session" where
  "voiceMovedLoaded env toChannelId x = (
     let x1 = on_store (joinVoiceChannel (ve_now env) toChannelId) (on_store (leaveVoiceChannel (ve_self env)) (vx_emit (Livekit_leave False) x));
         x2 = vx_emit (Send (Voice_join toChannelId)) x1
     in x2\<lparr>vx_request := noteJoinSent (ve_sendId env) False (vx_request x2)\<rparr>)"

definition handleVoiceDisconnected :: "voice_env \<Rightarrow> int \<Rightarrow> string \<Rightarrow> voice_session \<Rightarrow> voice_session" where
  "handleVoiceDisconnected env channelId reason x = (
     let cur = vs_currentChannelId (vx_state x)
     in if cur \<noteq> None \<and> cur \<noteq> Some channelId then x
        else let x1 = on_hint clearAfkMove (stopRejoin x);
                 x2 = on_store (leaveVoiceChannel (ve_self env)) (vx_emit (Livekit_leave False) x1)
             in vx_emit (Voice_toast (if reason = [] then ve_text env ''voice.disconnected'' [] else reason)) x2)"

definition handleVoiceLeave :: "voice_env \<Rightarrow> int \<Rightarrow> int \<Rightarrow> voice_session \<Rightarrow> voice_session" where
  "handleVoiceLeave env channelId userId x = (
     let x1 = x\<lparr>vx_voice := (on_voice (removeVoiceUser channelId userId) (vx_voice x))\<lparr>vm_rosterRevision := vm_rosterRevision (vx_voice x) + 1\<rparr>\<rparr>;
         isSelf = (userId = ve_self env);
         sameChannel = (vs_currentChannelId (vx_state x1) = Some channelId);
         shouldTeardownSession = (isSelf \<and> sameChannel);
         x2 = (if isSelf then (on_hint clearAfkMove x1)\<lparr>vx_request := (vx_request x1)\<lparr>jr_owed := settleVoiceLeave channelId (jr_owed (vx_request x1))\<rparr>\<rparr> else x1);
         loopMayOwn = (vs_voiceStatus (vx_state x2) = V_reconnecting);
         x3 = (if shouldTeardownSession \<and> \<not> loopMayOwn then on_store (leaveVoiceChannel (ve_self env)) x2 else x2);
         x4 = on_store (\<lambda>s. setPeerKeySlots userId False (setPeerVideoDecode userId None s)) x3;
         x5 = vx_later (Left_voice userId sameChannel shouldTeardownSession loopMayOwn) x4
     in if isSelf then stopRejoin x5 else x5)"

definition voiceLeaveLoaded :: "voice_env \<Rightarrow> int \<Rightarrow> bool \<Rightarrow> bool \<Rightarrow> bool \<Rightarrow> voice_session \<Rightarrow> voice_session" where
  "voiceLeaveLoaded env userId sameChannel shouldTeardownSession loopMayOwn x = (
     let x1 = (if sameChannel then vx_emit (Livekit_participant_left userId) x else x)
     in if shouldTeardownSession \<and> \<not> ve_autoReconnecting env
        then (let x2 = vx_emit (Livekit_leave False) x1 in if loopMayOwn then on_store (leaveVoiceChannel (ve_self env)) x2 else x2)
        else x1)"

definition handleVoiceConfig :: "int \<Rightarrow> voice_config \<Rightarrow> voice_session \<Rightarrow> voice_session" where
  "handleVoiceConfig channelId cfg x = on_store (setVoiceConfig channelId cfg) x"

definition handleVoiceTokenFrame :: "int \<Rightarrow> voice_session \<Rightarrow> voice_session" where
  "handleVoiceTokenFrame channelId x = vx_emit (Livekit_token channelId) x"

definition MAX_VIDEO_DECODE :: nat where
  "MAX_VIDEO_DECODE = 8"

text \<open>An entry of the untrusted list is a string or something else.\<close>

definition narrowVideoDecode :: "string option list option \<Rightarrow> string list option" where
  "narrowVideoDecode value' = (case value' of None \<Rightarrow> None
     | Some entries \<Rightarrow> if list_all (\<lambda>e. e \<noteq> None) entries then Some (take MAX_VIDEO_DECODE (map the entries)) else None)"

definition handleVoiceE2eeAnnounce :: "int \<Rightarrow> string option list option \<Rightarrow> bool option \<Rightarrow> voice_session \<Rightarrow> voice_session" where
  "handleVoiceE2eeAnnounce userId videoDecode keySlots x =
     vx_emit (Livekit_announce userId)
       (on_store (setPeerKeySlots userId (keySlots = Some True)) (on_store (setPeerVideoDecode userId (narrowVideoDecode videoDecode)) x))"

text \<open>\<open>None\<close> entries are those that are not integers.\<close>

definition handleVoiceWatching :: "int \<Rightarrow> int option list option \<Rightarrow> voice_session \<Rightarrow> voice_session" where
  "handleVoiceWatching userId raw x = (
     let ids = (case raw of None \<Rightarrow> [] | Some entries \<Rightarrow> sort (js_of_list (List.map_filter id entries)))
     in on_store (setPeerWatching userId ids) x)"

definition handleVoiceWatchError :: "string \<Rightarrow> string option \<Rightarrow> voice_session \<Rightarrow> bool \<times> voice_session" where
  "handleVoiceWatchError code cid x = (case takeWatchRefusal cid (vx_watch x) of
     (False, _) \<Rightarrow> (False, x)
   | (True, pend) \<Rightarrow>
       let x1 = x\<lparr>vx_watch := pend\<rparr> in (True, if code = ''RATE_LIMITED'' then vx_emit Livekit_retry_watching x1 else x1))"

definition handleVoiceE2eeOffer :: "int \<Rightarrow> voice_session \<Rightarrow> voice_session" where
  "handleVoiceE2eeOffer fromUserId x = vx_emit (Livekit_offer fromUserId) x"

definition isPasswordCode :: "string \<Rightarrow> bool" where
  "isPasswordCode code = (code = ''PASSWORD_REQUIRED'' \<or> code = ''WRONG_PASSWORD'')"

definition handleVoiceJoinRollback :: "voice_env \<Rightarrow> string \<Rightarrow> string option \<Rightarrow> voice_session \<Rightarrow> voice_session" where
  "handleVoiceJoinRollback env code cid x = (
     if vs_voiceStatus (vx_state x) \<noteq> V_joining then x
     else case takeJoinRefusal code cid (vs_currentChannelId (vx_state x)) (vx_request x) of
       (False, r) \<Rightarrow> x\<lparr>vx_request := r\<rparr>
     | (True, r) \<Rightarrow>
         let x1 = on_hint clearAfkMove (x\<lparr>vx_request := r\<rparr>);
             passwordRefusal = (isPasswordCode code \<or> (code = ''RATE_LIMITED'' \<and> refusalWasPasswordRetry cid r));
             x2 = (if \<not> passwordRefusal then x1\<lparr>vx_backoff := noteJoinFailed (ve_now env) False (vx_backoff x1)\<rparr> else x1)
         in on_store (leaveVoiceChannel (ve_self env)) (vx_later Roll_back_join x2))"

definition rollbackLoaded :: "voice_env \<Rightarrow> voice_session \<Rightarrow> voice_session" where
  "rollbackLoaded env x = (
     let x1 = vx_emit Livekit_fail_rejoin x in if ve_sessionActive env then vx_emit (Livekit_leave True) x1 else x1)"

text \<open>The prompt is an effect; that it is not shown after the session or the join has changed is checked when its
  code has loaded, outside this model.\<close>

definition handleVoicePasswordRefusal :: "string \<Rightarrow> string option \<Rightarrow> voice_session \<Rightarrow> bool \<times> voice_session" where
  "handleVoicePasswordRefusal code cid x = (
     let (refused, r) = takeRefusedJoin cid (vx_request x); x1 = x\<lparr>vx_request := r\<rparr>
     in case refused of
       None \<Rightarrow> (isPasswordCode code, x1)
     | Some (None, _) \<Rightarrow> (isPasswordCode code, x1)
     | Some (Some channelId, passwordRetry) \<Rightarrow>
         if code = ''WRONG_PASSWORD'' then (True, vx_emit (Password_prompt channelId (Some ''wrong'')) x1)
         else if code = ''RATE_LIMITED'' \<and> passwordRetry then (True, vx_emit (Password_prompt channelId (Some ''rateLimited'')) x1)
         else if code \<noteq> ''PASSWORD_REQUIRED'' then (False, x1)
         else (True, vx_emit (Password_prompt channelId None) x1))"

definition handleVoiceError :: "voice_env \<Rightarrow> string \<Rightarrow> string option \<Rightarrow> voice_session \<Rightarrow> bool \<times> voice_session" where
  "handleVoiceError env code cid x = (
     if code = ''CHANNEL_FULL'' then (True, vx_emit (Voice_toast (ve_text env ''voice.channelFull'' [])) x)
     else if code = ''VIDEO_LIMIT'' then
       (let x1 = vx_emit (Voice_toast (ve_text env ''voice.videoLimit'' [])) x
        in (True, case cid of Some i \<Rightarrow> vx_emit (Rollback_video i) x1 | None \<Rightarrow> vx_emit Livekit_disable_camera x1))
     else (False, x))"

definition rollbackVideoOnError :: "string option \<Rightarrow> voice_session \<Rightarrow> voice_session" where
  "rollbackVideoOnError cid x = (case cid of Some i \<Rightarrow> vx_emit (Rollback_video i) x | None \<Rightarrow> x)"

section \<open>Tasks\<close>

definition participantsLeft :: "int list \<Rightarrow> (bool \<times> bool) option \<Rightarrow> voice_session \<Rightarrow> voice_session" where
  "participantsLeft left flags x = (
     let x1 = vx_emit Livekit_resend_watching (fold (\<lambda>u. vx_emit (Livekit_participant_left u)) left x)
     in case flags of None \<Rightarrow> x1 | Some (camera, screen) \<Rightarrow> vx_emit (Livekit_video_flags camera screen) x1)"

fun run_task :: "voice_env \<Rightarrow> voice_task \<Rightarrow> voice_session \<Rightarrow> voice_session" where
  "run_task env (Apply_audio ad am rm rd) x = applyAudio (ve_self env) ad am rm rd x"
| "run_task env (Move_voice c) x = voiceMovedLoaded env c x"
| "run_task env (Left_voice u same down loop) x = voiceLeaveLoaded env u same down loop x"
| "run_task env Roll_back_join x = rollbackLoaded env x"
| "run_task env (Participants_left us flags) x = participantsLeft us flags x"

definition run_tasks :: "voice_env \<Rightarrow> voice_session \<Rightarrow> voice_session" where
  "run_tasks env x = fold (run_task env) (vx_tasks x) (x\<lparr>vx_tasks := []\<rparr>)"

end
