(* ===== verification/Voice_Rings.thy ===== *)
theory Voice_Rings
  imports Voice_Store
begin

text \<open>
  The voice store in use: its mutators as actions, the invariant of the roster and of the speaking
  rings, who watches a stream, and the microphone state that a restart restores.
\<close>

section \<open>Actions\<close>

datatype voice_action =
    Reset_voice
  | Set_voice_states "members_state" "ready_voice_state list"
  | Update_voice_state voice_state_payload
  | Update_voice_profile int string
  | Remove_voice_user int int
  | Clear_channel_users int
  | Join_voice int int
  | Leave_voice
  | Set_status voice_status
  | Set_degraded bool
  | Set_moderator_deafened bool
  | Set_muted_before bool
  | Set_muted bool
  | Set_deafened bool
  | Save_self
  | Restore_self
  | Set_ptt_gated bool
  | Set_gate "bool option"
  | Set_speakers int "int list"
  | Set_peer_watching int "int list"
  | Clear_watching
  | Sync_afk channels_state
  | Set_media "voice_state \<Rightarrow> voice_state"

text \<open>\<open>Set_media\<close> stands for the mutators that write one field which no ring depends on.\<close>

definition media_only :: "(voice_state \<Rightarrow> voice_state) \<Rightarrow> bool" where
  "media_only f = (\<forall>s. vs_voiceUsers (f s) = vs_voiceUsers s \<and> vs_currentChannelId (f s) = vs_currentChannelId s \<and>
     vs_localMuted (f s) = vs_localMuted s \<and> vs_pttGated (f s) = vs_pttGated s \<and> vs_localGateSpeaking (f s) = vs_localGateSpeaking s)"

fun voice_apply :: "int \<Rightarrow> voice_action \<Rightarrow> voice_module \<Rightarrow> voice_module" where
  "voice_apply self Reset_voice m = resetVoiceStore m"
| "voice_apply self (Set_voice_states members states) m = on_voice (setVoiceStates self members states) m"
| "voice_apply self (Update_voice_state payload) m = (on_voice (updateVoiceState self payload) m)\<lparr>vm_rosterRevision := vm_rosterRevision m + 1\<rparr>"
| "voice_apply self (Update_voice_profile u name) m = on_voice (updateVoiceUserProfile u name) m"
| "voice_apply self (Remove_voice_user c u) m = (on_voice (removeVoiceUser c u) m)\<lparr>vm_rosterRevision := vm_rosterRevision m + 1\<rparr>"
| "voice_apply self (Clear_channel_users c) m = clearChannelVoiceUsers c m"
| "voice_apply self (Join_voice now c) m = on_voice (joinVoiceChannel now c) m"
| "voice_apply self Leave_voice m = on_voice (leaveVoiceChannel self) m"
| "voice_apply self (Set_status st) m = on_voice (setVoiceStatus st) m"
| "voice_apply self (Set_degraded b) m = on_voice (setEncryptionDegraded b) m"
| "voice_apply self (Set_moderator_deafened b) m = on_voice (setModeratorDeafened b) m"
| "voice_apply self (Set_muted_before b) m = on_voice (setMutedBeforeDeafen b) m"
| "voice_apply self (Set_muted b) m = on_voice (setLocalMuted self b) m"
| "voice_apply self (Set_deafened b) m = setLocalDeafened b m"
| "voice_apply self Save_self m = saveSelfVoiceState m"
| "voice_apply self Restore_self m = restoreSavedSelfVoiceState m"
| "voice_apply self (Set_ptt_gated b) m = on_voice (setPttGated self b) m"
| "voice_apply self (Set_gate g) m = on_voice (setLocalGateSpeaking self g) m"
| "voice_apply self (Set_speakers c us) m = on_voice (setSpeakers self c us) m"
| "voice_apply self (Set_peer_watching u ws) m = on_voice (setPeerWatching u ws) m"
| "voice_apply self Clear_watching m = on_voice clearPeerWatching m"
| "voice_apply self (Sync_afk channels) m = on_voice (syncInAfkChannel channels) m"
| "voice_apply self (Set_media f) m = on_voice f m"

text \<open>The server sends no ring: \<open>speaking\<close> is false in every \<open>voice_state\<close> frame.\<close>

fun voice_action_ok :: "voice_action \<Rightarrow> bool" where
  "voice_action_ok (Update_voice_state payload) = (\<not> vp_speaking payload)"
| "voice_action_ok (Set_media f) = media_only f"
| "voice_action_ok _ = True"

lemma media_mutators:
  "media_only (setLocalCamera b)" "media_only (setLocalScreenshare b)" "media_only bumpLocalCameraRev" "media_only bumpLocalShareRev"
  "media_only (setShareDenied b)" "media_only (setListenOnly b)" "media_only (setVoiceConfig c cfg)" "media_only (setPeerVerification v)"
  "media_only (clearPeerVerification u)" "media_only clearPeerVerifications" "media_only (setLocalSessionFingerprint f)"
  "media_only (setLocalSafetyNumber f)" "media_only (setPeerVideoDecode u cs)" "media_only (setPeerKeySlots u b)"
  "media_only (setVoiceStatus st)" "media_only (setEncryptionDegraded b)" "media_only (setModeratorDeafened b)" "media_only (setMutedBeforeDeafen b)"
  "media_only (deafenState b)" "media_only (setPeerWatching u us)" "media_only clearPeerWatching" "media_only (syncInAfkChannel channels)"
  by (simp_all add: setVoiceStatus_def setEncryptionDegraded_def setModeratorDeafened_def setMutedBeforeDeafen_def deafenState_def
      setPeerWatching_def clearPeerWatching_def syncInAfkChannel_def Let_def media_only_def setLocalCamera_def setLocalScreenshare_def bumpLocalCameraRev_def bumpLocalShareRev_def setShareDenied_def
      setListenOnly_def setVoiceConfig_def setPeerVerification_def clearPeerVerification_def clearPeerVerifications_def
      setLocalSessionFingerprint_def setLocalSafetyNumber_def setPeerVideoDecode_def setPeerKeySlots_def split: option.splits)

section \<open>The roster\<close>

definition channel_ok :: "(int, voice_user) jmap \<Rightarrow> bool" where
  "channel_ok users = (users \<noteq> [] \<and> jm_wf users \<and> (\<forall>u user. jm_get users u = Some user \<longrightarrow> vu_userId user = u))"

definition roster_ok :: "voice_roster \<Rightarrow> bool" where
  "roster_ok roster = (jm_wf roster \<and> (\<forall>c users. jm_get roster c = Some users \<longrightarrow> channel_ok users))"

lemma jm_of_list_id: "jm_wf kvs \<Longrightarrow> jm_of_list kvs = kvs"
  by (induction kvs rule: rev_induct) (auto simp: jm_of_list_def jm_wf_keys jm_keys_def jm_set_new)

lemma jm_set_not_Nil [simp]: "jm_set m k v \<noteq> []"
  using jm.get_put [of m k v k] by (metis jm_get_Nil option.distinct(1))

lemma roster_Nil [simp]: "roster_ok []"
  by (simp add: roster_ok_def)

lemma roster_set: "roster_ok r \<Longrightarrow> channel_ok users \<Longrightarrow> roster_ok (jm_set r c users)"
  by (auto simp: roster_ok_def)

lemma roster_delete: "roster_ok r \<Longrightarrow> roster_ok (jm_delete r c)"
  by (auto simp: roster_ok_def)

lemma roster_get: "roster_ok r \<Longrightarrow> jm_get r c = Some users \<Longrightarrow> channel_ok users"
  by (auto simp: roster_ok_def)

lemma channel_set: "channel_ok users \<or> users = [] \<Longrightarrow> vu_userId user = u \<Longrightarrow> channel_ok (jm_set users u user)"
  by (auto simp: channel_ok_def)

lemma channel_map:
  assumes "channel_ok users" and "\<And>u user. vu_userId (f u user) = vu_userId user"
  shows "channel_ok (map (\<lambda>(u, user). (u, f u user)) users)" and "jm_of_list (map (\<lambda>(u, user). (u, f u user)) users) = map (\<lambda>(u, user). (u, f u user)) users"
proof -
  have wf: "jm_wf (map (\<lambda>(u, user). (u, f u user)) users)"
    using assms(1) by (simp add: channel_ok_def jm_wf_keys jm_keys_def comp_def case_prod_beta)
  then show "jm_of_list (map (\<lambda>(u, user). (u, f u user)) users) = map (\<lambda>(u, user). (u, f u user)) users" by (rule jm_of_list_id)
  show "channel_ok (map (\<lambda>(u, user). (u, f u user)) users)"
    using assms wf by (auto simp: channel_ok_def jm_get_map_values)
qed

lemma roster_drop: "roster_ok r \<Longrightarrow> channel_ok users \<Longrightarrow> roster_ok (dropUser c users u r)"
  by (auto simp: dropUser_def Let_def channel_ok_def intro!: roster_set roster_delete)

lemma roster_ready: "roster_ok r \<Longrightarrow> roster_ok (addReadyVoice members vs r)"
  unfolding addReadyVoice_def
  by (cases "jm_get r (rv_channel_id vs)") (auto intro!: roster_set channel_set dest: roster_get simp: readyVoiceUser_def)

lemma roster_rings: "roster_ok r \<Longrightarrow> roster_ok (withoutRings r c)"
  unfolding withoutRings_def
  by (auto split: option.splits intro!: roster_set channel_map(1) simp: channel_map(2) [OF roster_get] dest: roster_get)

section \<open>The rings\<close>

definition lit :: "voice_roster \<Rightarrow> int \<Rightarrow> int \<Rightarrow> bool" where
  "lit r c u = (case voiceUserOf r c u of None \<Rightarrow> False | Some user \<Rightarrow> vu_speaking user)"

definition transmits :: "voice_state \<Rightarrow> bool" where
  "transmits s = (vs_localGateSpeaking s = Some True \<and> \<not> vs_localMuted s \<and> \<not> vs_pttGated s)"

definition rings_ok :: "int \<Rightarrow> voice_state \<Rightarrow> bool" where
  "rings_ok self s = (\<forall>c u. lit (vs_voiceUsers s) c u \<longrightarrow> vs_currentChannelId s = Some c \<and>
     (u = self \<longrightarrow> vs_localGateSpeaking s \<noteq> None \<longrightarrow> transmits s))"

definition voice_ok :: "int \<Rightarrow> voice_module \<Rightarrow> bool" where
  "voice_ok self m = (roster_ok (vs_voiceUsers (vm_state m)) \<and> rings_ok self (vm_state m))"

lemma lit_set: "lit (jm_set r c users) c' u = (if c' = c then (case jm_get users u of None \<Rightarrow> False | Some user \<Rightarrow> vu_speaking user) else lit r c' u)"
  by (simp add: lit_def voiceUserOf_def)

lemma lit_delete: "lit (jm_delete r c) c' u \<longleftrightarrow> c' \<noteq> c \<and> lit r c' u"
  by (simp add: lit_def voiceUserOf_def)

lemma lit_drop: "jm_get r c = Some users \<Longrightarrow> lit (dropUser c users u r) c' u' \<Longrightarrow> lit r c' u'"
  by (auto simp: dropUser_def Let_def lit_set lit_delete split: if_splits option.splits) (simp add: lit_def voiceUserOf_def)

lemma lit_ready: "lit (fold (addReadyVoice members) states r) c u \<Longrightarrow> lit r c u"
proof (induction states arbitrary: r)
  case (Cons vs states)
  then have "lit (addReadyVoice members vs r) c u" by simp
  then show ?case
    by (auto simp: addReadyVoice_def lit_set readyVoiceUser_def split: if_splits option.splits)
      (auto simp: lit_def voiceUserOf_def nullish_def split: option.splits)
qed simp

lemma lit_rings: "lit (withoutRings r c) c' u \<longleftrightarrow> c \<noteq> Some c' \<and> lit r c' u"
proof (cases "Option.bind c (jm_get r)")
  case None
  then show ?thesis by (cases c) (auto simp: withoutRings_def lit_def voiceUserOf_def)
next
  case (Some channel)
  then obtain i where i: "c = Some i" "jm_get r i = Some channel" by (cases c) auto
  let ?f = "\<lambda>(k, user). (k :: int, if vu_speaking user then user\<lparr>vu_speaking := False\<rparr> else user)"
  have "\<not> vu_speaking user" if "jm_get (jm_of_list (map ?f channel)) u = Some user" for user
    using jm_get_of_listD [OF that] by (auto split: if_splits)
  then show ?thesis using i by (auto simp: withoutRings_def lit_set split: option.splits)
qed

lemma rings_mono:
  assumes "rings_ok self s" and "\<And>c u. lit (vs_voiceUsers t) c u \<Longrightarrow> lit (vs_voiceUsers s) c u"
    and "vs_currentChannelId t = vs_currentChannelId s" "vs_localGateSpeaking t = vs_localGateSpeaking s"
    and "vs_localMuted t = vs_localMuted s" "vs_pttGated t = vs_pttGated s"
  shows "rings_ok self t"
  using assms by (auto simp: rings_ok_def transmits_def)

text \<open>The gate decides the reader's own ring, whatever lit it before.\<close>

lemma local_ring:
  assumes "roster_ok (vs_voiceUsers s)" and "\<And>c u. lit (vs_voiceUsers s) c u \<Longrightarrow> vs_currentChannelId s = Some c"
  shows "roster_ok (vs_voiceUsers (withLocalRing self s)) \<and> rings_ok self (withLocalRing self s)"
proof (cases "vs_localGateSpeaking s")
  case None
  then show ?thesis using assms by (simp add: withLocalRing_def rings_ok_def)
next
  case gate: (Some g)
  show ?thesis
  proof (cases "Option.bind (vs_currentChannelId s) (\<lambda>c. voiceUserOf (vs_voiceUsers s) c self)")
    case None
    then have "\<not> lit (vs_voiceUsers s) c self" for c
      using assms(2) [of c self] by (auto simp: lit_def split: option.splits)
    moreover have "withLocalRing self s = s"
      using None gate by (auto simp: withLocalRing_def voiceUserOf_def split: option.splits)
    ultimately show ?thesis using assms by (auto simp: rings_ok_def)
  next
    case (Some user)
    then obtain c channel where c: "vs_currentChannelId s = Some c" "jm_get (vs_voiceUsers s) c = Some channel" "jm_get channel self = Some user"
      by (auto simp: voiceUserOf_def bind_eq_Some_conv)
    let ?speaking = "g \<and> \<not> vs_localMuted s \<and> \<not> vs_pttGated s"
    have ch: "channel_ok channel" and uid: "vu_userId user = self"
      using roster_get [OF assms(1) c(2)] c(3) by (auto simp: channel_ok_def)
    show ?thesis
    proof (cases "vu_speaking user = ?speaking")
      case True
      then have "withLocalRing self s = s" using gate c by (simp add: withLocalRing_def Let_def)
      moreover have "lit (vs_voiceUsers s) c self = ?speaking" using True c by (simp add: lit_def voiceUserOf_def)
      ultimately show ?thesis using assms c gate by (auto simp: rings_ok_def transmits_def)
    next
      case False
      have ring: "withLocalRing self s = s\<lparr>vs_voiceUsers := jm_set (vs_voiceUsers s) c (jm_set channel self (user\<lparr>vu_speaking := ?speaking\<rparr>))\<rparr>"
        using gate c False by (auto simp: withLocalRing_def Let_def)
      have "roster_ok (vs_voiceUsers (withLocalRing self s))"
        unfolding ring using assms(1) ch uid by (auto intro!: roster_set channel_set)
      moreover have "rings_ok self (withLocalRing self s)"
        unfolding ring using assms(2) c gate
        by (auto simp: rings_ok_def lit_set transmits_def split: if_splits)
      ultimately show ?thesis by simp
    qed
  qed
qed

lemma rings_current: "rings_ok self s \<Longrightarrow> lit (vs_voiceUsers s) c u \<Longrightarrow> vs_currentChannelId s = Some c"
  by (simp add: rings_ok_def)

lemma update_state_ok:
  assumes "roster_ok (vs_voiceUsers s)" and "rings_ok self s" and "\<not> vp_speaking payload"
  shows "roster_ok (vs_voiceUsers (updateVoiceState self payload s)) \<and> rings_ok self (updateVoiceState self payload s)"
proof -
  let ?t = "updateVoiceState self payload s" and ?c = "vp_channel_id payload" and ?u = "vp_user_id payload"
  define speaking where "speaking = (case voiceUserOf (vs_voiceUsers s) ?c ?u of Some u \<Rightarrow> vu_speaking u | None \<Rightarrow> vp_speaking payload)"
  have users: "vs_voiceUsers ?t = jm_set (vs_voiceUsers s) ?c (jm_set (nullish (jm_get (vs_voiceUsers s) ?c) []) ?u (voiceRow payload speaking))"
    by (simp add: updateVoiceState_def speaking_def Let_def)
  have "channel_ok (jm_set (nullish (jm_get (vs_voiceUsers s) ?c) []) ?u (voiceRow payload speaking))"
    using roster_get [OF assms(1)] by (cases "jm_get (vs_voiceUsers s) ?c") (auto intro!: channel_set simp: voiceRow_def)
  then have roster: "roster_ok (vs_voiceUsers ?t)" unfolding users by (rule roster_set [OF assms(1)])
  have "speaking = lit (vs_voiceUsers s) ?c ?u" using assms(3) by (auto simp: speaking_def lit_def split: option.splits)
  then have "lit (vs_voiceUsers s) c u" if "lit (vs_voiceUsers ?t) c u" for c u
    using that by (cases "jm_get (vs_voiceUsers s) ?c") (auto simp: users lit_set voiceRow_def lit_def voiceUserOf_def split: if_splits option.splits)
  with assms(2) have "rings_ok self ?t" by (rule rings_mono) (auto simp: updateVoiceState_def Let_def)
  with roster show ?thesis by simp
qed

lemma speakers_ok:
  assumes "roster_ok (vs_voiceUsers s)" and "rings_ok self s"
  shows "roster_ok (vs_voiceUsers (setSpeakers self c us s)) \<and> rings_ok self (setSpeakers self c us s)"
proof (cases "Some c = vs_currentChannelId s \<and> jm_get (vs_voiceUsers s) c \<noteq> None")
  case True
  then obtain channel where ch: "vs_currentChannelId s = Some c" "jm_get (vs_voiceUsers s) c = Some channel" by auto
  let ?f = "\<lambda>u user. let isSpeaking = js_has (js_of_list us) u in if vu_speaking user \<noteq> isSpeaking then user\<lparr>vu_speaking := isSpeaking\<rparr> else user"
  have ok: "channel_ok channel" using roster_get [OF assms(1) ch(2)] .
  have id: "vu_userId (?f u user) = vu_userId user" for u user by (simp add: Let_def)
  have "setSpeakers self c us s = withLocalRing self (s\<lparr>vs_voiceUsers := jm_set (vs_voiceUsers s) c (map (\<lambda>(u, user). (u, ?f u user)) channel)\<rparr>)"
    using ch channel_map(2) [OF ok id] by (simp add: setSpeakers_def)
  then show ?thesis
    using assms ch(1) channel_map(1) [OF ok id]
    by (auto intro!: local_ring roster_set simp: lit_set split: if_splits dest: rings_current)
next
  case False
  then have "setSpeakers self c us s = s" by (auto simp: setSpeakers_def split: option.splits)
  with assms show ?thesis by simp
qed

lemma remove_ok:
  assumes "roster_ok (vs_voiceUsers s)" and "rings_ok self s"
  shows "roster_ok (vs_voiceUsers (removeVoiceUser c u s)) \<and> rings_ok self (removeVoiceUser c u s)"
proof (cases "jm_get (vs_voiceUsers s) c")
  case (Some users)
  have "rings_ok self (removeVoiceUser c u s)"
    by (rule rings_mono [OF assms(2)]) (auto simp: removeVoiceUser_def Some dest: lit_drop [OF Some] split: if_splits)
  with assms(1) Some show ?thesis by (auto simp: removeVoiceUser_def intro!: roster_drop dest: roster_get)
qed (use assms in \<open>simp add: removeVoiceUser_def\<close>)

lemma profile_ok:
  assumes "roster_ok (vs_voiceUsers s)" and "rings_ok self s"
  shows "roster_ok (vs_voiceUsers (updateVoiceUserProfile u name s)) \<and> rings_ok self (updateVoiceUserProfile u name s)"
proof -
  let ?g = "\<lambda>users. case jm_get users u of None \<Rightarrow> users | Some user \<Rightarrow> jm_set users u (user\<lparr>vu_username := name\<rparr>)"
  have get: "jm_get (vs_voiceUsers (updateVoiceUserProfile u name s)) c = map_option ?g (jm_get (vs_voiceUsers s) c)" for c
    using jm_get_map_values [of "\<lambda>c. ?g" "vs_voiceUsers s" c] by (simp add: updateVoiceUserProfile_def)
  have "jm_wf (vs_voiceUsers (updateVoiceUserProfile u name s))"
    using assms(1) by (simp add: updateVoiceUserProfile_def roster_ok_def jm_wf_keys jm_keys_def comp_def case_prod_beta)
  moreover have "channel_ok (?g users)" if "channel_ok users" for users
    using that by (auto simp: channel_ok_def split: option.splits)
  ultimately have "roster_ok (vs_voiceUsers (updateVoiceUserProfile u name s))"
    using assms(1) get by (auto simp: roster_ok_def)
  moreover have "lit (vs_voiceUsers (updateVoiceUserProfile u name s)) c v = lit (vs_voiceUsers s) c v" for c v
    by (cases "jm_get (vs_voiceUsers s) c") (auto simp: lit_def voiceUserOf_def get split: option.splits)
  then have "rings_ok self (updateVoiceUserProfile u name s)"
    by (intro rings_mono [OF assms(2)]) (auto simp: updateVoiceUserProfile_def)
  ultimately show ?thesis by simp
qed

lemma states_ok:
  "roster_ok (vs_voiceUsers (setVoiceStates self members states s)) \<and> rings_ok self (setVoiceStates self members states s)"
proof -
  have "roster_ok (fold (addReadyVoice members) states r)" if "roster_ok r" for r
    using that by (induction states arbitrary: r) (auto intro: roster_ready)
  moreover have "\<not> lit (fold (addReadyVoice members) states []) c u" for c u
    using lit_ready [of members states "[]" c u] by (auto simp: lit_def voiceUserOf_def)
  ultimately show ?thesis by (simp add: setVoiceStates_def rings_ok_def Let_def)
qed

lemma no_rings_ok: "roster_ok (vs_voiceUsers s) \<Longrightarrow> (\<And>c u. \<not> lit (vs_voiceUsers s) c u) \<Longrightarrow> roster_ok (vs_voiceUsers s) \<and> rings_ok self s"
  by (simp add: rings_ok_def)

lemma join_ok:
  assumes "roster_ok (vs_voiceUsers s)" and "rings_ok self s"
  shows "roster_ok (vs_voiceUsers (joinVoiceChannel now c s)) \<and> rings_ok self (joinVoiceChannel now c s)"
proof (cases "vs_currentChannelId s = Some c")
  case False
  then show ?thesis using assms
    by (intro no_rings_ok) (auto simp: joinVoiceChannel_def lit_rings intro: roster_rings dest: rings_current)
qed (use assms in \<open>simp add: joinVoiceChannel_def\<close>)

text \<open>Leaving puts out every ring and takes the reader off the roster of the channel.\<close>

lemma leave_roster:
  "vs_voiceUsers (leaveVoiceChannel self s) = (
     let r = withoutRings (vs_voiceUsers s) (vs_currentChannelId s)
     in case Option.bind (vs_currentChannelId s) (\<lambda>c. map_option (Pair c) (jm_get r c)) of
       None \<Rightarrow> r
     | Some (c, users) \<Rightarrow> if self \<noteq> 0 \<and> jm_has users self then dropUser c users self r else r)"
  by (auto simp: leaveVoiceChannel_def Let_def split: option.splits)

lemma leave_ok:
  assumes "roster_ok (vs_voiceUsers s)" and "rings_ok self s"
  shows "roster_ok (vs_voiceUsers (leaveVoiceChannel self s)) \<and> rings_ok self (leaveVoiceChannel self s)"
proof -
  let ?r = "withoutRings (vs_voiceUsers s) (vs_currentChannelId s)"
  have r: "roster_ok ?r" "\<And>c u. \<not> lit ?r c u" using assms by (auto simp: roster_rings lit_rings dest: rings_current)
  have "roster_ok (vs_voiceUsers (leaveVoiceChannel self s))"
    unfolding leave_roster Let_def using r(1) by (auto split: option.splits if_splits simp: bind_eq_Some_conv intro!: roster_drop dest: roster_get)
  moreover have "\<not> lit (vs_voiceUsers (leaveVoiceChannel self s)) c u" for c u
    unfolding leave_roster Let_def using r(2) by (auto split: option.splits if_splits simp: bind_eq_Some_conv dest: lit_drop)
  ultimately show ?thesis by (rule no_rings_ok)
qed

definition voice_step :: "int \<Rightarrow> voice_module \<Rightarrow> voice_action \<Rightarrow> voice_module \<Rightarrow> bool" where
  "voice_step self m a m' = (voice_action_ok a \<and> m' = voice_apply self a m)"

definition VOICE_MODULE :: "(string, bool) jmap \<Rightarrow> voice_module" where
  "VOICE_MODULE prefs = \<lparr>vm_state = VOICE_INITIAL, vm_rosterRevision = 0, vm_watchingResyncAt = None, vm_pttPollingLive = False,
     vm_deafened = False, vm_inVoiceSession = False, vm_prefs = prefs\<rparr>"

lemma initial_rings: "roster_ok (vs_voiceUsers VOICE_INITIAL) \<and> rings_ok self VOICE_INITIAL"
  by (simp add: VOICE_INITIAL_def rings_ok_def lit_def voiceUserOf_def)

lemma restore_ok: "voice_ok self m \<Longrightarrow> voice_ok self (restoreSavedSelfVoiceState m)"
  by (auto simp: voice_ok_def restoreSavedSelfVoiceState_def on_voice_def setVoiceDeafened_def rings_ok_def Let_def)

lemma flag_ok: "voice_ok self m \<Longrightarrow> media_only f \<Longrightarrow> voice_ok self (on_voice f m)"
  unfolding voice_ok_def on_voice_def media_only_def by (auto intro: rings_mono)

lemma roster_actions_ok:
  assumes "voice_ok self m"
  shows "\<not> vp_speaking payload \<Longrightarrow> voice_ok self (on_voice (updateVoiceState self payload) m)"
    and "voice_ok self (on_voice (setSpeakers self c us) m)" and "voice_ok self (on_voice (removeVoiceUser c u) m)"
    and "voice_ok self (on_voice (updateVoiceUserProfile u name) m)" and "voice_ok self (on_voice (setVoiceStates self members states) m)"
    and "voice_ok self (on_voice (joinVoiceChannel now c) m)" and "voice_ok self (on_voice (leaveVoiceChannel self) m)"
  using assms by (simp_all add: voice_ok_def on_voice_def update_state_ok speakers_ok states_ok leave_ok
      remove_ok [where self = self] profile_ok [where self = self] join_ok [where self = self])

lemma ring_actions_ok:
  assumes "voice_ok self m"
  shows "voice_ok self (on_voice (setLocalMuted self b) m)" and "voice_ok self (on_voice (setPttGated self b) m)"
    and "voice_ok self (on_voice (setLocalGateSpeaking self g) m)"
proof -
  have cur: "vs_currentChannelId (vm_state m) = Some c" if "lit (vs_voiceUsers (vm_state m)) c u" for c u
    using assms that by (auto simp: voice_ok_def dest: rings_current)
  have roster: "roster_ok (vs_voiceUsers (vm_state m))" using assms by (simp add: voice_ok_def)
  show "voice_ok self (on_voice (setLocalMuted self b) m)"
    using roster cur by (auto simp: voice_ok_def on_voice_def setLocalMuted_def intro!: local_ring)
  show "voice_ok self (on_voice (setPttGated self b) m)"
    using assms roster cur by (auto simp: voice_ok_def on_voice_def setPttGated_def intro!: local_ring)
  show "voice_ok self (on_voice (setLocalGateSpeaking self g) m)"
    using assms roster cur by (auto simp: voice_ok_def on_voice_def setLocalGateSpeaking_def intro!: local_ring)
qed

lemma voice_apply_ok:
  assumes "voice_ok self m" and "voice_action_ok a"
  shows "voice_ok self (voice_apply self a m)"
proof (cases a)
  case Reset_voice
  then show ?thesis using initial_rings by (simp add: voice_ok_def resetVoiceStore_def)
next
  case (Clear_channel_users c)
  have "rings_ok self ((vm_state m)\<lparr>vs_voiceUsers := jm_delete (vs_voiceUsers (vm_state m)) c\<rparr>)"
    by (rule rings_mono [of self "vm_state m"]) (use assms(1) in \<open>auto simp: voice_ok_def lit_delete\<close>)
  then show ?thesis using assms(1) Clear_channel_users by (auto simp: voice_ok_def clearChannelVoiceUsers_def Let_def intro: roster_delete)
next
  case (Update_voice_state payload)
  then show ?thesis using roster_actions_ok(1) [OF assms(1)] assms(2) by (simp add: voice_ok_def on_voice_def)
next
  case (Remove_voice_user c u)
  then show ?thesis using roster_actions_ok(3) [OF assms(1)] by (simp add: voice_ok_def on_voice_def)
next
  case (Set_deafened b)
  have "voice_ok self (on_voice (deafenState b) m)" by (rule flag_ok [OF assms(1) media_mutators(19)])
  then show ?thesis using Set_deafened by (simp add: voice_ok_def setLocalDeafened_def setVoiceDeafened_def on_voice_def)
next
  case Save_self
  then show ?thesis using assms(1) by (simp add: voice_ok_def saveSelfVoiceState_def savePref_def Let_def)
qed (use assms in \<open>simp_all add: roster_actions_ok ring_actions_ok restore_ok flag_ok media_mutators\<close>)

interpretation vcs: invariant_system "voice_step self" "VOICE_MODULE prefs" "voice_ok self"
proof
  show "voice_ok self (VOICE_MODULE prefs)" using initial_rings by (simp add: voice_ok_def VOICE_MODULE_def)
qed (auto simp: voice_step_def intro: voice_apply_ok)

text \<open>C11: In every state the store reaches, a lit ring is in the channel the reader is in, and with the sensitivity
  gate running the reader's own ring is lit only while the gate is open and neither the mute nor
  push-to-talk silences the microphone: the ring never says more than is sent. No channel without
  members is listed.\<close>

theorem voice_rings_true:
  assumes "runs (voice_step self) (VOICE_MODULE prefs) acts m"
  shows "roster_ok (vs_voiceUsers (vm_state m)) \<and> rings_ok self (vm_state m)"
  using vcs.reachable_inv [OF assms] by (simp add: voice_ok_def)

definition ring_payload :: voice_state_payload where
  "ring_payload = \<lparr>vp_channel_id = 4, vp_user_id = 7, vp_username = ''ada'', vp_muted = False, vp_deafened = False, vp_speaking = False,
     vp_camera = False, vp_screenshare = False, vp_server_muted = None, vp_server_deafened = None\<rparr>"

definition ring_run :: "voice_action list" where
  "ring_run = [Join_voice 10 4, Update_voice_state ring_payload, Set_gate (Some True), Set_speakers 4 [7], Set_muted True]"

theorem voice_rings_true_witness:
  "\<exists>m. runs (voice_step 7) (VOICE_MODULE []) ring_run m \<and> rings_ok 7 (vm_state m) \<and> \<not> lit (vs_voiceUsers (vm_state m)) 4 7 \<and>
     lit (vs_voiceUsers (vm_state (fold (voice_apply 7) (butlast ring_run) (VOICE_MODULE [])))) 4 7"
proof -
  have run: "runs (voice_step 7) (VOICE_MODULE []) ring_run (fold (voice_apply 7) ring_run (VOICE_MODULE []))"
    unfolding ring_run_def by (auto intro!: runs.intros simp: voice_step_def ring_payload_def)
  from voice_rings_true [OF run] have ok: "rings_ok 7 (vm_state (fold (voice_apply 7) ring_run (VOICE_MODULE [])))" by simp
  have "\<not> lit (vs_voiceUsers (vm_state (fold (voice_apply 7) ring_run (VOICE_MODULE [])))) 4 7"
    "lit (vs_voiceUsers (vm_state (fold (voice_apply 7) (butlast ring_run) (VOICE_MODULE [])))) 4 7" by code_simp+
  with run ok show ?thesis by blast
qed

section \<open>Who watches\<close>

text \<open>The viewers of a stream are the members of the channel, other than the sharer, who said they watch it, and
  the reader when the stream is open here, in order and once each; a stream that is off has none.\<close>

theorem stream_viewers_exact:
  assumes "roster_ok (vs_voiceUsers s)" and "vs_currentChannelId s = Some c" and "voiceUserOf (vs_voiceUsers s) c sharer = Some u"
  shows "sorted_wrt (<) (streamViewers self sharer locally s) \<and>
    set (streamViewers self sharer locally s) = {i. vu_screenshare u \<and> i \<noteq> sharer \<and> inCurrentChannel s i \<and>
      (if i = self then locally else \<exists>ws. jm_get (vs_peerWatching s) i = Some ws \<and> sharer \<in> set ws)}"
proof -
  obtain users where users: "jm_get (vs_voiceUsers s) c = Some users" using assms(3) by (cases "jm_get (vs_voiceUsers s) c") (auto simp: voiceUserOf_def)
  have keys: "distinct (jm_keys users)" "\<And>i. i \<in> set (jm_keys users) \<longleftrightarrow> inCurrentChannel s i"
    using roster_get [OF assms(1) users] assms(2) users
    by (auto simp: channel_ok_def jm_wf_keys inCurrentChannel_def voiceUserOf_def jm_keys_def jm_get_def map_of_eq_None_iff)
  have "sorted_wrt (<) (sort (filter P (jm_keys users)))" for P
    using keys(1) by (simp add: strict_sorted_iff)
  then show ?thesis
    using assms(2,3) users keys(2) by (auto simp: streamViewers_def watchesStream_def split: option.splits if_splits)
qed

section \<open>Over a restart\<close>

text \<open>What the member's own toggles saved is what the next start restores: the own mute and deafen, a deafen
  muting as the toggle does, and never the deafen that a moderator imposed.\<close>

theorem self_voice_round_trip:
  assumes "\<not> vs_localServerMuted (vm_state m)" and "vm_prefs m' = vm_prefs (saveSelfVoiceState m)" and "vs_currentChannelId (vm_state m') = None"
    and "t = restoreSavedSelfVoiceState m'" and "own = (vs_localDeafened (vm_state m) \<and> \<not> vs_moderatorDeafened (vm_state m))"
  shows "vs_localDeafened (vm_state t) = own \<and> vs_localMuted (vm_state t) = (own \<or> vs_localMuted (vm_state m)) \<and>
    vs_mutedBeforeDeafen (vm_state t) = vs_mutedBeforeDeafen (vm_state m) \<and> \<not> vs_moderatorDeafened (vm_state t) \<and> vm_deafened t = own"
  using assms
  by (simp add: restoreSavedSelfVoiceState_def saveSelfVoiceState_def savePref_def loadPref_def on_voice_def setVoiceDeafened_def
      SELF_MUTED_PREF_def SELF_DEAFENED_PREF_def MUTED_BEFORE_DEAFEN_PREF_def Let_def)

theorem self_voice_round_trip_witness:
  "\<exists>t. t = restoreSavedSelfVoiceState (VOICE_MODULE (vm_prefs (saveSelfVoiceState (fold (voice_apply 7) [Set_muted True, Set_deafened True] (VOICE_MODULE []))))) \<and>
     vs_localDeafened (vm_state t) \<and> vs_localMuted (vm_state t)"
proof -
  let ?m = "fold (voice_apply 7) [Set_muted True, Set_deafened True] (VOICE_MODULE [])"
  have st: "\<not> vs_localServerMuted (vm_state ?m)" "vs_localDeafened (vm_state ?m) \<and> \<not> vs_moderatorDeafened (vm_state ?m)" by code_simp+
  from self_voice_round_trip [OF st(1) _ _ refl refl, of "VOICE_MODULE (vm_prefs (saveSelfVoiceState ?m))"] st(2)
  show ?thesis by (simp add: VOICE_MODULE_def VOICE_INITIAL_def)
qed

end
