(* ===== verification/Connection_Handlers.thy ===== *)
theory Connection_Handlers
  imports Voice_Handlers Voice_Rings Ws_Config
begin

text \<open>
  \<open>features/connection/wsHandlers.ts\<close>: the handshake, a refused login, the announced restart of the
  server with the return to the call it interrupts, the errors that end a connection, the upload policy.
  The transient error line, the stored credential and the end of a session are effects.
\<close>

section \<open>State\<close>

datatype connection_effect =
    Transient_error string
  | Update_required string "int option"
  | Delete_credential string "string option"
  | End_session string
  | Socket_disconnect
  | Session_replaced

record connection =
  co_auth :: auth_state
  co_voice :: voice_session
  co_out :: "connection_effect list"

text \<open>\<open>ce_web\<close> tells the browser build; \<open>ce_host\<close> is the host of the API configuration.\<close>

record connection_env =
  ce_voice :: voice_env
  ce_activeChannelId :: "int option"
  ce_readPointer :: bool
  ce_web :: bool
  ce_host :: "string option"
  ce_text :: "string \<Rightarrow> string"

definition co_emit :: "connection_effect \<Rightarrow> connection \<Rightarrow> connection" where
  "co_emit e c = c\<lparr>co_out := co_out c @ [e]\<rparr>"

definition on_session :: "(voice_session \<Rightarrow> voice_session) \<Rightarrow> connection \<Rightarrow> connection" where
  "on_session f c = c\<lparr>co_voice := f (co_voice c)\<rparr>"

definition SETTLED_VOICE :: "voice_status jset" where
  "SETTLED_VOICE = [V_connected, V_reconnecting, V_securing]"

section \<open>The handshake\<close>

record auth_ok_payload =
  ak_user :: user_with_role
  ak_server_name :: string
  ak_motd :: string
  ak_upload_policy :: "upload_policy option"
  ak_replay_source :: "string option"

definition noteHandshake :: "int \<Rightarrow> reconnect_clock \<Rightarrow> reconnect_clock" where
  "noteHandshake now clock = (if rk_hasAuthenticatedBefore clock then clock\<lparr>rk_lastReconnectHandshakeAt := Some now\<rparr> else clock)\<lparr>rk_hasAuthenticatedBefore := True\<rparr>"

definition oweLeave :: "voice_session \<Rightarrow> voice_session" where
  "oweLeave x = (
     let (send, owed) = sendOwedVoiceLeave (vs_voiceStatus (vx_state x) = V_idle) (jr_owed (vx_request x));
         x1 = x\<lparr>vx_request := (vx_request x)\<lparr>jr_owed := owed\<rparr>\<rparr>
     in if send then vx_emit (Send Voice_leave_frame) x1 else x1)"

definition handleAuthOk :: "connection_env \<Rightarrow> auth_ok_payload \<Rightarrow> connection \<Rightarrow> connection" where
  "handleAuthOk env payload c = (
     let now = ve_now (ce_voice env);
         c1 = on_session (\<lambda>x. oweLeave (x\<lparr>vx_clock := noteHandshake now (vx_clock x)\<rparr>)) c;
         c2 = c1\<lparr>co_auth := setAuth (nullish (au_token (co_auth c1)) []) (ak_user payload) (ak_server_name payload) (ak_motd payload)
                (Some (ak_upload_policy payload)) (co_auth c1)\<rparr>;
         c3 = (case ce_activeChannelId env of None \<Rightarrow> c2
               | Some i \<Rightarrow> on_session (vx_emit (Send (Channel_focus i (if ce_readPointer env then Some False else None)))) c2);
         self = (case au_user (co_auth c3) of None \<Rightarrow> 0 | Some u \<Rightarrow> u_id u)
     in if ak_replay_source payload \<in> {Some ''buffer'', Some ''db''} \<and> js_has SETTLED_VOICE (vs_voiceStatus (vx_state (co_voice c3)))
        then on_session (\<lambda>x.
          let x1 = fold (\<lambda>f. vx_emit (Send f)) (restateSelfVoiceState self False False (vx_state x)) x;
              x2 = on_store clearPeerWatching (x1\<lparr>vx_voice := noteWatchingResync now (vx_voice x1)\<rparr>)
          in vx_emit Livekit_resend_watching x2) c3
        else c3)"

definition handleAuthError :: "connection_env \<Rightarrow> string \<Rightarrow> string option \<Rightarrow> int option \<Rightarrow> connection \<Rightarrow> connection" where
  "handleAuthError env message code serverEpoch c = (
     let c1 = co_emit (Transient_error message) c;
         epochRefusal = (code = Some ''protocol_epoch_unsupported'');
         c2 = (case ce_host env of
             Some host \<Rightarrow> if epochRefusal \<and> host \<noteq> [] then co_emit (Update_required host serverEpoch) c1 else c1
           | None \<Rightarrow> c1);
         c3 = (case ce_host env of
             Some host \<Rightarrow> if ce_web env \<and> \<not> epochRefusal \<and> host \<noteq> [] then co_emit (Delete_credential host (au_token (co_auth c2))) c2 else c2
           | None \<Rightarrow> c2);
         reason = (if epochRefusal then ''protocol_epoch'' else ''user'')
     in (co_emit (End_session reason) c3)\<lparr>co_auth := clearAuth reason (vs_currentChannelId (vx_state (co_voice c3))) (co_auth c3)\<rparr>)"

section \<open>A planned restart\<close>

datatype restart_reason = Restart_update | Update_aborted | Backup_restore | Restart_setup | Shutdown

definition REJOIN_WINDOWS_MS :: "(restart_reason, int) jmap" where
  "REJOIN_WINDOWS_MS = [(Restart_update, 600000), (Backup_restore, 600000), (Restart_setup, 600000), (Shutdown, 120000)]"

definition handleServerRestart :: "int \<Rightarrow> restart_reason \<Rightarrow> int \<Rightarrow> reconnect_clock \<Rightarrow> reconnect_clock" where
  "handleServerRestart now reason delaySeconds clock = (
     let announced = (delaySeconds > 0)
     in clock\<lparr>rk_restartAnnounced := announced,
          rk_voiceRejoinExpiresAt := (case jm_get REJOIN_WINDOWS_MS reason of Some w \<Rightarrow> if announced then Some (now + w) else None | None \<Rightarrow> None)\<rparr>)"

definition handleRestartDrop :: "int \<Rightarrow> connection_state \<Rightarrow> voice_session \<Rightarrow> voice_session" where
  "handleRestartDrop self state x = (
     let clock = vx_clock x
     in if \<not> rk_restartAnnounced clock \<or> (state \<noteq> Reconnecting \<and> state \<noteq> Disconnected) then x
        else let channelId = vs_currentChannelId (vx_state x);
                 x1 = x\<lparr>vx_clock := clock\<lparr>rk_restartAnnounced := False,
                        rk_voiceRejoinChannelId := (if rk_voiceRejoinExpiresAt clock = None then None else channelId)\<rparr>\<rparr>
             in if channelId \<noteq> None then on_store (leaveVoiceChannel self) (vx_emit (Livekit_leave False) x1) else x1)"

definition rejoinable :: "int \<Rightarrow> int list \<Rightarrow> ready_channel list \<Rightarrow> bool" where
  "rejoinable channelId dmIds channels = (channelId \<in> set dmIds \<or>
     (case find (\<lambda>ch. rc_id ch = channelId) channels of None \<Rightarrow> False | Some ch \<Rightarrow> rc_type ch = VoiceChannel))"

text \<open>\<open>dmIds\<close>, \<open>channels\<close> and \<open>states\<close> are the conversations, channels and voice states of the payload.\<close>

definition rejoinVoiceAfterRestart :: "voice_env \<Rightarrow> int list \<Rightarrow> ready_channel list \<Rightarrow> ready_voice_state list \<Rightarrow> voice_session \<Rightarrow> voice_session" where
  "rejoinVoiceAfterRestart env dmIds channels states x = (
     let x1 = x\<lparr>vx_clock := (vx_clock x)\<lparr>rk_voiceRejoinChannelId := None\<rparr>\<rparr>
     in case (rk_voiceRejoinChannelId (vx_clock x), rk_voiceRejoinExpiresAt (vx_clock x)) of
       (Some channelId, Some expiresAt) \<Rightarrow>
         if ve_now env > expiresAt then x1
         else if \<not> rejoinable channelId dmIds channels then x1
         else if list_ex (\<lambda>vs. rv_user_id vs = ve_self env) states then x1
         else let x2 = vx_emit (Send (Voice_join channelId)) (on_store (joinVoiceChannel (ve_now env) channelId) x1)
              in x2\<lparr>vx_request := noteJoinSent (ve_sendId env) False (vx_request x2)\<rparr>
     | _ \<Rightarrow> x1)"

section \<open>Errors\<close>

definition handleConnectionError :: "connection_env \<Rightarrow> string \<Rightarrow> connection \<Rightarrow> bool \<times> connection" where
  "handleConnectionError env code c = (
     if code = ''BANNED'' then
       (True, (co_emit (End_session ''user'') (co_emit Socket_disconnect (co_emit (Transient_error (ce_text env ''session.banned'' @ '' '' @ ce_text env ''appeals.unavailable'')) c)))
          \<lparr>co_auth := clearAuth ''user'' (vs_currentChannelId (vx_state (co_voice c))) (co_auth c)\<rparr>)
     else if code = ''SESSION_REPLACED'' \<or> code = ''ANOTHER_DEVICE_ACTIVE'' then
       (let c1 = co_emit Socket_disconnect c;
            c2 = (if vs_currentChannelId (vx_state (co_voice c1)) \<noteq> None
                  then on_session (\<lambda>x. on_store (leaveVoiceChannel (ve_self (ce_voice env))) (vx_emit (Livekit_leave False) x)) c1 else c1)
        in (True, co_emit Session_replaced c2))
     else (False, c))"

definition handleUploadPolicy :: "string list option \<Rightarrow> string list option \<Rightarrow> connection \<Rightarrow> connection" where
  "handleUploadPolicy blocked allowed c = c\<lparr>co_auth := setUploadFileTypes (nullish blocked []) (nullish allowed []) (co_auth c)\<rparr>"

end
