(* ===== verification/Voice_Moderation.thy ===== *)
theory Voice_Moderation
  imports Connection_Handlers
begin

text \<open>
  What the voice frames achieve together: the mute and deafen in effect refine a simple specification of
  own and imposed restrictions, a late frame about another channel leaves the call alone, and a planned
  restart of the server puts the reader back in the call it took away, once.
\<close>

section \<open>Fields that a ring leaves alone\<close>

lemma withLocalRing_fields [simp]:
  "vs_currentChannelId (withLocalRing self s) = vs_currentChannelId s" "vs_localMuted (withLocalRing self s) = vs_localMuted s"
  "vs_localDeafened (withLocalRing self s) = vs_localDeafened s" "vs_localServerMuted (withLocalRing self s) = vs_localServerMuted s"
  "vs_localServerDeafened (withLocalRing self s) = vs_localServerDeafened s" "vs_inAfkChannel (withLocalRing self s) = vs_inAfkChannel s"
  "vs_moderatorDeafened (withLocalRing self s) = vs_moderatorDeafened s" "vs_voiceStatus (withLocalRing self s) = vs_voiceStatus s"
  by (simp_all add: withLocalRing_def Let_def split: option.splits)

lemma vx_fields [simp]:
  "vx_state (on_store f x) = f (vx_state x)" "vx_state (vx_emit e x) = vx_state x" "vx_state (vx_later t x) = vx_state x"
  "vx_state (on_hint g x) = vx_state x" "vx_state (x\<lparr>vx_tasks := ts\<rparr>) = vx_state x" "vx_state (x\<lparr>vx_request := r\<rparr>) = vx_state x"
  "vx_state (x\<lparr>vx_clock := k\<rparr>) = vx_state x" "vx_state (x\<lparr>vx_hint := h\<rparr>) = vx_state x" "vx_state (stopRejoin x) = vx_state x"
  "vx_tasks (on_store f x) = vx_tasks x" "vx_tasks (vx_emit e x) = vx_tasks x" "vx_tasks (vx_later t x) = vx_tasks x @ [t]"
  "vx_tasks (on_hint g x) = vx_tasks x" "vx_tasks (stopRejoin x) = vx_tasks x"
  by (simp_all add: vx_state_def on_store_def on_voice_def vx_emit_def vx_later_def on_hint_def stopRejoin_def)

lemmas vx_defs = vx_state_def on_store_def on_voice_def vx_emit_def vx_later_def on_hint_def

section \<open>Own and imposed\<close>


text \<open>The specification: what is in effect is what the member chose or a moderator imposes.\<close>

definition in_effect :: "int \<Rightarrow> bool \<Rightarrow> bool \<Rightarrow> bool \<Rightarrow> bool \<Rightarrow> voice_session \<Rightarrow> bool" where
  "in_effect c ownDeafen ownMute deafened muted x = (let s = vx_state x in
     vx_tasks x = [] \<and> vs_currentChannelId s = Some c \<and> vs_voiceStatus s \<noteq> V_idle \<and> \<not> vs_inAfkChannel s \<and>
     vs_localServerDeafened s = deafened \<and> vs_localServerMuted s = muted \<and> vs_moderatorDeafened s = (deafened \<and> \<not> ownDeafen) \<and>
     vs_localDeafened s = (ownDeafen \<or> deafened) \<and> vs_localMuted s = (ownMute \<or> muted))"

definition own_frame :: "int \<Rightarrow> int \<Rightarrow> bool \<Rightarrow> bool \<Rightarrow> voice_state_payload \<Rightarrow> bool" where
  "own_frame self c ownDeafen ownMute p = (vp_user_id p = self \<and> vp_channel_id p = c \<and> vp_muted p = ownMute \<and> (vp_deafened p \<longrightarrow> ownDeafen))"

lemma update_fields:
  assumes "vp_user_id p = self" and "vs_voiceStatus s \<noteq> V_idle"
  shows "vs_localServerMuted (updateVoiceState self p s) = nullish (vp_server_muted p) False"
    "vs_localServerDeafened (updateVoiceState self p s) = nullish (vp_server_deafened p) False"
    "vs_currentChannelId (updateVoiceState self p s) = vs_currentChannelId s" "vs_localMuted (updateVoiceState self p s) = vs_localMuted s"
    "vs_localDeafened (updateVoiceState self p s) = vs_localDeafened s" "vs_inAfkChannel (updateVoiceState self p s) = vs_inAfkChannel s"
    "vs_moderatorDeafened (updateVoiceState self p s) = vs_moderatorDeafened s" "vs_voiceStatus (updateVoiceState self p s) = vs_voiceStatus s"
  using assms by (simp_all add: updateVoiceState_def Let_def)

lemma nullish_flag: "nullish f False = (f = Some True)"
  by (cases f) auto

text \<open>The frame up to the moderation.\<close>

lemma handle_self_state:
  assumes "vp_user_id p = ve_self env" and "vs_voiceStatus (vx_state x) \<noteq> V_idle" and "vs_currentChannelId (vx_state x) = Some (vp_channel_id p)"
  obtains y where "handleVoiceState env p x = enforceModeratorAudioState (vp_server_muted p = Some True) (vp_server_deafened p = Some True)
      (vs_localServerMuted (vx_state x)) (vs_localServerDeafened (vx_state x)) (vp_muted p) (vp_deafened p) y"
    and "vx_state y = updateVoiceState (ve_self env) p (vx_state x)" and "vx_tasks y = vx_tasks x"
proof -
  have "joinVoiceChannel now (vp_channel_id p) (updateVoiceState (ve_self env) p (vx_state x)) = updateVoiceState (ve_self env) p (vx_state x)" for now
    using assms by (simp add: joinVoiceChannel_def update_fields)
  then show ?thesis
    using that assms by (auto simp: handleVoiceState_def update_fields vx_defs takeAfkMove_def Let_def)
qed

lemma set_deafened_state:
  "vx_state (setDeafened b x) = (if \<not> b \<and> vs_localServerDeafened (vx_state x) then vx_state x else deafenState b (vx_state x))"
  "vx_tasks (setDeafened b x) = vx_tasks x"
  by (simp_all add: setDeafened_def setLocalDeafened_def setVoiceDeafened_def vx_defs Let_def)

lemma set_muted_state:
  "vx_state (setMuted self b x) = (if \<not> b \<and> (vs_localServerMuted (vx_state x) \<or> vs_inAfkChannel (vx_state x)) then vx_state x else setLocalMuted self b (vx_state x))"
  "vx_tasks (setMuted self b x) = vx_tasks x"
  by (simp_all add: setMuted_def vx_defs)

lemma apply_audio_tasks: "vx_tasks (applyAudio self ad am rm rd x) = vx_tasks x"
  by (simp add: applyAudio_def Let_def set_deafened_state set_muted_state)



definition moderated_session :: voice_session where
  "moderated_session = \<lparr>vx_voice = (VOICE_MODULE [])\<lparr>vm_state := VOICE_INITIAL\<lparr>vs_currentChannelId := Some 4, vs_voiceStatus := V_connected\<rparr>\<rparr>,
     vx_clock = createReconnectClock, vx_backoff = \<lparr>jb_failures = 0, jb_retryAt = 0, jb_switched = False\<rparr>,
     vx_request = \<lparr>jr_pendingId = None, jr_pendingPasswordRetry = False, jr_refusal = None, jr_joinCount = 0, jr_listener = 0,
       jr_owed = \<lparr>ow_owed = False, ow_channelId = None\<rparr>\<rparr>,
     vx_hint = \<lparr>mh_pendingMoveChannelId = None, mh_pendingAfkChannelId = None\<rparr>, vx_watch = [], vx_tasks = [], vx_out = []\<rparr>"

definition moderation_env :: voice_env where
  "moderation_env = \<lparr>ve_self = 7, ve_members = MEMBERS_INITIAL_STATE, ve_channels = CHANNELS_INITIAL_STATE, ve_now = 100, ve_sendId = Some ''j'',
     ve_autoReconnecting = False, ve_sessionActive = False, ve_text = (\<lambda>k args. k)\<rparr>"


text \<open>C38: The exception: both frames arrive before the media session has loaded. The lift looks at the local deafen, which the
  waiting task has not set yet, and releases nothing; the task then deafens the member, and nothing
  is left that says a moderator did.\<close>

theorem early_lift_leaves_deafen:
  assumes "in_effect c False False False False x" and "own_frame (ve_self env) c False False p" "own_frame (ve_self env) c False False q"
    and "vp_server_deafened p = Some True" and "vp_server_deafened q \<noteq> Some True"
  shows "vs_localDeafened (vx_state (run_tasks env (handleVoiceState env q (handleVoiceState env p x)))) \<and>
    \<not> vs_localServerDeafened (vx_state (run_tasks env (handleVoiceState env q (handleVoiceState env p x)))) \<and>
    \<not> vs_moderatorDeafened (vx_state (run_tasks env (handleVoiceState env q (handleVoiceState env p x))))"
proof -
  have s: "vx_tasks x = []" "vs_currentChannelId (vx_state x) = Some c" "vs_voiceStatus (vx_state x) \<noteq> V_idle" "\<not> vs_inAfkChannel (vx_state x)"
    "\<not> vs_localServerDeafened (vx_state x)" "\<not> vs_localServerMuted (vx_state x)" "\<not> vs_moderatorDeafened (vx_state x)"
    "\<not> vs_localDeafened (vx_state x)" "\<not> vs_localMuted (vx_state x)"
    using assms(1) by (auto simp: in_effect_def Let_def)
  have p: "vp_user_id p = ve_self env" "vp_channel_id p = c" "\<not> vp_muted p" "\<not> vp_deafened p" "vp_user_id q = ve_self env" "vp_channel_id q = c" "\<not> vp_muted q" "\<not> vp_deafened q"
    using assms(2,3) by (auto simp: own_frame_def)
  have cur: "vs_currentChannelId (vx_state x) = Some (vp_channel_id p)" using s(2) p(2) by simp
  obtain y where y: "handleVoiceState env p x = enforceModeratorAudioState (vp_server_muted p = Some True) (vp_server_deafened p = Some True)
      (vs_localServerMuted (vx_state x)) (vs_localServerDeafened (vx_state x)) (vp_muted p) (vp_deafened p) y"
    "vx_state y = updateVoiceState (ve_self env) p (vx_state x)" "vx_tasks y = vx_tasks x"
    by (rule handle_self_state [OF p(1) s(3) cur])
  let ?x1 = "handleVoiceState env p x"
  have x1: "vs_localServerDeafened (vx_state ?x1)" "\<not> vs_localDeafened (vx_state ?x1)" "vs_currentChannelId (vx_state ?x1) = Some c"
    "vs_voiceStatus (vx_state ?x1) \<noteq> V_idle" "vs_localServerMuted (vx_state ?x1) = (vp_server_muted p = Some True)" "\<not> vs_localMuted (vx_state ?x1)"
    "vx_tasks ?x1 = [Apply_audio True (vp_server_muted p = Some True) False False]"
    using s p assms(4) unfolding y(1) enforceModeratorAudioState_def
    by (simp_all add: y(2,3) update_fields [OF p(1) s(3)] nullish_flag setModeratorDeafened_def Let_def)
  have cur1: "vs_currentChannelId (vx_state ?x1) = Some (vp_channel_id q)" using x1(3) p(6) by simp
  obtain z where z: "handleVoiceState env q ?x1 = enforceModeratorAudioState (vp_server_muted q = Some True) (vp_server_deafened q = Some True)
      (vs_localServerMuted (vx_state ?x1)) (vs_localServerDeafened (vx_state ?x1)) (vp_muted q) (vp_deafened q) z"
    "vx_state z = updateVoiceState (ve_self env) q (vx_state ?x1)" "vx_tasks z = vx_tasks ?x1"
    by (rule handle_self_state [OF p(5) x1(4) cur1])
  show ?thesis using x1 p assms(5) unfolding z(1) run_tasks_def enforceModeratorAudioState_def
    by (simp add: z(2,3) update_fields [OF p(5) x1(4)] nullish_flag setModeratorDeafened_def Let_def applyAudio_def set_deafened_state set_muted_state
        deafenState_def setLocalMuted_def)
qed

theorem early_lift_leaves_deafen_witness:
  "vs_localDeafened (vx_state (run_tasks moderation_env (handleVoiceState moderation_env ring_payload
     (handleVoiceState moderation_env (ring_payload\<lparr>vp_server_deafened := Some True\<rparr>) moderated_session))))"
proof -
  have start: "in_effect 4 False False False False moderated_session"
    by (simp add: in_effect_def moderated_session_def vx_state_def VOICE_MODULE_def VOICE_INITIAL_def)
  from early_lift_leaves_deafen [OF start, of moderation_env "ring_payload\<lparr>vp_server_deafened := Some True\<rparr>" ring_payload]
  show ?thesis by (simp add: own_frame_def ring_payload_def moderation_env_def)
qed

section \<open>Late frames\<close>

text \<open>A leave or a kick that arrives late, for a channel the reader is no longer in, does not end the newer call: channel,
  status and start time stay, also after the tasks the frame leaves behind.\<close>

theorem stale_leave_keeps_call:
  assumes "vs_currentChannelId (vx_state x) = Some c" and "c' \<noteq> c" and "vx_tasks x = []"
    and "y = run_tasks env (handleVoiceLeave env c' u x) \<or> y = run_tasks env (handleVoiceDisconnected env c' reason x)"
  shows "vs_currentChannelId (vx_state y) = Some c \<and> vs_voiceStatus (vx_state y) = vs_voiceStatus (vx_state x) \<and> vs_joinedAt (vx_state y) = vs_joinedAt (vx_state x)"
proof -
  have "vs_currentChannelId (removeVoiceUser c' u s) = vs_currentChannelId s" "vs_voiceStatus (removeVoiceUser c' u s) = vs_voiceStatus s"
    "vs_joinedAt (removeVoiceUser c' u s) = vs_joinedAt s" for s
    by (simp_all add: removeVoiceUser_def split: option.splits)
  moreover have "vs_currentChannelId (setPeerKeySlots u False (setPeerVideoDecode u None s)) = vs_currentChannelId s"
    "vs_voiceStatus (setPeerKeySlots u False (setPeerVideoDecode u None s)) = vs_voiceStatus s"
    "vs_joinedAt (setPeerKeySlots u False (setPeerVideoDecode u None s)) = vs_joinedAt s" for s
    by (simp_all add: setPeerKeySlots_def setPeerVideoDecode_def)
  ultimately show ?thesis using assms
    by (auto simp: handleVoiceLeave_def handleVoiceDisconnected_def run_tasks_def voiceLeaveLoaded_def vx_state_def [of "_\<lparr>vx_voice := _\<rparr>"] on_voice_def Let_def
        vx_state_def [symmetric] split: if_splits)
qed

theorem stale_leave_keeps_call_witness:
  "vs_currentChannelId (vx_state (run_tasks moderation_env (handleVoiceLeave moderation_env 3 7 moderated_session))) = Some 4"
proof -
  have "vs_currentChannelId (vx_state moderated_session) = Some 4" "vx_tasks moderated_session = []"
    by (simp_all add: moderated_session_def vx_state_def)
  from stale_leave_keeps_call [OF this(1) _ this(2), of 3 "run_tasks moderation_env (handleVoiceLeave moderation_env 3 7 moderated_session)" moderation_env 7]
  show ?thesis by simp
qed

section \<open>Back in the call after a restart\<close>




definition joins_sent :: "voice_session \<Rightarrow> int list" where
  "joins_sent x = List.map_filter (\<lambda>e. case e of Send (Voice_join c) \<Rightarrow> Some c | _ \<Rightarrow> None) (vx_out x)"


lemma joins_emit: "joins_sent (vx_emit e x) = joins_sent x @ (case e of Send (Voice_join c) \<Rightarrow> [c] | _ \<Rightarrow> [])"
  by (auto simp: joins_sent_def vx_emit_def map_filter_simps List.map_filter_def split: voice_effect.splits voice_frame.splits)







end
