(* ===== verification/Identity_Pins.thy ===== *)
theory Identity_Pins
  imports Prelude
begin

text \<open>
  \<open>lib/net/identityPins.ts\<close> and the pin operations of \<open>lib/net/identity.ts\<close>: the identity keys a peer is trusted
  for, kept as one string per host and user in the platform's pin store. The platform's store
  (\<open>platform/contracts/identityStore.ts\<close>) is a map from slots to strings that may be missing altogether or refuse
  a call.
\<close>

section \<open>The slot\<close>

definition MAX_PINS_PER_USER :: nat where
  "MAX_PINS_PER_USER = 5"

definition PIN_SEPARATOR :: char where
  "PIN_SEPARATOR = CHR ''_''"

definition base64_char :: "char \<Rightarrow> bool" where
  "base64_char c = (let n = of_char c :: nat in (65 \<le> n \<and> n \<le> 90) \<or> (97 \<le> n \<and> n \<le> 122) \<or> (48 \<le> n \<and> n \<le> 57) \<or> c = CHR ''+'' \<or> c = CHR ''/'')"

definition STD_BASE64 :: "string \<Rightarrow> bool" where
  "STD_BASE64 s = (let body = takeWhile base64_char s; pad = dropWhile base64_char s
     in body \<noteq> [] \<and> pad \<in> {[], ''='', ''==''})"

text \<open>\<open>split\<close> and \<open>join\<close> on one character; a text without it is one part.\<close>

fun split_at :: "char \<Rightarrow> string \<Rightarrow> string list" where
  "split_at sep [] = [[]]"
| "split_at sep (c # cs) = (if c = sep then [] # split_at sep cs
     else case split_at sep cs of [] \<Rightarrow> [[c]] | p # ps \<Rightarrow> (c # p) # ps)"

fun join_with :: "char \<Rightarrow> string list \<Rightarrow> string" where
  "join_with sep [] = []"
| "join_with sep [p] = p"
| "join_with sep (p # ps) = p @ sep # join_with sep ps"

definition decodePinSlot :: "string \<Rightarrow> string list option" where
  "decodePinSlot slot = (let parts = split_at PIN_SEPARATOR slot in if list_all STD_BASE64 parts then Some (js_of_list parts) else None)"

definition encodePinSlot :: "string list \<Rightarrow> string" where
  "encodePinSlot keys = join_with PIN_SEPARATOR keys"

definition withPin :: "string list \<Rightarrow> string \<Rightarrow> string list" where
  "withPin keys key = (if key \<in> set keys then keys else last_n MAX_PINS_PER_USER (keys @ [key]))"

text \<open>A lookup, and every key it trusts.\<close>

datatype pin_lookup = Pinned string "string list option" | Unpinned | Unavailable

definition trustedPins :: "pin_lookup \<Rightarrow> string list" where
  "trustedPins l = (case l of Pinned pin pins \<Rightarrow> nullish pins [pin] | _ \<Rightarrow> [])"

section \<open>The store\<close>

text \<open>The platform's store: absent in an environment that has none. A call takes whether the platform refuses it.\<close>

type_synonym pin_store = "(string \<times> int, string) jmap option"

datatype raw_lookup = Raw_pinned string | Raw_unpinned | Raw_unavailable

datatype store_result = Stored | No_store | Store_failed

definition getPin :: "bool \<Rightarrow> string \<Rightarrow> int \<Rightarrow> pin_store \<Rightarrow> raw_lookup" where
  "getPin refused host userId st = (case st of
     None \<Rightarrow> Raw_unpinned
   | Some m \<Rightarrow> if refused then Raw_unavailable
       else (case jm_get m (host, userId) of None \<Rightarrow> Raw_unpinned | Some pin \<Rightarrow> Raw_pinned pin))"

definition storePin :: "bool \<Rightarrow> string \<Rightarrow> int \<Rightarrow> string \<Rightarrow> pin_store \<Rightarrow> store_result \<times> pin_store" where
  "storePin refused host userId pin st = (case st of
     None \<Rightarrow> (No_store, None)
   | Some m \<Rightarrow> if refused then (Store_failed, st) else (Stored, Some (jm_set m (host, userId) pin)))"

definition storeIdentityPin :: "bool \<Rightarrow> bool \<Rightarrow> string \<Rightarrow> int \<Rightarrow> string \<Rightarrow> pin_store \<Rightarrow> store_result \<times> pin_store" where
  "storeIdentityPin readRefused writeRefused host userId pin st = (case getPin readRefused host userId st of
     Raw_unavailable \<Rightarrow> (Store_failed, st)
   | Raw_unpinned \<Rightarrow> storePin writeRefused host userId (encodePinSlot (withPin [] pin)) st
   | Raw_pinned slot \<Rightarrow> (case decodePinSlot slot of
         None \<Rightarrow> (Store_failed, st)
       | Some keys \<Rightarrow>
           if pin \<in> set keys then (Stored, st)
           else storePin writeRefused host userId (encodePinSlot (withPin keys pin)) st))"

definition getIdentityPin :: "bool \<Rightarrow> string \<Rightarrow> int \<Rightarrow> pin_store \<Rightarrow> pin_lookup" where
  "getIdentityPin refused host userId st = (case getPin refused host userId st of
     Raw_unpinned \<Rightarrow> Unpinned
   | Raw_unavailable \<Rightarrow> Unavailable
   | Raw_pinned slot \<Rightarrow> (case decodePinSlot slot of
         None \<Rightarrow> Unavailable
       | Some keys \<Rightarrow>
           if keys = [] then Unpinned
           else if length keys = 1 then Pinned (hd keys) None
           else Pinned (last keys) (Some keys)))"

section \<open>What was stored is read\<close>

lemma join_not_Nil: "join_with sep (p # q # ps) = p @ sep # join_with sep (q # ps)"
  by simp

lemma split_no_sep: "sep \<notin> set p \<Longrightarrow> split_at sep p = [p]"
  by (induction p) auto

lemma split_append: "sep \<notin> set p \<Longrightarrow> split_at sep (p @ sep # s) = p # split_at sep s"
  by (induction p) auto

lemma split_join: "ps \<noteq> [] \<Longrightarrow> list_all (\<lambda>p. sep \<notin> set p) ps \<Longrightarrow> split_at sep (join_with sep ps) = ps"
  by (induction sep ps rule: join_with.induct) (auto simp: split_no_sep split_append)

lemma split_ne: "split_at sep s \<noteq> []"
  by (induction s) (auto split: list.splits)

lemma base64_no_separator: "STD_BASE64 s \<Longrightarrow> PIN_SEPARATOR \<notin> set s"
proof -
  assume b: "STD_BASE64 s"
  have "PIN_SEPARATOR \<notin> set (takeWhile base64_char s)"
    by (auto simp: PIN_SEPARATOR_def base64_char_def Let_def dest: set_takeWhileD)
  moreover have "dropWhile base64_char s \<in> {[], ''='', ''==''}" using b unfolding STD_BASE64_def Let_def by blast
  moreover have "set pad \<subseteq> {CHR ''=''}" if "pad \<in> {[], ''='', ''==''}" for pad using that by auto
  ultimately have "PIN_SEPARATOR \<notin> set (takeWhile base64_char s)" "set (dropWhile base64_char s) \<subseteq> {CHR ''=''}" by blast+
  then have "PIN_SEPARATOR \<notin> set (takeWhile base64_char s)" "PIN_SEPARATOR \<notin> set (dropWhile base64_char s)" by (auto simp: PIN_SEPARATOR_def)
  then show ?thesis by (metis Un_iff set_append takeWhile_dropWhile_id)
qed

lemma of_list_distinct: "distinct xs \<Longrightarrow> js_of_list xs = xs"
proof -
  have "distinct (acc @ xs) \<Longrightarrow> fold (\<lambda>x s. js_add s x) xs acc = acc @ xs" for acc
    by (induction xs arbitrary: acc) (auto simp: js_add_def js_has_set)
  from this [of "[]"] show "distinct xs \<Longrightarrow> js_of_list xs = xs" by (simp add: js_of_list_def)
qed

definition keys_ok :: "string list \<Rightarrow> bool" where
  "keys_ok ks = (ks \<noteq> [] \<and> distinct ks \<and> list_all STD_BASE64 ks \<and> length ks \<le> MAX_PINS_PER_USER)"

lemma decode_encode: "keys_ok ks \<Longrightarrow> decodePinSlot (encodePinSlot ks) = Some ks"
  unfolding keys_ok_def decodePinSlot_def encodePinSlot_def Let_def
  by (subst split_join) (auto simp: list_all_iff base64_no_separator of_list_distinct split_join)

lemma join_length: "list_all (\<lambda>p. length p \<le> m) ps \<Longrightarrow> length (join_with sep ps) \<le> length ps * m + (length ps - 1)"
  by (induction sep ps rule: join_with.induct) (auto simp: algebra_simps)

lemma with_pin_ok: "ks = [] \<or> keys_ok ks \<Longrightarrow> STD_BASE64 k \<Longrightarrow> keys_ok (withPin ks k)"
  by (auto simp: keys_ok_def withPin_def last_n_def MAX_PINS_PER_USER_def list_all_iff distinct_drop dest: in_set_dropD)

text \<open>What a slot holds: nothing, or keys as they were written.\<close>

definition slot_keys :: "(string \<times> int, string) jmap \<Rightarrow> string \<Rightarrow> int \<Rightarrow> string list" where
  "slot_keys m host u = (case jm_get m (host, u) of None \<Rightarrow> [] | Some slot \<Rightarrow> nullish (decodePinSlot slot) [])"

definition slot_ok :: "(string \<times> int, string) jmap \<Rightarrow> string \<Rightarrow> int \<Rightarrow> bool" where
  "slot_ok m host u = (jm_get m (host, u) = None \<or> (\<exists>ks. keys_ok ks \<and> jm_get m (host, u) = Some (encodePinSlot ks)))"

lemma slot_cases:
  assumes "slot_ok m host u"
  obtains "jm_get m (host, u) = None" "slot_keys m host u = []"
  | ks where "keys_ok ks" "jm_get m (host, u) = Some (encodePinSlot ks)" "slot_keys m host u = ks"
  using assms by (auto simp: slot_ok_def slot_keys_def decode_encode)

lemma lookup_slot:
  assumes "slot_ok m host u"
  shows "trustedPins (getIdentityPin False host u (Some m)) = slot_keys m host u"
    and "getIdentityPin False host u (Some m) = Unpinned \<longleftrightarrow> slot_keys m host u = []" and "getIdentityPin False host u (Some m) \<noteq> Unavailable"
proof -
  have "trustedPins (getIdentityPin False host u (Some m)) = slot_keys m host u \<and>
    (getIdentityPin False host u (Some m) = Unpinned \<longleftrightarrow> slot_keys m host u = []) \<and> getIdentityPin False host u (Some m) \<noteq> Unavailable"
  proof (rule slot_cases [OF assms])
    fix ks
    assume ks: "keys_ok ks" "jm_get m (host, u) = Some (encodePinSlot ks)" "slot_keys m host u = ks"
    then have ne: "ks \<noteq> []" by (simp add: keys_ok_def)
    have l: "getIdentityPin False host u (Some m) = (if length ks = 1 then Pinned (hd ks) None else Pinned (last ks) (Some ks))"
      using ks ne by (simp add: getIdentityPin_def getPin_def decode_encode)
    have "length ks = 1 \<Longrightarrow> trustedPins (Pinned (hd ks) None) = ks" by (cases ks) (auto simp: trustedPins_def)
    then show ?thesis unfolding l ks(3) using ne by (simp add: trustedPins_def)
  qed (simp add: getIdentityPin_def getPin_def trustedPins_def)
  then show "trustedPins (getIdentityPin False host u (Some m)) = slot_keys m host u"
    "getIdentityPin False host u (Some m) = Unpinned \<longleftrightarrow> slot_keys m host u = []" "getIdentityPin False host u (Some m) \<noteq> Unavailable"
    by blast+
qed

lemma store_slot:
  assumes "slot_ok m host u" and "STD_BASE64 k" and st: "storeIdentityPin False w host u k (Some m) = (r, st)"
  shows "(r = Stored \<and> (\<exists>m'. st = Some m' \<and> slot_ok m' host u \<and> slot_keys m' host u = withPin (slot_keys m host u) k \<and>
       (\<forall>x. x \<noteq> (host, u) \<longrightarrow> jm_get m' x = jm_get m x))) \<or> (r = Store_failed \<and> w \<and> st = Some m)"
proof -
  have new: "slot_ok (jm_set m (host, u) (encodePinSlot ks)) host u" "slot_keys (jm_set m (host, u) (encodePinSlot ks)) host u = ks"
    "\<And>x. x \<noteq> (host, u) \<Longrightarrow> jm_get (jm_set m (host, u) (encodePinSlot ks)) x = jm_get m x" if "keys_ok ks" for ks
    using that by (auto simp: slot_ok_def slot_keys_def decode_encode jm.get_put)
  show ?thesis
  proof (rule slot_cases [OF assms(1)])
    assume none: "jm_get m (host, u) = None" "slot_keys m host u = []"
    have "keys_ok (withPin [] k)" using assms(2) by (simp add: with_pin_ok)
    from new [OF this] st none show ?thesis by (auto simp: storeIdentityPin_def getPin_def storePin_def split: if_splits)
  next
    fix ks
    assume ks: "keys_ok ks" "jm_get m (host, u) = Some (encodePinSlot ks)" "slot_keys m host u = ks"
    have "keys_ok (withPin ks k)" using assms(2) ks by (simp add: with_pin_ok)
    from new [OF this] st ks assms(1) show ?thesis
      by (auto simp: storeIdentityPin_def getPin_def storePin_def decode_encode withPin_def split: if_splits)
  qed
qed

text \<open>C23: A key that was stored is trusted at the next lookup, after the keys trusted before: of those only the oldest of five is
  given up. The keys of other peers stay, and the slot fits the desktop store, whose limit is 512 characters.\<close>

theorem stored_pin_is_trusted:
  assumes "slot_ok m host u" and "STD_BASE64 k" and "storeIdentityPin False False host u k (Some m) = (r, Some m')"
  shows "r = Stored \<and> trustedPins (getIdentityPin False host u (Some m')) = withPin (trustedPins (getIdentityPin False host u (Some m))) k \<and>
    k \<in> set (trustedPins (getIdentityPin False host u (Some m'))) \<and>
    set (tl (trustedPins (getIdentityPin False host u (Some m)))) \<subseteq> set (trustedPins (getIdentityPin False host u (Some m'))) \<and>
    (\<forall>v. v \<noteq> u \<longrightarrow> getIdentityPin False host v (Some m') = getIdentityPin False host v (Some m)) \<and>
    (list_all (\<lambda>x. length x \<le> 88) (trustedPins (getIdentityPin False host u (Some m'))) \<longrightarrow>
       (\<forall>slot. jm_get m' (host, u) = Some slot \<longrightarrow> length slot \<le> 444))"
proof -
  from store_slot [OF assms(1,2,3)] have s: "r = Stored" "slot_ok m' host u" "slot_keys m' host u = withPin (slot_keys m host u) k"
    "\<And>x. x \<noteq> (host, u) \<Longrightarrow> jm_get m' x = jm_get m x"
    by auto
  have five: "length (slot_keys m host u) \<le> 5"
    using assms(1) by (rule slot_cases) (auto simp: keys_ok_def MAX_PINS_PER_USER_def)
  have "k \<in> set (withPin (slot_keys m host u) k)" by (auto simp: withPin_def last_n_def MAX_PINS_PER_USER_def)
  moreover have "set (tl (slot_keys m host u)) \<subseteq> set (withPin (slot_keys m host u) k)"
    using five by (cases "slot_keys m host u") (auto simp: withPin_def last_n_def MAX_PINS_PER_USER_def drop_Cons' dest: list.set_sel(2))
  moreover have "getIdentityPin False host v (Some m') = getIdentityPin False host v (Some m)" if "v \<noteq> u" for v
    using s(4) [of "(host, v)"] that by (simp add: getIdentityPin_def getPin_def)
  moreover have "length slot \<le> 444" if fits: "list_all (\<lambda>x. length x \<le> 88) (slot_keys m' host u)" "jm_get m' (host, u) = Some slot" for slot
  proof (rule slot_cases [OF s(2)])
    fix ks
    assume ks: "keys_ok ks" "jm_get m' (host, u) = Some (encodePinSlot ks)" "slot_keys m' host u = ks"
    have "length ks \<le> 5" "ks \<noteq> []" using ks(1) by (simp_all add: keys_ok_def MAX_PINS_PER_USER_def)
    then show ?thesis using join_length [of 88 ks PIN_SEPARATOR] fits ks by (auto simp: encodePinSlot_def)
  qed (use fits in simp)
  ultimately show ?thesis using s by (auto simp: lookup_slot(1) [OF assms(1)] lookup_slot(1) [OF s(2)])
qed

theorem stored_pin_is_trusted_witness:
  "trustedPins (getIdentityPin False ''h'' 4 (snd (storeIdentityPin False False ''h'' 4 ''QQ=='' (Some [])))) = [''QQ=='']"
proof -
  have ok: "slot_ok [] ''h'' 4" by (simp add: slot_ok_def jm_get_Nil)
  have b: "STD_BASE64 ''QQ==''" by code_simp
  have st: "storeIdentityPin False False ''h'' 4 ''QQ=='' (Some []) = (Stored, Some [((''h'', 4), ''QQ=='')])" by code_simp
  have e: "trustedPins (getIdentityPin False ''h'' 4 (Some [])) = []" by code_simp
  from stored_pin_is_trusted [OF ok b st] st e show ?thesis by (simp add: withPin_def last_n_def MAX_PINS_PER_USER_def)
qed

end
