(* ===== verification/Peer_Trust.thy ===== *)
theory Peer_Trust
  imports Identity_Pins Voice_Store
begin

text \<open>
  Whose call keys this client accepts: \<open>features/voice/e2eePeerState.ts\<close>, and the announce, re-pin, leave and teardown
  paths of \<open>lib/voice/livekitE2EE.ts\<close> as far as they decide it. Every \<open>await\<close> of an announce is a step of its own, so
  anything may happen in between; the code chains the announces of a session one behind the other, and the model lets
  them advance in any order, which allows more. Room keys, rotation and offers are not part of it.
\<close>

section \<open>State\<close>

record announce =
  an_userId :: int
  an_publicKey :: string
  an_signature :: "string option"
  an_identityKey :: "string option"

text \<open>Where an announce is: behind the chain; waiting for the pin lookup, the fingerprint, the signature check, the pin
  write, the safety number; accepted; waiting for the key's export or import.\<close>

datatype phase =
    Queued
  | Looking "string option"
  | Printing "string option" bool bool
  | Verifying string bool bool string
  | Pinning string bool string
  | Numbering string string
  | Accepted
  | Importing "string option"

record attempt =
  at_announce :: announce
  at_session :: int
  at_generation :: int
  at_phase :: phase

text \<open>A leave whose peer key is being exported.\<close>

record leaving =
  lv_userId :: int
  lv_key :: string
  lv_session :: int
  lv_generation :: int

text \<open>\<open>ee_peerPublicKeys\<close> holds a key by its exported text. \<open>ee_draining\<close> are the announces that the key exchange
  replays, with the generation of their peer when it began.\<close>

record e2ee =
  ee_sessionGeneration :: int
  ee_channelId :: "int option"
  ee_keyPair :: bool
  ee_peerPublicKeys :: "(int, string) jmap"
  ee_peerGenerations :: "(int, int) jmap"
  ee_retiredPeerKeys :: "(int, string jset) jmap"
  ee_pendingAnnounces :: "announce list"
  ee_stagedAnnounces :: "announce list"
  ee_stagedChannelId :: "int option"
  ee_blockedAnnounces :: "(int, announce) jmap"
  ee_announcedIdentityKeys :: "(int, string) jmap"
  ee_keyChangedPeers :: "(int, string) jmap"
  ee_draining :: "(announce \<times> int) list"
  ee_attempts :: "attempt list"
  ee_leaving :: "leaving list"
  ee_host :: "string option"
  ee_pins :: pin_store
  ee_voice :: voice_state
  ee_toasts :: "int list"

text \<open>The cryptography: the fingerprint of a key's text (\<open>None\<close> when it does not decode), whether an identity key imports, the
  check of a signature, the safety number, and the text under which an imported key is exported.\<close>

record e2ee_env =
  te_fingerprint :: "string \<Rightarrow> string option"
  te_imports :: "string \<Rightarrow> bool"
  te_verify :: "string \<Rightarrow> int \<Rightarrow> string \<Rightarrow> string \<Rightarrow> bool"
  te_safety :: "string \<Rightarrow> string"
  te_exported :: "string \<Rightarrow> string option"

definition given :: "string option \<Rightarrow> bool" where
  "given s = (case s of None \<Rightarrow> False | Some t \<Rightarrow> t \<noteq> [])"

definition peerGeneration :: "e2ee \<Rightarrow> int \<Rightarrow> int" where
  "peerGeneration s u = nullish (jm_get (ee_peerGenerations s) u) 0"

definition peerAttemptIsCurrent :: "e2ee \<Rightarrow> int \<Rightarrow> int \<Rightarrow> int \<Rightarrow> bool" where
  "peerAttemptIsCurrent s u generation peerGen = (ee_sessionGeneration s = generation \<and> peerGeneration s u = peerGen)"

definition current :: "e2ee \<Rightarrow> attempt \<Rightarrow> bool" where
  "current s a = peerAttemptIsCurrent s (an_userId (at_announce a)) (at_session a) (at_generation a)"

section \<open>Announces that wait\<close>

definition holdAnnouncesFor :: "int \<Rightarrow> e2ee \<Rightarrow> e2ee" where
  "holdAnnouncesFor channelId s = s\<lparr>ee_stagedAnnounces := (if ee_stagedChannelId s \<noteq> Some channelId then [] else ee_stagedAnnounces s),
     ee_stagedChannelId := Some channelId\<rparr>"

definition stageAnnounce :: "announce \<Rightarrow> e2ee \<Rightarrow> bool \<times> e2ee" where
  "stageAnnounce a s = (if ee_stagedChannelId s = None then (False, s)
     else (True, s\<lparr>ee_stagedAnnounces := filter (\<lambda>e. an_userId e \<noteq> an_userId a) (ee_stagedAnnounces s) @ [a]\<rparr>))"

definition dropStagedAnnounce :: "int \<Rightarrow> e2ee \<Rightarrow> e2ee" where
  "dropStagedAnnounce u s = s\<lparr>ee_stagedAnnounces := filter (\<lambda>e. an_userId e \<noteq> u) (ee_stagedAnnounces s)\<rparr>"

definition discardStagedAnnounces :: "e2ee \<Rightarrow> e2ee" where
  "discardStagedAnnounces s = s\<lparr>ee_stagedAnnounces := [], ee_stagedChannelId := None\<rparr>"

definition takeStagedAnnounces :: "int \<Rightarrow> e2ee \<Rightarrow> announce list \<times> e2ee" where
  "takeStagedAnnounces channelId s = (if ee_stagedChannelId s \<noteq> Some channelId then ([], s)
     else (ee_stagedAnnounces s, discardStagedAnnounces s))"

definition isRetiredPeerKey :: "e2ee \<Rightarrow> int \<Rightarrow> string \<Rightarrow> bool" where
  "isRetiredPeerKey s u key = (case jm_get (ee_retiredPeerKeys s) u of None \<Rightarrow> False | Some ks \<Rightarrow> js_has ks key)"

definition retirePeerKey :: "int \<Rightarrow> string \<Rightarrow> e2ee \<Rightarrow> e2ee" where
  "retirePeerKey u key s = s\<lparr>ee_retiredPeerKeys := jm_set (ee_retiredPeerKeys s) u
     (case jm_get (ee_retiredPeerKeys s) u of Some ks \<Rightarrow> js_add ks key | None \<Rightarrow> [key])\<rparr>"

definition applyAnnounce :: "announce \<Rightarrow> e2ee \<Rightarrow> e2ee" where
  "applyAnnounce a s = s\<lparr>ee_attempts := ee_attempts s @
     [\<lparr>at_announce = a, at_session = ee_sessionGeneration s, at_generation = peerGeneration s (an_userId a), at_phase = Queued\<rparr>]\<rparr>"

definition handleAnnounce :: "announce \<Rightarrow> e2ee \<Rightarrow> e2ee" where
  "handleAnnounce a s = (case stageAnnounce a s of (held, s1) \<Rightarrow> if held then s1 else applyAnnounce a s1)"

definition releaseHeldAnnounces :: "int \<Rightarrow> e2ee \<Rightarrow> e2ee" where
  "releaseHeldAnnounces channelId s = (case takeStagedAnnounces channelId s of (held, s1) \<Rightarrow> fold applyAnnounce held (discardStagedAnnounces s1))"

section \<open>Verification\<close>

definition setPeerVerificationIfCurrent :: "attempt \<Rightarrow> verification_status \<Rightarrow> string option \<Rightarrow> string option \<Rightarrow> e2ee \<Rightarrow> e2ee" where
  "setPeerVerificationIfCurrent a status number fingerprint s = (
     if \<not> current s a then s
     else s\<lparr>ee_voice := setPeerVerification \<lparr>pv_userId = an_userId (at_announce a), pv_status = status, pv_safetyNumber = number,
       pv_sessionFingerprint = fingerprint\<rparr> (ee_voice s)\<rparr>)"

definition block :: "attempt \<Rightarrow> e2ee \<Rightarrow> e2ee" where
  "block a s = s\<lparr>ee_blockedAnnounces := jm_set (ee_blockedAnnounces s) (an_userId (at_announce a)) (at_announce a)\<rparr>"

text \<open>The start of \<open>verifyPeerAnnounce\<close>; \<open>published\<close> is the key of the member, which the server may change at any time.\<close>

definition beginVerify :: "string option \<Rightarrow> attempt \<Rightarrow> e2ee \<Rightarrow> attempt option \<times> e2ee" where
  "beginVerify published a s = (
     let u = an_userId (at_announce a);
         identity = alt (an_identityKey (at_announce a)) published
     in (Some (a\<lparr>at_phase := Looking identity\<rparr>),
         if \<not> current s a then s
         else s\<lparr>ee_announcedIdentityKeys := (if given identity then jm_set (ee_announcedIdentityKeys s) u (the identity)
                  else jm_delete (ee_announcedIdentityKeys s) u)\<rparr>))"

definition lookedUp :: "bool \<Rightarrow> string option \<Rightarrow> attempt \<Rightarrow> e2ee \<Rightarrow> attempt option \<times> e2ee" where
  "lookedUp refused identity a s = (
     let u = an_userId (at_announce a);
         lookup = (if given (ee_host s) then getIdentityPin refused (the (ee_host s)) u (ee_pins s) else Unpinned);
         pinned = (case lookup of Pinned _ _ \<Rightarrow> True | _ \<Rightarrow> False)
     in if \<not> current s a then (None, s)
        else if lookup = Unavailable then (None, setPeerVerificationIfCurrent a Unknown_pin None None s)
        else if pinned \<and> \<not> given identity then (None, setPeerVerificationIfCurrent a Mismatch None None (block a s))
        else (Some (a\<lparr>at_phase := Printing identity pinned (pinned \<and> given identity \<and> the identity \<notin> set (trustedPins lookup))\<rparr>), s))"

definition printed :: "e2ee_env \<Rightarrow> string option \<Rightarrow> bool \<Rightarrow> bool \<Rightarrow> attempt \<Rightarrow> e2ee \<Rightarrow> attempt option \<times> e2ee" where
  "printed env identity pinned changed a s = (case te_fingerprint env (an_publicKey (at_announce a)) of
     None \<Rightarrow> (None, s)
   | Some fp \<Rightarrow>
       if \<not> given identity then (Some (a\<lparr>at_phase := Accepted\<rparr>), setPeerVerificationIfCurrent a Unverified None (Some fp) s)
       else (Some (a\<lparr>at_phase := Verifying (the identity) pinned changed fp\<rparr>), s))"

text \<open>From the pin write on; \<open>failed\<close> when the write failed.\<close>

definition afterPin :: "bool \<Rightarrow> string \<Rightarrow> bool \<Rightarrow> string \<Rightarrow> attempt \<Rightarrow> e2ee \<Rightarrow> attempt option \<times> e2ee" where
  "afterPin failed identity changed fp a s = (
     let u = an_userId (at_announce a);
         s1 = (if changed \<and> (\<not> failed \<or> current s a) \<and> jm_get (ee_keyChangedPeers s) u \<noteq> Some identity
               then (if ee_sessionGeneration s = at_session a then s\<lparr>ee_keyChangedPeers := jm_set (ee_keyChangedPeers s) u identity\<rparr> else s)
                 \<lparr>ee_toasts := ee_toasts s @ [u]\<rparr>
               else s)
     in if failed then (Some (a\<lparr>at_phase := Accepted\<rparr>), setPeerVerificationIfCurrent a Unverified None (Some fp) s1)
        else (Some (a\<lparr>at_phase := Numbering identity fp\<rparr>), s1))"

definition signature_ok :: "e2ee_env \<Rightarrow> string \<Rightarrow> announce \<Rightarrow> bool" where
  "signature_ok env identity a = (case an_signature a of
     None \<Rightarrow> False
   | Some sg \<Rightarrow> sg \<noteq> [] \<and> te_verify env identity (an_userId a) (an_publicKey a) sg)"

definition verifiedSignature :: "e2ee_env \<Rightarrow> string \<Rightarrow> bool \<Rightarrow> bool \<Rightarrow> string \<Rightarrow> attempt \<Rightarrow> e2ee \<Rightarrow> attempt option \<times> e2ee" where
  "verifiedSignature env identity pinned changed fp a s = (
     if \<not> te_imports env identity then (None, s)
     else if \<not> signature_ok env identity (at_announce a)
     then (None, setPeerVerificationIfCurrent a Mismatch None None (if current s a then block a s else s))
     else if \<not> current s a then (None, s)
     else if (\<not> pinned \<or> changed) \<and> given (ee_host s) then (Some (a\<lparr>at_phase := Pinning identity changed fp\<rparr>), s)
     else afterPin False identity changed fp a s)"

definition pinWritten :: "bool \<Rightarrow> bool \<Rightarrow> string \<Rightarrow> bool \<Rightarrow> string \<Rightarrow> attempt \<Rightarrow> e2ee \<Rightarrow> attempt option \<times> e2ee" where
  "pinWritten readRefused writeRefused identity changed fp a s = (
     case storeIdentityPin readRefused writeRefused (nullish (ee_host s) []) (an_userId (at_announce a)) identity (ee_pins s) of
       (result, pins) \<Rightarrow> afterPin (result = Store_failed) identity changed fp a (s\<lparr>ee_pins := pins\<rparr>))"

definition numbered :: "e2ee_env \<Rightarrow> string \<Rightarrow> string \<Rightarrow> attempt \<Rightarrow> e2ee \<Rightarrow> attempt option \<times> e2ee" where
  "numbered env identity fp a s = (Some (a\<lparr>at_phase := Accepted\<rparr>),
     setPeerVerificationIfCurrent a (if jm_get (ee_keyChangedPeers s) (an_userId (at_announce a)) = Some identity then Changed else Verified)
       (Some (te_safety env identity)) (Some fp) s)"

section \<open>The announce handler\<close>

definition startAnnounce :: "string option \<Rightarrow> attempt \<Rightarrow> e2ee \<Rightarrow> attempt option \<times> e2ee" where
  "startAnnounce published a s = (
     let ann = at_announce a
     in if \<not> current s a then (None, s)
        else if \<not> ee_keyPair s then (None, s\<lparr>ee_pendingAnnounces := ee_pendingAnnounces s @ [ann]\<rparr>)
        else if isRetiredPeerKey s (an_userId ann) (an_publicKey ann) then (None, s)
        else beginVerify published a s)"

definition acceptedAnnounce :: "attempt \<Rightarrow> e2ee \<Rightarrow> attempt option \<times> e2ee" where
  "acceptedAnnounce a s = (if \<not> current s a then (None, s)
     else (Some (a\<lparr>at_phase := Importing (jm_get (ee_peerPublicKeys s) (an_userId (at_announce a)))\<rparr>), s))"

definition importedKey :: "e2ee_env \<Rightarrow> string option \<Rightarrow> attempt \<Rightarrow> e2ee \<Rightarrow> attempt option \<times> e2ee" where
  "importedKey env existing a s = (None,
     let u = an_userId (at_announce a); key = an_publicKey (at_announce a)
     in if existing = Some key then s
        else (case te_exported env key of
            None \<Rightarrow> s
          | Some peerKey \<Rightarrow>
              if \<not> current s a then s
              else let s1 = (case existing of Some old \<Rightarrow> if old = [] then s else retirePeerKey u old s | None \<Rightarrow> s)
                in s1\<lparr>ee_peerPublicKeys := jm_set (ee_peerPublicKeys s1) u peerKey\<rparr>))"

definition advance :: "e2ee_env \<Rightarrow> bool \<Rightarrow> bool \<Rightarrow> string option \<Rightarrow> attempt \<Rightarrow> e2ee \<Rightarrow> attempt option \<times> e2ee" where
  "advance env r w published a s = (case at_phase a of
     Queued \<Rightarrow> startAnnounce published a s
   | Looking identity \<Rightarrow> lookedUp r identity a s
   | Printing identity pinned changed \<Rightarrow> printed env identity pinned changed a s
   | Verifying identity pinned changed fp \<Rightarrow> verifiedSignature env identity pinned changed fp a s
   | Pinning identity changed fp \<Rightarrow> pinWritten r w identity changed fp a s
   | Numbering identity fp \<Rightarrow> numbered env identity fp a s
   | Accepted \<Rightarrow> acceptedAnnounce a s
   | Importing existing \<Rightarrow> importedKey env existing a s)"

definition stepAttempt :: "e2ee_env \<Rightarrow> nat \<Rightarrow> bool \<Rightarrow> bool \<Rightarrow> string option \<Rightarrow> e2ee \<Rightarrow> e2ee" where
  "stepAttempt env i r w published s = (if i < length (ee_attempts s)
     then (case advance env r w published (ee_attempts s ! i) s of (next_attempt, s1) \<Rightarrow>
         s1\<lparr>ee_attempts := (case next_attempt of
             Some a \<Rightarrow> (ee_attempts s)[i := a]
           | None \<Rightarrow> take i (ee_attempts s) @ drop (Suc i) (ee_attempts s))\<rparr>)
     else s)"

section \<open>The session\<close>

text \<open>The key exchange: taking over what was held, forgetting the peers of before, publishing the key pair, and replaying what
  waited. A session that was torn down meanwhile is left alone.\<close>

definition setupStart :: "int \<Rightarrow> e2ee \<Rightarrow> e2ee" where
  "setupStart channelId s = (case takeStagedAnnounces channelId (s\<lparr>ee_channelId := Some channelId\<rparr>) of (staged, s1) \<Rightarrow>
     if staged \<noteq> [] then s1\<lparr>ee_pendingAnnounces :=
       filter (\<lambda>p. \<not> list_ex (\<lambda>t. an_userId t = an_userId p) staged) (ee_pendingAnnounces s1) @ staged\<rparr> else s1)"

definition setupForget :: "int \<Rightarrow> e2ee \<Rightarrow> e2ee" where
  "setupForget generation s = (if ee_sessionGeneration s \<noteq> generation then s
     else s\<lparr>ee_peerPublicKeys := [], ee_retiredPeerKeys := [], ee_voice := clearPeerVerifications (ee_voice s)\<rparr>)"

definition setupPublish :: "int \<Rightarrow> e2ee \<Rightarrow> e2ee" where
  "setupPublish generation s = (if ee_sessionGeneration s \<noteq> generation then s
     else s\<lparr>ee_keyPair := True, ee_draining := map (\<lambda>a. (a, peerGeneration s (an_userId a))) (ee_pendingAnnounces s), ee_pendingAnnounces := []\<rparr>)"

definition drainNext :: "int \<Rightarrow> e2ee \<Rightarrow> e2ee" where
  "drainNext generation s = (case ee_draining s of
     [] \<Rightarrow> s
   | (a, g) # rest \<Rightarrow>
       if ee_sessionGeneration s \<noteq> generation \<or> \<not> ee_keyPair s then s\<lparr>ee_draining := []\<rparr>
       else let s1 = s\<lparr>ee_draining := rest\<rparr> in if peerGeneration s (an_userId a) \<noteq> g then s1 else applyAnnounce a s1)"

definition rePinPeerIdentity :: "bool \<Rightarrow> bool \<Rightarrow> int \<Rightarrow> string \<Rightarrow> e2ee \<Rightarrow> bool \<times> e2ee" where
  "rePinPeerIdentity r w u verifiedKey s = (if \<not> given (ee_host s) \<or> verifiedKey = [] then (False, s)
     else case storeIdentityPin r w (the (ee_host s)) u verifiedKey (ee_pins s) of (result, pins) \<Rightarrow>
       let s1 = s\<lparr>ee_pins := pins\<rparr>
       in if result = Store_failed then (False, s1)
          else (True, case jm_get (ee_blockedAnnounces s1) u of
              Some a \<Rightarrow> applyAnnounce a (s1\<lparr>ee_blockedAnnounces := jm_delete (ee_blockedAnnounces s1) u\<rparr>)
            | None \<Rightarrow> s1\<lparr>ee_voice := clearPeerVerification u (ee_voice s1)\<rparr>))"

definition inRoster :: "int option \<Rightarrow> int \<Rightarrow> e2ee \<Rightarrow> bool" where
  "inRoster currentChannel u s = (case alt (ee_channelId s) currentChannel of
     None \<Rightarrow> False
   | Some c \<Rightarrow> c \<noteq> 0 \<and> voiceUserOf (vs_voiceUsers (ee_voice s)) c u \<noteq> None)"

definition handleParticipantLeft :: "int option \<Rightarrow> int \<Rightarrow> e2ee \<Rightarrow> e2ee" where
  "handleParticipantLeft currentChannel u s = (
     let s1 = s\<lparr>ee_peerGenerations := jm_set (ee_peerGenerations s) u (peerGeneration s u + 1)\<rparr>;
         s2 = dropStagedAnnounce u (s1\<lparr>ee_pendingAnnounces := filter (\<lambda>e. an_userId e \<noteq> u) (ee_pendingAnnounces s1)\<rparr>);
         departing = jm_get (ee_peerPublicKeys s2) u;
         s3 = s2\<lparr>ee_blockedAnnounces := jm_delete (ee_blockedAnnounces s2) u, ee_announcedIdentityKeys := jm_delete (ee_announcedIdentityKeys s2) u,
           ee_peerPublicKeys := jm_delete (ee_peerPublicKeys s2) u, ee_voice := clearPeerVerification u (ee_voice s2)\<rparr>
     in case departing of
          Some key \<Rightarrow> if inRoster currentChannel u s3 then s3
            else s3\<lparr>ee_leaving := ee_leaving s3 @ [\<lparr>lv_userId = u, lv_key = key, lv_session = ee_sessionGeneration s3, lv_generation = peerGeneration s3 u\<rparr>]\<rparr>
        | None \<Rightarrow> s3)"

definition leftExported :: "e2ee \<Rightarrow> e2ee" where
  "leftExported s = (case ee_leaving s of
     [] \<Rightarrow> s
   | l # rest \<Rightarrow>
       let s1 = s\<lparr>ee_leaving := rest\<rparr>
       in if peerAttemptIsCurrent s (lv_userId l) (lv_session l) (lv_generation l) then retirePeerKey (lv_userId l) (lv_key l) s1 else s1)"

definition clearState :: "bool \<Rightarrow> e2ee \<Rightarrow> e2ee" where
  "clearState keepHeldAnnounces s = (
     let s1 = (if keepHeldAnnounces then s else discardStagedAnnounces s)
     in s1\<lparr>ee_sessionGeneration := ee_sessionGeneration s1 + 1, ee_channelId := None, ee_keyPair := False, ee_peerPublicKeys := [],
          ee_peerGenerations := [], ee_retiredPeerKeys := [],
          ee_voice := setLocalSafetyNumber None (setLocalSessionFingerprint None (clearPeerVerifications (ee_voice s1))),
          ee_pendingAnnounces := [], ee_blockedAnnounces := [], ee_keyChangedPeers := [], ee_announcedIdentityKeys := []\<rparr>)"

datatype e2ee_event =
    Announce announce
  | Hold int
  | Release int
  | Advance nat bool bool "string option"
  | Setup_start int
  | Setup_forget int
  | Setup_publish int
  | Drain_next int
  | Re_pin bool bool int string
  | Left "int option" int
  | Left_exported
  | Clear bool

fun e2ee_apply :: "e2ee_env \<Rightarrow> e2ee_event \<Rightarrow> e2ee \<Rightarrow> e2ee" where
  "e2ee_apply env (Announce a) s = handleAnnounce a s"
| "e2ee_apply env (Hold c) s = holdAnnouncesFor c s"
| "e2ee_apply env (Release c) s = releaseHeldAnnounces c s"
| "e2ee_apply env (Advance i r w published) s = stepAttempt env i r w published s"
| "e2ee_apply env (Setup_start c) s = setupStart c s"
| "e2ee_apply env (Setup_forget g) s = setupForget g s"
| "e2ee_apply env (Setup_publish g) s = setupPublish g s"
| "e2ee_apply env (Drain_next g) s = drainNext g s"
| "e2ee_apply env (Re_pin r w u key) s = snd (rePinPeerIdentity r w u key s)"
| "e2ee_apply env (Left c u) s = handleParticipantLeft c u s"
| "e2ee_apply env Left_exported s = leftExported s"
| "e2ee_apply env (Clear keep) s = clearState keep s"

definition E2EE_INITIAL :: "string option \<Rightarrow> pin_store \<Rightarrow> e2ee" where
  "E2EE_INITIAL host pins = \<lparr>ee_sessionGeneration = 0, ee_channelId = None, ee_keyPair = False, ee_peerPublicKeys = [], ee_peerGenerations = [],
     ee_retiredPeerKeys = [], ee_pendingAnnounces = [], ee_stagedAnnounces = [], ee_stagedChannelId = None, ee_blockedAnnounces = [],
     ee_announcedIdentityKeys = [], ee_keyChangedPeers = [], ee_draining = [], ee_attempts = [], ee_leaving = [], ee_host = host, ee_pins = pins,
     ee_voice = VOICE_INITIAL, ee_toasts = []\<rparr>"

end
