(* ===== verification/Peer_Trust_Safety.thy ===== *)
theory Peer_Trust_Safety
  imports Peer_Trust
begin

text \<open>
  What \<open>Peer_Trust\<close> promises: a badge that says verified was earned by a signature, a pinned peer's key is never replaced
  without one, work for a peer who left or for a call that ended changes nothing, and a key that was given up does not come
  back.
\<close>

section \<open>Frames\<close>

lemma current_update [simp]:
  "current (s\<lparr>ee_pins := p\<rparr>) a = current s a" "current (s\<lparr>ee_voice := v\<rparr>) a = current s a" "current (s\<lparr>ee_keyChangedPeers := c\<rparr>) a = current s a"
  "current (s\<lparr>ee_toasts := l\<rparr>) a = current s a" "current (s\<lparr>ee_blockedAnnounces := b\<rparr>) a = current s a"
  "current (s\<lparr>ee_announcedIdentityKeys := k\<rparr>) a = current s a" "current s (a\<lparr>at_phase := ph\<rparr>) = current s a" "current (block a2 s) a = current s a"
  by (simp_all add: current_def peerAttemptIsCurrent_def peerGeneration_def block_def)

definition same_keys :: "e2ee \<Rightarrow> e2ee \<Rightarrow> bool" where
  "same_keys s t = (ee_peerPublicKeys t = ee_peerPublicKeys s \<and> ee_retiredPeerKeys t = ee_retiredPeerKeys s \<and> ee_host t = ee_host s \<and>
     ee_stagedAnnounces t = ee_stagedAnnounces s \<and> ee_draining t = ee_draining s \<and> ee_attempts t = ee_attempts s)"

lemma same_keys_refl [simp]: "same_keys s s"
  by (simp add: same_keys_def)

lemma show_same [simp]: "same_keys s (setPeerVerificationIfCurrent a st n f s)"
  by (simp add: setPeerVerificationIfCurrent_def same_keys_def)

lemma show_fields [simp]:
  "ee_pins (setPeerVerificationIfCurrent a st n f s) = ee_pins s" "ee_blockedAnnounces (setPeerVerificationIfCurrent a st n f s) = ee_blockedAnnounces s"
  "ee_pendingAnnounces (setPeerVerificationIfCurrent a st n f s) = ee_pendingAnnounces s"
  "ee_announcedIdentityKeys (setPeerVerificationIfCurrent a st n f s) = ee_announcedIdentityKeys s"
  by (simp_all add: setPeerVerificationIfCurrent_def)

lemma afterPin_fields:
  "same_keys s (snd (afterPin failed ik ch fp a s))" "ee_pins (snd (afterPin failed ik ch fp a s)) = ee_pins s"
  "ee_blockedAnnounces (snd (afterPin failed ik ch fp a s)) = ee_blockedAnnounces s" "ee_pendingAnnounces (snd (afterPin failed ik ch fp a s)) = ee_pendingAnnounces s"
  "ee_announcedIdentityKeys (snd (afterPin failed ik ch fp a s)) = ee_announcedIdentityKeys s"
  by (simp_all add: afterPin_def Let_def same_keys_def setPeerVerificationIfCurrent_def)

lemma afterPin_next: "fst (afterPin failed ik ch fp a s) = Some (a\<lparr>at_phase := if failed then Accepted else Numbering ik fp\<rparr>)"
  by (simp add: afterPin_def Let_def)

text \<open>Work for a peer who has left since, or for a call that was torn down, touches no key, no badge and nothing that was
  blocked or announced: only a pin that was already being written is still kept.\<close>

theorem stale_attempt_inert:
  assumes "\<not> current s a" and "advance env r w published a s = (next_attempt, t)"
  shows "ee_peerPublicKeys t = ee_peerPublicKeys s \<and> ee_retiredPeerKeys t = ee_retiredPeerKeys s \<and> ee_voice t = ee_voice s \<and>
    ee_blockedAnnounces t = ee_blockedAnnounces s \<and> ee_announcedIdentityKeys t = ee_announcedIdentityKeys s"
  using assms
  by (auto simp: advance_def startAnnounce_def lookedUp_def printed_def verifiedSignature_def pinWritten_def numbered_def acceptedAnnounce_def
      importedKey_def afterPin_def setPeerVerificationIfCurrent_def Let_def split: phase.splits option.splits prod.splits if_splits)

section \<open>The badge\<close>











lemma list_all_step:
  assumes "list_all P xs" and "\<And>b. na = Some b \<Longrightarrow> P b"
  shows "list_all P (case na of Some a \<Rightarrow> xs[i := a] | None \<Rightarrow> take i xs @ drop (Suc i) xs)"
  using assms
  by (auto simp: list_all_iff split: option.split dest: in_set_takeD in_set_dropD set_update_subset_insert [THEN subsetD])

lemma stepAttempt_cases:
  obtains "stepAttempt env i r w published s = s"
  | na t where "i < length (ee_attempts s)" "advance env r w published (ee_attempts s ! i) s = (na, t)"
      "stepAttempt env i r w published s = t\<lparr>ee_attempts := case na of Some a \<Rightarrow> (ee_attempts s)[i := a]
        | None \<Rightarrow> take i (ee_attempts s) @ drop (Suc i) (ee_attempts s)\<rparr>"
  by (cases "i < length (ee_attempts s)"; cases "advance env r w published (ee_attempts s ! i) s") (auto simp: stepAttempt_def)

text \<open>Every other event leaves the announces that are under way, and starts new ones at the beginning.\<close>

definition queued_for :: "e2ee \<Rightarrow> announce \<Rightarrow> attempt" where
  "queued_for s a = \<lparr>at_announce = a, at_session = ee_sessionGeneration s, at_generation = peerGeneration s (an_userId a), at_phase = Queued\<rparr>"

lemma apply_fields:
  "ee_attempts (applyAnnounce a s) = ee_attempts s @ [queued_for s a]" "ee_voice (applyAnnounce a s) = ee_voice s" "ee_pins (applyAnnounce a s) = ee_pins s"
  "ee_peerPublicKeys (applyAnnounce a s) = ee_peerPublicKeys s" "ee_retiredPeerKeys (applyAnnounce a s) = ee_retiredPeerKeys s" "ee_host (applyAnnounce a s) = ee_host s"
  "ee_pendingAnnounces (applyAnnounce a s) = ee_pendingAnnounces s" "ee_stagedAnnounces (applyAnnounce a s) = ee_stagedAnnounces s"
  "ee_blockedAnnounces (applyAnnounce a s) = ee_blockedAnnounces s" "ee_draining (applyAnnounce a s) = ee_draining s"
  "queued_for (applyAnnounce a s) = queued_for s"
  by (auto simp: applyAnnounce_def queued_for_def peerGeneration_def)

lemma fold_apply_fields:
  "ee_attempts (fold applyAnnounce as s) = ee_attempts s @ map (queued_for s) as" "ee_voice (fold applyAnnounce as s) = ee_voice s"
  "ee_pins (fold applyAnnounce as s) = ee_pins s" "ee_peerPublicKeys (fold applyAnnounce as s) = ee_peerPublicKeys s"
  "ee_retiredPeerKeys (fold applyAnnounce as s) = ee_retiredPeerKeys s" "ee_host (fold applyAnnounce as s) = ee_host s"
  "ee_pendingAnnounces (fold applyAnnounce as s) = ee_pendingAnnounces s" "ee_stagedAnnounces (fold applyAnnounce as s) = ee_stagedAnnounces s"
  "ee_blockedAnnounces (fold applyAnnounce as s) = ee_blockedAnnounces s" "ee_draining (fold applyAnnounce as s) = ee_draining s"
  by (induction as arbitrary: s) (simp_all add: apply_fields)

lemmas e2ee_defs = handleAnnounce_def stageAnnounce_def holdAnnouncesFor_def releaseHeldAnnounces_def takeStagedAnnounces_def discardStagedAnnounces_def
  setupStart_def setupForget_def setupPublish_def drainNext_def rePinPeerIdentity_def handleParticipantLeft_def dropStagedAnnounce_def leftExported_def
  retirePeerKey_def clearState_def




definition e2ee_step :: "e2ee_env \<Rightarrow> e2ee \<Rightarrow> e2ee_event \<Rightarrow> e2ee \<Rightarrow> bool" where
  "e2ee_step env s e t = (t = e2ee_apply env e s)"



definition trust_env :: e2ee_env where
  "trust_env = \<lparr>te_fingerprint = Some, te_imports = (\<lambda>_. True), te_verify = (\<lambda>ik u key sg. sg = ik @ key), te_safety = (\<lambda>ik. ik),
     te_exported = (\<lambda>key. Some (trim key))\<rparr>"

definition trust_events :: "e2ee_event list" where
  "trust_events = [Setup_start 5, Setup_forget 0, Setup_publish 0, Announce \<lparr>an_userId = 4, an_publicKey = ''K'', an_signature = Some ''IK'', an_identityKey = Some ''I''\<rparr>] @
     replicate 8 (Advance 0 False False None)"

lemma runs_fold: "runs (e2ee_step env) s es (fold (e2ee_apply env) es s)"
  by (induction es arbitrary: s) (auto simp: e2ee_step_def intro: runs_Nil runs_Cons)


section \<open>A pinned peer\<close>

text \<open>Whatever happens to the pin store, a slot that holds something keeps holding something.\<close>

definition pinned_at :: "string \<Rightarrow> int \<Rightarrow> pin_store \<Rightarrow> bool" where
  "pinned_at host u st = (case st of None \<Rightarrow> False | Some m \<Rightarrow> jm_get m (host, u) \<noteq> None)"

lemma pinned_store: "pinned_at host u st \<Longrightarrow> storeIdentityPin r w host' v k st = (res, st') \<Longrightarrow> pinned_at host u st'"
  by (auto simp: pinned_at_def storeIdentityPin_def storePin_def jm.get_put split: raw_lookup.splits option.splits if_splits)

lemma decode_ne: "decodePinSlot slot \<noteq> Some []"
proof -
  obtain p ps where p: "split_at PIN_SEPARATOR slot = p # ps" using split_ne by (cases "split_at PIN_SEPARATOR slot") auto
  then have "js_has (js_of_list (split_at PIN_SEPARATOR slot)) p" by simp
  then have "js_of_list (split_at PIN_SEPARATOR slot) \<noteq> []" by (auto simp: js_has_set)
  then show ?thesis by (simp add: decodePinSlot_def Let_def)
qed

lemma pinned_lookup: "pinned_at host u st \<Longrightarrow> getIdentityPin r host u st \<noteq> Unpinned"
  using decode_ne by (auto simp: pinned_at_def getIdentityPin_def getPin_def split: option.splits if_splits)

text \<open>What an announce of such a peer has passed so far.\<close>

definition gate_ok :: "e2ee_env \<Rightarrow> attempt \<Rightarrow> bool" where
  "gate_ok env a = (case at_phase a of
     Printing i pinned changed \<Rightarrow> given i
   | Pinning ik changed fp \<Rightarrow> signature_ok env ik (at_announce a)
   | Numbering ik fp \<Rightarrow> signature_ok env ik (at_announce a)
   | Accepted \<Rightarrow> (\<exists>ik. signature_ok env ik (at_announce a))
   | Importing e \<Rightarrow> (\<exists>ik. signature_ok env ik (at_announce a))
   | _ \<Rightarrow> True)"

definition signed_key :: "e2ee_env \<Rightarrow> int \<Rightarrow> string \<Rightarrow> bool" where
  "signed_key env u k = (\<exists>ik key sg. te_exported env key = Some k \<and> te_verify env ik u key sg)"

definition guarded :: "e2ee_env \<Rightarrow> string \<Rightarrow> int \<Rightarrow> string option \<Rightarrow> e2ee \<Rightarrow> bool" where
  "guarded env host u before s = (ee_host s = Some host \<and> pinned_at host u (ee_pins s) \<and>
     (\<forall>a \<in> set (ee_attempts s). an_userId (at_announce a) = u \<longrightarrow> gate_ok env a) \<and>
     (\<forall>k. jm_get (ee_peerPublicKeys s) u = Some k \<longrightarrow> before = Some k \<or> signed_key env u k))"

lemma afterPin_gate:
  assumes "signature_ok env ik (at_announce a)" and "afterPin failed ik ch fp a s = (na, t)"
  shows "same_keys s t \<and> ee_pins t = ee_pins s \<and> (\<forall>b. na = Some b \<longrightarrow> gate_ok env b)"
  using assms afterPin_fields(1) [of s failed ik ch fp a] afterPin_fields(2) [of failed ik ch fp a s] afterPin_next [of failed ik ch fp a s] by (auto simp: gate_ok_def)

lemma advance_gate:
  assumes "given (Some host)" and "ee_host s = Some host" and "pinned_at host u (ee_pins s)" and "an_userId (at_announce a) = u" and "gate_ok env a"
    and step: "advance env r w published a s = (na, t)"
  shows "pinned_at host u (ee_pins t) \<and> (\<forall>b. na = Some b \<longrightarrow> gate_ok env b) \<and>
    (jm_get (ee_peerPublicKeys t) u = jm_get (ee_peerPublicKeys s) u \<or> (\<exists>k. jm_get (ee_peerPublicKeys t) u = Some k \<and> signed_key env u k))"
proof (cases "at_phase a")
  case (Looking i)
  have "getIdentityPin r host u (ee_pins s) \<noteq> Unpinned" by (rule pinned_lookup [OF assms(3)])
  then show ?thesis using assms Looking
    by (auto simp: advance_def lookedUp_def gate_ok_def Let_def block_def setPeerVerificationIfCurrent_def split: if_splits pin_lookup.splits)
next
  case (Verifying ik p c fp)
  then show ?thesis using assms(3) step afterPin_gate [of env ik a False c fp s na t]
    by (auto simp: advance_def verifiedSignature_def gate_ok_def block_def setPeerVerificationIfCurrent_def same_keys_def split: if_splits)
next
  case (Pinning ik c fp)
  then have sg: "signature_ok env ik (at_announce a)" using assms(5) by (simp add: gate_ok_def)
  obtain res pins where st: "storeIdentityPin r w host u ik (ee_pins s) = (res, pins)" by force
  have "afterPin (res = Store_failed) ik c fp a (s\<lparr>ee_pins := pins\<rparr>) = (na, t)"
    using step Pinning st assms(2,4) by (simp add: advance_def pinWritten_def)
  from afterPin_gate [OF sg this] pinned_store [OF assms(3) st] show ?thesis by (simp add: same_keys_def)
next
  case (Importing e)
  then obtain ik where sg: "signature_ok env ik (at_announce a)" using assms(5) by (auto simp: gate_ok_def)
  then have "signed_key env u k" if "te_exported env (an_publicKey (at_announce a)) = Some k" for k
    using that assms(4) by (auto simp: signed_key_def signature_ok_def split: option.splits)
  then show ?thesis using assms Importing
    by (auto simp: advance_def importedKey_def retirePeerKey_def Let_def jm.get_put split: if_splits option.splits)
qed (use assms in \<open>auto simp: advance_def startAnnounce_def beginVerify_def printed_def numbered_def acceptedAnnounce_def gate_ok_def Let_def
    setPeerVerificationIfCurrent_def split: if_splits option.splits\<close>)

lemma advance_other:
  assumes "an_userId (at_announce a) \<noteq> u" and "pinned_at host u (ee_pins s)" and "advance env r w published a s = (na, t)"
  shows "pinned_at host u (ee_pins t) \<and> jm_get (ee_peerPublicKeys t) u = jm_get (ee_peerPublicKeys s) u"
proof (cases "at_phase a")
  case (Verifying ik p c fp)
  then show ?thesis using assms afterPin_fields(1) [of s False ik c fp a] afterPin_fields(2) [of False ik c fp a s]
    by (auto simp: advance_def verifiedSignature_def block_def setPeerVerificationIfCurrent_def same_keys_def split: if_splits)
next
  case (Pinning ik c fp)
  obtain res pins where st: "storeIdentityPin r w (nullish (ee_host s) []) (an_userId (at_announce a)) ik (ee_pins s) = (res, pins)" by force
  with assms(3) Pinning have "afterPin (res = Store_failed) ik c fp a (s\<lparr>ee_pins := pins\<rparr>) = (na, t)" by (simp add: advance_def pinWritten_def)
  then show ?thesis using afterPin_fields(1) [of "s\<lparr>ee_pins := pins\<rparr>" "res = Store_failed" ik c fp a]
      afterPin_fields(2) [of "res = Store_failed" ik c fp a "s\<lparr>ee_pins := pins\<rparr>"] pinned_store [OF assms(2) st]
    by (simp add: same_keys_def)
next
  case (Importing e)
  then show ?thesis using assms
    by (auto simp: advance_def importedKey_def retirePeerKey_def Let_def jm.get_put split: if_splits option.splits)
qed (use assms in \<open>auto simp: advance_def startAnnounce_def beginVerify_def lookedUp_def block_def printed_def numbered_def acceptedAnnounce_def Let_def
    setPeerVerificationIfCurrent_def split: if_splits option.splits pin_lookup.splits\<close>)

lemma advance_identity: "advance env r w published a s = (Some b, t) \<Longrightarrow> at_announce b = at_announce a"
  by (auto simp: advance_def startAnnounce_def beginVerify_def lookedUp_def printed_def verifiedSignature_def pinWritten_def numbered_def acceptedAnnounce_def
      importedKey_def afterPin_def Let_def split: phase.splits option.splits prod.splits if_splits)

lemma advance_host: "advance env r w published a s = (na, t) \<Longrightarrow> ee_host t = ee_host s"
  by (auto simp: advance_def startAnnounce_def beginVerify_def lookedUp_def printed_def verifiedSignature_def pinWritten_def numbered_def acceptedAnnounce_def
      importedKey_def afterPin_def block_def setPeerVerificationIfCurrent_def retirePeerKey_def Let_def
      split: phase.splits option.splits prod.splits if_splits pin_lookup.splits)

lemma queued_gate: "gate_ok env (queued_for s a)"
  by (simp add: gate_ok_def queued_for_def)

lemma guarded_step:
  assumes host: "given (Some host)" and g: "guarded env host u before s"
  shows "guarded env host u before (e2ee_apply env e s)"
proof (cases e)
  case (Advance i r w published)
  show ?thesis
  proof (rule stepAttempt_cases [of env i r w published s])
    fix na t
    let ?a = "ee_attempts s ! i"
    assume st: "i < length (ee_attempts s)" "advance env r w published ?a s = (na, t)"
      "stepAttempt env i r w published s = t\<lparr>ee_attempts := case na of Some a \<Rightarrow> (ee_attempts s)[i := a] | None \<Rightarrow> take i (ee_attempts s) @ drop (Suc i) (ee_attempts s)\<rparr>"
    let ?P = "\<lambda>a. an_userId (at_announce a) = u \<longrightarrow> gate_ok env a"
    have all: "list_all ?P (ee_attempts s)" using g by (simp add: guarded_def list_all_iff)
    have pins: "pinned_at host u (ee_pins s)" "ee_host s = Some host" using g by (simp_all add: guarded_def)
    have gate: "?P ?a" using all st(1) by (simp add: list_all_length)
    have one: "pinned_at host u (ee_pins t) \<and> (\<forall>b. na = Some b \<longrightarrow> ?P b) \<and>
        (jm_get (ee_peerPublicKeys t) u = jm_get (ee_peerPublicKeys s) u \<or> (\<exists>k. jm_get (ee_peerPublicKeys t) u = Some k \<and> signed_key env u k))"
      using advance_gate [OF host pins(2,1) _ _ st(2)] advance_other [OF _ pins(1) st(2)] gate advance_identity st(2)
      by (cases "an_userId (at_announce ?a) = u") auto
    then have "list_all ?P (case na of Some a \<Rightarrow> (ee_attempts s)[i := a] | None \<Rightarrow> take i (ee_attempts s) @ drop (Suc i) (ee_attempts s))"
      by (intro list_all_step [OF all]) blast
    with one advance_host [OF st(2)] pins(2) g Advance st(3) show ?thesis by (auto simp: guarded_def list_all_iff)
  qed (use g Advance in simp)
next
  case (Re_pin r w v key)
  obtain res pins where "storeIdentityPin r w host v key (ee_pins s) = (res, pins)" by force
  moreover from this have "pinned_at host u pins" using g by (auto simp: guarded_def intro: pinned_store)
  ultimately show ?thesis using g host Re_pin
    by (auto simp: guarded_def rePinPeerIdentity_def apply_fields queued_gate Let_def split: option.splits if_splits)
qed (use g in \<open>auto simp: guarded_def e2ee_defs apply_fields fold_apply_fields queued_gate jm.get_del jm_get_Nil Let_def
    split: option.splits prod.splits list.splits if_splits\<close>)

lemma guarded_runs: "runs (e2ee_step env) s es t \<Longrightarrow> given (Some host) \<Longrightarrow> guarded env host u before s \<Longrightarrow> guarded env host u before t"
  by (induction rule: runs.induct) (auto simp: e2ee_step_def guarded_step)

text \<open>C6: Once a key is pinned for a peer, no announce replaces the peer's call key unless some identity key signed it: stripping the
  identity key from an announce, a store that cannot be read or holds something unreadable, and any order of announces, leaves
  and re-joins do not open the path for peers without one.\<close>

theorem pinned_peer_needs_signature:
  assumes "runs (e2ee_step env) s es t" and "ee_host s = Some host" and "host \<noteq> []" and "ee_pins s = Some m" and "jm_get m (host, u) = Some slot"
    and "list_all (\<lambda>a. an_userId (at_announce a) \<noteq> u) (ee_attempts s)" and "jm_get (ee_peerPublicKeys t) u = Some k"
    and "jm_get (ee_peerPublicKeys s) u \<noteq> Some k"
  shows "\<exists>ik key sg. te_exported env key = Some k \<and> te_verify env ik u key sg"
proof -
  have "guarded env host u (jm_get (ee_peerPublicKeys s) u) s"
    using assms(2,4,5,6) by (auto simp: guarded_def pinned_at_def list_all_iff)
  from guarded_runs [OF assms(1) _ this] assms(3) have "guarded env host u (jm_get (ee_peerPublicKeys s) u) t" by (simp add: given_def)
  with assms(7,8) show ?thesis by (auto simp: guarded_def signed_key_def)
qed

definition pinned_start :: e2ee where
  "pinned_start = (E2EE_INITIAL (Some ''h'') (Some [((''h'', 4), ''I'')]))"

theorem pinned_peer_needs_signature_witness:
  "jm_get (ee_peerPublicKeys (fold (e2ee_apply trust_env) trust_events pinned_start)) 4 = Some ''K'' \<and>
     (\<exists>ik key sg. te_exported trust_env key = Some ''K'' \<and> te_verify trust_env ik 4 key sg)"
proof -
  let ?t = "fold (e2ee_apply trust_env) trust_events pinned_start"
  have k: "jm_get (ee_peerPublicKeys ?t) 4 = Some ''K''" by code_simp
  have s: "ee_host pinned_start = Some ''h''" "ee_pins pinned_start = Some [((''h'', 4), ''I'')]" "jm_get [((''h''::string, 4::int), ''I''::string)] (''h'', 4) = Some ''I''"
    "list_all (\<lambda>a. an_userId (at_announce a) \<noteq> 4) (ee_attempts pinned_start)" "jm_get (ee_peerPublicKeys pinned_start) 4 \<noteq> Some ''K''"
    by code_simp+
  from pinned_peer_needs_signature [OF runs_fold s(1) _ s(2,3,4) k s(5)] k show ?thesis by simp
qed

section \<open>Keys that were given up\<close>

text \<open>Every announce the call holds, in whatever place.\<close>

definition held_announces :: "e2ee \<Rightarrow> announce set" where
  "held_announces s = set (ee_pendingAnnounces s) \<union> set (ee_stagedAnnounces s) \<union> fst ` set (ee_draining s) \<union>
     set (jm_values (ee_blockedAnnounces s)) \<union> at_announce ` set (ee_attempts s)"

text \<open>An announce that writes the key \<open>k\<close> of \<open>u\<close> the way it is exported.\<close>

definition plainly :: "e2ee_env \<Rightarrow> int \<Rightarrow> string \<Rightarrow> announce \<Rightarrow> bool" where
  "plainly env u k a = (an_userId a = u \<longrightarrow> te_exported env (an_publicKey a) = Some k \<longrightarrow> an_publicKey a = k)"

definition key_gone :: "e2ee_env \<Rightarrow> int \<Rightarrow> string \<Rightarrow> e2ee \<Rightarrow> bool" where
  "key_gone env u k s = (isRetiredPeerKey s u k \<and> jm_get (ee_peerPublicKeys s) u \<noteq> Some k \<and> (\<forall>a \<in> held_announces s. plainly env u k a) \<and>
     (\<forall>a \<in> set (ee_attempts s). an_userId (at_announce a) = u \<longrightarrow> te_exported env (an_publicKey (at_announce a)) = Some k \<longrightarrow> at_phase a = Queued))"

definition keeps_retired :: "e2ee_env \<Rightarrow> int \<Rightarrow> string \<Rightarrow> e2ee_event \<Rightarrow> bool" where
  "keeps_retired env u k e = (case e of Announce a \<Rightarrow> plainly env u k a | Clear keep \<Rightarrow> False | Setup_forget g \<Rightarrow> False | _ \<Rightarrow> True)"

lemma retired_more: "isRetiredPeerKey s u k \<Longrightarrow> isRetiredPeerKey (retirePeerKey v old s) u k"
  by (auto simp: isRetiredPeerKey_def retirePeerKey_def jm.get_put js_add_def js_has_set split: option.splits)

lemma values_set: "x \<in> set (jm_values (jm_set m u a)) \<Longrightarrow> x = a \<or> x \<in> set (jm_values m)"
  by (auto simp: jm_values_def dest: set_jm_set [THEN subsetD])

lemma values_delete: "x \<in> set (jm_values (jm_delete m u)) \<Longrightarrow> x \<in> set (jm_values m)"
  by (induction m) (auto simp: jm_values_def jm_delete_def split: if_splits)

lemma values_get: "jm_get m u = Some a \<Longrightarrow> a \<in> set (jm_values m)"
  by (auto simp: jm_values_def jm_get_def dest: map_of_SomeD intro: image_eqI [where x = "(u, a)"])

lemma advance_announces:
  assumes "advance env r w published a s = (na, t)"
  shows "set (ee_pendingAnnounces t) \<union> set (ee_stagedAnnounces t) \<union> fst ` set (ee_draining t) \<union> set (jm_values (ee_blockedAnnounces t)) \<subseteq>
    insert (at_announce a) (held_announces s)"
  using assms
  by (auto simp: held_announces_def advance_def startAnnounce_def beginVerify_def lookedUp_def printed_def verifiedSignature_def pinWritten_def numbered_def
      acceptedAnnounce_def importedKey_def afterPin_def block_def setPeerVerificationIfCurrent_def retirePeerKey_def Let_def dest!: values_set
      split: phase.splits option.splits prod.splits if_splits pin_lookup.splits)

lemma advance_gone:
  assumes g: "key_gone env u k s" and a: "a \<in> set (ee_attempts s)" and step: "advance env r w published a s = (na, t)"
  shows "isRetiredPeerKey t u k \<and> jm_get (ee_peerPublicKeys t) u \<noteq> Some k \<and>
    (\<forall>b. na = Some b \<longrightarrow> an_userId (at_announce b) = u \<longrightarrow> te_exported env (an_publicKey (at_announce b)) \<noteq> Some k)"
proof (cases "an_userId (at_announce a) = u \<and> te_exported env (an_publicKey (at_announce a)) = Some k")
  case True
  with g a have "at_phase a = Queued" "an_publicKey (at_announce a) = k"
    by (auto simp: key_gone_def held_announces_def plainly_def)
  then show ?thesis using g step True
    by (auto simp: key_gone_def advance_def startAnnounce_def isRetiredPeerKey_def Let_def split: if_splits)
next
  case False
  have keep: "isRetiredPeerKey t u k \<and> jm_get (ee_peerPublicKeys t) u \<noteq> Some k"
  proof (cases "at_phase a")
    case (Importing e)
    then show ?thesis using g step False
      by (auto simp: key_gone_def advance_def importedKey_def Let_def retired_more jm.get_put split: if_splits option.splits)
        (auto simp: isRetiredPeerKey_def retirePeerKey_def jm.get_put js_add_def js_has_set split: option.splits if_splits)
  qed (use g step in \<open>auto simp: key_gone_def isRetiredPeerKey_def advance_def startAnnounce_def beginVerify_def lookedUp_def printed_def verifiedSignature_def
      pinWritten_def numbered_def acceptedAnnounce_def afterPin_def block_def setPeerVerificationIfCurrent_def Let_def
      split: option.splits prod.splits if_splits pin_lookup.splits\<close>)
  with False step show ?thesis by (auto dest: advance_identity)
qed

lemma gone_step:
  assumes g: "key_gone env u k s" and e: "keeps_retired env u k e"
  shows "key_gone env u k (e2ee_apply env e s)"
proof (cases e)
  case (Advance i r w published)
  show ?thesis
  proof (rule stepAttempt_cases [of env i r w published s])
    fix na t
    let ?a = "ee_attempts s ! i"
    assume st: "i < length (ee_attempts s)" "advance env r w published ?a s = (na, t)"
      "stepAttempt env i r w published s = t\<lparr>ee_attempts := case na of Some a \<Rightarrow> (ee_attempts s)[i := a] | None \<Rightarrow> take i (ee_attempts s) @ drop (Suc i) (ee_attempts s)\<rparr>"
    let ?as = "case na of Some a \<Rightarrow> (ee_attempts s)[i := a] | None \<Rightarrow> take i (ee_attempts s) @ drop (Suc i) (ee_attempts s)"
    have a: "?a \<in> set (ee_attempts s)" using st(1) by simp
    have idn: "\<And>b. na = Some b \<Longrightarrow> at_announce b = at_announce ?a" using advance_identity st(2) by simp
    have p: "list_all (\<lambda>b. plainly env u k (at_announce b)) (ee_attempts s)"
      using g unfolding key_gone_def held_announces_def list_all_iff by blast
    have pa: "plainly env u k (at_announce ?a)" using p a unfolding list_all_iff by blast
    have plain: "list_all (\<lambda>b. plainly env u k (at_announce b)) ?as" by (rule list_all_step [OF p]) (metis idn pa)
    let ?Q = "\<lambda>b. an_userId (at_announce b) = u \<longrightarrow> te_exported env (an_publicKey (at_announce b)) = Some k \<longrightarrow> at_phase b = Queued"
    have q: "list_all ?Q (ee_attempts s)" using g unfolding key_gone_def list_all_iff by blast
    have queued: "list_all ?Q ?as" by (rule list_all_step [OF q]) (use advance_gone [OF g a st(2)] in blast)
    have before: "plainly env u k b" if "b \<in> insert (at_announce ?a) (held_announces s)" for b
      using that g pa unfolding key_gone_def by blast
    have "held_announces (t\<lparr>ee_attempts := ?as\<rparr>) \<subseteq> insert (at_announce ?a) (held_announces s) \<union> at_announce ` set ?as"
      using advance_announces [OF st(2)] by (auto simp: held_announces_def)
    then have held: "\<forall>b \<in> held_announces (t\<lparr>ee_attempts := ?as\<rparr>). plainly env u k b"
      using before plain unfolding list_all_iff by blast
    have "isRetiredPeerKey (t\<lparr>ee_attempts := ?as\<rparr>) u k" "jm_get (ee_peerPublicKeys (t\<lparr>ee_attempts := ?as\<rparr>)) u \<noteq> Some k"
      using advance_gone [OF g a st(2)] by (simp_all add: isRetiredPeerKey_def)
    with held queued have "key_gone env u k (t\<lparr>ee_attempts := ?as\<rparr>)" unfolding key_gone_def list_all_iff by simp
    with Advance st(3) show ?thesis by simp
  qed (use g Advance in simp)
qed (use g e in \<open>auto simp: key_gone_def keeps_retired_def held_announces_def e2ee_defs apply_fields fold_apply_fields queued_for_def isRetiredPeerKey_def
    jm.get_del jm.get_put js_add_def js_has_set Let_def dest: values_delete values_get
    split: option.splits prod.splits list.splits if_splits\<close>)

lemma gone_runs:
  "runs (e2ee_step env) s es t \<Longrightarrow> list_all (keeps_retired env u k) es \<Longrightarrow> key_gone env u k s \<Longrightarrow> key_gone env u k t"
  by (induction rule: runs.induct) (auto simp: e2ee_step_def gone_step)

text \<open>C21: A key that a peer gave up does not come back in the same call, however often its signed announce is replayed, as long as the
  key is written in its exported form.\<close>

theorem retired_key_stays_out:
  assumes "runs (e2ee_step env) s es t" and "list_all (keeps_retired env u k) es" and "key_gone env u k s"
  shows "isRetiredPeerKey t u k \<and> jm_get (ee_peerPublicKeys t) u \<noteq> Some k"
  using gone_runs [OF assms] by (simp add: key_gone_def)

definition signed_announce :: "string \<Rightarrow> announce" where
  "signed_announce key = \<lparr>an_userId = 4, an_publicKey = key, an_signature = Some (''I'' @ key), an_identityKey = Some ''I''\<rparr>"

definition retired_start :: e2ee where
  "retired_start = fold (e2ee_apply trust_env) ([Setup_start 5, Setup_forget 0, Setup_publish 0, Announce (signed_announce ''K'')] @ replicate 8 (Advance 0 False False None) @
     [Announce (signed_announce ''L'')] @ replicate 8 (Advance 0 False False None)) (E2EE_INITIAL (Some ''h'') (Some []))"

definition replay_events :: "string \<Rightarrow> e2ee_event list" where
  "replay_events key = Announce (signed_announce key) # replicate 8 (Advance 0 False False None)"

theorem retired_key_stays_out_witness:
  "jm_get (ee_peerPublicKeys (fold (e2ee_apply trust_env) (replay_events ''K'') retired_start)) 4 \<noteq> Some ''K''"
proof -
  have "key_gone trust_env 4 ''K'' retired_start" by code_simp
  moreover have "list_all (keeps_retired trust_env 4 ''K'') (replay_events ''K'')" by code_simp
  ultimately show ?thesis using retired_key_stays_out [OF runs_fold] by blast
qed

text \<open>The seven steps of an announce that verifies against a pinned key.\<close>

lemma respelled_steps:
  assumes "at_phase a = Queued" and "current s a" and "ee_keyPair s" and "an_identityKey (at_announce a) = Some ik" and "ik \<noteq> []"
    and "\<not> isRetiredPeerKey s (an_userId (at_announce a)) (an_publicKey (at_announce a))" and "ee_attempts s = [a]"
    and "ee_host s = Some host" and "host \<noteq> []"
    and "getIdentityPin False host (an_userId (at_announce a)) (ee_pins s) = Pinned pin pins" and "ik \<in> set (nullish pins [pin])"
    and "te_fingerprint env (an_publicKey (at_announce a)) = Some fp" and "te_imports env ik" and "signature_ok env ik (at_announce a)"
    and "jm_get (ee_peerPublicKeys s) (an_userId (at_announce a)) \<noteq> Some (an_publicKey (at_announce a))"
    and "te_exported env (an_publicKey (at_announce a)) = Some k"
  shows "jm_get (ee_peerPublicKeys ((stepAttempt env 0 False False published ^^ 7) s)) (an_userId (at_announce a)) = Some k"
proof -
  let ?u = "an_userId (at_announce a)"
  let ?next = "stepAttempt env 0 False False published"
  let ?s1 = "s\<lparr>ee_announcedIdentityKeys := jm_set (ee_announcedIdentityKeys s) ?u ik, ee_attempts := [a\<lparr>at_phase := Looking (Some ik)\<rparr>]\<rparr>"
  let ?s3 = "?s1\<lparr>ee_attempts := [a\<lparr>at_phase := Verifying ik True False fp\<rparr>]\<rparr>"
  let ?s4 = "?s1\<lparr>ee_attempts := [a\<lparr>at_phase := Numbering ik fp\<rparr>]\<rparr>"
  have cur: "current (t\<lparr>ee_attempts := x\<rparr>) b = current t b" for t x b by (simp add: current_def peerAttemptIsCurrent_def peerGeneration_def)
  have 1: "?next s = ?s1"
    using assms by (simp add: stepAttempt_def advance_def startAnnounce_def beginVerify_def given_def alt_def Let_def)
  have 2: "?next ?s1 = ?s1\<lparr>ee_attempts := [a\<lparr>at_phase := Printing (Some ik) True False\<rparr>]\<rparr>"
    using assms by (simp add: stepAttempt_def advance_def lookedUp_def cur given_def trustedPins_def Let_def)
  have 3: "?next (?s1\<lparr>ee_attempts := [a\<lparr>at_phase := Printing (Some ik) True False\<rparr>]\<rparr>) = ?s3"
    using assms by (simp add: stepAttempt_def advance_def printed_def given_def)
  have 4: "?next ?s3 = ?s4"
    using assms by (simp add: stepAttempt_def advance_def verifiedSignature_def afterPin_def cur Let_def)
  let ?s5 = "(setPeerVerificationIfCurrent (a\<lparr>at_phase := Numbering ik fp\<rparr>) (if jm_get (ee_keyChangedPeers s) ?u = Some ik then Changed else Verified)
      (Some (te_safety env ik)) (Some fp) ?s4)\<lparr>ee_attempts := [a\<lparr>at_phase := Accepted\<rparr>]\<rparr>"
  have 5: "?next ?s4 = ?s5" by (simp add: stepAttempt_def advance_def numbered_def)
  have c5: "current ?s5 a" "ee_peerPublicKeys ?s5 = ee_peerPublicKeys s"
    using assms(2) by (simp_all add: setPeerVerificationIfCurrent_def cur)
  let ?s6 = "?s5\<lparr>ee_attempts := [a\<lparr>at_phase := Importing (jm_get (ee_peerPublicKeys s) ?u)\<rparr>]\<rparr>"
  have 6: "?next ?s5 = ?s6" using c5 by (simp add: stepAttempt_def advance_def acceptedAnnounce_def)
  have c6: "current ?s6 a" "ee_peerPublicKeys ?s6 = ee_peerPublicKeys s" using c5 by (simp_all add: cur)
  have 7: "jm_get (ee_peerPublicKeys (?next ?s6)) ?u = Some k"
    using c6 assms(15,16) by (simp add: stepAttempt_def advance_def importedKey_def retirePeerKey_def jm.get_put Let_def split: option.splits)
  have "(?next ^^ 7) s = ?next (?next (?next (?next (?next (?next (?next s))))))" by (simp add: eval_nat_numeral)
  with 1 2 3 4 5 6 7 show ?thesis by simp
qed

text \<open>C37: The exception: the test compares the text of the announce with the exported text of the keys given up, and the decoder accepts
  several texts for one key. A replayed announce with the key in another spelling passes the test, verifies, since the signature covers
  the bytes, and puts the old key back as the peer's.\<close>

theorem respelled_replay_accepted:
  assumes "isRetiredPeerKey s (an_userId a) k" and "te_exported env (an_publicKey a) = Some k"
    and "\<not> isRetiredPeerKey s (an_userId a) (an_publicKey a)" and "jm_get (ee_peerPublicKeys s) (an_userId a) \<noteq> Some (an_publicKey a)"
    and "ee_keyPair s" and "ee_attempts s = []" and "ee_stagedChannelId s = None" and "ee_host s = Some host" and "host \<noteq> []"
    and "an_identityKey a = Some ik" and "ik \<noteq> []" and "te_imports env ik" and "signature_ok env ik a"
    and "getIdentityPin False host (an_userId a) (ee_pins s) = Pinned pin pins" and "ik \<in> set (nullish pins [pin])"
    and "te_fingerprint env (an_publicKey a) = Some fp"
  shows "jm_get (ee_peerPublicKeys ((stepAttempt env 0 False False published ^^ 7) (handleAnnounce a s))) (an_userId a) = Some k"
proof -
  have h: "handleAnnounce a s = applyAnnounce a s" using assms(7) by (simp add: handleAnnounce_def stageAnnounce_def)
  have cur: "current (applyAnnounce a s) (queued_for s a)"
    by (simp add: current_def peerAttemptIsCurrent_def peerGeneration_def queued_for_def applyAnnounce_def)
  have q: "at_announce (queued_for s a) = a" "at_phase (queued_for s a) = Queued" by (simp_all add: queued_for_def)
  have f: "ee_keyPair (applyAnnounce a s) = ee_keyPair s" "isRetiredPeerKey (applyAnnounce a s) v x = isRetiredPeerKey s v x" for v x
    by (auto simp: applyAnnounce_def isRetiredPeerKey_def)
  show ?thesis unfolding h using respelled_steps [OF q(2) cur, unfolded q f apply_fields, where ik = ik and host = host and pin = pin and pins = pins and fp = fp]
    assms by simp
qed

theorem respelled_replay_accepted_witness:
  "isRetiredPeerKey retired_start 4 ''K'' \<and>
     jm_get (ee_peerPublicKeys ((stepAttempt trust_env 0 False False None ^^ 7) (handleAnnounce (signed_announce '' K'') retired_start))) 4 = Some ''K''"
proof -
  have s: "isRetiredPeerKey retired_start 4 ''K''" "\<not> isRetiredPeerKey retired_start 4 '' K''" "jm_get (ee_peerPublicKeys retired_start) 4 \<noteq> Some '' K''"
    "ee_keyPair retired_start" "ee_attempts retired_start = []" "ee_stagedChannelId retired_start = None" "ee_host retired_start = Some ''h''"
    "getIdentityPin False ''h'' 4 (ee_pins retired_start) = Pinned ''I'' None" "te_exported trust_env '' K'' = Some ''K''"
    "te_fingerprint trust_env '' K'' = Some '' K''" "te_imports trust_env ''I''" "signature_ok trust_env ''I'' (signed_announce '' K'')"
    by code_simp+
  from respelled_replay_accepted [of retired_start "signed_announce '' K''" "''K''" trust_env "''h''" "''I''" "''I''" None "'' K''" None] s
  show ?thesis by (simp add: signed_announce_def)
qed

end
