(* ===== verification/Rail_Layout.thy ===== *)
theory Rail_Layout
  imports Pending_Messages "HOL-Library.Multiset"
begin

text \<open>
  \<open>lib/prefs/serverRailLayout.ts\<close>: the order of the saved servers in the left rail and the folders that
  group them, with its validated copy in \<open>localStorage\<close> through \<open>lib/prefs/preferences.ts\<close>. Hosts and names
  are UTF-16 text.
\<close>

section \<open>The layout\<close>

record folder =
  fo_id :: jstring
  fo_name :: jstring
  fo_color :: jstring
  fo_collapsed :: bool
  fo_hosts :: "jstring list"

datatype rail_item = Server_item jstring | Folder_item folder

type_synonym rail_layout = "rail_item list"

datatype item_ref = Server_ref jstring | Folder_ref jstring

datatype placement = Before item_ref | After item_ref | Into jstring "int option"

definition RAIL_LAYOUT_KEY :: string where
  "RAIL_LAYOUT_KEY = ''owncord:server-rail-layout''"

definition FOLDER_NAME_MAX :: nat where
  "FOLDER_NAME_MAX = 32"

definition FOLDER_COLORS :: "jstring list" where
  "FOLDER_COLORS = map js_lit [''#5865f2'', ''#3ba55d'', ''#faa61a'', ''#ed4245'', ''#eb459e'', ''#747f8d'']"

definition DEFAULT_COLOR :: jstring where
  "DEFAULT_COLOR = (case FOLDER_COLORS of [] \<Rightarrow> js_lit ''#5865f2'' | c # _ \<Rightarrow> c)"

definition sameRef :: "rail_item \<Rightarrow> item_ref \<Rightarrow> bool" where
  "sameRef item ref = (case ref of
     Server_ref host \<Rightarrow> item = Server_item host
   | Folder_ref i \<Rightarrow> (case item of Server_item _ \<Rightarrow> False | Folder_item f \<Rightarrow> fo_id f = i))"

definition item_hosts :: "rail_item \<Rightarrow> jstring list" where
  "item_hosts item = (case item of Server_item h \<Rightarrow> [h] | Folder_item f \<Rightarrow> fo_hosts f)"

definition layoutHosts :: "rail_layout \<Rightarrow> jstring list" where
  "layoutHosts layout = concat (map item_hosts layout)"

fun folderOf :: "rail_layout \<Rightarrow> jstring \<Rightarrow> folder option" where
  "folderOf [] host = None"
| "folderOf (Server_item _ # rest) host = folderOf rest host"
| "folderOf (Folder_item f # rest) host = (if host \<in> set (fo_hosts f) then Some f else folderOf rest host)"

section \<open>In step with the saved servers\<close>

text \<open>\<open>take\<close> with its set \<open>seen\<close>, over the hosts of one item.\<close>

fun takeHosts :: "jstring jset \<Rightarrow> jstring jset \<Rightarrow> jstring list \<Rightarrow> jstring list \<times> jstring jset" where
  "takeHosts saved seen [] = ([], seen)"
| "takeHosts saved seen (h # hs) = (
     if \<not> js_has saved h \<or> js_has seen h then takeHosts saved seen hs
     else let (ks, seen') = takeHosts saved (js_add seen h) hs in (h # ks, seen'))"

fun reconcileItems :: "jstring jset \<Rightarrow> jstring jset \<Rightarrow> jstring jset \<Rightarrow> rail_layout \<Rightarrow> rail_layout \<times> jstring jset" where
  "reconcileItems saved seen folderIds [] = ([], seen)"
| "reconcileItems saved seen folderIds (Server_item h # rest) = (
     let (ks, seen1) = takeHosts saved seen [h];
         (out, seen2) = reconcileItems saved seen1 folderIds rest
     in (map Server_item ks @ out, seen2))"
| "reconcileItems saved seen folderIds (Folder_item f # rest) = (
     if js_has folderIds (fo_id f) then reconcileItems saved seen folderIds rest
     else let (hosts, seen1) = takeHosts saved seen (fo_hosts f);
              (out, seen2) = reconcileItems saved seen1 (js_add folderIds (fo_id f)) rest
          in (if hosts \<noteq> [] then Folder_item (f\<lparr>fo_hosts := hosts\<rparr>) # out else out, seen2))"

definition reconcileLayout :: "rail_layout \<Rightarrow> jstring list \<Rightarrow> rail_layout" where
  "reconcileLayout layout profileHosts = (
     let saved = js_of_list profileHosts;
         (out, seen) = reconcileItems saved [] [] layout
     in out @ map Server_item (fst (takeHosts saved seen profileHosts)))"

section \<open>Operations\<close>

definition pruneItems :: "rail_layout \<Rightarrow> rail_layout" where
  "pruneItems items = filter (\<lambda>i. case i of Server_item _ \<Rightarrow> True | Folder_item f \<Rightarrow> fo_hosts f \<noteq> []) items"

definition dropHost :: "jstring \<Rightarrow> rail_item \<Rightarrow> rail_item" where
  "dropHost host i = (case i of Server_item h \<Rightarrow> i | Folder_item f \<Rightarrow> Folder_item (f\<lparr>fo_hosts := filter (\<lambda>h. h \<noteq> host) (fo_hosts f)\<rparr>))"

definition withoutServer :: "rail_layout \<Rightarrow> jstring \<Rightarrow> rail_layout" where
  "withoutServer layout host = pruneItems (map (dropHost host) (filter (\<lambda>i. i \<noteq> Server_item host) layout))"

definition insertAt :: "'a list \<Rightarrow> int \<Rightarrow> 'a \<Rightarrow> 'a list" where
  "insertAt xs index x = (let i = nat (max 0 (min index (int (length xs)))) in take i xs @ x # drop i xs)"

definition intoFolder :: "jstring \<Rightarrow> int option \<Rightarrow> jstring \<Rightarrow> rail_item \<Rightarrow> rail_item" where
  "intoFolder folderId index host i = (case i of
     Folder_item f \<Rightarrow> if fo_id f = folderId then Folder_item (f\<lparr>fo_hosts := insertAt (fo_hosts f) (nullish index (int (length (fo_hosts f)))) host\<rparr>) else i
   | Server_item _ \<Rightarrow> i)"

definition holds :: "jstring \<Rightarrow> rail_item \<Rightarrow> bool" where
  "holds host i = (case i of Folder_item f \<Rightarrow> host \<in> set (fo_hosts f) | Server_item _ \<Rightarrow> False)"

definition besideHost :: "jstring \<Rightarrow> nat \<Rightarrow> jstring \<Rightarrow> rail_item \<Rightarrow> rail_item" where
  "besideHost targetHost offset host i = (case i of
     Folder_item f \<Rightarrow> Folder_item (f\<lparr>fo_hosts :=
       insertAt (fo_hosts f) ((case find_index (\<lambda>h. h = targetHost) (fo_hosts f) of None \<Rightarrow> - 1 | Some k \<Rightarrow> int k) + int offset) host\<rparr>)
   | Server_item _ \<Rightarrow> i)"

definition moveBeside :: "rail_layout \<Rightarrow> rail_layout \<Rightarrow> jstring \<Rightarrow> item_ref \<Rightarrow> nat \<Rightarrow> rail_layout" where
  "moveBeside layout rest host ref offset = (
     let holder = (case ref of Server_ref targetHost \<Rightarrow> find_index (holds targetHost) rest | Folder_ref _ \<Rightarrow> None)
     in case (ref, holder) of
          (Server_ref targetHost, Some k) \<Rightarrow> rest[k := besideHost targetHost offset host (rest ! k)]
        | _ \<Rightarrow> (case find_index (\<lambda>i. sameRef i ref) rest of
              None \<Rightarrow> layout
            | Some k \<Rightarrow> insertAt rest (int (k + offset)) (Server_item host)))"

definition moveServer :: "rail_layout \<Rightarrow> jstring \<Rightarrow> placement \<Rightarrow> rail_layout" where
  "moveServer layout host to = (
     if host \<notin> set (layoutHosts layout) then layout
     else if to = Before (Server_ref host) \<or> to = After (Server_ref host) then layout
     else let rest = withoutServer layout host
       in case to of
         Into folderId index \<Rightarrow>
           if \<not> list_ex (\<lambda>i. sameRef i (Folder_ref folderId)) rest then layout else map (intoFolder folderId index host) rest
       | Before ref \<Rightarrow> moveBeside layout rest host ref 0
       | After ref \<Rightarrow> moveBeside layout rest host ref 1)"

definition moveOutOfFolder :: "rail_layout \<Rightarrow> jstring \<Rightarrow> rail_layout" where
  "moveOutOfFolder layout host = (case folderOf layout host of
     None \<Rightarrow> layout
   | Some f \<Rightarrow>
       let rest = withoutServer layout host
       in insertAt rest (case find_index (\<lambda>i. sameRef i (Folder_ref (fo_id f))) rest of None \<Rightarrow> int (length rest) | Some k \<Rightarrow> int k + 1)
            (Server_item host))"

definition newFolder :: "jstring \<Rightarrow> jstring list \<Rightarrow> folder" where
  "newFolder i hosts = \<lparr>fo_id = i, fo_name = [], fo_color = DEFAULT_COLOR, fo_collapsed = False, fo_hosts = hosts\<rparr>"

definition groupServers :: "rail_layout \<Rightarrow> jstring \<Rightarrow> jstring \<Rightarrow> jstring \<Rightarrow> rail_layout" where
  "groupServers layout dragged target i = (
     if dragged = target then layout
     else if dragged \<notin> set (layoutHosts layout) \<or> target \<notin> set (layoutHosts layout) then layout
     else if folderOf layout target \<noteq> None then moveServer layout dragged (After (Server_ref target))
     else let rest = withoutServer layout dragged
       in case find_index (\<lambda>it. it = Server_item target) rest of
            None \<Rightarrow> layout
          | Some k \<Rightarrow> rest[k := Folder_item (newFolder i [target, dragged])])"

definition groupWithNext :: "rail_layout \<Rightarrow> jstring \<Rightarrow> jstring \<Rightarrow> rail_layout" where
  "groupWithNext layout host i = (case find_index (\<lambda>it. it = Server_item host) layout of
     None \<Rightarrow> layout
   | Some k \<Rightarrow>
       if Suc k < length layout
       then (case layout ! Suc k of Server_item next_host \<Rightarrow> groupServers layout host next_host i | Folder_item _ \<Rightarrow> layout)
       else layout)"

definition mapFolder :: "rail_layout \<Rightarrow> jstring \<Rightarrow> (folder \<Rightarrow> folder) \<Rightarrow> rail_layout" where
  "mapFolder layout i fn = map (\<lambda>it. case it of Folder_item f \<Rightarrow> if fo_id f = i then Folder_item (fn f) else it | Server_item _ \<Rightarrow> it) layout"

text \<open>The white space that \<open>trim\<close> and \<open>\s\<close> know.\<close>

definition js_space :: "16 word \<Rightarrow> bool" where
  "js_space w = (let n = unat w in (9 \<le> n \<and> n \<le> 13) \<or> n \<in> {32, 160, 5760, 8232, 8233, 8239, 8287, 12288, 65279} \<or> (8192 \<le> n \<and> n \<le> 8202))"

definition js_trim :: "jstring \<Rightarrow> jstring" where
  "js_trim s = rev (dropWhile js_space (rev (dropWhile js_space s)))"

definition renameFolder :: "rail_layout \<Rightarrow> jstring \<Rightarrow> jstring \<Rightarrow> rail_layout" where
  "renameFolder layout i name = mapFolder layout i (\<lambda>f. f\<lparr>fo_name := take FOLDER_NAME_MAX (js_trim name)\<rparr>)"

definition setFolderColor :: "rail_layout \<Rightarrow> jstring \<Rightarrow> jstring \<Rightarrow> rail_layout" where
  "setFolderColor layout i color = (if color \<notin> set FOLDER_COLORS then layout else mapFolder layout i (\<lambda>f. f\<lparr>fo_color := color\<rparr>))"

definition toggleCollapsed :: "rail_layout \<Rightarrow> jstring \<Rightarrow> rail_layout" where
  "toggleCollapsed layout i = mapFolder layout i (\<lambda>f. f\<lparr>fo_collapsed := \<not> fo_collapsed f\<rparr>)"

definition ungroupFolder :: "rail_layout \<Rightarrow> jstring \<Rightarrow> rail_layout" where
  "ungroupFolder layout i = concat (map (\<lambda>it. case it of
     Folder_item f \<Rightarrow> if fo_id f = i then map Server_item (fo_hosts f) else [it]
   | Server_item _ \<Rightarrow> [it]) layout)"

text \<open>The moved item is taken out by identity, that is at the place where it was found.\<close>

definition removeAt :: "nat \<Rightarrow> 'a list \<Rightarrow> 'a list" where
  "removeAt k xs = take k xs @ drop (Suc k) xs"

definition moveItem :: "rail_layout \<Rightarrow> item_ref \<Rightarrow> item_ref \<Rightarrow> bool \<Rightarrow> rail_layout" where
  "moveItem layout ref to after = (case find_index (\<lambda>i. sameRef i ref) layout of
     None \<Rightarrow> layout
   | Some k \<Rightarrow>
       if sameRef (layout ! k) to then layout
       else let rest = removeAt k layout
         in case find_index (\<lambda>i. sameRef i to) rest of
              None \<Rightarrow> layout
            | Some pos \<Rightarrow> insertAt rest (int (if after then Suc pos else pos)) (layout ! k))"

text \<open>\<open>splice(from, 1)\<close> and \<open>splice(to, 0, x)\<close>, one step up or down; the second component says that the step stays inside.\<close>

definition shiftIn :: "'a list \<Rightarrow> nat \<Rightarrow> bool \<Rightarrow> 'a list option" where
  "shiftIn xs k down = (
     if down then (if Suc k \<ge> length xs then None else Some (insertAt (removeAt k xs) (int k + 1) (xs ! k)))
     else (if k = 0 then None else Some (insertAt (removeAt k xs) (int k - 1) (xs ! k))))"

definition shiftTop :: "rail_layout \<Rightarrow> item_ref \<Rightarrow> bool \<Rightarrow> rail_layout" where
  "shiftTop layout ref down = (case find_index (\<lambda>i. sameRef i ref) layout of
     None \<Rightarrow> layout
   | Some k \<Rightarrow> nullish (shiftIn layout k down) layout)"

definition shiftItem :: "rail_layout \<Rightarrow> item_ref \<Rightarrow> bool \<Rightarrow> rail_layout" where
  "shiftItem layout ref down = (case ref of
     Server_ref host \<Rightarrow> (case folderOf layout host of
         Some f \<Rightarrow> (case find_index (\<lambda>h. h = host) (fo_hosts f) of
             None \<Rightarrow> layout
           | Some k \<Rightarrow> (case shiftIn (fo_hosts f) k down of
                 None \<Rightarrow> layout
               | Some hosts \<Rightarrow> mapFolder layout (fo_id f) (\<lambda>g. g\<lparr>fo_hosts := hosts\<rparr>)))
       | None \<Rightarrow> shiftTop layout ref down)
   | Folder_ref _ \<Rightarrow> shiftTop layout ref down)"

section \<open>The saved copy\<close>

definition jsonString :: "json option \<Rightarrow> jstring option" where
  "jsonString v = (case v of Some (JString s) \<Rightarrow> Some s | _ \<Rightarrow> None)"

fun stringArray :: "json list \<Rightarrow> jstring list option" where
  "stringArray [] = Some []"
| "stringArray (v # vs) = (case v of
     JString s \<Rightarrow> if s = [] then None else map_option (Cons s) (stringArray vs)
   | _ \<Rightarrow> None)"

definition isStringArray :: "json option \<Rightarrow> jstring list option" where
  "isStringArray v = (case v of Some (JArray vs) \<Rightarrow> stringArray vs | _ \<Rightarrow> None)"

definition parseFolder :: "(string \<times> json) list \<Rightarrow> folder option" where
  "parseFolder e = (case (jsonString (map_of e ''id''), jsonString (map_of e ''name''), map_of e ''collapsed'') of
     (Some i, Some name, Some (JBool collapsed)) \<Rightarrow>
       if i = [] then None
       else (case (jsonString (map_of e ''color''), isStringArray (map_of e ''hosts'')) of
           (Some color, Some hosts) \<Rightarrow>
             Some \<lparr>fo_id = i, fo_name = take FOLDER_NAME_MAX name,
               fo_color = (if color \<in> set FOLDER_COLORS then color else DEFAULT_COLOR), fo_collapsed = collapsed, fo_hosts = hosts\<rparr>
         | _ \<Rightarrow> None)
   | _ \<Rightarrow> None)"

definition parseEntry :: "json \<Rightarrow> rail_item option" where
  "parseEntry entry = (case entry of
     JObject e \<Rightarrow>
       if jsonString (map_of e ''kind'') = Some (js_lit ''server'') then
         (case jsonString (map_of e ''host'') of None \<Rightarrow> None | Some h \<Rightarrow> if h = [] then None else Some (Server_item h))
       else if jsonString (map_of e ''kind'') = Some (js_lit ''folder'') then map_option Folder_item (parseFolder e)
       else None
   | _ \<Rightarrow> None)"

fun parseEntries :: "json list \<Rightarrow> rail_layout option" where
  "parseEntries [] = Some []"
| "parseEntries (entry # rest) = (case parseEntry entry of
     None \<Rightarrow> None
   | Some item \<Rightarrow> map_option (Cons item) (parseEntries rest))"

definition parseLayout :: "json \<Rightarrow> rail_layout option" where
  "parseLayout raw = (case raw of JArray entries \<Rightarrow> parseEntries entries | _ \<Rightarrow> None)"

text \<open>The object that \<open>JSON.stringify\<close> writes for an item.\<close>

definition itemJson :: "rail_item \<Rightarrow> json" where
  "itemJson item = (case item of
     Server_item h \<Rightarrow> JObject [(''kind'', JString (js_lit ''server'')), (''host'', JString h)]
   | Folder_item f \<Rightarrow> JObject [(''kind'', JString (js_lit ''folder'')), (''id'', JString (fo_id f)), (''name'', JString (fo_name f)),
       (''color'', JString (fo_color f)), (''collapsed'', JBool (fo_collapsed f)), (''hosts'', JArray (map JString (fo_hosts f)))])"

text \<open>The guarded storage: a store that cannot be used is \<open>None\<close>.\<close>

type_synonym 'v stored = "(string, 'v) jmap option"

definition readStored :: "string \<Rightarrow> 'v stored \<Rightarrow> 'v option" where
  "readStored key st = (case st of None \<Rightarrow> None | Some m \<Rightarrow> jm_get m key)"

definition writeStored :: "string \<Rightarrow> 'v \<Rightarrow> 'v stored \<Rightarrow> bool \<times> 'v stored" where
  "writeStored key v st = (case st of None \<Rightarrow> (False, None) | Some m \<Rightarrow> (True, Some (jm_set m key v)))"

definition loadStoredJson :: "('v \<Rightarrow> json option) \<Rightarrow> string \<Rightarrow> (json \<Rightarrow> 'a option) \<Rightarrow> 'a \<Rightarrow> 'v stored \<Rightarrow> 'a" where
  "loadStoredJson JSON_parse key parse fallback st = (case readStored key st of
     None \<Rightarrow> fallback
   | Some raw \<Rightarrow> nullish (Option.bind (JSON_parse raw) parse) fallback)"

definition loadLayout :: "('v \<Rightarrow> json option) \<Rightarrow> 'v stored \<Rightarrow> rail_layout" where
  "loadLayout JSON_parse st = loadStoredJson JSON_parse RAIL_LAYOUT_KEY parseLayout [] st"

definition saveStoredJson :: "(json \<Rightarrow> 'v) \<Rightarrow> string \<Rightarrow> json \<Rightarrow> 'v stored \<Rightarrow> bool \<times> 'v stored" where
  "saveStoredJson JSON_stringify key j st = writeStored key (JSON_stringify j) st"

definition saveLayout :: "(json \<Rightarrow> 'v) \<Rightarrow> rail_layout \<Rightarrow> 'v stored \<Rightarrow> 'v stored" where
  "saveLayout JSON_stringify layout st = snd (saveStoredJson JSON_stringify RAIL_LAYOUT_KEY (JArray (map itemJson layout)) st)"

section \<open>What an operation keeps\<close>

text \<open>What a layout holds of each server and of each folder, with multiplicities: \<open>w\<close> lists what an item holds.\<close>

definition tally :: "('a \<Rightarrow> 'b list) \<Rightarrow> 'a list \<Rightarrow> 'b multiset" where
  "tally w xs = mset (concat (map w xs))"

definition item_ids :: "rail_item \<Rightarrow> jstring list" where
  "item_ids item = (case item of Server_item _ \<Rightarrow> [] | Folder_item f \<Rightarrow> [fo_id f])"

definition full :: "rail_item \<Rightarrow> bool" where
  "full item = (item_hosts item \<noteq> [])"

definition layout_ok :: "rail_layout \<Rightarrow> bool" where
  "layout_ok l = (distinct (layoutHosts l) \<and> distinct (concat (map item_ids l)) \<and> list_all full l)"

lemma tally_simps [simp]:
  "tally w [] = {#}" "tally w (x # xs) = mset (w x) + tally w xs" "tally w (xs @ ys) = tally w xs + tally w ys"
  by (simp_all add: tally_def)

lemma item_simps [simp]:
  "item_hosts (Server_item h) = [h]" "item_hosts (Folder_item f) = fo_hosts f" "item_ids (Server_item h) = []" "item_ids (Folder_item f) = [fo_id f]"
  "full (Server_item h)" "full (Folder_item f) = (fo_hosts f \<noteq> [])" "sameRef (Server_item h) (Folder_ref i) = False"
  "sameRef (Folder_item f) (Folder_ref i) = (fo_id f = i)" "sameRef it (Server_ref h) = (it = Server_item h)"
  by (simp_all add: item_hosts_def item_ids_def full_def sameRef_def)

lemma hosts_tally: "mset (layoutHosts l) = tally item_hosts l"
  by (simp add: layoutHosts_def tally_def)

lemma layoutHosts_simps [simp]:
  "layoutHosts [] = []" "layoutHosts (i # l) = item_hosts i @ layoutHosts l" "layoutHosts (l @ m) = layoutHosts l @ layoutHosts m"
  by (simp_all add: layoutHosts_def)

lemma insertAt_split:
  obtains ys zs where "xs = ys @ zs" and "insertAt xs i x = ys @ x # zs"
  unfolding insertAt_def Let_def by (metis append_take_drop_id)

lemma tally_insertAt: "tally w (insertAt xs i x) = mset (w x) + tally w xs"
  by (rule insertAt_split [of xs i x]) simp

lemma tally_removeAt: "k < length xs \<Longrightarrow> mset (w (xs ! k)) + tally w (removeAt k xs) = tally w xs"
  by (subst (3) id_take_nth_drop [of k]) (simp_all add: removeAt_def)

lemma tally_update: "k < length xs \<Longrightarrow> mset (w (xs ! k)) + tally w (xs[k := y]) = mset (w y) + tally w xs"
  by (subst (4) id_take_nth_drop [of k]) (simp_all add: upd_conv_take_nth_drop)

lemma tally_map: "(\<And>x. x \<in> set xs \<Longrightarrow> mset (w (f x)) = mset (w x)) \<Longrightarrow> tally w (map f xs) = tally w xs"
  by (induction xs) auto

lemma set_insertAt: "set (insertAt xs i x) = insert x (set xs)"
  by (rule insertAt_split [of xs i x]) auto

lemma set_removeAt: "set (removeAt k xs) \<subseteq> set xs"
  by (auto simp: removeAt_def dest: in_set_takeD in_set_dropD)

lemma mset_insertAt [simp]: "mset (insertAt xs i x) = add_mset x (mset xs)"
  by (rule insertAt_split [of xs i x]) simp

text \<open>The layout is in order after an operation that loses no host and adds no folder but a fresh one.\<close>

lemma distinct_tally: "distinct (concat (map w xs)) \<longleftrightarrow> (\<forall>b. count (tally w xs) b \<le> 1)"
  unfolding tally_def distinct_count_atmost_1 by (metis One_nat_def count_mset_0_iff count_mset_gt_0 le_eq_less_or_eq less_one not_le)

lemma layout_okI:
  assumes "layout_ok l" and "tally item_hosts m = tally item_hosts l" and "tally item_ids m \<subseteq># tally item_ids l" and "list_all full m"
  shows "layout_ok m"
  using assms unfolding layout_ok_def layoutHosts_def distinct_tally
  by (metis le_trans mset_subset_eq_count)

text \<open>Taking a server out.\<close>

lemma host_filter: "mset (filter P xs) = filter_mset P (mset xs)"
  by simp

lemma without_hosts: "tally item_hosts (withoutServer l h) = filter_mset (\<lambda>x. x \<noteq> h) (tally item_hosts l)"
proof (induction l)
  case (Cons i l)
  have "withoutServer (i # l) h = withoutServer [i] h @ withoutServer l h" by (simp add: withoutServer_def pruneItems_def)
  moreover have "tally item_hosts (withoutServer [i] h) = filter_mset (\<lambda>x. x \<noteq> h) (mset (item_hosts i))"
    by (cases i) (auto simp: withoutServer_def pruneItems_def dropHost_def simp flip: mset_filter)
  ultimately show ?case using Cons by simp
qed (simp add: withoutServer_def pruneItems_def)

lemma without_ids: "tally item_ids (withoutServer l h) \<subseteq># tally item_ids l"
proof (induction l)
  case (Cons i l)
  have "withoutServer (i # l) h = withoutServer [i] h @ withoutServer l h" by (simp add: withoutServer_def pruneItems_def)
  moreover have "tally item_ids (withoutServer [i] h) \<subseteq># mset (item_ids i)"
    by (cases i) (auto simp: withoutServer_def pruneItems_def dropHost_def)
  ultimately show ?case using Cons by (simp add: subset_mset.add_mono)
qed (simp add: withoutServer_def pruneItems_def)

lemma without_full: "list_all full (withoutServer l h)"
  by (auto simp: withoutServer_def pruneItems_def list_all_iff full_def item_hosts_def split: rail_item.splits)

lemma without_back:
  assumes "layout_ok l" and "h \<in> set (layoutHosts l)"
  shows "add_mset h (tally item_hosts (withoutServer l h)) = tally item_hosts l"
proof -
  have "count (tally item_hosts l) h = 1"
    using assms distinct_count_atmost_1 [of "layoutHosts l"] by (simp add: layout_ok_def flip: hosts_tally)
  then show ?thesis unfolding without_hosts by (intro multiset_eqI) auto
qed

lemma without_absent: "h \<notin> set (layoutHosts (withoutServer l h))"
  using without_hosts [of l h] by (metis (mono_tags, lifting) count_filter_mset count_mset_0_iff hosts_tally)

text \<open>Putting it back somewhere.\<close>

definition keeps :: "rail_layout \<Rightarrow> rail_layout \<Rightarrow> bool" where
  "keeps l m = (layout_ok m \<and> tally item_hosts m = tally item_hosts l)"

lemma keeps_refl: "layout_ok l \<Longrightarrow> keeps l l"
  by (simp add: keeps_def)

lemma keepsI:
  "layout_ok l \<Longrightarrow> tally item_hosts m = tally item_hosts l \<Longrightarrow> tally item_ids m \<subseteq># tally item_ids l \<Longrightarrow> list_all full m \<Longrightarrow> keeps l m"
  by (simp add: keeps_def layout_okI)

lemma keeps_placed:
  assumes "layout_ok l" and "h \<in> set (layoutHosts l)" and "tally item_hosts m = add_mset h (tally item_hosts (withoutServer l h))"
    and "tally item_ids m = tally item_ids (withoutServer l h)" and "list_all full m"
  shows "keeps l m"
  using assms without_back [OF assms(1,2)] without_ids [of l h] by (intro keepsI) auto

lemma insertAt_ne [simp]: "insertAt xs i x \<noteq> []"
  by (simp add: insertAt_def Let_def)

lemma into_hosts:
  "distinct (concat (map item_ids l)) \<Longrightarrow> tally item_hosts (map (intoFolder i k h) l) =
     (if i \<in> set (concat (map item_ids l)) then add_mset h (tally item_hosts l) else tally item_hosts l)"
  by (induction l) (auto simp: intoFolder_def split: rail_item.splits)

lemma folder_ref_ids: "sameRef it (Folder_ref i) \<longleftrightarrow> i \<in> set (item_ids it)"
  by (cases it) auto

lemma into_keeps: "item_ids (intoFolder i k h it) = item_ids it" "full it \<Longrightarrow> full (intoFolder i k h it)"
  by (auto simp: intoFolder_def split: rail_item.splits)

lemma beside_keeps:
  "holds t it \<Longrightarrow> mset (item_hosts (besideHost t d h it)) = add_mset h (mset (item_hosts it))"
  "item_ids (besideHost t d h it) = item_ids it" "full it \<Longrightarrow> full (besideHost t d h it)"
  by (auto simp: besideHost_def holds_def split: rail_item.splits)

lemma ids_distinct_without: "layout_ok l \<Longrightarrow> distinct (concat (map item_ids (withoutServer l h)))"
  using without_ids [of l h] unfolding layout_ok_def distinct_tally by (meson le_trans mset_subset_eq_count)

lemma full_insertAt: "list_all full l \<Longrightarrow> full x \<Longrightarrow> list_all full (insertAt l i x)"
  by (simp add: list_all_iff set_insertAt)

lemma full_update: "list_all full l \<Longrightarrow> full x \<Longrightarrow> list_all full (l[k := x])"
  by (auto simp: list_all_iff dest: set_update_subset_insert [THEN subsetD])

lemma beside_ok:
  assumes ok: "layout_ok l" "h \<in> set (layoutHosts l)"
  shows "keeps l (moveBeside l (withoutServer l h) h ref d)"
proof -
  let ?rest = "withoutServer l h"
  have top: "keeps l (insertAt ?rest i (Server_item h))" for i
    using ok by (intro keeps_placed) (simp_all add: tally_insertAt full_insertAt without_full)
  have inside: "keeps l (?rest[k := besideHost t d h (?rest ! k)])" if "find_index (holds t) ?rest = Some k" for t k
  proof -
    have k: "k < length ?rest" "holds t (?rest ! k)" using find_index_SomeD [OF that] by auto
    then have f: "full (?rest ! k)" using without_full [of l h] by (simp add: list_all_length)
    have "tally item_hosts (?rest[k := besideHost t d h (?rest ! k)]) = add_mset h (tally item_hosts ?rest)"
      using tally_update [OF k(1), of item_hosts "besideHost t d h (?rest ! k)"] beside_keeps(1) [OF k(2)] by simp
    moreover have "tally item_ids (?rest[k := besideHost t d h (?rest ! k)]) = tally item_ids ?rest"
      using tally_update [OF k(1), of item_ids "besideHost t d h (?rest ! k)"] by (simp add: beside_keeps(2))
    ultimately show ?thesis using ok f by (intro keeps_placed) (simp_all add: full_update without_full beside_keeps(3))
  qed
  show ?thesis using ok by (auto simp: moveBeside_def Let_def top inside keeps_refl split: option.splits item_ref.splits)
qed

lemma move_server_ok: "layout_ok l \<Longrightarrow> keeps l (moveServer l h to)"
proof -
  assume ok: "layout_ok l"
  let ?rest = "withoutServer l h"
  have "keeps l (map (intoFolder i k h) ?rest)" if "h \<in> set (layoutHosts l)" and "list_ex (\<lambda>it. sameRef it (Folder_ref i)) ?rest" for i k
  proof (rule keeps_placed [OF ok that(1)])
    have "i \<in> set (concat (map item_ids ?rest))"
      using that(2) folder_ref_ids by (auto simp: list_ex_iff)
    then show "tally item_hosts (map (intoFolder i k h) ?rest) = add_mset h (tally item_hosts ?rest)"
      using into_hosts [OF ids_distinct_without [OF ok]] by simp
    show "tally item_ids (map (intoFolder i k h) ?rest) = tally item_ids ?rest" by (rule tally_map) (simp add: into_keeps)
    show "list_all full (map (intoFolder i k h) ?rest)"
      using without_full [of l h] into_keeps(2) by (auto simp: list_all_iff)
  qed
  then show ?thesis using ok beside_ok [OF ok] by (auto simp: moveServer_def Let_def keeps_refl split: placement.splits)
qed

lemma folderOf_mem: "folderOf l h = Some f \<Longrightarrow> Folder_item f \<in> set l \<and> h \<in> set (fo_hosts f)"
  by (induction l h rule: folderOf.induct) (auto split: if_splits)

lemma member_host: "it \<in> set l \<Longrightarrow> h \<in> set (item_hosts it) \<Longrightarrow> h \<in> set (layoutHosts l)"
  by (auto simp: layoutHosts_def)

lemma move_out_ok: "layout_ok l \<Longrightarrow> keeps l (moveOutOfFolder l h)"
proof (cases "folderOf l h")
  case (Some f)
  assume ok: "layout_ok l"
  have "h \<in> set (layoutHosts l)" using folderOf_mem [OF Some] member_host [of "Folder_item f" l h] by simp
  then have "keeps l (insertAt (withoutServer l h) i (Server_item h))" for i
    using ok by (intro keeps_placed) (simp_all add: tally_insertAt full_insertAt without_full)
  with Some show ?thesis by (simp add: moveOutOfFolder_def Let_def)
qed (simp add: moveOutOfFolder_def keeps_refl)

text \<open>A new folder is one whose id no folder has.\<close>

lemma group_ok:
  assumes ok: "layout_ok l" and "i \<notin> set (concat (map item_ids l))"
  shows "keeps l (groupServers l h t i)"
proof -
  let ?rest = "withoutServer l h" and ?new = "Folder_item (newFolder i [t, h])"
  have "keeps l (?rest[k := ?new])" if k: "find_index (\<lambda>it. it = Server_item t) ?rest = Some k" and h: "h \<in> set (layoutHosts l)" for k
  proof -
    have at: "k < length ?rest" "?rest ! k = Server_item t" using find_index_SomeD [OF k] by auto
    have hosts: "tally item_hosts (?rest[k := ?new]) = tally item_hosts l"
      using tally_update [OF at(1), of item_hosts ?new] at(2) without_back [OF ok h] by (simp add: newFolder_def)
    have ids: "tally item_ids (?rest[k := ?new]) = add_mset i (tally item_ids ?rest)"
      using tally_update [OF at(1), of item_ids ?new] at(2) by (simp add: newFolder_def)
    have "count (tally item_ids ?rest) b \<le> count (tally item_ids l) b" for b
      by (rule mset_subset_eq_count [OF without_ids])
    moreover have "count (tally item_ids l) i = 0" using assms(2) by (simp add: tally_def count_mset_0_iff)
    moreover have "count (tally item_ids l) b \<le> 1" for b using ok by (simp add: layout_ok_def distinct_tally)
    ultimately have "count (add_mset i (tally item_ids ?rest)) b \<le> 1" for b by (metis add.left_neutral count_add_mset le_trans le_zero_eq plus_1_eq_Suc One_nat_def order_refl)
    moreover have "list_all full (?rest[k := ?new])" by (rule full_update [OF without_full]) (simp add: newFolder_def)
    moreover have "distinct (layoutHosts l)" using ok by (simp add: layout_ok_def)
    ultimately show ?thesis using hosts ids by (simp add: keeps_def layout_ok_def layoutHosts_def distinct_tally)
  qed
  then show ?thesis using move_server_ok [OF ok] ok by (auto simp: groupServers_def Let_def keeps_refl split: option.splits)
qed

lemma group_next_ok: "layout_ok l \<Longrightarrow> i \<notin> set (concat (map item_ids l)) \<Longrightarrow> keeps l (groupWithNext l h i)"
  by (auto simp: groupWithNext_def keeps_refl group_ok split: option.splits rail_item.splits)

lemma map_folder_ok:
  assumes "layout_ok l" and "\<And>f. fo_id (fn f) = fo_id f"
    and "\<And>f. Folder_item f \<in> set l \<Longrightarrow> fo_id f = i \<Longrightarrow> mset (fo_hosts (fn f)) = mset (fo_hosts f)"
  shows "keeps l (mapFolder l i fn)"
  using assms(1)
proof (rule keepsI)
  show "tally item_hosts (mapFolder l i fn) = tally item_hosts l"
    unfolding mapFolder_def by (rule tally_map) (auto simp: assms(3) split: rail_item.splits)
  have "tally item_ids (mapFolder l i fn) = tally item_ids l"
    unfolding mapFolder_def by (rule tally_map) (auto simp: assms(2) split: rail_item.splits)
  then show "tally item_ids (mapFolder l i fn) \<subseteq># tally item_ids l" by simp
  show "list_all full (mapFolder l i fn)"
    using assms(1,3) by (fastforce simp: layout_ok_def mapFolder_def list_all_iff split: rail_item.splits)
qed

lemma tally_servers: "tally item_hosts (map Server_item hs) = mset hs" "tally item_ids (map Server_item hs) = {#}"
  by (induction hs) auto

lemma ungroup_ok: "layout_ok l \<Longrightarrow> keeps l (ungroupFolder l i)"
proof (rule keepsI)
  show "tally item_hosts (ungroupFolder l i) = tally item_hosts l"
    unfolding ungroupFolder_def by (induction l) (auto simp: tally_servers split: rail_item.splits)
  show "tally item_ids (ungroupFolder l i) \<subseteq># tally item_ids l"
    unfolding ungroupFolder_def
    by (induction l) (auto simp: tally_servers subset_mset.le_imp_less_or_eq intro: subset_mset.trans split: rail_item.splits)
qed (auto simp: layout_ok_def ungroupFolder_def list_all_iff split: rail_item.splits)

lemma tally_sum: "tally w xs = (\<Sum>x \<in># mset xs. mset (w x))"
  by (induction xs) auto

lemma permuted_ok: "layout_ok l \<Longrightarrow> mset m = mset l \<Longrightarrow> keeps l m"
  by (rule keepsI) (auto simp: tally_sum layout_ok_def list_all_iff dest: mset_eq_setD)

lemma mset_removeAt: "k < length xs \<Longrightarrow> add_mset (xs ! k) (mset (removeAt k xs)) = mset xs"
  by (subst (3) id_take_nth_drop [of k]) (simp_all add: removeAt_def)

lemma move_item_ok: "layout_ok l \<Longrightarrow> keeps l (moveItem l ref to after)"
  by (auto simp: moveItem_def Let_def keeps_refl mset_removeAt dest!: find_index_SomeD intro!: permuted_ok split: option.splits)

lemma shiftIn_mset: "shiftIn xs k down = Some ys \<Longrightarrow> k < length xs \<Longrightarrow> mset ys = mset xs"
  by (auto simp: shiftIn_def mset_removeAt split: if_splits)

lemma same_folder:
  "distinct (concat (map item_ids l)) \<Longrightarrow> Folder_item f \<in> set l \<Longrightarrow> Folder_item g \<in> set l \<Longrightarrow> fo_id f = fo_id g \<Longrightarrow> f = g"
  by (induction l) force+

lemma shift_ok: "layout_ok l \<Longrightarrow> keeps l (shiftItem l ref down)"
proof -
  assume ok: "layout_ok l"
  have top: "keeps l (shiftTop l r down)" for r
    using ok by (auto simp: shiftTop_def keeps_refl nullish_def dest!: find_index_SomeD intro!: permuted_ok shiftIn_mset split: option.splits)
  have "keeps l (mapFolder l (fo_id f) (\<lambda>g. g\<lparr>fo_hosts := hs\<rparr>))"
    if "folderOf l h = Some f" "find_index (\<lambda>x. x = h) (fo_hosts f) = Some k" "shiftIn (fo_hosts f) k down = Some hs" for h f k hs
  proof (rule map_folder_ok [OF ok])
    have "mset hs = mset (fo_hosts f)" using that(2,3) by (auto dest!: find_index_SomeD intro: shiftIn_mset)
    then show "mset (fo_hosts (g\<lparr>fo_hosts := hs\<rparr>)) = mset (fo_hosts g)" if "Folder_item g \<in> set l" "fo_id g = fo_id f" for g
      using that same_folder [of l f g] folderOf_mem [OF \<open>folderOf l h = Some f\<close>] ok by (simp add: layout_ok_def)
  qed simp
  with top ok show ?thesis by (auto simp: shiftItem_def keeps_refl split: item_ref.splits option.splits)
qed

section \<open>In step with the saved servers\<close>

lemma take_hosts:
  "takeHosts saved seen hs = (ks, seen') \<Longrightarrow>
     distinct ks \<and> set ks = {h \<in> set hs. h \<in> set saved \<and> h \<notin> set seen} \<and> set seen' = set seen \<union> set ks"
proof (induction saved seen hs arbitrary: ks seen' rule: takeHosts.induct)
  case (2 saved seen h hs)
  show ?case
  proof (cases "\<not> js_has saved h \<or> js_has seen h")
    case True
    from True "2.prems" have "takeHosts saved seen hs = (ks, seen')" by simp
    from "2.IH"(1) [OF True this] True show ?thesis by (auto simp: js_has_set)
  next
    case False
    obtain ts s2 where t: "takeHosts saved (js_add seen h) hs = (ts, s2)" by force
    have "set (js_add seen h) = insert h (set seen)" by (auto simp: js_add_def js_has_set)
    with "2.IH"(2) [OF False t] have ts: "distinct ts" "set ts = {x \<in> set hs. x \<in> set saved \<and> x \<notin> insert h (set seen)}"
      "set s2 = insert h (set seen) \<union> set ts"
      by simp_all
    have "ks = h # ts" "seen' = s2" using "2.prems" False t by simp_all
    with ts False show ?thesis unfolding js_has_set by auto
  qed
qed simp

lemma servers_simps [simp]:
  "layoutHosts (map Server_item hs) = hs" "concat (map (item_ids \<circ> Server_item) hs) = []" "list_all full (map Server_item hs)"
  by (induction hs) auto

lemma reconcile_items:
  "reconcileItems saved seen ids l = (out, seen') \<Longrightarrow>
     layout_ok out \<and> set (layoutHosts out) = set seen' - set seen \<and> set seen \<subseteq> set seen' \<and> set seen' \<subseteq> set seen \<union> set saved \<and>
     set (concat (map item_ids out)) \<inter> set ids = {}"
proof (induction saved seen ids l arbitrary: out seen' rule: reconcileItems.induct)
  case (1 saved seen ids)
  then show ?case by (simp add: layout_ok_def)
next
  case (2 saved seen ids h rest)
  obtain ks seen1 where t: "takeHosts saved seen [h] = (ks, seen1)" by force
  obtain o2 seen2 where r: "reconcileItems saved seen1 ids rest = (o2, seen2)" by force
  have k: "distinct ks" "set ks = {x \<in> {h}. x \<in> set saved \<and> x \<notin> set seen}" "set seen1 = set seen \<union> set ks"
    using take_hosts [OF t] by auto
  from "2.IH" [OF t [symmetric] refl r] have "layout_ok o2" "set (layoutHosts o2) = set seen2 - set seen1" "set seen1 \<subseteq> set seen2"
    "set seen2 \<subseteq> set seen1 \<union> set saved" "set (concat (map item_ids o2)) \<inter> set ids = {}"
    by auto
  moreover have "out = map Server_item ks @ o2" "seen' = seen2" using "2.prems" t r by (simp_all del: takeHosts.simps)
  ultimately show ?case using k unfolding layout_ok_def by auto
next
  case (3 saved seen ids f rest)
  show ?case
  proof (cases "js_has ids (fo_id f)")
    case True
    with 3 show ?thesis by simp
  next
    case False
    obtain hs seen1 where t: "takeHosts saved seen (fo_hosts f) = (hs, seen1)" by force
    obtain o2 seen2 where r: "reconcileItems saved seen1 (js_add ids (fo_id f)) rest = (o2, seen2)" by force
    have k: "distinct hs" "set hs = {x \<in> set (fo_hosts f). x \<in> set saved \<and> x \<notin> set seen}" "set seen1 = set seen \<union> set hs"
      using take_hosts [OF t] by auto
    have "set (js_add ids (fo_id f)) = insert (fo_id f) (set ids)" by (auto simp: js_add_def js_has_set)
    with "3.IH"(2) [OF False t [symmetric] refl r] have "layout_ok o2" "set (layoutHosts o2) = set seen2 - set seen1" "set seen1 \<subseteq> set seen2"
      "set seen2 \<subseteq> set seen1 \<union> set saved" "set (concat (map item_ids o2)) \<inter> insert (fo_id f) (set ids) = {}"
      by auto
    moreover have "out = (if hs \<noteq> [] then Folder_item (f\<lparr>fo_hosts := hs\<rparr>) # o2 else o2)" "seen' = seen2" using "3.prems" t r False by simp_all
    ultimately show ?thesis using k False unfolding layout_ok_def js_has_set by (cases "hs = []") auto
  qed
qed

lemma set_js_of_list: "set (js_of_list xs) = set xs"
  using js_of_list_has [of xs] by (auto simp: js_has_set)

lemma reconcile_ok: "layout_ok (reconcileLayout l ps) \<and> set (layoutHosts (reconcileLayout l ps)) = set ps"
proof -
  obtain out seen where r: "reconcileItems (js_of_list ps) [] [] l = (out, seen)" by force
  obtain ks seen' where t: "takeHosts (js_of_list ps) seen ps = (ks, seen')" by force
  have "layout_ok out" "set (layoutHosts out) = set seen" "set seen \<subseteq> set ps"
    using reconcile_items [OF r] by (auto simp: set_js_of_list)
  moreover have "distinct ks" "set ks = set ps - set seen" using take_hosts [OF t] by (auto simp: set_js_of_list)
  ultimately show ?thesis by (auto simp: reconcileLayout_def r t layout_ok_def)
qed

lemma take_all: "distinct hs \<Longrightarrow> set hs \<subseteq> set saved \<Longrightarrow> set hs \<inter> set seen = {} \<Longrightarrow> takeHosts saved seen hs = (hs, seen @ hs)"
  by (induction hs arbitrary: seen) (auto simp: js_has_set js_add_def)

lemma take_none: "set hs \<subseteq> set seen \<Longrightarrow> takeHosts saved seen hs = ([], seen)"
  by (induction hs) (auto simp: js_has_set)

lemma reconcile_same:
  "layout_ok l \<Longrightarrow> set (layoutHosts l) \<subseteq> set saved \<Longrightarrow> set (layoutHosts l) \<inter> set seen = {} \<Longrightarrow> set (concat (map item_ids l)) \<inter> set ids = {} \<Longrightarrow>
     reconcileItems saved seen ids l = (l, seen @ layoutHosts l)"
proof (induction l arbitrary: seen ids)
  case (Cons it l)
  show ?case
  proof (cases it)
    case (Server_item h)
    with Cons.prems have "takeHosts saved seen [h] = ([h], seen @ [h])" by (intro take_all) auto
    moreover have "reconcileItems saved (seen @ [h]) ids l = (l, (seen @ [h]) @ layoutHosts l)"
      using Cons.prems Server_item by (intro Cons.IH) (auto simp: layout_ok_def)
    ultimately show ?thesis using Server_item by simp
  next
    case (Folder_item f)
    with Cons.prems have "takeHosts saved seen (fo_hosts f) = (fo_hosts f, seen @ fo_hosts f)"
      by (intro take_all) (auto simp: layout_ok_def)
    moreover have "reconcileItems saved (seen @ fo_hosts f) (js_add ids (fo_id f)) l = (l, (seen @ fo_hosts f) @ layoutHosts l)"
      using Cons.prems Folder_item by (intro Cons.IH) (auto simp: layout_ok_def js_add_def)
    ultimately show ?thesis using Folder_item Cons.prems by (auto simp: layout_ok_def js_has_set)
  qed
qed simp

lemma reconcile_noop: "layout_ok l \<Longrightarrow> set (layoutHosts l) = set ps \<Longrightarrow> reconcileLayout l ps = l"
  using reconcile_same [of l "js_of_list ps" "[]" "[]"] by (simp add: reconcileLayout_def set_js_of_list take_none)

section \<open>Every server once\<close>

datatype rail_action =
    Move_server jstring placement
  | Move_out jstring
  | Group jstring jstring jstring
  | Group_next jstring jstring
  | Rename jstring jstring
  | Recolor jstring jstring
  | Toggle jstring
  | Ungroup jstring
  | Move_item item_ref item_ref bool
  | Shift item_ref bool
  | Reconcile

fun rail_apply :: "jstring list \<Rightarrow> rail_action \<Rightarrow> rail_layout \<Rightarrow> rail_layout" where
  "rail_apply ps (Move_server h to) l = moveServer l h to"
| "rail_apply ps (Move_out h) l = moveOutOfFolder l h"
| "rail_apply ps (Group h t i) l = groupServers l h t i"
| "rail_apply ps (Group_next h i) l = groupWithNext l h i"
| "rail_apply ps (Rename i name) l = renameFolder l i name"
| "rail_apply ps (Recolor i color) l = setFolderColor l i color"
| "rail_apply ps (Toggle i) l = toggleCollapsed l i"
| "rail_apply ps (Ungroup i) l = ungroupFolder l i"
| "rail_apply ps (Move_item ref to after) l = moveItem l ref to after"
| "rail_apply ps (Shift ref down) l = shiftItem l ref down"
| "rail_apply ps Reconcile l = reconcileLayout l ps"

text \<open>A new folder comes with an id of its own.\<close>

fun rail_action_ok :: "rail_layout \<Rightarrow> rail_action \<Rightarrow> bool" where
  "rail_action_ok l (Group h t i) = (i \<notin> set (concat (map item_ids l)))"
| "rail_action_ok l (Group_next h i) = (i \<notin> set (concat (map item_ids l)))"
| "rail_action_ok l a = True"

definition rail_step :: "jstring list \<Rightarrow> rail_layout \<Rightarrow> rail_action \<Rightarrow> rail_layout \<Rightarrow> bool" where
  "rail_step ps l a m = (rail_action_ok l a \<and> m = rail_apply ps a l)"

definition in_step :: "jstring list \<Rightarrow> rail_layout \<Rightarrow> bool" where
  "in_step ps l = (layout_ok l \<and> set (layoutHosts l) = set ps)"

lemma keeps_hosts: "keeps l m \<Longrightarrow> in_step ps l \<Longrightarrow> in_step ps m"
  unfolding keeps_def in_step_def hosts_tally [symmetric] by (auto dest: mset_eq_setD)

lemma rail_apply_ok:
  assumes "in_step ps l" and "rail_action_ok l a"
  shows "in_step ps (rail_apply ps a l)"
proof (cases "a = Reconcile")
  case False
  have ok: "layout_ok l" using assms(1) by (simp add: in_step_def)
  with assms(2) False have "keeps l (rail_apply ps a l)"
    by (cases a) (simp_all add: move_server_ok move_out_ok group_ok group_next_ok ungroup_ok move_item_ok shift_ok keeps_refl
        renameFolder_def setFolderColor_def toggleCollapsed_def map_folder_ok del: concat_map_singleton)
  then show ?thesis using assms(1) by (rule keeps_hosts)
next
  case True
  then show ?thesis using reconcile_ok by (simp add: in_step_def)
qed

interpretation rail: invariant_system "rail_step ps" "reconcileLayout l0 ps" "in_step ps"
  by unfold_locales (auto simp: rail_step_def in_step_def [of _ "reconcileLayout l0 ps"] reconcile_ok intro: rail_apply_ok)

text \<open>C15: Whatever layout was stored, after it has been brought in step with the saved servers no sequence of moves, groupings and
  renamings loses a server or shows one twice: the rail holds each saved server exactly once, under distinct folders of
  which none is empty, and bringing it in step again changes nothing.\<close>

theorem rail_shows_every_server:
  assumes "runs (rail_step ps) (reconcileLayout l0 ps) acts l"
  shows "distinct (layoutHosts l) \<and> set (layoutHosts l) = set ps \<and> distinct (concat (map item_ids l)) \<and> list_all full l \<and> reconcileLayout l ps = l"
  using rail.reachable_inv [OF assms] reconcile_noop [of l ps] by (auto simp: in_step_def layout_ok_def)

definition rail_hosts :: "jstring list" where
  "rail_hosts = [js_lit ''a'', js_lit ''b'', js_lit ''c'']"

theorem rail_shows_every_server_witness:
  "\<exists>l. runs (rail_step rail_hosts) (reconcileLayout [Server_item (js_lit ''old'')] rail_hosts)
       [Group (js_lit ''c'') (js_lit ''a'') (js_lit ''f1''), Shift (Folder_ref (js_lit ''f1'')) True] l \<and>
     set (layoutHosts l) = set rail_hosts"
proof -
  let ?l0 = "reconcileLayout [Server_item (js_lit ''old'')] rail_hosts"
  let ?l1 = "rail_apply rail_hosts (Group (js_lit ''c'') (js_lit ''a'') (js_lit ''f1'')) ?l0"
  have "rail_action_ok ?l0 (Group (js_lit ''c'') (js_lit ''a'') (js_lit ''f1''))" by code_simp
  then have "runs (rail_step rail_hosts) ?l0 [Group (js_lit ''c'') (js_lit ''a'') (js_lit ''f1''), Shift (Folder_ref (js_lit ''f1'')) True]
      (rail_apply rail_hosts (Shift (Folder_ref (js_lit ''f1'')) True) ?l1)"
    by (auto simp: rail_step_def intro!: runs_Cons runs_Nil)
  from rail_shows_every_server [OF this] this show ?thesis by blast
qed

section \<open>Out of a folder\<close>

lemma without_elsewhere: "h \<notin> set (layoutHosts l) \<Longrightarrow> list_all full l \<Longrightarrow> withoutServer l h = l"
proof (induction l)
  case (Cons i l)
  have "withoutServer (i # l) h = withoutServer [i] h @ withoutServer l h" by (simp add: withoutServer_def pruneItems_def)
  moreover have "withoutServer [i] h = [i]"
  proof (cases i)
    case (Folder_item f)
    then have "filter (\<lambda>x. x \<noteq> h) (fo_hosts f) = fo_hosts f" using Cons.prems by (auto simp: filter_id_conv)
    then show ?thesis using Cons.prems Folder_item by (simp add: withoutServer_def pruneItems_def dropHost_def)
  next
    case (Server_item x)
    then show ?thesis using Cons.prems by (auto simp: withoutServer_def pruneItems_def dropHost_def)
  qed
  ultimately show ?case using Cons by simp
qed (simp add: withoutServer_def pruneItems_def)

lemma without_append: "withoutServer (l @ m) h = withoutServer l h @ withoutServer m h"
  by (simp add: withoutServer_def pruneItems_def)

lemma folderOf_split: "h \<notin> set (layoutHosts xs) \<Longrightarrow> h \<in> set (fo_hosts f) \<Longrightarrow> folderOf (xs @ Folder_item f # ys) h = Some f"
  by (induction xs h rule: folderOf.induct) auto

lemma find_index_end: "(\<And>x. x \<in> set xs \<Longrightarrow> \<not> P x) \<Longrightarrow> P y \<Longrightarrow> find_index P (xs @ y # ys) = Some (length xs)"
  by (induction xs) auto

lemma only_host: "distinct xs \<Longrightarrow> h \<in> set xs \<Longrightarrow> filter (\<lambda>x. x \<noteq> h) xs = [] \<longleftrightarrow> xs = [h]"
proof (induction xs)
  case (Cons a xs)
  show ?case
  proof (cases "a = h")
    case True
    with Cons.prems have "filter (\<lambda>x. x \<noteq> h) xs = xs" by (auto simp: filter_id_conv)
    with True show ?thesis by simp
  next
    case False
    then show ?thesis by auto
  qed
qed simp

lemma folder_place:
  assumes "layout_ok (xs @ Folder_item f # ys)" and "h \<in> set (fo_hosts f)"
  shows "withoutServer (xs @ Folder_item f # ys) h =
    xs @ (if fo_hosts f = [h] then [] else [Folder_item (f\<lparr>fo_hosts := filter (\<lambda>x. x \<noteq> h) (fo_hosts f)\<rparr>)]) @ ys"
proof -
  have "withoutServer [Folder_item f] h = (if filter (\<lambda>x. x \<noteq> h) (fo_hosts f) = [] then [] else [Folder_item (f\<lparr>fo_hosts := filter (\<lambda>x. x \<noteq> h) (fo_hosts f)\<rparr>)])"
    by (auto simp: withoutServer_def pruneItems_def dropHost_def)
  moreover have "filter (\<lambda>x. x \<noteq> h) (fo_hosts f) = [] \<longleftrightarrow> fo_hosts f = [h]"
    using assms by (intro only_host) (simp_all add: layout_ok_def)
  moreover have "withoutServer xs h = xs" "withoutServer ys h = ys"
    using assms by (auto simp: layout_ok_def intro!: without_elsewhere)
  moreover have "withoutServer (xs @ Folder_item f # ys) h = withoutServer xs h @ withoutServer [Folder_item f] h @ withoutServer ys h"
    using without_append [of xs "Folder_item f # ys"] without_append [of "[Folder_item f]" ys] by simp
  ultimately show ?thesis by simp
qed

lemma insertAt_length: "insertAt (xs @ ys) (int (length xs)) x = xs @ x # ys"
  by (simp add: insertAt_def Let_def)

lemma insertAt_after: "insertAt (xs @ y # ys) (int (length xs) + 1) x = xs @ y # x # ys"
  using insertAt_length [of "xs @ [y]" ys x] by (simp add: add.commute)

text \<open>A server taken out of its folder lands right after the folder, as documented, unless it was the folder's only one. Then
  the folder goes, and the server is not put in its place: it lands at the end of the rail.\<close>

theorem out_of_folder_place:
  assumes "layout_ok (xs @ Folder_item f # ys)" and "h \<in> set (fo_hosts f)"
  shows "moveOutOfFolder (xs @ Folder_item f # ys) h =
    (if fo_hosts f = [h] then xs @ ys @ [Server_item h]
     else xs @ [Folder_item (f\<lparr>fo_hosts := filter (\<lambda>x. x \<noteq> h) (fo_hosts f)\<rparr>), Server_item h] @ ys)"
proof -
  have out: "\<And>it. it \<in> set xs \<union> set ys \<Longrightarrow> \<not> sameRef it (Folder_ref (fo_id f))"
    using assms(1) unfolding folder_ref_ids by (auto simp: layout_ok_def)
  have "h \<notin> set (layoutHosts xs)" using assms by (auto simp: layout_ok_def)
  then have "folderOf (xs @ Folder_item f # ys) h = Some f" using assms(2) by (rule folderOf_split)
  moreover have "find_index (\<lambda>i. sameRef i (Folder_ref (fo_id f))) (xs @ ys) = None" using out by (auto simp: find_index_None)
  moreover have "find_index (\<lambda>i. sameRef i (Folder_ref (fo_id f))) (xs @ Folder_item (f\<lparr>fo_hosts := hs\<rparr>) # ys) = Some (length xs)" for hs
    using out by (intro find_index_end) auto
  ultimately show ?thesis
    using insertAt_length [of "xs @ ys" "[]" "Server_item h"] by (simp add: moveOutOfFolder_def folder_place [OF assms] insertAt_after)
qed

theorem out_of_folder_place_witness:
  "moveOutOfFolder [Folder_item (newFolder (js_lit ''f'') [js_lit ''a'']), Server_item (js_lit ''b'')] (js_lit ''a'') =
     [Server_item (js_lit ''b''), Server_item (js_lit ''a'')]"
proof -
  have "layout_ok ([] @ Folder_item (newFolder (js_lit ''f'') [js_lit ''a'']) # [Server_item (js_lit ''b'')])" by code_simp
  from out_of_folder_place [OF this, of "js_lit ''a''"] show ?thesis by (simp add: newFolder_def)
qed

section \<open>The saved copy is the layout\<close>

definition item_valid :: "rail_item \<Rightarrow> bool" where
  "item_valid it = (list_all (\<lambda>h. h \<noteq> []) (item_hosts it) \<and> (case it of
     Server_item _ \<Rightarrow> True
   | Folder_item f \<Rightarrow> fo_id f \<noteq> [] \<and> length (fo_name f) \<le> FOLDER_NAME_MAX \<and> fo_color f \<in> set FOLDER_COLORS))"

lemma string_array_back: "list_all (\<lambda>h. h \<noteq> []) hs \<Longrightarrow> stringArray (map JString hs) = Some hs"
  by (induction hs) auto

lemma string_array_valid: "stringArray vs = Some hs \<Longrightarrow> list_all (\<lambda>h. h \<noteq> []) hs"
  by (induction vs arbitrary: hs rule: stringArray.induct) (auto split: json.splits if_splits)

lemma kind_distinct: "js_lit ''folder'' \<noteq> js_lit ''server''"
  by (simp add: js_lit_def)

lemma parse_entry_back: "item_valid it \<Longrightarrow> parseEntry (itemJson it) = Some it"
  by (cases it) (auto simp: item_valid_def itemJson_def parseEntry_def parseFolder_def jsonString_def isStringArray_def string_array_back kind_distinct)

lemma default_color: "DEFAULT_COLOR \<in> set FOLDER_COLORS"
  by (simp add: DEFAULT_COLOR_def FOLDER_COLORS_def)

lemma parse_folder_valid: "parseFolder e = Some f \<Longrightarrow> item_valid (Folder_item f)"
  by (auto simp: parseFolder_def item_valid_def isStringArray_def default_color split: option.splits json.splits if_splits dest!: string_array_valid)

lemma parse_entry_valid: "parseEntry j = Some it \<Longrightarrow> item_valid it"
  by (auto simp: parseEntry_def parse_folder_valid split: json.splits if_splits option.splits) (simp_all add: item_valid_def)

lemma parse_entries_back: "list_all item_valid l \<Longrightarrow> parseEntries (map itemJson l) = Some l"
  by (induction l) (auto simp: parse_entry_back)

lemma parse_entries_valid: "parseEntries js = Some l \<Longrightarrow> list_all item_valid l"
  by (induction js arbitrary: l) (auto split: option.splits dest: parse_entry_valid)

lemma parse_valid: "parseLayout j = Some l \<Longrightarrow> list_all item_valid l"
  by (auto simp: parseLayout_def split: json.splits dest: parse_entries_valid)

text \<open>C30: A layout that was saved is loaded unchanged at the next start, and any layout that was loaded can be saved so: what a
  corrupted or foreign copy gives is the empty layout or one that has the form of a saved one.\<close>

theorem layout_round_trip:
  assumes "\<And>j. JSON_parse (JSON_stringify j) = Some j" and "l = loadLayout JSON_parse st0 \<or> list_all item_valid l"
  shows "loadLayout JSON_parse (saveLayout JSON_stringify l (Some m)) = l"
proof -
  have "list_all item_valid (loadLayout JSON_parse st0)"
    by (auto simp: loadLayout_def loadStoredJson_def nullish_def split: option.splits bind_splits dest: parse_valid)
  with assms have "parseLayout (JArray (map itemJson l)) = Some l" by (auto simp: parseLayout_def parse_entries_back)
  then show ?thesis
    by (simp add: loadLayout_def saveLayout_def saveStoredJson_def writeStored_def loadStoredJson_def readStored_def assms(1))
qed

theorem layout_round_trip_witness:
  "let l = [Server_item (js_lit ''b''), Folder_item (newFolder (js_lit ''f'') [js_lit ''a''])]
   in loadLayout Some (saveLayout (\<lambda>j. j) l (Some [])) = l"
proof -
  have "list_all item_valid [Server_item (js_lit ''b''), Folder_item (newFolder (js_lit ''f'') [js_lit ''a''])]" by code_simp
  with layout_round_trip [of Some "\<lambda>j. j" "[Server_item (js_lit ''b''), Folder_item (newFolder (js_lit ''f'') [js_lit ''a''])]" None "[]"]
  show ?thesis by simp
qed

end
