(* ===== verification/Spec2Isabelle.thy ===== *)
theory Spec2Isabelle
  imports Permissions Rate_Limiter Store Ws_Client Presence_Copies Server_Sets Pending_Outbox Session_Reset Send_Queue Reconciler Voice_Moderation Peer_Trust_Safety Rail_Layout
begin

text \<open>
  \<^bold>\<open>The client state of OwnCord.\<close> OwnCord is a self-hosted chat program: a Go server
  (\<open>src/Server\<close>), a desktop shell (\<open>src/Client/src-tauri\<close>) and a TypeScript client
  (\<open>src/Client/src\<close>). The client keeps what it shows in stores (\<open>stores/*.store.ts\<close>), each an
  instance of the reactive store of \<open>lib/store.ts\<close>. Frames of the WebSocket, pages of the REST
  interface and the user's own actions reach a store through its exported mutators; a mutator hands a
  pure reducer to \<open>setState\<close>, and the views subscribe to slices of the state. The frames come from the
  socket client (\<open>lib/ws.ts\<close>), which dials, authenticates, notices a dead connection and redials, and
  are routed by type to handlers (\<open>features/*/wsHandlers.ts\<close>) that update several stores for one frame.
  This development models the reducers, the stores they belong to, the libraries under them, the socket
  client and the handlers, and proves what makes them correct: no message is shown twice or lost,
  whatever the order in which pages, broadcasts, acknowledgements and errors arrive; a badge counts a
  message once; a connection that was not closed on purpose always has a timer that brings it back; what
  the reader typed survives a restart and nothing of a session survives its end; a moderator's mute is lifted
  to what the member chose; and a redrawn list has one row per item.

  \<^bold>\<open>Theories.\<close> Paths are below \<open>src/Client/src\<close>.

  \<^item> \<open>Prelude\<close>: what the code uses of the language. Maps and sets in insertion order (\<open>Map\<close>, \<open>Set\<close>),
    with the locales \<open>js_map\<close> and \<open>js_set\<close> stating their laws; \<open>??\<close>, \<open>findIndex\<close>, \<open>slice\<close>,
    \<open>toSorted\<close>; strings; runs of a component and the locale \<open>invariant_system\<close>, which every store
    interprets to get its invariant for all reachable states.
  \<^item> \<open>Message_Model\<close>: the wire records of \<open>lib/wireCommon.ts\<close>, \<open>lib/wireServer.ts\<close> and
    \<open>lib/types.ts\<close> that messages use, and \<open>features/messaging/messageModel.ts\<close>: the row, the state of
    the messages store, the converters, the cap of 500 rows. It defines the well-formedness of a state
    (\<open>store_ok\<close>): a channel has one entry, its rows carry each server id once, exactly the unsent
    rows carry none.
  \<^item> \<open>Poll_State\<close>: \<open>lib/pollState.ts\<close>. A poll never moves back, and updates commute.
  \<^item> \<open>Echo_Reconcile\<close>: \<open>features/messaging/echoReconcile.ts\<close>. Whether a server row is the echo of an
    unsent one, over UTF-16 code units. Entity decoding raises \<open>RangeError\<close> on a code point above
    10FFFF, so this part and its callers return \<open>js_error + 'a\<close>.
  \<^item> \<open>Live_Messages\<close>: \<open>features/messaging/liveMessages.ts\<close>. Broadcasts, optimistic rows,
    acknowledgements and failures.
  \<^item> \<open>History_Windows\<close>: \<open>features/messaging/historyWindows.ts\<close>. Pages of history merged into the window
    of rows a channel shows.
  \<^item> \<open>Message_Edits\<close>: \<open>features/messaging/messageEdits.ts\<close> and \<open>lib/text/messageKind.ts\<close>. Edits,
    deletes, purges, pins, and the quoted snippets of replies.
  \<^item> \<open>Reaction_State\<close>: \<open>features/messaging/reactionState.ts\<close>. Optimistic reactions, echo, rollback.
  \<^item> \<open>Messages_Store\<close>: \<open>stores/messages.store.ts\<close>. The mutators as actions, the runs of the store, the
    selectors.
  \<^item> \<open>Channels_Store\<close>: \<open>stores/channels.store.ts\<close>. Channels, unread counts, categories and the sidebar.
  \<^item> \<open>Threads_Store\<close>: \<open>stores/threads.store.ts\<close> and \<open>stores/followedThreads.store.ts\<close>. Threads, the
    followed ones with their counts, and the sidebar view derived from them.
  \<^item> \<open>Threads_Loader\<close>: \<open>stores/threadsLoader.ts\<close> and \<open>features/messaging/threadFrames.ts\<close>. The store of
    threads is imported on first use; calls made meanwhile wait in a queue.
  \<^item> \<open>Members_Store\<close>: \<open>stores/members.store.ts\<close>. The roster, presence, and typing marks with their timers.
  \<^item> \<open>Dm_Store\<close>: \<open>stores/dm.store.ts\<close>, \<open>lib/dmUnread.ts\<close> and \<open>features/direct-messages/wsHandlers.ts\<close>.
    Conversations, and their mirror rows in the channels store.
  \<^item> \<open>Blocks_Store\<close>, \<open>Auth_Store\<close>: \<open>stores/blocks.store.ts\<close>, \<open>stores/auth.store.ts\<close>.
  \<^item> \<open>Mentions\<close>: \<open>lib/text/mentions.ts\<close>. The two regular expressions as matchers, and who a message mentions.
  \<^item> \<open>Read_State\<close>: \<open>lib/readState.ts\<close>. The read pointer, Mark Unread, and the paced Mark All as Read.
  \<^item> \<open>Chat_Handlers\<close>: \<open>features/messaging/wsHandlers.ts\<close>. The message frames over all the stores.
  \<^item> \<open>Mention_Alerts\<close>, \<open>Channel_Handlers\<close>: \<open>features/channels/wsHandlers.ts\<close>. The alert that a rise of a
    mention total owes, and the frames of channels, read state, presence and members.
  \<^item> \<open>Presence_Copies\<close>: the presence of a person in the roster and in the conversations, through the
    frames of \<open>Channel_Handlers\<close>.
  \<^item> \<open>Emoji_Store\<close>, \<open>Stickers_Store\<close>: \<open>stores/emoji.store.ts\<close>, \<open>stores/stickers.store.ts\<close>. The
    server's own emoji and stickers, with the revision that dates an answer.
  \<^item> \<open>Server_Sets\<close>: the frames and the requests of \<open>ready\<close> that replace those sets and the block list.
  \<^item> \<open>Pending_Messages\<close>: \<open>lib/pendingMessages.ts\<close>. The outbox that keeps unsent text over a restart: the
    queue of a login, and the chain of storage operations, of which one is under way at a time.
    \<open>Pending_Chain\<close> has the invariant of the queues and the chain, \<open>Pending_Outbox\<close> what the outbox
    promises.
  \<^item> \<open>Session_Registry\<close>: \<open>lib/net/sessionRegistry.ts\<close>. The resets a module registers, run in phases.
  \<^item> \<open>Session_Reset\<close>: \<open>clearAuth\<close> of \<open>stores/auth.store.ts\<close> and the hook of \<open>main.ts\<close>. The end of a
    session over all the stores.
  \<^item> \<open>Send_Queue\<close>: \<open>features/messaging/sendQueue.ts\<close>. A message that waits for its uploads, as a state
    machine whose events are settled uploads, timers and the reader's buttons.
  \<^item> \<open>Ws_Config\<close>, \<open>Ws_Client\<close>: \<open>lib/wsConfig.ts\<close>, \<open>lib/net/hostNormalize.ts\<close> and \<open>lib/ws.ts\<close>. The
    connection as a state machine whose events are calls, transport reports, frames and timers.
  \<^item> \<open>Permissions\<close>: \<open>lib/permissions.ts\<close> and the \<open>Permission\<close> enum. Masks are integers, and the
    bit operators go through \<open>32 word\<close>, as the language's do.
  \<^item> \<open>Sliding_Window\<close>, \<open>Rate_Limiter\<close>: \<open>lib/net/rateLimiter.ts\<close>. Stamps inside a window, and the limiter
    on an explicit clock; \<open>Read_State\<close> uses the same window for its bursts.
  \<^item> \<open>Voice_Store\<close>: \<open>stores/voice.store.ts\<close> and \<open>lib/voice/voiceDeafened.ts\<close>. Who is in which call, the
    local flags, the speaking rings, the streams and their viewers. \<open>Voice_Rings\<close> has the invariant of the
    rings and what survives a restart.
  \<^item> \<open>Voice_Join\<close>: \<open>features/voice/joinBackoff.ts\<close>, \<open>joinRequest.ts\<close>, \<open>leaveOwed.ts\<close>, \<open>moveHint.ts\<close> and
    \<open>lib/voice/watchRequest.ts\<close>. The small memories around a join, a leave and a move.
  \<^item> \<open>Voice_Handlers\<close>: \<open>features/voice/wsHandlers.ts\<close>, with the two operations of
    \<open>features/voice/mediaControl.ts\<close> that moderation calls. The voice frames; what goes through the media
    session, which is imported on first use, is a task that runs later.
  \<^item> \<open>Connection_Handlers\<close>: \<open>features/connection/wsHandlers.ts\<close>. The handshake, refused logins, announced
    restarts, errors of the connection.
  \<^item> \<open>Voice_Moderation\<close>: the frames of the two theories above together: moderation against the member's own
    choice, late frames, the return to a call after a restart.
  \<^item> \<open>Identity_Pins\<close>: \<open>lib/net/identityPins.ts\<close> and the pin operations of \<open>lib/net/identity.ts\<close>. The identity keys a
    peer is trusted for, as one string in the platform's store.
  \<^item> \<open>Peer_Trust\<close>: \<open>features/voice/e2eePeerState.ts\<close> and the announce, re-pin, leave and teardown paths of
    \<open>lib/voice/livekitE2EE.ts\<close>. Whose call key is accepted, with every \<open>await\<close> as a step; \<open>Peer_Trust_Safety\<close>
    has what it promises.
  \<^item> \<open>Rail_Layout\<close>: \<open>lib/prefs/serverRailLayout.ts\<close> and the storage access of \<open>lib/prefs/preferences.ts\<close>. The
    order of the servers in the rail and their folders.
  \<^item> \<open>Increasing_Run\<close>, \<open>Reconciler\<close>: \<open>lib/net/reconcile.ts\<close>. A list of rows redrawn by key, with the
    fewest moves.
  \<^item> \<open>Store\<close>: \<open>lib/store.ts\<close>. Updates, notifications and re-entrancy as a step relation in which
    listeners may do anything, and the equality test of selector subscriptions.

  \<^bold>\<open>Conventions.\<close> A record is a record, with the field names of the source behind a prefix where
  two records share a name; an absent optional field is \<open>None\<close>, and where the code tells absent from
  null there are two layers of option. Ids and counts are \<open>int\<close>: the code uses numbers that stay
  below \<open>2 ^ 53\<close>. A reducer that returns its argument unchanged does so here as well; identity of
  references is modelled only where a result depends on it (\<open>shallowEqual\<close>). Translation functions,
  \<open>Date.parse\<close> and the clock, which are not part of these files, are arguments; a handler that reads
  several of them takes an environment record (\<open>chat_env\<close>, \<open>read_env\<close>). What a handler asks of the
  world (a frame to send, a request, a notification, a toast) is appended to a list of effects, and the
  answer to a request is a step of its own, so that anything may happen in between. A timer is the time
  at which it is due; its callback is a definition, and a run may fire it when the clock has reached it.

  \<^bold>\<open>Interfaces.\<close> \<open>js_map\<close> and \<open>js_set\<close> are the collections of the language; \<open>invariant_system\<close> is a
  component with a step function and an invariant, interpreted by the messages, channels, members and
  threads stores, by the store library, the paced queue and the socket client; \<open>watermark_counter\<close> is a
  counter that ignores an id at or below its watermark, interpreted by the unread counts of channels,
  conversations and followed threads; \<open>revision_guard\<close> is a set that drops an answer older than its
  revision, interpreted by the blocks, emoji and stickers stores. \<open>invariant_system\<close> also carries the emoji
  and voice stores, the outbox, the trust in call keys and the server rail. \<open>row_visitor\<close> is what one row's visit promises the shared pass of the reconciler,
  interpreted by its two entry points.

  \<^bold>\<open>Termination and fuel.\<close> Every definition is total. \<open>stripTags\<close> and the replacement passes recurse
  on a shrinking text, with a measure. \<open>echoNormalizeLoop\<close> counts down the source's own bound of 20
  passes, and a lemma shows that texts of up to 40 code units reach their fixpoint within it. The
  drain loop of the store may run for ever when listeners keep updating, and is a step relation. A queued
  send has finished after two rounds of answered uploads. The binary search and the comparison of row models
  have a measure; the walk over the back pointers of the longest run is a \<open>partial_function\<close>, and it is
  proved to return.

  \<^bold>\<open>What is assumed of the server\<close> stands in the hypotheses by name: pages in id order
  (\<open>newest_first\<close>, \<open>oldest_first\<close>), positive message ids, and an error frame only for a send that
  was not confirmed (\<open>action_ok\<close>). Of the platform the outbox relies on \<open>JSON.parse\<close> undoing
  \<open>JSON.stringify\<close>; the storage may refuse any call, except where a property says it answers. Of the cryptography
  nothing is assumed: a property says which check has succeeded.

  \<^bold>\<open>What the properties show.\<close> For the messages store: the invariant of all reachable states; one row
  per message under every order of acknowledgement and broadcast; that a page merge keeps unsent rows,
  drops stale ones, matches echoes one to one, keeps the rows in id order and never trims the row the
  reader looks at; deletes that leave no quoted text; reactions that count once and roll back without
  trace; polls that never move back. For the channels store: consent that never outlives its label,
  counting a message once, the sidebar as a partition of the channels in order. For threads: a deleted
  thread stays gone, the sidebar's view is always the one derived from the store, and loading the store
  late is not observable. For members: a typing mark always has a timer that clears it. For
  conversations: after \<open>ready\<close> the two copies of the counts agree, and a refused close puts the row back.
  For read state: the server's burst limit is never exceeded and the queue empties; a channel marked unread stays
  so until it is seen again; a refusal puts the pointer back. For the frames: which badge a
  message raises, once; pending sends and reactions settle when the socket drops; a rise of a mention
  total alerts once. For the socket: every state that is not a deliberate stop has a timer or an attempt under
  way, a stop dials no more, silence is detected in bounded time, and the resume point is the highest
  sequence number. For the libraries: exact permissions of a member with several roles, the budget of
  the limiter, no stale subscriber and serial updates in the store. For the outbox: the saved copy is that
  of the queue once the storage has answered, an acknowledged message leaves it even during the load, a
  discarded copy stays gone, what was saved is recovered, and a new id is one the decoder accepts. For
  the end of a session: every modelled store is empty, whatever else is registered and throws. For
  presence: the copies in the roster and in the conversations agree. For a queued send: it ends once,
  a cancelled one never dispatches, and what it dispatches is fresh. For voice: a lit ring says no more
  than is sent, in every reachable state; what is in effect on the microphone and the ears is the member's
  choice or what the last frame imposes; a late leave or kick does not end a newer call; the call an announced
  restart interrupts is joined again once; failing joins are paced; the own mute survives a restart. For call
  keys: a verified badge was earned by a signature, a pinned peer's key is never replaced without one, work for a
  peer who left is inert, a stored pin is trusted at the next lookup, and a key given up stays out when it is
  replayed in its exported form. For the rail: each saved server exactly once, and a saved copy that is loaded
  unchanged. For the
  reconciler: one row per item in order, each drawing its item, and as many rows left in place as any order
  of moves could leave.

  Eleven findings state where the code departs from what it means or says: a character reference that
  makes the echo test throw, an error that reaches a confirmed row, a throwing updater that drops a
  batch, an equality test that misses a change, a category the picker drops, a conversation's mirror row
  that counts a message again after \<open>ready\<close> (against two comments), a refused Mark Unread that leaves a
  pointer where none was known, a moderator's deafen that outlives its lift when both arrive before the
  media session has loaded, a replayed call key that passes the replay test in another spelling, and a server
  taken out of a folder of one, which lands at the end of the rail.

  \<^bold>\<open>Not modelled.\<close> Rendering and styling (\<open>components\<close>, \<open>pages\<close>), translations (\<open>i18n\<close>), the media
  session (\<open>features/voice\<close> beside the files above, \<open>lib/voice\<close>: WebRTC, devices, the room key with its offers and
  rotation, the encryption of media), the own identity key pair,
  file transfer and notifications, the shell and the server. Of the socket client the latency probe
  \<open>ping\<close> and the registries of listeners; of the frames those of message requests, which only refetch or replace
  a list; of a queued send its strip of progress bars; of the reconciler the focus it carries over to a
  rebuilt row. The store of the window layout is state around rendering.
\<close>

end
